(* ===== verification/QPrelude.thy ===== *)
theory QPrelude
  imports Complex_Main "HOL-Library.AList"
begin

text \<open>
  Prelude of the development: Python exceptions as values, sequencing of fallible
  and stateful steps, dictionaries in insertion order, list slices, and the small
  facts about them that every component uses.

  A Python function that only computes is a HOL function into \<open>py_exc + 'a\<close>
  (\<open>Inl\<close> is a raised exception). A method that also changes state returns the
  outcome together with the state at the moment it returned or raised, because an
  exception does not undo the assignments made before it.
\<close>

datatype py_exc =
    KeyError string
  | ValueError string
  | TypeError string
  | AttributeError string
  | ZeroDivisionError
  | OverflowError
  | JSONDecodeError
  | ValidationError string
  | RuntimeError string
  | SystemExit string
  | HTTPException nat string
  | HttpxError string
  | UnicodeDecodeError
  | SdkError string
  | OSError string
  | IndexError

type_synonym 'a result = "py_exc + 'a"

type_synonym ('s, 'a) outcome = "(py_exc + 'a) \<times> 's"

named_theorems outcome_simps \<open>unfolding of sequenced steps\<close>
named_theorems dict_simps \<open>facts about insertion-ordered dictionaries\<close>

section \<open>Sequencing\<close>

definition bindR :: "'e + 'a \<Rightarrow> ('a \<Rightarrow> 'e + 'b) \<Rightarrow> 'e + 'b" where
  "bindR r f = (case r of Inl e \<Rightarrow> Inl e | Inr x \<Rightarrow> f x)"

lemma bindR_simps [simp]:
  "bindR (Inl e) f = Inl e"
  "bindR (Inr x) f = f x"
  by (simp_all add: bindR_def)

lemma bindR_Inr_iff: "bindR r f = Inr y \<longleftrightarrow> (\<exists>x. r = Inr x \<and> f x = Inr y)"
  by (cases r) auto

lemma bindR_Inl_iff:
  "bindR r f = Inl e \<longleftrightarrow> r = Inl e \<or> (\<exists>x. r = Inr x \<and> f x = Inl e)"
  by (cases r) auto

definition bindS :: "('s, 'a) outcome \<Rightarrow> ('a \<Rightarrow> 's \<Rightarrow> ('s, 'b) outcome) \<Rightarrow> ('s, 'b) outcome" where
  "bindS r f = (case r of (Inl e, s) \<Rightarrow> (Inl e, s) | (Inr x, s) \<Rightarrow> f x s)"

lemma bindS_simps [simp]:
  "bindS (Inl e, s) f = (Inl e, s)"
  "bindS (Inr x, s) f = f x s"
  by (simp_all add: bindS_def)

fun mapR :: "('a \<Rightarrow> 'e + 'b) \<Rightarrow> 'a list \<Rightarrow> 'e + 'b list" where
  "mapR f [] = Inr []"
| "mapR f (x # xs) = bindR (f x) (\<lambda>y. bindR (mapR f xs) (\<lambda>ys. Inr (y # ys)))"

lemma mapR_Inr: "(\<And>x. x \<in> set xs \<Longrightarrow> f x = Inr (g x)) \<Longrightarrow> mapR f xs = Inr (map g xs)"
  by (induction xs) auto

lemma mapR_length: "mapR f xs = Inr ys \<Longrightarrow> length ys = length xs"
  by (induction xs arbitrary: ys) (auto simp: bindR_Inr_iff)

lemma mapR_Inr_nth:
  "mapR f xs = Inr ys \<Longrightarrow> i < length xs \<Longrightarrow> f (xs ! i) = Inr (ys ! i)"
  by (induction xs arbitrary: ys i)
     (auto simp: bindR_Inr_iff nth_Cons split: nat.splits)

lemma mapR_Inl:
  "mapR f xs = Inl e \<Longrightarrow> \<exists>x \<in> set xs. f x = Inl e"
  by (induction xs) (auto simp: bindR_Inl_iff)

lemma mapR_Inl_ex:
  "x \<in> set xs \<Longrightarrow> f x = Inl e \<Longrightarrow> \<exists>e'. mapR f xs = Inl e'"
proof (induction xs)
  case Nil
  then show ?case by simp
next
  case (Cons y ys)
  then show ?case by (cases "f y"; cases "mapR f ys") auto
qed

text \<open>A validation that answers \<open>None\<close> for a rejected value, over a list.\<close>

fun mapO :: "('a \<Rightarrow> 'b option) \<Rightarrow> 'a list \<Rightarrow> 'b list option" where
  "mapO f [] = Some []"
| "mapO f (x # xs) =
     (case f x of None \<Rightarrow> None
      | Some y \<Rightarrow> (case mapO f xs of None \<Rightarrow> None | Some ys \<Rightarrow> Some (y # ys)))"

lemma mapO_map: "(\<And>x. x \<in> set xs \<Longrightarrow> f (g x) = Some x) \<Longrightarrow> mapO f (map g xs) = Some xs"
  by (induction xs) auto

lemma mapO_length: "mapO f xs = Some ys \<Longrightarrow> length ys = length xs"
  by (induction xs arbitrary: ys) (auto split: option.splits)

section \<open>Insertion-ordered dictionaries\<close>

text \<open>
  A Python \<open>dict\<close> is an association list with distinct keys: assignment to a key
  already present keeps its place, a new key goes to the end. That is
  \<open>AList.update\<close>; \<open>map_of\<close> is lookup.
\<close>

type_synonym ('k, 'v) dict = "('k \<times> 'v) list"

definition dict_set :: "'k \<Rightarrow> 'v \<Rightarrow> ('k, 'v) dict \<Rightarrow> ('k, 'v) dict" where
  "dict_set k v d = AList.update k v d"

definition dict_keys :: "('k, 'v) dict \<Rightarrow> 'k list" where
  "dict_keys d = map fst d"

definition dict_values :: "('k, 'v) dict \<Rightarrow> 'v list" where
  "dict_values d = map snd d"

definition dict_ok :: "('k, 'v) dict \<Rightarrow> bool" where
  "dict_ok d \<longleftrightarrow> distinct (map fst d)"

definition dict_get :: "('k, 'v) dict \<Rightarrow> 'k \<Rightarrow> 'v \<Rightarrow> 'v" where
  "dict_get d k v = (case map_of d k of None \<Rightarrow> v | Some w \<Rightarrow> w)"

text \<open>A dict comprehension: later items overwrite earlier ones in place.\<close>

definition dict_of :: "('k \<times> 'v) list \<Rightarrow> ('k, 'v) dict" where
  "dict_of kvs = fold (\<lambda>(k, v). dict_set k v) kvs []"

lemma dict_set_lookup [simp, dict_simps]:
  "map_of (dict_set k v d) = (map_of d)(k \<mapsto> v)"
  by (simp add: dict_set_def update_conv')

lemma dict_set_keys [dict_simps]:
  "map fst (dict_set k v d) = (if k \<in> fst ` set d then map fst d else map fst d @ [k])"
  by (induction d) (auto simp: dict_set_def)

lemma dict_set_ok [simp, intro, dict_simps]: "dict_ok d \<Longrightarrow> dict_ok (dict_set k v d)"
  unfolding dict_ok_def by (auto simp: dict_set_keys)

lemma dict_ok_Nil [simp]: "dict_ok []"
  by (simp add: dict_ok_def)

lemma dict_set_new:
  "k \<notin> fst ` set d \<Longrightarrow> dict_set k v d = d @ [(k, v)]"
  by (induction d) (auto simp: dict_set_def)

lemma dict_set_length:
  "length (dict_set k v d) = (if k \<in> fst ` set d then length d else Suc (length d))"
  using arg_cong [OF dict_set_keys [of k v d], of length] by simp

lemma dict_set_values:
  "set (dict_values (dict_set k v d)) \<subseteq> insert v (set (dict_values d))"
  by (induction d) (auto simp: dict_set_def dict_values_def)

lemma fold_dict_set_append:
  "distinct (map fst d @ map fst kvs) \<Longrightarrow>
     fold (\<lambda>(k, v). dict_set k v) kvs d = d @ kvs"
proof (induction kvs arbitrary: d)
  case Nil
  then show ?case by simp
next
  case (Cons kv kvs)
  obtain k v where kv: "kv = (k, v)" by (cases kv)
  from Cons.prems kv have "k \<notin> fst ` set d" by auto
  then have "dict_set k v d = d @ [(k, v)]" by (rule dict_set_new)
  moreover have "distinct (map fst (d @ [(k, v)]) @ map fst kvs)"
    using Cons.prems kv by auto
  ultimately show ?case using Cons.IH [of "d @ [(k, v)]"] kv by simp
qed

lemma dict_of_id: "dict_ok d \<Longrightarrow> dict_of d = d"
  unfolding dict_of_def dict_ok_def using fold_dict_set_append [of "[]" d] by simp

lemma fold_dict_set_ok: "dict_ok d \<Longrightarrow> dict_ok (fold (\<lambda>(k, v). dict_set k v) kvs d)"
  by (induction kvs arbitrary: d) (auto split: prod.splits)

lemma dict_of_ok [simp, intro]: "dict_ok (dict_of kvs)"
  by (simp add: dict_of_def fold_dict_set_ok)

lemma fold_dict_set_lookup:
  "map_of (fold (\<lambda>(k, v). dict_set k v) kvs d) = map_of d ++ map_of (rev kvs)"
  by (induction kvs arbitrary: d) (auto split: prod.splits)

lemma dict_of_lookup: "map_of (dict_of kvs) = map_of (rev kvs)"
  by (simp add: dict_of_def fold_dict_set_lookup)

text \<open>
  The contract every keyed store of the program relies on: a lookup after an
  insert, the keys an insert adds, and no two entries under one key.
\<close>

locale keyed_store =
  fixes lookup :: "'s \<Rightarrow> 'k \<Rightarrow> 'v option"
    and insert :: "'k \<Rightarrow> 'v \<Rightarrow> 's \<Rightarrow> 's"
    and keys :: "'s \<Rightarrow> 'k list"
    and invar :: "'s \<Rightarrow> bool"
  assumes lookup_insert: "lookup (insert k v s) = (lookup s)(k \<mapsto> v)"
    and keys_insert: "keys (insert k v s) = (if k \<in> set (keys s) then keys s else keys s @ [k])"
    and keys_lookup: "k \<in> set (keys s) \<longleftrightarrow> lookup s k \<noteq> None"
    and invar_distinct: "invar s \<Longrightarrow> distinct (keys s)"
    and invar_insert: "invar s \<Longrightarrow> invar (insert k v s)"
begin

lemma insert_many_lookup:
  "lookup (fold (\<lambda>(k, v). insert k v) kvs s) k =
     (case map_of (rev kvs) k of None \<Rightarrow> lookup s k | Some v \<Rightarrow> Some v)"
  by (induction kvs arbitrary: s)
     (auto simp: lookup_insert map_add_def split: prod.splits option.splits)

lemma insert_twice_keys: "keys (insert k v (insert k w s)) = keys (insert k w s)"
  by (simp add: keys_insert)

lemma insert_keys_grow: "length (keys s) \<le> length (keys (insert k v s))"
  by (simp add: keys_insert)

lemma insert_new_count: "lookup s k = None \<Longrightarrow> length (keys (insert k v s)) = Suc (length (keys s))"
  by (simp add: keys_insert keys_lookup)

lemma insert_old_count: "lookup s k = Some w \<Longrightarrow> length (keys (insert k v s)) = length (keys s)"
  by (simp add: keys_insert keys_lookup)

end

interpretation dict: keyed_store map_of dict_set dict_keys dict_ok
proof unfold_locales
  fix k :: 'a and v :: 'b and d :: "('a \<times> 'b) list"
  show "map_of (dict_set k v d) = (map_of d)(k \<mapsto> v)" by simp
  show "dict_keys (dict_set k v d) = (if k \<in> set (dict_keys d) then dict_keys d else dict_keys d @ [k])"
    by (simp add: dict_keys_def dict_set_keys)
  show "k \<in> set (dict_keys d) \<longleftrightarrow> map_of d k \<noteq> None"
    by (simp add: dict_keys_def map_of_eq_None_iff)
  show "dict_ok d \<Longrightarrow> distinct (dict_keys d)" by (simp add: dict_ok_def dict_keys_def)
  show "dict_ok d \<Longrightarrow> dict_ok (dict_set k v d)" by simp
qed

section \<open>Lists as Python sees them\<close>

text \<open>\<open>xs[-n:]\<close> for \<open>n > 0\<close>; for \<open>n = 0\<close> Python's \<open>xs[-0:]\<close> is the whole list.\<close>

definition slice_last :: "int \<Rightarrow> 'a list \<Rightarrow> 'a list" where
  "slice_last n xs =
     (if n > 0 then drop (length xs - nat n) xs else drop (nat (- n)) xs)"

lemma slice_last_length: "n > 0 \<Longrightarrow> length (slice_last n xs) = min (nat n) (length xs)"
  by (simp add: slice_last_def)

lemma slice_last_suffix: "\<exists>ys. xs = ys @ slice_last n xs"
  unfolding slice_last_def by (metis append_take_drop_id)

text \<open>\<open>xs[i]\<close> with Python's negative indices; out of range raises.\<close>

definition py_index :: "'a list \<Rightarrow> int \<Rightarrow> 'a option" where
  "py_index xs i =
     (let n = int (length xs); j = (if i < 0 then n + i else i)
      in if 0 \<le> j \<and> j < n then Some (xs ! nat j) else None)"

lemma py_index_neg:
  "0 < k \<Longrightarrow> k \<le> length xs \<Longrightarrow> py_index xs (- int k) = Some (xs ! (length xs - k))"
  by (auto simp: py_index_def Let_def nat_diff_distrib' of_nat_diff
      intro!: arg_cong [where f = "\<lambda>i. xs ! i"])

lemma py_index_nonneg: "i < length xs \<Longrightarrow> py_index xs (int i) = Some (xs ! i)"
  by (simp add: py_index_def)

text \<open>A \<open>deque(maxlen=n)\<close>: appending to a full deque drops from the left.\<close>

definition deque_trim :: "nat \<Rightarrow> 'a list \<Rightarrow> 'a list" where
  "deque_trim n xs = drop (length xs - n) xs"

definition deque_append :: "nat \<Rightarrow> 'a \<Rightarrow> 'a list \<Rightarrow> 'a list" where
  "deque_append n x xs = deque_trim n (xs @ [x])"

lemma deque_trim_length: "length (deque_trim n xs) \<le> n"
  by (simp add: deque_trim_def)

lemma deque_append_length: "length (deque_append n x xs) \<le> n"
  by (simp add: deque_append_def deque_trim_length)

lemma deque_trim_id: "length xs \<le> n \<Longrightarrow> deque_trim n xs = xs"
  by (simp add: deque_trim_def)

lemma deque_append_full:
  "length xs = n \<Longrightarrow> 0 < n \<Longrightarrow> deque_append n x xs = tl xs @ [x]"
  by (cases xs) (auto simp: deque_append_def deque_trim_def)

lemma set_deque_append: "set (deque_append n x xs) \<subseteq> insert x (set xs)"
  by (auto simp: deque_append_def deque_trim_def dest: in_set_dropD)

end
