(* ===== verification/PyFloat.thy ===== *)
theory PyFloat
  imports QPrelude "HOL-Library.Log_Nat"
begin

text \<open>
  Python's \<open>float\<close>: IEEE 754 binary64 with round-to-nearest-even, and the part of the
  language and its standard library the program computes with: the arithmetic
  operators, comparisons, \<open>min\<close> and \<open>max\<close>, \<open>round(x, n)\<close>, \<open>int(x)\<close>, and
  \<open>statistics.mean\<close> and \<open>statistics.pstdev\<close> (exact rational sums, rounded once, as
  CPython 3.11 and later compute them).

  A finite double is \<open>Fin r\<close> with \<open>r\<close> a real number that \<open>rnd\<close> leaves unchanged; an
  operation computes in the reals and rounds once. The sign of a zero is not
  represented: no operation of the program tells \<open>-0.0\<close> from \<open>0.0\<close>.
\<close>

section \<open>Rounding to binary64\<close>

text \<open>Nearest integer, ties to even.\<close>

definition half_even :: "real \<Rightarrow> int" where
  "half_even y =
     (let f = \<lfloor>y\<rfloor>; d = y - of_int f
      in if d < 1 / 2 then f else if d > 1 / 2 then f + 1
         else if even f then f else f + 1)"

lemma half_even_of_int [simp]: "half_even (of_int i) = i"
  by (simp add: half_even_def)

lemma half_even_of_nat [simp]: "half_even (of_nat n) = int n"
  using half_even_of_int [of "int n"] by simp

lemma half_even_numeral [simp]:
  "half_even 0 = 0" "half_even 1 = 1" "half_even (numeral k) = numeral k"
  using half_even_of_int [of 0] half_even_of_int [of 1] half_even_of_int [of "numeral k"]
  by simp_all

lemma half_even_close: "\<bar>of_int (half_even y) - y\<bar> \<le> 1 / 2"
  unfolding half_even_def Let_def by (auto; linarith)

lemma half_even_floor: "half_even y = \<lfloor>y\<rfloor> \<or> half_even y = \<lfloor>y\<rfloor> + 1"
  by (simp add: half_even_def Let_def)

lemma half_even_mono: "x \<le> y \<Longrightarrow> half_even x \<le> half_even y"
proof -
  assume le: "x \<le> y"
  then have fl: "\<lfloor>x\<rfloor> \<le> \<lfloor>y\<rfloor>" by (rule floor_mono)
  show ?thesis
  proof (cases "\<lfloor>x\<rfloor> = \<lfloor>y\<rfloor>")
    case True
    then show ?thesis using le unfolding half_even_def Let_def by auto
  next
    case False
    with fl have "\<lfloor>x\<rfloor> + 1 \<le> \<lfloor>y\<rfloor>" by linarith
    then show ?thesis using half_even_floor [of x] half_even_floor [of y] by linarith
  qed
qed

lemma half_even_ge: "of_int i \<le> y \<Longrightarrow> i \<le> half_even y"
  using half_even_mono [of "of_int i" y] by simp

lemma half_even_le: "y \<le> of_int i \<Longrightarrow> half_even y \<le> i"
  using half_even_mono [of y "of_int i"] by simp

text \<open>
  \<open>subnormal_scale\<close> is the number of smallest positive doubles in one. A positive
  real is measured in these units, its significand is cut at 53 bits (\<open>cut_bits\<close>
  is the number of bits below), and rounded to even there. Below the normal range
  no bit is cut, which gives the subnormal numbers.
\<close>

definition subnormal_scale :: real where
  "subnormal_scale = 2 ^ 1074"

definition cut_bits :: "real \<Rightarrow> nat" where
  "cut_bits n = floorlog 2 (nat \<lfloor>n\<rfloor>) - 53"

definition rnd_units :: "real \<Rightarrow> real" where
  "rnd_units n = of_int (half_even (n / 2 ^ cut_bits n)) * 2 ^ cut_bits n"

definition rnd :: "real \<Rightarrow> real" where
  "rnd x = sgn x * (rnd_units (\<bar>x\<bar> * subnormal_scale) / subnormal_scale)"

lemma subnormal_scale_pos [simp]: "0 < subnormal_scale" "subnormal_scale \<noteq> 0" "0 \<le> subnormal_scale"
  by (simp_all add: subnormal_scale_def)

lemma cut_bits_upper: "n < 2 ^ (cut_bits n + 53)"
proof -
  have "floorlog 2 (nat \<lfloor>n\<rfloor>) \<le> cut_bits n + 53" by (simp add: cut_bits_def)
  then have "nat \<lfloor>n\<rfloor> < 2 ^ (cut_bits n + 53)" by (rule floorlog_leD) simp
  then have "\<lfloor>n\<rfloor> < 2 ^ (cut_bits n + 53)" by (simp add: nat_less_iff)
  then have "\<lfloor>n\<rfloor> < \<lfloor>(2::real) ^ (cut_bits n + 53)\<rfloor>"
    by (metis floor_of_int of_int_numeral of_int_power)
  then show ?thesis by linarith
qed

lemma cut_bits_lower: "0 < cut_bits n \<Longrightarrow> 2 ^ (cut_bits n + 52) \<le> n"
proof -
  assume "0 < cut_bits n"
  then have "cut_bits n + 53 \<le> floorlog 2 (nat \<lfloor>n\<rfloor>)" by (simp add: cut_bits_def)
  then have "2 ^ (cut_bits n + 53 - 1) \<le> nat \<lfloor>n\<rfloor>" by (rule floorlog_geD) simp
  moreover have "cut_bits n + 53 - 1 = cut_bits n + 52" by simp
  ultimately have ge: "2 ^ (cut_bits n + 52) \<le> nat \<lfloor>n\<rfloor>" by (simp only:)
  moreover have "0 < (2::nat) ^ (cut_bits n + 52)" by simp
  ultimately have "0 < nat \<lfloor>n\<rfloor>" by (rule less_le_trans [rotated])
  moreover from ge have "int (2 ^ (cut_bits n + 52)) \<le> int (nat \<lfloor>n\<rfloor>)" by (rule of_nat_mono)
  ultimately have "int (2 ^ (cut_bits n + 52)) \<le> \<lfloor>n\<rfloor>" by simp
  then have "real_of_int (int (2 ^ (cut_bits n + 52))) \<le> n" by linarith
  then show ?thesis by simp
qed

lemma cut_bits_mono: "x \<le> y \<Longrightarrow> cut_bits x \<le> cut_bits y"
  unfolding cut_bits_def by (intro diff_le_mono floorlog_mono nat_mono floor_mono)

lemma rnd_units_mono: "0 \<le> x \<Longrightarrow> x \<le> y \<Longrightarrow> rnd_units x \<le> rnd_units y"
proof (cases "cut_bits x = cut_bits y")
  case True
  assume "0 \<le> x" "x \<le> y"
  then have "half_even (x / 2 ^ cut_bits y) \<le> half_even (y / 2 ^ cut_bits y)"
    by (intro half_even_mono divide_right_mono) simp_all
  then show ?thesis using True by (simp add: rnd_units_def)
next
  case False
  assume "0 \<le> x" and le: "x \<le> y"
  let ?j = "cut_bits x" and ?k = "cut_bits y"
  from False cut_bits_mono [OF le] have jk: "?j < ?k" by simp
  have "x / 2 ^ ?j \<le> of_int (2 ^ 53)"
    using cut_bits_upper [of x] by (simp add: divide_le_eq power_add)
  then have "half_even (x / 2 ^ ?j) \<le> 2 ^ 53" by (rule half_even_le)
  then have "rnd_units x \<le> of_int (2 ^ 53) * 2 ^ ?j"
    unfolding rnd_units_def by (intro mult_right_mono) (simp_all del: of_int_power add: of_int_le_iff)
  also have "\<dots> = 2 ^ (?j + 53)" by (simp add: power_add)
  also have "\<dots> \<le> (2::real) ^ (?k + 52)" using jk by (intro power_increasing) simp_all
  also have "\<dots> = of_int (2 ^ 52) * 2 ^ ?k" by (simp add: power_add)
  also have "\<dots> \<le> rnd_units y"
  proof -
    have "of_int (2 ^ 52) \<le> y / 2 ^ ?k"
      using cut_bits_lower [of y] jk by (simp add: le_divide_eq power_add)
    then have "2 ^ 52 \<le> half_even (y / 2 ^ ?k)" by (rule half_even_ge)
    then show ?thesis
      unfolding rnd_units_def by (intro mult_right_mono) (simp_all del: of_int_power add: of_int_le_iff)
  qed
  finally show ?thesis .
qed

text \<open>A number of units with at most 53 significant bits is kept as it is.\<close>

lemma rnd_units_exact:
  assumes m: "m \<le> 2 ^ 53"
  shows "rnd_units (of_nat m * 2 ^ k) = of_nat m * 2 ^ k"
proof -
  let ?n = "of_nat m * 2 ^ k :: real"
  let ?c = "cut_bits ?n"
  have "\<exists>q::nat. ?n = of_nat q * 2 ^ ?c"
  proof (cases "?c \<le> k")
    case True
    then have "?n = of_nat (m * 2 ^ (k - ?c)) * 2 ^ ?c"
      by (simp add: power_add [symmetric])
    then show ?thesis by blast
  next
    case False
    then have "2 ^ (?c + 52) \<le> ?n" by (intro cut_bits_lower) simp
    moreover have "?n \<le> 2 ^ (k + 53)"
    proof -
      have "of_nat m \<le> (of_nat (2 ^ 53) :: real)" using m by (rule of_nat_mono)
      then show ?thesis by (simp add: power_add mult.commute)
    qed
    moreover have "(2::real) ^ (k + 53) \<le> 2 ^ (?c + 52)"
      using False by (intro power_increasing) simp_all
    ultimately have "?n = 2 ^ (?c + 52)" by linarith
    then have "?n = of_nat (2 ^ 52) * 2 ^ ?c" by (simp add: power_add)
    then show ?thesis by blast
  qed
  then obtain q :: nat where q: "?n = of_nat q * 2 ^ ?c" by blast
  then have "?n / 2 ^ ?c = of_nat q" by (metis nonzero_mult_div_cancel_right power_not_zero zero_neq_numeral)
  then show ?thesis unfolding rnd_units_def using q by simp
qed

lemma rnd_units_form:
  assumes "0 \<le> n"
  shows "\<exists>q k. rnd_units n = of_nat q * 2 ^ k \<and> q \<le> 2 ^ 53"
proof -
  let ?c = "cut_bits n"
  let ?h = "half_even (n / 2 ^ ?c)"
  have "0 \<le> ?h" using assms half_even_ge [of 0 "n / 2 ^ ?c"] by simp
  moreover have "?h \<le> 2 ^ 53"
    using cut_bits_upper [of n] by (intro half_even_le) (simp add: divide_le_eq power_add)
  ultimately have "rnd_units n = of_nat (nat ?h) * 2 ^ ?c" "nat ?h \<le> 2 ^ 53"
    by (simp_all add: rnd_units_def nat_le_iff)
  then show ?thesis by blast
qed

lemma rnd_units_nonneg: "0 \<le> n \<Longrightarrow> 0 \<le> rnd_units n"
  using rnd_units_form [of n] by auto

lemma rnd_units_error:
  assumes "0 \<le> n"
  shows "\<bar>rnd_units n - n\<bar> \<le> n / 2 ^ 53 + 1 / 2"
proof -
  let ?c = "cut_bits n"
  have "\<bar>of_int (half_even (n / 2 ^ ?c)) - n / 2 ^ ?c\<bar> * 2 ^ ?c \<le> 1 / 2 * 2 ^ ?c"
    by (intro mult_right_mono half_even_close) simp
  moreover have "\<bar>of_int (half_even (n / 2 ^ ?c)) - n / 2 ^ ?c\<bar> * 2 ^ ?c = \<bar>rnd_units n - n\<bar>"
  proof -
    have "\<bar>of_int (half_even (n / 2 ^ ?c)) - n / 2 ^ ?c\<bar> * 2 ^ ?c
        = \<bar>(of_int (half_even (n / 2 ^ ?c)) - n / 2 ^ ?c) * 2 ^ ?c\<bar>"
      by (simp add: abs_mult)
    then show ?thesis by (simp add: rnd_units_def left_diff_distrib)
  qed
  ultimately have err: "\<bar>rnd_units n - n\<bar> \<le> 1 / 2 * 2 ^ ?c" by simp
  show ?thesis
  proof (cases "?c = 0")
    case True
    with err show ?thesis using assms by (simp add: add_increasing)
  next
    case False
    then have "2 ^ (?c + 52) \<le> n" by (intro cut_bits_lower) simp
    then have "2 ^ ?c * (1 / 2) \<le> n / 2 ^ 53" by (simp add: power_add)
    with err show ?thesis by linarith
  qed
qed

lemma rnd_minus [simp]: "rnd (- x) = - rnd x"
  by (simp add: rnd_def sgn_minus)

lemma rnd_zero [simp]: "rnd 0 = 0"
  by (simp add: rnd_def)

lemma rnd_nonneg_eq: "0 \<le> x \<Longrightarrow> rnd x = rnd_units (x * subnormal_scale) / subnormal_scale"
proof (cases "x = 0")
  case True
  have "rnd_units 0 = 0" using rnd_units_exact [of 0 0] by simp
  with True show ?thesis by simp
next
  case False
  assume "0 \<le> x"
  with False show ?thesis by (simp add: rnd_def sgn_if)
qed

lemma rnd_nonneg: "0 \<le> x \<Longrightarrow> 0 \<le> rnd x"
  by (simp add: rnd_nonneg_eq rnd_units_nonneg)

lemma rnd_mono: "x \<le> y \<Longrightarrow> rnd x \<le> rnd y"
proof -
  have pos: "rnd a \<le> rnd b" if "0 \<le> a" "a \<le> b" for a b
    using that by (simp add: rnd_nonneg_eq divide_right_mono mult_right_mono rnd_units_mono)
  assume le: "x \<le> y"
  consider "0 \<le> x" | "x < 0" "0 \<le> y" | "x < 0" "y < 0" by linarith
  then show ?thesis
  proof cases
    case 1
    with le show ?thesis by (intro pos)
  next
    case 2
    then have "0 \<le> rnd (- x)" "0 \<le> rnd y" by (simp_all only: rnd_nonneg neg_0_le_iff_le less_imp_le)
    then show ?thesis by simp
  next
    case 3
    then have "rnd (- y) \<le> rnd (- x)" using le by (intro pos) simp_all
    then show ?thesis by simp
  qed
qed

lemma rnd_exact_units:
  assumes "m \<le> 2 ^ 53" "\<bar>x\<bar> * subnormal_scale = of_nat m * 2 ^ k"
  shows "rnd x = x"
proof -
  have "rnd x = sgn x * (\<bar>x\<bar> * subnormal_scale / subnormal_scale)"
    unfolding rnd_def assms(2) by (simp add: rnd_units_exact [OF assms(1)])
  then show ?thesis by (simp add: sgn_mult_abs)
qed

lemma rnd_idem [simp]: "rnd (rnd x) = rnd x"
proof -
  have "0 \<le> \<bar>x\<bar> * subnormal_scale" by simp
  then obtain q k where q: "rnd_units (\<bar>x\<bar> * subnormal_scale) = of_nat q * 2 ^ k" "q \<le> 2 ^ 53"
    using rnd_units_form by blast
  show ?thesis
  proof (cases "x = 0")
    case True
    then show ?thesis by simp
  next
    case False
    have "\<bar>rnd x\<bar> * subnormal_scale = of_nat q * 2 ^ k"
      using False q(1) by (simp add: rnd_def abs_mult abs_sgn_eq)
    then show ?thesis by (rule rnd_exact_units [OF q(2)])
  qed
qed

lemma rnd_dyadic:
  assumes "m \<le> 2 ^ 53" "j \<le> 1074"
  shows "rnd (of_nat m / 2 ^ j) = of_nat m / 2 ^ j"
proof (rule rnd_exact_units [OF assms(1), of _ "1074 - j"])
  have "subnormal_scale = 2 ^ (1074 - j) * 2 ^ j"
    unfolding subnormal_scale_def using assms(2) by (simp only: power_add [symmetric] le_add_diff_inverse2)
  then have "subnormal_scale / 2 ^ j = 2 ^ (1074 - j)" by (metis nonzero_mult_div_cancel_right power_not_zero zero_neq_numeral)
  then show "\<bar>of_nat m / 2 ^ j\<bar> * subnormal_scale = of_nat m * 2 ^ (1074 - j)"
    by (simp add: times_divide_eq_right [symmetric] del: times_divide_eq_right)
qed

lemma rnd_of_nat: "m \<le> 2 ^ 53 \<Longrightarrow> rnd (of_nat m) = of_nat m"
  using rnd_dyadic [of m 0] by simp

lemma rnd_of_int: "\<bar>i\<bar> \<le> 2 ^ 53 \<Longrightarrow> rnd (of_int i) = of_int i"
proof (cases "0 \<le> i")
  case True
  assume "\<bar>i\<bar> \<le> 2 ^ 53"
  then show ?thesis using rnd_of_nat [of "nat i"] True by (simp add: nat_le_iff)
next
  case False
  assume "\<bar>i\<bar> \<le> 2 ^ 53"
  then have "rnd (- of_nat (nat (- i))) = - of_nat (nat (- i))"
    unfolding rnd_minus using rnd_of_nat [of "nat (- i)"] False by (simp add: nat_le_iff)
  then show ?thesis using False by simp
qed

lemma rnd_one [simp]: "rnd 1 = 1"
  using rnd_of_nat [of 1] by simp

lemma rnd_numeral [simp]:
  "(numeral a :: nat) \<le> 2 ^ 53 \<Longrightarrow> rnd (numeral a) = numeral a"
  using rnd_of_nat [of "numeral a"] by simp

lemma dvd_power_of_2: "(b::nat) dvd 2 ^ n \<Longrightarrow> \<exists>j \<le> n. b = 2 ^ j"
proof (induction n arbitrary: b)
  case 0
  then show ?case by simp
next
  case (Suc n)
  show ?case
  proof (cases "even b")
    case True
    then obtain c where c: "b = 2 * c" by (rule evenE)
    with Suc.prems have "c dvd 2 ^ n" by simp
    then obtain j where "j \<le> n" "c = 2 ^ j" using Suc.IH by blast
    with c have "Suc j \<le> Suc n \<and> b = 2 ^ Suc j" by simp
    then show ?thesis by blast
  next
    case False
    then have "coprime b 2" by simp
    with Suc.prems have "b dvd 2 ^ n" by (simp add: coprime_dvd_mult_right_iff)
    then show ?thesis using Suc.IH le_SucI by blast
  qed
qed

text \<open>Evaluation of \<open>rnd\<close> on a fraction whose denominator is a power of two.\<close>

lemma rnd_fraction:
  assumes "m \<le> 2 ^ 53" "b dvd 2 ^ 64"
  shows "rnd (of_nat m / of_nat b) = of_nat m / of_nat b"
proof -
  obtain j where "b = 2 ^ j" "j \<le> 64"
    using dvd_power_of_2 [OF assms(2)] by blast
  then show ?thesis using rnd_dyadic [OF assms(1), of j] by simp
qed

lemma rnd_fraction_numeral [simp]:
  "(numeral a :: nat) \<le> 2 ^ 53 \<Longrightarrow> (numeral b :: nat) dvd 2 ^ 64 \<Longrightarrow>
     rnd (numeral a / numeral b) = numeral a / numeral b"
  "(numeral b :: nat) dvd 2 ^ 64 \<Longrightarrow> rnd (1 / numeral b) = 1 / numeral b"
  using rnd_fraction [of "numeral a" "numeral b"] rnd_fraction [of 1 "numeral b"] by simp_all

lemma rnd_error: "\<bar>rnd x - x\<bar> \<le> \<bar>x\<bar> / 2 ^ 53 + 1 / (2 * subnormal_scale)"
proof -
  have nonneg: "\<bar>rnd y - y\<bar> \<le> y / 2 ^ 53 + 1 / (2 * subnormal_scale)" if "0 \<le> y" for y
  proof -
    have "\<bar>rnd y - y\<bar> * subnormal_scale = \<bar>rnd_units (y * subnormal_scale) - y * subnormal_scale\<bar>"
    proof -
      have "\<bar>rnd y - y\<bar> * subnormal_scale = \<bar>(rnd y - y) * subnormal_scale\<bar>"
        by (simp add: abs_mult)
      then show ?thesis using that by (simp add: rnd_nonneg_eq left_diff_distrib)
    qed
    also have "\<dots> \<le> y * subnormal_scale / 2 ^ 53 + 1 / 2"
      using that by (intro rnd_units_error) simp
    finally have "\<bar>rnd y - y\<bar> \<le> (y * subnormal_scale / 2 ^ 53 + 1 / 2) / subnormal_scale"
      by (simp add: le_divide_eq)
    then show ?thesis by (simp add: add_divide_distrib)
  qed
  show ?thesis
  proof (cases "0 \<le> x")
    case True
    then show ?thesis using nonneg [of x] by simp
  next
    case False
    then show ?thesis using nonneg [of "- x"] by simp
  qed
qed

text \<open>
  What the numeric code relies on of a rounding: it is monotone, odd, idempotent, and
  keeps one. Bounds of computed scores follow from these laws alone.
\<close>

locale rounding =
  fixes rd :: "real \<Rightarrow> real"
  assumes rd_mono: "x \<le> y \<Longrightarrow> rd x \<le> rd y"
    and rd_odd: "rd (- x) = - rd x"
    and rd_idem: "rd (rd x) = rd x"
    and rd_one: "rd 1 = 1"
begin

lemma rd_zero: "rd 0 = 0"
  using rd_odd [of 0] by simp

lemma rd_le_fixed: "x \<le> b \<Longrightarrow> rd b = b \<Longrightarrow> rd x \<le> b"
  using rd_mono [of x b] by simp

lemma rd_ge_fixed: "b \<le> x \<Longrightarrow> rd b = b \<Longrightarrow> b \<le> rd x"
  using rd_mono [of b x] by simp

lemma rd_between: "rd a = a \<Longrightarrow> rd b = b \<Longrightarrow> a \<le> x \<Longrightarrow> x \<le> b \<Longrightarrow> a \<le> rd x \<and> rd x \<le> b"
  by (simp add: rd_le_fixed rd_ge_fixed)

lemma rd_nonneg: "0 \<le> x \<Longrightarrow> 0 \<le> rd x"
  using rd_ge_fixed [of 0 x] rd_zero by simp

lemma rd_nonpos: "x \<le> 0 \<Longrightarrow> rd x \<le> 0"
  using rd_le_fixed [of x 0] rd_zero by simp

lemma rd_unit_interval: "0 \<le> x \<Longrightarrow> x \<le> 1 \<Longrightarrow> 0 \<le> rd x \<and> rd x \<le> 1"
  using rd_between [of 0 1 x] rd_zero rd_one by simp

lemma rd_less_fixed: "rd x < b \<Longrightarrow> rd b = b \<Longrightarrow> x < b"
  using rd_ge_fixed [of b x] by linarith

lemma rd_greater_fixed: "b < rd x \<Longrightarrow> rd b = b \<Longrightarrow> b < x"
  using rd_le_fixed [of x b] by linarith

end

interpretation b64: rounding rnd
  by unfold_locales (simp_all add: rnd_mono)

section \<open>Values and arithmetic\<close>

datatype pyfloat = Fin real | PInf | NInf | NaN

text \<open>The first power of two past the largest double; a result that rounds to it overflows.\<close>

definition overflow_bound :: real where
  "overflow_bound = 2 ^ 1024"

text \<open>The double nearest to a real: also the value of a decimal literal such as \<open>0.01\<close>.\<close>

definition fl :: "real \<Rightarrow> pyfloat" where
  "fl x = (let r = rnd x in
     if r \<ge> overflow_bound then PInf else if r \<le> - overflow_bound then NInf else Fin r)"

definition is_double :: "pyfloat \<Rightarrow> bool" where
  "is_double x = (case x of Fin r \<Rightarrow> rnd r = r \<and> \<bar>r\<bar> < overflow_bound | _ \<Rightarrow> True)"

definition is_finite :: "pyfloat \<Rightarrow> bool" where
  "is_finite x = (case x of Fin r \<Rightarrow> True | _ \<Rightarrow> False)"

fun real_of :: "pyfloat \<Rightarrow> real" where
  "real_of (Fin r) = r"
| "real_of _ = 0"

text \<open>The sign of a value: \<open>-1\<close>, \<open>0\<close> or \<open>1\<close>.\<close>

fun fsign :: "pyfloat \<Rightarrow> real" where
  "fsign (Fin r) = sgn r"
| "fsign PInf = 1"
| "fsign NInf = -1"
| "fsign NaN = 0"

fun fneg :: "pyfloat \<Rightarrow> pyfloat" where
  "fneg (Fin r) = Fin (- r)"
| "fneg PInf = NInf"
| "fneg NInf = PInf"
| "fneg NaN = NaN"

fun fabs :: "pyfloat \<Rightarrow> pyfloat" where
  "fabs (Fin r) = Fin \<bar>r\<bar>"
| "fabs PInf = PInf"
| "fabs NInf = PInf"
| "fabs NaN = NaN"

fun fadd :: "pyfloat \<Rightarrow> pyfloat \<Rightarrow> pyfloat" where
  "fadd (Fin a) (Fin b) = fl (a + b)"
| "fadd NaN y = NaN"
| "fadd x NaN = NaN"
| "fadd PInf NInf = NaN"
| "fadd NInf PInf = NaN"
| "fadd PInf y = PInf"
| "fadd NInf y = NInf"
| "fadd x PInf = PInf"
| "fadd x NInf = NInf"

definition fsub :: "pyfloat \<Rightarrow> pyfloat \<Rightarrow> pyfloat" where
  "fsub x y = fadd x (fneg y)"

definition signed_inf :: "real \<Rightarrow> pyfloat" where
  "signed_inf s = (if s = 0 then NaN else if s > 0 then PInf else NInf)"

fun fmul :: "pyfloat \<Rightarrow> pyfloat \<Rightarrow> pyfloat" where
  "fmul (Fin a) (Fin b) = fl (a * b)"
| "fmul NaN y = NaN"
| "fmul x NaN = NaN"
| "fmul x y = signed_inf (fsign x * fsign y)"

fun fdiv_nonzero :: "pyfloat \<Rightarrow> pyfloat \<Rightarrow> pyfloat" where
  "fdiv_nonzero (Fin a) (Fin b) = fl (a / b)"
| "fdiv_nonzero NaN y = NaN"
| "fdiv_nonzero x NaN = NaN"
| "fdiv_nonzero (Fin a) y = Fin 0"
| "fdiv_nonzero x (Fin b) = (if b < 0 then fneg x else x)"
| "fdiv_nonzero x y = NaN"

text \<open>Python raises on division by a zero, whatever the dividend.\<close>

definition fdiv :: "pyfloat \<Rightarrow> pyfloat \<Rightarrow> pyfloat result" where
  "fdiv x y = (if y = Fin 0 then Inl ZeroDivisionError else Inr (fdiv_nonzero x y))"

text \<open>Comparisons: every comparison with a NaN is false.\<close>

fun flt :: "pyfloat \<Rightarrow> pyfloat \<Rightarrow> bool" where
  "flt (Fin a) (Fin b) = (a < b)"
| "flt NaN y = False"
| "flt x NaN = False"
| "flt NInf NInf = False"
| "flt NInf y = True"
| "flt x NInf = False"
| "flt PInf y = False"
| "flt x PInf = True"

definition feq :: "pyfloat \<Rightarrow> pyfloat \<Rightarrow> bool" where
  "feq x y \<longleftrightarrow> x \<noteq> NaN \<and> x = y"

definition fle :: "pyfloat \<Rightarrow> pyfloat \<Rightarrow> bool" where
  "fle x y \<longleftrightarrow> flt x y \<or> feq x y"

text \<open>
  \<open>max(a, b)\<close> keeps \<open>a\<close> unless \<open>b > a\<close>; \<open>min(a, b)\<close> keeps \<open>a\<close> unless \<open>b < a\<close>. With a
  NaN the first argument wins.
\<close>

definition pymax :: "pyfloat \<Rightarrow> pyfloat \<Rightarrow> pyfloat" where
  "pymax a b = (if flt a b then b else a)"

definition pymin :: "pyfloat \<Rightarrow> pyfloat \<Rightarrow> pyfloat" where
  "pymin a b = (if flt b a then b else a)"

text \<open>\<open>if x:\<close> on a float: everything but a zero is true, NaN included.\<close>

definition ftruth :: "pyfloat \<Rightarrow> bool" where
  "ftruth x \<longleftrightarrow> x \<noteq> Fin 0"

text \<open>
  \<open>round(x, n)\<close>: the decimal of \<open>n\<close> places nearest to the exact value of \<open>x\<close>, ties to
  even, then the double nearest to it. Infinities and NaN are returned as they are.
\<close>

fun round_nd :: "nat \<Rightarrow> pyfloat \<Rightarrow> pyfloat" where
  "round_nd n (Fin r) = fl (of_int (half_even (r * 10 ^ n)) / 10 ^ n)"
| "round_nd n x = x"

text \<open>\<open>int(x)\<close> truncates towards zero.\<close>

fun int_of_float :: "pyfloat \<Rightarrow> int result" where
  "int_of_float (Fin r) = Inr (if r \<ge> 0 then \<lfloor>r\<rfloor> else \<lceil>r\<rceil>)"
| "int_of_float NaN = Inl (ValueError ''cannot convert float NaN to integer'')"
| "int_of_float x = Inl OverflowError"

definition float_of_int :: "int \<Rightarrow> pyfloat result" where
  "float_of_int i = (case fl (of_int i) of Fin r \<Rightarrow> Inr (Fin r) | _ \<Rightarrow> Inl OverflowError)"

section \<open>The statistics module\<close>

definition all_finite :: "pyfloat list \<Rightarrow> bool" where
  "all_finite xs = list_all is_finite xs"

definition fsum_nonfinite :: "pyfloat list \<Rightarrow> pyfloat" where
  "fsum_nonfinite xs = foldl fadd (Fin 0) (filter (\<lambda>x. \<not> is_finite x) xs)"

text \<open>\<open>statistics.mean\<close>: the exact sum divided by the count, rounded once.\<close>

definition stat_mean :: "pyfloat list \<Rightarrow> pyfloat result" where
  "stat_mean xs =
     (if xs = [] then Inl (ValueError ''mean requires at least one data point'')
      else if all_finite xs then Inr (fl (sum_list (map real_of xs) / of_nat (length xs)))
      else Inr (fsum_nonfinite xs))"

definition exact_mean :: "real list \<Rightarrow> real" where
  "exact_mean rs = sum_list rs / of_nat (length rs)"

definition exact_variance :: "real list \<Rightarrow> real" where
  "exact_variance rs =
     sum_list (map (\<lambda>r. (r - exact_mean rs)\<^sup>2) rs) / of_nat (length rs)"

text \<open>
  \<open>statistics.pstdev\<close>: the exact population variance, then the correctly rounded
  square root. With an infinity or a NaN among the data the sum of squares is a
  float, which has no \<open>numerator\<close>, and CPython raises.
\<close>

definition stat_pstdev :: "pyfloat list \<Rightarrow> pyfloat result" where
  "stat_pstdev xs =
     (if xs = [] then Inl (ValueError ''pstdev requires at least one data point'')
      else if all_finite xs then Inr (fl (sqrt (exact_variance (map real_of xs))))
      else Inl (AttributeError ''numerator''))"

end
