(* ===== verification/PyText.thy ===== *)
theory PyText
  imports PyFloat
begin

text \<open>
  Python strings as the program uses them. A \<open>str\<close> is a HOL \<open>string\<close>: one \<open>char\<close> per
  code point, so the code points are those below 256. The operations: decimal
  numerals and their parsing (\<open>str(int)\<close>, \<open>int(str)\<close>), \<open>upper\<close>, \<open>lower\<close>,
  \<open>replace\<close>, \<open>strip\<close>, \<open>rstrip\<close>, \<open>split\<close>, fixed-point formatting
  (\<open>f"{x:.2f}"\<close>) and the shortest round-trip \<open>repr\<close> of a float.
\<close>

section \<open>Characters and numerals\<close>

definition digit_char :: "nat \<Rightarrow> char" where
  "digit_char d = char_of (48 + d)"

definition is_digit :: "char \<Rightarrow> bool" where
  "is_digit c \<longleftrightarrow> 48 \<le> (of_char c :: nat) \<and> (of_char c :: nat) \<le> 57"

definition digit_val :: "char \<Rightarrow> nat" where
  "digit_val c = of_char c - 48"

lemma digit_char_code: "d < 10 \<Longrightarrow> (of_char (digit_char d) :: nat) = 48 + d"
  by (simp add: digit_char_def)

lemma digit_char_inverse [simp]: "d < 10 \<Longrightarrow> digit_val (digit_char d) = d"
  by (simp add: digit_val_def digit_char_code)

lemma is_digit_char [simp]: "d < 10 \<Longrightarrow> is_digit (digit_char d)"
  by (simp add: is_digit_def digit_char_code)

fun show_nat :: "nat \<Rightarrow> string" where
  "show_nat n = (if n < 10 then [digit_char n] else show_nat (n div 10) @ [digit_char (n mod 10)])"

declare show_nat.simps [simp del]

definition show_int :: "int \<Rightarrow> string" where
  "show_int i = (if i < 0 then CHR ''-'' # show_nat (nat (- i)) else show_nat (nat i))"

definition digits_val :: "string \<Rightarrow> nat" where
  "digits_val s = foldl (\<lambda>a c. 10 * a + digit_val c) 0 s"

lemma digits_val_snoc: "digits_val (s @ [c]) = 10 * digits_val s + digit_val c"
  by (simp add: digits_val_def)

lemma show_nat_val [simp]: "digits_val (show_nat n) = n"
proof (induction n rule: show_nat.induct)
  case (1 n)
  show ?case
  proof (cases "n < 10")
    case True
    then show ?thesis by (simp add: show_nat.simps [of n] digits_val_def)
  next
    case False
    with 1 show ?thesis by (simp add: show_nat.simps [of n] digits_val_snoc)
  qed
qed

lemma show_nat_digits: "\<forall>c \<in> set (show_nat n). is_digit c"
proof (induction n rule: show_nat.induct)
  case (1 n)
  then show ?case by (cases "n < 10") (auto simp: show_nat.simps [of n])
qed

lemma show_nat_ne [simp]: "show_nat n \<noteq> []"
  by (subst show_nat.simps) simp

lemma show_nat_inj: "show_nat m = show_nat n \<longleftrightarrow> m = n"
  by (metis show_nat_val)

lemma not_is_digit_minus: "\<not> is_digit (CHR ''-'')"
  by (simp add: is_digit_def)

lemma show_int_inj: "show_int i = show_int j \<longleftrightarrow> i = j"
proof -
  have hd: "show_nat m \<noteq> CHR ''-'' # s" for m s
    using show_nat_digits [of m] not_is_digit_minus by fastforce
  have "show_int i = show_int j \<Longrightarrow> i = j"
    using hd hd [symmetric] by (auto simp: show_int_def show_nat_inj split: if_splits)
  then show ?thesis by blast
qed

text \<open>Zero padding, as in \<open>%02d\<close>.\<close>

definition pad_left :: "nat \<Rightarrow> char \<Rightarrow> string \<Rightarrow> string" where
  "pad_left n c s = replicate (n - length s) c @ s"

definition show_padded :: "nat \<Rightarrow> nat \<Rightarrow> string" where
  "show_padded w n = pad_left w (CHR ''0'') (show_nat n)"

lemma digits_val_zeros: "digits_val (replicate k (CHR ''0'') @ s) = digits_val s"
proof -
  have "foldl (\<lambda>a c. 10 * a + digit_val c) 0 (replicate k (CHR ''0'')) = 0"
    by (induction k) (simp_all add: digit_val_def)
  then show ?thesis by (simp add: digits_val_def)
qed

lemma show_padded_val [simp]: "digits_val (show_padded w n) = n"
  by (simp add: show_padded_def pad_left_def digits_val_zeros)

lemma show_padded_digits: "\<forall>c \<in> set (show_padded w n). is_digit c"
  using show_nat_digits [of n] by (auto simp: show_padded_def pad_left_def is_digit_def)

lemma show_nat_length: "n < 10 ^ k \<Longrightarrow> 0 < k \<Longrightarrow> length (show_nat n) \<le> k"
proof (induction n arbitrary: k rule: show_nat.induct)
  case (1 n)
  show ?case
  proof (cases "n < 10")
    case True
    then show ?thesis using "1.prems" by (simp add: show_nat.simps [of n])
  next
    case False
    with "1.prems" obtain j where k: "k = Suc j" "0 < j"
      by (cases k; cases "k - 1") auto
    with "1.prems" have "n div 10 < 10 ^ j" by (simp add: less_mult_imp_div_less)
    then have "length (show_nat (n div 10)) \<le> j" using "1.IH" False k by simp
    then show ?thesis using False k by (simp add: show_nat.simps [of n])
  qed
qed

lemma show_padded_length: "n < 10 ^ w \<Longrightarrow> 0 < w \<Longrightarrow> length (show_padded w n) = w"
  using show_nat_length [of n w] by (simp add: show_padded_def pad_left_def)

section \<open>Case, replacement, trimming, splitting\<close>

definition upper_char :: "char \<Rightarrow> char" where
  "upper_char c = (if 97 \<le> (of_char c :: nat) \<and> (of_char c :: nat) \<le> 122
                   then char_of ((of_char c :: nat) - 32) else c)"

definition lower_char :: "char \<Rightarrow> char" where
  "lower_char c = (if 65 \<le> (of_char c :: nat) \<and> (of_char c :: nat) \<le> 90
                   then char_of ((of_char c :: nat) + 32) else c)"

definition str_upper :: "string \<Rightarrow> string" where
  "str_upper = map upper_char"

definition str_lower :: "string \<Rightarrow> string" where
  "str_lower = map lower_char"

definition replace_char :: "char \<Rightarrow> char \<Rightarrow> string \<Rightarrow> string" where
  "replace_char a b = map (\<lambda>c. if c = a then b else c)"

definition is_space :: "char \<Rightarrow> bool" where
  "is_space c \<longleftrightarrow> (of_char c :: nat) \<in> {9, 10, 11, 12, 13, 28, 29, 30, 31, 32, 133, 160}"

definition rstrip_by :: "(char \<Rightarrow> bool) \<Rightarrow> string \<Rightarrow> string" where
  "rstrip_by p s = rev (dropWhile p (rev s))"

definition strip :: "string \<Rightarrow> string" where
  "strip s = rstrip_by is_space (dropWhile is_space s)"

lemma rstrip_by_last: "rstrip_by p s \<noteq> [] \<Longrightarrow> \<not> p (last (rstrip_by p s))"
  unfolding rstrip_by_def
  by (metis hd_dropWhile last_rev rev_is_Nil_conv)

lemma rstrip_by_prefix: "\<exists>t. s = rstrip_by p s @ t \<and> (\<forall>c \<in> set t. p c)"
proof -
  have "rev s = takeWhile p (rev s) @ dropWhile p (rev s)" by simp
  then have "s = rev (dropWhile p (rev s)) @ rev (takeWhile p (rev s))"
    by (metis rev_append rev_rev_ident)
  moreover have "\<forall>c \<in> set (rev (takeWhile p (rev s))). p c"
    by (auto dest: set_takeWhileD)
  ultimately show ?thesis unfolding rstrip_by_def by blast
qed

text \<open>\<open>s.split(c)\<close>: always at least one piece.\<close>

fun split_on :: "char \<Rightarrow> string \<Rightarrow> string list" where
  "split_on c [] = [[]]"
| "split_on c (x # xs) =
     (if x = c then [] # split_on c xs
      else (case split_on c xs of [] \<Rightarrow> [[x]] | p # ps \<Rightarrow> (x # p) # ps))"

lemma split_on_ne [simp]: "split_on c s \<noteq> []"
  by (induction s) (auto split: list.splits)

lemma split_on_count: "length (split_on c s) = Suc (count_list s c)"
  by (induction s) (auto split: list.splits)

text \<open>\<open>sep.join(parts)\<close>.\<close>

fun join :: "string \<Rightarrow> string list \<Rightarrow> string" where
  "join sep [] = []"
| "join sep [p] = p"
| "join sep (p # q # ps) = p @ sep @ join sep (q # ps)"

lemma join_split: "join [c] (split_on c s) = s"
proof (induction s)
  case Nil
  then show ?case by simp
next
  case (Cons x xs)
  obtain p ps where sp: "split_on c xs = p # ps" using split_on_ne [of c xs] by (cases "split_on c xs") auto
  with Cons show ?case by (cases ps) auto
qed

lemma join_more: "xs \<noteq> [] \<Longrightarrow> join sep (x # xs) = x @ sep @ join sep xs"
  by (cases xs) simp_all

lemma join_snoc: "join s (ps @ [z]) = (if ps = [] then z else join s ps @ s @ z)"
proof (induction ps)
  case Nil
  show ?case by simp
next
  case (Cons p ps)
  then show ?case by (cases ps) auto
qed

lemma split_on_absent: "c \<notin> set s \<Longrightarrow> split_on c s = [s]"
  by (induction s) auto

lemma split_on_append: "split_on c (a @ c # b) = split_on c a @ split_on c b"
proof (induction a)
  case (Cons x a)
  then show ?case by (cases "split_on c a") auto
qed simp

lemma split_join:
  "ps \<noteq> [] \<Longrightarrow> \<forall>p \<in> set ps. c \<notin> set p \<Longrightarrow> split_on c (join [c] ps) = ps"
proof (induction ps)
  case (Cons p ps)
  then show ?case by (cases "ps = []") (simp_all add: split_on_absent join_more split_on_append)
qed simp

lemma split_on_pieces: "p \<in> set (split_on c s) \<Longrightarrow> c \<notin> set p"
proof (induction s arbitrary: p)
  case (Cons x xs)
  then show ?case by (cases "split_on c xs") (auto split: if_splits)
qed simp

definition starts_with :: "string \<Rightarrow> string \<Rightarrow> bool" where
  "starts_with p s \<longleftrightarrow> take (length p) s = p"

definition ends_with :: "string \<Rightarrow> string \<Rightarrow> bool" where
  "ends_with t s \<longleftrightarrow> length t \<le> length s \<and> drop (length s - length t) s = t"

definition remove_prefix :: "string \<Rightarrow> string \<Rightarrow> string" where
  "remove_prefix p s = (if starts_with p s then drop (length p) s else s)"

fun contains_str :: "string \<Rightarrow> string \<Rightarrow> bool" where
  "contains_str p [] = (p = [])"
| "contains_str p (x # xs) = (starts_with p (x # xs) \<or> contains_str p xs)"

section \<open>Parsing numbers\<close>

text \<open>
  The digits of an integer literal with single underscores between them, as \<open>int\<close>
  and \<open>float\<close> accept.
\<close>

fun digits_us :: "string \<Rightarrow> string option" where
  "digits_us [] = None"
| "digits_us [c] = (if is_digit c then Some [c] else None)"
| "digits_us (c # d # s) =
     (if \<not> is_digit c then None
      else if d = CHR ''_'' then map_option ((#) c) (digits_us s)
      else map_option ((#) c) (digits_us (d # s)))"

definition parse_sign :: "string \<Rightarrow> bool \<times> string" where
  "parse_sign s = (case s of [] \<Rightarrow> (False, [])
     | c # t \<Rightarrow> if c = CHR ''-'' then (True, t) else if c = CHR ''+'' then (False, t) else (False, s))"

text \<open>\<open>int(s)\<close> in base ten.\<close>

definition parse_int :: "string \<Rightarrow> int option" where
  "parse_int s =
     (let (neg, ds) = parse_sign (strip s)
      in map_option (\<lambda>d. (if neg then - 1 else 1) * int (digits_val d)) (digits_us ds))"

text \<open>\<open>float(s)\<close>: an optional sign, \<open>inf\<close>, \<open>infinity\<close>, \<open>nan\<close>, or a decimal with exponent.\<close>

definition split_exponent :: "string \<Rightarrow> string \<times> string option" where
  "split_exponent s =
     (let m = takeWhile (\<lambda>c. lower_char c \<noteq> CHR ''e'') s; r = drop (length m) s
      in (m, case r of [] \<Rightarrow> None | _ # e \<Rightarrow> Some e))"

definition opt_digits :: "string \<Rightarrow> string option" where
  "opt_digits s = (if s = [] then Some [] else digits_us s)"

definition parse_exponent :: "string option \<Rightarrow> int option" where
  "parse_exponent e = (case e of None \<Rightarrow> Some 0
     | Some t \<Rightarrow> (let (neg, ds) = parse_sign t
         in map_option (\<lambda>d. (if neg then - 1 else 1) * int (digits_val d)) (digits_us ds)))"

definition parse_decimal :: "string \<Rightarrow> real option" where
  "parse_decimal s =
     (let (m, e) = split_exponent s;
          ip = takeWhile (\<lambda>c. c \<noteq> CHR ''.'') m;
          fp = drop (Suc (length ip)) m
      in case (opt_digits ip, opt_digits fp, parse_exponent e) of
           (Some i, Some f, Some x) \<Rightarrow>
             if i = [] \<and> f = [] then None
             else Some ((of_nat (digits_val (i @ f)) / 10 ^ length f) * 10 powi x)
         | _ \<Rightarrow> None)"

definition parse_float :: "string \<Rightarrow> pyfloat option" where
  "parse_float s =
     (let (neg, t) = parse_sign (strip s); l = str_lower t
      in if l = ''inf'' \<or> l = ''infinity'' then Some (if neg then NInf else PInf)
         else if l = ''nan'' then Some NaN
         else map_option (\<lambda>r. fl (if neg then - r else r)) (parse_decimal t))"

section \<open>Formatting floats\<close>

text \<open>\<open>f"{x:.nf}"\<close>: fixed point, exact decimal value rounded half to even.\<close>

definition show_scaled :: "nat \<Rightarrow> nat \<Rightarrow> string" where
  "show_scaled n m = show_nat (m div 10 ^ n) @
     (if n = 0 then [] else CHR ''.'' # show_padded n (m mod 10 ^ n))"

fun format_fixed :: "nat \<Rightarrow> pyfloat \<Rightarrow> string" where
  "format_fixed n (Fin r) =
     (if r < 0 then CHR ''-'' # show_scaled n (nat (half_even (- r * 10 ^ n)))
      else show_scaled n (nat (half_even (r * 10 ^ n))))"
| "format_fixed n PInf = ''inf''"
| "format_fixed n NInf = ''-inf''"
| "format_fixed n NaN = ''nan''"

text \<open>
  \<open>repr(x)\<close>: the shortest digit string that rounds back to \<open>x\<close>, the one nearest to
  \<open>x\<close> among the shortest. \<open>dec_point r\<close> is the \<open>n\<close> with \<open>10^(n-1) \<le> r < 10^n\<close>; no
  double needs more than 17 digits.
\<close>

definition dec_point :: "real \<Rightarrow> int" where
  "dec_point r = int (floorlog 10 (nat \<lfloor>r * 10 ^ 400\<rfloor>)) - 400"

definition digit_candidates :: "real \<Rightarrow> nat \<Rightarrow> int list" where
  "digit_candidates r k =
     (let p = dec_point r; s = r * 10 powi (int k - p); f = \<lfloor>s\<rfloor>;
          near = (if s - of_int f < of_int (f + 1) - s then [f, f + 1]
                  else if s - of_int f > of_int (f + 1) - s then [f + 1, f]
                  else if even f then [f, f + 1] else [f + 1, f])
      in filter (\<lambda>c. rnd (of_int c * 10 powi (p - int k)) = r) near)"

fun shortest_from :: "real \<Rightarrow> nat \<Rightarrow> nat \<Rightarrow> int \<times> nat" where
  "shortest_from r 0 k = (case digit_candidates r k of [] \<Rightarrow> (0, k) | c # _ \<Rightarrow> (c, k))"
| "shortest_from r (Suc fuel) k =
     (case digit_candidates r k of [] \<Rightarrow> shortest_from r fuel (Suc k) | c # _ \<Rightarrow> (c, k))"

definition repr_pos :: "real \<Rightarrow> string" where
  "repr_pos r =
     (let (c, k) = shortest_from r 16 1;
          all = show_nat (nat c);
          p = dec_point r + (int (length all) - int k);
          ds = rstrip_by (\<lambda>x. x = CHR ''0'') all;
          n = length ds
      in if p \<le> - 4 \<or> p > 16 then
           (let e = p - 1; m = (if n = 1 then ds else take 1 ds @ ''.'' @ drop 1 ds)
            in m @ ''e'' @ (if e < 0 then ''-'' else ''+'') @ show_padded 2 (nat \<bar>e\<bar>))
         else if p \<le> 0 then ''0.'' @ replicate (nat (- p)) (CHR ''0'') @ ds
         else if int n \<le> p then ds @ replicate (nat p - n) (CHR ''0'') @ ''.0''
         else take (nat p) ds @ ''.'' @ drop (nat p) ds)"

fun repr_float :: "pyfloat \<Rightarrow> string" where
  "repr_float (Fin r) =
     (if r = 0 then ''0.0'' else if r < 0 then CHR ''-'' # repr_pos (- r) else repr_pos r)"
| "repr_float PInf = ''inf''"
| "repr_float NInf = ''-inf''"
| "repr_float NaN = ''nan''"

end
