(* ===== verification/PyTime.thy ===== *)
theory PyTime
  imports PyText
begin

text \<open>
  The part of \<open>datetime\<close> the program uses: \<open>datetime.now(timezone.utc).isoformat()\<close>
  and \<open>datetime.fromisoformat\<close>. An instant is a number of microseconds since
  0001-01-01T00:00:00 UTC; calendar dates are CPython's proleptic Gregorian
  ordinals. The clock itself is an input of the operations that read it.

  \<open>fromisoformat\<close> follows the C implementation of CPython 3.11 and 3.12, function by function:
  calendar and week dates with or without dashes, any separator character, times with or
  without colons, fractions after a point or a comma, and what it lets pass, such as bytes
  left over in front of an offset.
\<close>

section \<open>Calendar\<close>

definition is_leap :: "int \<Rightarrow> bool" where
  "is_leap y \<longleftrightarrow> y mod 4 = 0 \<and> (y mod 100 \<noteq> 0 \<or> y mod 400 = 0)"

definition days_in_month :: "int \<Rightarrow> int \<Rightarrow> int" where
  "days_in_month y m =
     (if m = 2 then (if is_leap y then 29 else 28)
      else if m \<in> {4, 6, 9, 11} then 30 else 31)"

definition days_before_year :: "int \<Rightarrow> int" where
  "days_before_year y = (y - 1) * 365 + (y - 1) div 4 - (y - 1) div 100 + (y - 1) div 400"

definition days_before_month :: "int \<Rightarrow> int \<Rightarrow> int" where
  "days_before_month y m = sum_list (map (days_in_month y) [1..m - 1])"

definition ymd_ordinal :: "int \<Rightarrow> int \<Rightarrow> int \<Rightarrow> int" where
  "ymd_ordinal y m d = days_before_year y + days_before_month y m + d"

text \<open>The month a day of the year (counted from 0) falls in, and the day in it.\<close>

fun month_of :: "bool \<Rightarrow> int \<Rightarrow> int \<Rightarrow> nat \<Rightarrow> int \<times> int" where
  "month_of leap m n 0 = (m, n + 1)"
| "month_of leap m n (Suc fuel) =
     (let k = (if m = 2 then (if leap then 29 else 28) else if m \<in> {4, 6, 9, 11} then 30 else 31)
      in if n < k then (m, n + 1) else month_of leap (m + 1) (n - k) fuel)"

text \<open>\<open>datetime._ord2ymd\<close>: cycles of 400, 100, 4 and 1 years.\<close>

definition ordinal_ymd :: "int \<Rightarrow> int \<times> int \<times> int" where
  "ordinal_ymd ord =
     (let n = ord - 1;
          n400 = n div 146097; r400 = n mod 146097;
          n100 = r400 div 36524; r100 = r400 mod 36524;
          n4 = r100 div 1461; r4 = r100 mod 1461;
          n1 = r4 div 365; r1 = r4 mod 365;
          year = n400 * 400 + 1 + n100 * 100 + n4 * 4 + n1
      in if n1 = 4 \<or> n100 = 4 then (year - 1, 12, 31)
         else (let leap = (n1 = 3 \<and> (n4 \<noteq> 24 \<or> n100 = 3)); (m, d) = month_of leap 1 r1 11
               in (year, m, d)))"

section \<open>Writing an instant\<close>

definition us_per_day :: int where
  "us_per_day = 86400000000"

text \<open>Days 1 to 3652059 are 0001-01-01 to 9999-12-31, the range of \<open>datetime\<close>.\<close>

definition instant_ok :: "int \<Rightarrow> bool" where
  "instant_ok t \<longleftrightarrow> 0 \<le> t \<and> t < 3652059 * us_per_day"

definition show_time :: "int \<Rightarrow> string" where
  "show_time tod =
     (let s = tod div 1000000; us = tod mod 1000000
      in show_padded 2 (nat (s div 3600)) @ '':'' @ show_padded 2 (nat (s div 60 mod 60)) @ '':'' @
         show_padded 2 (nat (s mod 60)) @
         (if us = 0 then [] else ''.'' @ show_padded 6 (nat us)))"

definition show_date :: "int \<Rightarrow> string" where
  "show_date ord =
     (case ordinal_ymd ord of (y, m, d) \<Rightarrow>
        show_padded 4 (nat y) @ ''-'' @ show_padded 2 (nat m) @ ''-'' @ show_padded 2 (nat d))"

definition isoformat_utc :: "int \<Rightarrow> string" where
  "isoformat_utc t =
     show_date (t div us_per_day + 1) @ ''T'' @ show_time (t mod us_per_day) @ ''+00:00''"

text \<open>\<open>utc_now()\<close> at the instant the clock shows.\<close>

definition utc_now :: "int \<Rightarrow> string" where
  "utc_now clock = isoformat_utc clock"

section \<open>Reading an instant\<close>

text \<open>
  The scanner runs over the UTF-8 bytes of the text, which end in a zero byte: \<open>head_char\<close> is the
  byte at its place. Code points are below 256, so a character is one byte or two.
\<close>

definition utf8_bytes :: "string \<Rightarrow> string" where
  "utf8_bytes s = concat (map (\<lambda>c. let n = of_char c :: nat in
     if n < 128 then [c] else [char_of (192 + n div 64), char_of (128 + n mod 64)]) s)"

definition head_char :: "string \<Rightarrow> char" where
  "head_char s = (case s of [] \<Rightarrow> CHR 0x00 | c # _ \<Rightarrow> c)"

text \<open>\<open>parse_digits\<close>: the number, and what follows it.\<close>

definition take_digits :: "nat \<Rightarrow> string \<Rightarrow> (nat \<times> string) option" where
  "take_digits n s = (let t = take n s in
     if length t = n \<and> list_all is_digit t then Some (digits_val t, drop n s) else None)"

text \<open>
  \<open>parse_hh_mm_ss_ff\<close> on the first \<open>k\<close> bytes: hour, then perhaps minute and second, with colons
  or without, and a fraction cut to microseconds. The flag says that something is left over.
\<close>

type_synonym clock_time = "nat \<times> nat \<times> nat \<times> nat"

definition clock_of :: "nat list \<Rightarrow> nat \<Rightarrow> clock_time" where
  "clock_of vals us = (let v = vals @ [0, 0, 0] in (v ! 0, v ! 1, v ! 2, us))"

definition clock_fraction :: "nat list \<Rightarrow> string \<Rightarrow> nat \<Rightarrow> (clock_time \<times> bool) option" where
  "clock_fraction vals s k =
     (let n = min 6 k in
      case take_digits n s of None \<Rightarrow> None
      | Some (us, r) \<Rightarrow> Some (clock_of vals (us * 10 ^ (6 - n)), head_char (dropWhile is_digit r) \<noteq> CHR 0x00))"

fun clock_fields :: "nat \<Rightarrow> nat list \<Rightarrow> bool \<Rightarrow> string \<Rightarrow> nat \<Rightarrow> (clock_time \<times> bool) option" where
  "clock_fields 0 vals has_separator s k = clock_fraction vals s k"
| "clock_fields (Suc n) vals has_separator s k =
     (case take_digits 2 s of None \<Rightarrow> None
      | Some (v, r) \<Rightarrow>
          (let c = head_char r; sep = (if vals = [] then c = CHR '':'' else has_separator) in
           if k \<le> 3 then Some (clock_of (vals @ [v]) 0, c \<noteq> CHR 0x00)
           else if sep \<and> c = CHR '':'' then clock_fields n (vals @ [v]) sep (tl r) (k - 3)
           else if c = CHR ''.'' \<or> c = CHR '','' then clock_fraction (vals @ [v]) (tl r) (k - 3)
           else if \<not> sep then clock_fields n (vals @ [v]) sep r (k - 2)
           else None))"

definition clock_us :: "clock_time \<Rightarrow> int" where
  "clock_us = (\<lambda>(h, m, s, us). ((int h * 60 + int m) * 60 + int s) * 1000000 + int us)"

definition clock_ok :: "clock_time \<Rightarrow> bool" where
  "clock_ok = (\<lambda>(h, m, s, us). h < 24 \<and> m < 60 \<and> s < 60)"

definition is_tz_start :: "char \<Rightarrow> bool" where
  "is_tz_start c \<longleftrightarrow> c = CHR ''-'' \<or> c = CHR ''+'' \<or> c = CHR ''Z''"

text \<open>
  An offset of no whole second is UTC; the bound is that of \<open>timezone\<close>. Its minutes and seconds may exceed 59.
\<close>

definition clock_offset :: "bool \<Rightarrow> clock_time \<Rightarrow> int option" where
  "clock_offset negative k =
     (if clock_us k div 1000000 = 0 then Some 0
      else if clock_us k < us_per_day then Some (if negative then - clock_us k else clock_us k) else None)"

text \<open>\<open>parse_isoformat_time\<close>: microseconds of the day, and the offset if there is one.\<close>

definition parse_time :: "string \<Rightarrow> (int \<times> int option) option" where
  "parse_time s =
     (let t = takeWhile (\<lambda>c. \<not> is_tz_start c) s; z = drop (length t) s
      in case clock_fields 3 [] True s (length t) of None \<Rightarrow> None
         | Some (k, junk) \<Rightarrow>
             if \<not> clock_ok k then None
             else case z of [] \<Rightarrow> if junk then None else Some (clock_us k, None)
               | c # r \<Rightarrow>
                   if c = CHR ''Z'' then (if head_char r = CHR 0x00 then Some (clock_us k, Some 0) else None)
                   else case clock_fields 3 [] True r (length r) of None \<Rightarrow> None
                     | Some (o_k, o_junk) \<Rightarrow>
                         if o_junk then None
                         else map_option (\<lambda>off. (clock_us k, Some off)) (clock_offset (c = CHR ''-'') o_k))"

text \<open>\<open>_find_isoformat_datetime_separator\<close>: the number of bytes that belong to the date.\<close>

definition date_length :: "string \<Rightarrow> nat option" where
  "date_length s =
     (let n = length s in
      if n < 7 then None
      else if n = 7 then Some 7
      else if s ! 4 = CHR ''-'' then
        (if s ! 5 = CHR ''W'' then
           (if n > 8 \<and> s ! 8 = CHR ''-'' then
              (if n = 9 then None else if n > 10 \<and> is_digit (s ! 10) then Some 8 else Some 10)
            else Some 8)
         else Some 10)
      else if s ! 4 = CHR ''W'' then
        (let p = 7 + length (takeWhile is_digit (drop 7 s)) in
         Some (if p < 9 then p else if even p then 7 else 8))
      else Some 8)"

definition weekday_of :: "int \<Rightarrow> int" where
  "weekday_of ord = (ord + 6) mod 7"

text \<open>\<open>iso_to_ymd\<close>: an ISO year has a week 53 when it begins on a Thursday, or is leap and begins on a Wednesday.\<close>

definition iso_week_ordinal :: "int \<Rightarrow> int \<Rightarrow> int \<Rightarrow> int option" where
  "iso_week_ordinal y week day =
     (let first = ymd_ordinal y 1 1; wd = weekday_of first;
          monday = first - wd + (if wd > 3 then 7 else 0);
          ord = monday + (week - 1) * 7 + day - 1
      in if 1 \<le> y \<and> 1 \<le> day \<and> day \<le> 7 \<and> 1 \<le> week \<and>
            (week \<le> 52 \<or> week = 53 \<and> (wd = 3 \<or> wd = 2 \<and> is_leap y)) \<and> 1 \<le> ord \<and> ord \<le> 3652059
         then Some ord else None)"

definition calendar_ordinal :: "int \<Rightarrow> int \<Rightarrow> int \<Rightarrow> int option" where
  "calendar_ordinal y m d =
     (if 1 \<le> y \<and> 1 \<le> m \<and> m \<le> 12 \<and> 1 \<le> d \<and> d \<le> days_in_month y m then Some (ymd_ordinal y m d) else None)"

definition skip_dash :: "bool \<Rightarrow> string \<Rightarrow> string option" where
  "skip_dash uses_separator s =
     (if \<not> uses_separator then Some s else if head_char s = CHR ''-'' then Some (tl s) else None)"

text \<open>\<open>parse_isoformat_date\<close>: a calendar date or a week date within the first \<open>n\<close> bytes, as its ordinal.\<close>

definition parse_date :: "string \<Rightarrow> nat \<Rightarrow> int option" where
  "parse_date s n =
     (case take_digits 4 s of None \<Rightarrow> None
      | Some (y, q) \<Rightarrow>
          (let dash = (head_char q = CHR ''-''); r = (if dash then tl q else q) in
           if head_char r = CHR ''W'' then
             (case take_digits 2 (tl r) of None \<Rightarrow> None
              | Some (week, r1) \<Rightarrow>
                  if length s - length r1 < n
                  then (case Option.bind (skip_dash dash r1) (take_digits 1) of None \<Rightarrow> None
                        | Some (day, _) \<Rightarrow> iso_week_ordinal (int y) (int week) (int day))
                  else iso_week_ordinal (int y) (int week) 1)
           else
             (case take_digits 2 r of None \<Rightarrow> None
              | Some (m, r1) \<Rightarrow>
                  (case Option.bind (skip_dash dash r1) (take_digits 2) of None \<Rightarrow> None
                   | Some (d, r2) \<Rightarrow>
                       if length s - length r2 = n then calendar_ordinal (int y) (int m) (int d) else None))))"

text \<open>\<open>datetime.fromisoformat\<close>: local microseconds, and the offset of an aware value.\<close>

definition fromisoformat :: "string \<Rightarrow> (int \<times> int option) option" where
  "fromisoformat t =
     (let s = utf8_bytes t in
      case date_length s of None \<Rightarrow> None
      | Some n \<Rightarrow>
          (case parse_date s n of None \<Rightarrow> None
           | Some ord \<Rightarrow>
               (let day = (ord - 1) * us_per_day in
                case drop n s of [] \<Rightarrow> Some (day, None)
                | c # r \<Rightarrow> map_option (\<lambda>(us, off). (day + us, off))
                    (parse_time (if (of_char c :: nat) < 128 then r else tl r)))))"

section \<open>What is written is read back\<close>

lemma takeWhile_show:
  "\<forall>c \<in> set s. \<not> p c \<Longrightarrow> p c \<Longrightarrow> takeWhile (\<lambda>x. \<not> p x) (s @ c # r) = s"
  by (induction s) auto

definition ascii :: "string \<Rightarrow> bool" where
  "ascii s \<longleftrightarrow> list_all (\<lambda>c. (of_char c :: nat) < 128) s"

lemma ascii_append [simp]: "ascii (s @ t) \<longleftrightarrow> ascii s \<and> ascii t"
  "ascii (c # s) \<longleftrightarrow> (of_char c :: nat) < 128 \<and> ascii s" "ascii []"
  by (simp_all add: ascii_def)

lemma utf8_bytes_ascii: "ascii s \<Longrightarrow> utf8_bytes s = s"
  by (induction s) (simp_all add: utf8_bytes_def)

lemma ascii_digits: "\<forall>c \<in> set s. is_digit c \<Longrightarrow> ascii s"
  by (auto simp: ascii_def list_all_iff is_digit_def)

lemma digit_not_special:
  "is_digit c \<Longrightarrow> c \<noteq> CHR '':'' \<and> c \<noteq> CHR ''.'' \<and> c \<noteq> CHR '','' \<and> \<not> is_tz_start c \<and> c \<noteq> CHR ''-'' \<and> c \<noteq> CHR ''W''"
  by (auto simp: is_digit_def is_tz_start_def)

lemma head_char_simps [simp]: "head_char [] = CHR 0x00" "head_char (c # s) = c"
  by (simp_all add: head_char_def)

lemma take_digits_padded:
  assumes "v < 10 ^ n" "0 < n"
  shows "take_digits n (show_padded n v @ r) = Some (v, r)"
  using assms show_padded_digits [of n v] by (simp add: take_digits_def Let_def show_padded_length list_all_iff)

lemma head_padded: "0 < n \<Longrightarrow> v < 10 ^ n \<Longrightarrow> is_digit (head_char (show_padded n v @ r))"
  using show_padded_digits [of n v] show_padded_length [of v n] by (cases "show_padded n v") auto

lemma clock_fields_show:
  assumes "h < 100" "m < 100" "s < 100" "us < 1000000" "c \<noteq> CHR 0x00 \<Longrightarrow> is_tz_start c"
  defines "t \<equiv> show_padded 2 h @ '':'' @ show_padded 2 m @ '':'' @ show_padded 2 s @
           (if us = 0 then [] else ''.'' @ show_padded 6 us)"
  shows "\<exists>junk. clock_fields 3 [] True (t @ c # r) (length t) = Some ((h, m, s, us), junk)"
proof -
  have len: "length (show_padded 2 h) = 2" "length (show_padded 2 m) = 2" "length (show_padded 2 s) = 2"
    using assms by (simp_all add: show_padded_length)
  have dg: "take_digits 2 (show_padded 2 h @ q) = Some (h, q)" "take_digits 2 (show_padded 2 m @ q) = Some (m, q)"
    "take_digits 2 (show_padded 2 s @ q) = Some (s, q)" for q
    using assms by (simp_all add: take_digits_padded)
  show ?thesis
  proof (cases "us = 0")
    case True
    then show ?thesis unfolding t_def by (simp add: numeral_3_eq_3 dg len clock_of_def)
  next
    case False
    have l6: "length (show_padded 6 us) = 6" using assms(4) by (simp add: show_padded_length)
    have d6: "take_digits 6 (show_padded 6 us @ q) = Some (us, q)" for q
      using assms(4) by (simp add: take_digits_padded)
    show ?thesis using False unfolding t_def
      by (simp add: numeral_3_eq_3 dg len l6 clock_of_def clock_fraction_def d6)
  qed
qed

lemma show_padded_no_tz: "c \<in> set (show_padded w n) \<Longrightarrow> \<not> is_tz_start c"
  using show_padded_digits [of w n] digit_not_special by blast

lemma show_time_no_tz: "\<forall>c \<in> set (show_time tod). \<not> is_tz_start c"
  by (auto simp: show_time_def Let_def dest: show_padded_no_tz) (simp_all add: is_tz_start_def)

lemma nat_zero_iff: "0 \<le> (z::int) \<Longrightarrow> (nat z = 0) = (z = 0)"
  by auto

lemma hms_value:
  assumes "0 \<le> (s::int)"
  shows "(s div 3600 * 60 + s div 60 mod 60) * 60 + s mod 60 = s"
proof -
  have "s div 60 div 60 = s div 3600" using zdiv_zmult2_eq [of 60 s 60] by simp
  then have "s div 3600 * 60 + s div 60 mod 60 = s div 60"
    using div_mult_mod_eq [of "s div 60" 60] by simp
  then show ?thesis using div_mult_mod_eq [of s 60] by simp
qed

lemma utc_offset_read: "clock_fields 3 [] True ''00:00'' (length ''00:00'') = Some ((0, 0, 0, 0), False)"
  by (simp add: numeral_3_eq_3 take_digits_def clock_of_def is_digit_def digits_val_def digit_val_def)

lemma parse_time_show:
  assumes "0 \<le> tod" "tod < us_per_day"
  shows "parse_time (show_time tod @ ''+00:00'') = Some (tod, Some 0)"
proof -
  let ?s = "tod div 1000000" and ?us = "tod mod 1000000"
  let ?h = "nat (?s div 3600)" and ?m = "nat (?s div 60 mod 60)" and ?sec = "nat (?s mod 60)"
  have bounds: "?h < 24" "?m < 60" "?sec < 60" "nat ?us < 1000000"
    using assms unfolding us_per_day_def by (simp_all add: nat_less_iff)
  have "0 \<le> ?us" by simp
  then have "(nat ?us = 0) = (?us = 0)" by (rule nat_zero_iff)
  then have st: "show_time tod = show_padded 2 ?h @ '':'' @ show_padded 2 ?m @ '':'' @ show_padded 2 ?sec @
      (if nat ?us = 0 then [] else ''.'' @ show_padded 6 (nat ?us))"
    by (simp add: show_time_def Let_def)
  have nz: "\<forall>c \<in> set (show_time tod). \<not> is_tz_start c"
    by (rule show_time_no_tz)
  then have tw: "takeWhile (\<lambda>c. \<not> is_tz_start c) (show_time tod @ ''+00:00'') = show_time tod"
    using takeWhile_show [of "show_time tod" is_tz_start "CHR ''+''" "''00:00''"] by (simp add: is_tz_start_def)
  have b: "?h < 100" "?m < 100" "?sec < 100" using bounds by linarith+
  obtain junk where pc: "clock_fields 3 [] True (show_time tod @ ''+00:00'') (length (show_time tod)) =
      Some ((?h, ?m, ?sec, nat ?us), junk)"
    using clock_fields_show [OF b bounds(4), of "CHR ''+''" "''00:00''"] unfolding st [symmetric] by (auto simp: is_tz_start_def)
  have val: "clock_us (?h, ?m, ?sec, nat ?us) = tod"
  proof -
    have nonneg: "0 \<le> ?s" using assms by simp
    then have "(?s div 3600 * 60 + ?s div 60 mod 60) * 60 + ?s mod 60 = ?s" by (rule hms_value)
    moreover have "0 \<le> ?s div 3600" using nonneg by (simp add: pos_imp_zdiv_nonneg_iff)
    then have "clock_us (?h, ?m, ?sec, nat ?us) =
        ((?s div 3600 * 60 + ?s div 60 mod 60) * 60 + ?s mod 60) * 1000000 + ?us"
      by (simp add: clock_us_def)
    ultimately show ?thesis by simp
  qed
  have ck: "clock_ok (?h, ?m, ?sec, nat ?us)"
    using bounds by (simp only: clock_ok_def prod.case simp_thms)
  have off: "clock_offset n (0, 0, 0, 0) = Some 0" for n by (simp add: clock_offset_def clock_us_def)
  show ?thesis
    unfolding parse_time_def Let_def tw pc by (simp add: ck val off utc_offset_read [simplified])
qed

text \<open>The calendar round trip: an ordinal is the ordinal of its year, month and day.\<close>

lemma month_ranges: "[1..12::int] = [1, 2, 3, 4, 5, 6, 7, 8, 9, 10, 11, 12]"
  "[1..11::int] = [1, 2, 3, 4, 5, 6, 7, 8, 9, 10, 11]"
  by code_simp+

lemma days_of_year: "sum_list (map (days_in_month y) [1..12]) = (if is_leap y then 366 else 365)"
  by (simp add: month_ranges days_in_month_def)

lemma month_of_spec:
  assumes "1 \<le> m" "0 \<le> n" "m + int fuel = 12"
    and "n < sum_list (map (days_in_month y) [m..12])"
    and "month_of (is_leap y) m n fuel = (m', d)"
  shows "m \<le> m' \<and> m' \<le> 12 \<and> 1 \<le> d \<and> d \<le> days_in_month y m' \<and>
         sum_list (map (days_in_month y) [m..m' - 1]) + d = n + 1"
  using assms
proof (induction fuel arbitrary: m n)
  case 0
  then have "m = 12" by simp
  with 0 show ?case by (auto simp: days_in_month_def)
next
  case (Suc fuel)
  let ?k = "days_in_month y m"
  have k: "(if m = 2 then (if is_leap y then 29 else 28) else if m \<in> {4, 6, 9, 11} then 30 else 31) = ?k"
    by (simp add: days_in_month_def)
  show ?case
  proof (cases "n < ?k")
    case True
    with Suc.prems(5) have "m' = m" "d = n + 1" by (simp_all only: month_of.simps Let_def k if_True prod.inject)
    with True Suc.prems show ?thesis by simp
  next
    case False
    with Suc.prems(5) have rec: "month_of (is_leap y) (m + 1) (n - ?k) fuel = (m', d)"
      by (simp only: month_of.simps Let_def k if_False)
    have split: "[m..12] = m # [m + 1..12]" using Suc.prems(3) by (intro upto_rec1) simp
    have IH: "m + 1 \<le> m' \<and> m' \<le> 12 \<and> 1 \<le> d \<and> d \<le> days_in_month y m' \<and>
        sum_list (map (days_in_month y) [m + 1..m' - 1]) + d = n - ?k + 1"
      using Suc.prems False split by (intro Suc.IH rec) simp_all
    moreover have "[m..m' - 1] = m # [m + 1..m' - 1]" using IH by (intro upto_rec1) simp
    ultimately show ?thesis by simp
  qed
qed

lemma succ_mod_zero:
  assumes "0 \<le> r" "r < (k::int)"
  shows "(k * q + r + 1) mod k = 0 \<longleftrightarrow> r + 1 = k"
proof -
  have "(k * q + r + 1) mod k = (r + 1) mod k" by (simp add: add.assoc)
  then show ?thesis using assms by (cases "r + 1 = k") (simp_all add: mod_pos_pos_trivial)
qed

lemma year_cycles:
  assumes y: "y - 1 = 400 * a + 100 * b + 4 * c + e"
    and r: "0 \<le> b" "b \<le> 3" "0 \<le> c" "c \<le> 24" "0 \<le> e" "e \<le> (3::int)"
  shows "days_before_year y = 146097 * a + 36524 * b + 1461 * c + 365 * e"
    and "is_leap y \<longleftrightarrow> e = 3 \<and> (c \<noteq> 24 \<or> b = 3)"
proof -
  have d4: "(y - 1) div 4 = 100 * a + 25 * b + c"
    by (rule int_div_pos_eq [where r = e]) (use y r in \<open>simp_all add: algebra_simps\<close>)
  have d100: "(y - 1) div 100 = 4 * a + b"
    by (rule int_div_pos_eq [where r = "4 * c + e"]) (use y r in \<open>simp_all add: algebra_simps\<close>)
  have d400: "(y - 1) div 400 = a"
    by (rule int_div_pos_eq [where r = "100 * b + 4 * c + e"]) (use y r in \<open>simp_all add: algebra_simps\<close>)
  show "days_before_year y = 146097 * a + 36524 * b + 1461 * c + 365 * e"
    unfolding days_before_year_def d4 d100 d400 unfolding y by (simp add: algebra_simps)
  have e4: "y = 4 * (100 * a + 25 * b + c) + e + 1"
    and e100: "y = 100 * (4 * a + b) + (4 * c + e) + 1"
    and e400: "y = 400 * a + (100 * b + 4 * c + e) + 1" using y by (simp_all add: algebra_simps)
  have m4: "y mod 4 = 0 \<longleftrightarrow> e + 1 = 4"
    unfolding e4 by (rule succ_mod_zero) (use r in linarith)+
  have m100: "y mod 100 = 0 \<longleftrightarrow> 4 * c + e + 1 = 100"
    unfolding e100 by (rule succ_mod_zero) (use r in linarith)+
  have m400: "y mod 400 = 0 \<longleftrightarrow> 100 * b + 4 * c + e + 1 = 400"
    unfolding e400 by (rule succ_mod_zero) (use r in linarith)+
  have "4 * c + e + 1 = 100 \<longleftrightarrow> c = 24 \<and> e = 3"
    and "100 * b + 4 * c + e + 1 = 400 \<longleftrightarrow> b = 3 \<and> c = 24 \<and> e = 3" using r by presburger+
  then show "is_leap y \<longleftrightarrow> e = 3 \<and> (c \<noteq> 24 \<or> b = 3)"
    unfolding is_leap_def m4 m100 m400 by auto
qed

definition date_ok :: "int \<Rightarrow> int \<Rightarrow> int \<Rightarrow> bool" where
  "date_ok y m d \<longleftrightarrow> 1 \<le> m \<and> m \<le> 12 \<and> 1 \<le> d \<and> d \<le> days_in_month y m"

lemma december_31:
  assumes "is_leap y"
  shows "ymd_ordinal y 12 31 = days_before_year y + 366" "date_ok y 12 31"
  using assms by (simp_all add: ymd_ordinal_def days_before_month_def month_ranges days_in_month_def date_ok_def)

lemma ordinal_ymd_inverse:
  assumes ymd: "ordinal_ymd ord = (y, m, d)"
  shows "ymd_ordinal y m d = ord \<and> date_ok y m d"
proof -
  define n where "n = ord - 1"
  define a where "a = n div 146097"
  define r400 where "r400 = n mod 146097"
  define b where "b = r400 div 36524"
  define r100 where "r100 = r400 mod 36524"
  define c where "c = r100 div 1461"
  define r4 where "r4 = r100 mod 1461"
  define e where "e = r4 div 365"
  define r1 where "r1 = r4 mod 365"
  define year where "year = a * 400 + 1 + b * 100 + c * 4 + e"
  have n: "n = 146097 * a + r400" "0 \<le> r400" "r400 < 146097" unfolding a_def r400_def by simp_all
  have h: "r400 = 36524 * b + r100" "0 \<le> r100" "r100 < 36524" unfolding b_def r100_def by simp_all
  have q: "r100 = 1461 * c + r4" "0 \<le> r4" "r4 < 1461" unfolding c_def r4_def by simp_all
  have s: "r4 = 365 * e + r1" "0 \<le> r1" "r1 < 365" unfolding e_def r1_def by simp_all
  have rng: "0 \<le> b" "b \<le> 4" "0 \<le> c" "c \<le> 24" "0 \<le> e" "e \<le> 4"
    using n(2,3) h q s by linarith+
  have ord: "ord = 146097 * a + 36524 * b + 1461 * c + 365 * e + r1 + 1"
    using n h q s unfolding n_def by linarith
  have def: "ordinal_ymd ord =
      (if e = 4 \<or> b = 4 then (year - 1, 12, 31)
       else (let (m, d) = month_of (e = 3 \<and> (c \<noteq> 24 \<or> b = 3)) 1 r1 11 in (year, m, d)))"
    unfolding ordinal_ymd_def Let_def n_def [symmetric] a_def [symmetric] r400_def [symmetric]
      b_def [symmetric] r100_def [symmetric] c_def [symmetric] r4_def [symmetric] e_def [symmetric]
      r1_def [symmetric] year_def [symmetric] ..
  consider (b4) "b = 4" | (e4) "b \<noteq> 4" "e = 4" | (reg) "b \<noteq> 4" "e \<noteq> 4" by blast
  then show ?thesis
  proof cases
    case b4
    then have "r100 = 0" using n(2,3) h by linarith
    then have "c = 0" "r4 = 0" using q rng by linarith+
    then have z: "c = 0" "e = 0" "r1 = 0" using s rng by linarith+
    with b4 def ymd have y: "y = year - 1" "m = 12" "d = 31" by simp_all
    have "y - 1 = 400 * a + 100 * 3 + 4 * 24 + 3" using y b4 z by (simp add: year_def)
    then have "days_before_year y = 146097 * a + 36524 * 3 + 1461 * 24 + 365 * 3" "is_leap y"
      using year_cycles [of y a 3 24 3] by simp_all
    then show ?thesis using december_31 [of y] y ord b4 z by simp
  next
    case e4
    then have "r1 = 0" "r4 = 1460" using q s by linarith+
    moreover from this have "c \<noteq> 24" using h q by linarith
    ultimately have z: "c \<noteq> 24" "r1 = 0" by simp_all
    with e4 def ymd have y: "y = year - 1" "m = 12" "d = 31" by simp_all
    have "y - 1 = 400 * a + 100 * b + 4 * c + 3" using y e4 by (simp add: year_def)
    then have "days_before_year y = 146097 * a + 36524 * b + 1461 * c + 365 * 3" "is_leap y"
      using year_cycles [of y a b c 3] rng e4 z by simp_all
    then show ?thesis using december_31 [of y] y ord e4 z by simp
  next
    case reg
    have "year - 1 = 400 * a + 100 * b + 4 * c + e" by (simp add: year_def)
    then have cyc: "days_before_year year = 146097 * a + 36524 * b + 1461 * c + 365 * e"
      "is_leap year \<longleftrightarrow> e = 3 \<and> (c \<noteq> 24 \<or> b = 3)"
      using year_cycles [of year a b c e] rng reg by simp_all
    from ymd reg def cyc(2) have mo: "month_of (is_leap year) 1 r1 11 = (m, d)" and y: "y = year"
      by (auto split: prod.splits)
    have "r1 < sum_list (map (days_in_month year) [1..12])" using s days_of_year [of year] by simp
    then have "1 \<le> m \<and> m \<le> 12 \<and> 1 \<le> d \<and> d \<le> days_in_month year m \<and>
        sum_list (map (days_in_month year) [1..m - 1]) + d = r1 + 1"
      using s by (intro month_of_spec [OF _ _ _ _ mo]) simp_all
    then show ?thesis using y cyc ord by (simp add: ymd_ordinal_def days_before_month_def date_ok_def)
  qed
qed

lemma days_in_month_le: "days_in_month y m \<le> 31"
  by (simp add: days_in_month_def)

text \<open>Ordinals of \<open>datetime\<close>'s range have years of one to four digits.\<close>

lemma ordinal_year_range:
  assumes "1 \<le> ord" "ord \<le> 3652059" "ordinal_ymd ord = (y, m, d)"
  shows "1 \<le> y \<and> y \<le> 9999"
proof -
  have ord: "ymd_ordinal y m d = ord" and ok: "date_ok y m d"
    using ordinal_ymd_inverse [OF assms(3)] by simp_all
  have nonneg: "0 \<le> days_before_month y m"
    unfolding days_before_month_def by (rule sum_list_nonneg) (auto simp: days_in_month_def)
  have upper: "days_before_month y m + d \<le> 366"
  proof -
    have "[1..12] = [1..m - 1] @ [m..12]" using ok by (intro upto_split1) (simp_all add: date_ok_def)
    then have "sum_list (map (days_in_month y) [1..12]) =
        days_before_month y m + sum_list (map (days_in_month y) [m..12])"
      by (simp add: days_before_month_def)
    moreover have "[m..12] = m # [m + 1..12]" using ok by (intro upto_rec1) (simp add: date_ok_def)
    moreover have "0 \<le> sum_list (map (days_in_month y) [m + 1..12])"
      by (rule sum_list_nonneg) (auto simp: days_in_month_def)
    ultimately have "days_before_month y m + days_in_month y m \<le> (if is_leap y then 366 else 365)"
      using days_of_year [of y] by (simp split: if_splits)
    then show ?thesis using ok by (simp add: date_ok_def split: if_splits)
  qed
  have pos: "1 \<le> d" using ok by (simp add: date_ok_def)
  have d: "ord = days_before_year y + days_before_month y m + d" using ord by (simp add: ymd_ordinal_def)
  define z where "z = y - 1"
  have dby: "days_before_year y = z * 365 + z div 4 - z div 100 + z div 400"
    by (simp add: days_before_year_def z_def)
  have divs: "4 * (z div 4) \<le> z" "z - 3 \<le> 4 * (z div 4)" "100 * (z div 100) \<le> z" "z - 99 \<le> 100 * (z div 100)"
    "400 * (z div 400) \<le> z" "z - 399 \<le> 400 * (z div 400)"
    by (simp_all add: minus_mod_eq_mult_div [symmetric])
  note dby = dby divs
  have "z \<le> 9998" using dby d nonneg pos assms(2) by linarith
  moreover have "0 \<le> z"
  proof (rule ccontr)
    assume "\<not> 0 \<le> z"
    then have z: "z \<le> -1" by simp
    then have "z div 4 \<le> -1" "z div 400 \<le> -1" by presburger+
    with z show False using dby d upper assms(1) by linarith
  qed
  ultimately have "0 \<le> z \<and> z \<le> 9998" by simp
  then show ?thesis by (simp add: z_def)
qed

lemma show_date_shape:
  assumes "1 \<le> ord" "ord \<le> 3652059"
  obtains y m d where "show_date ord = show_padded 4 y @ ''-'' @ show_padded 2 m @ ''-'' @ show_padded 2 d"
    "y < 10000" "m < 100" "d < 100" "calendar_ordinal (int y) (int m) (int d) = Some ord"
proof -
  obtain y m d where ymd: "ordinal_ymd ord = (y, m, d)" by (cases "ordinal_ymd ord") auto
  have inv: "ymd_ordinal y m d = ord" "date_ok y m d" using ordinal_ymd_inverse [OF ymd] by simp_all
  have yr: "1 \<le> y" "y \<le> 9999" using ordinal_year_range [OF assms ymd] by simp_all
  have d31: "d \<le> 31" "m \<le> 12" using inv(2) days_in_month_le [of y m] by (simp_all add: date_ok_def)
  have "calendar_ordinal y m d = Some ord" using inv yr by (simp add: calendar_ordinal_def date_ok_def)
  moreover have "int (nat y) = y" "int (nat m) = m" "int (nat d) = d" using inv(2) yr by (simp_all add: date_ok_def)
  ultimately show ?thesis
    using d31 yr by (intro that [of "nat y" "nat m" "nat d"]) (simp_all add: show_date_def ymd)
qed

lemma show_date_read:
  assumes "1 \<le> ord" "ord \<le> 3652059"
  shows "date_length (show_date ord @ CHR ''T'' # r) = Some 10" "parse_date (show_date ord @ CHR ''T'' # r) 10 = Some ord"
    "length (show_date ord) = 10" "ascii (show_date ord)"
proof -
  from assms obtain y m d where sd: "show_date ord = show_padded 4 y @ ''-'' @ show_padded 2 m @ ''-'' @ show_padded 2 d"
    and b: "y < 10000" "m < 100" "d < 100" and ord: "calendar_ordinal (int y) (int m) (int d) = Some ord"
    by (rule show_date_shape)
  let ?Y = "show_padded 4 y" and ?M = "show_padded 2 m" and ?D = "show_padded 2 d"
  have len: "length ?Y = 4" "length ?M = 2" "length ?D = 2" using b by (simp_all add: show_padded_length)
  then show l: "length (show_date ord) = 10" by (simp add: sd)
  show "ascii (show_date ord)"
    using ascii_digits [of ?Y] ascii_digits [of ?M] ascii_digits [of ?D] show_padded_digits by (simp add: sd)
  have dg: "take_digits 4 (?Y @ q) = Some (y, q)" "take_digits 2 (?M @ q) = Some (m, q)" "take_digits 2 (?D @ q) = Some (d, q)" for q
    using b by (simp_all add: take_digits_padded)
  have nw: "head_char (?M @ q) \<noteq> CHR ''W''" for q
    using head_padded [of 2 m q] b digit_not_special by fastforce
  show "parse_date (show_date ord @ CHR ''T'' # r) 10 = Some ord"
    by (simp add: parse_date_def sd dg nw skip_dash_def ord len)
  have "(?Y @ CHR ''-'' # ?M @ q) ! 4 = CHR ''-''" "(?Y @ CHR ''-'' # ?M @ q) ! 5 = head_char (?M @ q)" for q
    using len by (simp_all add: nth_append nth_Cons split: nat.splits) (cases ?M, auto)
  then show "date_length (show_date ord @ CHR ''T'' # r) = Some 10"
    using nw by (simp add: date_length_def sd len)
qed

lemma div_less_mono_bound:
  assumes "(t::int) < k * d" "0 < d"
  shows "t div d < k"
proof (rule ccontr)
  assume "\<not> t div d < k"
  then have "k * d \<le> t div d * d" using assms(2) by (intro mult_right_mono) simp_all
  also have "\<dots> \<le> t" using div_mult_mod_eq [of t d] pos_mod_sign [OF assms(2), of t] by linarith
  finally show False using assms(1) by simp
qed

lemma show_time_ascii: "ascii (show_time tod)"
proof -
  have "ascii (show_padded w n)" for w n by (intro ascii_digits show_padded_digits)
  then show ?thesis by (simp add: show_time_def Let_def)
qed

text \<open>A timestamp written by \<open>utc_now\<close> is read back as the same aware instant.\<close>

lemma fromisoformat_utc_now:
  assumes "instant_ok t"
  shows "fromisoformat (utc_now t) = Some (t, Some 0)"
proof -
  have t: "0 \<le> t" "t < 3652059 * us_per_day" using assms by (simp_all add: instant_ok_def)
  have pos: "0 < us_per_day" by (simp add: us_per_day_def)
  let ?ord = "t div us_per_day + 1" and ?tod = "t mod us_per_day"
  have "0 \<le> t div us_per_day" using t pos by (simp add: pos_imp_zdiv_nonneg_iff)
  moreover have "t div us_per_day < 3652059" using t pos by (intro div_less_mono_bound) simp_all
  ultimately have ord: "1 \<le> ?ord" "?ord \<le> 3652059" by simp_all
  note read = show_date_read [OF ord]
  have pt: "parse_time (show_time ?tod @ ''+00:00'') = Some (?tod, Some 0)"
    using pos by (intro parse_time_show) simp_all
  have "utc_now t = show_date ?ord @ CHR ''T'' # show_time ?tod @ ''+00:00''"
    by (simp add: utc_now_def isoformat_utc_def)
  moreover from this have "utf8_bytes (utc_now t) = utc_now t"
    using read(4) show_time_ascii [of ?tod] by (intro utf8_bytes_ascii) simp
  moreover have "t div us_per_day * us_per_day + ?tod = t" by simp
  ultimately show ?thesis
    using read pt by (simp add: fromisoformat_def)
qed

end
