(* ===== verification/PyJson.thy ===== *)
theory PyJson
  imports PyTime "HOL-Library.Word" "HOL-Library.List_Lexorder" "HOL-Library.Char_ord" "HOL-Library.Multiset"
begin

unbundle bit_operations_syntax

text \<open>
  JSON values as Python sees them, the canonical text of \<open>stable_json_dumps\<close>
  (\<open>json.dumps\<close> with sorted keys, compact separators and ASCII escapes), SHA-256, and
  \<open>hash_json\<close> of \<open>shared/utils/hashing.py\<close>; also \<open>make_prefixed_id\<close> of
  \<open>shared/utils/ids.py\<close>.

  An object is a dictionary in insertion order. \<open>default=str\<close> never applies: every
  value the program hashes is built of these constructors.
\<close>

section \<open>Values\<close>

datatype json =
    JNull
  | JBool bool
  | JInt int
  | JFloat pyfloat
  | JStr string
  | JList "json list"
  | JObj "(string \<times> json) list"

text \<open>\<open>payload.get(k, default)\<close> on an object, and the optional string the models write.\<close>

fun jget :: "json \<Rightarrow> string \<Rightarrow> json option" where
  "jget (JObj d) k = map_of d k"
| "jget _ k = None"

definition jopt_str :: "string option \<Rightarrow> json" where
  "jopt_str s = (case s of None \<Rightarrow> JNull | Some t \<Rightarrow> JStr t)"

text \<open>\<open>if x:\<close> on a JSON value.\<close>

fun jtruth :: "json \<Rightarrow> bool" where
  "jtruth JNull = False"
| "jtruth (JBool b) = b"
| "jtruth (JInt i) = (i \<noteq> 0)"
| "jtruth (JFloat x) = ftruth x"
| "jtruth (JStr s) = (s \<noteq> [])"
| "jtruth (JList xs) = (xs \<noteq> [])"
| "jtruth (JObj d) = (d \<noteq> [])"

section \<open>Canonical text\<close>

definition hex_digit :: "nat \<Rightarrow> char" where
  "hex_digit d = (if d < 10 then char_of (48 + d) else char_of (87 + d))"

text \<open>\<open>ensure_ascii\<close>: the two-character escapes, \<open>\\u00XX\<close> for control characters and above.\<close>

definition escape_char :: "char \<Rightarrow> string" where
  "escape_char c =
     (let n = (of_char c :: nat) in
      if n = 34 then [char_of (92::nat), CHR 34]
      else if n = 92 then [char_of (92::nat), char_of (92::nat)]
      else if n = 10 then [char_of (92::nat), CHR ''n'']
      else if n = 13 then [char_of (92::nat), CHR ''r'']
      else if n = 9 then [char_of (92::nat), CHR ''t'']
      else if n = 8 then [char_of (92::nat), CHR ''b'']
      else if n = 12 then [char_of (92::nat), CHR ''f'']
      else if n < 32 \<or> n > 126 then
        [char_of (92::nat), CHR ''u'', CHR ''0'', CHR ''0'', hex_digit (n div 16), hex_digit (n mod 16)]
      else [c])"

definition quote_char :: char where
  "quote_char = CHR 34"

definition json_string :: "string \<Rightarrow> string" where
  "json_string s = quote_char # concat (map escape_char s) @ [quote_char]"

fun json_float :: "pyfloat \<Rightarrow> string" where
  "json_float PInf = ''Infinity''"
| "json_float NInf = ''-Infinity''"
| "json_float NaN = ''NaN''"
| "json_float x = repr_float x"

text \<open>Keys are compared code point by code point.\<close>

definition sort_keys :: "(string \<times> 'a) list \<Rightarrow> (string \<times> 'a) list" where
  "sort_keys d = sort_key fst d"

text \<open>
  \<open>json.dumps(value, sort_keys=True, separators=(",", ":"))\<close>. Sorting happens on the
  encoded members, which carry their keys.
\<close>

fun stable_json_dumps :: "json \<Rightarrow> string" where
  "stable_json_dumps JNull = ''null''"
| "stable_json_dumps (JBool b) = (if b then ''true'' else ''false'')"
| "stable_json_dumps (JInt i) = show_int i"
| "stable_json_dumps (JFloat x) = json_float x"
| "stable_json_dumps (JStr s) = json_string s"
| "stable_json_dumps (JList xs) = ''['' @ join '','' (map stable_json_dumps xs) @ '']''"
| "stable_json_dumps (JObj d) =
     CHR 123 # join '','' (map (\<lambda>(k, t). json_string k @ '':'' @ t)
       (sort_keys (map (\<lambda>(k, v). (k, stable_json_dumps v)) d))) @ [CHR 125]"

text \<open>
  The text of an object does not depend on the order in which its keys were inserted.
\<close>

lemma sort_keys_perm:
  assumes "distinct (map fst d)" "mset d = mset e"
  shows "sort_keys d = sort_keys e"
proof -
  have "inj_on fst (set d)" using assms(1) by (simp add: distinct_map)
  then show ?thesis
    unfolding sort_keys_def using assms(2) by (intro sort_key_inj_key_eq) simp_all
qed

lemma stable_json_dumps_order:
  assumes "distinct (map fst d)" "mset d = mset e"
  shows "stable_json_dumps (JObj d) = stable_json_dumps (JObj e)"
proof -
  let ?f = "\<lambda>(k, v). (k, stable_json_dumps v)"
  have "map fst (map ?f d) = map fst d" by (induction d) auto
  then have "distinct (map fst (map ?f d))" using assms(1) by (simp only:)
  moreover have "mset (map ?f d) = mset (map ?f e)" using assms(2) by (simp only: mset_map)
  ultimately have "sort_keys (map ?f d) = sort_keys (map ?f e)" by (rule sort_keys_perm)
  then show ?thesis by (simp only: stable_json_dumps.simps)
qed

section \<open>SHA-256\<close>

type_synonym u32 = "32 word"

definition rotr :: "nat \<Rightarrow> u32 \<Rightarrow> u32" where
  "rotr n x = word_rotr n x"

definition sha_k :: "u32 list" where
  "sha_k =
    [1116352408, 1899447441, 3049323471, 3921009573, 961987163, 1508970993, 2453635748, 2870763221,
     3624381080, 310598401, 607225278, 1426881987, 1925078388, 2162078206, 2614888103, 3248222580,
     3835390401, 4022224774, 264347078, 604807628, 770255983, 1249150122, 1555081692, 1996064986,
     2554220882, 2821834349, 2952996808, 3210313671, 3336571891, 3584528711, 113926993, 338241895,
     666307205, 773529912, 1294757372, 1396182291, 1695183700, 1986661051, 2177026350, 2456956037,
     2730485921, 2820302411, 3259730800, 3345764771, 3516065817, 3600352804, 4094571909, 275423344,
     430227734, 506948616, 659060556, 883997877, 958139571, 1322822218, 1537002063, 1747873779,
     1955562222, 2024104815, 2227730452, 2361852424, 2428436474, 2756734187, 3204031479, 3329325298]"

definition sha_init :: "u32 list" where
  "sha_init = [1779033703, 3144134277, 1013904242, 2773480762, 1359893119, 2600822924, 528734635, 1541459225]"

text \<open>A message in UTF-8; code points from 128 to 255 take two bytes.\<close>

definition utf8_char :: "char \<Rightarrow> nat list" where
  "utf8_char c = (let n = (of_char c :: nat) in if n < 128 then [n] else [192 + n div 64, 128 + n mod 64])"

definition utf8 :: "string \<Rightarrow> nat list" where
  "utf8 s = concat (map utf8_char s)"

definition be_bytes :: "nat \<Rightarrow> nat \<Rightarrow> nat list" where
  "be_bytes w n = map (\<lambda>i. n div 256 ^ (w - 1 - i) mod 256) [0..<w]"

definition sha_pad :: "nat list \<Rightarrow> nat list" where
  "sha_pad m = m @ [128] @ replicate ((119 - length m mod 64) mod 64) 0 @ be_bytes 8 (8 * length m)"

definition word_of_bytes :: "nat list \<Rightarrow> u32" where
  "word_of_bytes bs = of_nat (foldl (\<lambda>a b. a * 256 + b) 0 bs)"

fun chunks :: "nat \<Rightarrow> nat \<Rightarrow> 'a list \<Rightarrow> 'a list list" where
  "chunks k 0 xs = []"
| "chunks k (Suc n) xs = take k xs # chunks k n (drop k xs)"

text \<open>The message schedule, kept in reverse: \<open>w ! 0\<close> is the newest word.\<close>

fun sha_extend :: "nat \<Rightarrow> u32 list \<Rightarrow> u32 list" where
  "sha_extend 0 w = w"
| "sha_extend (Suc n) w =
     (let x = w ! 14; y = w ! 1;
          s0 = rotr 7 x XOR rotr 18 x XOR drop_bit 3 x;
          s1 = rotr 17 y XOR rotr 19 y XOR drop_bit 10 y
      in sha_extend n ((w ! 15 + s0 + w ! 6 + s1) # w))"

definition sha_round :: "u32 list \<Rightarrow> u32 \<times> u32 \<Rightarrow> u32 list" where
  "sha_round st kw =
     (case (st, kw) of
        ([a, b, c, d, e, f, g, h], (k, w)) \<Rightarrow>
          (let s1 = rotr 6 e XOR rotr 11 e XOR rotr 25 e;
               ch = (e AND f) XOR (NOT e AND g);
               t1 = h + s1 + ch + k + w;
               s0 = rotr 2 a XOR rotr 13 a XOR rotr 22 a;
               maj = (a AND b) XOR (a AND c) XOR (b AND c)
           in [t1 + (s0 + maj), a, b, c, d + t1, e, f, g])
      | _ \<Rightarrow> st)"

definition sha_block :: "u32 list \<Rightarrow> nat list \<Rightarrow> u32 list" where
  "sha_block st bs =
     (let w = rev (sha_extend 48 (rev (map word_of_bytes (chunks 4 16 bs))))
      in map2 (+) st (foldl sha_round st (zip sha_k w)))"

definition sha256 :: "nat list \<Rightarrow> u32 list" where
  "sha256 m = (let p = sha_pad m in foldl sha_block sha_init (chunks 64 (length p div 64) p))"

definition hex_of :: "nat \<Rightarrow> nat \<Rightarrow> string" where
  "hex_of w n = map (\<lambda>i. hex_digit (n div 16 ^ (w - 1 - i) mod 16)) [0..<w]"

definition sha256_hex :: "string \<Rightarrow> string" where
  "sha256_hex value = concat (map (\<lambda>w. hex_of 8 (unat w)) (sha256 (utf8 value)))"

definition hash_json :: "json \<Rightarrow> string" where
  "hash_json value = ''sha256:'' @ sha256_hex (stable_json_dumps value)"

text \<open>A digest always has 64 hexadecimal digits, so a hash has 71 characters.\<close>

lemma sha_round_length: "length st = 8 \<Longrightarrow> length (sha_round st kw) = 8"
  by (cases kw) (auto simp: sha_round_def Let_def split: list.splits)

lemma foldl_sha_round_length: "length st = 8 \<Longrightarrow> length (foldl sha_round st kws) = 8"
  by (induction kws arbitrary: st) (simp_all add: sha_round_length)

lemma sha_block_length: "length st = 8 \<Longrightarrow> length (sha_block st bs) = 8"
  by (simp add: sha_block_def Let_def foldl_sha_round_length)

lemma sha256_length: "length (sha256 m) = 8"
proof -
  have "length (foldl sha_block st bss) = 8" if "length st = 8" for st bss
    using that by (induction bss arbitrary: st) (simp_all add: sha_block_length)
  then show ?thesis by (simp add: sha256_def Let_def sha_init_def)
qed

lemma hash_json_length: "length (hash_json v) = 71"
proof -
  have "length (concat (map (\<lambda>w. hex_of 8 (unat w)) ws)) = 8 * length ws" for ws :: "u32 list"
    by (induction ws) (simp_all add: hex_of_def)
  then show ?thesis by (simp add: hash_json_def sha256_hex_def sha256_length)
qed

section \<open>Identifiers\<close>

text \<open>\<open>uuid4().hex\<close> is an input: a fresh string of hexadecimal digits.\<close>

definition make_prefixed_id :: "string \<Rightarrow> string \<Rightarrow> string" where
  "make_prefixed_id prefix uuid_hex = prefix @ ''_'' @ take 12 uuid_hex"

end
