(* ===== verification/Schemas.thy ===== *)
theory Schemas
  imports PyJson "HOL-Library.Monad_Syntax"
begin

text \<open>
  The Pydantic models of \<open>shared/schemas/models.py\<close>: one record per model, \<open>dump_*\<close>
  for \<open>model_dump()\<close> (fields in declaration order) and \<open>validate_*\<close> for
  \<open>model_validate\<close> with the constraints the models declare (lengths, literals,
  defaults). Pydantic's conversions of values of another type (a string or a
  boolean given for a number) are code outside this repository: they are the
  parameter \<open>pydantic\<close>. Default timestamps read the clock, so a validation takes the
  time \<open>now\<close> it runs at.

  The round trip of each model that is stored on disk, \<open>validate (dump x) = x\<close>, is
  what the services' \<open>_load_state\<close> relies on.
\<close>

record pydantic =
  lax_float :: "json \<Rightarrow> pyfloat option"
  lax_int :: "json \<Rightarrow> int option"

text \<open>An instance that converts nothing, for evaluation.\<close>

definition strict_pydantic :: pydantic where
  "strict_pydantic = \<lparr>lax_float = (\<lambda>_. None), lax_int = (\<lambda>_. None)\<rparr>"

section \<open>Field readers\<close>

definition str_between :: "nat \<Rightarrow> nat \<Rightarrow> string \<Rightarrow> bool" where
  "str_between lo hi s \<longleftrightarrow> lo \<le> length s \<and> length s \<le> hi"

definition ensure :: "bool \<Rightarrow> unit option" where
  "ensure b = (if b then Some () else None)"

lemma ensure_simps [simp]: "ensure True = Some ()" "ensure False = None"
  by (simp_all add: ensure_def)

lemma ensure_Some_iff [simp]: "ensure b = Some u \<longleftrightarrow> b"
  by (simp add: ensure_def)

fun as_str :: "json \<Rightarrow> string option" where
  "as_str (JStr s) = Some s"
| "as_str _ = None"

definition as_float :: "pydantic \<Rightarrow> json \<Rightarrow> pyfloat option" where
  "as_float px j = (case j of JFloat x \<Rightarrow> Some x
     | JInt i \<Rightarrow> (case float_of_int i of Inr x \<Rightarrow> Some x | Inl _ \<Rightarrow> None)
     | _ \<Rightarrow> lax_float px j)"

definition as_int :: "pydantic \<Rightarrow> json \<Rightarrow> int option" where
  "as_int px j = (case j of JInt i \<Rightarrow> Some i | _ \<Rightarrow> lax_int px j)"

fun as_opt_str :: "json \<Rightarrow> string option option" where
  "as_opt_str JNull = Some None"
| "as_opt_str (JStr s) = Some (Some s)"
| "as_opt_str _ = None"

fun as_str_list :: "json \<Rightarrow> string list option" where
  "as_str_list (JList xs) = mapO as_str xs"
| "as_str_list _ = None"

fun as_dict :: "json \<Rightarrow> (string, json) dict option" where
  "as_dict (JObj d) = Some d"
| "as_dict _ = None"

definition as_float_dict :: "pydantic \<Rightarrow> json \<Rightarrow> (string, pyfloat) dict option" where
  "as_float_dict px j = (case j of
     JObj d \<Rightarrow> mapO (\<lambda>(k, v). map_option (Pair k) (as_float px v)) d | _ \<Rightarrow> None)"

text \<open>A required field, and a field with a default.\<close>

definition field :: "(json \<Rightarrow> 'a option) \<Rightarrow> (string, json) dict \<Rightarrow> string \<Rightarrow> 'a option" where
  "field rd d k = Option.bind (map_of d k) rd"

definition field_or :: "(json \<Rightarrow> 'a option) \<Rightarrow> 'a \<Rightarrow> (string, json) dict \<Rightarrow> string \<Rightarrow> 'a option" where
  "field_or rd dflt d k = (case map_of d k of None \<Rightarrow> Some dflt | Some j \<Rightarrow> rd j)"

lemmas reader_simps = field_def field_or_def as_float_def as_int_def as_float_dict_def

lemma as_str_list_dump [simp]: "mapO as_str (map JStr xs) = Some xs"
  by (rule mapO_map) simp

lemma as_float_dict_dump [simp]:
  "mapO (\<lambda>(k, v). map_option (Pair k) (as_float px v)) (map (\<lambda>(k, x). (k, JFloat x)) d) = Some d"
  by (rule mapO_map) (auto simp: as_float_def)

section \<open>Peers\<close>

datatype peer_status = Online | Stale | Offline

fun status_value :: "peer_status \<Rightarrow> string" where
  "status_value Online = ''online''"
| "status_value Stale = ''stale''"
| "status_value Offline = ''offline''"

definition as_status :: "json \<Rightarrow> peer_status option" where
  "as_status j = (case j of JStr s \<Rightarrow>
     (if s = ''online'' then Some Online else if s = ''stale'' then Some Stale
      else if s = ''offline'' then Some Offline else None) | _ \<Rightarrow> None)"

lemma as_status_value [simp]: "as_status (JStr (status_value st)) = Some st"
  by (cases st) (simp_all add: as_status_def)

definition cloud_names :: "string list" where
  "cloud_names = [''aws'', ''azure'', ''gcp'', ''local'', ''shared'']"

record peer_registration =
  pr_node_id :: string
  pr_node_type :: string
  pr_cloud :: string
  pr_base_url :: string
  pr_capabilities :: "string list"
  pr_status :: peer_status
  pr_last_heartbeat :: string
  pr_metadata :: "(string, json) dict"
  pr_extra :: "(string, json) dict"

definition peer_fields :: "string list" where
  "peer_fields = [''node_id'', ''node_type'', ''cloud'', ''base_url'', ''capabilities'', ''status'',
     ''last_heartbeat'', ''metadata'']"

definition peer_ok :: "peer_registration \<Rightarrow> bool" where
  "peer_ok p \<longleftrightarrow>
     str_between 3 128 (pr_node_id p) \<and> str_between 3 64 (pr_node_type p) \<and>
     pr_cloud p \<in> set cloud_names \<and> str_between 1 512 (pr_base_url p) \<and>
     list_all (\<lambda>kv. fst kv \<notin> set peer_fields) (pr_extra p)"

definition dump_peer :: "peer_registration \<Rightarrow> json" where
  "dump_peer p = JObj ([
     (''node_id'', JStr (pr_node_id p)),
     (''node_type'', JStr (pr_node_type p)),
     (''cloud'', JStr (pr_cloud p)),
     (''base_url'', JStr (pr_base_url p)),
     (''capabilities'', JList (map JStr (pr_capabilities p))),
     (''status'', JStr (status_value (pr_status p))),
     (''last_heartbeat'', JStr (pr_last_heartbeat p)),
     (''metadata'', JObj (pr_metadata p))] @ pr_extra p)"

definition validate_peer :: "string \<Rightarrow> json \<Rightarrow> peer_registration option" where
  "validate_peer now j = do {
     d \<leftarrow> as_dict j;
     node_id \<leftarrow> field as_str d ''node_id'';
     node_type \<leftarrow> field as_str d ''node_type'';
     cloud \<leftarrow> field as_str d ''cloud'';
     base_url \<leftarrow> field as_str d ''base_url'';
     capabilities \<leftarrow> field_or as_str_list [] d ''capabilities'';
     status \<leftarrow> field_or as_status Online d ''status'';
     heartbeat \<leftarrow> field_or as_str now d ''last_heartbeat'';
     metadata \<leftarrow> field_or as_dict [] d ''metadata'';
     let p = \<lparr>pr_node_id = node_id, pr_node_type = node_type, pr_cloud = cloud, pr_base_url = base_url,
       pr_capabilities = capabilities, pr_status = status, pr_last_heartbeat = heartbeat,
       pr_metadata = metadata, pr_extra = filter (\<lambda>kv. fst kv \<notin> set peer_fields) d\<rparr>;
     _ \<leftarrow> ensure (peer_ok p);
     Some p }"

lemma validate_dump_peer:
  assumes "peer_ok p"
  shows "validate_peer now (dump_peer p) = Some p"
proof -
  have "filter (\<lambda>kv. fst kv \<notin> set peer_fields) (pr_extra p) = pr_extra p"
    using assms by (simp add: peer_ok_def list_all_iff)
  then show ?thesis
    using assms by (cases p) (simp add: validate_peer_def dump_peer_def reader_simps peer_fields_def Let_def)
qed

lemma validate_peer_ok: "validate_peer now j = Some p \<Longrightarrow> peer_ok p"
  by (auto simp: validate_peer_def Let_def bind_eq_Some_conv)

record peer_heartbeat =
  hb_status :: peer_status
  hb_observed_at :: string

definition dump_heartbeat :: "peer_heartbeat \<Rightarrow> json" where
  "dump_heartbeat h = JObj [
     (''status'', JStr (status_value (hb_status h))),
     (''observed_at'', JStr (hb_observed_at h))]"

definition validate_heartbeat :: "string \<Rightarrow> json \<Rightarrow> peer_heartbeat option" where
  "validate_heartbeat now j = do {
     d \<leftarrow> as_dict j;
     status \<leftarrow> field_or as_status Online d ''status'';
     observed \<leftarrow> field_or as_str now d ''observed_at'';
     Some \<lparr>hb_status = status, hb_observed_at = observed\<rparr> }"

section \<open>Market data\<close>

definition asset_classes :: "string list" where
  "asset_classes = [''crypto'', ''equity'', ''forex'', ''commodity'']"

record sensor_message =
  sm_sensor_id :: string
  sm_symbol :: string
  sm_asset_class :: string
  sm_price :: pyfloat
  sm_volume :: pyfloat
  sm_source :: string
  sm_event_time :: string

definition message_ok :: "sensor_message \<Rightarrow> bool" where
  "message_ok m \<longleftrightarrow> sm_asset_class m \<in> set asset_classes"

definition dump_message :: "sensor_message \<Rightarrow> json" where
  "dump_message m = JObj [
     (''sensor_id'', JStr (sm_sensor_id m)),
     (''symbol'', JStr (sm_symbol m)),
     (''asset_class'', JStr (sm_asset_class m)),
     (''price'', JFloat (sm_price m)),
     (''volume'', JFloat (sm_volume m)),
     (''source'', JStr (sm_source m)),
     (''event_time'', JStr (sm_event_time m))]"

definition validate_message :: "pydantic \<Rightarrow> string \<Rightarrow> json \<Rightarrow> sensor_message option" where
  "validate_message px now j = do {
     d \<leftarrow> as_dict j;
     sensor_id \<leftarrow> field as_str d ''sensor_id'';
     symbol \<leftarrow> field as_str d ''symbol'';
     asset_class \<leftarrow> field as_str d ''asset_class'';
     price \<leftarrow> field (as_float px) d ''price'';
     volume \<leftarrow> field (as_float px) d ''volume'';
     source \<leftarrow> field as_str d ''source'';
     event_time \<leftarrow> field_or as_str now d ''event_time'';
     _ \<leftarrow> ensure (asset_class \<in> set asset_classes);
     Some \<lparr>sm_sensor_id = sensor_id, sm_symbol = symbol, sm_asset_class = asset_class,
       sm_price = price, sm_volume = volume, sm_source = source, sm_event_time = event_time\<rparr> }"

lemma validate_dump_message: "message_ok m \<Longrightarrow> validate_message px now (dump_message m) = Some m"
  by (simp add: validate_message_def dump_message_def reader_simps message_ok_def)

lemma validate_message_ok: "validate_message px now j = Some m \<Longrightarrow> message_ok m"
  by (auto simp: validate_message_def message_ok_def bind_eq_Some_conv)

record market_event =
  ev_event_id :: string
  ev_symbol :: string
  ev_asset_class :: string
  ev_price :: pyfloat
  ev_volume :: pyfloat
  ev_source :: string
  ev_ingested_at :: string
  ev_window :: "(string, pyfloat) dict"

definition dump_event :: "market_event \<Rightarrow> json" where
  "dump_event e = JObj [
     (''event_id'', JStr (ev_event_id e)),
     (''symbol'', JStr (ev_symbol e)),
     (''asset_class'', JStr (ev_asset_class e)),
     (''price'', JFloat (ev_price e)),
     (''volume'', JFloat (ev_volume e)),
     (''source'', JStr (ev_source e)),
     (''ingested_at'', JStr (ev_ingested_at e)),
     (''window'', JObj (map (\<lambda>(k, x). (k, JFloat x)) (ev_window e)))]"

definition validate_event :: "pydantic \<Rightarrow> string \<Rightarrow> json \<Rightarrow> market_event option" where
  "validate_event px now j = do {
     d \<leftarrow> as_dict j;
     event_id \<leftarrow> field as_str d ''event_id'';
     symbol \<leftarrow> field as_str d ''symbol'';
     asset_class \<leftarrow> field as_str d ''asset_class'';
     price \<leftarrow> field (as_float px) d ''price'';
     volume \<leftarrow> field (as_float px) d ''volume'';
     source \<leftarrow> field as_str d ''source'';
     ingested_at \<leftarrow> field_or as_str now d ''ingested_at'';
     window \<leftarrow> field_or (as_float_dict px) [] d ''window'';
     Some \<lparr>ev_event_id = event_id, ev_symbol = symbol, ev_asset_class = asset_class,
       ev_price = price, ev_volume = volume, ev_source = source, ev_ingested_at = ingested_at,
       ev_window = window\<rparr> }"

lemma validate_dump_event: "validate_event px now (dump_event e) = Some e"
  by (simp add: validate_event_def dump_event_def reader_simps as_float_dict_dump [unfolded as_float_def])

section \<open>Alerts\<close>

definition severities :: "string list" where
  "severities = [''low'', ''medium'', ''high'', ''critical'']"

definition alert_statuses :: "string list" where
  "alert_statuses = [''pending_review'', ''confirmed'', ''false_positive'', ''dismissed'']"

definition review_statuses :: "string list" where
  "review_statuses = [''confirmed'', ''false_positive'', ''dismissed'']"

record anomaly_alert =
  al_alert_id :: string
  al_event_id :: string
  al_symbol :: string
  al_severity :: string
  al_score :: pyfloat
  al_reason :: string
  al_status :: string
  al_created_at :: string

definition alert_ok :: "anomaly_alert \<Rightarrow> bool" where
  "alert_ok a \<longleftrightarrow> al_severity a \<in> set severities \<and> al_status a \<in> set alert_statuses"

definition dump_alert :: "anomaly_alert \<Rightarrow> json" where
  "dump_alert a = JObj [
     (''alert_id'', JStr (al_alert_id a)),
     (''event_id'', JStr (al_event_id a)),
     (''symbol'', JStr (al_symbol a)),
     (''severity'', JStr (al_severity a)),
     (''score'', JFloat (al_score a)),
     (''reason'', JStr (al_reason a)),
     (''status'', JStr (al_status a)),
     (''created_at'', JStr (al_created_at a))]"

definition validate_alert :: "pydantic \<Rightarrow> string \<Rightarrow> json \<Rightarrow> anomaly_alert option" where
  "validate_alert px now j = do {
     d \<leftarrow> as_dict j;
     alert_id \<leftarrow> field as_str d ''alert_id'';
     event_id \<leftarrow> field as_str d ''event_id'';
     symbol \<leftarrow> field as_str d ''symbol'';
     severity \<leftarrow> field as_str d ''severity'';
     score \<leftarrow> field (as_float px) d ''score'';
     reason \<leftarrow> field as_str d ''reason'';
     status \<leftarrow> field as_str d ''status'';
     created_at \<leftarrow> field_or as_str now d ''created_at'';
     _ \<leftarrow> ensure (severity \<in> set severities \<and> status \<in> set alert_statuses);
     Some \<lparr>al_alert_id = alert_id, al_event_id = event_id, al_symbol = symbol,
       al_severity = severity, al_score = score, al_reason = reason, al_status = status,
       al_created_at = created_at\<rparr> }"

lemma validate_dump_alert: "alert_ok a \<Longrightarrow> validate_alert px now (dump_alert a) = Some a"
  by (simp add: validate_alert_def dump_alert_def reader_simps alert_ok_def)

record alert_review =
  rv_reviewer :: string
  rv_status :: string
  rv_notes :: "string option"
  rv_reviewed_at :: string

definition review_ok :: "alert_review \<Rightarrow> bool" where
  "review_ok r \<longleftrightarrow> rv_status r \<in> set review_statuses"

definition dump_review :: "alert_review \<Rightarrow> json" where
  "dump_review r = JObj [
     (''reviewer'', JStr (rv_reviewer r)),
     (''status'', JStr (rv_status r)),
     (''notes'', jopt_str (rv_notes r)),
     (''reviewed_at'', JStr (rv_reviewed_at r))]"

definition validate_review :: "string \<Rightarrow> json \<Rightarrow> alert_review option" where
  "validate_review now j = do {
     d \<leftarrow> as_dict j;
     reviewer \<leftarrow> field as_str d ''reviewer'';
     status \<leftarrow> field as_str d ''status'';
     notes \<leftarrow> field_or as_opt_str None d ''notes'';
     reviewed_at \<leftarrow> field_or as_str now d ''reviewed_at'';
     _ \<leftarrow> ensure (status \<in> set review_statuses);
     Some \<lparr>rv_reviewer = reviewer, rv_status = status, rv_notes = notes, rv_reviewed_at = reviewed_at\<rparr> }"

lemma validate_review_ok: "validate_review now j = Some r \<Longrightarrow> review_ok r"
  by (auto simp: validate_review_def review_ok_def bind_eq_Some_conv)

section \<open>Portfolios and risk\<close>

record position =
  po_symbol :: string
  po_weight :: pyfloat

definition dump_position :: "position \<Rightarrow> json" where
  "dump_position p = JObj [(''symbol'', JStr (po_symbol p)), (''weight'', JFloat (po_weight p))]"

definition validate_position :: "pydantic \<Rightarrow> json \<Rightarrow> position option" where
  "validate_position px j = do {
     d \<leftarrow> as_dict j;
     symbol \<leftarrow> field as_str d ''symbol'';
     weight \<leftarrow> field (as_float px) d ''weight'';
     Some \<lparr>po_symbol = symbol, po_weight = weight\<rparr> }"

lemma validate_dump_position [simp]: "validate_position px (dump_position p) = Some p"
  by (simp add: validate_position_def dump_position_def reader_simps)

record portfolio =
  pf_portfolio_id :: string
  pf_positions :: "position list"

fun as_list :: "(json \<Rightarrow> 'a option) \<Rightarrow> json \<Rightarrow> 'a list option" where
  "as_list f (JList xs) = mapO f xs"
| "as_list f _ = None"

definition dump_portfolio :: "portfolio \<Rightarrow> json" where
  "dump_portfolio p = JObj [
     (''portfolio_id'', JStr (pf_portfolio_id p)),
     (''positions'', JList (map dump_position (pf_positions p)))]"

definition validate_portfolio :: "pydantic \<Rightarrow> json \<Rightarrow> portfolio option" where
  "validate_portfolio px j = do {
     d \<leftarrow> as_dict j;
     portfolio_id \<leftarrow> field as_str d ''portfolio_id'';
     positions \<leftarrow> field (as_list (validate_position px)) d ''positions'';
     Some \<lparr>pf_portfolio_id = portfolio_id, pf_positions = positions\<rparr> }"

lemma validate_dump_portfolio: "validate_portfolio px (dump_portfolio p) = Some p"
  by (simp add: validate_portfolio_def dump_portfolio_def reader_simps mapO_map)

record risk_snapshot =
  rs_snapshot_id :: string
  rs_portfolio_id :: string
  rs_as_of :: string
  rs_volatility :: pyfloat
  rs_value_at_risk_95 :: pyfloat
  rs_max_drawdown :: pyfloat
  rs_rolling_return_1d :: pyfloat

definition dump_snapshot :: "risk_snapshot \<Rightarrow> json" where
  "dump_snapshot s = JObj [
     (''snapshot_id'', JStr (rs_snapshot_id s)),
     (''portfolio_id'', JStr (rs_portfolio_id s)),
     (''as_of'', JStr (rs_as_of s)),
     (''volatility'', JFloat (rs_volatility s)),
     (''value_at_risk_95'', JFloat (rs_value_at_risk_95 s)),
     (''max_drawdown'', JFloat (rs_max_drawdown s)),
     (''rolling_return_1d'', JFloat (rs_rolling_return_1d s))]"

definition validate_snapshot :: "pydantic \<Rightarrow> string \<Rightarrow> json \<Rightarrow> risk_snapshot option" where
  "validate_snapshot px now j = do {
     d \<leftarrow> as_dict j;
     snapshot_id \<leftarrow> field as_str d ''snapshot_id'';
     portfolio_id \<leftarrow> field as_str d ''portfolio_id'';
     as_of \<leftarrow> field_or as_str now d ''as_of'';
     volatility \<leftarrow> field (as_float px) d ''volatility'';
     var95 \<leftarrow> field (as_float px) d ''value_at_risk_95'';
     drawdown \<leftarrow> field (as_float px) d ''max_drawdown'';
     rolling \<leftarrow> field (as_float px) d ''rolling_return_1d'';
     Some \<lparr>rs_snapshot_id = snapshot_id, rs_portfolio_id = portfolio_id, rs_as_of = as_of,
       rs_volatility = volatility, rs_value_at_risk_95 = var95, rs_max_drawdown = drawdown,
       rs_rolling_return_1d = rolling\<rparr> }"

lemma validate_dump_snapshot: "validate_snapshot px now (dump_snapshot s) = Some s"
  by (simp add: validate_snapshot_def dump_snapshot_def reader_simps)

section \<open>Ledger\<close>

record ledger_request =
  lr_event_type :: string
  lr_actor_node :: string
  lr_payload :: "(string, json) dict"

definition ledger_request_ok :: "ledger_request \<Rightarrow> bool" where
  "ledger_request_ok r \<longleftrightarrow> str_between 3 128 (lr_event_type r) \<and> str_between 3 128 (lr_actor_node r)"

text \<open>The constructor call \<open>LedgerAppendRequest(...)\<close>, which validates its arguments.\<close>

definition mk_ledger_request :: "string \<Rightarrow> string \<Rightarrow> (string, json) dict \<Rightarrow> ledger_request result" where
  "mk_ledger_request event_type actor_node payload =
     (let r = \<lparr>lr_event_type = event_type, lr_actor_node = actor_node, lr_payload = payload\<rparr>
      in if ledger_request_ok r then Inr r else Inl (ValidationError ''LedgerAppendRequest''))"

definition dump_ledger_request :: "ledger_request \<Rightarrow> json" where
  "dump_ledger_request r = JObj [
     (''event_type'', JStr (lr_event_type r)),
     (''actor_node'', JStr (lr_actor_node r)),
     (''payload'', JObj (lr_payload r))]"

definition validate_ledger_request :: "json \<Rightarrow> ledger_request option" where
  "validate_ledger_request j = do {
     d \<leftarrow> as_dict j;
     event_type \<leftarrow> field as_str d ''event_type'';
     actor_node \<leftarrow> field as_str d ''actor_node'';
     payload \<leftarrow> field_or as_dict [] d ''payload'';
     let r = \<lparr>lr_event_type = event_type, lr_actor_node = actor_node, lr_payload = payload\<rparr>;
     _ \<leftarrow> ensure (ledger_request_ok r);
     Some r }"

lemma validate_dump_ledger_request:
  "ledger_request_ok r \<Longrightarrow> validate_ledger_request (dump_ledger_request r) = Some r"
  by (cases r) (simp add: validate_ledger_request_def dump_ledger_request_def reader_simps Let_def)

record ledger_block =
  lb_block_id :: int
  lb_timestamp :: string
  lb_event_type :: string
  lb_actor_node :: string
  lb_payload_hash :: string
  lb_previous_hash :: "string option"
  lb_block_hash :: string

definition dump_block :: "ledger_block \<Rightarrow> json" where
  "dump_block b = JObj [
     (''block_id'', JInt (lb_block_id b)),
     (''timestamp'', JStr (lb_timestamp b)),
     (''event_type'', JStr (lb_event_type b)),
     (''actor_node'', JStr (lb_actor_node b)),
     (''payload_hash'', JStr (lb_payload_hash b)),
     (''previous_hash'', jopt_str (lb_previous_hash b)),
     (''block_hash'', JStr (lb_block_hash b))]"

definition validate_block :: "pydantic \<Rightarrow> string \<Rightarrow> json \<Rightarrow> ledger_block option" where
  "validate_block px now j = do {
     d \<leftarrow> as_dict j;
     block_id \<leftarrow> field (as_int px) d ''block_id'';
     timestamp \<leftarrow> field_or as_str now d ''timestamp'';
     event_type \<leftarrow> field as_str d ''event_type'';
     actor_node \<leftarrow> field as_str d ''actor_node'';
     payload_hash \<leftarrow> field as_str d ''payload_hash'';
     previous_hash \<leftarrow> field_or as_opt_str None d ''previous_hash'';
     block_hash \<leftarrow> field as_str d ''block_hash'';
     Some \<lparr>lb_block_id = block_id, lb_timestamp = timestamp, lb_event_type = event_type,
       lb_actor_node = actor_node, lb_payload_hash = payload_hash,
       lb_previous_hash = previous_hash, lb_block_hash = block_hash\<rparr> }"

lemma as_opt_str_jopt [simp]: "as_opt_str (jopt_str s) = Some s"
  by (cases s) (simp_all add: jopt_str_def)

lemma validate_dump_block: "validate_block px now (dump_block b) = Some b"
  by (simp add: validate_block_def dump_block_def reader_simps)

record verification_result =
  vr_valid :: bool
  vr_block_count :: int
  vr_error :: "string option"

definition dump_verification :: "verification_result \<Rightarrow> json" where
  "dump_verification r = JObj [
     (''valid'', JBool (vr_valid r)),
     (''block_count'', JInt (vr_block_count r)),
     (''error'', jopt_str (vr_error r))]"

end
