(* ===== verification/Storage.thy ===== *)
theory Storage
  imports Schemas
begin

text \<open>
  \<open>shared/config/settings.py\<close>, \<open>shared/storage/json_state.py\<close> and
  \<open>shared/storage/state_store.py\<close>: service settings from the environment, JSON state
  files, and the two state store adapters.

  The file system is a map from paths to files; a file holds a JSON document or text
  that is not JSON. The document is kept as a value; \<open>StateText\<close> has the texts and shows that
  they read as these values. Disk errors are not modelled. The environment is a map from names to strings. The Azure SDK is
  code outside this repository: a record of its three calls on a remote state.
\<close>

section \<open>JSON files\<close>

type_synonym path = string

datatype file_content = JsonFile json | TextFile string

type_synonym fs = "path \<rightharpoonup> file_content"

definition load_json_file :: "fs \<Rightarrow> path option \<Rightarrow> json \<Rightarrow> json result" where
  "load_json_file fs path dflt =
     (case path of None \<Rightarrow> Inr dflt
      | Some p \<Rightarrow> (case fs p of None \<Rightarrow> Inr dflt
          | Some (JsonFile j) \<Rightarrow> Inr j
          | Some (TextFile t) \<Rightarrow> Inl JSONDecodeError))"

definition save_json_file :: "path option \<Rightarrow> json \<Rightarrow> fs \<Rightarrow> fs" where
  "save_json_file path payload fs = (case path of None \<Rightarrow> fs | Some p \<Rightarrow> fs(p \<mapsto> JsonFile payload))"

text \<open>
  The same call as the sequence of file operations it makes: the parent directory, a
  temporary file with a random infix in the same directory, its content, and the
  atomic rename. A crash stops the sequence after any prefix.
\<close>

datatype fs_op =
    MakeDirs path
  | CreateTemp path
  | WriteText path json
  | ReplaceFile path path

fun run_op :: "fs_op \<Rightarrow> fs \<Rightarrow> fs" where
  "run_op (MakeDirs p) fs = fs"
| "run_op (CreateTemp p) fs = fs(p \<mapsto> TextFile [])"
| "run_op (WriteText p j) fs = fs(p \<mapsto> JsonFile j)"
| "run_op (ReplaceFile src dst) fs = (fs(dst := fs src))(src := None)"

definition parent_dir :: "path \<Rightarrow> path" where
  "parent_dir p = rstrip_by (\<lambda>c. c = CHR ''/'') (rev (dropWhile (\<lambda>c. c \<noteq> CHR ''/'') (rev p)))"

definition temp_name :: "path \<Rightarrow> string \<Rightarrow> path" where
  "temp_name p infix_chars = p @ ''.'' @ infix_chars @ ''.tmp''"

definition save_steps :: "string \<Rightarrow> path \<Rightarrow> json \<Rightarrow> fs_op list" where
  "save_steps r p payload =
     [MakeDirs (parent_dir p), CreateTemp (temp_name p r), WriteText (temp_name p r) payload,
      ReplaceFile (temp_name p r) p]"

lemma temp_name_neq [simp]: "temp_name p r \<noteq> p" "p \<noteq> temp_name p r"
proof -
  have "length (temp_name p r) > length p" by (simp add: temp_name_def)
  then show "temp_name p r \<noteq> p" by auto
  then show "p \<noteq> temp_name p r" by simp
qed

lemma save_steps_refine:
  assumes "fs (temp_name p r) = None"
  shows "fold run_op (save_steps r p payload) fs = save_json_file (Some p) payload fs"
  using assms by (auto simp: save_steps_def save_json_file_def fun_eq_iff)

lemma save_steps_prefix:
  "fold run_op (take n (save_steps r p payload)) fs p \<in> {fs p, Some (JsonFile payload)}"
  "q \<noteq> p \<Longrightarrow> q \<noteq> temp_name p r \<Longrightarrow> fold run_op (take n (save_steps r p payload)) fs q = fs q"
  by (simp_all add: save_steps_def take_Cons split: nat.splits)

section \<open>The state store interface\<close>

text \<open>
  What a service relies on of its store: what was saved last is what is loaded,
  whatever was there before.
\<close>

locale json_state_store =
  fixes load :: "'s \<Rightarrow> json \<Rightarrow> json result"
    and save :: "json \<Rightarrow> 's \<Rightarrow> 's"
  assumes load_save: "load (save j s) d = Inr j"
begin

lemma load_last_save: "load (fold save (js @ [j]) s) d = Inr j"
  by (simp add: load_save)

lemma load_after_saves: "js \<noteq> [] \<Longrightarrow> load (fold save js s) d = Inr (last js)"
  by (metis append_butlast_last_id load_last_save)

lemma load_default_irrelevant: "load (save j s) d = load (save j s) d'"
  by (simp add: load_save)

end

definition file_load :: "path \<Rightarrow> fs \<Rightarrow> json \<Rightarrow> json result" where
  "file_load p fs dflt = load_json_file fs (Some p) dflt"

definition file_save :: "path \<Rightarrow> json \<Rightarrow> fs \<Rightarrow> fs" where
  "file_save p payload fs = save_json_file (Some p) payload fs"

interpretation file_store: json_state_store "file_load p" "file_save p" for p
  by unfold_locales (simp add: file_load_def file_save_def load_json_file_def save_json_file_def)

section \<open>The Azure blob store\<close>

datatype sdk_error = ResourceExists | ResourceNotFound | OtherSdkError string

datatype blob = EmptyBlob | JsonBlob json | BadBlob

record 'r azure_sdk =
  sdk_installed :: bool
  sdk_create_container :: "'r \<Rightarrow> sdk_error option \<times> 'r"
  sdk_download :: "'r \<Rightarrow> (sdk_error + blob) \<times> 'r"
  sdk_upload :: "json \<Rightarrow> 'r \<Rightarrow> sdk_error option \<times> 'r"

record 'r blob_state =
  bl_client :: bool
  bl_remote :: 'r

definition sdk_exc :: "sdk_error \<Rightarrow> py_exc" where
  "sdk_exc e = (case e of ResourceExists \<Rightarrow> SdkError ''ResourceExistsError''
     | ResourceNotFound \<Rightarrow> SdkError ''ResourceNotFoundError'' | OtherSdkError m \<Rightarrow> SdkError m)"

definition sdk_missing :: py_exc where
  "sdk_missing = RuntimeError ''azure-storage-blob is required when STORAGE_BACKEND=azure_blob.''"

text \<open>
  \<open>_client\<close>: the container is created on first use, one that exists already is fine, and
  the client is kept. The error of the container call is left to the caller's handler.
\<close>

definition blob_client :: "'r azure_sdk \<Rightarrow> 'r blob_state \<Rightarrow> (py_exc + sdk_error option) \<times> 'r blob_state" where
  "blob_client sdk st =
     (if bl_client st then (Inr None, st)
      else if \<not> sdk_installed sdk then (Inl sdk_missing, st)
      else case sdk_create_container sdk (bl_remote st) of
          (None, r) \<Rightarrow> (Inr None, st\<lparr>bl_client := True, bl_remote := r\<rparr>)
        | (Some ResourceExists, r) \<Rightarrow> (Inr None, st\<lparr>bl_client := True, bl_remote := r\<rparr>)
        | (Some e, r) \<Rightarrow> (Inr (Some e), st\<lparr>bl_remote := r\<rparr>))"

definition blob_load_json :: "'r azure_sdk \<Rightarrow> json \<Rightarrow> 'r blob_state \<Rightarrow> ('r blob_state, json) outcome" where
  "blob_load_json sdk dflt st =
     (if \<not> sdk_installed sdk then (Inl sdk_missing, st)
      else case blob_client sdk st of
          (Inl e, st1) \<Rightarrow> (Inl e, st1)
        | (Inr (Some e), st1) \<Rightarrow>
            (if e = ResourceNotFound \<or> e = ResourceExists then (Inr dflt, st1) else (Inl (sdk_exc e), st1))
        | (Inr None, st1) \<Rightarrow>
            (case sdk_download sdk (bl_remote st1) of
               (Inl e, r) \<Rightarrow>
                 (if e = ResourceNotFound \<or> e = ResourceExists then (Inr dflt, st1\<lparr>bl_remote := r\<rparr>)
                  else (Inl (sdk_exc e), st1\<lparr>bl_remote := r\<rparr>))
             | (Inr EmptyBlob, r) \<Rightarrow> (Inr dflt, st1\<lparr>bl_remote := r\<rparr>)
             | (Inr BadBlob, r) \<Rightarrow> (Inl JSONDecodeError, st1\<lparr>bl_remote := r\<rparr>)
             | (Inr (JsonBlob j), r) \<Rightarrow> (Inr j, st1\<lparr>bl_remote := r\<rparr>)))"

definition blob_save_json :: "'r azure_sdk \<Rightarrow> json \<Rightarrow> 'r blob_state \<Rightarrow> ('r blob_state, unit) outcome" where
  "blob_save_json sdk payload st =
     (case blob_client sdk st of
        (Inl e, st1) \<Rightarrow> (Inl e, st1)
      | (Inr (Some e), st1) \<Rightarrow> (Inl (sdk_exc e), st1)
      | (Inr None, st1) \<Rightarrow>
          (case sdk_upload sdk payload (bl_remote st1) of
             (None, r) \<Rightarrow> (Inr (), st1\<lparr>bl_remote := r\<rparr>)
           | (Some e, r) \<Rightarrow> (Inl (sdk_exc e), st1\<lparr>bl_remote := r\<rparr>)))"

text \<open>
  The documented behaviour of the service: an upload that succeeds is what the next
  download returns.
\<close>

definition sdk_stores :: "'r azure_sdk \<Rightarrow> bool" where
  "sdk_stores sdk \<longleftrightarrow> (\<forall>j r r'. sdk_upload sdk j r = (None, r') \<longrightarrow> (\<exists>r''. sdk_download sdk r' = (Inr (JsonBlob j), r'')))"

lemma blob_save_load:
  assumes "sdk_installed sdk" "sdk_stores sdk" "blob_save_json sdk j st = (Inr (), st')"
  shows "fst (blob_load_json sdk d st') = Inr j"
proof -
  obtain st1 r where c: "blob_client sdk st = (Inr None, st1)"
    and u: "sdk_upload sdk j (bl_remote st1) = (None, r)" and st': "st' = st1\<lparr>bl_remote := r\<rparr>"
    using assms(3) by (auto simp: blob_save_json_def split: prod.splits sum.splits option.splits)
  have "bl_client st1"
    using c by (auto simp: blob_client_def split: if_splits prod.splits option.splits sdk_error.splits)
  then have "blob_client sdk st' = (Inr None, st')" by (simp add: blob_client_def st')
  moreover obtain r'' where "sdk_download sdk r = (Inr (JsonBlob j), r'')"
    using assms(2) u unfolding sdk_stores_def by blast
  ultimately show ?thesis using assms(1) by (simp add: blob_load_json_def st')
qed

section \<open>Settings\<close>

type_synonym env = "string \<rightharpoonup> string"

definition getenv :: "env \<Rightarrow> string \<Rightarrow> string \<Rightarrow> string" where
  "getenv e k d = (case e k of None \<Rightarrow> d | Some v \<Rightarrow> v)"

text \<open>\<open>pathlib\<close>: empty and \<open>.\<close> components disappear, an absolute right side replaces the left.\<close>

definition path_parts :: "path \<Rightarrow> string list" where
  "path_parts p = filter (\<lambda>s. s \<noteq> [] \<and> s \<noteq> ''.'') (split_on (CHR ''/'') p)"

definition path_render :: "bool \<Rightarrow> string list \<Rightarrow> path" where
  "path_render absolute ps =
     (if absolute then CHR ''/'' # join ''/'' ps else if ps = [] then ''.'' else join ''/'' ps)"

definition path_join :: "path \<Rightarrow> path \<Rightarrow> path" where
  "path_join a b =
     (if starts_with ''/'' b then path_render True (path_parts b)
      else path_render (starts_with ''/'' a) (path_parts a @ path_parts b))"

definition service_prefix :: "string \<Rightarrow> string" where
  "service_prefix name = replace_char (CHR ''-'') (CHR ''_'') (str_upper name)"

record service_settings =
  ss_service_name :: string
  ss_app_env :: string
  ss_service_port :: int
  ss_service_host :: string
  ss_base_url :: string
  ss_registry_url :: string
  ss_ledger_url :: string
  ss_mqtt_broker_url :: string
  ss_storage_backend :: string
  ss_data_dir :: path
  ss_heartbeat_interval_seconds :: int
  ss_request_timeout_seconds :: pyfloat
  ss_enable_runtime :: bool
  ss_debug :: bool

definition int_str :: "string \<Rightarrow> int result" where
  "int_str s = (case parse_int s of None \<Rightarrow> Inl (ValueError ''invalid literal for int()'') | Some i \<Rightarrow> Inr i)"

definition float_str :: "string \<Rightarrow> pyfloat result" where
  "float_str s = (case parse_float s of
     None \<Rightarrow> Inl (ValueError ''could not convert string to float'') | Some x \<Rightarrow> Inr x)"

definition service_port_of :: "env \<Rightarrow> string \<Rightarrow> int \<Rightarrow> int result" where
  "service_port_of e prefix default_port =
     (case e (prefix @ ''_PORT'') of Some s \<Rightarrow> int_str s
      | None \<Rightarrow> (case e ''SERVICE_PORT'' of Some s \<Rightarrow> int_str s | None \<Rightarrow> Inr default_port))"

definition load_service_settings :: "env \<Rightarrow> path \<Rightarrow> string \<Rightarrow> int \<Rightarrow> service_settings result" where
  "load_service_settings e cwd service_name default_port =
     (let prefix = service_prefix service_name;
          host = getenv e ''SERVICE_HOST'' ''0.0.0.0''
      in bindR (service_port_of e prefix default_port) (\<lambda>port.
         let base_url = getenv e (prefix @ ''_BASE_URL'')
               (getenv e ''BASE_URL'' (''http://localhost:'' @ show_int port))
         in bindR (int_str (getenv e ''HEARTBEAT_INTERVAL_SECONDS'' ''15'')) (\<lambda>interval.
            bindR (float_str (getenv e ''REQUEST_TIMEOUT_SECONDS'' ''2.5'')) (\<lambda>timeout.
            Inr \<lparr>ss_service_name = service_name,
              ss_app_env = getenv e ''APP_ENV'' ''local'',
              ss_service_port = port,
              ss_service_host = host,
              ss_base_url = base_url,
              ss_registry_url = getenv e ''REGISTRY_URL'' ''http://localhost:8000'',
              ss_ledger_url = getenv e ''LEDGER_URL'' (getenv e ''REGISTRY_URL'' ''http://localhost:8000''),
              ss_mqtt_broker_url = getenv e ''MQTT_BROKER_URL'' ''mqtt://localhost:1883'',
              ss_storage_backend = getenv e ''STORAGE_BACKEND'' ''memory'',
              ss_data_dir = path_join (getenv e ''QUANTIAN_DATA_DIR'' (path_join cwd ''data/runtime'')) service_name,
              ss_heartbeat_interval_seconds = interval,
              ss_request_timeout_seconds = timeout,
              ss_enable_runtime = (str_lower (getenv e ''ENABLE_SERVICE_RUNTIME'' ''true'') = ''true''),
              ss_debug = (str_lower (getenv e ''DEBUG'' ''false'') = ''true'')\<rparr>))))"

text \<open>The ledger lives at the registry unless the environment says otherwise.\<close>

lemma ledger_url_default:
  assumes "load_service_settings e cwd name port = Inr s" "e ''LEDGER_URL'' = None"
  shows "ss_ledger_url s = ss_registry_url s"
  using assms by (auto simp: load_service_settings_def bindR_Inr_iff Let_def getenv_def)

lemma service_port_precedence:
  assumes "load_service_settings e cwd name port = Inr s" "e (service_prefix name @ ''_PORT'') = Some t"
  shows "parse_int t = Some (ss_service_port s)"
  using assms
  by (auto simp: load_service_settings_def bindR_Inr_iff Let_def service_port_of_def int_str_def
      split: option.splits)

section \<open>Choosing a state store\<close>

datatype state_store =
    FileJsonStateStore "path option"
  | AzureBlobJsonStateStore string string string

definition blob_backends :: "string list" where
  "blob_backends = [''azure_blob'', ''blob'', ''azureblob'']"

definition env_or :: "env \<Rightarrow> string \<Rightarrow> string \<Rightarrow> string" where
  "env_or e k dflt = (case e k of Some v \<Rightarrow> (if v = [] then dflt else v) | None \<Rightarrow> dflt)"

definition build_json_state_store ::
    "env \<Rightarrow> service_settings \<Rightarrow> path option \<Rightarrow> string \<Rightarrow> string \<Rightarrow> state_store result" where
  "build_json_state_store e settings state_path service_name default_blob_name =
     (let backend = str_lower (ss_storage_backend settings) in
      if backend \<notin> set blob_backends then Inr (FileJsonStateStore state_path)
      else
        let prefix = service_prefix service_name;
            connection_string = env_or e (prefix @ ''_STORAGE_CONNECTION_STRING'')
              (env_or e ''AZURE_STORAGE_CONNECTION_STRING'' '''')
        in if connection_string = [] then
             Inl (RuntimeError (''Missing Azure storage connection string for '' @ service_name @ ''. Set '' @
               prefix @ ''_STORAGE_CONNECTION_STRING or AZURE_STORAGE_CONNECTION_STRING.''))
           else Inr (AzureBlobJsonStateStore connection_string
             (getenv e (prefix @ ''_STORAGE_CONTAINER'') (getenv e ''AZURE_STORAGE_CONTAINER'' ''quantian-state''))
             (getenv e (prefix @ ''_STATE_BLOB_NAME'') default_blob_name)))"

lemma build_store_blob:
  "build_json_state_store e st p name dflt = Inr (AzureBlobJsonStateStore c n b) \<Longrightarrow>
     c \<noteq> [] \<and> str_lower (ss_storage_backend st) \<in> set blob_backends"
  by (auto simp: build_json_state_store_def Let_def split: if_splits)

lemma build_store_error_iff:
  "(\<exists>x. build_json_state_store e st p name dflt = Inl x) \<longleftrightarrow>
     str_lower (ss_storage_backend st) \<in> set blob_backends \<and>
     env_or e (service_prefix name @ ''_STORAGE_CONNECTION_STRING'')
       (env_or e ''AZURE_STORAGE_CONNECTION_STRING'' '''') = []"
  by (auto simp: build_json_state_store_def Let_def)

section \<open>Reading a stored document\<close>

text \<open>
  What the services' \<open>_load_state\<close> methods do with a parsed document: iterate over it,
  index it, call its \<open>get\<close>, and validate each item. Each has Python's error for a value
  of the wrong type.
\<close>

fun json_iter :: "json \<Rightarrow> json list result" where
  "json_iter (JList xs) = Inr xs"
| "json_iter (JObj d) = Inr (map (\<lambda>kv. JStr (fst kv)) d)"
| "json_iter (JStr s) = Inr (map (\<lambda>c. JStr [c]) s)"
| "json_iter _ = Inl (TypeError ''object is not iterable'')"

fun json_item :: "json \<Rightarrow> string \<Rightarrow> json result" where
  "json_item (JObj d) k = (case map_of d k of None \<Rightarrow> Inl (KeyError k) | Some v \<Rightarrow> Inr v)"
| "json_item _ k = Inl (TypeError ''object is not subscriptable by a string'')"

fun json_get :: "json \<Rightarrow> string \<Rightarrow> json \<Rightarrow> json result" where
  "json_get (JObj d) k dflt = Inr (case map_of d k of None \<Rightarrow> dflt | Some v \<Rightarrow> v)"
| "json_get _ k dflt = Inl (AttributeError ''get'')"

text \<open>\<open>len(j)\<close>.\<close>

definition json_len :: "json \<Rightarrow> int result" where
  "json_len j = (case j of JList js \<Rightarrow> Inr (int (length js)) | JObj d \<Rightarrow> Inr (int (length d)) | JStr s \<Rightarrow> Inr (int (length s))
     | _ \<Rightarrow> Inl (TypeError ''object has no len()''))"

definition validated :: "string \<Rightarrow> 'a option \<Rightarrow> 'a result" where
  "validated name r = (case r of None \<Rightarrow> Inl (ValidationError name) | Some x \<Rightarrow> Inr x)"

definition load_models :: "string \<Rightarrow> (json \<Rightarrow> 'a option) \<Rightarrow> json \<Rightarrow> 'a list result" where
  "load_models name f j = bindR (json_iter j) (mapR (\<lambda>i. validated name (f i)))"

lemma validated_simps [simp]:
  "validated name None = Inl (ValidationError name)"
  "validated name (Some x) = Inr x"
  by (simp_all add: validated_def)

lemma load_models_dump:
  assumes "\<And>x. x \<in> set xs \<Longrightarrow> f (dump x) = Some x"
  shows "load_models name f (JList (map dump xs)) = Inr xs"
proof -
  have "mapR (\<lambda>i. validated name (f i)) (map dump xs) = Inr (map id xs)"
    using assms by (induction xs) auto
  then show ?thesis by (simp add: load_models_def)
qed

text \<open>Two files of one directory have different paths.\<close>

definition plain_name :: "string \<Rightarrow> bool" where
  "plain_name f \<longleftrightarrow> f \<noteq> [] \<and> f \<noteq> ''.'' \<and> CHR ''/'' \<notin> set f"

lemma path_join_plain:
  "plain_name f \<Longrightarrow> path_join d f = path_render (starts_with ''/'' d) (path_parts d @ [f])"
  by (cases f) (auto simp: plain_name_def path_join_def path_parts_def split_on_absent starts_with_def)

lemma path_join_inj:
  "plain_name f \<Longrightarrow> plain_name g \<Longrightarrow> path_join d f = path_join d g \<longleftrightarrow> f = g"
  by (auto simp: path_join_plain path_render_def join_snoc split: if_splits)

text \<open>A path is its parts: building one from plain names and cutting it give the names back.\<close>

lemma path_parts_plain: "list_all plain_name (path_parts p)"
  by (auto simp: path_parts_def plain_name_def list_all_iff dest: split_on_pieces)

lemma path_parts_render:
  assumes "list_all plain_name ps"
  shows "path_parts (path_render b ps) = ps"
proof -
  have names: "filter (\<lambda>s. s \<noteq> [] \<and> s \<noteq> ''.'') ps = ps" using assms by (auto simp: list_all_iff plain_name_def)
  have slash: "\<forall>p \<in> set ps. CHR ''/'' \<notin> set p" using assms by (auto simp: list_all_iff plain_name_def)
  show ?thesis
  proof (cases "ps = []")
    case True
    then show ?thesis by (simp add: path_parts_def path_render_def)
  next
    case False
    then show ?thesis using split_join [OF False slash] names by (simp add: path_parts_def path_render_def)
  qed
qed

lemma path_render_absolute:
  assumes "list_all plain_name ps"
  shows "starts_with ''/'' (path_render b ps) = b"
proof (cases ps)
  case Nil
  then show ?thesis by (simp add: path_render_def starts_with_def)
next
  case (Cons p qs)
  then obtain c cs where "p = c # cs" "c \<noteq> CHR ''/''" using assms by (cases p) (auto simp: plain_name_def)
  then show ?thesis using Cons by (cases qs) (simp_all add: path_render_def starts_with_def)
qed

lemma path_join_render:
  "list_all plain_name ps \<Longrightarrow> plain_name f \<Longrightarrow> path_join (path_render b ps) f = path_render b (ps @ [f])"
  by (simp add: path_join_plain path_parts_render path_render_absolute)

end
