(* ===== verification/JsonCode.thy ===== *)
theory JsonCode
  imports PyJson
begin

text \<open>
  The canonical text determines what it was made from: the encoded string is a prefix
  code (it can be read off the front of a text), and the member lists the services hash
  are injective. A forged document with the same hash is therefore two different texts
  with one SHA-256 digest.
\<close>

definition hex_val :: "char \<Rightarrow> nat" where
  "hex_val c = (let n = of_char c in if n < 58 then n - 48 else n - 87)"

lemma hex_val_digit: "d < 16 \<Longrightarrow> hex_val (hex_digit d) = d"
  by (auto simp: hex_val_def hex_digit_def Let_def)

text \<open>Reading one escaped character back off the front of a text.\<close>

definition unescape_code :: "nat \<Rightarrow> string \<Rightarrow> char \<times> string" where
  "unescape_code n r =
     (if n = 34 then (char_of (34::nat), r) else if n = 92 then (char_of (92::nat), r)
      else if n = 110 then (char_of (10::nat), r) else if n = 114 then (char_of (13::nat), r)
      else if n = 116 then (char_of (9::nat), r) else if n = 98 then (char_of (8::nat), r)
      else if n = 102 then (char_of (12::nat), r)
      else (char_of (16 * hex_val (r ! 2) + hex_val (r ! 3)), drop 4 r))"

definition unescape :: "string \<Rightarrow> char \<times> string" where
  "unescape s =
     (if of_char (hd s) = (92::nat) then unescape_code (of_char (s ! 1)) (drop 2 s) else (hd s, tl s))"

lemma char_of_eq: "(of_char c :: nat) = n \<Longrightarrow> char_of n = c"
  by auto

lemma unescape_hex:
  assumes "n < 256"
  shows "16 * hex_val (hex_digit (n div 16)) + hex_val (hex_digit (n mod 16)) = n"
proof -
  have "n div 16 < 16" using assms by simp
  then show ?thesis by (simp add: hex_val_digit)
qed

lemma unescape_escape: "unescape (escape_char c @ x) = (c, x)"
proof -
  define n :: nat where "n = of_char c"
  have c: "char_of n = c" "n < 256" by (simp_all add: n_def)
  note simps = unescape_def unescape_code_def escape_char_def Let_def n_def [symmetric] numeral_3_eq_3
  consider "n = 34" | "n = 92" | "n = 10" | "n = 13" | "n = 9" | "n = 8" | "n = 12"
    | "n \<notin> {34, 92, 10, 13, 9, 8, 12}" "n < 32 \<or> n > 126"
    | "n \<notin> {34, 92, 10, 13, 9, 8, 12}" "\<not> (n < 32 \<or> n > 126)" by blast
  then show ?thesis
  proof cases
    case 8
    then show ?thesis using c unescape_hex [OF c(2)] by (simp add: simps)
  next
    case 9
    then show ?thesis using c by (simp add: simps)
  qed (use c in \<open>simp_all add: simps\<close>)
qed

lemma escape_char_ne: "escape_char c \<noteq> []"
  by (simp add: escape_char_def Let_def)

lemma escape_char_head: "hd (escape_char c) \<noteq> quote_char"
proof -
  have "(of_char (char_of (92::nat)) :: nat) \<noteq> of_char quote_char" by (simp add: quote_char_def)
  then have neq: "char_of (92::nat) \<noteq> quote_char" by (rule contrapos_nn) simp
  show ?thesis
    by (cases "c = quote_char")
      (use neq in \<open>simp_all add: escape_char_def quote_char_def Let_def\<close>)
qed

text \<open>One escaped character can be read off the front.\<close>

lemma escape_char_prefix:
  assumes "escape_char c @ x = escape_char d @ y"
  shows "c = d \<and> x = y"
  using assms unescape_escape [of c x] unescape_escape [of d y] by (metis prod.inject)

lemma escaped_prefix:
  "concat (map escape_char s) @ quote_char # x = concat (map escape_char t) @ quote_char # y \<Longrightarrow>
     s = t \<and> x = y"
proof (induction s arbitrary: t)
  case Nil
  show ?case
  proof (cases t)
    case Nil
    then show ?thesis using Nil.prems by simp
  next
    case (Cons d t')
    then have "hd (escape_char d) = quote_char"
      using Nil.prems escape_char_ne [of d] by (cases "escape_char d") auto
    then show ?thesis using escape_char_head by blast
  qed
next
  case (Cons c s)
  show ?case
  proof (cases t)
    case Nil
    then have "hd (escape_char c) = quote_char"
      using Cons.prems escape_char_ne [of c] by (cases "escape_char c") auto
    then show ?thesis using escape_char_head by blast
  next
    case (Cons d t')
    have "escape_char c @ (concat (map escape_char s) @ quote_char # x) =
        escape_char d @ (concat (map escape_char t') @ quote_char # y)"
      using Cons.prems Cons by simp
    from escape_char_prefix [OF this] show ?thesis using Cons.IH [of t'] Cons by simp
  qed
qed

lemma json_string_prefix: "json_string s @ x = json_string t @ y \<longleftrightarrow> s = t \<and> x = y"
  using escaped_prefix [of s x t y] by (auto simp: json_string_def)

lemma json_string_inj: "json_string s = json_string t \<longleftrightarrow> s = t"
  using json_string_prefix [of s "[]" t "[]"] by simp

text \<open>A decimal number followed by a comma can be read off the front.\<close>

lemma show_int_chars: "c \<in> set (show_int i) \<Longrightarrow> is_digit c \<or> c = CHR ''-''"
  using show_nat_digits by (auto simp: show_int_def split: if_splits)

lemma takeWhile_comma:
  "\<forall>c \<in> set s. c \<noteq> CHR '','' \<Longrightarrow> takeWhile (\<lambda>c. c \<noteq> CHR '','') (s @ CHR '','' # x) = s"
  by (simp add: takeWhile_append)

lemma show_int_no_comma: "\<forall>c \<in> set (show_int i). c \<noteq> CHR '',''"
proof
  fix c assume "c \<in> set (show_int i)"
  then show "c \<noteq> CHR '',''" using show_int_chars [of c i] by (auto simp: is_digit_def)
qed

lemma show_int_prefix: "show_int i @ CHR '','' # x = show_int j @ CHR '','' # y \<longleftrightarrow> i = j \<and> x = y"
proof
  assume eq: "show_int i @ CHR '','' # x = show_int j @ CHR '','' # y"
  then have "show_int i = show_int j"
    using takeWhile_comma [OF show_int_no_comma, of i x] takeWhile_comma [OF show_int_no_comma, of j y] by metis
  with eq show "i = j \<and> x = y" by (simp add: show_int_inj)
qed simp

lemma jopt_prefix:
  "stable_json_dumps (jopt_str a) @ x = stable_json_dumps (jopt_str b) @ y \<longleftrightarrow> a = b \<and> x = y"
proof -
  have "json_string t @ z \<noteq> ''null'' @ w" "''null'' @ w \<noteq> json_string t @ z" for t z w
    by (simp_all add: json_string_def quote_char_def)
  then show ?thesis by (cases a; cases b) (simp_all add: jopt_str_def json_string_prefix)
qed

text \<open>Equal hashes are equal texts or a collision of SHA-256.\<close>

lemma hash_json_eq: "hash_json a = hash_json b \<longleftrightarrow> sha256_hex (stable_json_dumps a) = sha256_hex (stable_json_dumps b)"
  by (simp add: hash_json_def)

end
