(* ===== verification/FloatEval.thy ===== *)
theory FloatEval
  imports PyFloat
begin

text \<open>
  Facts about \<open>PyFloat\<close> the components share: how to evaluate a rounding at a concrete
  input, when an operation stays finite, and that every operation returns a double.
  The collection \<open>float_eval\<close> holds the rules that compute.
\<close>

named_theorems float_eval \<open>evaluation of floating-point operations\<close>

section \<open>Evaluating a rounding\<close>

lemma half_even_eq: "\<bar>y - of_int m\<bar> < 1 / 2 \<Longrightarrow> half_even y = m"
  using half_even_close [of y] by linarith

text \<open>
  With \<open>k\<close> chosen so that the scaled value has 53 bits, the rounded value is the nearest
  integer over the same power of two.
\<close>

lemma rnd_eval:
  assumes "k \<le> 1074" "2 ^ 52 \<le> x * 2 ^ k" "x * 2 ^ k < 2 ^ 53" "\<bar>x * 2 ^ k - of_int m\<bar> < 1 / 2"
  shows "rnd x = of_int m / 2 ^ k"
proof -
  let ?y = "x * 2 ^ k"
  define c where "c = 1074 - k"
  define n where "n = ?y * 2 ^ c"
  have scale: "subnormal_scale = 2 ^ k * 2 ^ c"
    using assms(1) by (simp add: subnormal_scale_def c_def power_add [symmetric])
  have "(0::real) < 2 ^ 52" by simp
  then have "0 < ?y" using assms(2) by linarith
  then have pos: "0 < x" by (simp add: zero_less_mult_iff)
  have n: "x * subnormal_scale = n" by (simp add: n_def scale)
  have lower: "2 ^ (52 + c) \<le> n"
    using mult_right_mono [OF assms(2), of "2 ^ c"] by (simp add: n_def power_add)
  have upper: "n < 2 ^ (53 + c)"
    using mult_strict_right_mono [OF assms(3), of "2 ^ c"] by (simp add: n_def power_add)
  have "(2::real) ^ (52 + c) < 2 ^ (cut_bits n + 53)" using lower cut_bits_upper [of n] by linarith
  then have ge: "c \<le> cut_bits n" by simp
  have "cut_bits n \<le> c"
  proof (rule ccontr)
    assume "\<not> cut_bits n \<le> c"
    then have "2 ^ (cut_bits n + 52) \<le> n" by (intro cut_bits_lower) simp
    then have "(2::real) ^ (cut_bits n + 52) < 2 ^ (53 + c)" using upper by linarith
    then have "cut_bits n + 52 < 53 + c" by simp
    with \<open>\<not> cut_bits n \<le> c\<close> show False by simp
  qed
  with ge have cut: "cut_bits n = c" by simp
  have "half_even (n / 2 ^ c) = m" using assms(4) by (intro half_even_eq) (simp add: n_def)
  then have "rnd_units n = of_int m * 2 ^ c" by (simp add: rnd_units_def cut)
  then have "rnd x = of_int m * 2 ^ c / (2 ^ k * 2 ^ c)" using pos by (simp add: rnd_nonneg_eq n flip: scale)
  then show ?thesis by simp
qed

section \<open>Finite results\<close>

lemma fl_exact: "rnd r = r \<Longrightarrow> \<bar>r\<bar> < overflow_bound \<Longrightarrow> fl r = Fin r"
  by (auto simp: fl_def Let_def)

text \<open>Below \<open>safe_bound\<close>, far under the largest double, no result overflows.\<close>

definition safe_bound :: real where
  "safe_bound = 2 ^ 1000"

lemma two_power_fixed:
  assumes "n \<le> 1000"
  shows "rnd (2 ^ n) = 2 ^ n"
proof (rule rnd_exact_units [of 1 _ "n + 1074"])
  show "\<bar>(2::real) ^ n\<bar> * subnormal_scale = of_nat 1 * 2 ^ (n + 1074)"
    unfolding subnormal_scale_def power_add by simp
qed simp

lemma safe_bound_fixed [simp]: "rnd safe_bound = safe_bound"
  unfolding safe_bound_def by (rule two_power_fixed) simp

lemma safe_bound_overflow: "safe_bound < overflow_bound"
  unfolding safe_bound_def overflow_bound_def by (rule power_strict_increasing) simp_all

lemma rnd_safe: "\<bar>x\<bar> \<le> safe_bound \<Longrightarrow> \<bar>rnd x\<bar> \<le> safe_bound"
  using b64.rd_between [of "- safe_bound" safe_bound x] by (auto simp: abs_le_iff)

lemma fl_safe: "\<bar>x\<bar> \<le> safe_bound \<Longrightarrow> fl x = Fin (rnd x)"
  using rnd_safe [of x] safe_bound_overflow by (auto simp: fl_def Let_def)

lemma safe_bound_ge: "n \<le> 1000 \<Longrightarrow> 2 ^ n \<le> safe_bound"
  unfolding safe_bound_def by (rule power_increasing) simp_all

text \<open>Evaluation at an ordinary size: \<open>2^60\<close> is compared by arithmetic on numerals.\<close>

lemma fl_eval [float_eval]: "\<bar>x\<bar> \<le> 2 ^ 60 \<Longrightarrow> fl x = Fin (rnd x)"
  using safe_bound_ge [of 60] by (intro fl_safe) simp

lemma fl_zero [simp]: "fl 0 = Fin 0"
  using fl_eval [of 0] by simp

lemma fl_one [simp]: "fl 1 = Fin 1"
  using fl_eval [of 1] by simp

lemma fl_not_nan [simp]: "fl x \<noteq> NaN"
  by (simp add: fl_def Let_def)

lemma fl_le_one: "x \<le> 1 \<Longrightarrow> fl x \<noteq> PInf"
  using b64.rd_le_fixed [of x 1] safe_bound_ge [of 0] safe_bound_overflow
  by (auto simp: fl_def Let_def)

lemma fl_unit: "0 \<le> x \<Longrightarrow> x \<le> 1 \<Longrightarrow> \<exists>r. fl x = Fin r \<and> 0 \<le> r \<and> r \<le> 1"
  using b64.rd_unit_interval [of x] by (intro exI [of _ "rnd x"]) (simp add: fl_eval)

lemma fl_Fin: "fl x = Fin r \<Longrightarrow> r = rnd x"
  by (auto simp: fl_def Let_def split: if_splits)

text \<open>Rounding to double is monotone for the order of floats.\<close>

lemma fle_refl: "x \<noteq> NaN \<Longrightarrow> fle x x"
  by (simp add: fle_def feq_def)

lemma fle_simps [simp]:
  "fle (Fin a) (Fin b) \<longleftrightarrow> a \<le> b" "fle (Fin a) PInf" "fle NInf x \<longleftrightarrow> x \<noteq> NaN"
  "\<not> fle NaN x" "\<not> fle x NaN"
  by (cases x; auto simp: fle_def feq_def)+

lemma flt_nan [simp]: "\<not> flt x NaN" "\<not> flt NaN x"
  by (cases x; simp)+

lemma fl_mono: "x \<le> y \<Longrightarrow> fle (fl x) (fl y)"
  using rnd_mono [of x y] safe_bound_overflow safe_bound_ge [of 0]
  by (auto simp: fl_def Let_def fle_def feq_def)

section \<open>Every operation returns a double\<close>

lemma is_double_simps [simp]: "is_double PInf" "is_double NInf" "is_double NaN" "is_double (Fin 0)" "is_double (Fin 1)"
  using safe_bound_ge [of 0] safe_bound_overflow by (simp_all add: is_double_def overflow_bound_def)

lemma fl_double [simp]: "is_double (fl x)"
  by (auto simp: fl_def Let_def is_double_def)

lemma fneg_double [simp]: "is_double x \<Longrightarrow> is_double (fneg x)"
  by (cases x) (auto simp: is_double_def)

lemma fadd_double [simp]: "is_double (fadd x y)"
  by (cases x; cases y) simp_all

lemma fmul_double [simp]: "is_double (fmul x y)"
  by (cases x; cases y) (simp_all add: signed_inf_def)

lemma fsub_double [simp]: "is_double (fsub x y)"
  by (simp add: fsub_def)

lemma fdiv_double: "fdiv x y = Inr z \<Longrightarrow> is_double z"
  by (cases x; cases y) (auto simp: fdiv_def split: if_splits)

lemma round_nd_double: "is_double x \<Longrightarrow> is_double (round_nd n x)"
  by (cases x) simp_all

lemma pymin_double: "is_double x \<Longrightarrow> is_double y \<Longrightarrow> is_double (pymin x y)"
  by (simp add: pymin_def)

lemma pymax_double: "is_double x \<Longrightarrow> is_double y \<Longrightarrow> is_double (pymax x y)"
  by (simp add: pymax_def)

lemma fdiv_raises_iff: "(\<exists>e. fdiv x y = Inl e) \<longleftrightarrow> y = Fin 0"
  by (simp add: fdiv_def)

end
