(* ===== verification/Registry.thy ===== *)
theory Registry
  imports Storage JsonCode FloatEval
begin

text \<open>
  \<open>registry_service/store.py\<close>: the peer registry and the hash-chained ledger, kept in
  memory and saved to two files after every change.

  Each public method holds the store's lock, so a method is one atomic step; it reads the
  clock (\<open>now\<close>, microseconds since the year one) and returns its result with the new
  state. The file system the process sees is part of the state.
\<close>

record registry =
  rg_state_dir :: "path option"
  rg_peers :: "(string, peer_registration) dict"
  rg_ledger :: "ledger_block list"
  rg_fs :: fs

section \<open>Freshness of a peer\<close>

definition seconds_since :: "int \<Rightarrow> string \<Rightarrow> pyfloat result" where
  "seconds_since now timestamp =
     (case fromisoformat timestamp of
        None \<Rightarrow> Inl (ValueError ''Invalid isoformat string'')
      | Some (observed_at, off) \<Rightarrow>
          let instant = observed_at - (case off of None \<Rightarrow> 0 | Some z \<Rightarrow> z)
          in Inr (pymax (Fin 0) (fl (of_int (now - instant) / 1000000))))"

definition age_status :: "pyfloat \<Rightarrow> peer_status" where
  "age_status age_seconds =
     (if flt (Fin 180) age_seconds then Offline
      else if flt (Fin 90) age_seconds then Stale else Online)"

definition with_fresh_status :: "int \<Rightarrow> peer_registration \<Rightarrow> peer_registration result" where
  "with_fresh_status now peer =
     bindR (seconds_since now (pr_last_heartbeat peer)) (\<lambda>age. Inr (peer\<lparr>pr_status := age_status age\<rparr>))"

text \<open>The comprehension reads the clock once per peer: \<open>clk i\<close> is the i-th reading.\<close>

fun fresh_all :: "(nat \<Rightarrow> int) \<Rightarrow> nat \<Rightarrow> peer_registration list \<Rightarrow> peer_registration list result" where
  "fresh_all clk i [] = Inr []"
| "fresh_all clk i (p # ps) =
     bindR (with_fresh_status (clk i) p) (\<lambda>q. bindR (fresh_all clk (Suc i) ps) (\<lambda>qs. Inr (q # qs)))"

section \<open>Files\<close>

definition peers_path :: "path \<Rightarrow> path" where
  "peers_path d = path_join d ''peers.json''"

definition ledger_path :: "path \<Rightarrow> path" where
  "ledger_path d = path_join d ''ledger.json''"

definition peers_doc :: "(string, peer_registration) dict \<Rightarrow> json" where
  "peers_doc ps = JList (map dump_peer (dict_values ps))"

definition ledger_doc :: "ledger_block list \<Rightarrow> json" where
  "ledger_doc bs = JList (map dump_block bs)"

definition save_state :: "registry \<Rightarrow> registry" where
  "save_state st =
     (case rg_state_dir st of None \<Rightarrow> st
      | Some d \<Rightarrow> st\<lparr>rg_fs :=
          save_json_file (Some (ledger_path d)) (ledger_doc (rg_ledger st))
            (save_json_file (Some (peers_path d)) (peers_doc (rg_peers st)) (rg_fs st))\<rparr>)"

text \<open>\<open>{item["node_id"]: PeerRegistration.model_validate(item) for item in peers_payload}\<close>\<close>

definition load_peers :: "int \<Rightarrow> json \<Rightarrow> (string, peer_registration) dict result" where
  "load_peers now payload =
     bindR (json_iter payload) (\<lambda>items.
     bindR (mapR (\<lambda>item.
        bindR (json_item item ''node_id'') (\<lambda>_.
        bindR (validated ''PeerRegistration'' (validate_peer (utc_now now) item)) (\<lambda>p.
        Inr (pr_node_id p, p)))) items) (\<lambda>kvs.
     Inr (dict_of kvs)))"

definition load_state :: "pydantic \<Rightarrow> int \<Rightarrow> path option \<Rightarrow> fs \<Rightarrow> registry result" where
  "load_state px now dir fs =
     (case dir of None \<Rightarrow> Inr \<lparr>rg_state_dir = None, rg_peers = [], rg_ledger = [], rg_fs = fs\<rparr>
      | Some d \<Rightarrow>
          bindR (load_json_file fs (Some (peers_path d)) (JList [])) (\<lambda>peers_payload.
          bindR (load_json_file fs (Some (ledger_path d)) (JList [])) (\<lambda>ledger_payload.
          bindR (load_peers now peers_payload) (\<lambda>peers.
          bindR (load_models ''LedgerBlock'' (validate_block px (utc_now now)) ledger_payload) (\<lambda>ledger.
          Inr \<lparr>rg_state_dir = dir, rg_peers = peers, rg_ledger = ledger, rg_fs = fs\<rparr>)))))"

section \<open>Peers\<close>

definition upsert_peer :: "int \<Rightarrow> peer_registration \<Rightarrow> registry \<Rightarrow> peer_registration \<times> registry" where
  "upsert_peer now peer st =
     (let normalized = peer\<lparr>pr_status := Online, pr_last_heartbeat := utc_now now\<rparr>
      in (normalized, save_state (st\<lparr>rg_peers := dict_set (pr_node_id peer) normalized (rg_peers st)\<rparr>)))"

definition heartbeat :: "string \<Rightarrow> peer_heartbeat \<Rightarrow> registry \<Rightarrow> peer_registration option \<times> registry" where
  "heartbeat node_id hb st =
     (case map_of (rg_peers st) node_id of
        None \<Rightarrow> (None, st)
      | Some peer \<Rightarrow>
          let updated = peer\<lparr>pr_status := hb_status hb, pr_last_heartbeat := hb_observed_at hb\<rparr>
          in (Some updated, save_state (st\<lparr>rg_peers := dict_set node_id updated (rg_peers st)\<rparr>)))"

definition list_peers :: "(nat \<Rightarrow> int) \<Rightarrow> registry \<Rightarrow> peer_registration list result" where
  "list_peers clk st = fresh_all clk 0 (dict_values (rg_peers st))"

definition get_peer :: "int \<Rightarrow> string \<Rightarrow> registry \<Rightarrow> peer_registration option result" where
  "get_peer now node_id st =
     (case map_of (rg_peers st) node_id of
        None \<Rightarrow> Inr None
      | Some peer \<Rightarrow> bindR (with_fresh_status now peer) (\<lambda>p. Inr (Some p)))"

definition peers_with_capability ::
    "(nat \<Rightarrow> int) \<Rightarrow> string \<Rightarrow> registry \<Rightarrow> peer_registration list result" where
  "peers_with_capability clk capability st =
     fresh_all clk 0 (filter (\<lambda>p. capability \<in> set (pr_capabilities p)) (dict_values (rg_peers st)))"

text \<open>\<open>peer_counts\<close>: one pass over the listed peers.\<close>

fun count_peer :: "peer_registration \<Rightarrow> (string, nat) dict \<Rightarrow> (string, nat) dict" where
  "count_peer p counts =
     (let k = status_value (pr_status p) in dict_set k (dict_get counts k 0 + 1) counts)"

definition peer_counts :: "(nat \<Rightarrow> int) \<Rightarrow> registry \<Rightarrow> (string, nat) dict result" where
  "peer_counts clk st =
     bindR (list_peers clk st) (\<lambda>ps.
       Inr (fold count_peer ps [(''online'', 0), (''stale'', 0), (''offline'', 0)]))"

section \<open>The ledger\<close>

definition block_header :: "ledger_block \<Rightarrow> json" where
  "block_header b = JObj [
     (''block_id'', JInt (lb_block_id b)),
     (''timestamp'', JStr (lb_timestamp b)),
     (''event_type'', JStr (lb_event_type b)),
     (''actor_node'', JStr (lb_actor_node b)),
     (''payload_hash'', JStr (lb_payload_hash b)),
     (''previous_hash'', jopt_str (lb_previous_hash b))]"

definition compute_block_hash :: "ledger_block \<Rightarrow> string" where
  "compute_block_hash b = hash_json (block_header b)"

definition last_hash :: "ledger_block list \<Rightarrow> string option" where
  "last_hash bs = (if bs = [] then None else Some (lb_block_hash (last bs)))"

definition make_block :: "int \<Rightarrow> ledger_request \<Rightarrow> ledger_block list \<Rightarrow> ledger_block" where
  "make_block now r bs =
     (let block = \<lparr>lb_block_id = int (length bs) + 1, lb_timestamp = utc_now now,
            lb_event_type = lr_event_type r, lb_actor_node = lr_actor_node r,
            lb_payload_hash = hash_json (JObj (lr_payload r)),
            lb_previous_hash = last_hash bs, lb_block_hash = ''''\<rparr>
      in block\<lparr>lb_block_hash := compute_block_hash block\<rparr>)"

definition append_block :: "int \<Rightarrow> ledger_request \<Rightarrow> registry \<Rightarrow> ledger_block \<times> registry" where
  "append_block now r st =
     (let block = make_block now r (rg_ledger st)
      in (block, save_state (st\<lparr>rg_ledger := rg_ledger st @ [block]\<rparr>)))"

definition list_blocks :: "registry \<Rightarrow> ledger_block list" where
  "list_blocks st = rg_ledger st"

fun verify_from :: "nat \<Rightarrow> string option \<Rightarrow> ledger_block list \<Rightarrow> verification_result" where
  "verify_from n previous_hash [] = \<lparr>vr_valid = True, vr_block_count = int n, vr_error = None\<rparr>"
| "verify_from n previous_hash (b # bs) =
     (let expected_hash = compute_block_hash b in
      if lb_previous_hash b \<noteq> previous_hash then
        \<lparr>vr_valid = False, vr_block_count = int n,
         vr_error = Some (''block '' @ show_int (lb_block_id b) @ '' has invalid previous_hash'')\<rparr>
      else if lb_block_hash b \<noteq> expected_hash then
        \<lparr>vr_valid = False, vr_block_count = int n,
         vr_error = Some (''block '' @ show_int (lb_block_id b) @ '' hash mismatch'')\<rparr>
      else verify_from n (Some (lb_block_hash b)) bs)"

definition verify_ledger :: "registry \<Rightarrow> verification_result" where
  "verify_ledger st = verify_from (length (rg_ledger st)) None (rg_ledger st)"

end
