(* ===== verification/HashChain.thy ===== *)
theory HashChain
  imports QPrelude
begin

text \<open>
  Hash chains in general: blocks that carry a link to the hash of their predecessor and
  their own hash, the digest of a text of their contents. The locale states what the
  tamper evidence of such a chain relies on: the text determines the link, and the text
  with the stored hash determines the block. Nothing is assumed of the digest, so the
  conclusions name the pair of texts that would have to collide.
\<close>

fun linked :: "('b \<Rightarrow> string option) \<Rightarrow> ('b \<Rightarrow> string) \<Rightarrow> ('b \<Rightarrow> string) \<Rightarrow> string option \<Rightarrow> 'b list \<Rightarrow> bool" where
  "linked prev own h p [] = True"
| "linked prev own h p (b # bs) = (prev b = p \<and> own b = h b \<and> linked prev own h (Some (own b)) bs)"

definition chain_end :: "('b \<Rightarrow> string) \<Rightarrow> string option \<Rightarrow> 'b list \<Rightarrow> string option" where
  "chain_end own p bs = (if bs = [] then p else Some (own (last bs)))"

lemma chain_end_simps [simp]:
  "chain_end own p [] = p" "chain_end own p (bs @ [b]) = Some (own b)"
  "chain_end own p (b # bs) = chain_end own (Some (own b)) bs"
  by (simp_all add: chain_end_def)

lemma linked_append:
  "linked prev own h p (xs @ ys) \<longleftrightarrow> linked prev own h p xs \<and> linked prev own h (chain_end own p xs) ys"
  by (induction xs arbitrary: p) auto

lemma linked_snoc:
  "linked prev own h p (xs @ [b]) \<longleftrightarrow> linked prev own h p xs \<and> prev b = chain_end own p xs \<and> own b = h b"
  by (simp add: linked_append)

lemma linked_take: "linked prev own h p xs \<Longrightarrow> linked prev own h p (take n xs)"
  using linked_append [of prev own h p "take n xs" "drop n xs"] by simp

lemma linked_nth:
  "linked prev own h p xs \<longleftrightarrow>
     (\<forall>i < length xs. prev (xs ! i) = chain_end own p (take i xs) \<and> own (xs ! i) = h (xs ! i))"
proof (induction xs rule: rev_induct)
  case Nil
  show ?case by simp
next
  case (snoc b xs)
  then show ?case by (auto simp: linked_snoc nth_append less_Suc_eq)
qed

text \<open>Two texts with one digest, at the same place of two chains.\<close>

definition collision_at :: "('b \<Rightarrow> string) \<Rightarrow> (string \<Rightarrow> string) \<Rightarrow> 'b list \<Rightarrow> 'b list \<Rightarrow> nat \<Rightarrow> bool" where
  "collision_at body digest xs ys i \<longleftrightarrow>
     i < length xs \<and> i < length ys \<and> body (xs ! i) \<noteq> body (ys ! i) \<and>
     digest (body (xs ! i)) = digest (body (ys ! i))"

lemma collision_at_append:
  "collision_at body digest xs ys i \<Longrightarrow> collision_at body digest (xs @ us) (ys @ vs) i"
  by (auto simp: collision_at_def nth_append)

locale hash_chain =
  fixes prev :: "'b \<Rightarrow> string option"
    and own :: "'b \<Rightarrow> string"
    and body :: "'b \<Rightarrow> string"
    and digest :: "string \<Rightarrow> string"
  assumes body_prev: "body a = body b \<Longrightarrow> prev a = prev b"
    and body_block: "body a = body b \<Longrightarrow> own a = own b \<Longrightarrow> a = b"
begin

text \<open>Two chains of one length with one head hash are the same chain, or collide.\<close>

lemma same_head:
  assumes "length xs = length ys"
    and "linked prev own (\<lambda>b. digest (body b)) p xs" "linked prev own (\<lambda>b. digest (body b)) p ys"
    and "chain_end own p xs = chain_end own p ys"
  shows "xs = ys \<or> (\<exists>i. collision_at body digest xs ys i)"
  using assms
proof (induction xs arbitrary: ys rule: rev_induct)
  case Nil
  then show ?case by simp
next
  case (snoc a xs)
  from snoc.prems(1) have "ys \<noteq> []" by auto
  then obtain zs b where ys: "ys = zs @ [b]" by (metis append_butlast_last_id)
  have a: "prev a = chain_end own p xs" "own a = digest (body a)"
    and b: "prev b = chain_end own p zs" "own b = digest (body b)"
    and linked: "linked prev own (\<lambda>b. digest (body b)) p xs" "linked prev own (\<lambda>b. digest (body b)) p zs"
    using snoc.prems by (simp_all add: ys linked_snoc)
  have own: "own a = own b" and len: "length xs = length zs" using snoc.prems ys by simp_all
  show ?case
  proof (cases "body a = body b")
    case True
    then have "a = b" "chain_end own p xs = chain_end own p zs"
      using body_block own body_prev a b by metis+
    with snoc.IH [OF len linked] ys show ?thesis using collision_at_append by blast
  next
    case False
    then have "collision_at body digest (xs @ [a]) ys (length xs)"
      using own a b len by (simp add: collision_at_def ys nth_append)
    then show ?thesis by blast
  qed
qed

text \<open>One block replaced, its successors kept: noticed, unless the two blocks collide.\<close>

lemma replaced_block:
  assumes "linked prev own (\<lambda>b. digest (body b)) p xs"
    and "linked prev own (\<lambda>b. digest (body b)) p (xs[i := b])"
    and "Suc i < length xs"
  shows "xs[i := b] = xs \<or> collision_at body digest xs (xs[i := b]) i"
proof -
  have "take (Suc i) (xs[i := b]) = take i xs @ [b]" "take (Suc i) xs = take i xs @ [xs ! i]"
    using assms(3) by (simp_all add: take_Suc_conv_app_nth)
  moreover have "prev (xs ! Suc i) = chain_end own p (take (Suc i) xs)"
    using assms(1,3) unfolding linked_nth by blast
  moreover have "prev (xs[i := b] ! Suc i) = chain_end own p (take (Suc i) (xs[i := b]))"
    using assms(2,3) unfolding linked_nth by (metis length_list_update)
  ultimately have "prev (xs ! Suc i) = Some (own b)" "prev (xs ! Suc i) = Some (own (xs ! i))"
    by simp_all
  then have own: "own b = own (xs ! i)" by simp
  have "own b = digest (body b)" "own (xs ! i) = digest (body (xs ! i))"
    using assms(1,2) assms(3) unfolding linked_nth
    by (metis Suc_lessD length_list_update nth_list_update_eq, metis Suc_lessD)
  then have dig: "digest (body (xs ! i)) = digest (body b)" using own by simp
  show ?thesis
  proof (cases "body (xs ! i) = body b")
    case True
    then have "xs ! i = b" using own body_block by simp
    then show ?thesis by auto
  next
    case False
    then show ?thesis using dig assms(3) by (simp add: collision_at_def)
  qed
qed

end

end
