(* ===== verification/RegistryProps.thy ===== *)
theory RegistryProps
  imports Registry HashChain
begin

text \<open>
  Facts about the registry: the text of a block header, the ledger as an instance of
  \<open>hash_chain\<close>, what each operation does to peers, ledger and files, and the invariant
  of every state the service can reach.
\<close>

section \<open>The header text\<close>

lemma sorted_header:
  "sort_keys [(''block_id'', a), (''timestamp'', b), (''event_type'', c), (''actor_node'', d),
     (''payload_hash'', e), (''previous_hash'', f)] =
   [(''actor_node'', d), (''block_id'', a), (''event_type'', c), (''payload_hash'', e),
    (''previous_hash'', f), (''timestamp'', b)]"
  by (simp add: sort_keys_def)

definition header_text :: "ledger_block \<Rightarrow> string" where
  "header_text b = stable_json_dumps (block_header b)"

lemma header_text_eq:
  "header_text b = CHR 123 # json_string ''actor_node'' @ '':'' @ json_string (lb_actor_node b) @
     '','' @ json_string ''block_id'' @ '':'' @ show_int (lb_block_id b) @
     '','' @ json_string ''event_type'' @ '':'' @ json_string (lb_event_type b) @
     '','' @ json_string ''payload_hash'' @ '':'' @ json_string (lb_payload_hash b) @
     '','' @ json_string ''previous_hash'' @ '':'' @ stable_json_dumps (jopt_str (lb_previous_hash b)) @
     '','' @ json_string ''timestamp'' @ '':'' @ json_string (lb_timestamp b) @ [CHR 125]"
  by (simp add: header_text_def block_header_def sorted_header)

text \<open>A header's text determines every field of the block but its own hash.\<close>

lemma header_text_inj:
  assumes "header_text a = header_text b"
  shows "lb_block_id a = lb_block_id b \<and> lb_timestamp a = lb_timestamp b \<and>
     lb_event_type a = lb_event_type b \<and> lb_actor_node a = lb_actor_node b \<and>
     lb_payload_hash a = lb_payload_hash b \<and> lb_previous_hash a = lb_previous_hash b"
  using assms unfolding header_text_eq
  by (simp add: json_string_prefix jopt_prefix show_int_prefix json_string_inj)

definition digest_hash :: "string \<Rightarrow> string" where
  "digest_hash t = ''sha256:'' @ sha256_hex t"

lemma compute_block_hash_text: "compute_block_hash b = digest_hash (header_text b)"
  by (simp add: compute_block_hash_def hash_json_def header_text_def digest_hash_def)

interpretation ledger: hash_chain lb_previous_hash lb_block_hash header_text digest_hash
proof unfold_locales
  fix a b :: ledger_block
  show "header_text a = header_text b \<Longrightarrow> lb_previous_hash a = lb_previous_hash b"
    using header_text_inj by blast
  show "header_text a = header_text b \<Longrightarrow> lb_block_hash a = lb_block_hash b \<Longrightarrow> a = b"
    using header_text_inj [of a b] by simp
qed

abbreviation chained :: "string option \<Rightarrow> ledger_block list \<Rightarrow> bool" where
  "chained p bs \<equiv> linked lb_previous_hash lb_block_hash (\<lambda>b. digest_hash (header_text b)) p bs"

section \<open>Verification\<close>

definition bad_link_message :: "ledger_block \<Rightarrow> string" where
  "bad_link_message b = ''block '' @ show_int (lb_block_id b) @ '' has invalid previous_hash''"

definition bad_hash_message :: "ledger_block \<Rightarrow> string" where
  "bad_hash_message b = ''block '' @ show_int (lb_block_id b) @ '' hash mismatch''"

lemma verify_from_valid: "vr_valid (verify_from n p bs) \<longleftrightarrow> chained p bs"
  by (induction bs arbitrary: p) (auto simp: compute_block_hash_text Let_def)

lemma verify_from_count [simp]: "vr_block_count (verify_from n p bs) = int n"
  by (induction bs arbitrary: p) (auto simp: Let_def)

lemma verify_from_error:
  "\<not> vr_valid (verify_from n p bs) \<Longrightarrow>
   \<exists>i < length bs. chained p (take i bs) \<and> \<not> chained p (take (Suc i) bs) \<and>
     vr_error (verify_from n p bs) =
       Some (if lb_previous_hash (bs ! i) \<noteq> chain_end lb_block_hash p (take i bs)
             then bad_link_message (bs ! i) else bad_hash_message (bs ! i))"
proof (induction bs arbitrary: p)
  case Nil
  then show ?case by simp
next
  case (Cons b bs)
  show ?case
  proof (cases "lb_previous_hash b = p \<and> lb_block_hash b = compute_block_hash b")
    case True
    then have eq: "verify_from n p (b # bs) = verify_from n (Some (lb_block_hash b)) bs" by simp
    with Cons.prems have "\<not> vr_valid (verify_from n (Some (lb_block_hash b)) bs)" by simp
    from Cons.IH [OF this] obtain i where i: "i < length bs"
      "chained (Some (lb_block_hash b)) (take i bs)" "\<not> chained (Some (lb_block_hash b)) (take (Suc i) bs)"
      "vr_error (verify_from n (Some (lb_block_hash b)) bs) =
         Some (if lb_previous_hash (bs ! i) \<noteq> chain_end lb_block_hash (Some (lb_block_hash b)) (take i bs)
               then bad_link_message (bs ! i) else bad_hash_message (bs ! i))" by blast
    with True eq show ?thesis by (intro exI [of _ "Suc i"]) (auto simp: compute_block_hash_text)
  next
    case False
    then show ?thesis
      by (intro exI [of _ 0]) (auto simp: Let_def compute_block_hash_text bad_link_message_def bad_hash_message_def)
  qed
qed

lemma verify_ledger_valid: "vr_valid (verify_ledger st) \<longleftrightarrow> chained None (rg_ledger st)"
  by (simp add: verify_ledger_def verify_from_valid)

lemma verify_ledger_count: "vr_block_count (verify_ledger st) = int (length (rg_ledger st))"
  by (simp add: verify_ledger_def)

lemma verify_ledger_ok_error:
  assumes "vr_valid (verify_ledger st)"
  shows "vr_error (verify_ledger st) = None"
proof -
  have "vr_valid (verify_from n p bs) \<Longrightarrow> vr_error (verify_from n p bs) = None" for n p bs
    by (induction bs arbitrary: p) (auto simp: Let_def split: if_splits)
  then show ?thesis using assms by (simp add: verify_ledger_def)
qed

section \<open>What the operations change\<close>

lemma save_state_simps [simp]:
  "rg_state_dir (save_state st) = rg_state_dir st"
  "rg_peers (save_state st) = rg_peers st"
  "rg_ledger (save_state st) = rg_ledger st"
  by (simp_all add: save_state_def split: option.splits)

lemma upsert_peer_simps [simp]:
  "rg_state_dir (snd (upsert_peer now p st)) = rg_state_dir st"
  "rg_ledger (snd (upsert_peer now p st)) = rg_ledger st"
  "rg_peers (snd (upsert_peer now p st)) =
     dict_set (pr_node_id p) (p\<lparr>pr_status := Online, pr_last_heartbeat := utc_now now\<rparr>) (rg_peers st)"
  "fst (upsert_peer now p st) = p\<lparr>pr_status := Online, pr_last_heartbeat := utc_now now\<rparr>"
  by (simp_all add: upsert_peer_def Let_def)

lemma heartbeat_simps [simp]:
  "rg_state_dir (snd (heartbeat k hb st)) = rg_state_dir st"
  "rg_ledger (snd (heartbeat k hb st)) = rg_ledger st"
  by (simp_all add: heartbeat_def Let_def split: option.splits)

lemma append_block_simps [simp]:
  "rg_state_dir (snd (append_block now r st)) = rg_state_dir st"
  "rg_peers (snd (append_block now r st)) = rg_peers st"
  "rg_ledger (snd (append_block now r st)) = rg_ledger st @ [make_block now r (rg_ledger st)]"
  "fst (append_block now r st) = make_block now r (rg_ledger st)"
  by (simp_all add: append_block_def Let_def)

lemma make_block_simps [simp]:
  "lb_block_id (make_block now r bs) = int (length bs) + 1"
  "lb_timestamp (make_block now r bs) = utc_now now"
  "lb_event_type (make_block now r bs) = lr_event_type r"
  "lb_actor_node (make_block now r bs) = lr_actor_node r"
  "lb_payload_hash (make_block now r bs) = hash_json (JObj (lr_payload r))"
  "lb_previous_hash (make_block now r bs) = chain_end lb_block_hash None bs"
  by (simp_all add: make_block_def Let_def last_hash_def chain_end_def)

lemma make_block_hash: "lb_block_hash (make_block now r bs) = compute_block_hash (make_block now r bs)"
  by (simp add: make_block_def Let_def compute_block_hash_def block_header_def)

lemma chained_append_block:
  "chained None (rg_ledger st) \<Longrightarrow> chained None (rg_ledger (snd (append_block now r st)))"
  by (simp add: linked_snoc make_block_hash compute_block_hash_text)

section \<open>Files\<close>

lemma plain_files [simp]: "plain_name ''peers.json''" "plain_name ''ledger.json''"
  by (simp_all add: plain_name_def)

lemma paths_differ [simp]: "peers_path d \<noteq> ledger_path d" "ledger_path d \<noteq> peers_path d"
  by (simp_all add: peers_path_def ledger_path_def path_join_inj)

lemma path_join_last: "plain_name f \<Longrightarrow> last (path_join d f) = last f"
  by (auto simp: path_join_plain path_render_def join_snoc plain_name_def)

lemma temp_name_last: "last (temp_name p r) = CHR ''p''"
  by (simp add: temp_name_def)

lemma last_neq: "last a \<noteq> last b \<Longrightarrow> a \<noteq> b"
  by auto

lemma temp_paths [simp]:
  "peers_path d \<noteq> temp_name (ledger_path d) r" "ledger_path d \<noteq> temp_name (peers_path d) r"
  "temp_name (ledger_path d) r \<noteq> peers_path d" "temp_name (peers_path d) r \<noteq> ledger_path d"
proof -
  have l: "last (peers_path d) = CHR ''n''" "last (ledger_path d) = CHR ''n''"
    by (simp_all add: peers_path_def ledger_path_def path_join_last)
  show "peers_path d \<noteq> temp_name (ledger_path d) r" "ledger_path d \<noteq> temp_name (peers_path d) r"
    "temp_name (ledger_path d) r \<noteq> peers_path d" "temp_name (peers_path d) r \<noteq> ledger_path d"
    by (rule last_neq, simp add: l temp_name_last)+
qed

text \<open>The file operations of one save, in order; a crash stops after any prefix.\<close>

definition save_ops :: "string \<Rightarrow> string \<Rightarrow> path \<Rightarrow> registry \<Rightarrow> fs_op list" where
  "save_ops r1 r2 d st =
     save_steps r1 (peers_path d) (peers_doc (rg_peers st)) @
     save_steps r2 (ledger_path d) (ledger_doc (rg_ledger st))"

lemma save_ops_refine:
  assumes "rg_state_dir st = Some d" "rg_fs st (temp_name (peers_path d) r1) = None"
    and "rg_fs st (temp_name (ledger_path d) r2) = None"
    and "temp_name (ledger_path d) r2 \<noteq> temp_name (peers_path d) r1"
  shows "fold run_op (save_ops r1 r2 d st) (rg_fs st) = rg_fs (save_state st)"
  using assms by (auto simp: save_ops_def save_steps_def save_state_def save_json_file_def fun_eq_iff)

lemma save_ops_prefix:
  fixes fs :: fs and st :: registry and r1 r2 :: string and d :: path
  defines "after n \<equiv> fold run_op (take n (save_ops r1 r2 d st)) fs"
  shows "after n (peers_path d) \<in> {fs (peers_path d), Some (JsonFile (peers_doc (rg_peers st)))}"
    and "after n (ledger_path d) \<in> {fs (ledger_path d), Some (JsonFile (ledger_doc (rg_ledger st)))}"
proof -
  let ?A = "save_steps r1 (peers_path d) (peers_doc (rg_peers st))"
  let ?B = "save_steps r2 (ledger_path d) (ledger_doc (rg_ledger st))"
  have split: "after n = fold run_op (take (n - length ?A) ?B) (fold run_op (take n ?A) fs)"
    by (simp add: after_def save_ops_def)
  show "after n (peers_path d) \<in> {fs (peers_path d), Some (JsonFile (peers_doc (rg_peers st)))}"
    unfolding split using save_steps_prefix(1) [where n = n and r = r1 and p = "peers_path d"]
    by (subst save_steps_prefix(2)) simp_all
  have "fold run_op (take n ?A) fs (ledger_path d) = fs (ledger_path d)"
    by (subst save_steps_prefix(2)) simp_all
  then show "after n (ledger_path d) \<in> {fs (ledger_path d), Some (JsonFile (ledger_doc (rg_ledger st)))}"
    unfolding split using save_steps_prefix(1) [where n = "n - length ?A" and r = r2 and p = "ledger_path d"] by metis
qed

section \<open>The invariant\<close>

definition keyed_peers :: "(string, peer_registration) dict \<Rightarrow> bool" where
  "keyed_peers ps \<longleftrightarrow> dict_ok ps \<and> (\<forall>kp \<in> set ps. pr_node_id (snd kp) = fst kp \<and> peer_ok (snd kp))"

definition numbered :: "ledger_block list \<Rightarrow> bool" where
  "numbered bs \<longleftrightarrow> map lb_block_id bs = map (\<lambda>i. int i + 1) [0..<length bs]"

definition file_holds :: "fs \<Rightarrow> path \<Rightarrow> json \<Rightarrow> bool \<Rightarrow> bool" where
  "file_holds fs p doc empty_ok \<longleftrightarrow> fs p = Some (JsonFile doc) \<or> (fs p = None \<and> empty_ok)"

definition saved :: "registry \<Rightarrow> bool" where
  "saved st \<longleftrightarrow> (case rg_state_dir st of None \<Rightarrow> True | Some d \<Rightarrow>
     file_holds (rg_fs st) (peers_path d) (peers_doc (rg_peers st)) (rg_peers st = []) \<and>
     file_holds (rg_fs st) (ledger_path d) (ledger_doc (rg_ledger st)) (rg_ledger st = []))"

definition registry_inv :: "registry \<Rightarrow> bool" where
  "registry_inv st \<longleftrightarrow>
     keyed_peers (rg_peers st) \<and> chained None (rg_ledger st) \<and> numbered (rg_ledger st) \<and> saved st"

lemma saved_save_state: "saved (save_state st)"
  by (auto simp: saved_def file_holds_def save_state_def save_json_file_def split: option.splits)

lemma keyed_peers_set:
  assumes "keyed_peers ps" "pr_node_id p = k" "peer_ok p"
  shows "keyed_peers (dict_set k p ps)"
proof -
  have "set (dict_set k p ps) \<subseteq> insert (k, p) (set ps)" unfolding dict_set_def by (induction ps) auto
  then show ?thesis using assms unfolding keyed_peers_def by (auto dest!: subsetD)
qed

lemma keyed_peersD: "keyed_peers ps \<Longrightarrow> map_of ps k = Some p \<Longrightarrow> pr_node_id p = k \<and> peer_ok p"
  unfolding keyed_peers_def by (force dest: map_of_SomeD)

lemma peer_ok_update [simp]:
  "peer_ok (p\<lparr>pr_status := s, pr_last_heartbeat := t\<rparr>) = peer_ok p"
  "peer_ok (p\<lparr>pr_status := s\<rparr>) = peer_ok p"
  by (simp_all add: peer_ok_def)

lemma numbered_append: "numbered bs \<Longrightarrow> numbered (bs @ [make_block now r bs])"
  by (simp add: numbered_def)

lemma upsert_inv: "registry_inv st \<Longrightarrow> peer_ok p \<Longrightarrow> registry_inv (snd (upsert_peer now p st))"
  by (simp add: registry_inv_def keyed_peers_set)
    (simp add: upsert_peer_def Let_def saved_save_state)

lemma heartbeat_keyed:
  "keyed_peers (rg_peers st) \<Longrightarrow> keyed_peers (rg_peers (snd (heartbeat k hb st)))"
  by (auto simp: heartbeat_def Let_def dest: keyed_peersD intro!: keyed_peers_set split: option.splits)

lemma heartbeat_inv: "registry_inv st \<Longrightarrow> registry_inv (snd (heartbeat k hb st))"
  by (simp add: registry_inv_def heartbeat_keyed)
    (simp add: heartbeat_def Let_def saved_save_state split: option.splits)

lemma append_inv: "registry_inv st \<Longrightarrow> registry_inv (snd (append_block now r st))"
  using chained_append_block [of st now r]
  by (simp add: registry_inv_def numbered_append)
    (simp add: append_block_def Let_def saved_save_state)

section \<open>Reloading\<close>

lemma load_peers_doc:
  assumes "keyed_peers ps"
  shows "load_peers now (peers_doc ps) = Inr ps"
proof -
  let ?f = "\<lambda>item. bindR (json_item item ''node_id'') (\<lambda>_.
        bindR (validated ''PeerRegistration'' (validate_peer (utc_now now) item)) (\<lambda>p. Inr (pr_node_id p, p)))"
  have "mapR ?f (map (\<lambda>kp. dump_peer (snd kp)) ps) = Inr ps"
    using assms unfolding keyed_peers_def dict_ok_def
  proof (induction ps)
    case Nil
    show ?case by simp
  next
    case (Cons kp ps)
    then have "?f (dump_peer (snd kp)) = Inr kp"
      using validate_dump_peer [of "snd kp" "utc_now now"] by (auto simp: dump_peer_def)
    with Cons show ?case by simp
  qed
  then show ?thesis
    using assms by (simp add: load_peers_def peers_doc_def dict_values_def o_def dict_of_id keyed_peers_def)
qed

lemma load_file_holds:
  "file_holds fs p doc e \<Longrightarrow> load_json_file fs (Some p) (JList []) = Inr doc \<or>
     (load_json_file fs (Some p) (JList []) = Inr (JList []) \<and> e)"
  by (auto simp: file_holds_def load_json_file_def)

lemma load_ledger_doc:
  "load_models ''LedgerBlock'' (validate_block px t) (ledger_doc bs) = Inr bs"
  unfolding ledger_doc_def by (rule load_models_dump) (rule validate_dump_block)

text \<open>Loading from files that hold the documents of \<open>ps\<close> and \<open>bs\<close>.\<close>

lemma load_state_docs:
  assumes "keyed_peers ps" "file_holds fs (peers_path d) (peers_doc ps) (ps = [])"
    and "file_holds fs (ledger_path d) (ledger_doc bs) (bs = [])"
  shows "load_state px now (Some d) fs =
     Inr \<lparr>rg_state_dir = Some d, rg_peers = ps, rg_ledger = bs, rg_fs = fs\<rparr>"
proof -
  have "load_json_file fs (Some (peers_path d)) (JList []) = Inr (peers_doc ps)"
    using load_file_holds [OF assms(2)] by (auto simp: peers_doc_def dict_values_def)
  moreover have "load_json_file fs (Some (ledger_path d)) (JList []) = Inr (ledger_doc bs)"
    using load_file_holds [OF assms(3)] by (auto simp: ledger_doc_def)
  ultimately show ?thesis
    using load_peers_doc [OF assms(1)] by (simp add: load_state_def load_ledger_doc)
qed

lemma load_state_inv:
  assumes "registry_inv st" "rg_state_dir st = Some d"
  shows "load_state px now (Some d) (rg_fs st) = Inr st"
  using assms load_state_docs [of "rg_peers st" "rg_fs st" d "rg_ledger st"]
  by (cases st) (simp add: registry_inv_def saved_def)

section \<open>Reachable states\<close>

text \<open>
  One atomic store operation: requests that FastAPI has validated, in any order and at
  any clock readings. A handler that makes two of them may interleave with others
  between the two, so the relation is over operations and not over handlers.
\<close>

inductive registry_op :: "registry \<Rightarrow> registry \<Rightarrow> bool" where
  op_upsert: "peer_ok p \<Longrightarrow> registry_op st (snd (upsert_peer now p st))"
| op_heartbeat: "registry_op st (snd (heartbeat node_id hb st))"
| op_append: "ledger_request_ok r \<Longrightarrow> registry_op st (snd (append_block now r st))"

text \<open>
  A step of the service: an operation, a restart, or an operation whose save was cut off
  by a crash after any number of file operations, followed by a restart.
\<close>

inductive registry_step :: "pydantic \<Rightarrow> registry \<Rightarrow> registry \<Rightarrow> bool" for px where
  step_op: "registry_op st st' \<Longrightarrow> registry_step px st st'"
| step_restart: "load_state px now (rg_state_dir st) (rg_fs st) = Inr st' \<Longrightarrow> registry_step px st st'"
| step_crash: "registry_op st st1 \<Longrightarrow> rg_state_dir st = Some d \<Longrightarrow>
     load_state px now (Some d) (fold run_op (take n (save_ops r1 r2 d st1)) (rg_fs st)) = Inr st' \<Longrightarrow>
     registry_step px st st'"

inductive_cases registry_opE: "registry_op st st'"
inductive_cases registry_stepE: "registry_step px st st'"

definition registry_init :: "path option \<Rightarrow> registry" where
  "registry_init dir = \<lparr>rg_state_dir = dir, rg_peers = [], rg_ledger = [], rg_fs = Map.empty\<rparr>"

definition registry_reachable :: "pydantic \<Rightarrow> path option \<Rightarrow> registry \<Rightarrow> bool" where
  "registry_reachable px dir st \<longleftrightarrow> (registry_step px)\<^sup>*\<^sup>* (registry_init dir) st"

lemma registry_init_inv: "registry_inv (registry_init dir)"
  by (simp add: registry_init_def registry_inv_def keyed_peers_def numbered_def saved_def
      file_holds_def dict_ok_def split: option.splits)

lemma registry_op_inv: "registry_op st st' \<Longrightarrow> registry_inv st \<Longrightarrow> registry_inv st'"
  by (auto elim!: registry_opE simp: upsert_inv heartbeat_inv append_inv)

lemma registry_op_dir: "registry_op st st' \<Longrightarrow> rg_state_dir st' = rg_state_dir st"
  by (auto elim!: registry_opE)

lemma file_holds_prefix:
  "file_holds fs p doc e \<Longrightarrow> fs' p \<in> {fs p, Some (JsonFile doc')} \<Longrightarrow>
     file_holds fs' p doc e \<or> file_holds fs' p doc' e'"
  by (auto simp: file_holds_def)

text \<open>
  After a crash each of the two files is the old or the new one, so the service comes
  back with the old or the new peers and the old or the new ledger.
\<close>

lemma mixed_reload:
  assumes inv: "registry_inv st" "registry_inv st1" and dir: "rg_state_dir st = Some d"
    and files: "fs (peers_path d) \<in> {rg_fs st (peers_path d), Some (JsonFile (peers_doc (rg_peers st1)))}"
      "fs (ledger_path d) \<in> {rg_fs st (ledger_path d), Some (JsonFile (ledger_doc (rg_ledger st1)))}"
  shows "\<exists>st'. load_state px now (Some d) fs = Inr st' \<and>
     rg_peers st' \<in> {rg_peers st, rg_peers st1} \<and> rg_ledger st' \<in> {rg_ledger st, rg_ledger st1} \<and>
     registry_inv st' \<and> rg_state_dir st' = Some d \<and> rg_fs st' = fs"
proof -
  have fh: "file_holds (rg_fs st) (peers_path d) (peers_doc (rg_peers st)) (rg_peers st = [])"
    "file_holds (rg_fs st) (ledger_path d) (ledger_doc (rg_ledger st)) (rg_ledger st = [])"
    using inv(1) dir by (simp_all add: registry_inv_def saved_def)
  obtain ps where ps: "ps \<in> {rg_peers st, rg_peers st1}" "file_holds fs (peers_path d) (peers_doc ps) (ps = [])"
    using file_holds_prefix [where fs' = fs, OF fh(1) files(1)] by blast
  obtain bs where bs: "bs \<in> {rg_ledger st, rg_ledger st1}" "file_holds fs (ledger_path d) (ledger_doc bs) (bs = [])"
    using file_holds_prefix [where fs' = fs, OF fh(2) files(2)] by blast
  have keyed: "keyed_peers ps" using ps(1) inv by (auto simp: registry_inv_def)
  let ?st = "\<lparr>rg_state_dir = Some d, rg_peers = ps, rg_ledger = bs, rg_fs = fs\<rparr>"
  have "chained None bs \<and> numbered bs" using bs(1) inv by (auto simp: registry_inv_def)
  then have "registry_inv ?st" using keyed ps(2) bs(2) by (simp add: registry_inv_def saved_def)
  then show ?thesis using load_state_docs [OF keyed ps(2) bs(2), of px now] ps(1) bs(1) by auto
qed

lemma crash_reload:
  assumes "registry_inv st" "registry_inv st1" "rg_state_dir st = Some d"
  shows "\<exists>st'. load_state px now (Some d) (fold run_op (take n (save_ops r1 r2 d st1)) (rg_fs st)) = Inr st' \<and>
     rg_peers st' \<in> {rg_peers st, rg_peers st1} \<and> rg_ledger st' \<in> {rg_ledger st, rg_ledger st1} \<and>
     registry_inv st'"
  using mixed_reload [OF assms, where px = px and now = now
      and fs = "fold run_op (take n (save_ops r1 r2 d st1)) (rg_fs st)"] save_ops_prefix
  by blast

lemma restart_same:
  assumes "registry_inv st" "load_state px now (rg_state_dir st) (rg_fs st) = Inr st'"
  shows "registry_inv st' \<and> (rg_state_dir st \<noteq> None \<longrightarrow> st' = st)"
proof (cases "rg_state_dir st")
  case None
  then have "st' = (registry_init None)\<lparr>rg_fs := rg_fs st\<rparr>"
    using assms(2) by (simp add: load_state_def registry_init_def)
  then show ?thesis
    using None registry_init_inv [of None] by (simp add: registry_inv_def saved_def registry_init_def)
next
  case (Some d)
  then show ?thesis using assms load_state_inv [OF assms(1) Some] by simp
qed

lemma registry_step_inv:
  assumes "registry_step px st st'" "registry_inv st"
  shows "registry_inv st'"
  using assms
proof cases
  case (step_crash st1 d now n r1 r2)
  then show ?thesis
    using crash_reload [OF assms(2) registry_op_inv [OF step_crash(1) assms(2)] step_crash(2), of px now n r1 r2]
    by auto
qed (auto simp: registry_op_inv assms(2) dest: restart_same [OF assms(2)])

lemma reachable_inv: "registry_reachable px dir st \<Longrightarrow> registry_inv st"
  unfolding registry_reachable_def
  by (induction rule: rtranclp_induct) (auto simp: registry_init_inv registry_step_inv)

end
