(* ===== verification/RegistryStatus.thy ===== *)
theory RegistryStatus
  imports RegistryProps
begin

text \<open>
  Reading peers: the status a read computes from the age of the last heartbeat, when a
  read raises, what a heartbeat's own status is worth, and the counts by status.
\<close>

section \<open>Thresholds\<close>

lemma overflow_bound_big: "2 ^ 60 < overflow_bound"
  using safe_bound_ge [of 60] safe_bound_overflow by simp

lemma flt_fl:
  assumes "\<bar>c\<bar> \<le> 2 ^ 60"
  shows "flt (Fin c) (fl x) \<longleftrightarrow> c < rnd x"
  using assms overflow_bound_big by (auto simp: fl_def Let_def abs_le_iff)

lemma tiny_unit: "1 / (2 * subnormal_scale) \<le> 1 / 2 ^ 60"
proof -
  have "(2::real) ^ 60 \<le> 2 ^ 1074" by (rule power_increasing) simp_all
  then have "2 ^ 60 \<le> subnormal_scale" by (simp only: subnormal_scale_def)
  then have "2 ^ 60 \<le> 2 * subnormal_scale" using subnormal_scale_pos(1) by linarith
  then show ?thesis by (intro divide_left_mono) simp_all
qed

text \<open>
  An age in whole microseconds is compared with a bound in seconds without error: one
  microsecond is far more than the rounding of the division.
\<close>

lemma age_above:
  assumes "rnd c = c" "0 < c" "c \<le> 1000" "c * 1000000 \<in> \<int>"
  shows "c < rnd (of_int a / 1000000) \<longleftrightarrow> c * 1000000 < of_int a"
proof
  assume "c < rnd (of_int a / 1000000)"
  then have "c < of_int a / 1000000" using b64.rd_greater_fixed assms(1) by blast
  then show "c * 1000000 < of_int a" by simp
next
  assume lt: "c * 1000000 < of_int a"
  obtain k where k: "c * 1000000 = of_int k" using assms(4) by (rule Ints_cases)
  with lt have "k + 1 \<le> a" by linarith
  then have "of_int k + 1 \<le> (of_int a :: real)" by linarith
  then have ge: "c + 1 / 1000000 \<le> of_int a / 1000000" using k by simp
  let ?y = "c + 1 / 1000000"
  have "\<bar>rnd ?y - ?y\<bar> \<le> \<bar>?y\<bar> / 2 ^ 53 + 1 / 2 ^ 60"
    using rnd_error [of ?y] tiny_unit by linarith
  also have "\<bar>?y\<bar> / 2 ^ 53 \<le> 1001 / 2 ^ 53" using assms by (intro divide_right_mono) simp_all
  finally have "\<bar>rnd ?y - ?y\<bar> < 1 / 1000000" by simp
  then have "c < rnd ?y" by linarith
  also have "rnd ?y \<le> rnd (of_int a / 1000000)" using ge by (rule rnd_mono)
  finally show "c < rnd (of_int a / 1000000)" .
qed

definition status_of_us :: "int \<Rightarrow> peer_status" where
  "status_of_us a = (if a > 180000000 then Offline else if a > 90000000 then Stale else Online)"

lemma flt_pymax_zero: "0 \<le> c \<Longrightarrow> flt (Fin c) (pymax (Fin 0) x) \<longleftrightarrow> flt (Fin c) x"
  by (cases x) (auto simp: pymax_def)

lemma age_status_exact: "age_status (pymax (Fin 0) (fl (of_int a / 1000000))) = status_of_us a"
proof -
  have "flt (Fin 180) (fl (of_int a / 1000000)) \<longleftrightarrow> a > 180000000"
    using age_above [of 180 a] by (simp add: flt_fl)
  moreover have "flt (Fin 90) (fl (of_int a / 1000000)) \<longleftrightarrow> a > 90000000"
    using age_above [of 90 a] by (simp add: flt_fl)
  ultimately show ?thesis by (simp add: age_status_def status_of_us_def flt_pymax_zero)
qed

definition heartbeat_instant :: "string \<Rightarrow> int option" where
  "heartbeat_instant ts = map_option (\<lambda>(t, off). t - (case off of None \<Rightarrow> 0 | Some z \<Rightarrow> z)) (fromisoformat ts)"

lemma with_fresh_status_eq:
  "with_fresh_status now p =
     (case heartbeat_instant (pr_last_heartbeat p) of
        None \<Rightarrow> Inl (ValueError ''Invalid isoformat string'')
      | Some t \<Rightarrow> Inr (p\<lparr>pr_status := status_of_us (now - t)\<rparr>))"
  by (auto simp: with_fresh_status_def seconds_since_def heartbeat_instant_def Let_def age_status_exact
      simp del: of_int_diff split: option.splits)

lemma heartbeat_instant_now: "instant_ok t \<Longrightarrow> heartbeat_instant (utc_now t) = Some t"
  by (simp add: heartbeat_instant_def fromisoformat_utc_now)

text \<open>The stored status plays no part in what a read returns.\<close>

lemma with_fresh_status_ignores: "with_fresh_status now (p\<lparr>pr_status := s\<rparr>) = with_fresh_status now p"
  by (simp add: with_fresh_status_eq split: option.splits)

section \<open>Reading a list of peers\<close>

definition readable :: "peer_registration \<Rightarrow> bool" where
  "readable p \<longleftrightarrow> heartbeat_instant (pr_last_heartbeat p) \<noteq> None"

definition fresh :: "int \<Rightarrow> peer_registration \<Rightarrow> peer_registration" where
  "fresh now p = p\<lparr>pr_status := status_of_us (now - the (heartbeat_instant (pr_last_heartbeat p)))\<rparr>"

lemma fresh_simps [simp]:
  "pr_node_id (fresh now p) = pr_node_id p" "pr_capabilities (fresh now p) = pr_capabilities p"
  "pr_base_url (fresh now p) = pr_base_url p" "pr_last_heartbeat (fresh now p) = pr_last_heartbeat p"
  by (simp_all add: fresh_def)

lemma with_fresh_readable: "readable p \<Longrightarrow> with_fresh_status now p = Inr (fresh now p)"
  by (auto simp: readable_def with_fresh_status_eq fresh_def)

lemma with_fresh_unreadable:
  "\<not> readable p \<Longrightarrow> with_fresh_status now p = Inl (ValueError ''Invalid isoformat string'')"
  by (simp add: readable_def with_fresh_status_eq)

lemma fresh_all_readable:
  "list_all readable ps \<Longrightarrow>
     fresh_all clk i ps = Inr (map (\<lambda>(j, p). fresh (clk j) p) (zip [i..<i + length ps] ps))"
proof (induction ps arbitrary: i)
  case Nil
  show ?case by simp
next
  case (Cons p ps)
  have "[i..<i + length (p # ps)] = i # [Suc i..<Suc i + length ps]" by (simp add: upt_rec)
  then show ?case using Cons by (simp add: with_fresh_readable)
qed

lemma fresh_all_unreadable:
  "\<not> list_all readable ps \<Longrightarrow> fresh_all clk i ps = Inl (ValueError ''Invalid isoformat string'')"
proof (induction ps arbitrary: i)
  case Nil
  then show ?case by simp
next
  case (Cons p ps)
  then show ?case by (cases "readable p") (simp_all add: with_fresh_readable with_fresh_unreadable)
qed

lemma fresh_all_Inr_iff: "(\<exists>qs. fresh_all clk i ps = Inr qs) \<longleftrightarrow> list_all readable ps"
  using fresh_all_readable [of ps clk i] fresh_all_unreadable [of ps clk i] by (cases "list_all readable ps") auto

lemma fresh_all_nth:
  assumes "fresh_all clk i ps = Inr qs"
  shows "length qs = length ps" "j < length ps \<Longrightarrow> qs ! j = fresh (clk (i + j)) (ps ! j)"
proof -
  have "list_all readable ps" using assms fresh_all_Inr_iff by blast
  then have "qs = map (\<lambda>(j, p). fresh (clk j) p) (zip [i..<i + length ps] ps)"
    using fresh_all_readable assms by fastforce
  then show "length qs = length ps" "j < length ps \<Longrightarrow> qs ! j = fresh (clk (i + j)) (ps ! j)" by simp_all
qed

section \<open>Counting\<close>

definition count_keys :: "string list" where
  "count_keys = [''online'', ''stale'', ''offline'']"

lemma count_one:
  "count_peer p [(''online'', a), (''stale'', b), (''offline'', c)] =
     (case pr_status p of
        Online \<Rightarrow> [(''online'', Suc a), (''stale'', b), (''offline'', c)]
      | Stale \<Rightarrow> [(''online'', a), (''stale'', Suc b), (''offline'', c)]
      | Offline \<Rightarrow> [(''online'', a), (''stale'', b), (''offline'', Suc c)])"
  by (cases "pr_status p") (simp_all add: Let_def dict_set_def dict_get_def)

lemma count_peer_fold:
  "fold count_peer ps [(''online'', a), (''stale'', b), (''offline'', c)] =
     [(''online'', a + length (filter (\<lambda>p. pr_status p = Online) ps)),
      (''stale'', b + length (filter (\<lambda>p. pr_status p = Stale) ps)),
      (''offline'', c + length (filter (\<lambda>p. pr_status p = Offline) ps))]"
proof (induction ps arbitrary: a b c)
  case Nil
  show ?case by simp
next
  case (Cons p ps)
  show ?case
    by (cases "pr_status p")
      (simp_all add: Cons.IH count_one del: count_peer.simps)
qed

lemma status_partition:
  "length (filter (\<lambda>p. pr_status p = Online) ps) + length (filter (\<lambda>p. pr_status p = Stale) ps) +
     length (filter (\<lambda>p. pr_status p = Offline) ps) = length ps"
proof (induction ps)
  case Nil
  show ?case by simp
next
  case (Cons p ps)
  then show ?case by (cases "pr_status p") simp_all
qed

lemma peer_counts_eq:
  "peer_counts clk st = bindR (list_peers clk st) (\<lambda>ps. Inr
     [(''online'', length (filter (\<lambda>p. pr_status p = Online) ps)),
      (''stale'', length (filter (\<lambda>p. pr_status p = Stale) ps)),
      (''offline'', length (filter (\<lambda>p. pr_status p = Offline) ps))])"
  by (simp add: peer_counts_def count_peer_fold)

end
