(* ===== verification/RegistryApi.thy ===== *)
theory RegistryApi
  imports RegistryStatus
begin

text \<open>
  \<open>registry_service/main.py\<close>: the HTTP endpoints over one store and the periodic ledger
  verifier. A handler is a function of the clock readings it makes and of the validated
  request; \<open>serve\<close> is FastAPI's part: validation of the body (422) and dispatch. An
  exception the handler does not catch is its \<open>Inl\<close> result (a 500 response).

  Handlers of different requests may interleave between two store operations; what
  holds under every interleaving is stated over \<open>registry_step\<close>.
\<close>

record registry_app =
  app_store :: registry
  app_last_result :: json
  app_last_checked_at :: json
  app_runs :: int
  app_failures :: int

fun jfields :: "json \<Rightarrow> (string, json) dict" where
  "jfields (JObj d) = d"
| "jfields _ = []"

section \<open>Ledger verification in the background\<close>

definition ledger_verify_interval :: "env \<Rightarrow> int result" where
  "ledger_verify_interval e = int_str (getenv e ''LEDGER_VERIFY_INTERVAL_SECONDS'' ''60'')"

definition verifier_sleep :: "int \<Rightarrow> int" where
  "verifier_sleep interval = max 5 interval"

definition failure_payload :: "verification_result \<Rightarrow> (string, json) dict" where
  "failure_payload r =
     [(''error'', JStr (case vr_error r of None \<Rightarrow> ''unknown'' | Some m \<Rightarrow> if m = [] then ''unknown'' else m)),
      (''block_count'', JInt (vr_block_count r))]"

text \<open>One pass of the loop after its sleep; the handler around it swallows exceptions.\<close>

definition verifier_tick :: "(nat \<Rightarrow> int) \<Rightarrow> registry_app \<Rightarrow> registry_app" where
  "verifier_tick clk app =
     (let result = verify_ledger (app_store app);
          app1 = app\<lparr>app_runs := app_runs app + 1, app_last_result := dump_verification result,
                     app_last_checked_at := JStr (utc_now (clk 0))\<rparr>
      in if vr_valid result then app1
         else
           let app2 = app1\<lparr>app_failures := app_failures app1 + 1\<rparr>
           in case mk_ledger_request ''ledger_verification_failed'' ''registry_service'' (failure_payload result) of
                Inl e \<Rightarrow> app2
              | Inr r \<Rightarrow> app2\<lparr>app_store := snd (append_block (clk 1) r (app_store app2))\<rparr>)"

section \<open>Endpoints\<close>

definition jcounts :: "(string, nat) dict \<Rightarrow> json" where
  "jcounts d = JObj (map (\<lambda>(k, n). (k, JInt (int n))) d)"

definition health :: "int \<Rightarrow> (nat \<Rightarrow> int) \<Rightarrow> registry_app \<Rightarrow> json result" where
  "health interval clk app =
     bindR (list_peers clk (app_store app)) (\<lambda>ps.
     bindR (peer_counts (\<lambda>i. clk (length ps + i)) (app_store app)) (\<lambda>counts.
     Inr (JObj [
       (''status'', JStr ''ok''),
       (''service'', JStr ''registry_service''),
       (''peers'', JInt (int (length ps))),
       (''ledger_blocks'', JInt (int (length (list_blocks (app_store app))))),
       (''peer_counts'', jcounts counts),
       (''ledger_verifier'', JObj [
          (''interval_seconds'', JInt interval),
          (''runs'', JInt (app_runs app)),
          (''failures'', JInt (app_failures app)),
          (''last_checked_at'', app_last_checked_at app),
          (''last_result'', app_last_result app)])])))"

definition register_peer :: "(nat \<Rightarrow> int) \<Rightarrow> peer_registration \<Rightarrow> registry_app \<Rightarrow> (registry_app, peer_registration) outcome" where
  "register_peer clk peer app =
     (case upsert_peer (clk 0) peer (app_store app) of (registered, st1) \<Rightarrow>
        case mk_ledger_request ''peer_registered'' (pr_node_id registered) (jfields (dump_peer registered)) of
          Inl e \<Rightarrow> (Inl e, app\<lparr>app_store := st1\<rparr>)
        | Inr r \<Rightarrow> (Inr registered, app\<lparr>app_store := snd (append_block (clk 1) r st1)\<rparr>))"

definition peer_not_found :: py_exc where
  "peer_not_found = HTTPException 404 ''peer not found''"

definition peer_heartbeat_ep :: "(nat \<Rightarrow> int) \<Rightarrow> string \<Rightarrow> peer_heartbeat \<Rightarrow> registry_app \<Rightarrow> (registry_app, peer_registration) outcome" where
  "peer_heartbeat_ep clk node_id hb app =
     (case heartbeat node_id hb (app_store app) of
        (None, st1) \<Rightarrow> (Inl peer_not_found, app\<lparr>app_store := st1\<rparr>)
      | (Some updated, st1) \<Rightarrow>
          case mk_ledger_request ''peer_heartbeat'' node_id (jfields (dump_heartbeat hb)) of
            Inl e \<Rightarrow> (Inl e, app\<lparr>app_store := st1\<rparr>)
          | Inr r \<Rightarrow> (Inr updated, app\<lparr>app_store := snd (append_block (clk 0) r st1)\<rparr>))"

definition get_peer_ep :: "int \<Rightarrow> string \<Rightarrow> registry_app \<Rightarrow> peer_registration result" where
  "get_peer_ep now node_id app =
     bindR (get_peer now node_id (app_store app)) (\<lambda>r.
       case r of None \<Rightarrow> Inl peer_not_found | Some peer \<Rightarrow> Inr peer)"

datatype registry_request =
    PostPeer json
  | PostHeartbeat string json
  | GetPeers
  | GetPeer string
  | GetCapability string
  | PostBlock json
  | GetBlocks
  | GetVerify
  | GetHealth

definition unprocessable :: py_exc where
  "unprocessable = HTTPException 422 ''Unprocessable Entity''"

definition map_outcome :: "('a \<Rightarrow> 'b) \<Rightarrow> ('s, 'a) outcome \<Rightarrow> ('s, 'b) outcome" where
  "map_outcome f r = (case r of (Inl e, s) \<Rightarrow> (Inl e, s) | (Inr x, s) \<Rightarrow> (Inr (f x), s))"

text \<open>The response carries the model's dump; \<open>clk 0\<close> is read while the body is validated.\<close>

fun serve :: "int \<Rightarrow> (nat \<Rightarrow> int) \<Rightarrow> registry_request \<Rightarrow> registry_app \<Rightarrow> (registry_app, json) outcome" where
  "serve interval clk (PostPeer body) app =
     (case validate_peer (utc_now (clk 0)) body of None \<Rightarrow> (Inl unprocessable, app)
      | Some p \<Rightarrow> map_outcome dump_peer (register_peer (\<lambda>i. clk (Suc i)) p app))"
| "serve interval clk (PostHeartbeat k body) app =
     (case validate_heartbeat (utc_now (clk 0)) body of None \<Rightarrow> (Inl unprocessable, app)
      | Some hb \<Rightarrow> map_outcome dump_peer (peer_heartbeat_ep (\<lambda>i. clk (Suc i)) k hb app))"
| "serve interval clk GetPeers app =
     (bindR (list_peers clk (app_store app)) (\<lambda>ps. Inr (JList (map dump_peer ps))), app)"
| "serve interval clk (GetPeer k) app = (bindR (get_peer_ep (clk 0) k app) (\<lambda>p. Inr (dump_peer p)), app)"
| "serve interval clk (GetCapability c) app =
     (bindR (peers_with_capability clk c (app_store app)) (\<lambda>ps. Inr (JList (map dump_peer ps))), app)"
| "serve interval clk (PostBlock body) app =
     (case validate_ledger_request body of None \<Rightarrow> (Inl unprocessable, app)
      | Some r \<Rightarrow> (case append_block (clk 0) r (app_store app) of (b, st) \<Rightarrow>
          (Inr (dump_block b), app\<lparr>app_store := st\<rparr>)))"
| "serve interval clk GetBlocks app = (Inr (JList (map dump_block (list_blocks (app_store app)))), app)"
| "serve interval clk GetVerify app = (Inr (dump_verification (verify_ledger (app_store app))), app)"
| "serve interval clk GetHealth app = (health interval clk app, app)"

text \<open>The status of a result, as the decorators declare it: 201 for what creates.\<close>

definition success_status :: "registry_request \<Rightarrow> nat" where
  "success_status req = (case req of PostPeer body \<Rightarrow> 201 | PostBlock body \<Rightarrow> 201 | _ \<Rightarrow> 200)"

lemma success_status_simps [simp]:
  "success_status (PostPeer body) = 201" "success_status (PostBlock body) = 201"
  "success_status (PostHeartbeat k body) = 200" "success_status (GetCapability c) = 200"
  "success_status GetPeers = 200" "success_status GetVerify = 200" "success_status GetBlocks = 200"
  by (simp_all add: success_status_def)

lemma success_status_ok [simp]: "200 \<le> success_status req" "success_status req < 300"
  by (simp_all add: success_status_def split: registry_request.split)

end
