(* ===== verification/RegistrySpec.thy ===== *)
theory RegistrySpec
  imports RegistryApi
begin

text \<open>
  What the registry promises, as theorems about the definitions of \<open>Registry\<close> and
  \<open>RegistryApi\<close>: the ledger is append-only, always verifies, and exposes tampering; the
  files survive restarts and crashes; the status a reader sees is a function of the age
  of the last heartbeat; and what each endpoint does to peers and ledger.
\<close>

section \<open>Concrete data\<close>

definition demo_peer :: peer_registration where
  "demo_peer = \<lparr>pr_node_id = ''aws-ingestion-01'', pr_node_type = ''ingestion'', pr_cloud = ''aws'',
     pr_base_url = ''http://a'', pr_capabilities = [''ingest_market_data''], pr_status = Online,
     pr_last_heartbeat = '''', pr_metadata = [], pr_extra = []\<rparr>"

definition demo_request :: ledger_request where
  "demo_request = \<lparr>lr_event_type = ''peer_registered'', lr_actor_node = ''aws-ingestion-01'', lr_payload = []\<rparr>"

lemma demo_ok [simp]: "peer_ok demo_peer" "ledger_request_ok demo_request"
  by (simp_all add: peer_ok_def demo_peer_def str_between_def cloud_names_def ledger_request_ok_def demo_request_def)

lemma reachable_init [simp]: "registry_reachable px dir (registry_init dir)"
  by (simp add: registry_reachable_def)

lemma reachable_op: "registry_reachable px dir st \<Longrightarrow> registry_op st st' \<Longrightarrow> registry_reachable px dir st'"
  unfolding registry_reachable_def by (meson rtranclp.rtrancl_into_rtrancl step_op)

lemma reachable_upsert:
  "registry_reachable px dir st \<Longrightarrow> peer_ok p \<Longrightarrow> registry_reachable px dir (snd (upsert_peer now p st))"
  by (erule reachable_op) (rule op_upsert)

lemma reachable_append:
  "registry_reachable px dir st \<Longrightarrow> ledger_request_ok r \<Longrightarrow> registry_reachable px dir (snd (append_block now r st))"
  by (erule reachable_op) (rule op_append)

lemma reachable_valid: "registry_reachable px dir st \<Longrightarrow> vr_valid (verify_ledger st)"
  by (drule reachable_inv) (simp add: verify_ledger_valid registry_inv_def)

definition demo_registry :: "path option \<Rightarrow> registry" where
  "demo_registry dir = snd (append_block 5 demo_request (snd (upsert_peer 3 demo_peer (registry_init dir))))"

lemma demo_reachable [simp]: "registry_reachable px dir (demo_registry dir)"
  unfolding demo_registry_def
  by (intro reachable_append reachable_upsert reachable_init) simp_all

lemma demo_registry_simps [simp]:
  "rg_state_dir (demo_registry dir) = dir"
  "rg_ledger (demo_registry dir) = [make_block 5 demo_request []]"
  "map_of (rg_peers (demo_registry dir)) ''aws-ingestion-01'' = Some (demo_peer\<lparr>pr_last_heartbeat := utc_now 3\<rparr>)"
  by (simp_all add: demo_registry_def registry_init_def demo_peer_def)

section \<open>The ledger\<close>

text \<open>
  C1. In every reachable state the ledger verifies and its blocks are numbered from one.\<close>

theorem ledger_always_verifies:
  assumes "registry_reachable px dir st"
  shows "verify_ledger st =
           \<lparr>vr_valid = True, vr_block_count = int (length (rg_ledger st)), vr_error = None\<rparr> \<and>
         map lb_block_id (rg_ledger st) = map (\<lambda>i. int i + 1) [0..<length (rg_ledger st)]"
proof -
  have inv: "registry_inv st" using assms by (rule reachable_inv)
  then have "vr_valid (verify_ledger st)" by (simp add: verify_ledger_valid registry_inv_def)
  then show ?thesis
    using inv verify_ledger_ok_error [of st] verify_ledger_count [of st]
    by (cases "verify_ledger st") (simp add: registry_inv_def numbered_def)
qed

theorem ledger_always_verifies_witness:
  "vr_valid (verify_ledger (demo_registry None))"
  using ledger_always_verifies [of strict_pydantic None "demo_registry None"] by simp

lemma registry_op_grows:
  "registry_op st st' \<Longrightarrow> (\<exists>bs. rg_ledger st' = rg_ledger st @ bs \<and> length bs \<le> 1) \<and>
     dom (map_of (rg_peers st)) \<subseteq> dom (map_of (rg_peers st'))"
  by (auto elim!: registry_opE simp: heartbeat_def Let_def split: option.splits if_splits)

text \<open>
  C2. With a state directory no step of the service (an operation, a restart, a crash in
  the middle of a save) removes or rewrites a block, and it adds at most one; no peer is
  forgotten either.
\<close>

theorem ledger_append_only:
  assumes "registry_reachable px (Some d) st" "rg_state_dir st = Some d" "registry_step px st st'"
  shows "(\<exists>bs. rg_ledger st' = rg_ledger st @ bs \<and> length bs \<le> 1) \<and>
     dom (map_of (rg_peers st)) \<subseteq> dom (map_of (rg_peers st'))"
  using assms(3)
proof cases
  case step_op
  then show ?thesis by (rule registry_op_grows)
next
  case (step_restart now)
  then have "st' = st" using restart_same [OF reachable_inv [OF assms(1)]] assms(2) by blast
  then show ?thesis by simp
next
  case (step_crash st1 d' now n r1 r2)
  note inv = reachable_inv [OF assms(1)]
  obtain st'' where "load_state px now (Some d') (fold run_op (take n (save_ops r1 r2 d' st1)) (rg_fs st)) = Inr st''"
    "rg_peers st'' \<in> {rg_peers st, rg_peers st1}" "rg_ledger st'' \<in> {rg_ledger st, rg_ledger st1}"
    using crash_reload [OF inv registry_op_inv [OF step_crash(1) inv] step_crash(2)] by blast
  then show ?thesis using step_crash(3) registry_op_grows [OF step_crash(1)] by auto
qed

theorem ledger_append_only_witness:
  "\<exists>bs. rg_ledger (demo_registry (Some ''d'')) = [] @ bs \<and> length bs \<le> 1"
  using ledger_append_only [of strict_pydantic "''d''" "snd (upsert_peer 3 demo_peer (registry_init (Some ''d'')))"
      "demo_registry (Some ''d'')"] reachable_op [OF reachable_init op_upsert]
    step_op [OF op_append [of demo_request "snd (upsert_peer 3 demo_peer (registry_init (Some ''d'')))" 5]]
  by (simp add: demo_registry_def registry_init_def)

text \<open>
  C3. Tamper evidence: two ledgers of one length that both verify and end in the same
  block hash are the same ledger, or they show two different header texts with the same
  SHA-256 digest, at one index.
\<close>

theorem ledger_tamper_evident:
  assumes "vr_valid (verify_ledger st)" "vr_valid (verify_ledger st')"
    and "length (rg_ledger st) = length (rg_ledger st')"
    and "last_hash (rg_ledger st) = last_hash (rg_ledger st')"
  shows "rg_ledger st = rg_ledger st' \<or>
     (\<exists>i < length (rg_ledger st).
        stable_json_dumps (block_header (rg_ledger st ! i)) \<noteq> stable_json_dumps (block_header (rg_ledger st' ! i)) \<and>
        sha256_hex (stable_json_dumps (block_header (rg_ledger st ! i))) =
        sha256_hex (stable_json_dumps (block_header (rg_ledger st' ! i))))"
proof -
  have "chain_end lb_block_hash None (rg_ledger st) = chain_end lb_block_hash None (rg_ledger st')"
    using assms(4) by (simp add: chain_end_def last_hash_def)
  with ledger.same_head [OF assms(3)] assms(1,2) show ?thesis
    by (auto simp: verify_ledger_valid collision_at_def digest_hash_def header_text_def)
qed

theorem ledger_tamper_evident_witness:
  "rg_ledger (demo_registry None) = rg_ledger (demo_registry (Some ''d'')) \<or>
   (\<exists>i < length (rg_ledger (demo_registry None)).
      stable_json_dumps (block_header (rg_ledger (demo_registry None) ! i)) \<noteq>
      stable_json_dumps (block_header (rg_ledger (demo_registry (Some ''d'')) ! i)) \<and>
      sha256_hex (stable_json_dumps (block_header (rg_ledger (demo_registry None) ! i))) =
      sha256_hex (stable_json_dumps (block_header (rg_ledger (demo_registry (Some ''d'')) ! i))))"
  by (rule ledger_tamper_evident)
    (simp_all add: verify_ledger_valid reachable_inv [OF demo_reachable [of strict_pydantic], unfolded registry_inv_def, simplified])

text \<open>
  Rewriting one block while keeping its successors: unless the new block's header
  text collides with the old one under SHA-256, verification fails.
\<close>

theorem rewritten_block_noticed:
  assumes "vr_valid (verify_ledger st)" "Suc i < length (rg_ledger st)" "b \<noteq> rg_ledger st ! i"
    and "\<not> (stable_json_dumps (block_header b) \<noteq> stable_json_dumps (block_header (rg_ledger st ! i)) \<and>
            sha256_hex (stable_json_dumps (block_header b)) =
            sha256_hex (stable_json_dumps (block_header (rg_ledger st ! i))))"
  shows "\<not> vr_valid (verify_ledger (st\<lparr>rg_ledger := (rg_ledger st)[i := b]\<rparr>))"
proof
  let ?xs = "rg_ledger st"
  assume "vr_valid (verify_ledger (st\<lparr>rg_ledger := ?xs[i := b]\<rparr>))"
  then have "?xs[i := b] = ?xs \<or> collision_at header_text digest_hash ?xs (?xs[i := b]) i"
    using ledger.replaced_block assms(1,2) by (simp add: verify_ledger_valid)
  moreover have "?xs[i := b] \<noteq> ?xs"
    using assms(2,3) by (metis Suc_lessD nth_list_update_eq)
  ultimately show False
    using assms(2,4) by (auto simp: collision_at_def digest_hash_def header_text_def)
qed

theorem rewritten_block_noticed_witness:
  "\<not> vr_valid (verify_ledger ((snd (append_block 7 demo_request (demo_registry None)))
     \<lparr>rg_ledger := [(make_block 5 demo_request [])\<lparr>lb_block_hash := ''''\<rparr>,
       make_block 7 demo_request [make_block 5 demo_request []]]\<rparr>))"
proof -
  let ?st = "snd (append_block 7 demo_request (demo_registry None))"
  let ?b = "(make_block 5 demo_request [])\<lparr>lb_block_hash := ''''\<rparr>"
  have "vr_valid (verify_ledger ?st)"
    by (rule reachable_valid [of strict_pydantic None]) (simp add: reachable_append)
  moreover have "lb_block_hash (make_block 5 demo_request []) \<noteq> ''''"
    by (simp add: make_block_hash compute_block_hash_def hash_json_def)
  then have "lb_block_hash ?b \<noteq> lb_block_hash (rg_ledger ?st ! 0)" by simp
  then have "?b \<noteq> rg_ledger ?st ! 0" by metis
  ultimately show ?thesis
    using rewritten_block_noticed [of ?st 0 ?b] by (simp add: block_header_def)
qed

text \<open>
  C4. When verification fails, it reports the first faulty block: everything before it
  verifies, nothing that includes it does, and the message says whether its link or its
  hash is wrong.
\<close>

theorem verification_reports_first_fault:
  assumes "\<not> vr_valid (verify_ledger st)"
  shows "\<exists>i < length (rg_ledger st).
     vr_valid (verify_ledger (st\<lparr>rg_ledger := take i (rg_ledger st)\<rparr>)) \<and>
     (\<forall>j > i. \<not> vr_valid (verify_ledger (st\<lparr>rg_ledger := take j (rg_ledger st)\<rparr>))) \<and>
     vr_error (verify_ledger st) = Some (''block '' @ show_int (lb_block_id (rg_ledger st ! i)) @
       (if lb_previous_hash (rg_ledger st ! i) \<noteq> last_hash (take i (rg_ledger st))
        then '' has invalid previous_hash'' else '' hash mismatch''))"
proof -
  let ?bs = "rg_ledger st"
  obtain i where i: "i < length ?bs" "chained None (take i ?bs)" "\<not> chained None (take (Suc i) ?bs)"
    "vr_error (verify_ledger st) =
       Some (if lb_previous_hash (?bs ! i) \<noteq> chain_end lb_block_hash None (take i ?bs)
             then bad_link_message (?bs ! i) else bad_hash_message (?bs ! i))"
    using verify_from_error [of "length ?bs" None ?bs] assms by (auto simp: verify_ledger_def)
  have "\<not> chained None (take j ?bs)" if "j > i" for j
  proof
    assume "chained None (take j ?bs)"
    then have "chained None (take (Suc i) (take j ?bs))" by (rule linked_take)
    moreover have "take (Suc i) (take j ?bs) = take (Suc i) ?bs" using that by simp
    ultimately show False using i(3) by simp
  qed
  then show ?thesis
    using i(1,2,4) by (intro exI [of _ i])
      (simp add: verify_ledger_valid chain_end_def last_hash_def bad_link_message_def bad_hash_message_def)
qed

text \<open>A ledger whose only block claims a predecessor.\<close>

definition broken_registry :: registry where
  "broken_registry = (registry_init None)\<lparr>rg_ledger :=
     [(make_block 5 demo_request [])\<lparr>lb_previous_hash := Some ''sha256:0''\<rparr>]\<rparr>"

lemma broken_invalid: "\<not> vr_valid (verify_ledger broken_registry)"
  by (simp add: verify_ledger_def broken_registry_def)

theorem verification_reports_first_fault_witness:
  "vr_error (verify_ledger broken_registry) = Some ''block 1 has invalid previous_hash''"
proof -
  have "show_int 1 = ''1''" by code_simp
  then show ?thesis using verification_reports_first_fault [OF broken_invalid]
    by (auto simp: broken_registry_def last_hash_def)
qed

text \<open>
  What the chain does not show: a ledger cut off at any length still verifies, so
  the loss of the newest blocks is seen only by comparing the block count or the head
  hash with a copy kept elsewhere.
\<close>

theorem truncation_unnoticed:
  assumes "vr_valid (verify_ledger st)"
  shows "verify_ledger (st\<lparr>rg_ledger := take n (rg_ledger st)\<rparr>) =
     \<lparr>vr_valid = True, vr_block_count = int (min n (length (rg_ledger st))), vr_error = None\<rparr>"
proof -
  let ?st = "st\<lparr>rg_ledger := take n (rg_ledger st)\<rparr>"
  have "vr_valid (verify_ledger ?st)" using assms by (simp add: verify_ledger_valid linked_take)
  moreover from this have "vr_error (verify_ledger ?st) = None" by (rule verify_ledger_ok_error)
  moreover have "vr_block_count (verify_ledger ?st) = int (min n (length (rg_ledger st)))"
    by (simp add: verify_ledger_count min.commute)
  ultimately show ?thesis by (cases "verify_ledger ?st") simp
qed

theorem truncation_unnoticed_witness:
  "verify_ledger ((demo_registry None)\<lparr>rg_ledger := []\<rparr>) =
     \<lparr>vr_valid = True, vr_block_count = 0, vr_error = None\<rparr>"
  using truncation_unnoticed [OF reachable_valid [OF demo_reachable [of strict_pydantic None]], of 0] by simp

section \<open>Files\<close>

text \<open>
  A restart brings back exactly the state before it: reading the two files of any
  reachable state gives its peers, in their order, and its ledger.
\<close>

theorem restart_restores_state:
  assumes "registry_reachable px dir st" "rg_state_dir st = Some d"
  shows "load_state px' now (Some d) (rg_fs st) = Inr st"
  using load_state_inv [OF reachable_inv [OF assms(1)] assms(2)] .

theorem restart_restores_state_witness:
  "load_state strict_pydantic 9 (Some ''d'') (rg_fs (demo_registry (Some ''d''))) = Inr (demo_registry (Some ''d''))"
  by (rule restart_restores_state [OF demo_reachable [of strict_pydantic "Some ''d''"]]) simp

text \<open>
  A crash after any number of the file operations of a save leaves files that load:
  the peers and the ledger are each the old or the new version, and the ledger verifies.
\<close>

theorem crash_leaves_loadable_state:
  assumes "registry_reachable px dir st" "rg_state_dir st = Some d" "registry_op st st1"
  shows "\<exists>st'. load_state px now (Some d) (fold run_op (take n (save_ops r1 r2 d st1)) (rg_fs st)) = Inr st' \<and>
     rg_peers st' \<in> {rg_peers st, rg_peers st1} \<and> rg_ledger st' \<in> {rg_ledger st, rg_ledger st1} \<and>
     vr_valid (verify_ledger st')"
proof -
  note inv = reachable_inv [OF assms(1)]
  show ?thesis
    using crash_reload [OF inv registry_op_inv [OF assms(3) inv] assms(2), of px now n r1 r2]
    by (auto simp: registry_inv_def verify_ledger_valid)
qed

theorem crash_leaves_loadable_state_witness:
  "\<exists>st'. load_state strict_pydantic 9 (Some ''d'')
      (fold run_op (take 6 (save_ops ''a'' ''b'' ''d'' (snd (append_block 7 demo_request (demo_registry (Some ''d''))))))
        (rg_fs (demo_registry (Some ''d'')))) = Inr st' \<and> vr_valid (verify_ledger st')"
  using crash_leaves_loadable_state [OF demo_reachable [of strict_pydantic "Some ''d''"] _ op_append [where r = demo_request and now = 7],
      where d = "''d''" and now = 9 and n = 6 and ?r1.0 = "''a''" and ?r2.0 = "''b''"]
  by (simp only: demo_registry_simps demo_ok simp_thms) blast

section \<open>What a reader sees of a peer\<close>

text \<open>
  C7. The status of a peer is a function of the exact age of its last heartbeat in
  microseconds: online up to 90 seconds, stale up to 180, offline after; the conversion
  to floating-point seconds never moves a threshold.
\<close>

theorem peer_status_by_age:
  assumes "map_of (rg_peers st) k = Some p" "pr_last_heartbeat p = utc_now t" "instant_ok t"
  shows "get_peer now k st = Inr (Some (p\<lparr>pr_status :=
     (if now - t > 180 * 1000000 then Offline else if now - t > 90 * 1000000 then Stale else Online)\<rparr>))"
  using assms by (simp add: get_peer_def with_fresh_status_eq heartbeat_instant_now status_of_us_def)

theorem peer_status_by_age_witness:
  "get_peer 90000004 ''aws-ingestion-01'' (demo_registry None) =
     Inr (Some (demo_peer\<lparr>pr_last_heartbeat := utc_now 3, pr_status := Stale\<rparr>))"
  using peer_status_by_age [of "demo_registry None" "''aws-ingestion-01''" "demo_peer\<lparr>pr_last_heartbeat := utc_now 3\<rparr>" 3 90000004]
  by (simp add: instant_ok_def us_per_day_def)

lemma heartbeat_stored:
  "map_of (rg_peers st) k = Some p \<Longrightarrow>
     map_of (rg_peers (snd (heartbeat k hb st))) k =
       Some (p\<lparr>pr_status := hb_status hb, pr_last_heartbeat := hb_observed_at hb\<rparr>)"
  by (simp add: heartbeat_def Let_def)

lemma filter_replaced:
  "map_of d k = Some p \<Longrightarrow> \<not> P p \<Longrightarrow> \<not> P q \<Longrightarrow> filter P (dict_values (dict_set k q d)) = filter P (dict_values d)"
  unfolding dict_set_def dict_values_def by (induction d) auto

text \<open>
  C8. A heartbeat with a timestamp \<open>fromisoformat\<close> does not read is accepted and stored. From then
  on the list of peers, the counts, the health report, the peer itself and every capability it
  declares raise; the other peers on their own, and capabilities it does not declare, are read as
  before.
\<close>

theorem bad_heartbeat_poisons_reads:
  assumes "map_of (rg_peers st) k = Some p" "fromisoformat (hb_observed_at hb) = None"
    and "app_store app = snd (heartbeat k hb st)"
  defines "raised \<equiv> ValueError ''Invalid isoformat string''"
  shows "fst (heartbeat k hb st) = Some (p\<lparr>pr_status := hb_status hb, pr_last_heartbeat := hb_observed_at hb\<rparr>) \<and>
     list_peers clk (app_store app) = Inl raised \<and> peer_counts clk (app_store app) = Inl raised \<and>
     health interval clk app = Inl raised \<and>
     get_peer now j (app_store app) = (if j = k then Inl raised else get_peer now j st) \<and>
     peers_with_capability clk c (app_store app) =
       (if c \<in> set (pr_capabilities p) then Inl raised else peers_with_capability clk c st)"
proof -
  let ?p = "p\<lparr>pr_status := hb_status hb, pr_last_heartbeat := hb_observed_at hb\<rparr>"
  have peers: "rg_peers (app_store app) = dict_set k ?p (rg_peers st)"
    using assms(1,3) by (simp add: heartbeat_def Let_def)
  have look: "map_of (rg_peers (app_store app)) k = Some ?p"
    using heartbeat_stored [OF assms(1)] assms(3) by simp
  have bad: "\<not> readable ?p" using assms(2) by (simp add: readable_def heartbeat_instant_def)
  have mem: "?p \<in> set (dict_values (rg_peers (app_store app)))"
    using map_of_SomeD [OF look] by (force simp: dict_values_def)
  then have "\<not> list_all readable (dict_values (rg_peers (app_store app)))"
    using bad by (auto simp: list_all_iff)
  then have list: "list_peers clk' (app_store app) = Inl raised" for clk'
    by (simp add: list_peers_def fresh_all_unreadable raised_def)
  have one: "get_peer now j (app_store app) = (if j = k then Inl raised else get_peer now j st)"
    using with_fresh_unreadable [OF bad] by (simp add: get_peer_def peers raised_def)
  have "peers_with_capability clk c (app_store app) =
      (if c \<in> set (pr_capabilities p) then Inl raised else peers_with_capability clk c st)"
  proof (cases "c \<in> set (pr_capabilities p)")
    case True
    then have "\<not> list_all readable (filter (\<lambda>p. c \<in> set (pr_capabilities p)) (dict_values (rg_peers (app_store app))))"
      using mem bad by (auto simp: list_all_iff intro!: bexI [of _ ?p])
    then show ?thesis using True by (simp add: peers_with_capability_def fresh_all_unreadable raised_def)
  next
    case False
    then show ?thesis using filter_replaced [OF assms(1)] by (simp add: peers_with_capability_def peers)
  qed
  then show ?thesis using assms(1) list one by (simp add: peer_counts_def health_def heartbeat_def Let_def)
qed

definition bad_heartbeat :: peer_heartbeat where
  "bad_heartbeat = \<lparr>hb_status = Online, hb_observed_at = ''now''\<rparr>"

theorem bad_heartbeat_poisons_reads_witness:
  "list_peers (\<lambda>i. 9) (snd (heartbeat ''aws-ingestion-01'' bad_heartbeat (demo_registry None))) =
     Inl (ValueError ''Invalid isoformat string'') \<and>
   peers_with_capability (\<lambda>i. 9) ''ingest_market_data'' (snd (heartbeat ''aws-ingestion-01'' bad_heartbeat (demo_registry None))) =
     Inl (ValueError ''Invalid isoformat string'')"
proof -
  let ?app = "\<lparr>app_store = snd (heartbeat ''aws-ingestion-01'' bad_heartbeat (demo_registry None)),
    app_last_result = JNull, app_last_checked_at = JNull, app_runs = 0, app_failures = 0\<rparr>"
  have "fromisoformat (hb_observed_at bad_heartbeat) = None"
    by (simp add: bad_heartbeat_def fromisoformat_def utf8_bytes_def date_length_def)
  then show ?thesis
    using bad_heartbeat_poisons_reads [of "demo_registry None" "''aws-ingestion-01''" _ bad_heartbeat ?app "\<lambda>i. 9" 60 9
        "''aws-ingestion-01''" "''ingest_market_data''"] by (simp add: demo_peer_def)
qed

lemma fresh_all_status:
  "list_all2 (\<lambda>p q. \<exists>s. q = p\<lparr>pr_status := s\<rparr>) ps qs \<Longrightarrow> fresh_all clk i ps = fresh_all clk i qs"
proof (induction ps qs arbitrary: i rule: list_all2_induct)
  case Nil
  show ?case by simp
next
  case (Cons p ps q qs)
  then show ?case by (auto simp: with_fresh_status_ignores)
qed

lemma dict_set_values_related:
  assumes "R x y" "\<And>z. R z z"
  shows "list_all2 R (dict_values (dict_set k x d)) (dict_values (dict_set k y d))"
proof -
  have refl: "list_all2 R (map snd d) (map snd d)" for d by (rule list_all2_refl) (rule assms(2))
  show ?thesis
    unfolding dict_set_def dict_values_def
    by (induction d) (auto simp: assms refl)
qed

lemma list_all2_filter:
  "list_all2 R xs ys \<Longrightarrow> (\<And>x y. R x y \<Longrightarrow> P x = P y) \<Longrightarrow> list_all2 R (filter P xs) (filter P ys)"
  by (induction rule: list_all2_induct) auto

text \<open>
  The status a peer reports about itself in a heartbeat is never seen by a reader:
  two heartbeats that differ in it alone give the same answers to every read.
\<close>

theorem heartbeat_status_unobservable:
  "list_peers clk (snd (heartbeat k hb st)) = list_peers clk (snd (heartbeat k (hb\<lparr>hb_status := s\<rparr>) st)) \<and>
   get_peer now j (snd (heartbeat k hb st)) = get_peer now j (snd (heartbeat k (hb\<lparr>hb_status := s\<rparr>) st)) \<and>
   peers_with_capability clk c (snd (heartbeat k hb st)) =
     peers_with_capability clk c (snd (heartbeat k (hb\<lparr>hb_status := s\<rparr>) st)) \<and>
   peer_counts clk (snd (heartbeat k hb st)) = peer_counts clk (snd (heartbeat k (hb\<lparr>hb_status := s\<rparr>) st))"
proof (cases "map_of (rg_peers st) k")
  case None
  then show ?thesis by (simp add: heartbeat_def)
next
  case (Some p)
  let ?R = "\<lambda>p q. \<exists>s. q = p\<lparr>pr_status := s\<rparr>"
  let ?x = "p\<lparr>pr_status := hb_status hb, pr_last_heartbeat := hb_observed_at hb\<rparr>"
  let ?y = "p\<lparr>pr_status := s, pr_last_heartbeat := hb_observed_at hb\<rparr>"
  have y: "?y = ?x\<lparr>pr_status := s\<rparr>" by simp
  have peers: "rg_peers (snd (heartbeat k hb st)) = dict_set k ?x (rg_peers st)"
    "rg_peers (snd (heartbeat k (hb\<lparr>hb_status := s\<rparr>) st)) = dict_set k ?y (rg_peers st)"
    using Some by (simp_all add: heartbeat_def Let_def)
  have rel: "list_all2 ?R (dict_values (dict_set k ?x (rg_peers st))) (dict_values (dict_set k ?y (rg_peers st)))"
    unfolding y by (rule dict_set_values_related) (blast, metis peer_registration.surjective peer_registration.update_convs(6))
  have list: "list_peers clk' (snd (heartbeat k hb st)) = list_peers clk' (snd (heartbeat k (hb\<lparr>hb_status := s\<rparr>) st))" for clk'
    unfolding list_peers_def peers by (rule fresh_all_status [OF rel])
  have "peers_with_capability clk c (snd (heartbeat k hb st)) =
     peers_with_capability clk c (snd (heartbeat k (hb\<lparr>hb_status := s\<rparr>) st))"
    unfolding peers_with_capability_def peers
    by (rule fresh_all_status [OF list_all2_filter [OF rel]]) auto
  moreover have "get_peer now j (snd (heartbeat k hb st)) = get_peer now j (snd (heartbeat k (hb\<lparr>hb_status := s\<rparr>) st))"
    unfolding get_peer_def peers by (simp add: with_fresh_status_eq split: option.splits)
  ultimately show ?thesis using list by (simp add: peer_counts_def)
qed

end
