(* ===== verification/AuditLog.thy ===== *)
theory AuditLog
  imports QPrelude
begin

text \<open>
  The contract of an append-only log, as the services use the ledger: an append adds one
  entry, determined by the request, at the end, and touches nothing before it.
\<close>

locale audit_log =
  fixes append :: "'r \<Rightarrow> 's \<Rightarrow> 's"
    and entries :: "'s \<Rightarrow> 'e list"
    and entry :: "'r \<Rightarrow> 'e"
  assumes entries_append: "entries (append r s) = entries s @ [entry r]"
begin

lemma entries_many: "entries (fold append rs s) = entries s @ map entry rs"
  by (induction rs arbitrary: s) (simp_all add: entries_append)

lemma entries_count: "length (entries (fold append rs s)) = length (entries s) + length rs"
  by (simp add: entries_many)

lemma entries_kept: "i < length (entries s) \<Longrightarrow> entries (fold append rs s) ! i = entries s ! i"
  by (simp add: entries_many nth_append)

lemma entries_order:
  "i < length rs \<Longrightarrow> entries (fold append rs s) ! (length (entries s) + i) = entry (rs ! i)"
  by (simp add: entries_many nth_append)

end

end
