(* ===== verification/RegistryApiSpec.thy ===== *)
theory RegistryApiSpec
  imports RegistrySpec AuditLog
begin

text \<open>
  The registry's endpoints and its background verifier, stated over the abstract content
  of the ledger (who did what, with which payload), which the store implements as an
  \<open>audit_log\<close>.
\<close>

section \<open>The ledger as a log\<close>

type_synonym log_entry = "string \<times> string \<times> string"

definition ledger_entries :: "registry \<Rightarrow> log_entry list" where
  "ledger_entries st = map (\<lambda>b. (lb_event_type b, lb_actor_node b, lb_payload_hash b)) (rg_ledger st)"

definition request_entry :: "ledger_request \<Rightarrow> log_entry" where
  "request_entry r = (lr_event_type r, lr_actor_node r, hash_json (JObj (lr_payload r)))"

interpretation registry_log: audit_log "\<lambda>r st. snd (append_block now r st)" ledger_entries request_entry for now
  by unfold_locales (simp add: ledger_entries_def request_entry_def)

lemma upsert_entries [simp]: "ledger_entries (snd (upsert_peer now p st)) = ledger_entries st"
  by (simp add: ledger_entries_def)

lemma heartbeat_entries [simp]: "ledger_entries (snd (heartbeat k hb st)) = ledger_entries st"
  by (simp add: ledger_entries_def)

lemma save_entries [simp]: "ledger_entries (save_state st) = ledger_entries st"
  by (simp add: ledger_entries_def)

lemma peers_update_entries [simp]: "ledger_entries (st\<lparr>rg_peers := ps\<rparr>) = ledger_entries st"
  by (simp add: ledger_entries_def)

section \<open>Endpoints\<close>

lemma jobj_jfields [simp]: "JObj (jfields (dump_peer p)) = dump_peer p"
  "JObj (jfields (dump_heartbeat hb)) = dump_heartbeat hb"
  by (simp_all add: dump_peer_def dump_heartbeat_def)

lemma mk_request_ok:
  "str_between 3 128 e \<Longrightarrow> str_between 3 128 a \<Longrightarrow>
     mk_ledger_request e a d = Inr \<lparr>lr_event_type = e, lr_actor_node = a, lr_payload = d\<rparr>"
  by (simp add: mk_ledger_request_def ledger_request_ok_def)

lemma event_names_ok [simp]:
  "str_between 3 128 ''peer_registered''" "str_between 3 128 ''peer_heartbeat''"
  "str_between 3 128 ''ledger_verification_failed''" "str_between 3 128 ''registry_service''"
  by (simp_all add: str_between_def)

lemma register_endpoint_eq:
  assumes "validate_peer (utc_now (clk 0)) body = Some p"
  defines "q \<equiv> p\<lparr>pr_status := Online, pr_last_heartbeat := utc_now (clk 1)\<rparr>"
  shows "fst (serve interval clk (PostPeer body) app) = Inr (dump_peer q) \<and>
     map_of (rg_peers (app_store (snd (serve interval clk (PostPeer body) app)))) =
       (map_of (rg_peers (app_store app)))(pr_node_id p \<mapsto> q) \<and>
     ledger_entries (app_store (snd (serve interval clk (PostPeer body) app))) =
       ledger_entries (app_store app) @ [(''peer_registered'', pr_node_id p, hash_json (dump_peer q))]"
proof -
  have "str_between 3 128 (pr_node_id p)" using validate_peer_ok [OF assms(1)] by (simp add: peer_ok_def)
  then show ?thesis
    using assms(1)
    by (simp add: q_def register_peer_def map_outcome_def mk_request_ok split_beta
        registry_log.entries_append request_entry_def)
qed

text \<open>
  Registering a valid peer answers with it, online as of the clock, makes it the entry
  of its id in the registry (whatever was there before), and adds exactly one block, which
  records the peer under its own id with the hash of the answer.
\<close>

theorem register_endpoint:
  assumes "validate_peer (utc_now (clk 0)) body = Some p"
  defines "q \<equiv> p\<lparr>pr_status := Online, pr_last_heartbeat := utc_now (clk 1)\<rparr>"
  shows "fst (serve interval clk (PostPeer body) app) = Inr (dump_peer q) \<and>
     map_of (rg_peers (app_store (snd (serve interval clk (PostPeer body) app)))) =
       (map_of (rg_peers (app_store app)))(pr_node_id p \<mapsto> q) \<and>
     ledger_entries (app_store (snd (serve interval clk (PostPeer body) app))) =
       ledger_entries (app_store app) @ [(''peer_registered'', pr_node_id p, hash_json (dump_peer q))]"
  unfolding q_def using assms(1) by (rule register_endpoint_eq)

theorem register_endpoint_witness:
  "fst (serve 60 (\<lambda>i. 3) (PostPeer (dump_peer demo_peer))
      \<lparr>app_store = registry_init None, app_last_result = JNull, app_last_checked_at = JNull, app_runs = 0, app_failures = 0\<rparr>) =
   Inr (dump_peer (demo_peer\<lparr>pr_status := Online, pr_last_heartbeat := utc_now 3\<rparr>))"
  using register_endpoint [of "\<lambda>i. 3" "dump_peer demo_peer" demo_peer] validate_dump_peer [of demo_peer] by simp

text \<open>
  A heartbeat for a node the registry does not know is answered with 404 and changes
  nothing; for a known node it replaces status and timestamp of that node's entry by
  those of the body and adds one block under the node's id.
\<close>

theorem heartbeat_endpoint:
  assumes "registry_inv (app_store app)" "validate_heartbeat (utc_now (clk 0)) body = Some hb"
  shows "(map_of (rg_peers (app_store app)) k = None \<longrightarrow>
       serve interval clk (PostHeartbeat k body) app = (Inl (HTTPException 404 ''peer not found''), app)) \<and>
     (\<forall>p. map_of (rg_peers (app_store app)) k = Some p \<longrightarrow>
       (let q = p\<lparr>pr_status := hb_status hb, pr_last_heartbeat := hb_observed_at hb\<rparr>;
            r = serve interval clk (PostHeartbeat k body) app
        in fst r = Inr (dump_peer q) \<and>
           map_of (rg_peers (app_store (snd r))) = (map_of (rg_peers (app_store app)))(k \<mapsto> q) \<and>
           ledger_entries (app_store (snd r)) =
             ledger_entries (app_store app) @ [(''peer_heartbeat'', k, hash_json (dump_heartbeat hb))]))"
proof (intro conjI impI allI)
  assume "map_of (rg_peers (app_store app)) k = None"
  then show "serve interval clk (PostHeartbeat k body) app = (Inl (HTTPException 404 ''peer not found''), app)"
    using assms(2) by (simp add: peer_heartbeat_ep_def heartbeat_def map_outcome_def peer_not_found_def)
next
  fix p assume p: "map_of (rg_peers (app_store app)) k = Some p"
  then have "pr_node_id p = k" "peer_ok p"
    using keyed_peersD assms(1) unfolding registry_inv_def by blast+
  then have "str_between 3 128 k" by (auto simp: peer_ok_def)
  then show "let q = p\<lparr>pr_status := hb_status hb, pr_last_heartbeat := hb_observed_at hb\<rparr>;
      r = serve interval clk (PostHeartbeat k body) app
    in fst r = Inr (dump_peer q) \<and>
      map_of (rg_peers (app_store (snd r))) = (map_of (rg_peers (app_store app)))(k \<mapsto> q) \<and>
      ledger_entries (app_store (snd r)) =
        ledger_entries (app_store app) @ [(''peer_heartbeat'', k, hash_json (dump_heartbeat hb))]"
    using p assms(2)
    by (simp add: peer_heartbeat_ep_def heartbeat_def map_outcome_def mk_request_ok Let_def
        registry_log.entries_append request_entry_def)
qed

definition demo_app :: registry_app where
  "demo_app = \<lparr>app_store = demo_registry None, app_last_result = JNull, app_last_checked_at = JNull,
     app_runs = 0, app_failures = 0\<rparr>"

lemma demo_app_inv: "registry_inv (app_store demo_app)"
  using reachable_inv [OF demo_reachable [of strict_pydantic None]] by (simp add: demo_app_def)

theorem heartbeat_endpoint_witness:
  "serve 60 (\<lambda>i. 3) (PostHeartbeat ''ghost'' (JObj [])) demo_app = (Inl (HTTPException 404 ''peer not found''), demo_app)"
proof -
  have "validate_heartbeat (utc_now ((\<lambda>i::nat. 3) 0)) (JObj []) = Some \<lparr>hb_status = Online, hb_observed_at = utc_now 3\<rparr>"
    by (simp add: validate_heartbeat_def reader_simps)
  from heartbeat_endpoint [OF demo_app_inv this, of "''ghost''" 60] show ?thesis
    by (auto simp: demo_app_def demo_registry_def registry_init_def demo_peer_def)
qed

text \<open>
  Capability lookup selects by the declared capability alone, in registration order:
  a peer whose last heartbeat is older than three minutes is still returned, marked offline.
\<close>

theorem capability_lookup_ignores_liveness:
  assumes "map_of (rg_peers st) k = Some p" "c \<in> set (pr_capabilities p)"
    and "pr_last_heartbeat p = utc_now t" "instant_ok t" "\<forall>i. clk i > t + 180 * 1000000"
    and "peers_with_capability clk c st = Inr qs"
  shows "map pr_node_id qs =
       map pr_node_id (filter (\<lambda>p. c \<in> set (pr_capabilities p)) (dict_values (rg_peers st))) \<and>
     (\<exists>q \<in> set qs. pr_node_id q = pr_node_id p \<and> pr_base_url q = pr_base_url p \<and> pr_status q = Offline)"
proof -
  let ?ps = "filter (\<lambda>p. c \<in> set (pr_capabilities p)) (dict_values (rg_peers st))"
  have qs: "fresh_all clk 0 ?ps = Inr qs" using assms(6) by (simp add: peers_with_capability_def)
  note nth = fresh_all_nth [OF qs]
  have ids: "map pr_node_id qs = map pr_node_id ?ps"
    by (rule nth_equalityI) (simp_all add: nth)
  have "p \<in> set ?ps" using map_of_SomeD [OF assms(1)] assms(2) by (force simp: dict_values_def)
  then obtain j where j: "j < length ?ps" "?ps ! j = p" by (metis in_set_conv_nth)
  then have "qs ! j = fresh (clk j) p" using nth(2) [of j] by simp
  moreover have "status_of_us (clk j - t) = Offline"
    using assms(5) [rule_format, of j] by (simp add: status_of_us_def)
  ultimately have "pr_status (qs ! j) = Offline" "pr_node_id (qs ! j) = pr_node_id p" "pr_base_url (qs ! j) = pr_base_url p"
    using assms(3) heartbeat_instant_now [OF assms(4)] by (simp_all add: fresh_def)
  moreover have "qs ! j \<in> set qs" using j(1) nth(1) by simp
  ultimately show ?thesis using ids by blast
qed

theorem capability_lookup_ignores_liveness_witness:
  "\<exists>qs. peers_with_capability (\<lambda>i. 180000004) ''ingest_market_data'' (demo_registry None) = Inr qs \<and>
     (\<exists>q \<in> set qs. pr_node_id q = ''aws-ingestion-01'' \<and> pr_status q = Offline)"
proof -
  have inst: "instant_ok 3" by (simp add: instant_ok_def us_per_day_def)
  have "readable (demo_peer\<lparr>pr_last_heartbeat := utc_now 3\<rparr>)"
    by (simp add: readable_def heartbeat_instant_now [OF inst])
  then have "list_all readable (dict_values (rg_peers (demo_registry None)))"
    by (simp add: demo_registry_def registry_init_def dict_set_def dict_values_def demo_peer_def)
  then have "list_all readable (filter (\<lambda>p. ''ingest_market_data'' \<in> set (pr_capabilities p)) (dict_values (rg_peers (demo_registry None))))"
    by (simp add: list_all_iff)
  then obtain qs where qs: "peers_with_capability (\<lambda>i. 180000004) ''ingest_market_data'' (demo_registry None) = Inr qs"
    unfolding peers_with_capability_def using fresh_all_Inr_iff by blast
  show ?thesis
    using capability_lookup_ignores_liveness [OF demo_registry_simps(3) _ _ inst _ qs] qs
    by (auto simp: demo_peer_def)
qed

text \<open>
  The counts by status partition the listed peers, and the health endpoint reports
  their total and the length of the ledger.
\<close>

theorem peer_counts_partition:
  assumes "peer_counts clk st = Inr counts"
  shows "map fst counts = [''online'', ''stale'', ''offline''] \<and>
     sum_list (map snd counts) = length (rg_peers st) \<and>
     (\<exists>ps. list_peers clk st = Inr ps \<and>
        (\<forall>s. map_of counts (status_value s) = Some (length (filter (\<lambda>p. pr_status p = s) ps))))"
proof -
  obtain ps where ps: "list_peers clk st = Inr ps"
    using assms by (auto simp: peer_counts_eq bindR_Inr_iff)
  then have "length ps = length (rg_peers st)"
    using fresh_all_nth(1) [of clk 0 _ ps] by (simp add: list_peers_def dict_values_def)
  moreover have "map_of counts (status_value s) = Some (length (filter (\<lambda>p. pr_status p = s) ps))" for s
    using assms ps by (cases s) (auto simp: peer_counts_eq)
  ultimately show ?thesis using assms ps status_partition [of ps] by (auto simp: peer_counts_eq)
qed

theorem peer_counts_partition_witness:
  "\<exists>counts. peer_counts (\<lambda>i. 4) (demo_registry None) = Inr counts \<and> sum_list (map snd counts) = 1"
proof -
  have inst: "instant_ok 3" by (simp add: instant_ok_def us_per_day_def)
  have "readable (demo_peer\<lparr>pr_last_heartbeat := utc_now 3\<rparr>)"
    by (simp add: readable_def heartbeat_instant_now [OF inst])
  then have "list_all readable (dict_values (rg_peers (demo_registry None)))"
    by (simp add: demo_registry_def registry_init_def dict_set_def dict_values_def demo_peer_def)
  then obtain ps where "list_peers (\<lambda>i. 4) (demo_registry None) = Inr ps"
    unfolding list_peers_def using fresh_all_Inr_iff by blast
  then obtain counts where c: "peer_counts (\<lambda>i. 4) (demo_registry None) = Inr counts" by (simp add: peer_counts_eq)
  moreover have "length (rg_peers (demo_registry None)) = 1"
    by (simp add: demo_registry_def registry_init_def dict_set_def)
  ultimately show ?thesis using peer_counts_partition [OF c] by simp
qed

section \<open>The background verifier\<close>

lemma verify_from_invalid_append:
  "\<not> vr_valid (verify_from n p bs) \<Longrightarrow>
     \<not> vr_valid (verify_from m p (bs @ cs)) \<and> vr_error (verify_from m p (bs @ cs)) = vr_error (verify_from n p bs)"
  by (induction bs arbitrary: p) (auto simp: Let_def)

lemma verify_ledger_invalid_append:
  "\<not> vr_valid (verify_ledger st) \<Longrightarrow>
     \<not> vr_valid (verify_ledger (snd (append_block now r st))) \<and>
     vr_error (verify_ledger (snd (append_block now r st))) = vr_error (verify_ledger st)"
  unfolding verify_ledger_def using verify_from_invalid_append by simp

text \<open>
  As long as the service runs on a state it has reached itself, any number of verifier
  passes leaves the store untouched and counts no failure.
\<close>

theorem verifier_quiet_when_intact:
  assumes "registry_reachable px dir (app_store app)"
  shows "app_store (fold verifier_tick clks app) = app_store app \<and>
     app_failures (fold verifier_tick clks app) = app_failures app \<and>
     app_runs (fold verifier_tick clks app) = app_runs app + int (length clks)"
proof (induction clks rule: rev_induct)
  case Nil
  show ?case by simp
next
  case (snoc clk clks)
  then show ?case using reachable_valid [OF assms] by (simp add: verifier_tick_def Let_def)
qed

theorem verifier_quiet_when_intact_witness:
  "app_failures (fold verifier_tick [\<lambda>i. 9, \<lambda>i. 8] demo_app) = 0"
  using verifier_quiet_when_intact [of strict_pydantic None demo_app "[\<lambda>i. 9, \<lambda>i. 8]"] by (simp add: demo_app_def)

lemma failure_tick:
  assumes "\<not> vr_valid (verify_ledger (app_store app))"
  shows "app_failures (verifier_tick clk app) = app_failures app + 1 \<and>
     \<not> vr_valid (verify_ledger (app_store (verifier_tick clk app))) \<and>
     vr_error (verify_ledger (app_store (verifier_tick clk app))) = vr_error (verify_ledger (app_store app)) \<and>
     (\<exists>h. ledger_entries (app_store (verifier_tick clk app)) =
       ledger_entries (app_store app) @ [(''ledger_verification_failed'', ''registry_service'', h)])"
  using assms verify_ledger_invalid_append [OF assms]
  by (simp add: verifier_tick_def Let_def mk_request_ok registry_log.entries_append request_entry_def)

text \<open>
  Once the ledger is broken it stays broken: every pass counts one failure and
  appends one \<open>ledger_verification_failed\<close> block, and verification keeps reporting the
  fault it found first.
\<close>

theorem verifier_reports_broken_ledger:
  assumes "\<not> vr_valid (verify_ledger (app_store app))"
  shows "app_failures (fold verifier_tick clks app) = app_failures app + int (length clks) \<and>
     length (rg_ledger (app_store (fold verifier_tick clks app))) = length (rg_ledger (app_store app)) + length clks \<and>
     vr_error (verify_ledger (app_store (fold verifier_tick clks app))) = vr_error (verify_ledger (app_store app)) \<and>
     \<not> vr_valid (verify_ledger (app_store (fold verifier_tick clks app)))"
proof (induction clks rule: rev_induct)
  case Nil
  then show ?case using assms by simp
next
  case (snoc clk clks)
  let ?app = "fold verifier_tick clks app"
  have "\<not> vr_valid (verify_ledger (app_store ?app))" using snoc by simp
  from failure_tick [OF this, of clk] obtain h where t:
    "app_failures (verifier_tick clk ?app) = app_failures ?app + 1"
    "\<not> vr_valid (verify_ledger (app_store (verifier_tick clk ?app)))"
    "vr_error (verify_ledger (app_store (verifier_tick clk ?app))) = vr_error (verify_ledger (app_store ?app))"
    "ledger_entries (app_store (verifier_tick clk ?app)) =
       ledger_entries (app_store ?app) @ [(''ledger_verification_failed'', ''registry_service'', h)]" by blast
  have "length (rg_ledger st) = length (ledger_entries st)" for st by (simp add: ledger_entries_def)
  then have "length (rg_ledger (app_store (verifier_tick clk ?app))) = Suc (length (rg_ledger (app_store ?app)))"
    using t(4) by simp
  with t snoc show ?case by simp
qed

theorem verifier_reports_broken_ledger_witness:
  "app_failures (fold verifier_tick [\<lambda>i. 9, \<lambda>i. 8, \<lambda>i. 7] (demo_app\<lparr>app_store := broken_registry\<rparr>)) = 3"
  using verifier_reports_broken_ledger [of "demo_app\<lparr>app_store := broken_registry\<rparr>" "[\<lambda>i. 9, \<lambda>i. 8, \<lambda>i. 7]"] broken_invalid
  by (simp add: demo_app_def)

end
