(* ===== verification/Runtime.thy ===== *)
theory Runtime
  imports Storage FloatEval
begin

text \<open>
  \<open>shared/runtime/service_runtime.py\<close>: what every peer does against the registry and
  against other peers. The HTTP client and the network are code outside this repository:
  a record with one operation that answers a request in a state of its own, so that an
  answer may depend on everything sent before. Encoding a body, timeouts and connection
  errors belong to it; \<open>raise_for_status\<close> (anything but 2xx raises) and the reading of the
  body are here. The trace records requests and sleeps in the order they happen.
\<close>

record http_request =
  rq_method :: string
  rq_url :: string
  rq_body :: "json option"

datatype http_body = EmptyBody | JsonBody json | BadBody string

datatype reply = NoReply string | Reply nat http_body

record 'n network =
  net_send :: "http_request \<Rightarrow> 'n \<Rightarrow> reply \<times> 'n"
  net_status_text :: "nat \<Rightarrow> string \<Rightarrow> string"

datatype effect = Sent http_request | Slept pyfloat

record 'n world =
  w_net :: 'n
  w_trace :: "effect list"

record runtime =
  rt_settings :: service_settings
  rt_node_id :: string
  rt_node_type :: string
  rt_cloud :: string
  rt_capabilities :: "string list"
  rt_metadata :: "(string, json) dict"

section \<open>One request\<close>

definition response_value :: "'n network \<Rightarrow> string \<Rightarrow> reply \<Rightarrow> json result" where
  "response_value net url r =
     (case r of NoReply m \<Rightarrow> Inl (HttpxError m)
      | Reply status body \<Rightarrow>
          if status < 200 \<or> 300 \<le> status then Inl (HttpxError (net_status_text net status url))
          else case body of EmptyBody \<Rightarrow> Inr JNull | JsonBody j \<Rightarrow> Inr j | BadBody m \<Rightarrow> Inl (ValueError m))"

definition send :: "'n network \<Rightarrow> http_request \<Rightarrow> 'n world \<Rightarrow> ('n world, json) outcome" where
  "send net rq w =
     (case net_send net rq (w_net w) of (r, n) \<Rightarrow>
        (response_value net (rq_url rq) r, \<lparr>w_net = n, w_trace = w_trace w @ [Sent rq]\<rparr>))"

definition request_json ::
    "'n network \<Rightarrow> string \<Rightarrow> string \<Rightarrow> json option \<Rightarrow> 'n world \<Rightarrow> json \<times> 'n world" where
  "request_json net meth url body w =
     (case send net \<lparr>rq_method = meth, rq_url = url, rq_body = body\<rparr> w of
        (Inl e, w1) \<Rightarrow> (JNull, w1) | (Inr j, w1) \<Rightarrow> (j, w1))"

section \<open>Ledger and discovery\<close>

definition rt_enabled :: "runtime \<Rightarrow> bool" where
  "rt_enabled rt = ss_enable_runtime (rt_settings rt)"

definition append_ledger :: "'n network \<Rightarrow> runtime \<Rightarrow> ledger_request \<Rightarrow> 'n world \<Rightarrow> json \<times> 'n world" where
  "append_ledger net rt request w =
     (if \<not> rt_enabled rt then (JNull, w)
      else request_json net ''POST'' (ss_ledger_url (rt_settings rt) @ ''/ledger/blocks'')
             (Some (dump_ledger_request request)) w)"

definition peers_by_capability ::
    "'n network \<Rightarrow> int \<Rightarrow> runtime \<Rightarrow> string \<Rightarrow> 'n world \<Rightarrow> ('n world, peer_registration list) outcome" where
  "peers_by_capability net now rt capability w =
     (if \<not> rt_enabled rt then (Inr [], w)
      else case request_json net ''GET''
                  (ss_registry_url (rt_settings rt) @ ''/registry/capabilities/'' @ capability) None w of
          (JList items, w1) \<Rightarrow> (mapR (\<lambda>i. validated ''PeerRegistration'' (validate_peer (utc_now now) i)) items, w1)
        | (_, w1) \<Rightarrow> (Inr [], w1))"

definition post_json :: "'n network \<Rightarrow> string \<Rightarrow> string \<Rightarrow> json option \<Rightarrow> 'n world \<Rightarrow> json \<times> 'n world" where
  "post_json net base_url p payload w = request_json net ''POST'' (base_url @ p) payload w"

section \<open>Routing with retries\<close>

definition default_route_retries :: int where
  "default_route_retries = 3"

definition default_route_backoff :: pyfloat where
  "default_route_backoff = Fin (1 / 4)"

text \<open>\<open>time.sleep\<close>: a negative or undefined duration raises.\<close>

definition sleep :: "pyfloat \<Rightarrow> 'n world \<Rightarrow> ('n world, unit) outcome" where
  "sleep d w =
     (if d = NaN \<or> flt d (Fin 0) then (Inl (ValueError ''sleep length must be non-negative''), w)
      else if d = PInf then (Inl OverflowError, w)
      else (Inr (), w\<lparr>w_trace := w_trace w @ [Slept d]\<rparr>))"

definition backoff_delay :: "pyfloat \<Rightarrow> nat \<Rightarrow> pyfloat result" where
  "backoff_delay backoff attempt =
     bindR (float_of_int (2 ^ (attempt - 1))) (\<lambda>f. Inr (fmul backoff f))"

fun exc_text :: "py_exc \<Rightarrow> string" where
  "exc_text (HttpxError m) = m"
| "exc_text (ValueError m) = m"
| "exc_text (RuntimeError m) = m"
| "exc_text _ = ''''"

text \<open>
  The loop over \<open>range(1, retries + 1)\<close>; \<open>n\<close> is the number of iterations left. \<open>Inr\<close> is the
  body of the first success, \<open>Inl\<close> the last exception caught.
\<close>

fun route_attempts ::
    "'n network \<Rightarrow> http_request \<Rightarrow> int \<Rightarrow> pyfloat \<Rightarrow> nat \<Rightarrow> nat \<Rightarrow> py_exc option \<Rightarrow> 'n world \<Rightarrow>
       ('n world, py_exc option + json) outcome" where
  "route_attempts net rq retries backoff 0 attempt last_exc w = (Inr (Inl last_exc), w)"
| "route_attempts net rq retries backoff (Suc n) attempt last_exc w =
     (case send net rq w of
        (Inr body, w1) \<Rightarrow> (Inr (Inr body), w1)
      | (Inl e, w1) \<Rightarrow>
          if int attempt < retries then
            (case backoff_delay backoff attempt of
               Inl err \<Rightarrow> (Inl err, w1)
             | Inr d \<Rightarrow> bindS (sleep d w1) (\<lambda>_ w2. route_attempts net rq retries backoff n (Suc attempt) (Some e) w2))
          else route_attempts net rq retries backoff n (Suc attempt) (Some e) w1)"

definition failure_context ::
    "(string, json) dict \<Rightarrow> peer_registration \<Rightarrow> string \<Rightarrow> string \<Rightarrow> int \<Rightarrow> py_exc option \<Rightarrow> (string, json) dict" where
  "failure_context context peer url event_type retries last_exc =
     fold (\<lambda>(k, v). dict_set k v)
       [(''target_node'', JStr (pr_node_id peer)),
        (''target_url'', JStr url),
        (''event_type'', JStr event_type),
        (''attempts'', JInt retries),
        (''error'', JStr (case last_exc of None \<Rightarrow> ''unknown'' | Some e \<Rightarrow> exc_text e))] context"

definition route_with_retries ::
    "'n network \<Rightarrow> runtime \<Rightarrow> peer_registration \<Rightarrow> string \<Rightarrow> json option \<Rightarrow> string \<Rightarrow> (string, json) dict \<Rightarrow>
       int \<Rightarrow> pyfloat \<Rightarrow> 'n world \<Rightarrow> ('n world, json \<times> py_exc option) outcome" where
  "route_with_retries net rt peer p payload event_type context retries backoff w =
     (let url = pr_base_url peer @ p;
          rq = \<lparr>rq_method = ''POST'', rq_url = url, rq_body = payload\<rparr>
      in case route_attempts net rq retries backoff (nat retries) 1 None w of
           (Inl err, w1) \<Rightarrow> (Inl err, w1)
         | (Inr (Inr body), w1) \<Rightarrow> (Inr (body, None), w1)
         | (Inr (Inl last_exc), w1) \<Rightarrow>
             (case mk_ledger_request ''routing_failed'' (rt_node_id rt)
                     (failure_context context peer url event_type retries last_exc) of
                Inl e \<Rightarrow> (Inr (JNull, last_exc), w1)
              | Inr r \<Rightarrow> (Inr (JNull, last_exc), snd (append_ledger net rt r w1))))"

section \<open>Registration and heartbeats\<close>

text \<open>\<open>PeerRegistration(...)\<close> validates; the constructor's exception is caught by the caller.\<close>

definition runtime_registration :: "int \<Rightarrow> runtime \<Rightarrow> peer_registration result" where
  "runtime_registration now rt =
     (let p = \<lparr>pr_node_id = rt_node_id rt, pr_node_type = rt_node_type rt, pr_cloud = rt_cloud rt,
            pr_base_url = ss_base_url (rt_settings rt), pr_capabilities = rt_capabilities rt,
            pr_status = Online, pr_last_heartbeat = utc_now now, pr_metadata = rt_metadata rt, pr_extra = []\<rparr>
      in if peer_ok p then Inr p else Inl (ValidationError ''PeerRegistration''))"

text \<open>A request whose body is not read: only \<open>raise_for_status\<close> decides.\<close>

definition reply_ok :: "reply \<Rightarrow> bool" where
  "reply_ok r = (case r of NoReply m \<Rightarrow> False | Reply status b \<Rightarrow> 200 \<le> status \<and> status < 300)"

definition send_status :: "'n network \<Rightarrow> http_request \<Rightarrow> 'n world \<Rightarrow> bool \<times> 'n world" where
  "send_status net rq w =
     (case net_send net rq (w_net w) of (r, n) \<Rightarrow>
        (reply_ok r, \<lparr>w_net = n, w_trace = w_trace w @ [Sent rq]\<rparr>))"

definition register_or_heartbeat ::
    "'n network \<Rightarrow> int \<Rightarrow> runtime \<Rightarrow> bool \<Rightarrow> 'n world \<Rightarrow> bool \<times> 'n world" where
  "register_or_heartbeat net now rt registered w =
     (if \<not> registered then
        (case runtime_registration now rt of
           Inl e \<Rightarrow> (False, w)
         | Inr p \<Rightarrow> send_status net
             \<lparr>rq_method = ''POST'', rq_url = ss_registry_url (rt_settings rt) @ ''/registry/peers'',
              rq_body = Some (dump_peer p)\<rparr> w)
      else send_status net
             \<lparr>rq_method = ''POST'',
              rq_url = ss_registry_url (rt_settings rt) @ ''/registry/peers/'' @ rt_node_id rt @ ''/heartbeat'',
              rq_body = Some (JObj [])\<rparr> w)"

text \<open>The heartbeat task: none before \<open>start\<close>, running, or cancelled by \<open>stop\<close>.\<close>

datatype task = NoTask | Running | Cancelled

record runtime_state =
  rs_registered :: bool
  rs_task :: task

definition start :: "'n network \<Rightarrow> int \<Rightarrow> runtime \<Rightarrow> runtime_state \<Rightarrow> 'n world \<Rightarrow> runtime_state \<times> 'n world" where
  "start net now rt st w =
     (if \<not> rt_enabled rt then (st, w)
      else case register_or_heartbeat net now rt (rs_registered st) w of
          (ok, w1) \<Rightarrow> (\<lparr>rs_registered = ok, rs_task = Running\<rparr>, w1))"

definition stop :: "runtime_state \<Rightarrow> runtime_state" where
  "stop st = (if rs_task st = NoTask then st else st\<lparr>rs_task := Cancelled\<rparr>)"

text \<open>One turn of \<open>_heartbeat_loop\<close> after its sleep; a cancelled task takes none.\<close>

definition heartbeat_turn ::
    "'n network \<Rightarrow> int \<Rightarrow> runtime \<Rightarrow> runtime_state \<Rightarrow> 'n world \<Rightarrow> runtime_state \<times> 'n world" where
  "heartbeat_turn net now rt st w =
     (if rs_task st \<noteq> Running then (st, w)
      else case register_or_heartbeat net now rt (rs_registered st) w of
          (ok, w1) \<Rightarrow> (st\<lparr>rs_registered := ok\<rparr>, w1))"

section \<open>Sequences of attempts\<close>

text \<open>
  The network state after sending one request \<open>k\<close> times, and what the next send yields.
\<close>

fun state_after :: "'n network \<Rightarrow> http_request \<Rightarrow> nat \<Rightarrow> 'n \<Rightarrow> 'n" where
  "state_after net rq 0 s = s"
| "state_after net rq (Suc k) s = state_after net rq k (snd (net_send net rq s))"

definition attempt_value :: "'n network \<Rightarrow> http_request \<Rightarrow> nat \<Rightarrow> 'n \<Rightarrow> json result" where
  "attempt_value net rq k s = response_value net (rq_url rq) (fst (net_send net rq (state_after net rq k s)))"

lemma attempt_value_Suc: "attempt_value net rq (Suc k) s = attempt_value net rq k (snd (net_send net rq s))"
  by (simp add: attempt_value_def)

lemma send_eq:
  "send net rq w = (attempt_value net rq 0 (w_net w),
     \<lparr>w_net = snd (net_send net rq (w_net w)), w_trace = w_trace w @ [Sent rq]\<rparr>)"
  by (simp add: send_def attempt_value_def split_beta)

text \<open>The effects of \<open>m\<close> attempts from attempt number \<open>k\<close>: a sleep between two, none at the end.\<close>

definition delay :: "pyfloat \<Rightarrow> nat \<Rightarrow> pyfloat" where
  "delay backoff k = (case backoff_delay backoff k of Inr d \<Rightarrow> d | Inl _ \<Rightarrow> Fin 0)"

fun attempts_effects :: "http_request \<Rightarrow> pyfloat \<Rightarrow> nat \<Rightarrow> nat \<Rightarrow> effect list" where
  "attempts_effects rq backoff k 0 = []"
| "attempts_effects rq backoff k (Suc m) =
     Sent rq # (if m = 0 then [] else Slept (delay backoff k) # attempts_effects rq backoff (Suc k) m)"

text \<open>Every delay the loop may need is a duration \<open>time.sleep\<close> accepts.\<close>

definition backoff_fine :: "pyfloat \<Rightarrow> int \<Rightarrow> bool" where
  "backoff_fine backoff retries \<longleftrightarrow>
     (\<forall>k. 1 \<le> k \<and> int k < retries \<longrightarrow>
        (case backoff_delay backoff k of Inl _ \<Rightarrow> False | Inr d \<Rightarrow> d \<noteq> NaN \<and> \<not> flt d (Fin 0) \<and> d \<noteq> PInf))"

lemma sleep_fine:
  assumes "backoff_fine backoff retries" "1 \<le> k" "int k < retries"
  shows "backoff_delay backoff k = Inr (delay backoff k)"
    "sleep (delay backoff k) w = (Inr (), w\<lparr>w_trace := w_trace w @ [Slept (delay backoff k)]\<rparr>)"
  using assms unfolding backoff_fine_def
  by (auto simp: delay_def sleep_def split: sum.splits dest!: spec [of _ k])

lemma route_attempts_success:
  assumes "backoff_fine backoff retries" "1 \<le> a" "int a + int n = retries + 1"
    and "k < n" "attempt_value net rq k (w_net w) = Inr j" "\<And>i. i < k \<Longrightarrow> \<exists>e. attempt_value net rq i (w_net w) = Inl e"
  shows "route_attempts net rq retries backoff n a le w =
     (Inr (Inr j), \<lparr>w_net = state_after net rq (Suc k) (w_net w),
        w_trace = w_trace w @ attempts_effects rq backoff a (Suc k)\<rparr>)"
  using assms
proof (induction n arbitrary: a k w le)
  case 0
  then show ?case by simp
next
  case (Suc n)
  show ?case
  proof (cases k)
    case 0
    then show ?thesis using Suc.prems by (simp add: send_eq)
  next
    case (Suc k')
    let ?w = "\<lparr>w_net = snd (net_send net rq (w_net w)), w_trace = w_trace w @ [Sent rq, Slept (delay backoff a)]\<rparr>"
    obtain e where e: "attempt_value net rq 0 (w_net w) = Inl e" using Suc.prems(6) [of 0] Suc by auto
    have a: "int a < retries" using Suc.prems Suc by simp
    have "route_attempts net rq retries backoff n (Suc a) (Some e) ?w =
        (Inr (Inr j), \<lparr>w_net = state_after net rq (Suc k') (w_net ?w),
          w_trace = w_trace ?w @ attempts_effects rq backoff (Suc a) (Suc k')\<rparr>)"
    proof (rule Suc.IH)
      show "backoff_fine backoff retries" by fact
      show "\<exists>e. attempt_value net rq i (w_net ?w) = Inl e" if "i < k'" for i
        using Suc.prems(6) [of "Suc i"] Suc that by (simp add: attempt_value_Suc)
    qed (use Suc.prems Suc in \<open>simp_all add: attempt_value_Suc\<close>)
    then show ?thesis using Suc e a by (simp add: send_eq sleep_fine [OF Suc.prems(1,2) a])
  qed
qed

lemma route_attempts_failure:
  assumes "backoff_fine backoff retries" "1 \<le> a" "int a + int n = retries + 1"
    and "\<And>i. i < n \<Longrightarrow> \<exists>e. attempt_value net rq i (w_net w) = Inl e"
  shows "route_attempts net rq retries backoff n a le w =
     (Inr (Inl (if n = 0 then le else Some (projl (attempt_value net rq (n - 1) (w_net w))))),
      \<lparr>w_net = state_after net rq n (w_net w), w_trace = w_trace w @ attempts_effects rq backoff a n\<rparr>)"
  using assms
proof (induction n arbitrary: a w le)
  case 0
  then show ?case by (cases w) simp
next
  case (Suc n)
  obtain e where e: "attempt_value net rq 0 (w_net w) = Inl e" using Suc.prems(4) [of 0] by auto
  let ?n = "snd (net_send net rq (w_net w))"
  have step: "\<exists>e. attempt_value net rq i ?n = Inl e" if "i < n" for i
    using Suc.prems(4) [of "Suc i"] that by (simp add: attempt_value_Suc)
  show ?case
  proof (cases "n = 0")
    case True
    then show ?thesis using e Suc.prems(3) by (simp add: send_eq)
  next
    case False
    then have a: "int a < retries" using Suc.prems(3) by simp
    let ?w = "\<lparr>w_net = ?n, w_trace = w_trace w @ [Sent rq, Slept (delay backoff a)]\<rparr>"
    have "route_attempts net rq retries backoff n (Suc a) (Some e) ?w =
        (Inr (Inl (if n = 0 then Some e else Some (projl (attempt_value net rq (n - 1) (w_net ?w))))),
         \<lparr>w_net = state_after net rq n (w_net ?w), w_trace = w_trace ?w @ attempts_effects rq backoff (Suc a) n\<rparr>)"
      by (rule Suc.IH) (use Suc.prems step in simp_all)
    moreover have "attempt_value net rq (n - 1) ?n = attempt_value net rq n (w_net w)"
      using False attempt_value_Suc [of net rq "n - 1"] by simp
    ultimately show ?thesis using False e a by (simp add: send_eq sleep_fine [OF Suc.prems(1,2) a])
  qed
qed

lemma default_backoff_fine: "backoff_fine default_route_backoff default_route_retries"
proof -
  have d: "backoff_delay default_route_backoff k = Inr (Fin (1 / 2 ^ (3 - k)))" if "k = 1 \<or> k = 2" for k
    using that by (auto simp: backoff_delay_def default_route_backoff_def float_of_int_def fl_eval)
  show ?thesis
    unfolding backoff_fine_def default_route_retries_def
  proof (intro allI impI)
    fix k :: nat assume "1 \<le> k \<and> int k < 3"
    then have "k = 1 \<or> k = 2" by auto
    from d [OF this] show "case backoff_delay default_route_backoff k of Inl _ \<Rightarrow> False
        | Inr d \<Rightarrow> d \<noteq> NaN \<and> \<not> flt d (Fin 0) \<and> d \<noteq> PInf" by simp
  qed
qed

end
