(* ===== verification/RuntimeSpec.thy ===== *)
theory RuntimeSpec
  imports Runtime RegistryApiSpec
begin

text \<open>
  The runtime against an arbitrary network, and against the registry of this repository:
  \<open>registry_send\<close> puts the endpoints of \<open>RegistryApi\<close> behind one base URL and leaves every
  other address to an arbitrary oracle, so that registration, discovery and the ledger
  blocks of the runtime can be followed into the registry's state.
\<close>

section \<open>The registry on the network\<close>

definition path_middle :: "string \<Rightarrow> string \<Rightarrow> string \<Rightarrow> string option" where
  "path_middle pre post s =
     (if starts_with pre s \<and> ends_with post s \<and> length pre + length post < length s
      then (let m = take (length s - length pre - length post) (drop (length pre) s)
            in if CHR ''/'' \<in> set m then None else Some m)
      else None)"

text \<open>The decorators of \<open>registry_service/main.py\<close>: method and path of each endpoint.\<close>

definition registry_route :: "http_request \<Rightarrow> string \<Rightarrow> registry_request option" where
  "registry_route rq p =
     (let body = (case rq_body rq of None \<Rightarrow> JNull | Some j \<Rightarrow> j) in
      if rq_method rq = ''POST'' then
        (if p = ''/registry/peers'' then Some (PostPeer body)
         else if p = ''/ledger/blocks'' then Some (PostBlock body)
         else map_option (\<lambda>k. PostHeartbeat k body) (path_middle ''/registry/peers/'' ''/heartbeat'' p))
      else if rq_method rq = ''GET'' then
        (if p = ''/health'' then Some GetHealth
         else if p = ''/registry/peers'' then Some GetPeers
         else if p = ''/ledger/blocks'' then Some GetBlocks
         else if p = ''/ledger/verify'' then Some GetVerify
         else case path_middle ''/registry/capabilities/'' '''' p of
             Some c \<Rightarrow> Some (GetCapability c)
           | None \<Rightarrow> map_option GetPeer (path_middle ''/registry/peers/'' '''' p))
      else None)"

definition reply_of :: "nat \<Rightarrow> json result \<Rightarrow> reply" where
  "reply_of success r = (case r of Inr j \<Rightarrow> Reply success (JsonBody j)
     | Inl (HTTPException n m) \<Rightarrow> Reply n (JsonBody (JObj [(''detail'', JStr m)]))
     | Inl e \<Rightarrow> Reply 500 (BadBody ''Internal Server Error''))"

text \<open>\<open>clks k i\<close> is the i-th clock reading of the k-th request the registry serves.\<close>

type_synonym 'm registry_net = "registry_app \<times> nat \<times> 'm"

definition registry_send ::
    "int \<Rightarrow> string \<Rightarrow> (nat \<Rightarrow> nat \<Rightarrow> int) \<Rightarrow> (http_request \<Rightarrow> 'm \<Rightarrow> reply \<times> 'm) \<Rightarrow>
       http_request \<Rightarrow> 'm registry_net \<Rightarrow> reply \<times> 'm registry_net" where
  "registry_send interval base clks other rq s =
     (case s of (app, k, m) \<Rightarrow>
        if starts_with base (rq_url rq) then
          (case registry_route rq (drop (length base) (rq_url rq)) of
             None \<Rightarrow> (Reply 404 (JsonBody (JObj [(''detail'', JStr ''Not Found'')])), (app, Suc k, m))
           | Some req \<Rightarrow> (case serve interval (clks k) req app of (r, app') \<Rightarrow> (reply_of (success_status req) r, (app', Suc k, m))))
        else (case other rq m of (r, m') \<Rightarrow> (r, (app, k, m'))))"

definition registry_network ::
    "int \<Rightarrow> string \<Rightarrow> (nat \<Rightarrow> nat \<Rightarrow> int) \<Rightarrow> (http_request \<Rightarrow> 'm \<Rightarrow> reply \<times> 'm) \<Rightarrow> (nat \<Rightarrow> string \<Rightarrow> string) \<Rightarrow>
       'm registry_net network" where
  "registry_network interval base clks other status_text =
     \<lparr>net_send = registry_send interval base clks other, net_status_text = status_text\<rparr>"

lemma starts_with_append [simp]: "starts_with p (p @ s)"
  by (simp add: starts_with_def)

lemma route_static [simp]:
  "registry_route \<lparr>rq_method = ''POST'', rq_url = u, rq_body = b\<rparr> ''/registry/peers'' =
     Some (PostPeer (case b of None \<Rightarrow> JNull | Some j \<Rightarrow> j))"
  "registry_route \<lparr>rq_method = ''POST'', rq_url = u, rq_body = b\<rparr> ''/ledger/blocks'' =
     Some (PostBlock (case b of None \<Rightarrow> JNull | Some j \<Rightarrow> j))"
  by (simp_all add: registry_route_def Let_def)

lemma path_middle_hit:
  "m \<noteq> [] \<Longrightarrow> CHR ''/'' \<notin> set m \<Longrightarrow> path_middle pre post (pre @ m @ post) = Some m"
  by (simp add: path_middle_def Let_def ends_with_def)

lemma route_heartbeat [simp]:
  assumes "k \<noteq> []" "CHR ''/'' \<notin> set k"
  shows "registry_route \<lparr>rq_method = ''POST'', rq_url = u, rq_body = b\<rparr> (''/registry/peers/'' @ k @ ''/heartbeat'') =
     Some (PostHeartbeat k (case b of None \<Rightarrow> JNull | Some j \<Rightarrow> j))"
  using path_middle_hit [OF assms, of "''/registry/peers/''" "''/heartbeat''"] by (simp add: registry_route_def Let_def)

lemma route_capability [simp]:
  assumes "c \<noteq> []" "CHR ''/'' \<notin> set c"
  shows "registry_route \<lparr>rq_method = ''GET'', rq_url = u, rq_body = b\<rparr> (''/registry/capabilities/'' @ c) =
     Some (GetCapability c)"
  using path_middle_hit [OF assms, of "''/registry/capabilities/''" "''''"] by (simp add: registry_route_def Let_def)

lemma registry_send_served:
  assumes "registry_route \<lparr>rq_method = meth, rq_url = base @ p, rq_body = b\<rparr> p = Some req"
  shows "registry_send interval base clks other \<lparr>rq_method = meth, rq_url = base @ p, rq_body = b\<rparr> (app, k, m) =
     (reply_of (success_status req) (fst (serve interval (clks k) req app)), (snd (serve interval (clks k) req app), Suc k, m))"
  using assms by (simp add: registry_send_def split_beta)

lemma registry_send_other:
  assumes "\<not> starts_with base (rq_url rq)"
  shows "registry_send interval base clks other rq (app, k, m) =
     (fst (other rq m), (app, k, snd (other rq m)))"
  using assms by (simp add: registry_send_def split_beta)

section \<open>Routing\<close>

definition demo_settings :: service_settings where
  "demo_settings = \<lparr>ss_service_name = ''aws_ingestion'', ss_app_env = ''local'', ss_service_port = 8001,
     ss_service_host = ''0.0.0.0'', ss_base_url = ''http://a:1'', ss_registry_url = ''http://r:8'',
     ss_ledger_url = ''http://r:8'', ss_mqtt_broker_url = '''', ss_storage_backend = ''memory'', ss_data_dir = ''d'',
     ss_heartbeat_interval_seconds = 15, ss_request_timeout_seconds = Fin (5 / 2),
     ss_enable_runtime = True, ss_debug = False\<rparr>"

definition demo_runtime :: runtime where
  "demo_runtime = \<lparr>rt_settings = demo_settings, rt_node_id = ''aws-ingestion-01'', rt_node_type = ''ingestion'',
     rt_cloud = ''aws'', rt_capabilities = [''ingest_market_data''], rt_metadata = []\<rparr>"

lemma demo_runtime_simps [simp]:
  "str_between 3 128 (rt_node_id demo_runtime)" "rt_enabled demo_runtime"
  by (simp_all add: demo_runtime_def str_between_def rt_enabled_def demo_settings_def)

definition demo_world :: "unit world" where
  "demo_world = \<lparr>w_net = (), w_trace = []\<rparr>"

definition live_network :: "unit network" where
  "live_network = \<lparr>net_send = (\<lambda>rq n. (Reply 200 EmptyBody, n)), net_status_text = (\<lambda>n u. '''')\<rparr>"

lemma live_attempt [simp]: "attempt_value live_network rq i s = Inr JNull"
  by (simp add: attempt_value_def live_network_def response_value_def)

definition route_request :: "peer_registration \<Rightarrow> string \<Rightarrow> json option \<Rightarrow> http_request" where
  "route_request peer p payload = \<lparr>rq_method = ''POST'', rq_url = pr_base_url peer @ p, rq_body = payload\<rparr>"

lemma route_start:
  "route_with_retries net rt peer p payload et ctx retries backoff w =
     (case route_attempts net (route_request peer p payload) retries backoff (nat retries) 1 None w of
        (Inl err, w1) \<Rightarrow> (Inl err, w1)
      | (Inr (Inr body), w1) \<Rightarrow> (Inr (body, None), w1)
      | (Inr (Inl last_exc), w1) \<Rightarrow>
          (case mk_ledger_request ''routing_failed'' (rt_node_id rt)
                  (failure_context ctx peer (pr_base_url peer @ p) et retries last_exc) of
             Inl e \<Rightarrow> (Inr (JNull, last_exc), w1)
           | Inr r \<Rightarrow> (Inr (JNull, last_exc), snd (append_ledger net rt r w1))))"
  by (simp add: route_with_retries_def route_request_def Let_def)

definition dead_network :: "unit network" where
  "dead_network = \<lparr>net_send = (\<lambda>rq n. (NoReply ''timed out'', n)), net_status_text = (\<lambda>n u. '''')\<rparr>"

lemma dead_attempt [simp]: "attempt_value dead_network rq i s = Inl (HttpxError ''timed out'')"
  by (simp add: attempt_value_def dead_network_def response_value_def)

lemma route_delivers_eq:
  assumes "backoff_fine backoff retries" "int k < retries"
    and "attempt_value net (route_request peer p payload) k (w_net w) = Inr body"
    and "\<forall>i < k. \<exists>e. attempt_value net (route_request peer p payload) i (w_net w) = Inl e"
  shows "route_with_retries net rt peer p payload et ctx retries backoff w =
     (Inr (body, None),
      \<lparr>w_net = state_after net (route_request peer p payload) (Suc k) (w_net w),
       w_trace = w_trace w @ attempts_effects (route_request peer p payload) backoff 1 (Suc k)\<rparr>)"
proof -
  have "route_attempts net (route_request peer p payload) retries backoff (nat retries) 1 None w =
      (Inr (Inr body), \<lparr>w_net = state_after net (route_request peer p payload) (Suc k) (w_net w),
        w_trace = w_trace w @ attempts_effects (route_request peer p payload) backoff 1 (Suc k)\<rparr>)"
    using assms by (intro route_attempts_success) auto
  then show ?thesis by (simp add: route_start)
qed



definition failure_request ::
    "runtime \<Rightarrow> peer_registration \<Rightarrow> string \<Rightarrow> string \<Rightarrow> (string, json) dict \<Rightarrow> int \<Rightarrow> py_exc \<Rightarrow> ledger_request" where
  "failure_request rt peer p et ctx retries e =
     \<lparr>lr_event_type = ''routing_failed'', lr_actor_node = rt_node_id rt,
      lr_payload = failure_context ctx peer (pr_base_url peer @ p) et retries (Some e)\<rparr>"

lemma routing_failed_ok [simp]: "str_between 3 128 ''routing_failed''"
  by (simp add: str_between_def)

lemma route_failure_audited_eq:
  assumes "backoff_fine backoff retries" "0 < retries" "str_between 3 128 (rt_node_id rt)"
    and "\<forall>i < nat retries. \<exists>e. attempt_value net (route_request peer p payload) i (w_net w) = Inl e"
  shows "\<exists>e. attempt_value net (route_request peer p payload) (nat retries - 1) (w_net w) = Inl e \<and>
     route_with_retries net rt peer p payload et ctx retries backoff w =
       (Inr (JNull, Some e),
        snd (append_ledger net rt (failure_request rt peer p et ctx retries e)
          \<lparr>w_net = state_after net (route_request peer p payload) (nat retries) (w_net w),
           w_trace = w_trace w @ attempts_effects (route_request peer p payload) backoff 1 (nat retries)\<rparr>))"
proof -
  let ?rq = "route_request peer p payload"
  have pos: "nat retries - 1 < nat retries" using assms(2) by simp
  with assms(4) obtain e where e: "attempt_value net ?rq (nat retries - 1) (w_net w) = Inl e" by blast
  have "route_attempts net ?rq retries backoff (nat retries) 1 None w =
      (Inr (Inl (if nat retries = 0 then None else Some (projl (attempt_value net ?rq (nat retries - 1) (w_net w))))),
       \<lparr>w_net = state_after net ?rq (nat retries) (w_net w),
        w_trace = w_trace w @ attempts_effects ?rq backoff 1 (nat retries)\<rparr>)"
    using assms(1,2,4) by (intro route_attempts_failure) auto
  then show ?thesis
    using e assms(2,3) by (simp add: route_start mk_request_ok failure_request_def)
qed



lemma default_delays: "delay default_route_backoff 1 = Fin (1 / 4)" "delay default_route_backoff 2 = Fin (1 / 2)"
  by (simp_all add: delay_def backoff_delay_def default_route_backoff_def float_of_int_def fl_eval)

lemma default_attempts:
  "attempts_effects rq default_route_backoff (Suc 0) 3 =
     [Sent rq, Slept (Fin (1 / 4)), Sent rq, Slept (Fin (1 / 2)), Sent rq]"
  using default_delays by (simp add: numeral_3_eq_3 numeral_2_eq_2)

text \<open>
  A peer that never answers is given up after three requests and three quarters of a
  second of sleep: the trace of a call with the defaults, up to the ledger request.
\<close>

theorem default_route_gives_up:
  assumes "str_between 3 128 (rt_node_id rt)" "rt_enabled rt"
  shows "w_trace (snd (route_with_retries dead_network rt peer p payload et ctx
       default_route_retries default_route_backoff w)) =
     w_trace w @ [Sent (route_request peer p payload), Slept (Fin (1 / 4)),
       Sent (route_request peer p payload), Slept (Fin (1 / 2)),
       Sent (route_request peer p payload),
       Sent \<lparr>rq_method = ''POST'', rq_url = ss_ledger_url (rt_settings rt) @ ''/ledger/blocks'',
         rq_body = Some (dump_ledger_request (failure_request rt peer p et ctx 3 (HttpxError ''timed out'')))\<rparr>]"
  using route_failure_audited_eq [OF default_backoff_fine _ assms(1), of dead_network peer p payload w et ctx] assms(2)
  by (auto simp: default_route_retries_def append_ledger_def request_json_def send_def split_beta
      default_attempts split: sum.splits)

theorem default_route_gives_up_witness:
  "length (w_trace (snd (route_with_retries dead_network demo_runtime demo_peer ''/x'' None ''routed'' []
      default_route_retries default_route_backoff demo_world))) = 6"
  using default_route_gives_up [of demo_runtime demo_peer "''/x''" None "''routed''" "[]" demo_world]
  by (simp add: demo_world_def)

text \<open>
  With no attempt allowed (\<open>retries\<close> zero or negative) nothing is sent to the peer, yet
  the result carries no exception: the caller cannot tell it from a delivery, although
  the failure is written to the ledger.
\<close>

theorem no_attempts_looks_delivered:
  assumes "retries \<le> 0" "str_between 3 128 (rt_node_id rt)" "rt_enabled rt"
  shows "fst (route_with_retries net rt peer p payload et ctx retries backoff w) = Inr (JNull, None) \<and>
     (\<exists>r. lr_event_type r = ''routing_failed'' \<and>
        w_trace (snd (route_with_retries net rt peer p payload et ctx retries backoff w)) =
          w_trace w @ [Sent \<lparr>rq_method = ''POST'', rq_url = ss_ledger_url (rt_settings rt) @ ''/ledger/blocks'',
            rq_body = Some (dump_ledger_request r)\<rparr>])"
  using assms
  by (auto simp: route_start mk_request_ok append_ledger_def request_json_def send_def split_beta
      split: sum.splits intro: exI [of _ "\<lparr>lr_event_type = ''routing_failed'', lr_actor_node = rt_node_id rt,
        lr_payload = failure_context ctx peer (pr_base_url peer @ p) et retries None\<rparr>"])

theorem no_attempts_looks_delivered_witness:
  "fst (route_with_retries dead_network demo_runtime demo_peer ''/x'' None ''routed'' [] 0
      default_route_backoff demo_world) = Inr (JNull, None)"
  by (rule conjunct1 [OF no_attempts_looks_delivered]) simp_all

section \<open>The runtime against the registry\<close>

lemma send_registry:
  assumes "registry_route \<lparr>rq_method = meth, rq_url = base @ p, rq_body = b\<rparr> p = Some req"
    and "w_net w = (app, k, m)"
  shows "net_send (registry_network interval base clks other status_text)
       \<lparr>rq_method = meth, rq_url = base @ p, rq_body = b\<rparr> (w_net w) =
     (reply_of (success_status req) (fst (serve interval (clks k) req app)), (snd (serve interval (clks k) req app), Suc k, m))"
  using registry_send_served [OF assms(1)] assms(2) by (simp add: registry_network_def)

lemma runtime_block_reaches_ledger_eq:
  assumes "rt_enabled rt" "ledger_request_ok r" "w_net w = (app, k, m)"
    and "net = registry_network interval (ss_ledger_url (rt_settings rt)) clks other status_text"
    and "w_net (snd (append_ledger net rt r w)) = (app', k', m')"
  shows "ledger_entries (app_store app') = ledger_entries (app_store app) @ [request_entry r] \<and>
     rg_peers (app_store app') = rg_peers (app_store app) \<and> m' = m"
proof -
  let ?rq = "\<lparr>rq_method = ''POST'', rq_url = ss_ledger_url (rt_settings rt) @ ''/ledger/blocks'',
    rq_body = Some (dump_ledger_request r)\<rparr>"
  have "net_send net ?rq (w_net w) =
      (reply_of 201 (fst (serve interval (clks k) (PostBlock (dump_ledger_request r)) app)),
       (snd (serve interval (clks k) (PostBlock (dump_ledger_request r)) app), Suc k, m))"
    unfolding assms(4) using send_registry [where req = "PostBlock (dump_ledger_request r)", OF _ assms(3)] by simp
  then show ?thesis
    using assms(1,2,5) validate_dump_ledger_request [OF assms(2)]
    by (auto simp: append_ledger_def request_json_def send_def registry_log.entries_append split_beta split: sum.splits)
qed

text \<open>
  A block the runtime appends reaches the registry of this repository: the ledger gains
  exactly the entry of the request (event, actor, hash of the payload) and the peers stay
  as they are.
\<close>

theorem runtime_block_reaches_ledger:
  assumes "rt_enabled rt" "ledger_request_ok r" "w_net w = (app, k, m)"
    and "net = registry_network interval (ss_ledger_url (rt_settings rt)) clks other status_text"
    and "w_net (snd (append_ledger net rt r w)) = (app', k', m')"
  shows "ledger_entries (app_store app') = ledger_entries (app_store app) @ [request_entry r] \<and>
     rg_peers (app_store app') = rg_peers (app_store app) \<and> m' = m"
  using assms by (rule runtime_block_reaches_ledger_eq)

definition demo_registry_world :: "unit registry_net world" where
  "demo_registry_world = \<lparr>w_net = (demo_app, 0, ()), w_trace = []\<rparr>"

definition demo_registry_network :: "unit registry_net network" where
  "demo_registry_network = registry_network 60 ''http://r:8'' (\<lambda>k i. 5 + int k) (\<lambda>rq m. (NoReply '''', m)) (\<lambda>n u. '''')"

theorem runtime_block_reaches_ledger_witness:
  "\<exists>app' k' m'. w_net (snd (append_ledger demo_registry_network demo_runtime demo_request demo_registry_world)) =
     (app', k', m') \<and> length (rg_ledger (app_store app')) = 2"
proof -
  obtain app' k' m' where w: "w_net (snd (append_ledger demo_registry_network demo_runtime demo_request demo_registry_world)) = (app', k', m')"
    by (metis prod_cases3)
  have "ledger_entries (app_store app') = ledger_entries (app_store demo_app) @ [request_entry demo_request]"
    using runtime_block_reaches_ledger [OF _ _ _ _ w, of demo_app 0 "()" 60 "\<lambda>k i. 5 + int k"
        "\<lambda>rq m. (NoReply '''', m)" "\<lambda>n u. ''''"]
    by (simp add: demo_registry_world_def demo_registry_network_def demo_runtime_def demo_settings_def rt_enabled_def)
  then have "length (ledger_entries (app_store app')) = Suc (length (ledger_entries (app_store demo_app)))" by simp
  then show ?thesis using w by (simp add: ledger_entries_def demo_app_def)
qed

text \<open>What the registry answers to the two registration requests.\<close>

lemma serve_heartbeat_unknown:
  assumes "map_of (rg_peers (app_store app)) k = None"
  shows "serve interval clk (PostHeartbeat k (JObj [])) app = (Inl peer_not_found, app)"
  using assms by (simp add: validate_heartbeat_def reader_simps peer_heartbeat_ep_def heartbeat_def map_outcome_def)

lemma registration_fields:
  assumes "runtime_registration now rt = Inr p"
  shows "pr_node_id p = rt_node_id rt" "pr_capabilities p = rt_capabilities rt"
    "pr_base_url p = ss_base_url (rt_settings rt)" "peer_ok p"
  using assms by (auto simp: runtime_registration_def Let_def split: if_splits)

text \<open>
  C12. A peer recovers by itself from a registry that has forgotten it: the next heartbeat
  is answered 404 and changes nothing but the peer's own flag, and the one after that
  registers it again, online, with its address and capabilities.
\<close>

theorem registration_self_heals:
  assumes "w_net w = (app, k, m)" "map_of (rg_peers (app_store app)) (rt_node_id rt) = None"
    and "CHR ''/'' \<notin> set (rt_node_id rt)" "runtime_registration now' rt = Inr p"
    and "net = registry_network interval (ss_registry_url (rt_settings rt)) clks other status_text"
    and "register_or_heartbeat net now rt True w = (ok, w')"
    and "register_or_heartbeat net now' rt ok w' = (ok', w'')" "w_net w'' = (app'', k'', m'')"
  shows "\<not> ok \<and> fst (w_net w') = app \<and> ok' \<and>
     map_of (rg_peers (app_store app'')) =
       (map_of (rg_peers (app_store app)))(rt_node_id rt \<mapsto> p\<lparr>pr_last_heartbeat := utc_now (clks (Suc k) 1)\<rparr>)"
proof -
  note reg = registration_fields [OF assms(4)]
  then have "3 \<le> length (rt_node_id rt)" by (auto simp: peer_ok_def str_between_def)
  then have ne: "rt_node_id rt \<noteq> []" by auto
  let ?base = "ss_registry_url (rt_settings rt)"
  let ?hb = "\<lparr>rq_method = ''POST'', rq_url = ?base @ ''/registry/peers/'' @ rt_node_id rt @ ''/heartbeat'',
      rq_body = Some (JObj [])\<rparr>"
  have "net_send net ?hb (w_net w) = (reply_of 200 (Inl peer_not_found), (app, Suc k, m))"
    using send_registry [OF route_heartbeat [OF ne assms(3), of _ "Some (JObj [])"] assms(1),
        where interval = interval and clks = clks and other = other and status_text = status_text]
      serve_heartbeat_unknown [OF assms(2)] by (simp add: assms(5))
  then have first: "\<not> ok" "w_net w' = (app, Suc k, m)"
    using assms(6) by (auto simp: register_or_heartbeat_def send_status_def reply_of_def peer_not_found_def reply_ok_def)
  let ?reg = "\<lparr>rq_method = ''POST'', rq_url = ?base @ ''/registry/peers'', rq_body = Some (dump_peer p)\<rparr>"
  let ?s = "serve interval (clks (Suc k)) (PostPeer (dump_peer p)) app"
  have snd_reg: "net_send net ?reg (w_net w') = (reply_of 201 (fst ?s), (snd ?s, Suc (Suc k), m))"
    using send_registry [OF route_static(1) first(2), where interval = interval and clks = clks and other = other
        and status_text = status_text] by (simp add: assms(5))
  have val: "validate_peer (utc_now (clks (Suc k) 0)) (dump_peer p) = Some p"
    using validate_dump_peer reg(4) by blast
  note ep = register_endpoint_eq [where clk = "clks (Suc k)" and interval = interval and app = app, OF val]
  have "ok'" using snd_reg assms(4,7) first(1) ep
    by (auto simp: register_or_heartbeat_def send_status_def reply_of_def reply_ok_def split_beta)
  moreover have "app'' = snd ?s"
    using snd_reg assms(4,7,8) first(1) by (auto simp: register_or_heartbeat_def send_status_def split_beta)
  moreover have "pr_status p = Online"
    using assms(4) by (auto simp: runtime_registration_def Let_def split: if_splits)
  then have "p\<lparr>pr_status := Online, pr_last_heartbeat := t\<rparr> = p\<lparr>pr_last_heartbeat := t\<rparr>" for t by (cases p) simp
  ultimately show ?thesis using first ep reg(1) by simp
qed

definition empty_world :: "unit registry_net world" where
  "empty_world = \<lparr>w_net = (demo_app\<lparr>app_store := registry_init None\<rparr>, 0, ()), w_trace = []\<rparr>"

theorem registration_self_heals_witness:
  "\<exists>ok w' ok' w''. register_or_heartbeat demo_registry_network 4 demo_runtime True empty_world = (ok, w') \<and> \<not> ok \<and>
     register_or_heartbeat demo_registry_network 20 demo_runtime ok w' = (ok', w'') \<and> ok'"
proof -
  obtain ok w' where 1: "register_or_heartbeat demo_registry_network 4 demo_runtime True empty_world = (ok, w')"
    by (metis surj_pair)
  obtain ok' w'' where 2: "register_or_heartbeat demo_registry_network 20 demo_runtime ok w' = (ok', w'')"
    by (metis surj_pair)
  obtain app'' k'' m'' where 3: "w_net w'' = (app'', k'', m'')" by (metis prod_cases3)
  obtain p where p: "runtime_registration 20 demo_runtime = Inr p"
    by (simp add: runtime_registration_def demo_runtime_def demo_settings_def peer_ok_def str_between_def cloud_names_def)
  show ?thesis
    using registration_self_heals [OF _ _ _ p _ 1 2 3, of "demo_app\<lparr>app_store := registry_init None\<rparr>" 0 "()" 60
        "\<lambda>k i. 5 + int k" "\<lambda>rq m. (NoReply '''', m)" "\<lambda>n u. ''''"] 1 2
    by (auto simp: empty_world_def demo_registry_network_def demo_runtime_def demo_settings_def registry_init_def)
qed

lemma fresh_ok: "list_all peer_ok ps \<Longrightarrow> fresh_all clk i ps = Inr qs \<Longrightarrow> list_all peer_ok qs"
proof -
  assume ok: "list_all peer_ok ps" and f: "fresh_all clk i ps = Inr qs"
  have "peer_ok (qs ! j)" if "j < length qs" for j
    using that ok fresh_all_nth [OF f] by (simp add: fresh_def list_all_length)
  then show ?thesis by (simp add: list_all_length)
qed

lemma validate_dumped: "list_all peer_ok ps \<Longrightarrow>
    mapR (\<lambda>i. validated n (validate_peer t i)) (map dump_peer ps) = Inr ps"
  by (induction ps) (simp_all add: validate_dump_peer)

lemma fresh_error: "fresh_all clk i ps = Inl e \<Longrightarrow> e = ValueError ''Invalid isoformat string''"
  using fresh_all_unreadable [of ps clk i] fresh_all_readable [of ps clk i] by (cases "list_all readable ps") auto

text \<open>
  Discovery: the runtime of a peer gets from the registry exactly the peers the
  registry lists for the capability, through JSON and back; if the registry cannot list
  them (one peer has a heartbeat it cannot parse) the peer silently sees none at all.
\<close>

theorem discovery_returns_listed_peers:
  assumes "w_net w = (app, k, m)" "registry_inv (app_store app)" "rt_enabled rt"
    and "c \<noteq> []" "CHR ''/'' \<notin> set c"
    and "net = registry_network interval (ss_registry_url (rt_settings rt)) clks other status_text"
  shows "fst (peers_by_capability net now rt c w) =
     (case peers_with_capability (clks k) c (app_store app) of Inl e \<Rightarrow> Inr [] | Inr qs \<Rightarrow> Inr qs)"
proof -
  let ?rq = "\<lparr>rq_method = ''GET'', rq_url = ss_registry_url (rt_settings rt) @ ''/registry/capabilities/'' @ c, rq_body = None\<rparr>"
  let ?r = "peers_with_capability (clks k) c (app_store app)"
  have s: "net_send net ?rq (w_net w) =
      (reply_of 200 (bindR ?r (\<lambda>ps. Inr (JList (map dump_peer ps)))), (app, Suc k, m))"
    using send_registry [OF route_capability [OF assms(4,5)] assms(1), where interval = interval and clks = clks
        and other = other and status_text = status_text] by (simp add: assms(6))
  show ?thesis
  proof (cases ?r)
    case (Inl e)
    then have "e = ValueError ''Invalid isoformat string''"
      using fresh_error unfolding peers_with_capability_def by blast
    then have "\<exists>e. fst (send net ?rq w) = Inl e"
      using Inl s by (simp add: send_def reply_of_def response_value_def)
    then show ?thesis
      using Inl assms(3) by (auto simp: peers_by_capability_def request_json_def split_beta split: sum.splits)
  next
    case (Inr qs)
    have "list_all peer_ok (dict_values (rg_peers (app_store app)))"
      using assms(2) by (auto simp: registry_inv_def keyed_peers_def dict_values_def list_all_iff)
    then have "list_all peer_ok (filter (\<lambda>p. c \<in> set (pr_capabilities p)) (dict_values (rg_peers (app_store app))))"
      by (simp add: list_all_iff)
    then have "list_all peer_ok qs"
      using fresh_ok Inr unfolding peers_with_capability_def by blast
    then have "mapR (\<lambda>i. validated ''PeerRegistration'' (validate_peer (utc_now now) i)) (map dump_peer qs) = Inr qs"
      by (rule validate_dumped)
    moreover have "fst (send net ?rq w) = Inr (JList (map dump_peer qs))"
      using Inr s by (simp add: send_def reply_of_def response_value_def)
    ultimately show ?thesis
      using Inr assms(3) by (simp add: peers_by_capability_def request_json_def split_beta split: sum.splits)
  qed
qed

theorem discovery_returns_listed_peers_witness:
  "fst (peers_by_capability demo_registry_network 9 demo_runtime ''ingest_market_data'' demo_registry_world) =
     (case peers_with_capability (\<lambda>i. 5) ''ingest_market_data'' (demo_registry None) of
        Inl e \<Rightarrow> Inr [] | Inr qs \<Rightarrow> Inr qs)"
  using discovery_returns_listed_peers [of demo_registry_world demo_app 0 "()" demo_runtime "''ingest_market_data''"
      demo_registry_network 60 "\<lambda>k i. 5 + int k" "\<lambda>rq m. (NoReply '''', m)" "\<lambda>n u. ''''" 9] demo_app_inv
  by (simp add: demo_registry_world_def demo_registry_network_def demo_runtime_def demo_settings_def rt_enabled_def demo_app_def)

end
