(* ===== verification/Ingestion.thy ===== *)
theory Ingestion
  imports Runtime
begin

text \<open>
  \<open>aws_ingestion/service.py\<close> and \<open>aws_ingestion/main.py\<close>: normalizing sensor messages into
  market events, keeping both, and routing every event to the peers that declare a
  capability for it.

  The service's two callbacks (the ledger appender and the router) act on a world of
  their own and may raise; the record holds the rest of the service's state, its disk
  included. In production both callbacks are the runtime's (\<open>route_event\<close>, below).
\<close>

type_synonym 'w ledger_appender = "ledger_request \<Rightarrow> 'w \<Rightarrow> ('w, unit) outcome"

text \<open>\<open>shared/utils/ledger.py\<close>.\<close>

definition record_ledger_event ::
    "'w ledger_appender option \<Rightarrow> string \<Rightarrow> string \<Rightarrow> (string, json) dict \<Rightarrow> 'w \<Rightarrow> ('w, unit) outcome" where
  "record_ledger_event appender event_type actor_node payload w =
     (case appender of None \<Rightarrow> (Inr (), w)
      | Some f \<Rightarrow> (case mk_ledger_request event_type actor_node payload of
            Inl e \<Rightarrow> (Inl e, w) | Inr r \<Rightarrow> f r w))"

record ingestion =
  in_node_id :: string
  in_state_path :: "path option"
  in_raw_messages :: "sensor_message list"
  in_events :: "market_event list"
  in_last_message :: "(string, sensor_message) dict"
  in_forwarded_events :: int
  in_routing_failures :: int
  in_fs :: fs

section \<open>State file\<close>

definition ingestion_doc :: "ingestion \<Rightarrow> json" where
  "ingestion_doc st = JObj [
     (''raw_messages'', JList (map dump_message (in_raw_messages st))),
     (''events'', JList (map dump_event (in_events st)))]"

definition ingestion_save :: "ingestion \<Rightarrow> ingestion" where
  "ingestion_save st = st\<lparr>in_fs := save_json_file (in_state_path st) (ingestion_doc st) (in_fs st)\<rparr>"

definition last_by_symbol :: "sensor_message list \<Rightarrow> (string, sensor_message) dict" where
  "last_by_symbol ms = dict_of (map (\<lambda>m. (sm_symbol m, m)) ms)"

definition ingestion_load :: "pydantic \<Rightarrow> int \<Rightarrow> string \<Rightarrow> path option \<Rightarrow> fs \<Rightarrow> ingestion result" where
  "ingestion_load px now node_id state_path fs =
     bindR (load_json_file fs state_path (JObj [(''raw_messages'', JList []), (''events'', JList [])])) (\<lambda>payload.
     bindR (json_get payload ''raw_messages'' (JList [])) (\<lambda>raw.
     bindR (load_models ''MarketSensorMessage'' (validate_message px (utc_now now)) raw) (\<lambda>messages.
     bindR (json_get payload ''events'' (JList [])) (\<lambda>evs.
     bindR (load_models ''MarketEvent'' (validate_event px (utc_now now)) evs) (\<lambda>events.
     Inr \<lparr>in_node_id = node_id, in_state_path = state_path, in_raw_messages = messages, in_events = events,
       in_last_message = last_by_symbol messages, in_forwarded_events = 0, in_routing_failures = 0,
       in_fs = fs\<rparr>)))))"

section \<open>Normalization\<close>

text \<open>The guarded quotient \<open>(new - old) / old\<close>, zero when the old value is zero.\<close>

definition relative_change :: "pyfloat \<Rightarrow> pyfloat \<Rightarrow> pyfloat result" where
  "relative_change new old = (if ftruth old then fdiv (fsub new old) old else Inr (Fin 0))"

definition normalize :: "string \<Rightarrow> int \<Rightarrow> string \<Rightarrow> sensor_message option \<Rightarrow> sensor_message \<Rightarrow> market_event result" where
  "normalize uuid now node_id previous message =
     bindR (case previous of None \<Rightarrow> Inr (Fin 0, Fin 0)
       | Some old \<Rightarrow>
           bindR (relative_change (sm_price message) (sm_price old)) (\<lambda>price_change.
           bindR (relative_change (sm_volume message) (sm_volume old)) (\<lambda>volume_change.
           Inr (price_change, volume_change)))) (\<lambda>(price_change, volume_change).
     Inr \<lparr>ev_event_id = make_prefixed_id ''evt'' uuid,
       ev_symbol = sm_symbol message,
       ev_asset_class = sm_asset_class message,
       ev_price = round_nd 6 (sm_price message),
       ev_volume = round_nd 6 (sm_volume message),
       ev_source = node_id,
       ev_ingested_at = utc_now now,
       ev_window = [
         (''price_change_1m'', round_nd 6 price_change),
         (''volume_change_1m'', round_nd 6 volume_change),
         (''notional_value'', round_nd 6 (fmul (sm_price message) (sm_volume message)))]\<rparr>)"

definition event_payload :: "market_event \<Rightarrow> (string, json) dict" where
  "event_payload e = (case dump_event e of JObj d \<Rightarrow> d | _ \<Rightarrow> [])"

section \<open>Operations\<close>

definition forward_event ::
    "(market_event \<Rightarrow> 'w \<Rightarrow> ('w, unit) outcome) option \<Rightarrow> market_event \<Rightarrow> ingestion \<times> 'w \<Rightarrow> ingestion \<times> 'w" where
  "forward_event route event s =
     (case s of (st, w) \<Rightarrow>
        (case route of None \<Rightarrow> (st, w)
         | Some f \<Rightarrow> (case f event w of
               (Inr _, w1) \<Rightarrow> (st\<lparr>in_forwarded_events := in_forwarded_events st + 1\<rparr>, w1)
             | (Inl _, w1) \<Rightarrow> (st\<lparr>in_routing_failures := in_routing_failures st + 1\<rparr>, w1))))"

definition ingest_message ::
    "'w ledger_appender option \<Rightarrow> (market_event \<Rightarrow> 'w \<Rightarrow> ('w, unit) outcome) option \<Rightarrow> string \<Rightarrow> int \<Rightarrow>
       sensor_message \<Rightarrow> ingestion \<times> 'w \<Rightarrow> (ingestion \<times> 'w, market_event) outcome" where
  "ingest_message appender route uuid now message s =
     (case s of (st, w) \<Rightarrow>
        (case normalize uuid now (in_node_id st) (map_of (in_last_message st) (sm_symbol message)) message of
           Inl e \<Rightarrow> (Inl e, (st, w))
         | Inr event \<Rightarrow>
             let st1 = ingestion_save (st\<lparr>
                   in_raw_messages := in_raw_messages st @ [message],
                   in_events := in_events st @ [event],
                   in_last_message := dict_set (sm_symbol message) message (in_last_message st)\<rparr>)
             in case record_ledger_event appender ''market_event_ingested'' (in_node_id st1) (event_payload event) w of
                  (Inl e, w1) \<Rightarrow> (Inl e, (st1, w1))
                | (Inr _, w1) \<Rightarrow> (Inr event, forward_event route event (st1, w1))))"

definition store_normalized_event ::
    "'w ledger_appender option \<Rightarrow> market_event \<Rightarrow> ingestion \<times> 'w \<Rightarrow> (ingestion \<times> 'w, market_event) outcome" where
  "store_normalized_event appender event s =
     (case s of (st, w) \<Rightarrow>
        let st1 = ingestion_save (st\<lparr>in_events := in_events st @ [event]\<rparr>)
        in case record_ledger_event appender ''market_event_stored'' (in_node_id st1) (event_payload event) w of
             (Inl e, w1) \<Rightarrow> (Inl e, (st1, w1))
           | (Inr _, w1) \<Rightarrow> (Inr event, (st1, w1)))"

definition recent_events :: "int \<Rightarrow> ingestion \<Rightarrow> market_event list" where
  "recent_events limit st = slice_last limit (in_events st)"

definition ingestion_health :: "ingestion \<Rightarrow> json" where
  "ingestion_health st = JObj [
     (''status'', JStr ''ok''),
     (''service'', JStr ''aws_ingestion''),
     (''node_id'', JStr (in_node_id st)),
     (''raw_messages'', JInt (int (length (in_raw_messages st)))),
     (''normalized_events'', JInt (int (length (in_events st)))),
     (''forwarded_events'', JInt (in_forwarded_events st)),
     (''routing_failures'', JInt (in_routing_failures st))]"

text \<open>The endpoint's query parameter: 1 to 200, 20 if absent; outside FastAPI answers 422.\<close>

definition recent_events_ep :: "int option \<Rightarrow> ingestion \<Rightarrow> market_event list result" where
  "recent_events_ep limit st =
     (let n = (case limit of None \<Rightarrow> 20 | Some n \<Rightarrow> n)
      in if 1 \<le> n \<and> n \<le> 200 then Inr (recent_events n st)
         else Inl (HTTPException 422 ''Unprocessable Entity''))"

section \<open>Routing an event\<close>

definition event_context :: "market_event \<Rightarrow> (string, json) dict" where
  "event_context event = [(''event_id'', JStr (ev_event_id event)), (''symbol'', JStr (ev_symbol event))]"

definition aws_node :: string where
  "aws_node = ''aws-ingestion-01''"

fun route_to_peers ::
    "'n network \<Rightarrow> runtime \<Rightarrow> market_event \<Rightarrow> string \<Rightarrow> json option \<Rightarrow> string \<Rightarrow> peer_registration list \<Rightarrow> int \<Rightarrow>
       'n world \<Rightarrow> ('n world, int) outcome" where
  "route_to_peers net rt event p payload routed_event_type [] failures w = (Inr failures, w)"
| "route_to_peers net rt event p payload routed_event_type (peer # peers) failures w =
     bindS (route_with_retries net rt peer p payload routed_event_type (event_context event)
              default_route_retries default_route_backoff w) (\<lambda>(body, exc) w1.
       case exc of
         Some e \<Rightarrow> route_to_peers net rt event p payload routed_event_type peers (failures + 1) w1
       | None \<Rightarrow>
           (case mk_ledger_request routed_event_type aws_node
                   (event_context event @ [(''target_node'', JStr (pr_node_id peer))]) of
              Inl e \<Rightarrow> (Inl e, w1)
            | Inr r \<Rightarrow> route_to_peers net rt event p payload routed_event_type peers failures
                         (snd (append_ledger net rt r w1))))"

definition route_to_capability ::
    "'n network \<Rightarrow> int \<Rightarrow> runtime \<Rightarrow> market_event \<Rightarrow> string \<Rightarrow> string \<Rightarrow> json option \<Rightarrow> string \<Rightarrow>
       'n world \<Rightarrow> ('n world, int) outcome" where
  "route_to_capability net now rt event capability p payload routed_event_type w =
     bindS (peers_by_capability net now rt capability w) (\<lambda>peers w1.
       route_to_peers net rt event p payload routed_event_type peers 0 w1)"

text \<open>The third loop has no success block: only failures are recorded.\<close>

fun compute_peers ::
    "'n network \<Rightarrow> runtime \<Rightarrow> market_event \<Rightarrow> peer_registration list \<Rightarrow> int \<Rightarrow> 'n world \<Rightarrow> ('n world, int) outcome" where
  "compute_peers net rt event [] failures w = (Inr failures, w)"
| "compute_peers net rt event (peer # peers) failures w =
     bindS (route_with_retries net rt peer ''/risk/compute'' None ''event_routed_to_compute'' (event_context event)
              default_route_retries default_route_backoff w) (\<lambda>(body, exc) w1.
       compute_peers net rt event peers (if exc \<noteq> None then failures + 1 else failures) w1)"

definition route_event :: "'n network \<Rightarrow> int \<Rightarrow> runtime \<Rightarrow> market_event \<Rightarrow> 'n world \<Rightarrow> ('n world, unit) outcome" where
  "route_event net now rt event w =
     bindS (route_to_capability net now rt event ''detect_anomalies'' ''/anomaly/analyze''
              (Some (dump_event event)) ''event_routed_to_anomaly'' w) (\<lambda>f1 w1.
     bindS (route_to_capability net now rt event ''store_market_events'' ''/risk/events''
              (Some (dump_event event)) ''event_routed_to_risk'' w1) (\<lambda>f2 w2.
     bindS (peers_by_capability net now rt ''compute_risk'' w2) (\<lambda>peers w3.
     bindS (compute_peers net rt event peers 0 w3) (\<lambda>f3 w4.
       let failures = f1 + f2 + f3 in
       if failures \<noteq> 0
       then (Inl (RuntimeError (show_int failures @ '' downstream route(s) failed after retries'')), w4)
       else (Inr (), w4)))))"

definition aws_runtime :: "service_settings \<Rightarrow> runtime" where
  "aws_runtime settings = \<lparr>rt_settings = settings, rt_node_id = aws_node, rt_node_type = ''ingestion'',
     rt_cloud = ''aws'', rt_capabilities = [''ingest_market_data'', ''publish_events''], rt_metadata = []\<rparr>"

definition runtime_appender :: "'n network \<Rightarrow> runtime \<Rightarrow> 'n world ledger_appender option" where
  "runtime_appender net rt =
     (if rt_enabled rt then Some (\<lambda>r w. (Inr (), snd (append_ledger net rt r w))) else None)"

definition ingest_endpoint ::
    "'n network \<Rightarrow> service_settings \<Rightarrow> pydantic \<Rightarrow> string \<Rightarrow> int \<Rightarrow> json \<Rightarrow> ingestion \<times> 'n world \<Rightarrow>
       (ingestion \<times> 'n world, market_event) outcome" where
  "ingest_endpoint net settings px uuid now body s =
     (case validate_message px (utc_now now) body of
        None \<Rightarrow> (Inl (HTTPException 422 ''Unprocessable Entity''), s)
      | Some m \<Rightarrow> ingest_message (runtime_appender net (aws_runtime settings))
          (if rt_enabled (aws_runtime settings) then Some (route_event net now (aws_runtime settings)) else None)
          uuid now m s)"

definition store_endpoint ::
    "'n network \<Rightarrow> service_settings \<Rightarrow> pydantic \<Rightarrow> int \<Rightarrow> json \<Rightarrow> ingestion \<times> 'n world \<Rightarrow>
       (ingestion \<times> 'n world, market_event) outcome" where
  "store_endpoint net settings px now body s =
     (case validate_event px (utc_now now) body of
        None \<Rightarrow> (Inl (HTTPException 422 ''Unprocessable Entity''), s)
      | Some e \<Rightarrow> store_normalized_event (runtime_appender net (aws_runtime settings)) e s)"

end
