(* ===== verification/IngestionSpec.thy ===== *)
theory IngestionSpec
  imports Ingestion RuntimeSpec
begin

text \<open>
  What ingestion promises: the changes it computes compare a message with the latest one
  of its symbol, every message and event is kept and reloaded, an ingest never fails once
  the body is valid, and the outcome of routing is counted and, block by block, visible
  in the registry's ledger.
\<close>

section \<open>The latest message of a symbol\<close>

lemma dict_of_snoc: "dict_of (xs @ [(k, v)]) = dict_set k v (dict_of xs)"
  by (simp add: dict_of_def)

definition latest :: "string \<Rightarrow> sensor_message list \<Rightarrow> sensor_message option" where
  "latest s ms = (case filter (\<lambda>m. sm_symbol m = s) ms of [] \<Rightarrow> None | xs \<Rightarrow> Some (last xs))"

lemma latest_snoc: "latest s (ms @ [m]) = (if sm_symbol m = s then Some m else latest s ms)"
  by (cases "filter (\<lambda>m. sm_symbol m = s) ms") (auto simp: latest_def)

lemma last_by_symbol_snoc: "last_by_symbol (ms @ [m]) = dict_set (sm_symbol m) m (last_by_symbol ms)"
  by (simp add: last_by_symbol_def dict_of_snoc)

lemma last_by_symbol_latest: "map_of (last_by_symbol ms) s = latest s ms"
proof (induction ms rule: rev_induct)
  case Nil
  show ?case by (simp add: last_by_symbol_def dict_of_def latest_def)
next
  case (snoc m ms)
  then show ?case by (simp add: last_by_symbol_snoc latest_snoc)
qed

section \<open>Arithmetic of an event\<close>

definition change :: "pyfloat \<Rightarrow> pyfloat \<Rightarrow> pyfloat" where
  "change new old = (if old = Fin 0 then Fin 0 else fdiv_nonzero (fsub new old) old)"

lemma relative_change_eq: "relative_change new old = Inr (change new old)"
  by (simp add: relative_change_def change_def ftruth_def fdiv_def)

definition normalized :: "string \<Rightarrow> int \<Rightarrow> string \<Rightarrow> sensor_message option \<Rightarrow> sensor_message \<Rightarrow> market_event" where
  "normalized uuid now node_id previous m =
     \<lparr>ev_event_id = ''evt_'' @ take 12 uuid, ev_symbol = sm_symbol m, ev_asset_class = sm_asset_class m,
      ev_price = round_nd 6 (sm_price m), ev_volume = round_nd 6 (sm_volume m), ev_source = node_id,
      ev_ingested_at = utc_now now,
      ev_window = [
        (''price_change_1m'', round_nd 6 (case previous of None \<Rightarrow> Fin 0 | Some old \<Rightarrow> change (sm_price m) (sm_price old))),
        (''volume_change_1m'', round_nd 6 (case previous of None \<Rightarrow> Fin 0 | Some old \<Rightarrow> change (sm_volume m) (sm_volume old))),
        (''notional_value'', round_nd 6 (fmul (sm_price m) (sm_volume m)))]\<rparr>"

lemma normalize_eq: "normalize uuid now node_id previous m = Inr (normalized uuid now node_id previous m)"
  by (cases previous) (simp_all add: normalize_def normalized_def relative_change_eq make_prefixed_id_def)

section \<open>Invariant\<close>

definition ingestion_saved :: "ingestion \<Rightarrow> bool" where
  "ingestion_saved st \<longleftrightarrow> (case in_state_path st of None \<Rightarrow> True
     | Some p \<Rightarrow> in_fs st p = Some (JsonFile (ingestion_doc st)) \<or>
         (in_fs st p = None \<and> in_raw_messages st = [] \<and> in_events st = []))"

definition ingestion_inv :: "ingestion \<Rightarrow> bool" where
  "ingestion_inv st \<longleftrightarrow> in_last_message st = last_by_symbol (in_raw_messages st) \<and>
     list_all message_ok (in_raw_messages st) \<and> ingestion_saved st"

lemma ingestion_save_simps [simp]:
  "in_node_id (ingestion_save st) = in_node_id st" "in_state_path (ingestion_save st) = in_state_path st"
  "in_raw_messages (ingestion_save st) = in_raw_messages st" "in_events (ingestion_save st) = in_events st"
  "in_last_message (ingestion_save st) = in_last_message st"
  "in_forwarded_events (ingestion_save st) = in_forwarded_events st"
  "in_routing_failures (ingestion_save st) = in_routing_failures st"
  by (simp_all add: ingestion_save_def)

lemma ingestion_saved_save [simp]: "ingestion_saved (ingestion_save st)"
  by (simp add: ingestion_saved_def ingestion_save_def save_json_file_def ingestion_doc_def split: option.splits)

lemma ingestion_saved_counters [simp]:
  "ingestion_saved (st\<lparr>in_forwarded_events := n\<rparr>) = ingestion_saved st"
  "ingestion_saved (st\<lparr>in_routing_failures := n\<rparr>) = ingestion_saved st"
  by (cases "in_state_path st"; simp add: ingestion_saved_def ingestion_doc_def)+

lemma forward_event_simps [simp]:
  "in_raw_messages (fst (forward_event route e s)) = in_raw_messages (fst s)"
  "in_events (fst (forward_event route e s)) = in_events (fst s)"
  "in_last_message (fst (forward_event route e s)) = in_last_message (fst s)"
  "in_node_id (fst (forward_event route e s)) = in_node_id (fst s)"
  "in_fs (fst (forward_event route e s)) = in_fs (fst s)"
  "in_state_path (fst (forward_event route e s)) = in_state_path (fst s)"
  "ingestion_saved (fst (forward_event route e s)) = ingestion_saved (fst s)"
  by (auto simp: forward_event_def split: prod.splits option.splits sum.splits)

lemma ingest_inv:
  assumes "ingestion_inv st" "message_ok m"
  shows "ingestion_inv (fst (snd (ingest_message appender route uuid now m (st, w))))"
  using assms
  by (auto simp: ingest_message_def normalize_eq Let_def ingestion_inv_def last_by_symbol_snoc
      split: sum.splits prod.splits)

lemma store_inv:
  "ingestion_inv st \<Longrightarrow> ingestion_inv (fst (snd (store_normalized_event appender e (st, w))))"
  by (auto simp: store_normalized_event_def Let_def ingestion_inv_def split: sum.splits prod.splits)

section \<open>Appenders that do not raise\<close>

text \<open>
  What the service relies on of its appender to answer every valid request: the call
  returns. The runtime's appender does, whatever the network answers.
\<close>

locale quiet_appender =
  fixes append :: "'w ledger_appender option"
  assumes quiet: "append = Some f \<Longrightarrow> fst (f r w) = Inr ()"
begin

lemma record_quiet:
  "str_between 3 128 e \<Longrightarrow> str_between 3 128 a \<Longrightarrow> fst (record_ledger_event append e a d w) = Inr ()"
  by (simp add: record_ledger_event_def mk_request_ok quiet split: option.splits)

lemma record_quiet_result:
  "record_ledger_event append e a d w = (r, w') \<Longrightarrow> str_between 3 128 e \<Longrightarrow> str_between 3 128 a \<Longrightarrow> r = Inr ()"
  using record_quiet [of e a d w] by simp

end

interpretation runtime_quiet: quiet_appender "runtime_appender net rt" for net rt
  by unfold_locales (auto simp: runtime_appender_def split: if_splits)

lemma ingestion_events_ok [simp]:
  "str_between 3 128 ''market_event_ingested''" "str_between 3 128 ''market_event_stored''"
  "str_between 3 128 ''event_routed_to_anomaly''" "str_between 3 128 ''event_routed_to_risk''"
  "str_between 3 128 aws_node"
  by (simp_all add: str_between_def aws_node_def)

text \<open>The state after an ingest, whatever the callbacks do.\<close>

context quiet_appender
begin

lemma ingest_result:
  assumes "str_between 3 128 (in_node_id st)"
  shows "fst (ingest_message append route uuid now m (st, w)) =
     Inr (normalized uuid now (in_node_id st) (map_of (in_last_message st) (sm_symbol m)) m)"
  using assms
  by (auto simp: ingest_message_def normalize_eq Let_def split: sum.splits prod.splits
      dest!: record_quiet_result)

end


section \<open>Ingesting a message\<close>

text \<open>
  C13. Normalization: an ingest answers with an event whose changes compare the message
  with the latest earlier message of the same symbol (zero without one, zero when the
  earlier value is zero), rounded to six places; restarts included, since the latest
  message is recovered from the stored ones.
\<close>

theorem ingest_compares_with_latest:
  assumes "ingestion_inv st" "quiet_appender appender" "str_between 3 128 (in_node_id st)"
  shows "\<exists>ev. fst (ingest_message appender route uuid now m (st, w)) = Inr ev \<and>
     ev_symbol ev = sm_symbol m \<and> ev_price ev = round_nd 6 (sm_price m) \<and> ev_volume ev = round_nd 6 (sm_volume m) \<and>
     map_of (ev_window ev) ''price_change_1m'' = Some (round_nd 6
       (case latest (sm_symbol m) (in_raw_messages st) of None \<Rightarrow> Fin 0
        | Some old \<Rightarrow> if sm_price old = Fin 0 then Fin 0
            else fdiv_nonzero (fsub (sm_price m) (sm_price old)) (sm_price old))) \<and>
     map_of (ev_window ev) ''volume_change_1m'' = Some (round_nd 6
       (case latest (sm_symbol m) (in_raw_messages st) of None \<Rightarrow> Fin 0
        | Some old \<Rightarrow> if sm_volume old = Fin 0 then Fin 0
            else fdiv_nonzero (fsub (sm_volume m) (sm_volume old)) (sm_volume old)))"
  using assms quiet_appender.ingest_result [OF assms(2,3), of route uuid now m w]
  by (auto simp: ingestion_inv_def last_by_symbol_latest normalized_def change_def split: option.splits)

text \<open>
  C14. Effects of an ingest with the runtime's appender: it succeeds; the message and the event are
  appended and saved, so the state file holds exactly the lists; the ledger is told of the event
  first, then the event is routed; and exactly one of the two counters moves, by one: forwarded
  events when the routing returned, routing failures when it raised.
\<close>

theorem ingest_keeps_and_counts:
  assumes "ingestion_inv st" "message_ok m" "str_between 3 128 (in_node_id st)"
    and "ingest_message (runtime_appender net rt) (Some route) uuid now m (st, w) = (r, (st', w'))"
  shows "\<exists>ev w1. r = Inr ev \<and> in_raw_messages st' = in_raw_messages st @ [m] \<and> in_events st' = in_events st @ [ev] \<and>
     ingestion_inv st' \<and>
     w1 = snd (record_ledger_event (runtime_appender net rt) ''market_event_ingested'' (in_node_id st) (event_payload ev) w) \<and>
     w' = snd (route ev w1) \<and>
     (in_forwarded_events st', in_routing_failures st') =
       (case fst (route ev w1) of
          Inr _ \<Rightarrow> (in_forwarded_events st + 1, in_routing_failures st)
        | Inl _ \<Rightarrow> (in_forwarded_events st, in_routing_failures st + 1))"
proof -
  let ?ev = "normalized uuid now (in_node_id st) (map_of (in_last_message st) (sm_symbol m)) m"
  have r: "r = Inr ?ev"
    using runtime_quiet.ingest_result [OF assms(3), of net rt "Some route" uuid now m w] assms(4) by simp
  obtain w1 where w1: "record_ledger_event (runtime_appender net rt) ''market_event_ingested'' (in_node_id st) (event_payload ?ev) w
      = (Inr (), w1)"
    using runtime_quiet.record_quiet [OF ingestion_events_ok(1) assms(3), of net rt "event_payload ?ev" w] by (metis prod.collapse)
  have "in_raw_messages st' = in_raw_messages st @ [m] \<and> in_events st' = in_events st @ [?ev]"
    using assms(4) by (auto simp: ingest_message_def normalize_eq Let_def split: sum.splits prod.splits
        dest: arg_cong [of _ _ "\<lambda>x. in_raw_messages (fst x)"] arg_cong [of _ _ "\<lambda>x. in_events (fst x)"])
  moreover have "ingestion_inv st'"
    using ingest_inv [OF assms(1,2), of "runtime_appender net rt" "Some route" uuid now w] assms(4) by simp
  moreover have "w' = snd (route ?ev w1) \<and> (in_forwarded_events st', in_routing_failures st') =
       (case fst (route ?ev w1) of
          Inr _ \<Rightarrow> (in_forwarded_events st + 1, in_routing_failures st)
        | Inl _ \<Rightarrow> (in_forwarded_events st, in_routing_failures st + 1))"
    using assms(4) w1 by (auto simp: ingest_message_def normalize_eq Let_def forward_event_def split: sum.splits prod.splits)
  ultimately show ?thesis using r w1 by simp
qed

text \<open>
  A restart after any sequence of operations reloads the same messages and events and
  the same latest message per symbol; the two counters start again from zero.
\<close>

theorem ingestion_restart:
  assumes "ingestion_inv st" "in_state_path st = Some p"
  shows "ingestion_load px now (in_node_id st) (Some p) (in_fs st) =
     Inr (st\<lparr>in_forwarded_events := 0, in_routing_failures := 0\<rparr>)"
proof -
  have inv: "in_last_message st = last_by_symbol (in_raw_messages st)" "list_all message_ok (in_raw_messages st)"
    "in_fs st p = Some (JsonFile (ingestion_doc st)) \<or> in_fs st p = None \<and> in_raw_messages st = [] \<and> in_events st = []"
    using assms by (simp_all add: ingestion_inv_def ingestion_saved_def)
  have m: "load_models ''MarketSensorMessage'' (validate_message px t) (JList (map dump_message (in_raw_messages st))) =
      Inr (in_raw_messages st)" for t
    using inv(2) by (intro load_models_dump) (simp add: validate_dump_message list_all_iff)
  have e: "load_models ''MarketEvent'' (validate_event px t) (JList (map dump_event (in_events st))) = Inr (in_events st)" for t
    by (intro load_models_dump) (rule validate_dump_event)
  have "load_json_file (in_fs st) (Some p) (JObj [(''raw_messages'', JList []), (''events'', JList [])]) =
      Inr (ingestion_doc st)"
    using inv(3) by (auto simp: load_json_file_def ingestion_doc_def)
  then show ?thesis
    using m e inv(1) assms(2) by (cases st) (simp add: ingestion_load_def ingestion_doc_def)
qed

definition demo_message :: sensor_message where
  "demo_message = \<lparr>sm_sensor_id = ''s-1'', sm_symbol = ''BTC'', sm_asset_class = ''crypto'', sm_price = Fin 100,
     sm_volume = Fin 2, sm_source = ''simulator'', sm_event_time = ''''\<rparr>"

definition demo_ingestion :: ingestion where
  "demo_ingestion = \<lparr>in_node_id = aws_node, in_state_path = Some ''state.json'', in_raw_messages = [demo_message],
     in_events = [], in_last_message = [(''BTC'', demo_message)], in_forwarded_events = 0, in_routing_failures = 0,
     in_fs = (\<lambda>p. Some (JsonFile (JObj [(''raw_messages'', JList [dump_message demo_message]), (''events'', JList [])])))\<rparr>"

definition demo_event :: market_event where
  "demo_event = normalized ''0123456789abcdef'' 7 aws_node None
     \<lparr>sm_sensor_id = ''s'', sm_symbol = ''BTC'', sm_asset_class = ''crypto'', sm_price = Fin 100, sm_volume = Fin 2,
      sm_source = ''x'', sm_event_time = ''''\<rparr>"

lemma demo_ingestion_inv [simp]: "ingestion_inv demo_ingestion"
  by (simp add: ingestion_inv_def demo_ingestion_def last_by_symbol_def dict_of_def dict_set_def demo_message_def
      message_ok_def asset_classes_def ingestion_saved_def ingestion_doc_def)

lemma demo_ingestion_node [simp]: "in_node_id demo_ingestion = aws_node"
  by (simp add: demo_ingestion_def)

lemma demo_message_ok [simp]: "message_ok demo_message"
  by (simp add: demo_message_def message_ok_def asset_classes_def)

theorem ingest_compares_with_latest_witness:
  "\<exists>ev. fst (ingest_message (runtime_appender dead_network demo_runtime) None ''0123456789abcdef'' 7
      (demo_message\<lparr>sm_price := Fin 150\<rparr>) (demo_ingestion, demo_world)) = Inr ev \<and>
     map_of (ev_window ev) ''price_change_1m'' = Some (Fin (1 / 2))"
proof -
  have h: "half_even ((1 / 2) * 1000000) = 500000" by simp
  have "round_nd 6 (fdiv_nonzero (fsub (Fin 150) (Fin 100)) (Fin 100)) = Fin (1 / 2)"
    by (simp add: fsub_def fl_eval h)
  then show ?thesis
    using ingest_compares_with_latest [OF demo_ingestion_inv runtime_quiet.quiet_appender_axioms, of dead_network
        demo_runtime None "''0123456789abcdef''" 7 "demo_message\<lparr>sm_price := Fin 150\<rparr>" demo_world]
    by (auto simp: latest_def demo_ingestion_def demo_message_def)
qed

theorem ingest_keeps_and_counts_witness:
  "\<exists>r st' w'. ingest_message (runtime_appender dead_network demo_runtime) (Some (\<lambda>e w. (Inl ZeroDivisionError, w)))
      ''0123456789abcdef'' 7 demo_message (demo_ingestion, demo_world) = (r, (st', w')) \<and>
     in_forwarded_events st' = 0 \<and> in_routing_failures st' = 1"
proof -
  obtain r st' w' where e: "ingest_message (runtime_appender dead_network demo_runtime)
      (Some (\<lambda>e w. (Inl ZeroDivisionError, w))) ''0123456789abcdef'' 7 demo_message (demo_ingestion, demo_world) = (r, (st', w'))"
    by (metis prod_cases3)
  from ingest_keeps_and_counts [OF demo_ingestion_inv demo_message_ok _ e] show ?thesis
    using e by (auto simp: demo_ingestion_def)
qed

theorem ingestion_restart_witness:
  "ingestion_load strict_pydantic 7 aws_node (Some ''state.json'') (in_fs demo_ingestion) = Inr demo_ingestion"
  using ingestion_restart [OF demo_ingestion_inv, of "''state.json''" strict_pydantic 7]
  by (simp add: demo_ingestion_def)

section \<open>Routing when nothing answers\<close>

lemma discovery_when_down:
  assumes "\<forall>rq s. \<exists>e. response_value net (rq_url rq) (fst (net_send net rq s)) = Inl e"
  shows "fst (peers_by_capability net now rt c w) = Inr []"
proof (cases "rt_enabled rt")
  case False
  then show ?thesis by (simp add: peers_by_capability_def)
next
  case True
  let ?rq = "\<lparr>rq_method = ''GET'', rq_url = ss_registry_url (rt_settings rt) @ ''/registry/capabilities/'' @ c, rq_body = None\<rparr>"
  obtain e where "fst (send net ?rq w) = Inl e"
    using assms [rule_format, of ?rq "w_net w"] by (auto simp: send_def split_beta)
  then show ?thesis
    using True by (auto simp: peers_by_capability_def request_json_def split_beta split: sum.splits)
qed

lemma route_event_when_down:
  assumes "\<forall>rq s. \<exists>e. response_value net (rq_url rq) (fst (net_send net rq s)) = Inl e"
  shows "fst (route_event net now rt event w) = Inr ()"
proof -
  have d: "\<exists>w'. peers_by_capability net now rt c w = (Inr [], w')" for c w
    using discovery_when_down [OF assms, of now rt c w] by (metis prod.collapse)
  obtain w1 where 1: "peers_by_capability net now rt ''detect_anomalies'' w = (Inr [], w1)" using d by blast
  obtain w2 where 2: "peers_by_capability net now rt ''store_market_events'' w1 = (Inr [], w2)" using d by blast
  obtain w3 where 3: "peers_by_capability net now rt ''compute_risk'' w2 = (Inr [], w3)" using d by blast
  show ?thesis by (simp add: route_event_def route_to_capability_def 1 2 3)
qed

text \<open>
  C16. When nothing answers, the registry included, discovery finds no peer and routing
  reports no failure: the event counts as forwarded although no one received it and no
  block could be written.
\<close>

theorem unreachable_registry_counts_as_forwarded:
  assumes "\<forall>rq s. \<exists>e. response_value net (rq_url rq) (fst (net_send net rq s)) = Inl e"
    and "str_between 3 128 (in_node_id st)"
    and "ingest_message (runtime_appender net rt) (Some (route_event net now rt)) uuid now m (st, w) = (r, (st', w'))"
  shows "in_forwarded_events st' = in_forwarded_events st + 1 \<and> in_routing_failures st' = in_routing_failures st"
  using assms(2,3) route_event_when_down [OF assms(1), of now rt]
  by (auto simp: ingest_message_def normalize_eq Let_def forward_event_def split: sum.splits prod.splits
      dest!: runtime_quiet.record_quiet_result) (metis Inl_Inr_False fst_conv)+

section \<open>Rounding of the stored price\<close>

text \<open>
  The price stored in an event is the sensor's price to within half a millionth and
  the rounding of one double; it is exact when the price is a whole number.
\<close>

theorem stored_price_close:
  assumes "ev_price (normalized uuid now n previous m) = Fin p" "sm_price m = Fin r"
  shows "\<bar>p - r\<bar> \<le> 1 / (2 * 10 ^ 6) + (\<bar>r\<bar> + 1) / 2 ^ 53 + 1 / 2 ^ 60 \<and> (r \<in> \<int> \<longrightarrow> p = rnd r)"
proof -
  let ?d = "of_int (half_even (r * 10 ^ 6)) / 10 ^ 6 :: real"
  have p: "p = rnd ?d" using assms fl_Fin by (simp add: normalized_def)
  have "?d - r = (of_int (half_even (r * 10 ^ 6)) - r * 10 ^ 6) / 10 ^ 6" by (simp add: diff_divide_distrib)
  then have "\<bar>?d - r\<bar> = \<bar>of_int (half_even (r * 10 ^ 6)) - r * 10 ^ 6\<bar> / 10 ^ 6" by (simp only: abs_divide) simp
  also have "\<dots> \<le> (1 / 2) / 10 ^ 6" by (intro divide_right_mono half_even_close) simp
  finally have d: "\<bar>?d - r\<bar> \<le> 1 / (2 * 10 ^ 6)" by simp
  moreover have "\<bar>?d\<bar> \<le> \<bar>?d - r\<bar> + \<bar>r\<bar>" by linarith
  moreover have "1 / (2 * 10 ^ 6) \<le> (1::real)" by simp
  ultimately have "\<bar>?d\<bar> \<le> \<bar>r\<bar> + 1" by linarith
  then have "\<bar>?d\<bar> / 2 ^ 53 \<le> (\<bar>r\<bar> + 1) / 2 ^ 53" by (intro divide_right_mono) simp_all
  then have "\<bar>p - ?d\<bar> \<le> (\<bar>r\<bar> + 1) / 2 ^ 53 + 1 / 2 ^ 60"
    using rnd_error [of ?d] tiny_unit unfolding p by linarith
  with d have bound: "\<bar>p - r\<bar> \<le> 1 / (2 * 10 ^ 6) + (\<bar>r\<bar> + 1) / 2 ^ 53 + 1 / 2 ^ 60" by linarith
  have "p = rnd r" if "r \<in> \<int>"
  proof -
    from that obtain i where i: "r = of_int i" by (rule Ints_cases)
    have "half_even (r * 10 ^ 6) = i * 10 ^ 6" using half_even_of_int [of "i * 10 ^ 6"] by (simp add: i)
    then have "?d = r" by (simp add: i)
    then show ?thesis using p by simp
  qed
  with bound show ?thesis by blast
qed

theorem stored_price_close_witness:
  "\<exists>p. ev_price (normalized ''0123456789abcdef'' 7 aws_node None demo_message) = Fin p \<and> p = 100"
proof -
  have "half_even (100 * 1000000) = 100000000" by simp
  then have p: "ev_price (normalized ''0123456789abcdef'' 7 aws_node None demo_message) = Fin 100"
    by (simp add: normalized_def demo_message_def fl_eval)
  then show ?thesis
    using stored_price_close [OF p, of 100] by (simp add: demo_message_def)
qed

theorem unreachable_registry_counts_as_forwarded_witness:
  "\<exists>r st' w'. ingest_message (runtime_appender dead_network demo_runtime) (Some (route_event dead_network 7 demo_runtime))
      ''0123456789abcdef'' 7 demo_message (demo_ingestion, demo_world) = (r, (st', w')) \<and> in_forwarded_events st' = 1"
proof -
  have down: "\<forall>rq s. \<exists>e. response_value dead_network (rq_url rq) (fst (net_send dead_network rq s)) = Inl e"
    by (simp add: dead_network_def response_value_def)
  obtain r st' w' where e: "ingest_message (runtime_appender dead_network demo_runtime)
      (Some (route_event dead_network 7 demo_runtime)) ''0123456789abcdef'' 7 demo_message (demo_ingestion, demo_world) =
      (r, (st', w'))" by (metis prod_cases3)
  from unreachable_registry_counts_as_forwarded [OF down _ e] show ?thesis
    using e by (auto simp: demo_ingestion_def)
qed

end
