(* ===== verification/Anomaly.thy ===== *)
theory Anomaly
  imports Ingestion
begin

text \<open>
  \<open>azure_anomaly/service.py\<close> and the handlers of \<open>azure_anomaly/main.py\<close>: scoring an event
  against the recent history of its symbol, raising alerts, and reviewing them.

  The state store is whatever \<open>build_json_state_store\<close> chose, two operations that may raise
  (\<open>store_ops\<close>). scikit-learn is code outside this repository: \<open>IsolationForest\<close> is an
  optional function from the history and a sample to the sample's score, which may raise.
\<close>

record 's store_ops =
  so_load :: "json \<Rightarrow> 's \<Rightarrow> ('s, json) outcome"
  so_save :: "json \<Rightarrow> 's \<Rightarrow> ('s, unit) outcome"

definition file_ops :: "path option \<Rightarrow> fs store_ops" where
  "file_ops p = \<lparr>so_load = (\<lambda>d fs. (load_json_file fs p d, fs)),
     so_save = (\<lambda>j fs. (Inr (), save_json_file p j fs))\<rparr>"

definition blob_ops :: "'r azure_sdk \<Rightarrow> 'r blob_state store_ops" where
  "blob_ops sdk = \<lparr>so_load = blob_load_json sdk, so_save = blob_save_json sdk\<rparr>"

type_synonym features = "pyfloat list"

type_synonym forest = "(features list \<Rightarrow> features \<Rightarrow> pyfloat result) option"

record anomaly =
  an_node_id :: string
  an_alert_threshold :: pyfloat
  an_history_window :: nat
  an_history :: "(string, features list) dict"
  an_alerts :: "(string, anomaly_alert) dict"

definition default_alert_threshold :: pyfloat where
  "default_alert_threshold = fl (82 / 100)"

definition default_history_window :: nat where
  "default_history_window = 60"

section \<open>Scores\<close>

definition extract_features :: "market_event \<Rightarrow> features" where
  "extract_features event =
     [dict_get (ev_window event) ''price_change_1m'' (Fin 0),
      dict_get (ev_window event) ''volume_change_1m'' (Fin 0),
      ev_price event, ev_volume event]"

text \<open>\<open>mean(xs) + (2 * pstdev(xs) if len(xs) > 1 else 0.0)\<close>.\<close>

definition baseline :: "pyfloat list \<Rightarrow> pyfloat result" where
  "baseline xs =
     bindR (stat_mean xs) (\<lambda>m.
     bindR (if length xs > 1 then bindR (stat_pstdev xs) (\<lambda>s. Inr (fmul (Fin 2) s)) else Inr (Fin 0)) (\<lambda>d.
     Inr (fadd m d)))"

definition rule_based_score :: "features \<Rightarrow> features list \<Rightarrow> pyfloat result" where
  "rule_based_score features history =
     (let price_change = fabs (features ! 0);
          volume_change = fabs (features ! 1)
      in if history = [] then
           Inr (pymin (Fin 1) (fadd (fmul price_change (Fin 8)) (fmul volume_change (Fin 3))))
         else
           let price_history = map (\<lambda>item. fabs (item ! 0)) history;
               volume_history = map (\<lambda>item. fabs (item ! 1)) history
           in bindR (baseline price_history) (\<lambda>price_baseline.
              bindR (baseline volume_history) (\<lambda>volume_baseline.
              bindR (fdiv price_change (pymax price_baseline (fl (1 / 100)))) (\<lambda>price_score.
              bindR (fdiv volume_change (pymax volume_baseline (fl (2 / 100)))) (\<lambda>volume_score.
              Inr (pymin (Fin 1) (fadd (fmul (fl (65 / 100)) price_score) (fmul (fl (35 / 100)) volume_score))))))))"

definition model_score :: "forest \<Rightarrow> features \<Rightarrow> features list \<Rightarrow> pyfloat result" where
  "model_score forest features history =
     (case forest of None \<Rightarrow> Inr (Fin 0)
      | Some score_samples \<Rightarrow>
          if length history < 12 then Inr (Fin 0)
          else bindR (score_samples history features) (\<lambda>s.
               bindR (fdiv (fsub (fneg s) (fl (35 / 100))) (fl (35 / 100))) (\<lambda>q.
               Inr (pymin (Fin 1) (pymax (Fin 0) q)))))"

definition severity :: "pyfloat \<Rightarrow> string" where
  "severity score =
     (if fle (fl (95 / 100)) score then ''critical''
      else if fle (fl (9 / 10)) score then ''high''
      else if fle (fl (85 / 100)) score then ''medium''
      else ''low'')"

definition reason :: "features \<Rightarrow> pyfloat \<Rightarrow> pyfloat \<Rightarrow> string" where
  "reason features rule_score model_score' =
     (let parts =
            (if fle (fl (3 / 100)) (fabs (features ! 0)) then [''price spike''] else []) @
            (if fle (fl (2 / 10)) (fabs (features ! 1)) then [''volume surge''] else []) @
            (if fle (fl (8 / 10)) model_score' then [''isolation forest outlier''] else []);
          parts1 = (if parts = [] then [''combined deviation threshold exceeded''] else parts) @
            [''rule='' @ format_fixed 2 rule_score]
      in join '', '' (parts1 @
           (if flt (Fin 0) model_score' then [''model='' @ format_fixed 2 model_score'] else [])))"

section \<open>State file\<close>

definition dump_features :: "features \<Rightarrow> json" where
  "dump_features fs = JList (map JFloat fs)"

definition anomaly_doc :: "anomaly \<Rightarrow> json" where
  "anomaly_doc st = JObj [
     (''alerts'', JObj (map (\<lambda>(k, a). (k, dump_alert a)) (an_alerts st))),
     (''history_by_symbol'', JObj (map (\<lambda>(s, items). (s, JList (map dump_features items))) (an_history st)))]"

text \<open>
  \<open>payload.get(...).items()\<close>; the history in the file is not validated, so only files whose
  samples are lists of floats, as this service writes them, are in the model.
\<close>

fun json_items :: "json \<Rightarrow> (string, json) dict result" where
  "json_items (JObj d) = Inr d"
| "json_items _ = Inl (AttributeError ''items'')"

fun float_of_json :: "json \<Rightarrow> pyfloat option" where
  "float_of_json (JFloat x) = Some x"
| "float_of_json _ = None"

fun features_of_json :: "json \<Rightarrow> features option" where
  "features_of_json (JList xs) = mapO float_of_json xs"
| "features_of_json _ = None"

definition history_of_json :: "json \<Rightarrow> features list result" where
  "history_of_json j = load_models ''history'' features_of_json j"

definition anomaly_load ::
    "'s store_ops \<Rightarrow> pydantic \<Rightarrow> int \<Rightarrow> string \<Rightarrow> pyfloat \<Rightarrow> nat \<Rightarrow> 's \<Rightarrow> ('s, anomaly) outcome" where
  "anomaly_load ops px now node_id threshold window s =
     bindS (so_load ops (JObj [(''alerts'', JObj []), (''history_by_symbol'', JObj [])]) s) (\<lambda>payload s1.
       (bindR (json_get payload ''alerts'' (JObj [])) (\<lambda>aj.
        bindR (json_items aj) (\<lambda>aitems.
        bindR (mapR (\<lambda>(k, item). bindR (validated ''AnomalyAlert'' (validate_alert px (utc_now now) item))
                       (\<lambda>a. Inr (k, a))) aitems) (\<lambda>alerts.
        bindR (json_get payload ''history_by_symbol'' (JObj [])) (\<lambda>hj.
        bindR (json_items hj) (\<lambda>hitems.
        bindR (mapR (\<lambda>(k, items). bindR (history_of_json items) (\<lambda>h. Inr (k, deque_trim window h))) hitems) (\<lambda>hist.
        Inr \<lparr>an_node_id = node_id, an_alert_threshold = threshold, an_history_window = window,
          an_history = dict_of hist, an_alerts = dict_of alerts\<rparr>)))))), s1))"

section \<open>Operations\<close>

type_synonym ('s, 'w) anomaly_state = "anomaly \<times> 's \<times> 'w"

text \<open>Indexing a \<open>defaultdict\<close> creates the entry.\<close>

definition touch :: "string \<Rightarrow> (string, features list) dict \<Rightarrow> (string, features list) dict" where
  "touch s h = (case map_of h s of None \<Rightarrow> dict_set s [] h | Some _ \<Rightarrow> h)"

definition alert_fields :: "anomaly_alert \<Rightarrow> (string, json) dict" where
  "alert_fields a = (case dump_alert a of JObj d \<Rightarrow> d | _ \<Rightarrow> [])"

definition analyze_event ::
    "'s store_ops \<Rightarrow> forest \<Rightarrow> 'w ledger_appender option \<Rightarrow> string \<Rightarrow> int \<Rightarrow> market_event \<Rightarrow>
       ('s, 'w) anomaly_state \<Rightarrow> (('s, 'w) anomaly_state, anomaly_alert option) outcome" where
  "analyze_event ops forest appender uuid now event s0 =
     (case s0 of (st, s, w) \<Rightarrow>
        let features = extract_features event;
            st1 = st\<lparr>an_history := touch (ev_symbol event) (an_history st)\<rparr>;
            history = the (map_of (an_history st1) (ev_symbol event))
        in case bindR (rule_based_score features history) (\<lambda>rule.
                bindR (model_score forest features history) (\<lambda>model. Inr (rule, model))) of
             Inl e \<Rightarrow> (Inl e, (st1, s, w))
           | Inr (rule_score, mscore) \<Rightarrow>
               let score = pymax rule_score mscore;
                   st2 = st1\<lparr>an_history := dict_set (ev_symbol event)
                           (deque_append (an_history_window st1) features history) (an_history st1)\<rparr>
               in if flt score (an_alert_threshold st2) then (Inr None, (st2, s, w))
                  else
                    let alert = \<lparr>al_alert_id = make_prefixed_id ''alt'' uuid, al_event_id = ev_event_id event,
                          al_symbol = ev_symbol event, al_severity = severity score, al_score = round_nd 4 score,
                          al_reason = reason features rule_score mscore, al_status = ''pending_review'',
                          al_created_at = utc_now now\<rparr>;
                        st3 = st2\<lparr>an_alerts := dict_set (al_alert_id alert) alert (an_alerts st2)\<rparr>
                    in case so_save ops (anomaly_doc st3) s of
                         (Inl e, s1) \<Rightarrow> (Inl e, (st3, s1, w))
                       | (Inr _, s1) \<Rightarrow>
                           (case record_ledger_event appender ''anomaly_alert_created'' (an_node_id st3) (alert_fields alert) w of
                              (Inl e, w1) \<Rightarrow> (Inl e, (st3, s1, w1))
                            | (Inr _, w1) \<Rightarrow> (Inr (Some alert), (st3, s1, w1))))"

definition review_alert ::
    "'s store_ops \<Rightarrow> 'w ledger_appender option \<Rightarrow> string \<Rightarrow> alert_review \<Rightarrow>
       ('s, 'w) anomaly_state \<Rightarrow> (('s, 'w) anomaly_state, anomaly_alert) outcome" where
  "review_alert ops appender alert_id review s0 =
     (case s0 of (st, s, w) \<Rightarrow>
        (case map_of (an_alerts st) alert_id of
           None \<Rightarrow> (Inl (KeyError alert_id), s0)
         | Some alert \<Rightarrow>
             let updated = alert\<lparr>al_status := rv_status review\<rparr>;
                 st1 = st\<lparr>an_alerts := dict_set alert_id updated (an_alerts st)\<rparr>
             in case so_save ops (anomaly_doc st1) s of
                  (Inl e, s1) \<Rightarrow> (Inl e, (st1, s1, w))
                | (Inr _, s1) \<Rightarrow>
                    (case record_ledger_event appender ''anomaly_alert_reviewed'' (an_node_id st1)
                            [(''alert_id'', JStr alert_id), (''review'', dump_review review)] w of
                       (Inl e, w1) \<Rightarrow> (Inl e, (st1, s1, w1))
                     | (Inr _, w1) \<Rightarrow> (Inr updated, (st1, s1, w1)))))"

definition list_alerts :: "anomaly \<Rightarrow> anomaly_alert list" where
  "list_alerts st = dict_values (an_alerts st)"

definition get_alert :: "string \<Rightarrow> anomaly \<Rightarrow> anomaly_alert option" where
  "get_alert alert_id st = map_of (an_alerts st) alert_id"

definition anomaly_health :: "bool \<Rightarrow> string \<Rightarrow> anomaly \<Rightarrow> json" where
  "anomaly_health sklearn_enabled backend st = JObj [
     (''status'', JStr ''ok''),
     (''service'', JStr ''azure_anomaly''),
     (''node_id'', JStr (an_node_id st)),
     (''alerts'', JInt (int (length (an_alerts st)))),
     (''tracked_symbols'', JInt (int (length (an_history st)))),
     (''sklearn_enabled'', JBool sklearn_enabled),
     (''storage_backend'', JStr backend)]"

section \<open>Endpoints\<close>

definition alert_not_found :: py_exc where
  "alert_not_found = HTTPException 404 ''alert not found''"

definition get_alert_ep :: "string \<Rightarrow> anomaly \<Rightarrow> anomaly_alert result" where
  "get_alert_ep alert_id st = (case get_alert alert_id st of None \<Rightarrow> Inl alert_not_found | Some a \<Rightarrow> Inr a)"

definition review_alert_ep ::
    "'s store_ops \<Rightarrow> 'w ledger_appender option \<Rightarrow> int \<Rightarrow> string \<Rightarrow> json \<Rightarrow>
       ('s, 'w) anomaly_state \<Rightarrow> (('s, 'w) anomaly_state, anomaly_alert) outcome" where
  "review_alert_ep ops appender now alert_id body s0 =
     (case validate_review (utc_now now) body of
        None \<Rightarrow> (Inl (HTTPException 422 ''Unprocessable Entity''), s0)
      | Some review \<Rightarrow>
          (case get_alert alert_id (fst s0) of
             None \<Rightarrow> (Inl alert_not_found, s0)
           | Some _ \<Rightarrow> review_alert ops appender alert_id review s0))"

definition analyze_ep ::
    "'s store_ops \<Rightarrow> forest \<Rightarrow> 'w ledger_appender option \<Rightarrow> pydantic \<Rightarrow> string \<Rightarrow> int \<Rightarrow> json \<Rightarrow>
       ('s, 'w) anomaly_state \<Rightarrow> (('s, 'w) anomaly_state, anomaly_alert option) outcome" where
  "analyze_ep ops forest appender px uuid now body s0 =
     (case validate_event px (utc_now now) body of
        None \<Rightarrow> (Inl (HTTPException 422 ''Unprocessable Entity''), s0)
      | Some event \<Rightarrow> analyze_event ops forest appender uuid now event s0)"

end
