(* ===== verification/AnomalySpec.thy ===== *)
theory AnomalySpec
  imports Anomaly IngestionSpec
begin

text \<open>
  What anomaly detection promises: a score that exists lies between zero and one and does
  not fall when the deviation grows; when scoring raises, and for how long; which events
  become alerts; bounded history; reviews; and what a restart brings back.
\<close>

section \<open>Non-negative floats\<close>

text \<open>A NaN or a non-negative value: closed under everything the score is computed with.\<close>

definition fnn :: "pyfloat \<Rightarrow> bool" where
  "fnn x \<longleftrightarrow> (case x of Fin r \<Rightarrow> 0 \<le> r | PInf \<Rightarrow> True | NInf \<Rightarrow> False | NaN \<Rightarrow> True)"

lemma fnn_simps [simp]: "fnn (Fin r) \<longleftrightarrow> 0 \<le> r" "fnn PInf" "fnn NaN" "\<not> fnn NInf"
  by (simp_all add: fnn_def)

lemma fnn_fl: "0 \<le> x \<Longrightarrow> fnn (fl x)"
proof -
  assume "0 \<le> x"
  then have "0 \<le> rnd x" by (rule rnd_nonneg)
  moreover have "- overflow_bound < 0" by (simp add: overflow_bound_def)
  ultimately show ?thesis by (auto simp: fl_def Let_def)
qed

lemma fnn_fabs [simp]: "fnn (fabs x)"
  by (cases x) simp_all

lemma fnn_fadd: "fnn x \<Longrightarrow> fnn y \<Longrightarrow> fnn (fadd x y)"
  by (cases x; cases y) (simp_all add: fnn_fl)

lemma fnn_fmul: "fnn x \<Longrightarrow> fnn y \<Longrightarrow> fnn (fmul x y)"
  by (cases x; cases y) (auto simp: fnn_fl signed_inf_def sgn_if)

lemma fnn_fdiv: "fnn x \<Longrightarrow> fnn y \<Longrightarrow> fnn (fdiv_nonzero x y)"
  by (cases x; cases y) (auto simp: fnn_fl)

lemma pymin_unit: "fnn x \<Longrightarrow> \<exists>r. pymin (Fin 1) x = Fin r \<and> 0 \<le> r \<and> r \<le> 1"
  by (cases x) (auto simp: pymin_def)

lemma fnn_pymax: "fnn x \<Longrightarrow> fnn y \<Longrightarrow> fnn (pymax x y)"
  by (simp add: pymax_def)

lemma fl_pos: "1 / 2 ^ 10 \<le> x \<Longrightarrow> x \<le> 1 \<Longrightarrow> \<exists>r. fl x = Fin r \<and> 0 < r \<and> r \<le> 1"
proof -
  assume x: "1 / 2 ^ 10 \<le> x" "x \<le> 1"
  have "rnd (1 / 2 ^ 10) = 1 / 2 ^ 10" using rnd_dyadic [of 1 10] by simp
  then have "1 / 2 ^ 10 \<le> rnd x" using b64.rd_ge_fixed [OF x(1)] by simp
  moreover have "rnd x \<le> 1" using x(2) b64.rd_le_fixed by simp
  moreover have "fl x = Fin (rnd x)" using x by (intro fl_eval) (simp add: abs_le_iff)
  ultimately show ?thesis by (auto intro!: exI [of _ "rnd x"] elim: less_le_trans [rotated])
qed

lemma pymax_pos:
  assumes "fnn x" "0 < c"
  shows "fnn (pymax x (Fin c)) \<and> pymax x (Fin c) \<noteq> Fin 0"
  using assms by (cases x) (auto simp: pymax_def)

section \<open>The rule-based score\<close>

definition scores_finite :: "features list \<Rightarrow> bool" where
  "scores_finite h \<longleftrightarrow> list_all (\<lambda>f. is_finite (f ! 0) \<and> is_finite (f ! 1)) h"

lemma is_finite_fabs [simp]: "is_finite (fabs x) = is_finite x"
  by (cases x) (simp_all add: is_finite_def)

lemma sum_list_nonneg_fnn: "list_all fnn xs \<Longrightarrow> 0 \<le> sum_list (map real_of xs)"
proof (induction xs)
  case Nil
  show ?case by simp
next
  case (Cons x xs)
  then show ?case by (cases x) simp_all
qed

lemma foldl_fadd_fnn: "fnn a \<Longrightarrow> list_all fnn xs \<Longrightarrow> fnn (foldl fadd a xs)"
  by (induction xs arbitrary: a) (simp_all add: fnn_fadd)

lemma stat_mean_fnn: "xs \<noteq> [] \<Longrightarrow> list_all fnn xs \<Longrightarrow> \<exists>m. stat_mean xs = Inr m \<and> fnn m"
  using sum_list_nonneg_fnn [of xs] foldl_fadd_fnn [of "Fin 0" "filter (\<lambda>x. \<not> is_finite x) xs"]
  by (auto simp: stat_mean_def fsum_nonfinite_def list_all_iff intro: fnn_fl)

lemma exact_variance_nonneg: "0 \<le> exact_variance rs"
  unfolding exact_variance_def by (intro divide_nonneg_nonneg sum_list_nonneg) auto

lemma baseline_fnn:
  assumes "xs \<noteq> []" "list_all fnn xs"
  shows "(length xs > 1 \<and> \<not> all_finite xs \<longrightarrow> baseline xs = Inl (AttributeError ''numerator'')) \<and>
     (\<not> (length xs > 1 \<and> \<not> all_finite xs) \<longrightarrow> (\<exists>b. baseline xs = Inr b \<and> fnn b))"
proof -
  obtain m where m: "stat_mean xs = Inr m" "fnn m" using stat_mean_fnn [OF assms] by blast
  have "fnn (fl (sqrt (exact_variance (map real_of xs))))"
    by (intro fnn_fl) (simp add: exact_variance_nonneg)
  then show ?thesis
    using m assms(1) by (auto simp: baseline_def stat_pstdev_def intro!: fnn_fadd fnn_fmul)
qed

lemma baseline_abs:
  assumes "h \<noteq> []"
  shows "(length h > 1 \<and> \<not> list_all (\<lambda>f. is_finite (f ! i)) h \<longrightarrow>
        baseline (map (\<lambda>item. fabs (item ! i)) h) = Inl (AttributeError ''numerator'')) \<and>
     (\<not> (length h > 1 \<and> \<not> list_all (\<lambda>f. is_finite (f ! i)) h) \<longrightarrow>
        (\<exists>b. baseline (map (\<lambda>item. fabs (item ! i)) h) = Inr b \<and> fnn b))"
proof -
  let ?xs = "map (\<lambda>item. fabs (item ! i)) h"
  have "list_all fnn ?xs" "?xs \<noteq> []" "length ?xs = length h" "all_finite ?xs = list_all (\<lambda>f. is_finite (f ! i)) h"
    using assms by (auto simp: all_finite_def list_all_iff)
  then show ?thesis using baseline_fnn [of ?xs] by simp
qed

text \<open>The two quotients never divide by zero, whatever the baseline.\<close>

lemma quotient_fnn:
  assumes "fnn b" "1 / 2 ^ 10 \<le> c" "c \<le> 1"
  shows "\<exists>q. fdiv (fabs x) (pymax b (fl c)) = Inr q \<and> fnn q"
proof -
  obtain r where r: "fl c = Fin r" "0 < r" using fl_pos [OF assms(2,3)] by blast
  from pymax_pos [OF assms(1) r(2)] show ?thesis
    by (simp add: r(1) fdiv_def fnn_fdiv)
qed

lemma weighted_fnn: "fnn p \<Longrightarrow> fnn v \<Longrightarrow> fnn (fadd (fmul (fl (65 / 100)) p) (fmul (fl (35 / 100)) v))"
  by (intro fnn_fadd fnn_fmul fnn_fl) simp_all

lemma rule_score_total:
  "(length h > 1 \<and> \<not> scores_finite h \<longrightarrow> rule_based_score f h = Inl (AttributeError ''numerator'')) \<and>
   (\<not> (length h > 1 \<and> \<not> scores_finite h) \<longrightarrow> (\<exists>r. rule_based_score f h = Inr (Fin r) \<and> 0 \<le> r \<and> r \<le> 1))"
proof (cases "h = []")
  case True
  have "fnn (fadd (fmul (fabs (f ! 0)) (Fin 8)) (fmul (fabs (f ! 1)) (Fin 3)))"
    by (intro fnn_fadd fnn_fmul) simp_all
  from pymin_unit [OF this] show ?thesis using True by (simp add: rule_based_score_def)
next
  case False
  note p = baseline_abs [OF False, of 0] and v = baseline_abs [OF False, of 1]
  have split: "scores_finite h \<longleftrightarrow> list_all (\<lambda>f. is_finite (f ! 0)) h \<and> list_all (\<lambda>f. is_finite (f ! 1)) h"
    by (auto simp: scores_finite_def list_all_iff)
  show ?thesis
  proof (cases "length h > 1 \<and> \<not> scores_finite h")
    case True
    then consider "\<not> list_all (\<lambda>f. is_finite (f ! 0)) h"
      | "list_all (\<lambda>f. is_finite (f ! 0)) h" "\<not> list_all (\<lambda>f. is_finite (f ! 1)) h" using split by blast
    then show ?thesis
    proof cases
      case 1
      then show ?thesis using True False p by (simp add: rule_based_score_def)
    next
      case 2
      then show ?thesis using True False p v by (auto simp: rule_based_score_def)
    qed
  next
    case ok: False
    then obtain pb vb where pb: "baseline (map (\<lambda>item. fabs (item ! 0)) h) = Inr pb" "fnn pb"
      and vb: "baseline (map (\<lambda>item. fabs (item ! 1)) h) = Inr vb" "fnn vb"
      using p v split by auto
    obtain ps where ps: "fdiv (fabs (f ! 0)) (pymax pb (fl (1 / 100))) = Inr ps" "fnn ps"
      using quotient_fnn [OF pb(2), of "1 / 100" "f ! 0"] by auto
    obtain vs where vs: "fdiv (fabs (f ! 1)) (pymax vb (fl (2 / 100))) = Inr vs" "fnn vs"
      using quotient_fnn [OF vb(2), of "2 / 100" "f ! 1"] by auto
    have "rule_based_score f h =
        Inr (pymin (Fin 1) (fadd (fmul (fl (65 / 100)) ps) (fmul (fl (35 / 100)) vs)))"
      using False by (simp only: rule_based_score_def Let_def if_False bindR_simps pb vb ps vs)
    with pymin_unit [OF weighted_fnn [OF ps(2) vs(2)]] ok show ?thesis by auto
  qed
qed

lemma model_score_unit: "model_score forest f h = Inr x \<Longrightarrow> \<exists>r. x = Fin r \<and> 0 \<le> r \<and> r \<le> 1"
proof -
  have "fnn (pymax (Fin 0) q)" for q by (cases q) (auto simp: pymax_def)
  then show "model_score forest f h = Inr x \<Longrightarrow> ?thesis"
    using pymin_unit by (fastforce simp: model_score_def bindR_Inr_iff split: option.splits if_splits)
qed

section \<open>Analysis of an event\<close>

definition history_of :: "anomaly \<Rightarrow> string \<Rightarrow> features list" where
  "history_of st s = (case map_of (an_history st) s of None \<Rightarrow> [] | Some h \<Rightarrow> h)"

lemma touch_lookup: "map_of (touch s h) s = Some (case map_of h s of None \<Rightarrow> [] | Some x \<Rightarrow> x)"
  by (simp add: touch_def split: option.splits)

lemma touch_other: "t \<noteq> s \<Longrightarrow> map_of (touch s h) t = map_of h t"
  by (simp add: touch_def split: option.splits)

lemma history_touch [simp]: "history_of (st\<lparr>an_history := touch s (an_history st)\<rparr>) t = history_of st t"
  by (cases "t = s") (auto simp: history_of_def touch_lookup touch_other split: option.splits)

text \<open>The two scores of an event in a state, and what the analysis does with them.\<close>

definition event_scores :: "forest \<Rightarrow> market_event \<Rightarrow> anomaly \<Rightarrow> (pyfloat \<times> pyfloat) result" where
  "event_scores forest event st =
     bindR (rule_based_score (extract_features event) (history_of st (ev_symbol event))) (\<lambda>rule.
     bindR (model_score forest (extract_features event) (history_of st (ev_symbol event))) (\<lambda>model. Inr (rule, model)))"

lemma event_scores_unit:
  assumes "event_scores forest event st = Inr (rule, model)"
  shows "\<exists>r. pymax rule model = Fin r \<and> 0 \<le> r \<and> r \<le> 1"
proof -
  have "\<exists>r. rule = Fin r \<and> 0 \<le> r \<and> r \<le> 1" "\<exists>r. model = Fin r \<and> 0 \<le> r \<and> r \<le> 1"
    using assms rule_score_total [of "history_of st (ev_symbol event)" "extract_features event"]
      model_score_unit [of forest "extract_features event" "history_of st (ev_symbol event)" model]
    by (auto simp: event_scores_def bindR_Inr_iff)
  then show ?thesis by (auto simp: pymax_def)
qed

definition scored_state :: "market_event \<Rightarrow> anomaly \<Rightarrow> anomaly" where
  "scored_state event st = st\<lparr>an_history :=
     dict_set (ev_symbol event) (deque_append (an_history_window st) (extract_features event) (history_of st (ev_symbol event)))
       (touch (ev_symbol event) (an_history st))\<rparr>"

definition new_alert :: "string \<Rightarrow> int \<Rightarrow> market_event \<Rightarrow> pyfloat \<Rightarrow> pyfloat \<Rightarrow> anomaly_alert" where
  "new_alert uuid now event rule model =
     \<lparr>al_alert_id = ''alt_'' @ take 12 uuid, al_event_id = ev_event_id event, al_symbol = ev_symbol event,
      al_severity = severity (pymax rule model), al_score = round_nd 4 (pymax rule model),
      al_reason = reason (extract_features event) rule model, al_status = ''pending_review'',
      al_created_at = utc_now now\<rparr>"

lemma analyze_raises:
  "event_scores forest event st = Inl e \<Longrightarrow>
     analyze_event ops forest appender uuid now event (st, s, w) =
       (Inl e, (st\<lparr>an_history := touch (ev_symbol event) (an_history st)\<rparr>, s, w))"
  by (simp add: analyze_event_def event_scores_def Let_def touch_lookup history_of_def)

lemma analyze_below:
  "event_scores forest event st = Inr (rule, model) \<Longrightarrow> flt (pymax rule model) (an_alert_threshold st) \<Longrightarrow>
     analyze_event ops forest appender uuid now event (st, s, w) = (Inr None, (scored_state event st, s, w))"
  by (simp add: analyze_event_def event_scores_def Let_def touch_lookup history_of_def scored_state_def)

definition alerted_state :: "string \<Rightarrow> int \<Rightarrow> market_event \<Rightarrow> pyfloat \<Rightarrow> pyfloat \<Rightarrow> anomaly \<Rightarrow> anomaly" where
  "alerted_state uuid now event rule model st = (scored_state event st)\<lparr>an_alerts :=
     dict_set (''alt_'' @ take 12 uuid) (new_alert uuid now event rule model) (an_alerts st)\<rparr>"

lemma analyze_alert:
  assumes "event_scores forest event st = Inr (rule, model)" "\<not> flt (pymax rule model) (an_alert_threshold st)"
  shows "analyze_event ops forest appender uuid now event (st, s, w) =
     (case so_save ops (anomaly_doc (alerted_state uuid now event rule model st)) s of
        (Inl e, s1) \<Rightarrow> (Inl e, (alerted_state uuid now event rule model st, s1, w))
      | (Inr _, s1) \<Rightarrow>
          (case record_ledger_event appender ''anomaly_alert_created'' (an_node_id st)
                  (alert_fields (new_alert uuid now event rule model)) w of
             (Inl e, w1) \<Rightarrow> (Inl e, (alerted_state uuid now event rule model st, s1, w1))
           | (Inr _, w1) \<Rightarrow> (Inr (Some (new_alert uuid now event rule model)),
               (alerted_state uuid now event rule model st, s1, w1))))"
  using assms
  by (simp add: analyze_event_def event_scores_def Let_def touch_lookup history_of_def scored_state_def
      new_alert_def make_prefixed_id_def alerted_state_def split: prod.split sum.split)

lemma scored_state_simps [simp]:
  "an_alerts (scored_state event st) = an_alerts st" "an_node_id (scored_state event st) = an_node_id st"
  "an_alert_threshold (scored_state event st) = an_alert_threshold st"
  "an_history_window (scored_state event st) = an_history_window st"
  by (simp_all add: scored_state_def)

lemma scored_history:
  "history_of (scored_state event st) s =
     (if s = ev_symbol event then deque_append (an_history_window st) (extract_features event) (history_of st s)
      else history_of st s)"
  by (auto simp: history_of_def scored_state_def touch_other)

text \<open>The state after an analysis, by outcome.\<close>

lemma analyze_state:
  assumes "analyze_event ops forest appender uuid now event (st, s, w) = (r, (st', s', w'))"
  shows "(\<exists>e. event_scores forest event st = Inl e \<and> r = Inl e \<and>
            st' = st\<lparr>an_history := touch (ev_symbol event) (an_history st)\<rparr> \<and> s' = s \<and> w' = w) \<or>
    (\<exists>rule model. event_scores forest event st = Inr (rule, model) \<and>
       (if flt (pymax rule model) (an_alert_threshold st)
        then r = Inr None \<and> st' = scored_state event st \<and> s' = s \<and> w' = w
        else st' = alerted_state uuid now event rule model st \<and>
             (r = Inr (Some (new_alert uuid now event rule model)) \<or> (\<exists>e. r = Inl e)) \<and>
             s' = snd (so_save ops (anomaly_doc st') s)))"
proof (cases "event_scores forest event st")
  case (Inl e)
  then show ?thesis using assms by (auto simp: analyze_raises [OF Inl])
next
  case (Inr p)
  obtain rule model where p: "p = (rule, model)" by (cases p)
  show ?thesis
  proof (cases "flt (pymax rule model) (an_alert_threshold st)")
    case True
    then show ?thesis using assms Inr p by (auto simp: analyze_below)
  next
    case False
    show ?thesis
      using assms analyze_alert [OF _ False, of forest event ops appender uuid now s w] Inr p False
      by (auto split: prod.splits sum.splits)
  qed
qed

section \<open>Properties of the score\<close>

text \<open>
  The rule-based score exists exactly when the history of the symbol has at most one
  sample or only finite changes; it then lies between zero and one, for every event,
  infinite and NaN features included.
\<close>

theorem rule_score_range:
  "case rule_based_score f h of
     Inl e \<Rightarrow> length h > 1 \<and> \<not> scores_finite h
   | Inr x \<Rightarrow> (length h \<le> 1 \<or> scores_finite h) \<and> (\<exists>r. x = Fin r \<and> 0 \<le> r \<and> r \<le> 1)"
proof (cases "rule_based_score f h")
  case (Inl e)
  then show ?thesis using rule_score_total [of h f] by auto
next
  case (Inr x)
  then show ?thesis using rule_score_total [of h f] by (auto simp: not_less)
qed

text \<open>Order of the computed quantities.\<close>

definition fpos :: "pyfloat \<Rightarrow> bool" where
  "fpos x \<longleftrightarrow> (case x of Fin r \<Rightarrow> 0 \<le> r | PInf \<Rightarrow> True | _ \<Rightarrow> False)"

lemma fpos_simps [simp]: "fpos (Fin r) \<longleftrightarrow> 0 \<le> r" "fpos PInf" "\<not> fpos NInf" "\<not> fpos NaN"
  by (simp_all add: fpos_def)

lemma fpos_fl: "0 \<le> x \<Longrightarrow> fpos (fl x)"
  using fnn_fl [of x] by (cases "fl x") simp_all

lemma fle_PInf [simp]: "fle x PInf \<longleftrightarrow> x \<noteq> NaN"
  by (cases x) (auto simp: fle_def feq_def)

lemma fle_PInf_iff: "fle PInf y \<longleftrightarrow> y = PInf"
  by (cases y) (auto simp: fle_def feq_def)

lemma fle_NInf_iff [simp]: "fle x NInf \<longleftrightarrow> x = NInf"
  by (cases x) (auto simp: fle_def feq_def)

lemma fadd_mono:
  assumes "fpos a" "fpos b" "fle a a'" "fle b b'"
  shows "fle (fadd a b) (fadd a' b')"
  using assms by (cases a; cases b; cases a'; cases b') (auto simp: fl_mono fle_PInf_iff)

lemma fadd_pos: "fpos a \<Longrightarrow> fpos b \<Longrightarrow> fpos (fadd a b)"
  by (cases a; cases b) (auto simp: fpos_fl)

lemma fmul_mono:
  assumes "0 < c" "fpos x" "fle x y"
  shows "fle (fmul (Fin c) x) (fmul (Fin c) y)"
  using assms by (cases x; cases y) (auto simp: fl_mono fle_PInf_iff signed_inf_def)

lemma fmul_mono_left:
  assumes "0 < c" "fpos x" "fle x y"
  shows "fle (fmul x (Fin c)) (fmul y (Fin c))"
  using assms by (cases x; cases y) (auto simp: fl_mono fle_PInf_iff signed_inf_def)

lemma fmul_pos: "0 < c \<Longrightarrow> fpos x \<Longrightarrow> fpos (fmul (Fin c) x) \<and> fpos (fmul x (Fin c))"
  by (cases x) (auto simp: fpos_fl signed_inf_def)

lemma pymin_mono: "fpos x \<Longrightarrow> fle x y \<Longrightarrow> fle (pymin (Fin 1) x) (pymin (Fin 1) y)"
  by (cases x; cases y) (auto simp: pymin_def fle_PInf_iff)

lemma fdiv_mono:
  assumes "0 \<le> a" "a \<le> a'" "fpos d" "d \<noteq> Fin 0"
  shows "fle (fdiv_nonzero (Fin a) d) (fdiv_nonzero (Fin a') d)" "fpos (fdiv_nonzero (Fin a) d)"
  using assms by (cases d; auto simp: fl_mono fpos_fl divide_right_mono)+

lemma baseline_pos:
  assumes "h \<noteq> []" "list_all (\<lambda>f. is_finite (f ! i)) h" "baseline (map (\<lambda>item. fabs (item ! i)) h) = Inr b"
  shows "fpos b"
proof -
  let ?xs = "map (\<lambda>item. fabs (item ! i)) h"
  have fin: "all_finite ?xs" "?xs \<noteq> []" "list_all fnn ?xs"
    using assms(1,2) by (auto simp: all_finite_def list_all_iff)
  have m: "fpos (fl (sum_list (map real_of ?xs) / of_nat (length ?xs)))"
    using sum_list_nonneg_fnn [OF fin(3)] by (intro fpos_fl divide_nonneg_nonneg) simp_all
  have s: "fpos (fl (sqrt (exact_variance (map real_of ?xs))))"
    by (intro fpos_fl) (simp add: exact_variance_nonneg)
  show ?thesis
    using assms(3) fin(1,2) fadd_pos [OF m, of "Fin 0"] fadd_pos [OF m conjunct1 [OF fmul_pos [OF _ s]], of 2]
    by (auto simp: baseline_def stat_mean_def stat_pstdev_def o_def split: if_splits)
qed

lemma denominator_pos:
  assumes "fpos b" "1 / 2 ^ 10 \<le> c" "c \<le> 1"
  shows "fpos (pymax b (fl c))" "pymax b (fl c) \<noteq> Fin 0"
proof -
  obtain r where r: "fl c = Fin r" "0 < r" using fl_pos [OF assms(2,3)] by blast
  show "fpos (pymax b (fl c))" "pymax b (fl c) \<noteq> Fin 0"
    using assms(1) r by (cases b; auto simp: pymax_def)+
qed

lemma weight_pos: "\<exists>r. fl (65 / 100) = Fin r \<and> 0 < r" "\<exists>r. fl (35 / 100) = Fin r \<and> 0 < r"
  using fl_pos [of "65 / 100"] fl_pos [of "35 / 100"] by auto

text \<open>
  A larger deviation never scores lower: with the same finite history, raising the
  size of the price or volume change (finite values) cannot lower the rule-based score.
\<close>

theorem rule_score_monotone:
  assumes "scores_finite h" "fabs (f ! 0) = Fin a" "fabs (f ! 1) = Fin b"
    and "fabs (f' ! 0) = Fin a'" "fabs (f' ! 1) = Fin b'" "a \<le> a'" "b \<le> b'"
    and "rule_based_score f h = Inr x" "rule_based_score f' h = Inr y"
  shows "fle x y"
proof -
  have nonneg: "0 \<le> a" "0 \<le> b"
    using assms(2,3) fnn_fabs [of "f ! 0"] fnn_fabs [of "f ! 1"] by simp_all
  show ?thesis
  proof (cases "h = []")
    case True
    have "fle (fadd (fmul (Fin a) (Fin 8)) (fmul (Fin b) (Fin 3))) (fadd (fmul (Fin a') (Fin 8)) (fmul (Fin b') (Fin 3)))"
      using nonneg assms(6,7)
      by (intro fadd_mono fmul_mono_left conjunct2 [OF fmul_pos]) simp_all
    moreover have "fpos (fadd (fmul (Fin a) (Fin 8)) (fmul (Fin b) (Fin 3)))"
      using nonneg by (intro fadd_pos conjunct2 [OF fmul_pos]) simp_all
    ultimately show ?thesis
      using assms(2-5,8,9) True pymin_mono by (auto simp: rule_based_score_def simp del: fmul.simps fadd.simps)
  next
    case False
    have fin: "list_all (\<lambda>f. is_finite (f ! 0)) h" "list_all (\<lambda>f. is_finite (f ! 1)) h"
      using assms(1) by (simp_all add: scores_finite_def list_all_iff)
    obtain pb where pb: "baseline (map (\<lambda>item. fabs (item ! 0)) h) = Inr pb"
      using baseline_abs [OF False, of 0] fin by auto
    obtain vb where vb: "baseline (map (\<lambda>item. fabs (item ! 1)) h) = Inr vb"
      using baseline_abs [OF False, of 1] fin by auto
    define dp where "dp = pymax pb (fl (1 / 100))"
    define dv where "dv = pymax vb (fl (2 / 100))"
    have d: "fpos dp" "dp \<noteq> Fin 0" "fpos dv" "dv \<noteq> Fin 0"
      unfolding dp_def dv_def
      using denominator_pos [OF baseline_pos [OF False fin(1) pb], of "1 / 100"]
        denominator_pos [OF baseline_pos [OF False fin(2) vb], of "2 / 100"] by simp_all
    obtain wp wv where wt: "fl (65 / 100) = Fin wp" "0 < wp" "fl (35 / 100) = Fin wv" "0 < wv"
      using weight_pos by blast
    define total where "total p v = fadd (fmul (Fin wp) (fdiv_nonzero (Fin p) dp)) (fmul (Fin wv) (fdiv_nonzero (Fin v) dv))" for p v
    have "x = pymin (Fin 1) (total a b)" "y = pymin (Fin 1) (total a' b')"
      using assms(8,9) False
      unfolding rule_based_score_def Let_def assms(2-5) pb vb bindR_simps dp_def [symmetric] dv_def [symmetric] wt total_def
      by (simp_all only: fdiv_def d if_False bindR_simps sum.inject)
    moreover have "fle (total a b) (total a' b')"
      unfolding total_def using nonneg assms(6,7) d wt
      by (intro fadd_mono fmul_mono fdiv_mono conjunct1 [OF fmul_pos]) simp_all
    moreover have "fpos (total a b)"
      unfolding total_def using nonneg d wt by (intro fadd_pos conjunct1 [OF fmul_pos] fdiv_mono(2) [OF _ order.refl]) simp_all
    ultimately show ?thesis using pymin_mono by simp
  qed
qed

definition features_of :: "real \<Rightarrow> real \<Rightarrow> features" where
  "features_of p v = [Fin p, Fin v, Fin 100, Fin 2]"

lemma cold_score: "\<bar>p\<bar> \<le> 1 \<Longrightarrow> \<bar>v\<bar> \<le> 1 \<Longrightarrow>
    rule_based_score (features_of p v) [] = Inr (pymin (Fin 1) (fl (rnd (\<bar>p\<bar> * 8) + rnd (\<bar>v\<bar> * 3))))"
  by (simp add: rule_based_score_def features_of_def fl_eval)

theorem rule_score_monotone_witness:
  "\<exists>x y. rule_based_score (features_of (1 / 16) 0) [] = Inr x \<and> rule_based_score (features_of (- 1 / 8) (1 / 4)) [] = Inr y \<and> fle x y"
proof -
  obtain x where x: "rule_based_score (features_of (1 / 16) 0) [] = Inr x" by (simp add: cold_score)
  obtain y where y: "rule_based_score (features_of (- 1 / 8) (1 / 4)) [] = Inr y" by (simp add: cold_score)
  have "fle x y"
    by (rule rule_score_monotone [OF _ _ _ _ _ _ _ x y, of "1 / 16" 0 "1 / 8" "1 / 4"])
      (simp_all add: features_of_def scores_finite_def)
  with x y show ?thesis by blast
qed

section \<open>Concrete data\<close>

definition empty_anomaly :: anomaly where
  "empty_anomaly = \<lparr>an_node_id = ''azure-anomaly-01'', an_alert_threshold = default_alert_threshold,
     an_history_window = default_history_window, an_history = [], an_alerts = []\<rparr>"

definition change_event :: "pyfloat \<Rightarrow> market_event" where
  "change_event c = demo_event\<lparr>ev_symbol := ''BTC'', ev_window := [(''price_change_1m'', c), (''volume_change_1m'', Fin 0)]\<rparr>"

lemma change_event_simps [simp]:
  "ev_symbol (change_event c) = ''BTC''"
  "extract_features (change_event c) = [c, Fin 0, ev_price demo_event, ev_volume demo_event]"
  by (simp_all add: change_event_def extract_features_def dict_get_def)

lemma empty_history [simp]: "history_of empty_anomaly s = []"
  by (simp add: empty_anomaly_def history_of_def)

lemma spike_scores: "event_scores None (change_event (Fin (1 / 4))) empty_anomaly = Inr (Fin 1, Fin 0)"
  by (simp add: event_scores_def rule_based_score_def model_score_def fl_eval pymin_def)

lemma calm_scores: "event_scores None (change_event (Fin 0)) empty_anomaly = Inr (Fin 0, Fin 0)"
  by (simp add: event_scores_def rule_based_score_def model_score_def fl_eval pymin_def)

lemma threshold_bounds: "\<not> flt (pymax (Fin 1) (Fin 0)) (an_alert_threshold empty_anomaly)"
  "flt (pymax (Fin 0) (Fin 0)) (an_alert_threshold empty_anomaly)"
proof -
  obtain r where "fl (82 / 100) = Fin r" "0 < r" "r \<le> 1" using fl_pos [of "82 / 100"] by auto
  then show "\<not> flt (pymax (Fin 1) (Fin 0)) (an_alert_threshold empty_anomaly)"
    "flt (pymax (Fin 0) (Fin 0)) (an_alert_threshold empty_anomaly)"
    by (simp_all add: empty_anomaly_def default_alert_threshold_def pymax_def)
qed

lemma empty_anomaly_node [simp]: "str_between 3 128 (an_node_id empty_anomaly)"
  by (simp add: empty_anomaly_def str_between_def)

lemma file_saves [simp]: "so_save (file_ops p) j s = (Inr (), save_json_file p j s)"
  by (simp add: file_ops_def)

lemma no_appender [simp]: "quiet_appender None"
  by unfold_locales simp

definition spike_result ::
    "(fs, unit) anomaly_state \<Rightarrow> ((fs, unit) anomaly_state, anomaly_alert option) outcome" where
  "spike_result s0 = analyze_event (file_ops (Some ''f'')) None None ''0123456789abcdef'' 7 (change_event (Fin (1 / 4))) s0"

lemma spike_raised:
  "spike_result (empty_anomaly, Map.empty, ()) =
     (Inr (Some (new_alert ''0123456789abcdef'' 7 (change_event (Fin (1 / 4))) (Fin 1) (Fin 0))),
      (alerted_state ''0123456789abcdef'' 7 (change_event (Fin (1 / 4))) (Fin 1) (Fin 0) empty_anomaly,
       save_json_file (Some ''f'') (anomaly_doc
         (alerted_state ''0123456789abcdef'' 7 (change_event (Fin (1 / 4))) (Fin 1) (Fin 0) empty_anomaly)) Map.empty, ()))"
  unfolding spike_result_def analyze_alert [OF spike_scores threshold_bounds(1)] file_saves
  by (simp add: record_ledger_event_def)

section \<open>Alerts\<close>

lemma round_unit: "0 \<le> r \<Longrightarrow> r \<le> 1 \<Longrightarrow> \<exists>q. round_nd 4 (Fin r) = Fin q \<and> 0 \<le> q \<and> q \<le> 1"
proof -
  assume r: "0 \<le> r" "r \<le> 1"
  have "0 \<le> half_even (r * 10 ^ 4)" using r half_even_ge [of 0 "r * 10 ^ 4"] by simp
  moreover have "half_even (r * 10 ^ 4) \<le> 10 ^ 4" using r half_even_le [of "r * 10 ^ 4" "10 ^ 4"] by simp
  then have "real_of_int (half_even (r * 10 ^ 4)) \<le> 10 ^ 4" by simp
  ultimately have "0 \<le> real_of_int (half_even (r * 10 ^ 4)) / 10 ^ 4" "real_of_int (half_even (r * 10 ^ 4)) / 10 ^ 4 \<le> 1"
    by (simp_all add: divide_le_eq)
  from fl_unit [OF this] show ?thesis by auto
qed

lemma severity_known: "severity x \<in> set severities"
  by (simp add: severity_def severities_def)

text \<open>
  C17. Every alert that is raised is well formed: its score is a number between zero and
  one, its severity one of the four, it waits for review, it carries the event's id and
  symbol and the reached threshold; and it is stored under its own id.
\<close>

theorem raised_alert_well_formed:
  assumes "analyze_event ops forest appender uuid now event (st, s, w) = (Inr (Some a), (st', s', w'))"
  shows "(\<exists>r. al_score a = Fin r \<and> 0 \<le> r \<and> r \<le> 1) \<and> al_severity a \<in> set severities \<and>
     al_status a = ''pending_review'' \<and> alert_ok a \<and> al_event_id a = ev_event_id event \<and> al_symbol a = ev_symbol event \<and>
     get_alert (al_alert_id a) st' = Some a \<and>
     (\<exists>rule model. event_scores forest event st = Inr (rule, model) \<and>
        \<not> flt (pymax rule model) (an_alert_threshold st) \<and> al_severity a = severity (pymax rule model))"
proof -
  from analyze_state [OF assms] obtain rule model where es: "event_scores forest event st = Inr (rule, model)"
    and nb: "\<not> flt (pymax rule model) (an_alert_threshold st)"
    and st': "st' = alerted_state uuid now event rule model st"
    and a: "a = new_alert uuid now event rule model"
    by (auto split: if_splits)
  obtain r where "pymax rule model = Fin r" "0 \<le> r" "r \<le> 1" using event_scores_unit [OF es] by blast
  then have "\<exists>q. al_score a = Fin q \<and> 0 \<le> q \<and> q \<le> 1" using round_unit by (simp add: a new_alert_def del: round_nd.simps)
  moreover have "alert_ok a" using severity_known by (simp add: a new_alert_def alert_ok_def alert_statuses_def)
  ultimately show ?thesis
    using es nb severity_known
    by (auto simp: st' a alerted_state_def new_alert_def get_alert_def)
qed

theorem raised_alert_well_formed_witness:
  "\<exists>a st' s' w'. spike_result (empty_anomaly, Map.empty, ()) = (Inr (Some a), (st', s', w')) \<and>
     (\<exists>r. al_score a = Fin r \<and> 0 \<le> r \<and> r \<le> 1) \<and> get_alert (al_alert_id a) st' = Some a"
  using raised_alert_well_formed [OF spike_raised [unfolded spike_result_def]] spike_raised by blast

text \<open>
  An event that reaches the threshold becomes an alert: with a store that saves and an
  appender that returns, the answer is that alert, the store holds the state with it, and
  one \<open>anomaly_alert_created\<close> entry is recorded; below the threshold the answer is none and
  neither the store nor the ledger is touched. The sample enters the history either way.
\<close>

theorem alert_iff_threshold_reached:
  assumes "event_scores forest event st = Inr (rule, model)"
    and "so_save ops (anomaly_doc (alerted_state uuid now event rule model st)) s = (Inr (), s1)"
    and "quiet_appender appender" "str_between 3 128 (an_node_id st)"
  shows "analyze_event ops forest appender uuid now event (st, s, w) =
     (if flt (pymax rule model) (an_alert_threshold st) then (Inr None, (scored_state event st, s, w))
      else (Inr (Some (new_alert uuid now event rule model)),
        (alerted_state uuid now event rule model st, s1,
         snd (record_ledger_event appender ''anomaly_alert_created'' (an_node_id st)
                (alert_fields (new_alert uuid now event rule model)) w)))) \<and>
     history_of (scored_state event st) (ev_symbol event) =
       deque_append (an_history_window st) (extract_features event) (history_of st (ev_symbol event)) \<and>
     history_of (alerted_state uuid now event rule model st) (ev_symbol event) =
       deque_append (an_history_window st) (extract_features event) (history_of st (ev_symbol event))"
proof -
  have "str_between 3 128 ''anomaly_alert_created''" by (simp add: str_between_def)
  then have q: "r = Inr ()" if "record_ledger_event appender ''anomaly_alert_created'' (an_node_id st) d w = (r, w1)" for r d w1
    using quiet_appender.record_quiet_result [OF assms(3) that] assms(4) by blast
  have h: "history_of (alerted_state uuid now event rule model st) s = history_of (scored_state event st) s" for s
    by (simp add: alerted_state_def history_of_def)
  show ?thesis
    using assms(1,2)
    by (auto simp: analyze_below analyze_alert scored_history h split: prod.split sum.split dest: q)
qed

theorem alert_iff_threshold_reached_witness:
  "fst (spike_result (empty_anomaly, Map.empty, ())) =
     Inr (Some (new_alert ''0123456789abcdef'' 7 (change_event (Fin (1 / 4))) (Fin 1) (Fin 0)))"
  unfolding spike_result_def
  by (subst alert_iff_threshold_reached [OF spike_scores file_saves no_appender empty_anomaly_node, THEN conjunct1])
    (simp add: threshold_bounds(1) [simplified])

definition histories_bounded :: "anomaly \<Rightarrow> bool" where
  "histories_bounded st \<longleftrightarrow> (\<forall>s. length (history_of st s) \<le> an_history_window st)"

text \<open>
  No history grows beyond the window, whatever is analysed and whatever fails.
\<close>

theorem history_stays_bounded:
  assumes "histories_bounded st"
    and "analyze_event ops forest appender uuid now event (st, s, w) = (r, (st', s', w'))"
  shows "histories_bounded st' \<and> an_history_window st' = an_history_window st"
proof -
  have h: "history_of (alerted_state uuid now event rule model st) t = history_of (scored_state event st) t" for rule model t
    by (simp add: alerted_state_def history_of_def)
  have w: "an_history_window (alerted_state uuid now event rule model st) = an_history_window st" for rule model
    by (simp add: alerted_state_def)
  from analyze_state [OF assms(2)] assms(1) show ?thesis
    by (auto simp: histories_bounded_def h w scored_history deque_append_length split: if_splits)
qed

theorem history_stays_bounded_witness:
  "\<exists>r st' s' w'. spike_result (empty_anomaly, Map.empty, ()) = (r, (st', s', w')) \<and> histories_bounded st'"
  using history_stays_bounded [OF _ spike_raised [unfolded spike_result_def]] spike_raised
  by (auto simp: histories_bounded_def)

definition poisoned :: "anomaly \<Rightarrow> string \<Rightarrow> bool" where
  "poisoned st s \<longleftrightarrow> length (history_of st s) > 1 \<and> \<not> scores_finite (history_of st s)"

lemma poisoned_scores: "poisoned st (ev_symbol event) \<Longrightarrow> event_scores forest event st = Inl (AttributeError ''numerator'')"
  using rule_score_total [of "history_of st (ev_symbol event)" "extract_features event"]
  by (simp add: event_scores_def poisoned_def)

text \<open>
  C18. A symbol is lost for good once two samples are in its history and one of them has an
  infinite or NaN change: every later analysis of it raises, before the sample could
  enter the history, so the bad sample is never pushed out; other symbols are untouched.
\<close>

theorem poisoned_symbol_stays_poisoned:
  assumes "poisoned st z"
    and "analyze_event ops forest appender uuid now event (st, s, w) = (r, (st', s', w'))"
  shows "poisoned st' z \<and> history_of st' z = history_of st z \<and>
     (ev_symbol event = z \<longrightarrow> r = Inl (AttributeError ''numerator'') \<and> an_alerts st' = an_alerts st \<and> s' = s \<and> w' = w)"
proof (cases "ev_symbol event = z")
  case True
  with assms(1) have "event_scores forest event st = Inl (AttributeError ''numerator'')" using poisoned_scores by blast
  from analyze_raises [OF this, of ops appender uuid now s w] assms True show ?thesis
    by (auto simp: poisoned_def)
next
  case False
  have h: "history_of (alerted_state uuid now event rule model st) t = history_of (scored_state event st) t" for rule model t
    by (simp add: alerted_state_def history_of_def)
  have "history_of st' z = history_of st z"
    using analyze_state [OF assms(2)] False by (auto simp: h scored_history split: if_splits)
  then show ?thesis using assms(1) False by (simp add: poisoned_def)
qed

definition poisoned_anomaly :: anomaly where
  "poisoned_anomaly = empty_anomaly\<lparr>an_history := [(''BTC'', [[PInf, Fin 0, Fin 1, Fin 1], [Fin 0, Fin 0, Fin 1, Fin 1]])]\<rparr>"

theorem poisoned_symbol_stays_poisoned_witness:
  "\<exists>r st' s' w'. spike_result (poisoned_anomaly, Map.empty, ()) = (r, (st', s', w')) \<and>
     poisoned st' ''BTC'' \<and> r = Inl (AttributeError ''numerator'')"
proof -
  obtain r st' s' w' where e: "spike_result (poisoned_anomaly, Map.empty, ()) = (r, (st', s', w'))"
    by (metis prod_cases4)
  have "poisoned poisoned_anomaly ''BTC''"
    by (simp add: poisoned_def poisoned_anomaly_def history_of_def scores_finite_def is_finite_def)
  from poisoned_symbol_stays_poisoned [OF this e [unfolded spike_result_def]] e show ?thesis by simp
qed

text \<open>
  A NaN change is taken for the largest deviation: whenever the rules give a score at
  all, a NaN price or volume change scores one, a critical alert under every threshold up
  to one.
\<close>

theorem nan_change_scores_one:
  assumes "f ! 0 = NaN \<or> f ! 1 = NaN" "rule_based_score f h = Inr x"
  shows "x = Fin 1 \<and> severity x = ''critical''"
proof -
  have fmul_nan: "fmul c NaN = NaN" "fmul NaN c = NaN" and fadd_nan: "fadd c NaN = NaN" "fadd NaN c = NaN"
    and fdiv_nan: "fdiv_nonzero NaN c = NaN" for c by (cases c; simp)+
  have "pymin (Fin 1) NaN = Fin 1" by (simp add: pymin_def)
  then have x: "x = Fin 1"
    using assms by (auto simp: rule_based_score_def Let_def bindR_Inr_iff fdiv_def fmul_nan fadd_nan fdiv_nan
        split: if_splits)
  have "fle (fl (95 / 100)) (Fin 1)" using fl_mono [of "95 / 100" 1] by simp
  then show ?thesis by (simp add: x severity_def)
qed

theorem nan_change_scores_one_witness:
  "rule_based_score [NaN, Fin 0, Fin 1, Fin 1] [] = Inr (Fin 1)"
proof -
  obtain x where x: "rule_based_score [NaN, Fin 0, Fin 1, Fin 1] [] = Inr x"
    using rule_score_total [of "[]" "[NaN, Fin 0, Fin 1, Fin 1]"] by auto
  with nan_change_scores_one [OF _ x] show ?thesis by simp
qed

section \<open>Reviews\<close>

text \<open>
  A review changes the status of the alert it names and nothing else: an unknown id is
  answered 404 with no change; otherwise every other field and every other alert stay as
  they were, and the order of the alerts is kept.
\<close>

theorem review_changes_only_status:
  assumes "validate_review (utc_now now) body = Some review"
    and "review_alert_ep ops appender now k body (st, s, w) = (r, (st', s', w'))"
  shows "(get_alert k st = None \<longrightarrow> r = Inl (HTTPException 404 ''alert not found'') \<and> st' = st \<and> s' = s \<and> w' = w) \<and>
     (\<forall>a. get_alert k st = Some a \<longrightarrow>
        get_alert k st' = Some (a\<lparr>al_status := rv_status review\<rparr>) \<and>
        (\<forall>j. j \<noteq> k \<longrightarrow> get_alert j st' = get_alert j st) \<and>
        dict_keys (an_alerts st') = dict_keys (an_alerts st) \<and> an_history st' = an_history st \<and>
        (r = Inr (a\<lparr>al_status := rv_status review\<rparr>) \<or> (\<exists>e. r = Inl e)) \<and> rv_status review \<in> set review_statuses)"
proof -
  have "rv_status review \<in> set review_statuses" using validate_review_ok [OF assms(1)] by (simp add: review_ok_def)
  moreover have keys: "dict_keys (dict_set k b (an_alerts st)) = dict_keys (an_alerts st)" if "map_of (an_alerts st) k = Some a" for a b
    using that dict.keys_insert dict.keys_lookup by (metis option.distinct(1))
  ultimately show ?thesis
    using assms
    by (auto simp: review_alert_ep_def review_alert_def alert_not_found_def get_alert_def Let_def keys
        split: option.splits prod.splits sum.splits)
qed

theorem review_changes_only_status_witness:
  "\<exists>st' s' w'. review_alert_ep (file_ops None) None 9 ''alt_x'' (JObj [(''reviewer'', JStr ''r''), (''status'', JStr ''confirmed'')])
      (empty_anomaly, Map.empty, ()) = (Inl (HTTPException 404 ''alert not found''), (st', s', w')) \<and> st' = empty_anomaly"
proof -
  let ?body = "JObj [(''reviewer'', JStr ''r''), (''status'', JStr ''confirmed'')]"
  have v: "validate_review (utc_now 9) ?body =
      Some \<lparr>rv_reviewer = ''r'', rv_status = ''confirmed'', rv_notes = None, rv_reviewed_at = utc_now 9\<rparr>"
    by (simp add: validate_review_def reader_simps review_statuses_def)
  obtain r st' s' w' where e: "review_alert_ep (file_ops None) None 9 ''alt_x'' ?body (empty_anomaly, Map.empty, ()) = (r, (st', s', w'))"
    by (metis prod_cases4)
  from review_changes_only_status [OF v e] e show ?thesis by (simp add: get_alert_def empty_anomaly_def)
qed

section \<open>Restart\<close>

text \<open>
  A store that keeps what it was told: a save that returns is what the next load sees. The
  file store is one; the blob store is one if the SDK is installed and stores.
\<close>

locale durable_store =
  fixes ops :: "'s store_ops"
  assumes save_load: "so_save ops j s = (Inr (), s') \<Longrightarrow> fst (so_load ops d s') = Inr j"
begin

lemma saved_is_loaded:
  "so_save ops j s = (Inr (), s') \<Longrightarrow> bindR (fst (so_load ops d s')) f = f j"
  by (simp add: save_load)

end

interpretation file_durable: durable_store "file_ops (Some p)" for p
  by unfold_locales (auto simp: file_ops_def load_json_file_def save_json_file_def)

lemma blob_durable: "sdk_installed sdk \<Longrightarrow> sdk_stores sdk \<Longrightarrow> durable_store (blob_ops sdk)"
  by unfold_locales (simp add: blob_ops_def blob_save_load)

lemma features_dump [simp]: "features_of_json (dump_features f) = Some f"
  unfolding dump_features_def features_of_json.simps by (rule mapO_map) simp

lemma history_dump [simp]: "history_of_json (JList (map dump_features h)) = Inr h"
  unfolding history_of_json_def by (rule load_models_dump) simp

definition alerts_ok :: "anomaly \<Rightarrow> bool" where
  "alerts_ok st \<longleftrightarrow> dict_ok (an_alerts st) \<and> dict_ok (an_history st) \<and> list_all alert_ok (dict_values (an_alerts st)) \<and>
     list_all (\<lambda>h. length h \<le> an_history_window st) (dict_values (an_history st))"

lemma load_alerts:
  "list_all alert_ok (map snd al) \<Longrightarrow>
     mapR (\<lambda>(k, item). bindR (validated n (validate_alert px t item)) (\<lambda>a. Inr (k, a)))
       (map (\<lambda>(k, a). (k, dump_alert a)) al) = Inr al"
  by (induction al) (auto simp: validate_dump_alert split: prod.splits)

lemma load_histories:
  "list_all (\<lambda>h. length h \<le> w) (map snd hs) \<Longrightarrow>
     mapR (\<lambda>(k, items). bindR (history_of_json items) (\<lambda>h. Inr (k, deque_trim w h)))
       (map (\<lambda>(s, items). (s, JList (map dump_features items))) hs) = Inr hs"
  by (induction hs) (auto simp: deque_trim_id split: prod.splits)

context durable_store
begin

lemma anomaly_reload:
  assumes "alerts_ok st" "so_save ops (anomaly_doc st) s = (Inr (), s')"
  shows "fst (anomaly_load ops px now (an_node_id st) (an_alert_threshold st) (an_history_window st) s') = Inr st"
proof -
  obtain s'' where l: "so_load ops (JObj [(''alerts'', JObj []), (''history_by_symbol'', JObj [])]) s' = (Inr (anomaly_doc st), s'')"
    using save_load [OF assms(2)] by (metis prod.collapse)
  show ?thesis
    using assms(1) unfolding anomaly_load_def l
    by (simp add: anomaly_doc_def alerts_ok_def dict_values_def load_alerts load_histories dict_of_id)
qed

end

lemma dict_set_all:
  "list_all P (dict_values d) \<Longrightarrow> P v \<Longrightarrow> list_all P (dict_values (dict_set k v d))"
  using dict_set_values [of k v d] by (auto simp: list_all_iff)

lemma touch_ok: "dict_ok h \<Longrightarrow> dict_ok (touch s h)"
  by (simp add: touch_def split: option.splits)

lemma alerted_ok:
  assumes "alerts_ok st"
  shows "alerts_ok (alerted_state uuid now event rule model st)"
proof -
  have "list_all (\<lambda>h. length h \<le> an_history_window st) (dict_values (touch (ev_symbol event) (an_history st)))"
    using assms by (auto simp: alerts_ok_def touch_def intro!: dict_set_all split: option.splits)
  moreover have "alert_ok (new_alert uuid now event rule model)"
    using severity_known by (simp add: new_alert_def alert_ok_def alert_statuses_def)
  ultimately show ?thesis
    using assms unfolding alerts_ok_def alerted_state_def scored_state_def
    by (simp add: touch_ok dict_set_all deque_append_length)
qed

text \<open>
  Restart after an alert: from any well-formed state, with a store that keeps what it
  saves, the service that starts on the store after the alert was raised has the same
  alerts, in their order, and the same history of every symbol.
\<close>

theorem restart_after_alert:
  assumes "alerts_ok st" "durable_store ops"
    and "analyze_event ops forest appender uuid now event (st, s, w) = (r, (st', s', w'))"
    and "event_scores forest event st = Inr (rule, model)" "\<not> flt (pymax rule model) (an_alert_threshold st)"
    and "fst (so_save ops (anomaly_doc st') s) = Inr ()"
  shows "fst (anomaly_load ops px now' (an_node_id st') (an_alert_threshold st') (an_history_window st') s') = Inr st'"
proof -
  have st': "st' = alerted_state uuid now event rule model st \<and> s' = snd (so_save ops (anomaly_doc st') s)"
    using analyze_state [OF assms(3)] assms(4,5) by auto
  then have "so_save ops (anomaly_doc st') s = (Inr (), s')" using assms(6) by (metis prod.collapse)
  moreover have "alerts_ok st'" using st' alerted_ok [OF assms(1)] by simp
  ultimately show ?thesis using durable_store.anomaly_reload [OF assms(2)] by blast
qed

theorem restart_after_alert_witness:
  "\<exists>r st' s' w'. spike_result (empty_anomaly, Map.empty, ()) = (r, (st', s', w')) \<and>
     fst (anomaly_load (file_ops (Some ''f'')) strict_pydantic 9 (an_node_id st') (an_alert_threshold st') (an_history_window st') s') = Inr st'"
proof -
  have "alerts_ok empty_anomaly" by (simp add: alerts_ok_def empty_anomaly_def dict_values_def)
  from restart_after_alert [OF this file_durable.durable_store_axioms spike_raised [unfolded spike_result_def] spike_scores
      threshold_bounds(1)] show ?thesis unfolding spike_raised by auto
qed

text \<open>
  Samples since the last alert or review are not durable: an event below the threshold
  changes the history in memory and leaves the store as it was.
\<close>

theorem quiet_samples_not_saved:
  assumes "analyze_event ops forest appender uuid now event (st, s, w) = (Inr None, (st', s', w'))"
  shows "s' = s \<and> w' = w \<and> an_alerts st' = an_alerts st \<and>
     history_of st' (ev_symbol event) =
       deque_append (an_history_window st) (extract_features event) (history_of st (ev_symbol event))"
  using analyze_state [OF assms] by (auto simp: scored_history split: if_splits)



theorem quiet_samples_not_saved_witness:
  "\<exists>st' s' w'. analyze_event (file_ops (Some ''f'')) None None ''0123456789abcdef'' 7 (change_event (Fin 0))
      (empty_anomaly, Map.empty, ()) = (Inr None, (st', s', w')) \<and> s' = Map.empty \<and> length (history_of st' ''BTC'') = 1"
proof -
  have e: "analyze_event (file_ops (Some ''f'')) None None ''0123456789abcdef'' 7 (change_event (Fin 0))
      (empty_anomaly, Map.empty, ()) = (Inr None, (scored_state (change_event (Fin 0)) empty_anomaly, Map.empty, ()))"
    by (rule analyze_below [OF calm_scores threshold_bounds(2)])
  from quiet_samples_not_saved [OF e] e show ?thesis
    by (simp add: empty_anomaly_def deque_append_def deque_trim_def default_history_window_def history_of_def)
qed

end
