(* ===== verification/Risk.thy ===== *)
theory Risk
  imports Anomaly
begin

text \<open>
  \<open>gcp_risk/service.py\<close> and the handlers of \<open>gcp_risk/main.py\<close>: market events per symbol, a
  portfolio, and risk snapshots computed from the returns of its positions.
\<close>

record risk =
  rk_node_id :: string
  rk_state_path :: "path option"
  rk_auto_compute :: bool
  rk_events :: "(string, market_event list) dict"
  rk_portfolio :: "portfolio option"
  rk_snapshots :: "risk_snapshot list"
  rk_fs :: fs

section \<open>Statistics of a series of returns\<close>

text \<open>
  \<open>_returns_for_symbol\<close>: one relative change per pair of neighbours, none after a zero price.
\<close>

fun price_returns :: "pyfloat list \<Rightarrow> pyfloat list result" where
  "price_returns (p # q # ps) =
     (if ftruth p then
        bindR (fdiv (fsub q p) p) (\<lambda>r. bindR (price_returns (q # ps)) (\<lambda>rs. Inr (r # rs)))
      else price_returns (q # ps))"
| "price_returns _ = Inr []"

definition returns_for_symbol :: "string \<Rightarrow> risk \<Rightarrow> pyfloat list result" where
  "returns_for_symbol symbol st = price_returns (map ev_price (dict_get (rk_events st) symbol []))"

text \<open>\<open>sorted\<close> on floats; it is only reached with one value or with finite ones.\<close>

fun insert_sorted :: "pyfloat \<Rightarrow> pyfloat list \<Rightarrow> pyfloat list" where
  "insert_sorted x [] = [x]"
| "insert_sorted x (y # ys) = (if flt x y then x # y # ys else y # insert_sorted x ys)"

definition py_sorted :: "pyfloat list \<Rightarrow> pyfloat list" where
  "py_sorted xs = foldl (\<lambda>acc x. insert_sorted x acc) [] xs"

definition tail_position :: "pyfloat \<Rightarrow> nat \<Rightarrow> int result" where
  "tail_position confidence n = int_of_float (fmul (fsub (Fin 1) confidence) (fl (of_nat n)))"

definition historical_var :: "pyfloat list \<Rightarrow> pyfloat \<Rightarrow> pyfloat result" where
  "historical_var returns confidence =
     (if returns = [] then Inr (Fin 0)
      else let sorted_returns = py_sorted returns
           in bindR (tail_position confidence (length sorted_returns)) (\<lambda>i.
              Inr (sorted_returns ! nat (max 0 (min (int (length sorted_returns) - 1) i)))))"

fun equity_curve :: "pyfloat \<Rightarrow> pyfloat list \<Rightarrow> pyfloat list" where
  "equity_curve running [] = []"
| "equity_curve running (item # items) =
     (let r = fmul running (fadd (Fin 1) item) in r # equity_curve r items)"

fun drawdown_loop :: "pyfloat \<Rightarrow> pyfloat \<Rightarrow> pyfloat list \<Rightarrow> pyfloat result" where
  "drawdown_loop peak max_dd [] = Inr max_dd"
| "drawdown_loop peak max_dd (value # values) =
     (let peak1 = pymax peak value
      in bindR (fdiv (fsub value peak1) peak1) (\<lambda>dd. drawdown_loop peak1 (pymin max_dd dd) values))"

definition max_drawdown :: "pyfloat list \<Rightarrow> pyfloat result" where
  "max_drawdown returns =
     (if returns = [] then Inr (Fin 0)
      else let curve = equity_curve (Fin 1) returns in drawdown_loop (hd curve) (Fin 0) curve)"

definition rolling_return :: "pyfloat list \<Rightarrow> int \<Rightarrow> pyfloat" where
  "rolling_return returns window =
     (if returns = [] then Fin 0
      else fsub (foldl (\<lambda>result item. fmul result (fadd (Fin 1) item)) (Fin 1) (slice_last window returns)) (Fin 1))"

definition volatility :: "pyfloat list \<Rightarrow> pyfloat result" where
  "volatility returns =
     (if length returns > 1 then bindR (stat_pstdev returns) (\<lambda>s. Inr (fmul s (fl (sqrt 252)))) else Inr (Fin 0))"

section \<open>Portfolio returns\<close>

text \<open>\<open>{position.symbol: self._returns_for_symbol(position.symbol) for position in positions}\<close>\<close>

definition series_by_symbol :: "position list \<Rightarrow> risk \<Rightarrow> (string, pyfloat list) dict result" where
  "series_by_symbol positions st =
     bindR (mapR (\<lambda>p. bindR (returns_for_symbol (po_symbol p) st) (\<lambda>s. Inr (po_symbol p, s))) positions) (\<lambda>kvs.
     Inr (dict_of kvs))"

definition common_length :: "(string, pyfloat list) dict \<Rightarrow> nat" where
  "common_length series =
     (case filter (\<lambda>n. n \<noteq> 0) (map length (dict_values series)) of [] \<Rightarrow> 0 | n # ns \<Rightarrow> fold min ns n)"

text \<open>\<open>series[index]\<close> with \<open>index = -k\<close>; an index within the common length is in range.\<close>

definition symbol_return :: "pyfloat list \<Rightarrow> nat \<Rightarrow> pyfloat" where
  "symbol_return series k = (if series = [] then Fin 0 else the (py_index series (- int k)))"

definition portfolio_return :: "(string, pyfloat list) dict \<Rightarrow> position list \<Rightarrow> nat \<Rightarrow> pyfloat" where
  "portfolio_return series positions k =
     foldl (\<lambda>acc p. fadd acc (fmul (po_weight p) (symbol_return (dict_get series (po_symbol p) []) k))) (Fin 0) positions"

text \<open>\<open>for index in range(-common_length, 0)\<close>: \<open>k\<close> runs from \<open>common_length\<close> down to one.\<close>

definition portfolio_returns :: "(string, pyfloat list) dict \<Rightarrow> position list \<Rightarrow> pyfloat list" where
  "portfolio_returns series positions =
     map (portfolio_return series positions) (rev [1..<Suc (common_length series)])"

section \<open>State file\<close>

definition risk_doc :: "risk \<Rightarrow> json" where
  "risk_doc st = JObj [
     (''events_by_symbol'', JObj (map (\<lambda>(s, es). (s, JList (map dump_event es))) (rk_events st))),
     (''portfolio'', case rk_portfolio st of None \<Rightarrow> JNull | Some p \<Rightarrow> dump_portfolio p),
     (''snapshots'', JList (map dump_snapshot (rk_snapshots st)))]"

definition risk_save :: "risk \<Rightarrow> risk" where
  "risk_save st = st\<lparr>rk_fs := save_json_file (rk_state_path st) (risk_doc st) (rk_fs st)\<rparr>"

definition risk_load :: "pydantic \<Rightarrow> int \<Rightarrow> string \<Rightarrow> path option \<Rightarrow> bool \<Rightarrow> fs \<Rightarrow> risk result" where
  "risk_load px now node_id state_path auto_compute fs =
     bindR (load_json_file fs state_path
       (JObj [(''events_by_symbol'', JObj []), (''portfolio'', JNull), (''snapshots'', JList [])])) (\<lambda>payload.
     bindR (json_get payload ''events_by_symbol'' (JObj [])) (\<lambda>ej.
     bindR (json_items ej) (\<lambda>eitems.
     bindR (mapR (\<lambda>(s, es). bindR (load_models ''MarketEvent'' (validate_event px (utc_now now)) es)
                    (\<lambda>evs. Inr (s, evs))) eitems) (\<lambda>events.
     bindR (json_get payload ''portfolio'' JNull) (\<lambda>pj.
     bindR (if jtruth pj then bindR (validated ''Portfolio'' (validate_portfolio px pj)) (\<lambda>p. Inr (Some p))
            else Inr None) (\<lambda>pf.
     bindR (json_get payload ''snapshots'' (JList [])) (\<lambda>sj.
     bindR (load_models ''RiskSnapshot'' (validate_snapshot px (utc_now now)) sj) (\<lambda>snaps.
     Inr \<lparr>rk_node_id = node_id, rk_state_path = state_path, rk_auto_compute = auto_compute,
       rk_events = dict_of events, rk_portfolio = pf, rk_snapshots = snaps, rk_fs = fs\<rparr>))))))))"

section \<open>Operations\<close>

definition set_portfolio :: "portfolio \<Rightarrow> risk \<Rightarrow> portfolio \<times> risk" where
  "set_portfolio p st = (p, risk_save (st\<lparr>rk_portfolio := Some p\<rparr>))"

definition snapshot_fields :: "risk_snapshot \<Rightarrow> (string, json) dict" where
  "snapshot_fields s = (case dump_snapshot s of JObj d \<Rightarrow> d | _ \<Rightarrow> [])"

text \<open>The figures of a snapshot, in the order the code computes them.\<close>

definition risk_figures :: "pyfloat list \<Rightarrow> (pyfloat \<times> pyfloat \<times> pyfloat \<times> pyfloat) result" where
  "risk_figures returns =
     bindR (volatility returns) (\<lambda>vol.
     bindR (historical_var returns (fl (95 / 100))) (\<lambda>var95.
     bindR (max_drawdown returns) (\<lambda>dd.
     Inr (vol, var95, dd, rolling_return returns 24))))"

definition compute_risk ::
    "'w ledger_appender option \<Rightarrow> string \<Rightarrow> int \<Rightarrow> portfolio option \<Rightarrow> risk \<times> 'w \<Rightarrow> (risk \<times> 'w, risk_snapshot) outcome" where
  "compute_risk appender uuid now argument s0 =
     (case s0 of (st, w) \<Rightarrow>
        case (case argument of Some p \<Rightarrow> Some p | None \<Rightarrow> rk_portfolio st) of
          None \<Rightarrow> (Inl (ValueError ''portfolio is required before risk can be computed''), s0)
        | Some p \<Rightarrow>
            (case bindR (series_by_symbol (pf_positions p) st) (\<lambda>series.
                    risk_figures (portfolio_returns series (pf_positions p))) of
               Inl e \<Rightarrow> (Inl e, s0)
             | Inr (vol, var95, dd, rolling) \<Rightarrow>
                 let snapshot = \<lparr>rs_snapshot_id = make_prefixed_id ''risk'' uuid, rs_portfolio_id = pf_portfolio_id p,
                       rs_as_of = utc_now now, rs_volatility = round_nd 6 vol, rs_value_at_risk_95 = round_nd 6 var95,
                       rs_max_drawdown = round_nd 6 dd, rs_rolling_return_1d = round_nd 6 rolling\<rparr>;
                     st1 = st\<lparr>rk_snapshots := rk_snapshots st @ [snapshot]\<rparr>
                 in case record_ledger_event appender ''risk_snapshot_computed'' (rk_node_id st1) (snapshot_fields snapshot) w of
                      (Inl e, w1) \<Rightarrow> (Inl e, (st1, w1))
                    | (Inr _, w1) \<Rightarrow> (Inr snapshot, (risk_save st1, w1))))"

definition ingest_event ::
    "'w ledger_appender option \<Rightarrow> string \<Rightarrow> int \<Rightarrow> market_event \<Rightarrow> risk \<times> 'w \<Rightarrow> (risk \<times> 'w, market_event) outcome" where
  "ingest_event appender uuid now event s0 =
     (case s0 of (st, w) \<Rightarrow>
        let st1 = risk_save (st\<lparr>rk_events := dict_set (ev_symbol event)
                    (dict_get (rk_events st) (ev_symbol event) [] @ [event]) (rk_events st)\<rparr>)
        in if rk_auto_compute st1 \<and> rk_portfolio st1 \<noteq> None
           then (case compute_risk appender uuid now None (st1, w) of
                   (Inl e, s1) \<Rightarrow> (Inl e, s1) | (Inr _, s1) \<Rightarrow> (Inr event, s1))
           else (Inr event, (st1, w)))"

definition latest_snapshot :: "risk \<Rightarrow> risk_snapshot option" where
  "latest_snapshot st = (if rk_snapshots st = [] then None else Some (last (rk_snapshots st)))"

definition risk_health :: "risk \<Rightarrow> json" where
  "risk_health st = JObj [
     (''status'', JStr ''ok''),
     (''service'', JStr ''gcp_risk''),
     (''node_id'', JStr (rk_node_id st)),
     (''symbols_tracked'', JInt (int (length (rk_events st)))),
     (''portfolio_loaded'', JBool (rk_portfolio st \<noteq> None)),
     (''snapshots'', JInt (int (length (rk_snapshots st))))]"

section \<open>Endpoints\<close>

definition compute_risk_ep ::
    "'w ledger_appender option \<Rightarrow> string \<Rightarrow> int \<Rightarrow> portfolio option \<Rightarrow> risk \<times> 'w \<Rightarrow> (risk \<times> 'w, risk_snapshot) outcome" where
  "compute_risk_ep appender uuid now argument s0 =
     (case compute_risk appender uuid now argument s0 of
        (Inl (ValueError m), s1) \<Rightarrow> (Inl (HTTPException 400 m), s1)
      | r \<Rightarrow> r)"

definition latest_snapshot_ep :: "risk \<Rightarrow> risk_snapshot result" where
  "latest_snapshot_ep st = (case latest_snapshot st of
     None \<Rightarrow> Inl (HTTPException 404 ''no risk snapshot available'') | Some s \<Rightarrow> Inr s)"

definition get_portfolio_ep :: "risk \<Rightarrow> portfolio result" where
  "get_portfolio_ep st = (case rk_portfolio st of
     None \<Rightarrow> Inl (HTTPException 404 ''no portfolio configured'') | Some p \<Rightarrow> Inr p)"

text \<open>The route \<open>/risk/events\<close>: body validation, then the service with \<open>auto_compute\<close>.\<close>

definition ingest_event_ep ::
    "'w ledger_appender option \<Rightarrow> pydantic \<Rightarrow> string \<Rightarrow> int \<Rightarrow> json \<Rightarrow> risk \<times> 'w \<Rightarrow> (risk \<times> 'w, market_event) outcome" where
  "ingest_event_ep appender px uuid now body s0 =
     (case validate_event px (utc_now now) body of
        None \<Rightarrow> (Inl (HTTPException 422 ''Unprocessable Entity''), s0)
      | Some event \<Rightarrow> ingest_event appender uuid now event s0)"

end
