(* ===== verification/RiskSpec.thy ===== *)
theory RiskSpec
  imports Risk AnomalySpec
begin

text \<open>
  What the risk service promises: returns never divide by zero; value at risk is the
  twentieth part of the sorted returns; drawdown lies between minus one and zero and is
  undefined (an exception) exactly after an initial total loss; events are kept whatever
  the computation does; and a restart restores the state.
\<close>

section \<open>Returns\<close>

lemma price_returns_total: "\<exists>rs. price_returns ps = Inr rs"
  by (induction ps rule: price_returns.induct) (auto simp: ftruth_def fdiv_def)

definition price_pairs :: "pyfloat list \<Rightarrow> (pyfloat \<times> pyfloat) list" where
  "price_pairs ps = zip ps (tl ps)"

text \<open>
  The returns of a symbol are always defined; there is one for each pair of
  neighbouring prices whose first price is not zero, the relative change of that pair.
\<close>

theorem returns_skip_zero_prices:
  "price_returns ps =
     Inr (map (\<lambda>(p, q). fdiv_nonzero (fsub q p) p) (filter (\<lambda>(p, q). p \<noteq> Fin 0) (price_pairs ps)))"
  by (induction ps rule: price_returns.induct) (auto simp: ftruth_def fdiv_def price_pairs_def)

section \<open>Sorting and value at risk\<close>

lemma insert_sorted_mset: "mset (insert_sorted x ys) = add_mset x (mset ys)"
  by (induction ys) auto

lemma py_sorted_mset: "mset (py_sorted xs) = mset xs"
proof -
  have "mset (foldl (\<lambda>acc x. insert_sorted x acc) acc xs) = mset acc + mset xs" for acc
    by (induction xs arbitrary: acc) (simp_all add: insert_sorted_mset)
  then show ?thesis by (simp add: py_sorted_def)
qed

lemma insert_sorted_set [simp]: "set (insert_sorted x ys) = insert x (set ys)"
  using arg_cong [OF insert_sorted_mset [of x ys], of set_mset] by simp

lemma fle_trans: "fle x y \<Longrightarrow> fle y z \<Longrightarrow> fle x z"
  by (cases x; cases y; cases z) (auto simp: fle_PInf_iff)

lemma not_flt_fle: "\<not> flt x y \<Longrightarrow> is_finite x \<Longrightarrow> is_finite y \<Longrightarrow> fle y x"
  by (cases x; cases y) (auto simp: is_finite_def)

lemma flt_fle: "flt x y \<Longrightarrow> fle x y"
  by (simp add: fle_def)

lemma insert_sorted_sorted:
  "sorted_wrt fle ys \<Longrightarrow> is_finite x \<Longrightarrow> list_all is_finite ys \<Longrightarrow> sorted_wrt fle (insert_sorted x ys)"
proof (induction ys)
  case Nil
  then show ?case by simp
next
  case (Cons y ys)
  then show ?case
    by (auto simp: list_all_iff dest: flt_fle not_flt_fle intro: fle_trans)
qed

lemma py_sorted_sorted: "list_all is_finite xs \<Longrightarrow> sorted_wrt fle (py_sorted xs)"
proof -
  have "sorted_wrt fle acc \<Longrightarrow> list_all is_finite acc \<Longrightarrow> list_all is_finite xs \<Longrightarrow>
      sorted_wrt fle (foldl (\<lambda>acc x. insert_sorted x acc) acc xs)" for acc
    by (induction xs arbitrary: acc) (simp_all add: insert_sorted_sorted list_all_iff)
  then show "list_all is_finite xs \<Longrightarrow> ?thesis" by (simp add: py_sorted_def)
qed

text \<open>The double nearest to \<open>0.95\<close>, and \<open>1 - 0.95\<close>, which is a little more than a twentieth.\<close>

lemma rnd_95: "rnd (95 / 100) = 8556839292003942 / 2 ^ 53"
proof -
  have "rnd (95 / 100) = of_int 8556839292003942 / 2 ^ 53" by (rule rnd_eval) simp_all
  then show ?thesis by simp
qed

definition tail_factor :: real where
  "tail_factor = 450359962737050 / 2 ^ 53"

lemma tail_factor_eq: "tail_factor = 1 / 20 + 8 / (20 * 2 ^ 53)"
  by (simp add: tail_factor_def)

lemma confidence_tail: "fsub (Fin 1) (fl (95 / 100)) = Fin tail_factor"
proof -
  have "fl (95 / 100) = Fin (rnd (95 / 100))" by (rule fl_eval) simp
  then have "fl (95 / 100) = Fin (1 - tail_factor)" unfolding rnd_95 by (simp add: tail_factor_def)
  moreover have "rnd tail_factor = tail_factor"
    unfolding tail_factor_def using rnd_dyadic [of 450359962737050 53] by simp
  moreover have "\<bar>tail_factor\<bar> \<le> 2 ^ 60" by (simp add: tail_factor_def)
  ultimately show ?thesis by (simp add: fsub_def fl_eval)
qed

lemma tail_position_exact:
  assumes "n \<le> 2 ^ 40"
  shows "tail_position (fl (95 / 100)) n = Inr (int (n div 20))"
proof -
  define q where "q = n div 20"
  define t where "t = n mod 20"
  have n: "n = 20 * q + t" "t < 20" by (simp_all add: q_def t_def)
  have real_n: "real n = 20 * real q + real t" by (simp add: n(1))
  let ?y = "tail_factor * real n"
  have big: "real n \<le> 2 ^ 40" using assms of_nat_mono [OF assms, where 'a = real] by simp
  have y: "?y = real n / 20 + real n * 8 / (20 * 2 ^ 53)" by (simp add: tail_factor_eq algebra_simps)
  have "real q \<le> real n / 20" using real_n by simp
  moreover have "0 \<le> real n * 8 / (20 * 2 ^ 53)" by simp
  ultimately have "real q \<le> ?y" unfolding y by linarith
  moreover have "q \<le> 2 ^ 53" using assms by (simp add: q_def)
  ultimately have lower: "real q \<le> rnd ?y" using b64.rd_ge_fixed rnd_of_nat by blast
  have "real t \<le> 19" using n(2) by simp
  then have "real n / 20 \<le> real q + 19 / 20" using real_n by simp
  moreover have "real n * 8 / (20 * 2 ^ 53) \<le> 2 ^ 40 * 8 / (20 * 2 ^ 53)"
    by (intro divide_right_mono mult_right_mono big) simp_all
  then have "real n * 8 / (20 * 2 ^ 53) \<le> 1 / 100" by (rule order_trans) simp
  ultimately have y_le: "?y \<le> real q + 24 / 25" unfolding y by linarith
  have "real q \<le> 2 ^ 36" using big real_n by simp
  moreover have "0 \<le> ?y" by (simp add: tail_factor_def)
  moreover have "(2::real) ^ 36 + 24 / 25 \<le> 2 ^ 37" by simp
  ultimately have "\<bar>?y\<bar> \<le> 2 ^ 37" using y_le by linarith
  then have "\<bar>?y\<bar> / 2 ^ 53 \<le> 2 ^ 37 / 2 ^ 53" by (intro divide_right_mono) simp_all
  then have "\<bar>rnd ?y - ?y\<bar> \<le> 2 ^ 37 / 2 ^ 53 + 1 / 2 ^ 60"
    using rnd_error [of ?y] tiny_unit by linarith
  moreover have "2 ^ 37 / 2 ^ 53 + 1 / 2 ^ 60 < (1 / 25 :: real)" by simp
  ultimately have upper: "rnd ?y < real q + 1" using y_le by linarith
  have floor: "\<lfloor>rnd ?y\<rfloor> = int q" using lower upper by linarith
  have nn: "rnd (real n) = real n" using assms by (intro rnd_of_nat) (simp add: order_trans [OF assms])
  have "fl (real n) = Fin (real n)" using nn big by (simp add: fl_eval)
  moreover have "fl ?y = Fin (rnd ?y)" using \<open>\<bar>?y\<bar> \<le> 2 ^ 37\<close> by (intro fl_eval) simp
  moreover have "0 \<le> rnd ?y" using lower by (meson of_nat_0_le_iff order_trans)
  ultimately show ?thesis
    unfolding tail_position_def confidence_tail by (simp add: floor q_def [symmetric])
qed

text \<open>
  C19. Value at risk of up to a million million finite returns is the value at position
  \<open>n div 20\<close> (counting from zero) of the returns in ascending order: the floating-point
  product never misses the position.
\<close>

theorem value_at_risk_position:
  assumes "returns \<noteq> []" "length returns \<le> 2 ^ 40" "list_all is_finite returns"
  shows "\<exists>xs. mset xs = mset returns \<and> sorted_wrt fle xs \<and>
     historical_var returns (fl (95 / 100)) = Inr (xs ! (length returns div 20))"
proof -
  let ?xs = "py_sorted returns"
  have len: "length ?xs = length returns" using arg_cong [OF py_sorted_mset [of returns], of size] by simp
  have "int (length returns div 20) \<le> int (length returns) - 1" using assms(1) by (cases returns) auto
  then have "nat (max 0 (min (int (length ?xs) - 1) (int (length returns div 20)))) = length returns div 20"
    by (simp add: len)
  then have "historical_var returns (fl (95 / 100)) = Inr (?xs ! (length returns div 20))"
    using assms(1,2) by (simp only: historical_var_def Let_def len if_False tail_position_exact bindR_simps)
  then show ?thesis using py_sorted_mset py_sorted_sorted [OF assms(3)] by blast
qed

theorem value_at_risk_position_witness:
  "historical_var [Fin 2, Fin (- 1)] (fl (95 / 100)) = Inr (Fin (- 1))"
proof -
  obtain xs where xs: "mset xs = mset [Fin 2, Fin (- 1)]" "sorted_wrt fle xs"
    "historical_var [Fin 2, Fin (- 1)] (fl (95 / 100)) = Inr (xs ! 0)"
    using value_at_risk_position [of "[Fin 2, Fin (- 1)]"] by (auto simp: is_finite_def)
  have "length xs = 2" using arg_cong [OF xs(1), of size] by simp
  then obtain a b where ab: "xs = [a, b]" by (metis (no_types) One_nat_def Suc_1 length_0_conv length_Suc_conv)
  have "fle a b" "{#a, b#} = {#Fin 2, Fin (- 1)#}" using xs(1,2) ab by simp_all
  then have "a = Fin (- 1)" by (auto simp: add_eq_conv_ex)
  then show ?thesis using xs(3) ab by simp
qed

section \<open>Drawdown\<close>

text \<open>Every value of the curve is a double and non-negative or NaN, if no return is below \<open>-1\<close>.\<close>

definition no_overdraft :: "pyfloat list \<Rightarrow> bool" where
  "no_overdraft rs \<longleftrightarrow> list_all (\<lambda>r. r = NaN \<or> fle (Fin (- 1)) r) rs"

lemma growth_fnn: "r = NaN \<or> fle (Fin (- 1)) r \<Longrightarrow> fnn (fadd (Fin 1) r)"
  by (cases r) (auto simp: fnn_fl)

lemma equity_curve_fnn:
  "fnn running \<Longrightarrow> no_overdraft rs \<Longrightarrow> list_all (\<lambda>v. fnn v \<and> is_double v) (equity_curve running rs)"
proof (induction rs arbitrary: running)
  case Nil
  then show ?case by simp
next
  case (Cons r rs)
  then have "fnn (fmul running (fadd (Fin 1) r))"
    by (intro fnn_fmul growth_fnn) (auto simp: no_overdraft_def)
  then show ?case using Cons by (simp add: Let_def no_overdraft_def)
qed

definition drawdown_range :: "pyfloat \<Rightarrow> bool" where
  "drawdown_range d \<longleftrightarrow> (\<exists>r. d = Fin r \<and> - 1 \<le> r \<and> r \<le> 0)"

lemma rel_drop:
  assumes "fnn v" "fnn p" "is_double p" "fdiv (fsub v p) p = Inr d"
  shows "d = NaN \<or> fle (Fin (- 1)) d"
proof (cases "\<exists>a b. v = Fin a \<and> p = Fin b")
  case False
  then show ?thesis using assms
    by (cases v; cases p) (auto simp: fdiv_def fsub_def split: if_splits)
next
  case True
  then obtain a b where ab: "v = Fin a" "p = Fin b" by blast
  have b: "0 < b" "rnd b = b" "0 \<le> a" using assms ab by (auto simp: fdiv_def is_double_def split: if_splits)
  have "rnd (- b) \<le> rnd (a - b)" using b by (intro rnd_mono) simp
  then have ge: "- b \<le> rnd (a - b)" using b by simp
  show ?thesis
  proof (cases "fl (a - b)")
    case (Fin r)
    then have "r = rnd (a - b)" by (rule fl_Fin)
    then have "- 1 \<le> r / b" using ge b by (simp add: le_divide_eq)
    then have "fle (fl (- 1)) (fl (r / b))" by (rule fl_mono)
    moreover have "fl (- 1) = Fin (- 1)" by (simp add: fl_eval)
    ultimately show ?thesis using assms(4) ab b Fin by (simp add: fdiv_def fsub_def)
  next
    case PInf
    then show ?thesis using assms(4) ab b by (simp add: fdiv_def fsub_def)
  next
    case NInf
    have "\<bar>b\<bar> < overflow_bound" using assms(3) ab by (simp add: is_double_def)
    then have "- overflow_bound < rnd (a - b)" using ge by linarith
    then show ?thesis using NInf by (auto simp: fl_def Let_def split: if_splits)
  next
    case NaN
    then show ?thesis by simp
  qed
qed

lemma pymin_range:
  assumes "drawdown_range m" "d = NaN \<or> fle (Fin (- 1)) d"
  shows "drawdown_range (pymin m d)"
  using assms by (cases d) (auto simp: drawdown_range_def pymin_def)

lemma pymax_double_fnn:
  "fnn p \<and> is_double p \<Longrightarrow> fnn v \<and> is_double v \<Longrightarrow> fnn (pymax p v) \<and> is_double (pymax p v)"
  by (simp add: pymax_def)

lemma drawdown_loop_range:
  assumes "list_all (\<lambda>v. fnn v \<and> is_double v) vs" "fnn p \<and> is_double p" "drawdown_range m"
    and "drawdown_loop p m vs = Inr d"
  shows "drawdown_range d"
  using assms
proof (induction vs arbitrary: p m)
  case Nil
  then show ?case by simp
next
  case (Cons v vs)
  let ?p = "pymax p v"
  have p: "fnn ?p \<and> is_double ?p" using Cons.prems by (intro pymax_double_fnn) simp_all
  from Cons.prems(4) obtain dd where dd: "fdiv (fsub v ?p) ?p = Inr dd" "drawdown_loop ?p (pymin m dd) vs = Inr d"
    by (auto simp: Let_def bindR_Inr_iff)
  have "drawdown_range (pymin m dd)"
    using rel_drop [OF _ _ _ dd(1)] p Cons.prems(1,3) by (intro pymin_range) simp_all
  then show ?case using Cons.IH [OF _ p _ dd(2)] Cons.prems(1) by simp
qed

lemma drawdown_loop_total:
  assumes "list_all fnn vs" "p = NaN \<or> flt (Fin 0) p"
  shows "\<exists>d. drawdown_loop p m vs = Inr d"
  using assms
proof (induction vs arbitrary: p m)
  case Nil
  then show ?case by simp
next
  case (Cons v vs)
  have p: "pymax p v = NaN \<or> flt (Fin 0) (pymax p v)"
    using Cons.prems by (cases p; cases v) (auto simp: pymax_def)
  then have "pymax p v \<noteq> Fin 0" by auto
  then show ?case using Cons.IH [OF _ p] Cons.prems by (simp add: Let_def fdiv_def)
qed

text \<open>
  C20. The drawdown of returns that never fall below -100% is a number between minus one
  and zero, unless the very first return leaves nothing: then, and only then, the peak is
  zero and the computation raises \<open>ZeroDivisionError\<close>.
\<close>

theorem max_drawdown_range:
  assumes "no_overdraft returns" "returns \<noteq> []"
  shows "if fmul (Fin 1) (fadd (Fin 1) (hd returns)) = Fin 0 then max_drawdown returns = Inl ZeroDivisionError
     else \<exists>r. max_drawdown returns = Inr (Fin r) \<and> - 1 \<le> r \<and> r \<le> 0"
proof -
  obtain r rs where rs: "returns = r # rs" using assms(2) by (cases returns) auto
  let ?c = "equity_curve (Fin 1) returns" and ?e = "fmul (Fin 1) (fadd (Fin 1) r)"
  have ok: "list_all (\<lambda>v. fnn v \<and> is_double v) ?c" by (rule equity_curve_fnn) (simp_all add: assms(1))
  have hd: "hd ?c = ?e" "?c = ?e # equity_curve ?e rs" by (simp_all add: rs Let_def)
  have md: "max_drawdown returns = drawdown_loop ?e (Fin 0) ?c"
    using assms(2) by (simp only: max_drawdown_def Let_def if_False hd(1))
  show ?thesis
  proof (cases "?e = Fin 0")
    case True
    then show ?thesis unfolding md hd(2) by (simp add: rs Let_def pymax_def fdiv_def)
  next
    case False
    have e: "fnn ?e \<and> is_double ?e" using ok hd(2) by simp
    then have "?e = NaN \<or> flt (Fin 0) ?e" using False by (cases ?e) auto
    moreover have "list_all fnn ?c" using ok by (simp add: list_all_iff)
    ultimately obtain d where d: "drawdown_loop ?e (Fin 0) ?c = Inr d" using drawdown_loop_total by blast
    have "drawdown_range (Fin 0)" by (simp add: drawdown_range_def)
    from drawdown_loop_range [OF ok e this d] obtain x where "d = Fin x" "- 1 \<le> x" "x \<le> 0"
      by (auto simp: drawdown_range_def)
    then show ?thesis using False d unfolding md [symmetric] by (simp add: rs)
  qed
qed

theorem max_drawdown_range_witness:
  "max_drawdown [Fin (- 1), Fin 1] = Inl ZeroDivisionError"
  using max_drawdown_range [of "[Fin (- 1), Fin 1]"] by (simp add: no_overdraft_def fl_eval)

text \<open>
  The bound on the returns is needed: weights that are negative or add up to more than one can lose
  more than everything, and the drawdown is then below minus one.
\<close>

lemma overdraft_exceeds_range: "max_drawdown [Fin (1 / 2), Fin (- 3)] = Inr (Fin (- 3))"
  by (simp add: max_drawdown_def Let_def pymax_def pymin_def fdiv_def fsub_def fl_eval)

section \<open>Alignment of the series\<close>

lemma fold_min_le: "(fold min ns n :: nat) \<le> n \<and> (\<forall>m \<in> set ns. fold min ns n \<le> m)"
proof (induction ns arbitrary: n)
  case Nil
  then show ?case by simp
next
  case (Cons m ns)
  from Cons.IH [of "min m n"] show ?case by auto
qed

lemma common_length_le:
  assumes "s \<in> set (dict_values series)" "s \<noteq> []"
  shows "common_length series \<le> length s"
proof -
  let ?ns = "filter (\<lambda>n. n \<noteq> 0) (map length (dict_values series))"
  have mem: "length s \<in> set ?ns" using assms by simp
  show ?thesis
  proof (cases ?ns)
    case Nil
    with mem show ?thesis by (metis emptyE empty_set)
  next
    case (Cons n ns)
    then have "length s = n \<or> length s \<in> set ns" using mem by (metis set_ConsD)
    then have "fold min ns n \<le> length s" using fold_min_le by blast
    then show ?thesis using Cons by (simp only: common_length_def list.case)
  qed
qed

lemma symbol_return_aligned:
  assumes "s \<in> set (dict_values series)" "s \<noteq> []" "0 < k" "k \<le> common_length series"
  shows "symbol_return s k = s ! (length s - k)" "length s - k < length s"
proof -
  have "k \<le> length s" using common_length_le [OF assms(1,2)] assms(4) by simp
  then show "symbol_return s k = s ! (length s - k)" "length s - k < length s"
    using assms(2,3) py_index_neg [of k s] by (simp_all add: symbol_return_def)
qed

text \<open>
  Portfolio returns line the series up at their ends: there are as many as the
  shortest non-empty series has, and the i-th is the weighted sum over the positions of
  the return that is equally far from the end of each series (zero for a position
  without returns); no index is ever out of range.
\<close>

theorem portfolio_returns_aligned:
  assumes "i < common_length series"
  shows "length (portfolio_returns series positions) = common_length series \<and>
     portfolio_returns series positions ! i =
       foldl (\<lambda>acc p. fadd acc (fmul (po_weight p)
         (let s = dict_get series (po_symbol p) [] in
          if s = [] then Fin 0 else s ! (length s - common_length series + i)))) (Fin 0) positions \<and>
     (\<forall>s \<in> set (dict_values series). s \<noteq> [] \<longrightarrow> length s - common_length series + i < length s)"
proof -
  let ?n = "common_length series"
  let ?k = "?n - i"
  have k: "0 < ?k" "?k \<le> ?n" using assms by simp_all
  have idx: "s \<noteq> [] \<Longrightarrow> s \<in> set (dict_values series) \<Longrightarrow>
      symbol_return s ?k = s ! (length s - ?n + i) \<and> length s - ?n + i < length s" for s
    using symbol_return_aligned [of s series ?k] k common_length_le [of s series] assms by auto
  have mem: "dict_get series x [] \<noteq> [] \<Longrightarrow> dict_get series x [] \<in> set (dict_values series)" for x
    by (force simp: dict_get_def dict_values_def dest: map_of_SomeD split: option.splits)
  have "rev [1..<Suc ?n] ! i = ?k" using assms by (simp add: rev_nth del: upt_Suc)
  then have "portfolio_returns series positions ! i = portfolio_return series positions ?k"
    using assms by (simp add: portfolio_returns_def del: upt_Suc)
  also have "\<dots> = foldl (\<lambda>acc p. fadd acc (fmul (po_weight p)
         (let s = dict_get series (po_symbol p) [] in
          if s = [] then Fin 0 else s ! (length s - ?n + i)))) (Fin 0) positions"
    unfolding portfolio_return_def
    using idx mem by (intro foldl_cong) (auto simp: Let_def symbol_return_def)
  finally show ?thesis using idx by (simp add: portfolio_returns_def del: upt_Suc)
qed

theorem portfolio_returns_aligned_witness:
  "portfolio_returns [(''A'', [Fin 1, Fin 2]), (''B'', [Fin 3])] [\<lparr>po_symbol = ''A'', po_weight = Fin 1\<rparr>] ! 0 = Fin 2"
proof -
  have c: "common_length [(''A'', [Fin 1, Fin 2]), (''B'', [Fin 3])] = 1"
    by (simp add: common_length_def dict_values_def)
  show ?thesis
    using portfolio_returns_aligned [of 0 "[(''A'', [Fin 1, Fin 2]), (''B'', [Fin 3])]" "[\<lparr>po_symbol = ''A'', po_weight = Fin 1\<rparr>]"]
    by (simp add: c dict_get_def fl_eval)
qed

section \<open>Operations\<close>

lemma risk_save_simps [simp]:
  "rk_node_id (risk_save st) = rk_node_id st" "rk_state_path (risk_save st) = rk_state_path st"
  "rk_auto_compute (risk_save st) = rk_auto_compute st" "rk_events (risk_save st) = rk_events st"
  "rk_portfolio (risk_save st) = rk_portfolio st" "rk_snapshots (risk_save st) = rk_snapshots st"
  by (simp_all add: risk_save_def)

lemma risk_save_file:
  "rk_state_path st = Some d \<Longrightarrow> rk_fs (risk_save st) d = Some (JsonFile (risk_doc (risk_save st)))"
  by (simp add: risk_save_def save_json_file_def risk_doc_def)

lemma compute_risk_frame:
  assumes "compute_risk appender uuid now arg (st, w) = (r, (st', w'))"
  shows "rk_events st' = rk_events st" "rk_portfolio st' = rk_portfolio st" "rk_node_id st' = rk_node_id st"
    "rk_state_path st' = rk_state_path st" "rk_auto_compute st' = rk_auto_compute st"
    "\<exists>ss. rk_snapshots st' = rk_snapshots st @ ss"
  using assms by (auto simp: compute_risk_def Let_def split: option.splits sum.splits prod.splits)

lemma event_stored:
  assumes "ingest_event appender uuid now event (st, w) = (r, (st', w'))"
  shows "map_of (rk_events st') (ev_symbol event) = Some (dict_get (rk_events st) (ev_symbol event) [] @ [event]) \<and>
     (\<forall>s. s \<noteq> ev_symbol event \<longrightarrow> map_of (rk_events st') s = map_of (rk_events st) s) \<and>
     (\<exists>ss. rk_snapshots st' = rk_snapshots st @ ss) \<and> (r = Inr event \<or> (\<exists>e. r = Inl e))"
proof -
  let ?st = "risk_save (st\<lparr>rk_events := dict_set (ev_symbol event)
      (dict_get (rk_events st) (ev_symbol event) [] @ [event]) (rk_events st)\<rparr>)"
  obtain r1 st1 w1 where c: "compute_risk appender uuid now None (?st, w) = (r1, (st1, w1))" by (metis prod_cases3)
  note f = compute_risk_frame [OF c]
  show ?thesis using assms f c by (auto simp: ingest_event_def Let_def split: if_splits sum.splits)
qed

text \<open>
  A market event is kept whatever follows: after \<open>/risk/events\<close> it is the last event of
  its symbol, other symbols are untouched and no snapshot is lost, also when the
  automatic computation raises and the caller is told of a failure.
\<close>

theorem event_kept_on_failure:
  assumes "ingest_event appender uuid now event (st, w) = (r, (st', w'))"
  shows "map_of (rk_events st') (ev_symbol event) = Some (dict_get (rk_events st) (ev_symbol event) [] @ [event]) \<and>
     (\<forall>s. s \<noteq> ev_symbol event \<longrightarrow> map_of (rk_events st') s = map_of (rk_events st) s) \<and>
     (\<exists>ss. rk_snapshots st' = rk_snapshots st @ ss) \<and> (r = Inr event \<or> (\<exists>e. r = Inl e))"
  using assms by (rule event_stored)

text \<open>A portfolio of one asset at full weight, and its price history.\<close>

definition price_event :: "pyfloat \<Rightarrow> market_event" where
  "price_event p = demo_event\<lparr>ev_symbol := ''BTC'', ev_price := p\<rparr>"

definition one_asset :: "market_event list \<Rightarrow> risk" where
  "one_asset evs = \<lparr>rk_node_id = ''gcp-risk-01'', rk_state_path = None, rk_auto_compute = True,
     rk_events = [(''BTC'', evs)], rk_portfolio = Some \<lparr>pf_portfolio_id = ''p'',
       pf_positions = [\<lparr>po_symbol = ''BTC'', po_weight = Fin 1\<rparr>]\<rparr>, rk_snapshots = [], rk_fs = Map.empty\<rparr>"

lemma price_event_simps [simp]: "ev_symbol (price_event p) = ''BTC''" "ev_price (price_event p) = p"
  by (simp_all add: price_event_def)

lemma total_loss_figures: "risk_figures [Fin (- 1)] = Inl ZeroDivisionError"
proof -
  have "max_drawdown [Fin (- 1)] = Inl ZeroDivisionError"
    by (simp add: max_drawdown_def Let_def pymax_def fdiv_def)
  moreover obtain v where "historical_var [Fin (- 1)] (fl (95 / 100)) = Inr v"
    using tail_position_exact [of 1]
    by (simp only: historical_var_def Let_def py_sorted_def) (simp add: list.distinct)
  ultimately show ?thesis by (simp add: risk_figures_def volatility_def)
qed

text \<open>A price of zero after 100: however often it is delivered, the only return is a total loss.\<close>

definition after_loss :: "nat \<Rightarrow> risk" where
  "after_loss n = one_asset (price_event (Fin 100) # replicate n (price_event (Fin 0)))"

lemma zero_prices: "price_returns (replicate n (Fin 0)) = Inr []"
proof (induction n)
  case (Suc n)
  then show ?case by (cases n) (simp_all add: ftruth_def)
qed simp

lemma total_loss_raises_again:
  "ingest_event None uuid now (price_event (Fin 0)) (after_loss n, w) = (Inl ZeroDivisionError, (after_loss (Suc n), w))"
proof -
  have r: "returns_for_symbol ''BTC'' (after_loss (Suc n)) = Inr [Fin (- 1)]"
    using zero_prices [of "Suc n"]
    by (simp add: returns_for_symbol_def after_loss_def one_asset_def dict_get_def fsub_def fl_eval fdiv_def ftruth_def)
  have p: "portfolio_returns [(''BTC'', [Fin (- 1)])] [\<lparr>po_symbol = ''BTC'', po_weight = Fin 1\<rparr>] = [Fin (- 1)]"
    by (simp add: portfolio_returns_def common_length_def dict_values_def portfolio_return_def dict_get_def
        symbol_return_def py_index_def fl_eval)
  have s: "series_by_symbol [\<lparr>po_symbol = ''BTC'', po_weight = Fin 1\<rparr>] (after_loss (Suc n)) = Inr [(''BTC'', [Fin (- 1)])]"
    by (simp add: series_by_symbol_def r dict_of_def dict_set_def)
  have "rk_portfolio (after_loss (Suc n)) = Some \<lparr>pf_portfolio_id = ''p'',
      pf_positions = [\<lparr>po_symbol = ''BTC'', po_weight = Fin 1\<rparr>]\<rparr>"
    by (simp add: after_loss_def one_asset_def)
  then have c: "compute_risk None uuid now None (after_loss (Suc n), w) = (Inl ZeroDivisionError, (after_loss (Suc n), w))"
    using s p total_loss_figures by (simp add: compute_risk_def)
  have "risk_save ((after_loss n)\<lparr>rk_events := dict_set ''BTC''
      (dict_get (rk_events (after_loss n)) ''BTC'' [] @ [price_event (Fin 0)]) (rk_events (after_loss n))\<rparr>) = after_loss (Suc n)"
    by (simp add: after_loss_def one_asset_def risk_save_def save_json_file_def dict_set_def dict_get_def replicate_append_same)
  moreover have "rk_auto_compute (after_loss n) \<and> rk_portfolio (after_loss n) \<noteq> None"
    by (simp add: after_loss_def one_asset_def)
  ultimately show ?thesis using c by (simp add: ingest_event_def Let_def)
qed

lemma total_loss_raises:
  "ingest_event None uuid now (price_event (Fin 0)) (one_asset [price_event (Fin 100)], ()) =
     (Inl ZeroDivisionError, (one_asset [price_event (Fin 100), price_event (Fin 0)], ()))"
  using total_loss_raises_again [of uuid now 0 "()"] by (simp add: after_loss_def)

theorem event_kept_on_failure_witness:
  "\<exists>st' w'. ingest_event None ''0123456789abcdef'' 7 (price_event (Fin 0)) (one_asset [price_event (Fin 100)], ()) =
      (Inl ZeroDivisionError, (st', w')) \<and>
     map_of (rk_events st') ''BTC'' = Some [price_event (Fin 100), price_event (Fin 0)]"
  using event_kept_on_failure [OF total_loss_raises] total_loss_raises
  by (auto simp: one_asset_def dict_get_def)

fun deliver :: "'w ledger_appender option \<Rightarrow> string \<Rightarrow> int \<Rightarrow> market_event \<Rightarrow> nat \<Rightarrow> risk \<times> 'w \<Rightarrow> risk \<times> 'w" where
  "deliver appender uuid now event 0 s = s"
| "deliver appender uuid now event (Suc n) s =
     deliver appender uuid now event n (snd (ingest_event appender uuid now event s))"

text \<open>
  Delivery is not idempotent: delivering one event any number of times, as the retries
  of a sender do after an answer it could not use, stores it that many times, whether the
  deliveries are answered or raise.
\<close>

theorem deliveries_accumulate:
  "dict_get (rk_events (fst (deliver appender uuid now event n (st, w)))) (ev_symbol event) [] =
     dict_get (rk_events st) (ev_symbol event) [] @ replicate n event"
proof (induction n arbitrary: st w)
  case 0
  show ?case by simp
next
  case (Suc n)
  obtain r st' w' where i: "ingest_event appender uuid now event (st, w) = (r, (st', w'))" by (metis prod_cases3)
  have "map_of (rk_events st') (ev_symbol event) = Some (dict_get (rk_events st) (ev_symbol event) [] @ [event])"
    using event_stored [OF i] by blast
  then have "dict_get (rk_events st') (ev_symbol event) [] = dict_get (rk_events st) (ev_symbol event) [] @ [event]"
    by (simp add: dict_get_def)
  then show ?case using Suc.IH [of st' w'] i by (simp add: replicate_app_Cons_same)
qed

definition snapshot_of :: "string \<Rightarrow> int \<Rightarrow> string \<Rightarrow> pyfloat \<times> pyfloat \<times> pyfloat \<times> pyfloat \<Rightarrow> risk_snapshot" where
  "snapshot_of uuid now portfolio_id = (\<lambda>(vol, var95, dd, rolling).
     \<lparr>rs_snapshot_id = make_prefixed_id ''risk'' uuid, rs_portfolio_id = portfolio_id, rs_as_of = utc_now now,
      rs_volatility = round_nd 6 vol, rs_value_at_risk_95 = round_nd 6 var95, rs_max_drawdown = round_nd 6 dd,
      rs_rolling_return_1d = round_nd 6 rolling\<rparr>)"

lemma snapshot_of_simps [simp]:
  "rs_snapshot_id (snapshot_of uuid now i f) = make_prefixed_id ''risk'' uuid" "rs_portfolio_id (snapshot_of uuid now i f) = i"
  "rs_as_of (snapshot_of uuid now i f) = utc_now now"
  "rs_volatility (snapshot_of uuid now i (a, b, c, d)) = round_nd 6 a"
  "rs_value_at_risk_95 (snapshot_of uuid now i (a, b, c, d)) = round_nd 6 b"
  "rs_max_drawdown (snapshot_of uuid now i (a, b, c, d)) = round_nd 6 c"
  "rs_rolling_return_1d (snapshot_of uuid now i (a, b, c, d)) = round_nd 6 d"
  by (simp_all add: snapshot_of_def split: prod.split)

lemma compute_risk_cases:
  assumes "quiet_appender appender" "str_between 3 128 (rk_node_id st)"
    and "(case argument of Some p \<Rightarrow> Some p | None \<Rightarrow> rk_portfolio st) = Some p"
  defines "figures \<equiv> bindR (series_by_symbol (pf_positions p) st) (\<lambda>series.
      risk_figures (portfolio_returns series (pf_positions p)))"
  shows "compute_risk appender uuid now argument (st, w) =
     (case figures of Inl e \<Rightarrow> (Inl e, (st, w))
      | Inr f \<Rightarrow> let s = snapshot_of uuid now (pf_portfolio_id p) f in
          (Inr s, (risk_save (st\<lparr>rk_snapshots := rk_snapshots st @ [s]\<rparr>),
            snd (record_ledger_event appender ''risk_snapshot_computed'' (rk_node_id st) (snapshot_fields s) w))))"
proof -
  have "str_between 3 128 ''risk_snapshot_computed''" by (simp add: str_between_def)
  then have q: "x = Inr ()" if "record_ledger_event appender ''risk_snapshot_computed'' (rk_node_id st) d w = (x, w1)" for x d w1
    using quiet_appender.record_quiet_result [OF assms(1) that] assms(2) by blast
  then show ?thesis
    unfolding compute_risk_def prod.case assms(3) option.case figures_def [symmetric]
    by (auto simp: Let_def snapshot_of_def split: sum.split prod.split dest: q)
qed

text \<open>
  C21. Computing risk: without any portfolio the endpoint answers 400 and changes nothing;
  an exception of the figures changes nothing either; otherwise exactly one snapshot of
  the rounded figures is appended and answered, and it is then the latest. That success leaves
  events and portfolio alone, tells the ledger of the snapshot once, and leaves the state file
  with all of it.
\<close>

theorem compute_risk_outcomes:
  assumes "quiet_appender appender" "str_between 3 128 (rk_node_id st)"
    and "compute_risk_ep appender uuid now argument (st, w) = (r, (st', w'))"
  shows "(argument = None \<and> rk_portfolio st = None \<longrightarrow>
        r = Inl (HTTPException 400 ''portfolio is required before risk can be computed'') \<and> st' = st \<and> w' = w) \<and>
     (\<forall>e. r = Inl e \<longrightarrow> st' = st \<and> w' = w) \<and>
     (\<forall>s. r = Inr s \<longrightarrow> rk_snapshots st' = rk_snapshots st @ [s] \<and> latest_snapshot st' = Some s \<and>
        rs_snapshot_id s = make_prefixed_id ''risk'' uuid \<and> rs_as_of s = utc_now now \<and>
        rk_events st' = rk_events st \<and> rk_portfolio st' = rk_portfolio st \<and>
        w' = snd (record_ledger_event appender ''risk_snapshot_computed'' (rk_node_id st) (snapshot_fields s) w) \<and>
        (\<forall>d. rk_state_path st = Some d \<longrightarrow> rk_fs st' d = Some (JsonFile (risk_doc st'))) \<and>
        (\<exists>p series vol var95 dd rolling. (argument = Some p \<or> argument = None \<and> rk_portfolio st = Some p) \<and>
           series_by_symbol (pf_positions p) st = Inr series \<and>
           risk_figures (portfolio_returns series (pf_positions p)) = Inr (vol, var95, dd, rolling) \<and>
           rs_portfolio_id s = pf_portfolio_id p \<and> rs_volatility s = round_nd 6 vol \<and>
           rs_value_at_risk_95 s = round_nd 6 var95 \<and> rs_max_drawdown s = round_nd 6 dd \<and>
           rs_rolling_return_1d s = round_nd 6 rolling))"
proof (cases "case argument of Some p \<Rightarrow> Some p | None \<Rightarrow> rk_portfolio st")
  case None
  then show ?thesis using assms(3) by (auto simp: compute_risk_ep_def compute_risk_def split: option.splits)
next
  case (Some p)
  then have arg: "argument = Some p \<or> argument = None \<and> rk_portfolio st = Some p"
    by (auto split: option.splits)
  note comp = compute_risk_cases [OF assms(1,2) Some, of uuid now w]
  show ?thesis
  proof (cases "bindR (series_by_symbol (pf_positions p) st) (\<lambda>series. risk_figures (portfolio_returns series (pf_positions p)))")
    case (Inl e)
    then have "\<exists>e'. r = Inl e'" "st' = st" "w' = w"
      using assms(3) comp by (auto simp: compute_risk_ep_def split: py_exc.splits)
    then show ?thesis using arg by auto
  next
    case (Inr f)
    obtain vol var95 dd rolling where f: "f = (vol, var95, dd, rolling)" by (metis prod_cases4)
    obtain series where series: "series_by_symbol (pf_positions p) st = Inr series"
      "risk_figures (portfolio_returns series (pf_positions p)) = Inr (vol, var95, dd, rolling)"
      using Inr f by (auto simp: bindR_Inr_iff)
    let ?s = "snapshot_of uuid now (pf_portfolio_id p) (vol, var95, dd, rolling)"
    have out: "r = Inr ?s \<and> st' = risk_save (st\<lparr>rk_snapshots := rk_snapshots st @ [?s]\<rparr>) \<and>
        w' = snd (record_ledger_event appender ''risk_snapshot_computed'' (rk_node_id st) (snapshot_fields ?s) w)"
      using assms(3) comp Inr f by (auto simp: compute_risk_ep_def Let_def)
    then have "rk_fs st' d = Some (JsonFile (risk_doc st'))" if "rk_state_path st = Some d" for d
      using that by (simp add: risk_save_file)
    then show ?thesis using out arg series by (auto simp: latest_snapshot_def)
  qed
qed

theorem compute_risk_outcomes_witness:
  "\<exists>st' w'. compute_risk_ep None ''0123456789abcdef'' 7 None ((one_asset [])\<lparr>rk_portfolio := None\<rparr>, ()) =
     (Inl (HTTPException 400 ''portfolio is required before risk can be computed''), (st', w')) \<and>
     st' = (one_asset [])\<lparr>rk_portfolio := None\<rparr>"
proof -
  let ?st = "(one_asset [])\<lparr>rk_portfolio := None\<rparr>"
  obtain r st' w' where c: "compute_risk_ep None ''0123456789abcdef'' 7 None (?st, ()) = (r, (st', w'))"
    by (metis prod_cases3)
  have "str_between 3 128 (rk_node_id ?st)" by (simp add: one_asset_def str_between_def)
  from compute_risk_outcomes [OF no_appender this c] c show ?thesis by simp
qed

section \<open>Restart\<close>

definition risk_saved :: "risk \<Rightarrow> bool" where
  "risk_saved st \<longleftrightarrow> dict_ok (rk_events st) \<and> (case rk_state_path st of None \<Rightarrow> True
     | Some p \<Rightarrow> rk_fs st p = Some (JsonFile (risk_doc st)))"

lemma risk_doc_fs [simp]: "risk_doc (st\<lparr>rk_fs := f\<rparr>) = risk_doc st"
  by (simp add: risk_doc_def)

lemma risk_saved_save [simp]: "risk_saved (risk_save st) \<longleftrightarrow> dict_ok (rk_events st)"
  by (auto simp: risk_saved_def risk_save_def save_json_file_def split: option.splits)

lemma load_events_doc:
  "mapR (\<lambda>(s, es). bindR (load_models n (validate_event px t) es) (\<lambda>evs. Inr (s, evs)))
     (map (\<lambda>(s, es). (s, JList (map dump_event es))) evs) = Inr evs"
  by (induction evs) (auto simp: load_models_dump validate_dump_event split: prod.splits)

lemma risk_reload:
  assumes "risk_saved st" "rk_state_path st = Some p"
  shows "risk_load px now (rk_node_id st) (Some p) (rk_auto_compute st) (rk_fs st) = Inr st"
proof -
  have doc: "load_json_file (rk_fs st) (Some p) d = Inr (risk_doc st)" for d
    using assms by (simp add: risk_saved_def load_json_file_def)
  have pf: "jtruth (dump_portfolio q)" for q by (simp add: dump_portfolio_def)
  have ok: "dict_ok (rk_events st)" using assms(1) by (simp add: risk_saved_def)
  have snaps: "load_models n (validate_snapshot px t) (JList (map dump_snapshot ss)) = Inr ss"
    for n t ss by (intro load_models_dump) (rule validate_dump_snapshot)
  show ?thesis
    using assms(2) ok unfolding risk_load_def doc
    by (cases "rk_portfolio st"; cases st)
      (simp_all add: risk_doc_def load_events_doc [simplified] snaps [simplified] pf dict_of_id validate_dump_portfolio)
qed

text \<open>
  Every operation that answers leaves the state file up to date, and a restart on it
  restores events, portfolio and snapshots.
\<close>

theorem risk_restart:
  assumes "dict_ok (rk_events st)" "rk_state_path st = Some p"
    and "(r, (st', w')) = ingest_event appender uuid now event (st, w) \<and> r = Inr event \<or>
         (st', w') = (snd (set_portfolio pf st), w)"
  shows "risk_load px now' (rk_node_id st') (Some p) (rk_auto_compute st') (rk_fs st') = Inr st'"
proof -
  have "risk_saved st' \<and> rk_state_path st' = Some p"
  proof (rule disjE [OF assms(3)])
    assume "(st', w') = (snd (set_portfolio pf st), w)"
    then show ?thesis using assms(1,2) by (simp add: set_portfolio_def)
  next
    assume i: "(r, (st', w')) = ingest_event appender uuid now event (st, w) \<and> r = Inr event"
    let ?st = "risk_save (st\<lparr>rk_events := dict_set (ev_symbol event)
        (dict_get (rk_events st) (ev_symbol event) [] @ [event]) (rk_events st)\<rparr>)"
    obtain r1 st1 w1 where c: "compute_risk appender uuid now None (?st, w) = (r1, (st1, w1))" by (metis prod_cases3)
    have "r1 = Inr x \<Longrightarrow> risk_saved st1" for x
      using c assms(1) by (auto simp: compute_risk_def Let_def split: option.splits sum.splits prod.splits)
    moreover have "rk_state_path st1 = Some p" using compute_risk_frame(4) [OF c] assms(2) by simp
    ultimately show ?thesis
      using i c assms(1,2) by (auto simp: ingest_event_def Let_def split: if_splits sum.splits)
  qed
  then show ?thesis using risk_reload by blast
qed

theorem risk_restart_witness:
  "risk_load strict_pydantic 9 ''gcp-risk-01'' (Some ''f'') True
     (rk_fs (snd (set_portfolio \<lparr>pf_portfolio_id = ''p'', pf_positions = []\<rparr> ((one_asset [])\<lparr>rk_state_path := Some ''f''\<rparr>)))) =
   Inr (snd (set_portfolio \<lparr>pf_portfolio_id = ''p'', pf_positions = []\<rparr> ((one_asset [])\<lparr>rk_state_path := Some ''f''\<rparr>)))"
proof -
  let ?st = "(one_asset [])\<lparr>rk_state_path := Some ''f''\<rparr>" and ?pf = "\<lparr>pf_portfolio_id = ''p'', pf_positions = []\<rparr>"
  let ?st' = "snd (set_portfolio ?pf ?st)"
  have "dict_ok (rk_events ?st)" "rk_state_path ?st = Some ''f''" by (simp_all add: one_asset_def dict_ok_def)
  from risk_restart [OF this disjI2, of ?st' "()" ?pf "()" strict_pydantic 9] show ?thesis
    by (simp add: set_portfolio_def one_asset_def)
qed

end
