(* ===== verification/BrokerUrl.thy ===== *)
theory BrokerUrl
  imports Storage
begin

text \<open>
  \<open>parse_broker_url\<close> of \<open>iot/mqtt_client.py\<close>, with what it uses of \<open>urllib.parse\<close>: the split
  into scheme and network location, user information, host and port. The check of an
  address in square brackets belongs to the \<open>ipaddress\<close> module and is a parameter.
\<close>

section \<open>Splitting a URL\<close>

text \<open>\<open>s.partition(c)\<close> and \<open>s.rpartition(c)\<close>: the text before, whether \<open>c\<close> was found, the text after.\<close>

fun partition_at :: "char \<Rightarrow> string \<Rightarrow> string \<times> bool \<times> string" where
  "partition_at c [] = ([], False, [])"
| "partition_at c (x # xs) =
     (if x = c then ([], True, xs)
      else case partition_at c xs of (a, found, b) \<Rightarrow> (x # a, found, b))"

definition rpartition_at :: "char \<Rightarrow> string \<Rightarrow> string \<times> bool \<times> string" where
  "rpartition_at c s = (case partition_at c (rev s) of
     (a, found, b) \<Rightarrow> if found then (rev b, True, rev a) else ([], False, s))"

definition is_alpha :: "char \<Rightarrow> bool" where
  "is_alpha c \<longleftrightarrow> (let n = of_char c :: nat in 65 \<le> n \<and> n \<le> 90 \<or> 97 \<le> n \<and> n \<le> 122)"

definition is_scheme_char :: "char \<Rightarrow> bool" where
  "is_scheme_char c \<longleftrightarrow> is_alpha c \<or> is_digit c \<or> c \<in> {CHR ''+'', CHR ''-'', CHR ''.''}"

text \<open>Leading control characters and spaces go, tabs and line ends go everywhere.\<close>

definition clean_url :: "string \<Rightarrow> string" where
  "clean_url url = filter (\<lambda>c. (of_char c :: nat) \<notin> {9, 10, 13}) (dropWhile (\<lambda>c. (of_char c :: nat) \<le> 32) url)"

definition split_scheme :: "string \<Rightarrow> string \<times> string" where
  "split_scheme url = (case partition_at (CHR '':'') url of (pre, found, rest) \<Rightarrow>
     if found \<and> pre \<noteq> [] \<and> is_alpha (hd pre) \<and> list_all is_scheme_char pre then (str_lower pre, rest)
     else ([], url))"

definition netloc_of :: "string \<Rightarrow> string" where
  "netloc_of rest =
     (if starts_with ''//'' rest
      then takeWhile (\<lambda>c. c \<notin> {CHR ''/'', CHR ''?'', CHR ''#''}) (drop 2 rest) else [])"

definition brackets_ok :: "(string \<Rightarrow> bool) \<Rightarrow> string \<Rightarrow> bool" where
  "brackets_ok address_ok netloc \<longleftrightarrow>
     (CHR ''['' \<in> set netloc \<longleftrightarrow> CHR '']'' \<in> set netloc) \<and> (CHR ''['' \<in> set netloc \<longrightarrow> address_ok netloc)"

definition urlsplit :: "(string \<Rightarrow> bool) \<Rightarrow> string \<Rightarrow> (string \<times> string) result" where
  "urlsplit address_ok url = (case split_scheme (clean_url url) of (scheme, rest) \<Rightarrow>
     if brackets_ok address_ok (netloc_of rest) then Inr (scheme, netloc_of rest)
     else Inl (ValueError ''Invalid IPv6 URL''))"

definition userinfo :: "string \<Rightarrow> string option \<times> string option" where
  "userinfo netloc = (case rpartition_at (CHR ''@'') netloc of (info, found, _) \<Rightarrow>
     if \<not> found then (None, None)
     else case partition_at (CHR '':'') info of (user, has_password, password) \<Rightarrow>
       (Some user, if has_password then Some password else None))"

definition hostinfo :: "string \<Rightarrow> string \<times> string" where
  "hostinfo netloc = (case rpartition_at (CHR ''@'') netloc of (_, _, info) \<Rightarrow>
     (case partition_at (CHR ''['') info of (_, have_open, bracketed) \<Rightarrow>
        if have_open then
          (case partition_at (CHR '']'') bracketed of (host, _, after) \<Rightarrow>
             (host, snd (snd (partition_at (CHR '':'') after))))
        else (case partition_at (CHR '':'') info of (host, _, port) \<Rightarrow> (host, port))))"

text \<open>\<open>hostname\<close>: lower case up to a zone mark; \<open>None\<close> when empty.\<close>

definition hostname :: "string \<Rightarrow> string option" where
  "hostname netloc = (case hostinfo netloc of (host, _) \<Rightarrow>
     if host = [] then None
     else case partition_at (CHR ''%'') host of (name, found, zone) \<Rightarrow>
       Some (str_lower name @ (if found then CHR ''%'' # zone else [])))"

definition url_port :: "string \<Rightarrow> int option result" where
  "url_port netloc = (case hostinfo netloc of (_, port) \<Rightarrow>
     if port = [] then Inr None
     else if \<not> list_all is_digit port then Inl (ValueError ''Port could not be cast to integer value'')
     else if int (digits_val port) \<le> 65535 then Inr (Some (int (digits_val port)))
     else Inl (ValueError ''Port out of range 0-65535''))"

section \<open>The broker's address\<close>

record mqtt_config =
  mc_host :: string
  mc_port :: int
  mc_tls :: bool
  mc_username :: "string option"
  mc_password :: "string option"
  mc_keepalive :: int
  mc_client_id_prefix :: string

definition parse_broker_url :: "(string \<Rightarrow> bool) \<Rightarrow> string \<Rightarrow> mqtt_config result" where
  "parse_broker_url address_ok url =
     bindR (urlsplit address_ok url) (\<lambda>(url_scheme, netloc).
       let scheme = (if url_scheme = [] then ''mqtt'' else str_lower url_scheme);
           tls = scheme \<in> {''mqtts'', ''ssl''};
           host = (case hostname netloc of None \<Rightarrow> ''localhost'' | Some h \<Rightarrow> h)
       in bindR (url_port netloc) (\<lambda>parsed_port.
          let dflt = (if tls then 8883 else 1883);
              port = (case parsed_port of None \<Rightarrow> dflt | Some p \<Rightarrow> if p = 0 then dflt else p)
          in Inr \<lparr>mc_host = host, mc_port = port, mc_tls = tls,
               mc_username = fst (userinfo netloc), mc_password = snd (userinfo netloc),
               mc_keepalive = 30, mc_client_id_prefix = ''quantian''\<rparr>))"

section \<open>Facts about the split\<close>

lemma partition_at_absent: "c \<notin> set s \<Longrightarrow> partition_at c s = (s, False, [])"
  by (induction s) auto

lemma partition_at_found: "c \<notin> set a \<Longrightarrow> partition_at c (a @ c # b) = (a, True, b)"
  by (induction a) auto

lemma rpartition_at_absent: "c \<notin> set s \<Longrightarrow> rpartition_at c s = ([], False, s)"
  by (simp add: rpartition_at_def partition_at_absent)

lemma rpartition_at_found: "c \<notin> set b \<Longrightarrow> rpartition_at c (a @ c # b) = (a, True, b)"
  using partition_at_found [of c "rev b" "rev a"] by (simp add: rpartition_at_def)

lemma split_scheme_plain:
  "pre \<noteq> [] \<Longrightarrow> is_alpha (hd pre) \<Longrightarrow> list_all is_scheme_char pre \<Longrightarrow> CHR '':'' \<notin> set pre \<Longrightarrow>
     split_scheme (pre @ CHR '':'' # rest) = (str_lower pre, rest)"
  by (simp add: split_scheme_def partition_at_found)

lemma clean_url_plain:
  "list_all (\<lambda>c. 32 < (of_char c :: nat)) url \<Longrightarrow> clean_url url = url"
proof -
  assume a: "list_all (\<lambda>c. 32 < (of_char c :: nat)) url"
  then have "dropWhile (\<lambda>c. (of_char c :: nat) \<le> 32) url = url" by (cases url) auto
  moreover have "filter (\<lambda>c. (of_char c :: nat) \<notin> {9, 10, 13}) url = url"
    using a by (auto simp: list_all_iff filter_id_conv)
  ultimately show ?thesis by (simp add: clean_url_def)
qed

end
