(* ===== verification/Mqtt.thy ===== *)
theory Mqtt
  imports BrokerUrl Ingestion
begin

text \<open>
  \<open>iot/mqtt_client.py\<close>, \<open>iot/bridge.py\<close> and \<open>iot/main.py\<close>: the publisher and the subscriber
  around an MQTT client, the bridge that forwards market messages to the ingestion peer,
  and its service. The client library is a record of operations on a state of its own
  (\<open>'c\<close>); the exceptions they raise are whatever they answer.
\<close>

record 'c mqtt_client =
  mq_new :: "string \<Rightarrow> 'c"
  mq_username :: "string \<Rightarrow> string option \<Rightarrow> 'c \<Rightarrow> 'c"
  mq_tls :: "'c \<Rightarrow> 'c"
  mq_connect :: "string \<Rightarrow> int \<Rightarrow> int \<Rightarrow> 'c \<Rightarrow> ('c, unit) outcome"
  mq_loop_start :: "'c \<Rightarrow> 'c"
  mq_loop_stop :: "'c \<Rightarrow> 'c"
  mq_disconnect :: "'c \<Rightarrow> 'c"
  mq_publish :: "string \<Rightarrow> json \<Rightarrow> int \<Rightarrow> 'c \<Rightarrow> ('c, unit) outcome"
  mq_subscribe :: "string \<Rightarrow> int \<Rightarrow> 'c \<Rightarrow> 'c"

text \<open>What both constructors do with a new client: credentials only if there is a user name.\<close>

definition secured :: "'c mqtt_client \<Rightarrow> mqtt_config \<Rightarrow> 'c \<Rightarrow> 'c" where
  "secured ops config c =
     (let c1 = (case mc_username config of None \<Rightarrow> c
                | Some u \<Rightarrow> if u = [] then c else mq_username ops u (mc_password config) c)
      in if mc_tls config then mq_tls ops c1 else c1)"

definition or_default :: "string option \<Rightarrow> string \<Rightarrow> string" where
  "or_default s dflt = (case s of None \<Rightarrow> dflt | Some t \<Rightarrow> if t = [] then dflt else t)"

section \<open>Publisher\<close>

record publisher =
  pb_config :: mqtt_config
  pb_connected :: bool

definition new_publisher :: "'c mqtt_client \<Rightarrow> mqtt_config \<Rightarrow> string option \<Rightarrow> publisher \<times> 'c" where
  "new_publisher ops config client_id =
     (\<lparr>pb_config = config, pb_connected = False\<rparr>,
      secured ops config (mq_new ops (or_default client_id (mc_client_id_prefix config @ ''-pub''))))"

definition pub_connect :: "'c mqtt_client \<Rightarrow> publisher \<times> 'c \<Rightarrow> (publisher \<times> 'c, unit) outcome" where
  "pub_connect ops s = (case s of (p, c) \<Rightarrow>
     if pb_connected p then (Inr (), (p, c))
     else case mq_connect ops (mc_host (pb_config p)) (mc_port (pb_config p)) (mc_keepalive (pb_config p)) c of
         (Inl e, c1) \<Rightarrow> (Inl e, (p, c1))
       | (Inr _, c1) \<Rightarrow> (Inr (), (p\<lparr>pb_connected := True\<rparr>, mq_loop_start ops c1)))"

definition publish :: "'c mqtt_client \<Rightarrow> string \<Rightarrow> json \<Rightarrow> int \<Rightarrow> publisher \<times> 'c \<Rightarrow> (publisher \<times> 'c, unit) outcome" where
  "publish ops topic payload qos s =
     bindS (if pb_connected (fst s) then (Inr (), s) else pub_connect ops s) (\<lambda>_ (p, c).
       (case mq_publish ops topic payload qos c of (r, c1) \<Rightarrow> (r, (p, c1))))"

definition pub_disconnect :: "'c mqtt_client \<Rightarrow> publisher \<times> 'c \<Rightarrow> publisher \<times> 'c" where
  "pub_disconnect ops s = (case s of (p, c) \<Rightarrow>
     if \<not> pb_connected p then (p, c)
     else (p\<lparr>pb_connected := False\<rparr>, mq_disconnect ops (mq_loop_stop ops c)))"

section \<open>Subscriber\<close>

record subscriber =
  sb_config :: mqtt_config
  sb_topics :: "string list"
  sb_received :: int
  sb_handled :: int
  sb_errors :: int

definition new_subscriber :: "'c mqtt_client \<Rightarrow> mqtt_config \<Rightarrow> string list \<Rightarrow> string option \<Rightarrow> subscriber \<times> 'c" where
  "new_subscriber ops config topics client_id =
     (\<lparr>sb_config = config, sb_topics = topics, sb_received = 0, sb_handled = 0, sb_errors = 0\<rparr>,
      secured ops config (mq_new ops (or_default client_id (mc_client_id_prefix config @ ''-sub''))))"

definition on_connect :: "'c mqtt_client \<Rightarrow> bool \<Rightarrow> subscriber \<Rightarrow> 'c \<Rightarrow> 'c" where
  "on_connect ops is_failure sb c =
     (if is_failure then c else fold (\<lambda>topic. mq_subscribe ops topic 1) (sb_topics sb) c)"

text \<open>
  A payload as it arrives: JSON, or bytes on which decoding or parsing raises. The two
  usual exceptions are counted; any other (a nesting too deep, say) leaves the callback.
\<close>

datatype mqtt_payload = Payload json | Undecodable py_exc

definition decode_error :: "py_exc \<Rightarrow> bool" where
  "decode_error e \<longleftrightarrow> e = UnicodeDecodeError \<or> e = JSONDecodeError"

type_synonym 'h message_handler = "string \<Rightarrow> json \<Rightarrow> 'h \<Rightarrow> ('h, unit) outcome"

definition on_message ::
    "'h message_handler \<Rightarrow> string \<Rightarrow> mqtt_payload \<Rightarrow> subscriber \<times> 'h \<Rightarrow> (subscriber \<times> 'h, unit) outcome" where
  "on_message handler topic payload s = (case s of (sb, h) \<Rightarrow>
     let sb1 = sb\<lparr>sb_received := sb_received sb + 1\<rparr> in
     (case payload of
        Undecodable e \<Rightarrow>
          if decode_error e then (Inr (), (sb1\<lparr>sb_errors := sb_errors sb1 + 1\<rparr>, h)) else (Inl e, (sb1, h))
      | Payload j \<Rightarrow>
          (case handler topic j h of
             (Inr _, h1) \<Rightarrow> (Inr (), (sb1\<lparr>sb_handled := sb_handled sb1 + 1\<rparr>, h1))
           | (Inl e, h1) \<Rightarrow> (Inr (), (sb1\<lparr>sb_errors := sb_errors sb1 + 1\<rparr>, h1)))))"

definition sub_start :: "'c mqtt_client \<Rightarrow> subscriber \<Rightarrow> 'c \<Rightarrow> ('c, unit) outcome" where
  "sub_start ops sb c =
     bindS (mq_connect ops (mc_host (sb_config sb)) (mc_port (sb_config sb)) (mc_keepalive (sb_config sb)) c)
       (\<lambda>_ c1. (Inr (), mq_loop_start ops c1))"

definition sub_stop :: "'c mqtt_client \<Rightarrow> 'c \<Rightarrow> 'c" where
  "sub_stop ops c = mq_disconnect ops (mq_loop_stop ops c)"

definition sub_stats :: "subscriber \<Rightarrow> (string, int) dict" where
  "sub_stats sb = [(''received'', sb_received sb), (''handled'', sb_handled sb), (''errors'', sb_errors sb)]"

section \<open>Bridge\<close>

definition default_topic :: string where
  "default_topic = ''quantian/market/+/+''"

definition topic_for :: "string \<Rightarrow> string \<Rightarrow> string" where
  "topic_for symbol asset_class = ''quantian/market/'' @ asset_class @ ''/'' @ symbol"

record bridge =
  br_ingestion_url :: string
  br_forwarded :: int
  br_forward_failures :: int
  br_validation_failures :: int

definition new_bridge ::
    "'c mqtt_client \<Rightarrow> mqtt_config \<Rightarrow> string \<Rightarrow> string list \<Rightarrow> bridge \<times> subscriber \<times> 'c" where
  "new_bridge ops config ingestion_url topics =
     (\<lparr>br_ingestion_url = rstrip_by ((=) (CHR ''/'')) ingestion_url,
       br_forwarded = 0, br_forward_failures = 0, br_validation_failures = 0\<rparr>,
      new_subscriber ops config (if topics = [] then [default_topic] else topics)
        (Some (mc_client_id_prefix config @ ''-bridge'')))"

definition forward_request :: "bridge \<Rightarrow> sensor_message \<Rightarrow> http_request" where
  "forward_request br m =
     \<lparr>rq_method = ''POST'', rq_url = br_ingestion_url br @ ''/ingestion/messages'', rq_body = Some (dump_message m)\<rparr>"

definition handle_message ::
    "pydantic \<Rightarrow> 'n network \<Rightarrow> int \<Rightarrow> (bridge \<times> 'n world) message_handler" where
  "handle_message px net now topic payload s = (case s of (br, w) \<Rightarrow>
     (case validate_message px (utc_now now) payload of
        None \<Rightarrow> (Inr (), (br\<lparr>br_validation_failures := br_validation_failures br + 1\<rparr>, w))
      | Some m \<Rightarrow>
          (case send_status net (forward_request br m) w of
             (True, w1) \<Rightarrow> (Inr (), (br\<lparr>br_forwarded := br_forwarded br + 1\<rparr>, w1))
           | (False, w1) \<Rightarrow> (Inr (), (br\<lparr>br_forward_failures := br_forward_failures br + 1\<rparr>, w1)))))"

definition bridge_stats :: "bridge \<Rightarrow> subscriber \<Rightarrow> (string, int) dict" where
  "bridge_stats br sb =
     [(''mqtt_received'', dict_get (sub_stats sb) ''received'' 0),
      (''mqtt_handled'', dict_get (sub_stats sb) ''handled'' 0),
      (''mqtt_errors'', dict_get (sub_stats sb) ''errors'' 0),
      (''forwarded_to_ingestion'', br_forwarded br),
      (''forward_failures'', br_forward_failures br),
      (''validation_failures'', br_validation_failures br)]"

text \<open>The bridge over a run of arrivals: a topic, a payload and the clock at that moment.\<close>

fun bridge_run ::
    "pydantic \<Rightarrow> 'n network \<Rightarrow> (string \<times> mqtt_payload \<times> int) list \<Rightarrow> subscriber \<times> bridge \<times> 'n world \<Rightarrow>
       subscriber \<times> bridge \<times> 'n world" where
  "bridge_run px net [] s = s"
| "bridge_run px net ((topic, payload, now) # xs) s =
     bridge_run px net xs (snd (on_message (handle_message px net now) topic payload s))"

section \<open>The bridge service\<close>

definition mqtt_topics :: "env \<Rightarrow> string list" where
  "mqtt_topics e = map strip (filter (\<lambda>t. strip t \<noteq> [])
     (split_on (CHR '','') (getenv e ''MQTT_TOPICS'' default_topic)))"

definition iot_ingestion_url :: "env \<Rightarrow> string" where
  "iot_ingestion_url e = getenv e ''AWS_INGESTION_URL'' ''http://localhost:8001''"

definition iot_bridge ::
    "(string \<Rightarrow> bool) \<Rightarrow> 'c mqtt_client \<Rightarrow> env \<Rightarrow> service_settings \<Rightarrow> (bridge \<times> subscriber \<times> 'c) result" where
  "iot_bridge address_ok ops e settings =
     bindR (parse_broker_url address_ok (ss_mqtt_broker_url settings)) (\<lambda>config.
       Inr (new_bridge ops config (iot_ingestion_url e) (mqtt_topics e)))"

definition iot_runtime :: "env \<Rightarrow> service_settings \<Rightarrow> runtime" where
  "iot_runtime e settings = \<lparr>rt_settings = settings, rt_node_id = ''iot-bridge-01'', rt_node_type = ''iot_bridge'',
     rt_cloud = ''aws'', rt_capabilities = [''collect_edge_telemetry'', ''mqtt_bridge''],
     rt_metadata = [(''broker'', JStr (ss_mqtt_broker_url settings)),
                    (''topics'', JList (map JStr (mqtt_topics e)))]\<rparr>"

definition iot_health :: "env \<Rightarrow> service_settings \<Rightarrow> bridge \<Rightarrow> subscriber \<Rightarrow> json" where
  "iot_health e settings br sb = JObj (
     [(''status'', JStr ''ok''),
      (''service'', JStr ''iot_bridge''),
      (''node_id'', JStr ''iot-bridge-01''),
      (''broker'', JStr (ss_mqtt_broker_url settings)),
      (''topics'', JList (map JStr (mqtt_topics e))),
      (''ingestion_url'', JStr (iot_ingestion_url e))] @
     map (\<lambda>(k, n). (k, JInt n)) (bridge_stats br sb))"

text \<open>
  \<open>lifespan\<close>: the service comes up whether the broker can be reached or not, and then
  registers; on the way down the runtime stops before the bridge.
\<close>

definition iot_startup ::
    "'c mqtt_client \<Rightarrow> 'n network \<Rightarrow> int \<Rightarrow> runtime \<Rightarrow> subscriber \<Rightarrow> runtime_state \<Rightarrow> 'c \<Rightarrow> 'n world \<Rightarrow>
       runtime_state \<times> 'c \<times> 'n world" where
  "iot_startup ops net now rt sb st c w =
     (case sub_start ops sb c of (_, c1) \<Rightarrow>
        (case start net now rt st w of (st1, w1) \<Rightarrow> (st1, c1, w1)))"

definition iot_shutdown :: "'c mqtt_client \<Rightarrow> runtime_state \<Rightarrow> 'c \<Rightarrow> runtime_state \<times> 'c" where
  "iot_shutdown ops st c = (stop st, sub_stop ops c)"

end
