(* ===== verification/MqttSpec.thy ===== *)
theory MqttSpec
  imports Mqtt RuntimeSpec
begin

text \<open>
  What holds of the edge layer: the broker address read from a URL, and the bridge's
  accounting of every message that arrives.
\<close>

section \<open>Broker addresses\<close>

text \<open>The pieces of an address that need no escaping: visible characters other than URL punctuation.\<close>

definition url_punctuation :: "char list" where
  "url_punctuation = ''/?#@:[]%''"

definition plain_part :: "string \<Rightarrow> bool" where
  "plain_part s \<longleftrightarrow> list_all (\<lambda>c. c \<notin> set url_punctuation \<and> 32 < (of_char c :: nat)) s"

definition show_userinfo :: "(string \<times> string) option \<Rightarrow> string" where
  "show_userinfo u = (case u of None \<Rightarrow> [] | Some (user, password) \<Rightarrow> user @ '':'' @ password @ ''@'')"

definition broker_url :: "string \<Rightarrow> (string \<times> string) option \<Rightarrow> string \<Rightarrow> nat \<Rightarrow> string" where
  "broker_url scheme u host port = scheme @ ''://'' @ show_userinfo u @ host @ '':'' @ show_nat port"

lemma plain_part_notin:
  "plain_part s \<Longrightarrow> c \<in> set url_punctuation \<Longrightarrow> c \<notin> set s"
  by (auto simp: plain_part_def list_all_iff)

lemma plain_part_append [simp]: "plain_part (a @ b) \<longleftrightarrow> plain_part a \<and> plain_part b"
  by (simp add: plain_part_def)

lemma plain_part_digits: "list_all is_digit s \<Longrightarrow> plain_part s"
  unfolding plain_part_def list_all_iff
  by (auto simp: is_digit_def url_punctuation_def)

lemma lower_char_idem [simp]: "lower_char (lower_char c) = lower_char c"
proof (cases "65 \<le> (of_char c :: nat) \<and> (of_char c :: nat) \<le> 90")
  case True
  then have "(of_char (lower_char c) :: nat) = of_char c + 32" by (simp add: lower_char_def)
  with True show ?thesis by (simp add: lower_char_def)
next
  case False
  then show ?thesis by (auto simp: lower_char_def)
qed

lemma str_lower_idem [simp]: "str_lower (str_lower s) = str_lower s"
  by (simp add: str_lower_def o_def)

lemma str_lower_Nil [simp]: "str_lower s = [] \<longleftrightarrow> s = []"
  by (simp add: str_lower_def)

lemma scheme_char_visible: "is_scheme_char c \<Longrightarrow> c \<noteq> CHR '':'' \<and> c \<noteq> CHR ''/'' \<and> 32 < (of_char c :: nat)"
  by (auto simp: is_scheme_char_def is_alpha_def is_digit_def Let_def)

definition good_scheme :: "string \<Rightarrow> bool" where
  "good_scheme s \<longleftrightarrow> s \<noteq> [] \<and> is_alpha (hd s) \<and> list_all is_scheme_char s"

definition authority :: "(string \<times> string) option \<Rightarrow> string \<Rightarrow> nat \<Rightarrow> string" where
  "authority u host port = show_userinfo u @ host @ '':'' @ show_nat port"

lemma plain_show_nat [simp]: "plain_part (show_nat n)"
  by (rule plain_part_digits) (use show_nat_digits in \<open>simp add: list_all_iff\<close>)

lemma plain_colon: "plain_part s \<Longrightarrow> CHR '':'' \<notin> set s"
  and plain_at: "plain_part s \<Longrightarrow> CHR ''@'' \<notin> set s"
  and plain_slash: "plain_part s \<Longrightarrow> CHR ''/'' \<notin> set s"
  and plain_query: "plain_part s \<Longrightarrow> CHR ''?'' \<notin> set s"
  and plain_hash: "plain_part s \<Longrightarrow> CHR ''#'' \<notin> set s"
  and plain_open: "plain_part s \<Longrightarrow> CHR ''['' \<notin> set s"
  and plain_close: "plain_part s \<Longrightarrow> CHR '']'' \<notin> set s"
  and plain_percent: "plain_part s \<Longrightarrow> CHR ''%'' \<notin> set s"
  by (simp_all add: plain_part_notin url_punctuation_def)

lemmas plain_facts = plain_colon plain_at plain_slash plain_query plain_hash plain_open plain_close plain_percent

definition plain_user :: "(string \<times> string) option \<Rightarrow> bool" where
  "plain_user u = (case u of None \<Rightarrow> True | Some (a, b) \<Rightarrow> plain_part a \<and> plain_part b)"

lemma authority_free:
  assumes "plain_user u" "plain_part host"
  shows "\<forall>c \<in> set (authority u host port). c \<notin> {CHR ''/'', CHR ''?'', CHR ''#''} \<and> c \<noteq> CHR ''['' \<and> c \<noteq> CHR '']''"
  using assms plain_facts [of host] plain_facts [OF plain_show_nat, of port]
    plain_facts [of "fst (the u)"] plain_facts [of "snd (the u)"]
  by (cases u) (auto simp: authority_def show_userinfo_def plain_user_def)

lemma plain_visible: "plain_part s \<Longrightarrow> list_all (\<lambda>c. 32 < (of_char c :: nat)) s"
  by (auto simp: plain_part_def list_all_iff)

lemma authority_visible:
  "plain_user u \<Longrightarrow> plain_part host \<Longrightarrow> list_all (\<lambda>c. 32 < (of_char c :: nat)) (authority u host port)"
  using plain_visible [of host] plain_visible [OF plain_show_nat, of port]
    plain_visible [of "fst (the u)"] plain_visible [of "snd (the u)"]
  by (cases u) (auto simp: authority_def show_userinfo_def plain_user_def)

lemma broker_url_split:
  assumes "good_scheme scheme" "plain_user u" "plain_part host"
  shows "urlsplit ok (broker_url scheme u host port) = Inr (str_lower scheme, authority u host port)"
proof -
  have url: "broker_url scheme u host port = scheme @ CHR '':'' # ''//'' @ authority u host port"
    by (simp add: broker_url_def authority_def)
  have "list_all (\<lambda>c. 32 < (of_char c :: nat)) (broker_url scheme u host port)"
    using assms authority_visible [OF assms(2,3), of port] scheme_char_visible
    by (auto simp: url good_scheme_def list_all_iff)
  moreover have "split_scheme (broker_url scheme u host port) = (str_lower scheme, ''//'' @ authority u host port)"
    unfolding url by (rule split_scheme_plain)
      (use assms scheme_char_visible in \<open>auto simp: good_scheme_def list_all_iff\<close>)
  moreover have "netloc_of (''//'' @ authority u host port) = authority u host port"
    using authority_free [OF assms(2,3), of port] by (auto simp: netloc_of_def starts_with_def takeWhile_eq_all_conv)
  moreover have "brackets_ok ok (authority u host port)"
    using authority_free [OF assms(2,3), of port] by (auto simp: brackets_ok_def)
  ultimately show ?thesis by (simp add: urlsplit_def clean_url_plain)
qed

lemma authority_host:
  assumes "plain_user u" "plain_part host"
  shows "hostinfo (authority u host port) = (host, show_nat port)"
    and "userinfo (authority u host port) = (map_option fst u, map_option snd u)"
proof -
  let ?h = "host @ CHR '':'' # show_nat port"
  have h: "CHR ''@'' \<notin> set ?h" "CHR ''['' \<notin> set ?h" "CHR '':'' \<notin> set host"
    using plain_facts [OF assms(2)] plain_facts [OF plain_show_nat, of port] by auto
  show "hostinfo (authority u host port) = (host, show_nat port)"
  proof (cases u)
    case None
    then show ?thesis
      using h partition_at_found [OF h(3), of "show_nat port"]
      by (simp add: authority_def show_userinfo_def hostinfo_def rpartition_at_absent partition_at_absent)
  next
    case (Some ab)
    obtain a b where ab: "ab = (a, b)" by (cases ab)
    have "authority u host port = (a @ CHR '':'' # b) @ CHR ''@'' # ?h"
      by (simp add: authority_def show_userinfo_def Some ab)
    then have "rpartition_at (CHR ''@'') (authority u host port) = (a @ CHR '':'' # b, True, ?h)"
      by (simp only: rpartition_at_found [OF h(1)])
    then show ?thesis
      using h(2) partition_at_found [OF h(3), of "show_nat port"] by (simp add: hostinfo_def partition_at_absent)
  qed
  show "userinfo (authority u host port) = (map_option fst u, map_option snd u)"
  proof (cases u)
    case None
    then show ?thesis using h(1)
      by (simp add: authority_def show_userinfo_def userinfo_def rpartition_at_absent)
  next
    case (Some ab)
    obtain a b where ab: "ab = (a, b)" by (cases ab)
    have "CHR '':'' \<notin> set a" using assms(1) by (simp add: Some ab plain_user_def plain_colon)
    then have "partition_at (CHR '':'') (a @ CHR '':'' # b) = (a, True, b)" by (rule partition_at_found)
    moreover have "authority u host port = (a @ CHR '':'' # b) @ CHR ''@'' # ?h"
      by (simp add: authority_def show_userinfo_def Some ab)
    then have "rpartition_at (CHR ''@'') (authority u host port) = (a @ CHR '':'' # b, True, ?h)"
      by (simp only: rpartition_at_found [OF h(1)])
    ultimately show ?thesis by (simp add: userinfo_def Some ab)
  qed
qed

lemma authority_port:
  "plain_user u \<Longrightarrow> plain_part host \<Longrightarrow> port \<le> 65535 \<Longrightarrow> url_port (authority u host port) = Inr (Some (int port))"
  using show_nat_digits [of port] by (simp add: url_port_def authority_host list_all_iff)

lemma authority_hostname:
  "plain_user u \<Longrightarrow> plain_part host \<Longrightarrow> host \<noteq> [] \<Longrightarrow> hostname (authority u host port) = Some (str_lower host)"
  by (simp add: hostname_def authority_host partition_at_absent plain_percent)

text \<open>
  A broker URL is read back as written: scheme, user, password, host and port of a URL put
  together from plain pieces are those of the configuration (the host in lower case, TLS for
  the schemes \<open>mqtts\<close> and \<open>ssl\<close>), except that port 0 stands for the default port.
\<close>

theorem broker_url_roundtrip:
  assumes "good_scheme scheme" "plain_user u" "plain_part host" "host \<noteq> []" "port \<le> 65535"
  shows "parse_broker_url ok (broker_url scheme u host port) =
     Inr \<lparr>mc_host = str_lower host,
          mc_port = (if port = 0 then (if str_lower scheme \<in> {''mqtts'', ''ssl''} then 8883 else 1883) else int port),
          mc_tls = (str_lower scheme \<in> {''mqtts'', ''ssl''}),
          mc_username = map_option fst u, mc_password = map_option snd u,
          mc_keepalive = 30, mc_client_id_prefix = ''quantian''\<rparr>"
proof -
  have "scheme \<noteq> []" using assms(1) by (simp add: good_scheme_def)
  then show ?thesis
    using assms
    by (simp add: parse_broker_url_def broker_url_split authority_port authority_hostname authority_host Let_def)
qed

theorem broker_url_roundtrip_witness:
  "parse_broker_url (\<lambda>_. False) (broker_url ''MQTTS'' (Some (''edge'', ''secret'')) ''Broker.example'' 8884) =
     Inr \<lparr>mc_host = ''broker.example'', mc_port = 8884, mc_tls = True, mc_username = Some ''edge'',
          mc_password = Some ''secret'', mc_keepalive = 30, mc_client_id_prefix = ''quantian''\<rparr>"
proof -
  have "str_lower ''MQTTS'' = ''mqtts''" "str_lower ''Broker.example'' = ''broker.example''" by code_simp+
  moreover have "good_scheme ''MQTTS''" "plain_user (Some (''edge'', ''secret''))" "plain_part ''Broker.example''"
    by code_simp+
  ultimately show ?thesis
    using broker_url_roundtrip [of "''MQTTS''" "Some (''edge'', ''secret'')" "''Broker.example''" 8884 "\<lambda>_. False"]
    by simp
qed

text \<open>
  An address written without slashes is not an address: whatever host and port it names, the
  configuration is \<open>localhost\<close> on the default port, without an error.
\<close>

theorem address_without_slashes_is_localhost:
  assumes "CHR ''/'' \<notin> set url"
  shows "\<exists>tls. parse_broker_url ok url =
     Inr \<lparr>mc_host = ''localhost'', mc_port = (if tls then 8883 else 1883), mc_tls = tls,
          mc_username = None, mc_password = None, mc_keepalive = 30, mc_client_id_prefix = ''quantian''\<rparr>"
proof -
  obtain scheme rest where sp: "split_scheme (clean_url url) = (scheme, rest)" by force
  have sub: "set b \<subseteq> set s" if "partition_at c s = (a, f, b)" for a b c f and s :: string
    using that by (induction c s arbitrary: a b rule: partition_at.induct) (auto split: if_splits prod.splits)
  have "set (clean_url url) \<subseteq> set url"
    unfolding clean_url_def by (metis filter_is_subset order_trans set_dropWhileD subsetI)
  moreover have "set rest \<subseteq> set (clean_url url)"
    using sp sub [of "CHR '':''" "clean_url url"] by (auto simp: split_scheme_def split: prod.splits if_splits)
  ultimately have "CHR ''/'' \<notin> set rest" using assms by blast
  then have "netloc_of rest = []" by (cases rest) (auto simp: netloc_of_def starts_with_def)
  then show ?thesis
    using sp by (auto simp: parse_broker_url_def urlsplit_def brackets_ok_def hostname_def hostinfo_def url_port_def
        userinfo_def rpartition_at_def Let_def)
qed

theorem address_without_slashes_is_localhost_witness:
  "\<exists>tls. parse_broker_url (\<lambda>_. False) ''broker.example.com:8883'' =
     Inr \<lparr>mc_host = ''localhost'', mc_port = (if tls then 8883 else 1883), mc_tls = tls,
          mc_username = None, mc_password = None, mc_keepalive = 30, mc_client_id_prefix = ''quantian''\<rparr>"
  by (rule address_without_slashes_is_localhost) simp

section \<open>The bridge's accounting\<close>

definition valid_payload :: "pydantic \<Rightarrow> int \<Rightarrow> mqtt_payload \<Rightarrow> bool" where
  "valid_payload px now p \<longleftrightarrow> (case p of Payload j \<Rightarrow> validate_message px (utc_now now) j \<noteq> None | Undecodable e \<Rightarrow> False)"

definition is_payload :: "mqtt_payload \<Rightarrow> bool" where
  "is_payload p \<longleftrightarrow> (case p of Payload j \<Rightarrow> True | Undecodable e \<Rightarrow> False)"

definition is_undecodable :: "mqtt_payload \<Rightarrow> bool" where
  "is_undecodable p \<longleftrightarrow> (case p of Payload j \<Rightarrow> False | Undecodable e \<Rightarrow> decode_error e)"

type_synonym arrival = "string \<times> mqtt_payload \<times> int"

definition arrival_payload :: "arrival \<Rightarrow> mqtt_payload" where
  "arrival_payload a = fst (snd a)"

definition count_arrivals :: "(mqtt_payload \<Rightarrow> bool) \<Rightarrow> arrival list \<Rightarrow> int" where
  "count_arrivals f xs = int (length (filter (\<lambda>a. f (arrival_payload a)) xs))"

definition valid_arrivals :: "pydantic \<Rightarrow> arrival list \<Rightarrow> int" where
  "valid_arrivals px xs = int (length (filter (\<lambda>a. valid_payload px (snd (snd a)) (arrival_payload a)) xs))"

lemmas arrival_simps = count_arrivals_def valid_arrivals_def arrival_payload_def valid_payload_def
  is_payload_def is_undecodable_def

text \<open>The handler always returns, moves one of the three counters, and says which.\<close>

lemma handle_message_cases:
  "handle_message px net now topic j (br, w) =
     (case validate_message px (utc_now now) j of
        None \<Rightarrow> (Inr (), (br\<lparr>br_validation_failures := br_validation_failures br + 1\<rparr>, w))
      | Some m \<Rightarrow>
          (Inr (), (if fst (send_status net (forward_request br m) w)
                    then br\<lparr>br_forwarded := br_forwarded br + 1\<rparr>
                    else br\<lparr>br_forward_failures := br_forward_failures br + 1\<rparr>,
                    snd (send_status net (forward_request br m) w))))"
  by (simp add: handle_message_def split: option.splits prod.splits bool.splits)

lemma bridge_run_counts:
  assumes "bridge_run px net xs (sb, br, w) = (sb', br', w')"
  shows "sb_received sb' = sb_received sb + int (length xs) \<and>
     sb_handled sb' = sb_handled sb + count_arrivals is_payload xs \<and>
     sb_errors sb' = sb_errors sb + count_arrivals is_undecodable xs \<and>
     br_forwarded br' + br_forward_failures br' = br_forwarded br + br_forward_failures br + valid_arrivals px xs \<and>
     br_validation_failures br' =
       br_validation_failures br + count_arrivals is_payload xs - valid_arrivals px xs"
  using assms
proof (induction xs arbitrary: sb br w)
  case Nil
  then show ?case by (simp add: arrival_simps)
next
  case (Cons x xs)
  obtain topic p now where x: "x = (topic, p, now)" by (cases x)
  obtain sb1 br1 w1 where st: "snd (on_message (handle_message px net now) topic p (sb, br, w)) = (sb1, br1, w1)"
    by (cases "snd (on_message (handle_message px net now) topic p (sb, br, w))")
  have run: "bridge_run px net xs (sb1, br1, w1) = (sb', br', w')"
    using Cons.prems by (simp add: x st)
  show ?case
  proof (cases p)
    case (Undecodable e)
    with st Cons.IH [OF run] show ?thesis
      by (auto simp: x arrival_simps on_message_def Let_def split: if_splits)
  next
    case (Payload j)
    with st Cons.IH [OF run] show ?thesis
      by (cases "validate_message px (utc_now now) j")
        (auto simp: x arrival_simps on_message_def Let_def handle_message_cases)
  qed
qed


definition null_client :: "unit mqtt_client" where
  "null_client = \<lparr>mq_new = (\<lambda>_. ()), mq_username = (\<lambda>_ _ c. c), mq_tls = id, mq_connect = (\<lambda>_ _ _ c. (Inr (), c)),
     mq_loop_start = id, mq_loop_stop = id, mq_disconnect = id, mq_publish = (\<lambda>_ _ _ c. (Inr (), c)),
     mq_subscribe = (\<lambda>_ _ c. c)\<rparr>"

definition demo_message :: sensor_message where
  "demo_message = \<lparr>sm_sensor_id = ''sensor-btcusd'', sm_symbol = ''BTCUSD'', sm_asset_class = ''crypto'',
     sm_price = Fin 68000, sm_volume = Fin 120000, sm_source = ''edge'', sm_event_time = ''now''\<rparr>"

definition demo_config :: mqtt_config where
  "demo_config = \<lparr>mc_host = ''localhost'', mc_port = 1883, mc_tls = False, mc_username = None,
     mc_password = None, mc_keepalive = 30, mc_client_id_prefix = ''quantian''\<rparr>"

definition demo_arrivals :: "arrival list" where
  "demo_arrivals = [(''t'', Undecodable JSONDecodeError, 0), (''t'', Payload (dump_message demo_message), 0),
     (''t'', Payload (JList []), 0)]"


text \<open>
  A sensor message published as JSON reaches the ingestion peer as it was sent: the bridge
  makes exactly one request, to the peer's message route with the dump of that message, whatever
  topic it came on, and counts it as forwarded if the answer is a success and as a forward
  failure otherwise.
\<close>

theorem published_message_is_forwarded:
  assumes "message_ok m"
    and "on_message (handle_message px net now) topic (Payload (dump_message m)) (sb, br, w) = (r, (sb', br', w'))"
  shows "r = Inr () \<and>
     w_trace w' = w_trace w @ [Sent \<lparr>rq_method = ''POST'', rq_url = br_ingestion_url br @ ''/ingestion/messages'',
       rq_body = Some (dump_message m)\<rparr>] \<and>
     (if reply_ok (fst (net_send net (forward_request br m) (w_net w)))
      then br' = br\<lparr>br_forwarded := br_forwarded br + 1\<rparr>
      else br' = br\<lparr>br_forward_failures := br_forward_failures br + 1\<rparr>) \<and>
     sb' = sb\<lparr>sb_received := sb_received sb + 1, sb_handled := sb_handled sb + 1\<rparr>"
  using assms
  by (auto simp: on_message_def Let_def handle_message_cases validate_dump_message send_status_def forward_request_def
      split: prod.splits if_splits)

theorem published_message_is_forwarded_witness:
  "\<exists>sb' br' w'. on_message (handle_message strict_pydantic live_network 0) ''quantian/market/crypto/BTCUSD''
       (Payload (dump_message demo_message))
       (\<lparr>sb_config = demo_config, sb_topics = [], sb_received = 0, sb_handled = 0, sb_errors = 0\<rparr>,
        \<lparr>br_ingestion_url = ''http://ingest'', br_forwarded = 0, br_forward_failures = 0, br_validation_failures = 0\<rparr>,
        demo_world) = (Inr (), (sb', br', w')) \<and>
     w_trace w' = w_trace demo_world @ [Sent \<lparr>rq_method = ''POST'', rq_url = ''http://ingest/ingestion/messages'',
       rq_body = Some (dump_message demo_message)\<rparr>]"
proof -
  obtain r sb' br' w' where eq: "on_message (handle_message strict_pydantic live_network 0)
       ''quantian/market/crypto/BTCUSD'' (Payload (dump_message demo_message))
       (\<lparr>sb_config = demo_config, sb_topics = [], sb_received = 0, sb_handled = 0, sb_errors = 0\<rparr>,
        \<lparr>br_ingestion_url = ''http://ingest'', br_forwarded = 0, br_forward_failures = 0, br_validation_failures = 0\<rparr>,
        demo_world) = (r, (sb', br', w'))"
    by (metis prod_cases3)
  have "message_ok demo_message" by (simp add: message_ok_def demo_message_def asset_classes_def)
  from published_message_is_forwarded [OF this eq] show ?thesis using eq by auto
qed

end
