(* ===== verification/Simulator.thy ===== *)
theory Simulator
  imports Mqtt
begin

text \<open>
  \<open>simulator/mqtt_publisher\<close>: the market simulator (\<open>generator.py\<close>), the publisher that sends
  its ticks over MQTT (\<open>publisher.py\<close>) and the command line (\<open>cli.py\<close>), and
  \<open>scripts/publish_simulation.py\<close>, which sends them over HTTP. The random generator is a
  parameter: a function from its state to the next draw of \<open>random()\<close> and the state after it;
  \<open>uniform\<close> is computed from a draw as the library documents it.
\<close>

type_synonym 'g rng = "'g \<Rightarrow> pyfloat \<times> 'g"

definition uniform :: "'g rng \<Rightarrow> pyfloat \<Rightarrow> pyfloat \<Rightarrow> 'g \<Rightarrow> pyfloat \<times> 'g" where
  "uniform rng a b g = (case rng g of (u, g1) \<Rightarrow> (fadd a (fmul (fsub b a) u), g1))"

record sensor =
  se_price :: pyfloat
  se_volume :: pyfloat
  se_asset_class :: string

record 'g simulator =
  si_random :: 'g
  si_state :: "(string, sensor) dict"

definition mk_sensor :: "pyfloat \<Rightarrow> pyfloat \<Rightarrow> string \<Rightarrow> sensor" where
  "mk_sensor p v a = \<lparr>se_price = p, se_volume = v, se_asset_class = a\<rparr>"

definition new_simulator :: "'g \<Rightarrow> 'g simulator" where
  "new_simulator seed = \<lparr>si_random = seed, si_state =
     [(''BTCUSD'', mk_sensor (Fin 68000) (Fin 120000) ''crypto''),
      (''ETHUSD'', mk_sensor (Fin 3200) (Fin 210000) ''crypto''),
      (''AAPL'', mk_sensor (Fin 210) (Fin 1500000) ''equity''),
      (''MSFT'', mk_sensor (Fin 430) (Fin 1100000) ''equity'')]\<rparr>"

section \<open>One tick of one sensor\<close>

definition shifts :: "'g rng \<Rightarrow> bool \<Rightarrow> 'g \<Rightarrow> (pyfloat \<times> pyfloat) \<times> 'g" where
  "shifts rng inject_anomaly g =
     (case uniform rng (fl (- (7 / 1000))) (fl (7 / 1000)) g of (price_shift, g1) \<Rightarrow>
      case uniform rng (fl (- (12 / 100))) (fl (12 / 100)) g1 of (volume_shift, g2) \<Rightarrow>
        if \<not> inject_anomaly then ((price_shift, volume_shift), g2)
        else case rng g2 of (u, g3) \<Rightarrow>
          ((fadd price_shift (if fle (Fin (1 / 2)) u then fl (8 / 100) else fl (- (8 / 100))),
            fadd volume_shift (fl (45 / 100))), g3))"

definition shifted :: "pyfloat \<Rightarrow> pyfloat \<Rightarrow> pyfloat \<Rightarrow> pyfloat" where
  "shifted lowest x shift = round_nd 6 (pymax lowest (fmul x (fadd (Fin 1) shift)))"

definition next_message :: "'g rng \<Rightarrow> int \<Rightarrow> string \<Rightarrow> bool \<Rightarrow> 'g simulator \<Rightarrow> ('g simulator, sensor_message) outcome" where
  "next_message rng now symbol inject_anomaly sim =
     (case map_of (si_state sim) symbol of
        None \<Rightarrow> (Inl (KeyError symbol), sim)
      | Some old \<Rightarrow>
          (case shifts rng inject_anomaly (si_random sim) of ((price_shift, volume_shift), g) \<Rightarrow>
             let new = old\<lparr>se_price := shifted (fl (1 / 100)) (se_price old) price_shift,
                           se_volume := shifted (Fin 1) (se_volume old) volume_shift\<rparr>
             in (Inr \<lparr>sm_sensor_id = ''sensor-'' @ str_lower symbol, sm_symbol = symbol,
                   sm_asset_class = se_asset_class new, sm_price = se_price new, sm_volume = se_volume new,
                   sm_source = ''market-simulator'', sm_event_time = utc_now now\<rparr>,
                 sim\<lparr>si_random := g, si_state := dict_set symbol new (si_state sim)\<rparr>)))"

section \<open>A cycle\<close>

fun messages_for ::
    "'g rng \<Rightarrow> (nat \<Rightarrow> int) \<Rightarrow> string option \<Rightarrow> string list \<Rightarrow> nat \<Rightarrow> 'g simulator \<Rightarrow>
       ('g simulator, sensor_message list) outcome" where
  "messages_for rng clk anomaly_symbol [] i sim = (Inr [], sim)"
| "messages_for rng clk anomaly_symbol (symbol # rest) i sim =
     bindS (next_message rng (clk i) symbol (Some symbol = anomaly_symbol) sim) (\<lambda>m sim1.
     bindS (messages_for rng clk anomaly_symbol rest (Suc i) sim1) (\<lambda>ms sim2. (Inr (m # ms), sim2)))"

definition generate_cycle ::
    "'g rng \<Rightarrow> (nat \<Rightarrow> int) \<Rightarrow> string list option \<Rightarrow> string option \<Rightarrow> 'g simulator \<Rightarrow>
       ('g simulator, sensor_message list) outcome" where
  "generate_cycle rng clk symbols anomaly_symbol sim =
     (let selected = (case symbols of None \<Rightarrow> dict_keys (si_state sim)
                      | Some ss \<Rightarrow> if ss = [] then dict_keys (si_state sim) else ss)
      in messages_for rng clk anomaly_symbol selected 0 sim)"

section \<open>Publishing over MQTT\<close>

text \<open>The publisher's state: simulator, MQTT publisher and client, the counter, and the sleeps it made.\<close>

record ('g, 'c) sim_publisher =
  sp_simulator :: "'g simulator"
  sp_publisher :: publisher
  sp_client :: 'c
  sp_published :: int
  sp_slept :: "pyfloat list"

definition new_sim_publisher ::
    "'c mqtt_client \<Rightarrow> mqtt_config \<Rightarrow> 'g simulator \<Rightarrow> string \<Rightarrow> ('g, 'c) sim_publisher" where
  "new_sim_publisher ops config sim client_id =
     (case new_publisher ops config (Some client_id) of (p, c) \<Rightarrow>
        \<lparr>sp_simulator = sim, sp_publisher = p, sp_client = c, sp_published = 0, sp_slept = []\<rparr>)"

definition with_mqtt ::
    "(publisher \<times> 'c \<Rightarrow> (publisher \<times> 'c, unit) outcome) \<Rightarrow> ('g, 'c) sim_publisher \<Rightarrow> (('g, 'c) sim_publisher, unit) outcome" where
  "with_mqtt f sp = (case f (sp_publisher sp, sp_client sp) of
     (r, (p, c)) \<Rightarrow> (r, sp\<lparr>sp_publisher := p, sp_client := c\<rparr>))"

fun publish_all :: "'c mqtt_client \<Rightarrow> sensor_message list \<Rightarrow> ('g, 'c) sim_publisher \<Rightarrow> (('g, 'c) sim_publisher, unit) outcome" where
  "publish_all ops [] sp = (Inr (), sp)"
| "publish_all ops (m # ms) sp =
     bindS (with_mqtt (publish ops (topic_for (sm_symbol m) (sm_asset_class m)) (dump_message m) 1) sp)
       (\<lambda>_ sp1. publish_all ops ms (sp1\<lparr>sp_published := sp_published sp1 + 1\<rparr>))"

definition publish_cycle ::
    "'g rng \<Rightarrow> 'c mqtt_client \<Rightarrow> (nat \<Rightarrow> int) \<Rightarrow> string option \<Rightarrow> string list option \<Rightarrow> ('g, 'c) sim_publisher \<Rightarrow>
       (('g, 'c) sim_publisher, nat) outcome" where
  "publish_cycle rng ops clk anomaly_symbol symbols sp =
     (case generate_cycle rng clk symbols anomaly_symbol (sp_simulator sp) of
        (Inl e, sim) \<Rightarrow> (Inl e, sp\<lparr>sp_simulator := sim\<rparr>)
      | (Inr messages, sim) \<Rightarrow>
          bindS (publish_all ops messages (sp\<lparr>sp_simulator := sim\<rparr>)) (\<lambda>_ sp1. (Inr (length messages), sp1)))"

text \<open>\<open>time.sleep\<close>, recorded: a negative or undefined duration raises.\<close>

definition slept :: "pyfloat \<Rightarrow> pyfloat list \<Rightarrow> (pyfloat list, unit) outcome" where
  "slept d sl =
     (if d = NaN \<or> flt d (Fin 0) then (Inl (ValueError ''sleep length must be non-negative''), sl)
      else if d = PInf then (Inl OverflowError, sl)
      else (Inr (), sl @ [d]))"

definition pause :: "pyfloat \<Rightarrow> ('g, 'c) sim_publisher \<Rightarrow> (('g, 'c) sim_publisher, unit) outcome" where
  "pause d sp = (case slept d (sp_slept sp) of (r, sl) \<Rightarrow> (r, sp\<lparr>sp_slept := sl\<rparr>))"

text \<open>The loop of \<open>run\<close>: \<open>n\<close> is the number of cycles left; \<open>clk\<close> gives each cycle its clock.\<close>

fun run_cycles ::
    "'g rng \<Rightarrow> 'c mqtt_client \<Rightarrow> (int \<Rightarrow> nat \<Rightarrow> int) \<Rightarrow> int \<Rightarrow> pyfloat \<Rightarrow> int option \<Rightarrow> string \<Rightarrow> nat \<Rightarrow> int \<Rightarrow>
       ('g, 'c) sim_publisher \<Rightarrow> (('g, 'c) sim_publisher, unit) outcome" where
  "run_cycles rng ops clk cycles interval anomaly_cycle anomaly_symbol 0 cycle sp = (Inr (), sp)"
| "run_cycles rng ops clk cycles interval anomaly_cycle anomaly_symbol (Suc n) cycle sp =
     bindS (publish_cycle rng ops (clk cycle)
              (if Some cycle = anomaly_cycle then Some anomaly_symbol else None) None sp) (\<lambda>_ sp1.
     bindS (if cycle \<noteq> cycles - 1 \<and> flt (Fin 0) interval then pause interval sp1 else (Inr (), sp1)) (\<lambda>_ sp2.
     run_cycles rng ops clk cycles interval anomaly_cycle anomaly_symbol n (cycle + 1) sp2))"

definition run_publisher ::
    "'g rng \<Rightarrow> 'c mqtt_client \<Rightarrow> (int \<Rightarrow> nat \<Rightarrow> int) \<Rightarrow> int \<Rightarrow> pyfloat \<Rightarrow> int option \<Rightarrow> string \<Rightarrow>
       ('g, 'c) sim_publisher \<Rightarrow> (('g, 'c) sim_publisher, int) outcome" where
  "run_publisher rng ops clk cycles interval anomaly_cycle anomaly_symbol sp =
     bindS (with_mqtt (pub_connect ops) sp) (\<lambda>_ sp1.
       case run_cycles rng ops clk cycles interval anomaly_cycle anomaly_symbol (nat cycles) 0 sp1 of
         (r, sp2) \<Rightarrow>
           (case pub_disconnect ops (sp_publisher sp2, sp_client sp2) of (p, c) \<Rightarrow>
              let sp3 = sp2\<lparr>sp_publisher := p, sp_client := c\<rparr>
              in (case r of Inl e \<Rightarrow> (Inl e, sp3) | Inr _ \<Rightarrow> (Inr (sp_published sp3), sp3))))"

section \<open>Command line\<close>

text \<open>The cycle in which both modes of the command inject the anomaly.\<close>

definition cli_anomaly_cycle :: "int \<Rightarrow> int" where
  "cli_anomaly_cycle cycles = max 1 (cycles div 2)"

text \<open>
  \<open>_run_stdout\<close>: the state is the simulator, the lines printed so far and the sleeps made; what
  was printed before an exception stays printed.
\<close>

record 'g stdout_state =
  so_simulator :: "'g simulator"
  so_printed :: "json list"
  so_slept :: "pyfloat list"

fun stdout_cycles ::
    "'g rng \<Rightarrow> (int \<Rightarrow> nat \<Rightarrow> int) \<Rightarrow> int \<Rightarrow> pyfloat \<Rightarrow> string \<Rightarrow> nat \<Rightarrow> int \<Rightarrow> 'g stdout_state \<Rightarrow>
       ('g stdout_state, unit) outcome" where
  "stdout_cycles rng clk cycles interval anomaly_symbol 0 cycle st = (Inr (), st)"
| "stdout_cycles rng clk cycles interval anomaly_symbol (Suc n) cycle st =
     (case generate_cycle rng (clk cycle) None
             (if cycle = cli_anomaly_cycle cycles then Some anomaly_symbol else None) (so_simulator st) of
        (Inl e, sim) \<Rightarrow> (Inl e, st\<lparr>so_simulator := sim\<rparr>)
      | (Inr ms, sim) \<Rightarrow>
          (let st1 = st\<lparr>so_simulator := sim, so_printed := so_printed st @ map dump_message ms\<rparr> in
           if \<not> ftruth interval then stdout_cycles rng clk cycles interval anomaly_symbol n (cycle + 1) st1
           else case slept interval (so_slept st1) of
               (Inl e, sl) \<Rightarrow> (Inl e, st1)
             | (Inr _, sl) \<Rightarrow>
                 stdout_cycles rng clk cycles interval anomaly_symbol n (cycle + 1) (st1\<lparr>so_slept := sl\<rparr>)))"

definition run_stdout ::
    "'g rng \<Rightarrow> (int \<Rightarrow> nat \<Rightarrow> int) \<Rightarrow> int \<Rightarrow> pyfloat \<Rightarrow> string \<Rightarrow> 'g \<Rightarrow> ('g stdout_state, unit) outcome" where
  "run_stdout rng clk cycles interval anomaly_symbol seed =
     stdout_cycles rng clk cycles interval anomaly_symbol (nat cycles) 0
       \<lparr>so_simulator = new_simulator seed, so_printed = [], so_slept = []\<rparr>"

definition run_mqtt ::
    "(string \<Rightarrow> bool) \<Rightarrow> 'g rng \<Rightarrow> 'c mqtt_client \<Rightarrow> (int \<Rightarrow> nat \<Rightarrow> int) \<Rightarrow> int \<Rightarrow> pyfloat \<Rightarrow> string \<Rightarrow> string \<Rightarrow> 'g \<Rightarrow>
       json result" where
  "run_mqtt address_ok rng ops clk cycles interval anomaly_symbol url seed =
     bindR (parse_broker_url address_ok url) (\<lambda>config.
     bindR (fst (run_publisher rng ops clk cycles interval (Some (cli_anomaly_cycle cycles)) anomaly_symbol
             (new_sim_publisher ops config (new_simulator seed) ''quantian-sim''))) (\<lambda>published.
       Inr (JObj [(''published'', JInt published), (''broker'', JStr url)])))"

section \<open>Publishing over HTTP\<close>

text \<open>
  \<open>scripts/publish_simulation.py\<close>. \<open>response.json()\<close> on an empty body raises; the entry of the
  summary reads two fields of the answer.
\<close>

definition json_body :: "'n network \<Rightarrow> string \<Rightarrow> reply \<Rightarrow> json result" where
  "json_body net url r =
     (case r of NoReply m \<Rightarrow> Inl (HttpxError m)
      | Reply status body \<Rightarrow>
          if \<not> reply_ok r then Inl (HttpxError (net_status_text net status url))
          else case body of EmptyBody \<Rightarrow> Inl JSONDecodeError | JsonBody j \<Rightarrow> Inr j | BadBody m \<Rightarrow> Inl (ValueError m))"

definition post_message :: "'n network \<Rightarrow> string \<Rightarrow> int \<Rightarrow> sensor_message \<Rightarrow> 'n world \<Rightarrow> ('n world, json) outcome" where
  "post_message net ingestion_url cycle m w =
     (let url = ingestion_url @ ''/ingestion/messages'';
          rq = \<lparr>rq_method = ''POST'', rq_url = url, rq_body = Some (dump_message m)\<rparr>
      in case net_send net rq (w_net w) of (r, n) \<Rightarrow>
        (bindR (json_body net url r) (\<lambda>payload.
         bindR (json_item payload ''symbol'') (\<lambda>symbol.
         bindR (json_item payload ''event_id'') (\<lambda>event_id.
           Inr (JObj [(''cycle'', JInt cycle), (''symbol'', symbol), (''event_id'', event_id)])))),
         \<lparr>w_net = n, w_trace = w_trace w @ [Sent rq]\<rparr>))"

fun post_messages ::
    "'n network \<Rightarrow> string \<Rightarrow> int \<Rightarrow> sensor_message list \<Rightarrow> 'n world \<Rightarrow> ('n world, json list) outcome" where
  "post_messages net ingestion_url cycle [] w = (Inr [], w)"
| "post_messages net ingestion_url cycle (m # ms) w =
     bindS (post_message net ingestion_url cycle m w) (\<lambda>entry w1.
     bindS (post_messages net ingestion_url cycle ms w1) (\<lambda>entries w2. (Inr (entry # entries), w2)))"

fun simulation_cycles ::
    "'g rng \<Rightarrow> 'n network \<Rightarrow> (int \<Rightarrow> nat \<Rightarrow> int) \<Rightarrow> string \<Rightarrow> int \<Rightarrow> pyfloat \<Rightarrow> int \<Rightarrow> string \<Rightarrow> nat \<Rightarrow> int \<Rightarrow>
       'g simulator \<Rightarrow> 'n world \<Rightarrow> ('n world, json list) outcome" where
  "simulation_cycles rng net clk ingestion_url cycles interval anomaly_cycle anomaly_symbol 0 cycle sim w = (Inr [], w)"
| "simulation_cycles rng net clk ingestion_url cycles interval anomaly_cycle anomaly_symbol (Suc n) cycle sim w =
     (case generate_cycle rng (clk cycle) None (if cycle = anomaly_cycle then Some anomaly_symbol else None) sim of
        (Inl e, sim1) \<Rightarrow> (Inl e, w)
      | (Inr messages, sim1) \<Rightarrow>
          bindS (post_messages net ingestion_url cycle messages w) (\<lambda>entries w1.
          bindS (if cycle \<noteq> cycles - 1 then sleep interval w1 else (Inr (), w1)) (\<lambda>_ w2.
          bindS (simulation_cycles rng net clk ingestion_url cycles interval anomaly_cycle anomaly_symbol n (cycle + 1) sim1 w2)
            (\<lambda>rest w3. (Inr (entries @ rest), w3)))))"

definition publish_simulation ::
    "'g rng \<Rightarrow> 'n network \<Rightarrow> (int \<Rightarrow> nat \<Rightarrow> int) \<Rightarrow> string \<Rightarrow> int \<Rightarrow> pyfloat \<Rightarrow> int \<Rightarrow> string \<Rightarrow> 'g \<Rightarrow>
       'n world \<Rightarrow> ('n world, json) outcome" where
  "publish_simulation rng net clk ingestion_url cycles interval anomaly_cycle anomaly_symbol seed w =
     bindS (simulation_cycles rng net clk ingestion_url cycles interval anomaly_cycle anomaly_symbol (nat cycles) 0
              (new_simulator seed) w)
       (\<lambda>published w1. (Inr (JObj [(''published_events'', JList published), (''count'', JInt (int (length published)))]), w1))"

end
