(* ===== verification/SimulatorSpec.thy ===== *)
theory SimulatorSpec
  imports Simulator MqttSpec
begin

text \<open>
  What holds of the simulator and of its publisher: the sensors stay in their range whatever
  the random generator draws, a cycle covers the sensors in order, and a run publishes every
  message, sleeps between cycles only and always disconnects.
\<close>

section \<open>Sensors stay in range\<close>

definition lowest_price :: pyfloat where
  "lowest_price = fl (1 / 100)"

definition sensor_ok :: "sensor \<Rightarrow> bool" where
  "sensor_ok se \<longleftrightarrow> fle lowest_price (se_price se) \<and> fle (Fin 1) (se_volume se) \<and>
     se_asset_class se \<in> set asset_classes \<and> is_double (se_price se) \<and> is_double (se_volume se)"

definition simulator_ok :: "'g simulator \<Rightarrow> bool" where
  "simulator_ok sim \<longleftrightarrow> dict_ok (si_state sim) \<and> (\<forall>(k, se) \<in> set (si_state sim). sensor_ok se)"

definition tick_ok :: "sensor_message \<Rightarrow> bool" where
  "tick_ok m \<longleftrightarrow> message_ok m \<and> fle lowest_price (sm_price m) \<and> fle (Fin 1) (sm_volume m) \<and>
     is_double (sm_price m) \<and> is_double (sm_volume m)"

lemma fl_hundredth: "lowest_price = Fin (rnd (1 / 100))"
  unfolding lowest_price_def by (rule fl_eval) simp

lemma rnd_hundredth: "\<bar>rnd (1 / 100) - 1 / 100\<bar> < 1 / 4000000"
proof -
  have "1 / (2 * subnormal_scale) \<le> 1 / 8000000"
    by (simp add: subnormal_scale_def field_simps)
  moreover have "\<bar>1 / 100 :: real\<bar> / 2 ^ 53 \<le> 1 / 80000000" by simp
  ultimately show ?thesis using rnd_error [of "1 / 100"] by linarith
qed

lemma round_nd_mono: "a \<le> b \<Longrightarrow> fle (round_nd n (Fin a)) (round_nd n (Fin b))"
  by (auto intro!: fl_mono divide_right_mono half_even_mono mult_right_mono)

lemma round_lowest_price: "round_nd 6 lowest_price = lowest_price"
proof -
  have "half_even (rnd (1 / 100) * 10 ^ 6) = 10000"
    by (rule half_even_eq) (use rnd_hundredth in \<open>simp add: abs_if split: if_splits\<close>)
  then show ?thesis by (simp add: fl_hundredth lowest_price_def [symmetric])
qed

lemma round_one: "round_nd 6 (Fin 1) = Fin 1"
  using half_even_of_int [of 1000000] by simp

lemma pymax_above: "fle (Fin r) (pymax (Fin r) y)"
  by (auto simp: pymax_def fle_def feq_def)

lemma shifted_above:
  assumes "round_nd 6 (Fin r) = Fin r"
  shows "fle (Fin r) (shifted (Fin r) x s)"
proof (cases "pymax (Fin r) (fmul x (fadd (Fin 1) s))")
  case (Fin b)
  with pymax_above [of r "fmul x (fadd (Fin 1) s)"] have "r \<le> b" by (auto simp: fle_def feq_def)
  then have "fle (round_nd 6 (Fin r)) (round_nd 6 (Fin b))" by (rule round_nd_mono)
  then show ?thesis unfolding shifted_def Fin assms .
qed (use pymax_above [of r "fmul x (fadd (Fin 1) s)"] in \<open>auto simp: shifted_def fle_def feq_def\<close>)

lemma shifted_price: "fle lowest_price (shifted lowest_price x s)"
  using shifted_above [of "rnd (1 / 100)" x s] round_lowest_price unfolding fl_hundredth by blast

lemma shifted_volume: "fle (Fin 1) (shifted (Fin 1) x s)"
  by (rule shifted_above [OF round_one])

definition moved :: "'g rng \<Rightarrow> bool \<Rightarrow> 'g simulator \<Rightarrow> sensor \<Rightarrow> sensor" where
  "moved rng anom sim old = (case fst (shifts rng anom (si_random sim)) of (ps, vs) \<Rightarrow>
     old\<lparr>se_price := shifted lowest_price (se_price old) ps, se_volume := shifted (Fin 1) (se_volume old) vs\<rparr>)"

definition tick :: "int \<Rightarrow> string \<Rightarrow> sensor \<Rightarrow> sensor_message" where
  "tick now k se = \<lparr>sm_sensor_id = ''sensor-'' @ str_lower k, sm_symbol = k, sm_asset_class = se_asset_class se,
     sm_price = se_price se, sm_volume = se_volume se, sm_source = ''market-simulator'', sm_event_time = utc_now now\<rparr>"

lemma next_message_eq:
  "next_message rng now k anom sim =
     (case map_of (si_state sim) k of None \<Rightarrow> (Inl (KeyError k), sim)
      | Some old \<Rightarrow> (Inr (tick now k (moved rng anom sim old)),
          sim\<lparr>si_random := snd (shifts rng anom (si_random sim)),
              si_state := dict_set k (moved rng anom sim old) (si_state sim)\<rparr>))"
  by (simp add: next_message_def moved_def tick_def Let_def lowest_price_def split: option.split prod.split)

lemma shifted_double:
  assumes "is_double lowest"
  shows "is_double (shifted lowest x s)"
proof -
  have "is_double (pymax lowest (fmul x (fadd (Fin 1) s)))" using assms by (simp add: pymax_def)
  then show ?thesis by (simp add: shifted_def round_nd_double)
qed

lemma moved_ok: "sensor_ok se \<Longrightarrow> sensor_ok (moved rng anom sim se)"
  by (simp add: sensor_ok_def moved_def shifted_price shifted_volume shifted_double split: prod.split)
    (simp add: lowest_price_def shifted_double)

lemma tick_ok_sensor: "sensor_ok se \<Longrightarrow> tick_ok (tick now k se)"
  by (simp add: tick_ok_def sensor_ok_def tick_def message_ok_def)

lemma simulator_ok_values: "simulator_ok sim \<longleftrightarrow> dict_ok (si_state sim) \<and> (\<forall>se \<in> set (dict_values (si_state sim)). sensor_ok se)"
  by (auto simp: simulator_ok_def dict_values_def)

lemma next_message_known:
  assumes "simulator_ok sim" "k \<in> set (dict_keys (si_state sim))"
  obtains m sim' where "next_message rng now k anom sim = (Inr m, sim')" "tick_ok m" "sm_symbol m = k"
    "sm_event_time m = utc_now now" "simulator_ok sim'" "dict_keys (si_state sim') = dict_keys (si_state sim)"
proof -
  obtain old where old: "map_of (si_state sim) k = Some old"
    using assms(2) by (auto simp: dict.keys_lookup)
  then have mem: "old \<in> set (dict_values (si_state sim))"
    by (auto simp: dict_values_def dest!: map_of_SomeD intro: rev_image_eqI)
  then have ok: "sensor_ok (moved rng anom sim old)"
    using assms(1) by (intro moved_ok) (simp add: simulator_ok_values)
  define sim' where "sim' = sim\<lparr>si_random := snd (shifts rng anom (si_random sim)),
    si_state := dict_set k (moved rng anom sim old) (si_state sim)\<rparr>"
  have "simulator_ok sim'"
    using assms(1) ok dict_set_values [of k "moved rng anom sim old" "si_state sim"]
    by (auto simp: simulator_ok_values sim'_def)
  moreover have "dict_keys (si_state sim') = dict_keys (si_state sim)"
    using assms(2) by (simp add: sim'_def dict.keys_insert)
  moreover have "next_message rng now k anom sim = (Inr (tick now k (moved rng anom sim old)), sim')"
    by (simp add: next_message_eq old sim'_def)
  ultimately show ?thesis
    using that tick_ok_sensor [OF ok] by (simp add: tick_def)
qed

lemma messages_for_known:
  assumes "simulator_ok sim" "set ks \<subseteq> set (dict_keys (si_state sim))"
  shows "\<exists>ms sim'. messages_for rng clk a ks i sim = (Inr ms, sim') \<and> map sm_symbol ms = ks \<and>
     (\<forall>m \<in> set ms. tick_ok m) \<and> simulator_ok sim' \<and> dict_keys (si_state sim') = dict_keys (si_state sim)"
  using assms
proof (induction ks arbitrary: i sim)
  case Nil
  then show ?case by simp
next
  case (Cons k ks)
  then obtain m sim1 where m: "next_message rng (clk i) k (Some k = a) sim = (Inr m, sim1)" "tick_ok m" "sm_symbol m = k"
    "simulator_ok sim1" "dict_keys (si_state sim1) = dict_keys (si_state sim)"
    by (auto elim: next_message_known [of sim k rng "clk i" "Some k = a"])
  then show ?case using Cons.IH [of sim1 "Suc i"] Cons.prems(2) by auto
qed

definition selected :: "string list option \<Rightarrow> 'g simulator \<Rightarrow> string list" where
  "selected symbols sim = (case symbols of None \<Rightarrow> dict_keys (si_state sim)
     | Some ss \<Rightarrow> if ss = [] then dict_keys (si_state sim) else ss)"

lemma generate_cycle_known:
  assumes "simulator_ok sim" "set (selected symbols sim) \<subseteq> set (dict_keys (si_state sim))"
  shows "\<exists>ms sim'. generate_cycle rng clk symbols a sim = (Inr ms, sim') \<and> map sm_symbol ms = selected symbols sim \<and>
     (\<forall>m \<in> set ms. tick_ok m) \<and> simulator_ok sim' \<and> dict_keys (si_state sim') = dict_keys (si_state sim)"
  using messages_for_known [OF assms, of rng clk a 0]
  by (simp add: generate_cycle_def selected_def Let_def)

lemma initial_doubles:
  "is_double (Fin 68000)" "is_double (Fin 120000)" "is_double (Fin 3200)" "is_double (Fin 210000)"
  "is_double (Fin 210)" "is_double (Fin 1500000)" "is_double (Fin 430)" "is_double (Fin 1100000)"
proof -
  have d: "is_double (Fin x)" if "fl x = Fin x" for x using fl_double [of x] that by simp
  show "is_double (Fin 68000)" "is_double (Fin 120000)" "is_double (Fin 3200)" "is_double (Fin 210000)"
    "is_double (Fin 210)" "is_double (Fin 1500000)" "is_double (Fin 430)" "is_double (Fin 1100000)"
    by (rule d, simp add: fl_eval)+
qed

lemma new_simulator_ok: "simulator_ok (new_simulator g)"
  by (simp add: simulator_ok_def new_simulator_def mk_sensor_def sensor_ok_def dict_ok_def asset_classes_def
      fl_hundredth initial_doubles)
    (use rnd_hundredth in \<open>simp add: abs_if split: if_splits\<close>)

text \<open>
  A cycle is complete and in range whatever the random generator draws: from the initial
  sensors, or any state reached from them, it answers with one valid message for each sensor
  asked for, in the order asked (every sensor when none is named), no price below one cent and
  no volume below one, and leaves the sensors in the same condition.
\<close>

theorem cycle_complete_and_in_range:
  assumes "simulator_ok sim" "set (selected symbols sim) \<subseteq> set (dict_keys (si_state sim))"
  shows "simulator_ok (new_simulator seed) \<and>
     (\<exists>ms sim'. generate_cycle rng clk symbols anomaly sim = (Inr ms, sim') \<and>
        map sm_symbol ms = selected symbols sim \<and>
        (\<forall>m \<in> set ms. message_ok m \<and> fle lowest_price (sm_price m) \<and> fle (Fin 1) (sm_volume m)) \<and>
        simulator_ok sim' \<and> dict_keys (si_state sim') = dict_keys (si_state sim))"
proof -
  obtain ms sim' where "generate_cycle rng clk symbols anomaly sim = (Inr ms, sim')" "map sm_symbol ms = selected symbols sim"
      "\<forall>m \<in> set ms. tick_ok m" "simulator_ok sim'" "dict_keys (si_state sim') = dict_keys (si_state sim)"
    using generate_cycle_known [OF assms] by blast
  then show ?thesis by (intro conjI new_simulator_ok exI [of _ ms] exI [of _ sim']) (auto simp: tick_ok_def)
qed

definition nan_rng :: "unit rng" where
  "nan_rng g = (NaN, g)"

theorem cycle_complete_and_in_range_witness:
  "\<exists>ms sim'. generate_cycle nan_rng (\<lambda>_. 0) (Some [''MSFT'', ''BTCUSD'']) (Some ''MSFT'') (new_simulator ()) = (Inr ms, sim') \<and>
     map sm_symbol ms = [''MSFT'', ''BTCUSD'']"
proof -
  have sel: "selected (Some [''MSFT'', ''BTCUSD'']) (new_simulator ()) = [''MSFT'', ''BTCUSD'']"
    by (simp add: selected_def)
  have sub: "set (selected (Some [''MSFT'', ''BTCUSD'']) (new_simulator ())) \<subseteq> set (dict_keys (si_state (new_simulator ())))"
    unfolding sel by (simp add: new_simulator_def dict_keys_def)
  obtain ms sim' where "generate_cycle nan_rng (\<lambda>_. 0) (Some [''MSFT'', ''BTCUSD'']) (Some ''MSFT'') (new_simulator ()) = (Inr ms, sim')"
    and "map sm_symbol ms = selected (Some [''MSFT'', ''BTCUSD'']) (new_simulator ())"
    using cycle_complete_and_in_range [OF new_simulator_ok sub, where seed = "()" and rng = nan_rng
        and clk = "\<lambda>_. 0" and anomaly = "Some ''MSFT''"] by blast
  then show ?thesis unfolding sel by (intro exI conjI)
qed

section \<open>A run of the publisher\<close>

text \<open>A client that works: connecting and publishing return.\<close>

definition reliable :: "'c mqtt_client \<Rightarrow> bool" where
  "reliable ops \<longleftrightarrow> (\<forall>h p k c. fst (mq_connect ops h p k c) = Inr ()) \<and> (\<forall>t j q c. fst (mq_publish ops t j q c) = Inr ())"

text \<open>What a client was given to publish, in a log that only \<open>publish\<close> adds to.\<close>

definition publication :: "sensor_message \<Rightarrow> string \<times> json" where
  "publication m = (topic_for (sm_symbol m) (sm_asset_class m), dump_message m)"

definition logs :: "'c mqtt_client \<Rightarrow> ('c \<Rightarrow> (string \<times> json) list) \<Rightarrow> bool" where
  "logs ops sent \<longleftrightarrow> (\<forall>h p k c. sent (snd (mq_connect ops h p k c)) = sent c) \<and>
     (\<forall>c. sent (mq_loop_start ops c) = sent c \<and> sent (mq_loop_stop ops c) = sent c \<and> sent (mq_disconnect ops c) = sent c) \<and>
     (\<forall>t j q c. sent (snd (mq_publish ops t j q c)) = sent c @ [(t, j)])"

lemma pub_connect_reliable:
  assumes "reliable ops"
  shows "\<exists>p' c'. pub_connect ops (p, c) = (Inr (), (p', c')) \<and> pb_connected p' \<and> (logs ops sent \<longrightarrow> sent c' = sent c)"
proof -
  have "fst (mq_connect ops (mc_host (pb_config p)) (mc_port (pb_config p)) (mc_keepalive (pb_config p)) c) = Inr ()"
    using assms by (simp add: reliable_def)
  moreover have "logs ops sent \<Longrightarrow>
      sent (snd (mq_connect ops (mc_host (pb_config p)) (mc_port (pb_config p)) (mc_keepalive (pb_config p)) c)) = sent c"
    by (simp add: logs_def)
  ultimately show ?thesis
    by (cases "mq_connect ops (mc_host (pb_config p)) (mc_port (pb_config p)) (mc_keepalive (pb_config p)) c")
      (auto simp: pub_connect_def logs_def)
qed

lemma publish_reliable:
  assumes "reliable ops" "pb_connected p"
  shows "\<exists>c'. publish ops t j q (p, c) = (Inr (), (p, c')) \<and> (logs ops sent \<longrightarrow> sent c' = sent c @ [(t, j)])"
proof -
  have "fst (mq_publish ops t j q c) = Inr ()" using assms(1) by (simp add: reliable_def)
  moreover have "logs ops sent \<Longrightarrow> sent (snd (mq_publish ops t j q c)) = sent c @ [(t, j)]" by (simp add: logs_def)
  ultimately show ?thesis using assms(2) by (cases "mq_publish ops t j q c") (simp add: publish_def)
qed

lemma publish_all_reliable:
  assumes "reliable ops" "pb_connected (sp_publisher sp)"
  shows "\<exists>c'. publish_all ops ms sp =
     (Inr (), sp\<lparr>sp_client := c', sp_published := sp_published sp + int (length ms)\<rparr>) \<and>
     (logs ops sent \<longrightarrow> sent c' = sent (sp_client sp) @ map publication ms)"
  using assms
proof (induction ms arbitrary: sp)
  case Nil
  show ?case by (rule exI [of _ "sp_client sp"]) simp
next
  case (Cons m ms)
  obtain c1 where "publish ops (topic_for (sm_symbol m) (sm_asset_class m)) (dump_message m) 1
      (sp_publisher sp, sp_client sp) = (Inr (), (sp_publisher sp, c1))"
    "logs ops sent \<longrightarrow> sent c1 = sent (sp_client sp) @ [publication m]"
    using publish_reliable [OF Cons.prems] unfolding publication_def by blast
  moreover obtain c2 where "publish_all ops ms (sp\<lparr>sp_client := c1, sp_published := sp_published sp + 1\<rparr>) =
      (Inr (), sp\<lparr>sp_client := c2, sp_published := sp_published sp + 1 + int (length ms)\<rparr>)"
    "logs ops sent \<longrightarrow> sent c2 = sent c1 @ map publication ms"
    using Cons.IH [of "sp\<lparr>sp_client := c1, sp_published := sp_published sp + 1\<rparr>"] Cons.prems by auto
  ultimately show ?case by (auto simp: with_mqtt_def algebra_simps)
qed

definition sensors :: "('g, 'c) sim_publisher \<Rightarrow> string list" where
  "sensors sp = dict_keys (si_state (sp_simulator sp))"

text \<open>
  The ticks of \<open>n\<close> cycles over all sensors, as the simulator draws them one cycle after the other; and
  that they were what the client was given.
\<close>

fun drawn :: "'g rng \<Rightarrow> (int \<Rightarrow> nat \<Rightarrow> int) \<Rightarrow> int option \<Rightarrow> string \<Rightarrow> nat \<Rightarrow> int \<Rightarrow> 'g simulator \<Rightarrow> sensor_message list" where
  "drawn rng clk ac a 0 cycle sim = []"
| "drawn rng clk ac a (Suc n) cycle sim =
     (case generate_cycle rng (clk cycle) None (if Some cycle = ac then Some a else None) sim of
        (Inl e, sim1) \<Rightarrow> []
      | (Inr ms, sim1) \<Rightarrow> ms @ drawn rng clk ac a n (cycle + 1) sim1)"

definition cycles_of :: "nat \<Rightarrow> string list \<Rightarrow> sensor_message list \<Rightarrow> bool" where
  "cycles_of n ks ms \<longleftrightarrow> map sm_symbol ms = concat (replicate n ks) \<and> (\<forall>m \<in> set ms. tick_ok m)"

definition gave :: "('c \<Rightarrow> (string \<times> json) list) \<Rightarrow> sensor_message list \<Rightarrow> ('g, 'c) sim_publisher \<Rightarrow> ('g, 'c) sim_publisher \<Rightarrow> bool" where
  "gave sent ms sp sp' \<longleftrightarrow> sent (sp_client sp') = sent (sp_client sp) @ map publication ms"

lemma publish_cycle_reliable:
  assumes "reliable ops" "pb_connected (sp_publisher sp)" "simulator_ok (sp_simulator sp)"
  shows "\<exists>sp' ms. publish_cycle rng ops clk a None sp = (Inr (length (sensors sp)), sp') \<and>
     sp_published sp' = sp_published sp + int (length (sensors sp)) \<and> sp_publisher sp' = sp_publisher sp \<and>
     simulator_ok (sp_simulator sp') \<and> sensors sp' = sensors sp \<and> sp_slept sp' = sp_slept sp \<and>
     generate_cycle rng clk None a (sp_simulator sp) = (Inr ms, sp_simulator sp') \<and>
     cycles_of 1 (sensors sp) ms \<and> (logs ops sent \<longrightarrow> gave sent ms sp sp')"
proof -
  have "set (selected None (sp_simulator sp)) \<subseteq> set (dict_keys (si_state (sp_simulator sp)))"
    by (simp add: selected_def)
  from generate_cycle_known [OF assms(3) this, of rng clk a]
  obtain ms sim where g: "generate_cycle rng clk None a (sp_simulator sp) = (Inr ms, sim)"
    "map sm_symbol ms = sensors sp" "simulator_ok sim" "dict_keys (si_state sim) = sensors sp" "\<forall>m \<in> set ms. tick_ok m"
    by (auto simp: selected_def sensors_def)
  obtain c' where "publish_all ops ms (sp\<lparr>sp_simulator := sim\<rparr>) =
      (Inr (), sp\<lparr>sp_simulator := sim, sp_client := c', sp_published := sp_published sp + int (length ms)\<rparr>)"
    "logs ops sent \<longrightarrow> sent c' = sent (sp_client sp) @ map publication ms"
    using publish_all_reliable [OF assms(1), of "sp\<lparr>sp_simulator := sim\<rparr>" ms] assms(2) by auto
  then show ?thesis
    using g length_map [of sm_symbol ms]
    by (intro exI [of _ "sp\<lparr>sp_simulator := sim, sp_client := c', sp_published := sp_published sp + int (length ms)\<rparr>"]
        exI [of _ ms])
      (simp add: publish_cycle_def sensors_def cycles_of_def gave_def del: length_map)
qed

definition sleeps_left :: "pyfloat \<Rightarrow> nat \<Rightarrow> pyfloat list" where
  "sleeps_left interval n = (if flt (Fin 0) interval then replicate (n - 1) interval else [])"

lemma run_cycles_reliable:
  assumes "reliable ops" "pb_connected (sp_publisher sp)" "simulator_ok (sp_simulator sp)"
    and "is_finite interval" "cycle + int n = cycles"
  shows "\<exists>sp'. run_cycles rng ops clk cycles interval ac a n cycle sp = (Inr (), sp') \<and>
     sp_published sp' = sp_published sp + int n * int (length (sensors sp)) \<and>
     sp_publisher sp' = sp_publisher sp \<and> sp_slept sp' = sp_slept sp @ sleeps_left interval n \<and>
     cycles_of n (sensors sp) (drawn rng clk ac a n cycle (sp_simulator sp)) \<and>
     (logs ops sent \<longrightarrow> gave sent (drawn rng clk ac a n cycle (sp_simulator sp)) sp sp')"
  using assms(2-)
proof (induction n arbitrary: cycle sp)
  case 0
  then show ?case by (intro exI [of _ sp]) (simp add: sleeps_left_def cycles_of_def gave_def)
next
  case (Suc n)
  obtain sp1 ms1 where sp1: "publish_cycle rng ops (clk cycle) (if Some cycle = ac then Some a else None) None sp =
      (Inr (length (sensors sp)), sp1)" "sp_published sp1 = sp_published sp + int (length (sensors sp))"
    "sp_publisher sp1 = sp_publisher sp" "simulator_ok (sp_simulator sp1)" "sensors sp1 = sensors sp" "sp_slept sp1 = sp_slept sp"
    "generate_cycle rng (clk cycle) None (if Some cycle = ac then Some a else None) (sp_simulator sp) = (Inr ms1, sp_simulator sp1)"
    "cycles_of 1 (sensors sp) ms1" "logs ops sent \<longrightarrow> gave sent ms1 sp sp1"
    using publish_cycle_reliable [OF assms(1) Suc.prems(1,2)] by blast
  define sp2 where "sp2 = (if n \<noteq> 0 \<and> flt (Fin 0) interval then sp1\<lparr>sp_slept := sp_slept sp1 @ [interval]\<rparr> else sp1)"
  have last: "cycle = cycles - 1 \<longleftrightarrow> n = 0" using Suc.prems(4) by auto
  have step: "(if cycle \<noteq> cycles - 1 \<and> flt (Fin 0) interval then pause interval sp1 else (Inr (), sp1)) = (Inr (), sp2)"
    using Suc.prems(3) by (cases interval) (auto simp: sp2_def last pause_def slept_def is_finite_def)
  have sp2: "sp_publisher sp2 = sp_publisher sp" "simulator_ok (sp_simulator sp2)" "sensors sp2 = sensors sp"
    "sp_published sp2 = sp_published sp + int (length (sensors sp))"
    "sp_slept sp2 @ sleeps_left interval n = sp_slept sp @ sleeps_left interval (Suc n)" "sp_client sp2 = sp_client sp1"
    "sp_simulator sp2 = sp_simulator sp1"
    using sp1 by (cases n; auto simp: sp2_def sensors_def sleeps_left_def)+
  let ?ms = "drawn rng clk ac a n (cycle + 1) (sp_simulator sp1)"
  obtain sp' where rest: "run_cycles rng ops clk cycles interval ac a n (cycle + 1) sp2 = (Inr (), sp')"
    "sp_published sp' = sp_published sp2 + int n * int (length (sensors sp2))" "sp_publisher sp' = sp_publisher sp2"
    "sp_slept sp' = sp_slept sp2 @ sleeps_left interval n" "cycles_of n (sensors sp2) ?ms" "logs ops sent \<longrightarrow> gave sent ?ms sp2 sp'"
    using Suc.IH [of sp2 "cycle + 1"] sp2(1,2,7) Suc.prems by auto
  have d: "drawn rng clk ac a (Suc n) cycle (sp_simulator sp) = ms1 @ ?ms" using sp1(7) by simp
  have "cycles_of (Suc n) (sensors sp) (ms1 @ ?ms)" using sp1(8) rest(5) sp2(3) by (auto simp: cycles_of_def)
  moreover have "logs ops sent \<longrightarrow> gave sent (ms1 @ ?ms) sp sp'" using sp1(9) rest(6) sp2(6) by (simp add: gave_def)
  moreover have "sp_published sp' = sp_published sp + int (Suc n) * int (length (sensors sp))"
    using rest(2) sp2(3,4) by (simp add: algebra_simps)
  ultimately show ?case using sp1(1) step sp2 rest unfolding d
    by (intro exI [of _ sp']) simp
qed

lemma disconnected:
  "pub_disconnect ops s = (p, c) \<Longrightarrow> \<not> pb_connected p"
  by (auto simp: pub_disconnect_def split: prod.splits if_splits)

lemma run_publisher_reliable:
  assumes "reliable ops" "simulator_ok (sp_simulator sp)" "is_finite interval" "0 \<le> cycles"
  shows "\<exists>sp'. run_publisher rng ops clk cycles interval ac a sp =
      (Inr (sp_published sp + cycles * int (length (sensors sp))), sp') \<and>
      sp_slept sp' = sp_slept sp @ sleeps_left interval (nat cycles) \<and>
      cycles_of (nat cycles) (sensors sp) (drawn rng clk ac a (nat cycles) 0 (sp_simulator sp)) \<and>
      (logs ops sent \<longrightarrow> gave sent (drawn rng clk ac a (nat cycles) 0 (sp_simulator sp)) sp sp')"
proof -
  let ?ms = "drawn rng clk ac a (nat cycles) 0 (sp_simulator sp)"
  obtain p c where pc: "pub_connect ops (sp_publisher sp, sp_client sp) = (Inr (), (p, c))" "pb_connected p"
      "logs ops sent \<longrightarrow> sent c = sent (sp_client sp)"
    using pub_connect_reliable [OF assms(1)] by metis
  let ?sp1 = "sp\<lparr>sp_publisher := p, sp_client := c\<rparr>"
  obtain sp2 where sp2: "run_cycles rng ops clk cycles interval ac a (nat cycles) 0 ?sp1 = (Inr (), sp2)"
    "sp_published sp2 = sp_published sp + cycles * int (length (sensors sp))"
    "sp_slept sp2 = sp_slept sp @ sleeps_left interval (nat cycles)"
    "cycles_of (nat cycles) (sensors sp) ?ms" "logs ops sent \<longrightarrow> gave sent ?ms ?sp1 sp2"
    using run_cycles_reliable [of ops ?sp1 interval 0 "nat cycles" cycles rng clk ac a sent] assms pc
    by (auto simp: sensors_def)
  obtain q c2 where q: "pub_disconnect ops (sp_publisher sp2, sp_client sp2) = (q, c2)" by fastforce
  have "logs ops sent \<longrightarrow> sent c2 = sent (sp_client sp2)"
    using q by (auto simp: pub_disconnect_def logs_def split: if_splits)
  then have "logs ops sent \<longrightarrow> gave sent ?ms sp (sp2\<lparr>sp_publisher := q, sp_client := c2\<rparr>)"
    using sp2(5) pc(3) by (simp add: gave_def)
  then show ?thesis using sp2
    by (intro exI [of _ "sp2\<lparr>sp_publisher := q, sp_client := c2\<rparr>"])
      (simp add: run_publisher_def with_mqtt_def pc(1) q Let_def)
qed

lemma cycles_length: "cycles_of n ks ms \<Longrightarrow> length ms = n * length ks"
  using length_map [of sm_symbol ms] by (simp add: cycles_of_def length_concat sum_list_replicate del: length_map)

text \<open>
  C23. A run of the publisher ends disconnected whatever the client does. With a client that
  works it gives the client, in order and each under its topic, the very ticks the simulator draws
  from its state, one for every sensor in every cycle, nothing besides, and returns their
  number; and it sleeps the interval between cycles, not after the last. What the client was given
  is read from any log of it that \<open>publish\<close>, and nothing else, adds to.
\<close>

theorem run_publishes_everything:
  fixes sp :: "('g, 'c) sim_publisher" and rng :: "'g rng" and clk :: "int \<Rightarrow> nat \<Rightarrow> int"
  assumes "\<not> pb_connected (sp_publisher sp)"
  defines "ticks \<equiv> \<lambda>cycles ac a. drawn rng clk ac a (nat cycles) 0 (sp_simulator sp)"
  shows "\<not> pb_connected (sp_publisher (snd (run_publisher rng ops clk cycles interval ac a sp))) \<and>
     (reliable ops \<and> simulator_ok (sp_simulator sp) \<and> is_finite interval \<and> 0 \<le> cycles \<longrightarrow>
       (\<exists>sp'. run_publisher rng ops clk cycles interval ac a sp =
          (Inr (sp_published sp + int (length (ticks cycles ac a))), sp') \<and>
          map sm_symbol (ticks cycles ac a) = concat (replicate (nat cycles) (sensors sp)) \<and>
          (\<forall>sent. logs ops sent \<longrightarrow>
             sent (sp_client sp') = sent (sp_client sp) @ map publication (ticks cycles ac a)) \<and>
          sp_slept sp' = sp_slept sp @ sleeps_left interval (nat cycles)))"
proof (intro conjI impI)
  show "\<not> pb_connected (sp_publisher (snd (run_publisher rng ops clk cycles interval ac a sp)))"
  proof (cases "pub_connect ops (sp_publisher sp, sp_client sp)" rule: prod_cases3)
    case Pair: (fields r p c)
    show ?thesis
    proof (cases r)
      case (Inl e)
      with Pair assms have "\<not> pb_connected p"
        by (auto simp: pub_connect_def split: prod.splits sum.splits)
      then show ?thesis by (simp add: run_publisher_def with_mqtt_def Pair Inl)
    next
      case (Inr u)
      then show ?thesis
        by (auto simp: run_publisher_def with_mqtt_def Pair Let_def dest: disconnected split: prod.split sum.split)
    qed
  qed
next
  assume h: "reliable ops \<and> simulator_ok (sp_simulator sp) \<and> is_finite interval \<and> 0 \<le> cycles"
  note run = run_publisher_reliable [of ops sp interval cycles rng clk ac a]
  obtain sp' where sp': "run_publisher rng ops clk cycles interval ac a sp =
      (Inr (sp_published sp + cycles * int (length (sensors sp))), sp')"
    "sp_slept sp' = sp_slept sp @ sleeps_left interval (nat cycles)" "cycles_of (nat cycles) (sensors sp) (ticks cycles ac a)"
    using run h unfolding ticks_def by blast
  have "gave sent (ticks cycles ac a) sp sp'" if "logs ops sent" for sent
    using run [of sent] h that sp'(1) unfolding ticks_def by auto
  then show "\<exists>sp'. run_publisher rng ops clk cycles interval ac a sp =
      (Inr (sp_published sp + int (length (ticks cycles ac a))), sp') \<and>
      map sm_symbol (ticks cycles ac a) = concat (replicate (nat cycles) (sensors sp)) \<and>
      (\<forall>sent. logs ops sent \<longrightarrow>
         sent (sp_client sp') = sent (sp_client sp) @ map publication (ticks cycles ac a)) \<and>
      sp_slept sp' = sp_slept sp @ sleeps_left interval (nat cycles)"
    using sp' cycles_length [OF sp'(3)] h by (auto simp: gave_def cycles_of_def)
qed

text \<open>A client that keeps what it is given.\<close>

definition log_client :: "(string \<times> json) list mqtt_client" where
  "log_client = \<lparr>mq_new = (\<lambda>_. []), mq_username = (\<lambda>_ _ c. c), mq_tls = id, mq_connect = (\<lambda>_ _ _ c. (Inr (), c)),
     mq_loop_start = id, mq_loop_stop = id, mq_disconnect = id, mq_publish = (\<lambda>t j q c. (Inr (), c @ [(t, j)])),
     mq_subscribe = (\<lambda>_ _ c. c)\<rparr>"

lemma log_client_works: "reliable log_client" "logs log_client id"
  by (simp_all add: log_client_def reliable_def logs_def)

theorem run_publishes_everything_witness:
  "\<exists>sp'. run_publisher nan_rng log_client (\<lambda>_ _. 0) 3 (Fin 1) (Some 1) ''BTCUSD''
       (new_sim_publisher log_client demo_config (new_simulator ()) ''quantian-sim'') = (Inr 12, sp') \<and>
     length (sp_client sp') = 12 \<and> sp_slept sp' = [Fin 1, Fin 1]"
proof -
  let ?sp = "new_sim_publisher log_client demo_config (new_simulator ()) ''quantian-sim''"
  let ?ms = "drawn nan_rng (\<lambda>_ _. 0) (Some 1) ''BTCUSD'' (nat 3) 0 (new_simulator ())"
  have sp: "\<not> pb_connected (sp_publisher ?sp)" "sp_simulator ?sp = new_simulator ()" "sp_published ?sp = 0" "sp_slept ?sp = []"
    "sp_client ?sp = []"
    by (simp_all add: new_sim_publisher_def new_publisher_def secured_def demo_config_def log_client_def)
  have "simulator_ok (sp_simulator ?sp)" unfolding sp by (rule new_simulator_ok)
  moreover have keys: "length (sensors ?sp) = 4" unfolding sensors_def sp by (simp add: new_simulator_def dict_keys_def)
  moreover have "sleeps_left (Fin 1) (nat 3) = [Fin 1, Fin 1]" by (simp add: sleeps_left_def numeral_eq_Suc)
  ultimately obtain sp' where sp': "run_publisher nan_rng log_client (\<lambda>_ _. 0) 3 (Fin 1) (Some 1) ''BTCUSD'' ?sp =
        (Inr (int (length ?ms)), sp')" "map sm_symbol ?ms = concat (replicate (nat 3) (sensors ?sp))"
      "\<forall>sent. logs log_client sent \<longrightarrow> sent (sp_client sp') = sent (sp_client ?sp) @ map publication ?ms"
      "sp_slept sp' = [Fin 1, Fin 1]"
    using run_publishes_everything [OF sp(1), where rng = nan_rng and ops = log_client and clk = "\<lambda>_ _. 0"
        and cycles = 3 and interval = "Fin 1" and ac = "Some 1" and a = "''BTCUSD''"] log_client_works(1)
    by (auto simp: is_finite_def sp)
  have "length (map sm_symbol ?ms) = 12" unfolding sp'(2) using keys by (simp add: length_concat sum_list_replicate)
  moreover have "sp_client sp' = [] @ map publication ?ms" using sp'(3) log_client_works(2) sp(5) by (metis id_apply)
  ultimately show ?thesis using sp'(1,4) by simp
qed

end
