(* ===== verification/JsonParse.thy ===== *)
theory JsonParse
  imports JsonCode
begin

text \<open>
  \<open>json.loads\<close> and \<open>JSONDecoder.raw_decode\<close>, as far as texts of 8-bit characters go: an escape
  for a code point above 255 is outside the model and counts as an error. The decoder
  recurses on the text that is left; the first argument is fuel. Twice the length of the text is
  always enough, since no two steps in a row leave the text as long as it was.
\<close>

definition json_space :: "char \<Rightarrow> bool" where
  "json_space c \<longleftrightarrow> (of_char c :: nat) \<in> {9, 10, 13, 32}"

definition skip_space :: "string \<Rightarrow> string" where
  "skip_space s = dropWhile json_space s"

section \<open>Strings\<close>

definition hex_digit_val :: "char \<Rightarrow> nat option" where
  "hex_digit_val c = (let n = (of_char c :: nat) in
     if 48 \<le> n \<and> n \<le> 57 then Some (n - 48)
     else if 97 \<le> n \<and> n \<le> 102 then Some (n - 87)
     else if 65 \<le> n \<and> n \<le> 70 then Some (n - 55) else None)"

definition hex_code :: "char \<Rightarrow> char \<Rightarrow> char \<Rightarrow> char \<Rightarrow> nat option" where
  "hex_code a b c d = (case (hex_digit_val a, hex_digit_val b, hex_digit_val c, hex_digit_val d) of
     (Some w, Some x, Some y, Some z) \<Rightarrow> Some (((w * 16 + x) * 16 + y) * 16 + z)
   | _ \<Rightarrow> None)"

definition short_escape :: "char \<Rightarrow> char option" where
  "short_escape c = map_of
     [(CHR 34, CHR 34), (CHR 92, CHR 92), (CHR ''/'', CHR ''/''), (CHR ''b'', CHR 8), (CHR ''f'', CHR 12),
      (CHR ''n'', CHR 10), (CHR ''r'', CHR 13), (CHR ''t'', CHR 9)] c"

text \<open>The rest of a string after its opening quote: the characters and the text after the closing one.\<close>

fun scan_string :: "nat \<Rightarrow> string \<Rightarrow> (string \<times> string) option" where
  "scan_string 0 s = None"
| "scan_string (Suc n) [] = None"
| "scan_string (Suc n) (c # s) =
     (if c = CHR 34 then Some ([], s)
      else if c = CHR 92 then
        (case s of
           [] \<Rightarrow> None
         | e # t \<Rightarrow>
             (if e = CHR ''u'' then
                (case t of
                   w # x # y # z # r \<Rightarrow>
                     (case hex_code w x y z of
                        None \<Rightarrow> None
                      | Some k \<Rightarrow> if 255 < k then None
                          else map_option (\<lambda>(cs, q). (char_of k # cs, q)) (scan_string n r))
                 | _ \<Rightarrow> None)
              else (case short_escape e of
                      None \<Rightarrow> None
                    | Some k \<Rightarrow> map_option (\<lambda>(cs, q). (k # cs, q)) (scan_string n t))))
      else if (of_char c :: nat) < 32 then None
      else map_option (\<lambda>(cs, q). (c # cs, q)) (scan_string n s))"

section \<open>Numbers\<close>

definition span :: "(char \<Rightarrow> bool) \<Rightarrow> string \<Rightarrow> string \<times> string" where
  "span p s = (takeWhile p s, dropWhile p s)"

text \<open>The integer part: no leading zeros.\<close>

definition scan_natural :: "string \<Rightarrow> (string \<times> string) option" where
  "scan_natural s = (case s of
     [] \<Rightarrow> None
   | c # r \<Rightarrow> if c = CHR ''0'' then Some ([c], r)
             else if is_digit c then Some (span is_digit s) else None)"

definition scan_fraction :: "string \<Rightarrow> string \<times> string" where
  "scan_fraction s = (case s of
     c # d # r \<Rightarrow> if c = CHR ''.'' \<and> is_digit d then (case span is_digit (d # r) of (ds, q) \<Rightarrow> (c # ds, q)) else ([], s)
   | _ \<Rightarrow> ([], s))"

definition scan_exponent :: "string \<Rightarrow> string \<times> string" where
  "scan_exponent s = (case s of
     c # r \<Rightarrow>
       if lower_char c = CHR ''e'' then
         (let sg = (case r of x # _ \<Rightarrow> if x = CHR ''+'' \<or> x = CHR ''-'' then [x] else [] | [] \<Rightarrow> []);
              (ds, q) = span is_digit (drop (length sg) r)
          in if ds = [] then ([], s) else (c # sg @ ds, q))
       else ([], s)
   | [] \<Rightarrow> ([], s))"

definition scan_number :: "string \<Rightarrow> (json \<times> string) option" where
  "scan_number s =
     (let neg = starts_with ''-'' s; body = (if neg then drop 1 s else s) in
      case scan_natural body of
        None \<Rightarrow> None
      | Some (ip, r1) \<Rightarrow>
          (case scan_fraction r1 of (fp, r2) \<Rightarrow>
             (case scan_exponent r2 of (ep, r3) \<Rightarrow>
                if fp = [] \<and> ep = [] then
                  Some (JInt ((if neg then - 1 else 1) * int (digits_val ip)), r3)
                else map_option (\<lambda>x. (JFloat x, r3)) (parse_float ((if neg then ''-'' else []) @ ip @ fp @ ep)))))"

section \<open>Values\<close>

text \<open>A keyword at the front of the text, in the order the scanner tries them.\<close>

fun scan_keyword :: "(string \<times> json) list \<Rightarrow> string \<Rightarrow> (json \<times> string) option" where
  "scan_keyword [] s = None"
| "scan_keyword ((k, j) # ks) s = (if starts_with k s then Some (j, drop (length k) s) else scan_keyword ks s)"

definition json_words :: "(string \<times> json) list" where
  "json_words = [(''null'', JNull), (''true'', JBool True), (''false'', JBool False),
     (''NaN'', JFloat NaN), (''Infinity'', JFloat PInf), (''-Infinity'', JFloat NInf)]"

text \<open>
  \<open>members\<close> and \<open>items\<close> read what follows an opening brace or bracket once it is known not to
  be closed at once. Keys repeated in an object keep their place and take the last value.
\<close>

fun scan_value :: "nat \<Rightarrow> string \<Rightarrow> (json \<times> string) option"
  and scan_items :: "nat \<Rightarrow> string \<Rightarrow> (json list \<times> string) option"
  and scan_members :: "nat \<Rightarrow> string \<Rightarrow> ((string \<times> json) list \<times> string) option" where
  "scan_value 0 s = None"
| "scan_value (Suc n) [] = None"
| "scan_value (Suc n) (c # s) =
     (if c = CHR 34 then map_option (\<lambda>(t, r). (JStr t, r)) (scan_string (Suc (length s)) s)
      else if c = CHR ''['' then
        (if starts_with '']'' (skip_space s) then Some (JList [], drop 1 (skip_space s))
         else map_option (\<lambda>(js, r). (JList js, r)) (scan_items n (skip_space s)))
      else if c = CHR 123 then
        (if starts_with [CHR 125] (skip_space s) then Some (JObj [], drop 1 (skip_space s))
         else map_option (\<lambda>(ms, r). (JObj (dict_of ms), r)) (scan_members n (skip_space s)))
      else (case scan_keyword json_words (c # s) of Some r \<Rightarrow> Some r | None \<Rightarrow> scan_number (c # s)))"
| "scan_items 0 s = None"
| "scan_items (Suc n) s =
     (case scan_value n s of
        None \<Rightarrow> None
      | Some (j, r) \<Rightarrow>
          (case skip_space r of
             [] \<Rightarrow> None
           | c # q \<Rightarrow>
               if c = CHR '']'' then Some ([j], q)
               else if c = CHR '','' then map_option (\<lambda>(js, t). (j # js, t)) (scan_items n (skip_space q))
               else None))"
| "scan_members 0 s = None"
| "scan_members (Suc n) s =
     (case s of
        [] \<Rightarrow> None
      | c # s1 \<Rightarrow>
          if c \<noteq> CHR 34 then None
          else case scan_string (Suc (length s1)) s1 of
              None \<Rightarrow> None
            | Some (k, r1) \<Rightarrow>
                (case skip_space r1 of
                   [] \<Rightarrow> None
                 | d # r2 \<Rightarrow>
                     if d \<noteq> CHR '':'' then None
                     else case scan_value n (skip_space r2) of
                         None \<Rightarrow> None
                       | Some (j, r3) \<Rightarrow>
                           (case skip_space r3 of
                              [] \<Rightarrow> None
                            | e # r4 \<Rightarrow>
                                if e = CHR 125 then Some ([(k, j)], r4)
                                else if e = CHR '','' then
                                  map_option (\<lambda>(ms, t). ((k, j) # ms, t)) (scan_members n (skip_space r4))
                                else None)))"

definition raw_decode :: "string \<Rightarrow> (json \<times> string) option" where
  "raw_decode s = scan_value (2 * length s + 2) s"

definition json_loads :: "string \<Rightarrow> json result" where
  "json_loads s = (case raw_decode (skip_space s) of
     Some (j, r) \<Rightarrow> if skip_space r = [] then Inr j else Inl JSONDecodeError
   | None \<Rightarrow> Inl JSONDecodeError)"

end
