(* ===== verification/Cloud.thy ===== *)
theory Cloud
  imports JsonParse Storage
begin

text \<open>
  The world of \<open>scripts/cloud_deploy.py\<close> and the steps its functions are made of: running a
  command line tool, reading its JSON, manifests under \<open>dist/live\<close>, source trees, the clock.
  The tools (\<open>az\<close>, \<open>aws\<close>, \<open>gcloud\<close>, \<open>docker\<close>, \<open>curl\<close>, \<open>ssh\<close>) and the seeding request are a
  record of operations on a state of their own: each answers, says how long it took, and
  moves that state. The clock is the one of \<open>datetime\<close>, in microseconds, and does not run
  backwards. What is only printed for the operator is left out; the commands run are in
  the trace.
\<close>

section \<open>Steps\<close>

type_synonym ('w, 'a) cmd = "'w \<Rightarrow> ('w, 'a) outcome"

definition retC :: "'a \<Rightarrow> ('w, 'a) cmd" where
  "retC x w = (Inr x, w)"

definition failC :: "py_exc \<Rightarrow> ('w, 'a) cmd" where
  "failC e w = (Inl e, w)"

definition liftR :: "'a result \<Rightarrow> ('w, 'a) cmd" where
  "liftR r w = (r, w)"

definition bindC :: "('w, 'a) cmd \<Rightarrow> ('a \<Rightarrow> ('w, 'b) cmd) \<Rightarrow> ('w, 'b) cmd" where
  "bindC m f w = bindS (m w) f"

definition seqC :: "('w, 'a) cmd \<Rightarrow> ('w, 'b) cmd \<Rightarrow> ('w, 'b) cmd" where
  "seqC m n = bindC m (\<lambda>_. n)"

definition whenC :: "bool \<Rightarrow> ('w, unit) cmd \<Rightarrow> ('w, unit) cmd" where
  "whenC b m = (if b then m else retC ())"

definition ignoreC :: "('w, 'a) cmd \<Rightarrow> ('w, unit) cmd" where
  "ignoreC m = bindC m (\<lambda>_. retC ())"

fun eachC :: "('a \<Rightarrow> ('w, unit) cmd) \<Rightarrow> 'a list \<Rightarrow> ('w, unit) cmd" where
  "eachC f [] = retC ()"
| "eachC f (x # xs) = seqC (f x) (eachC f xs)"

lemma step_simps [simp]:
  "retC x w = (Inr x, w)" "failC e w = (Inl e, w)" "liftR r w = (r, w)"
  "bindC m f w = bindS (m w) f" "seqC m n w = bindS (m w) (\<lambda>_. n)"
  by (simp_all add: retC_def failC_def liftR_def bindC_def seqC_def)

section \<open>The world\<close>

record completed =
  cp_returncode :: int
  cp_stdout :: string
  cp_stderr :: string

datatype seeding = Seeded | UrlError | OtherError py_exc

record 'x tools =
  tl_root :: path
  tl_home :: path
  tl_exec :: "string list \<Rightarrow> string option \<Rightarrow> 'x \<Rightarrow> (py_exc + completed) \<times> nat \<times> 'x"
  tl_post :: "string \<Rightarrow> json \<Rightarrow> 'x \<Rightarrow> seeding \<times> nat \<times> 'x"

datatype cloud_effect = Ran "string list" | Waited nat | Posted string json

record 'x cloud =
  cd_tools :: 'x
  cd_fs :: fs
  cd_dirs :: "path \<Rightarrow> bool"
  cd_now :: int
  cd_trace :: "cloud_effect list"

definition exec_command :: "'x tools \<Rightarrow> string option \<Rightarrow> string list \<Rightarrow> ('x cloud, completed) cmd" where
  "exec_command ct stdin command w =
     (case tl_exec ct command stdin (cd_tools w) of (r, dt, x) \<Rightarrow>
        (r, w\<lparr>cd_tools := x, cd_now := cd_now w + int dt, cd_trace := cd_trace w @ [Ran command]\<rparr>))"

text \<open>\<open>time.sleep(n)\<close> for whole seconds.\<close>

definition wait_seconds :: "nat \<Rightarrow> ('x cloud, unit) cmd" where
  "wait_seconds n w = (Inr (), w\<lparr>cd_now := cd_now w + 1000000 * int n, cd_trace := cd_trace w @ [Waited n]\<rparr>)"

definition unix_epoch :: int where
  "unix_epoch = 719162 * us_per_day"

text \<open>\<open>time.time()\<close>.\<close>

definition wall_time :: "'x cloud \<Rightarrow> pyfloat" where
  "wall_time w = fl (of_int (cd_now w - unix_epoch) / 1000000)"

section \<open>Files\<close>

definition under :: "path \<Rightarrow> path \<Rightarrow> bool" where
  "under d p \<longleftrightarrow> starts_with (d @ ''/'') p"

definition relative :: "path \<Rightarrow> path \<Rightarrow> path" where
  "relative d p = drop (Suc (length d)) p"

definition make_dirs :: "path \<Rightarrow> ('x cloud, unit) cmd" where
  "make_dirs d w = (Inr (), w\<lparr>cd_dirs := (\<lambda>q. cd_dirs w q \<or> q = d \<or> under q d)\<rparr>)"

definition remove_tree :: "path \<Rightarrow> ('x cloud, unit) cmd" where
  "remove_tree d w = (Inr (),
     w\<lparr>cd_fs := (\<lambda>p. if under d p then None else cd_fs w p),
       cd_dirs := (\<lambda>q. cd_dirs w q \<and> q \<noteq> d \<and> \<not> under d q)\<rparr>)"

text \<open>
  \<open>shutil.copytree(src, dst, dirs_exist_ok=True)\<close> with a predicate for the relative paths kept:
  files already at the destination stay unless they are overwritten.
\<close>

definition copy_tree :: "(path \<Rightarrow> bool) \<Rightarrow> path \<Rightarrow> path \<Rightarrow> ('x cloud, unit) cmd" where
  "copy_tree keep src dst w =
     (if \<not> cd_dirs w src then (Inl (OSError src), w)
      else (Inr (),
        w\<lparr>cd_fs := (\<lambda>p. if under dst p \<and> keep (relative dst p) \<and> cd_fs w (src @ ''/'' @ relative dst p) \<noteq> None
                        then cd_fs w (src @ ''/'' @ relative dst p) else cd_fs w p),
          cd_dirs := (\<lambda>q. cd_dirs w q \<or> q = dst \<or> under q dst \<or>
                        under dst q \<and> keep (relative dst q) \<and> cd_dirs w (src @ ''/'' @ relative dst q))\<rparr>))"

definition copy_file :: "path \<Rightarrow> path \<Rightarrow> ('x cloud, unit) cmd" where
  "copy_file src dst w = (case cd_fs w src of
     None \<Rightarrow> (Inl (OSError src), w)
   | Some c \<Rightarrow> (Inr (), w\<lparr>cd_fs := (cd_fs w)(dst \<mapsto> c)\<rparr>))"

section \<open>JSON values in Python\<close>

text \<open>\<open>repr\<close> of a string and of a value, and \<open>str\<close>, which f-strings use.\<close>

definition repr_char :: "char \<Rightarrow> char \<Rightarrow> string" where
  "repr_char q c =
     (let n = (of_char c :: nat) in
      if c = q \<or> n = 92 then [CHR 92, c]
      else if n = 9 then [CHR 92, CHR ''t''] else if n = 10 then [CHR 92, CHR ''n'']
      else if n = 13 then [CHR 92, CHR ''r'']
      else if n < 32 \<or> (127 \<le> n \<and> n \<le> 160) \<or> n = 173
      then [CHR 92, CHR ''x'', hex_digit (n div 16), hex_digit (n mod 16)]
      else [c])"

definition repr_str :: "string \<Rightarrow> string" where
  "repr_str s =
     (let q = (if CHR 39 \<in> set s \<and> CHR 34 \<notin> set s then CHR 34 else CHR 39)
      in q # concat (map (repr_char q) s) @ [q])"

fun py_repr :: "json \<Rightarrow> string" where
  "py_repr JNull = ''None''"
| "py_repr (JBool b) = (if b then ''True'' else ''False'')"
| "py_repr (JInt i) = show_int i"
| "py_repr (JFloat x) = repr_float x"
| "py_repr (JStr s) = repr_str s"
| "py_repr (JList xs) = ''['' @ join '', '' (map py_repr xs) @ '']''"
| "py_repr (JObj d) = CHR 123 # join '', '' (map (\<lambda>(k, t). repr_str k @ '': '' @ t)
     (map (\<lambda>(k, v). (k, py_repr v)) d)) @ [CHR 125]"

definition py_str :: "json \<Rightarrow> string" where
  "py_str j = (case j of JStr s \<Rightarrow> s | _ \<Rightarrow> py_repr j)"

definition jor :: "json \<Rightarrow> json \<Rightarrow> json" where
  "jor a b = (if jtruth a then a else b)"

text \<open>\<open>xs[0]\<close> of a value, and a chain of \<open>get\<close> calls, all but the last with an empty default.\<close>

fun json_first :: "json \<Rightarrow> json result" where
  "json_first (JList []) = Inl IndexError"
| "json_first (JList (x # xs)) = Inr x"
| "json_first (JStr []) = Inl IndexError"
| "json_first (JStr (c # s)) = Inr (JStr [c])"
| "json_first (JObj d) = Inl (KeyError ''0'')"
| "json_first j = Inl (TypeError ''object is not subscriptable'')"

fun get_chain :: "json \<Rightarrow> string list \<Rightarrow> json result" where
  "get_chain j [] = Inr j"
| "get_chain j [k] = json_get j k JNull"
| "get_chain j (k # l # ks) = bindR (json_get j k (JObj [])) (\<lambda>v. get_chain v (l # ks))"

text \<open>\<open>{**a, ...}\<close>: the entries of one object updated by a list of others.\<close>

definition json_update :: "json \<Rightarrow> (string \<times> json) list \<Rightarrow> json result" where
  "json_update j kvs = (case j of
     JObj d \<Rightarrow> Inr (JObj (fold (\<lambda>(k, v). dict_set k v) kvs d))
   | _ \<Rightarrow> Inl (TypeError ''object is not a mapping''))"

text \<open>The order of keys in a file written with \<open>sort_keys\<close>.\<close>

fun sorted_json :: "json \<Rightarrow> json" where
  "sorted_json (JList xs) = JList (map sorted_json xs)"
| "sorted_json (JObj d) = JObj (sort_keys (map (\<lambda>(k, v). (k, sorted_json v)) d))"
| "sorted_json j = j"

section \<open>Commands\<close>

text \<open>
  An argument list: literals and values read from a manifest, which raise where a key is
  missing; an argument that is not a string is refused by \<open>subprocess\<close>.
\<close>

type_synonym argument = "json result"

definition lits :: "string list \<Rightarrow> argument list" where
  "lits = map (\<lambda>s. Inr (JStr s))"

definition str_item :: "json \<Rightarrow> string \<Rightarrow> argument" where
  "str_item j k = bindR (json_item j k) (\<lambda>v. Inr (JStr (py_str v)))"

definition as_arg :: "json \<Rightarrow> string result" where
  "as_arg j = (case j of JStr s \<Rightarrow> Inr s | _ \<Rightarrow> Inl (TypeError ''expected str''))"

definition arguments :: "argument list \<Rightarrow> string list result" where
  "arguments as = bindR (mapR (\<lambda>a. a) as) (mapR as_arg)"

text \<open>The copy of the Azure configuration made before every \<open>az\<close> command.\<close>

definition prepare_azure :: "'x tools \<Rightarrow> string list \<Rightarrow> ('x cloud, unit) cmd" where
  "prepare_azure ct command w =
     (case command of
        prog # _ \<Rightarrow>
          if prog = ''az'' then
            (if cd_dirs w (tl_home ct @ ''/.azure'')
             then copy_tree (\<lambda>_. True) (tl_home ct @ ''/.azure'') (tl_root ct @ ''/.azure-cli'') w
             else make_dirs (tl_root ct @ ''/.azure-cli'') w)
          else (Inr (), w)
      | [] \<Rightarrow> (Inr (), w))"

definition run_strings :: "'x tools \<Rightarrow> bool \<Rightarrow> string list \<Rightarrow> ('x cloud, completed) cmd" where
  "run_strings ct check command =
     seqC (prepare_azure ct command) (bindC (exec_command ct None command) (\<lambda>c.
       if check \<and> cp_returncode c \<noteq> 0 then failC (SystemExit (show_int (cp_returncode c))) else retC c))"

definition run_with :: "'x tools \<Rightarrow> bool \<Rightarrow> argument list \<Rightarrow> ('x cloud, completed) cmd" where
  "run_with ct check as = bindC (liftR (arguments as)) (run_strings ct check)"

definition run_cmd :: "'x tools \<Rightarrow> argument list \<Rightarrow> ('x cloud, completed) cmd" where
  "run_cmd ct as = run_with ct True as"

definition do_cmd :: "'x tools \<Rightarrow> argument list \<Rightarrow> ('x cloud, unit) cmd" where
  "do_cmd ct as = ignoreC (run_cmd ct as)"

text \<open>
  Output that is not JSON from its first character is searched for the first object or
  list that decodes.
\<close>

fun first_decodable :: "string \<Rightarrow> json option" where
  "first_decodable [] = None"
| "first_decodable (c # s) =
     (if c \<noteq> CHR ''['' \<and> c \<noteq> CHR 123 then first_decodable s
      else case raw_decode (c # s) of Some (j, _) \<Rightarrow> Some j | None \<Rightarrow> first_decodable s)"

definition parse_json_output :: "string \<Rightarrow> json result" where
  "parse_json_output payload =
     (let s = strip payload in
      if s = [] then Inr (JObj [])
      else case json_loads s of
          Inr j \<Rightarrow> Inr j
        | Inl e \<Rightarrow> (case first_decodable s of Some j \<Rightarrow> Inr j | None \<Rightarrow> Inl JSONDecodeError))"

definition run_json :: "'x tools \<Rightarrow> argument list \<Rightarrow> ('x cloud, json) cmd" where
  "run_json ct as = bindC (run_cmd ct as) (\<lambda>c. liftR (parse_json_output (cp_stdout c)))"

definition soft_fail :: "'x tools \<Rightarrow> argument list \<Rightarrow> string list \<Rightarrow> ('x cloud, completed) cmd" where
  "soft_fail ct as ok_substrings =
     bindC (run_with ct False as) (\<lambda>c.
       let combined = cp_stdout c @ CHR 10 # cp_stderr c in
       if cp_returncode c = 0 \<or> list_ex (\<lambda>f. contains_str f combined) ok_substrings then retC c
       else failC (SystemExit (show_int (cp_returncode c))))"

definition output_value :: "'x tools \<Rightarrow> argument list \<Rightarrow> ('x cloud, string) cmd" where
  "output_value ct as = bindC (run_cmd ct as) (\<lambda>c. retC (strip (cp_stdout c)))"

text \<open>A query whose failure means that the thing is not there.\<close>

definition query_json :: "'x tools \<Rightarrow> argument list \<Rightarrow> ('x cloud, json) cmd" where
  "query_json ct as = bindC (run_with ct False as) (\<lambda>c.
     if cp_returncode c \<noteq> 0 then retC JNull else liftR (parse_json_output (cp_stdout c)))"

section \<open>Manifests\<close>

definition manifest_path :: "'x tools \<Rightarrow> string \<Rightarrow> path" where
  "manifest_path ct name = tl_root ct @ ''/dist/live/'' @ name @ ''.json''"

text \<open>A missing or blank manifest is \<open>None\<close>.\<close>

definition load_manifest :: "'x tools \<Rightarrow> string \<Rightarrow> ('x cloud, json) cmd" where
  "load_manifest ct name w =
     (case cd_fs w (manifest_path ct name) of
        None \<Rightarrow> (Inr JNull, w)
      | Some (JsonFile j) \<Rightarrow> (Inr j, w)
      | Some (TextFile t) \<Rightarrow> if strip t = [] then (Inr JNull, w) else (json_loads (strip t), w))"

definition save_manifest :: "'x tools \<Rightarrow> string \<Rightarrow> json \<Rightarrow> ('x cloud, json) cmd" where
  "save_manifest ct name payload =
     seqC (make_dirs (tl_root ct @ ''/dist/live'')) (\<lambda>w.
       (Inr payload, w\<lparr>cd_fs := (cd_fs w)(manifest_path ct name \<mapsto> JsonFile (sorted_json payload))\<rparr>))"

end
