(* ===== verification/FloatText.thy ===== *)
theory FloatText
  imports JsonParse FloatEval
begin

text \<open>
  The text of a float is read back as the float: seventeen significant digits are always enough, so
  the shortest digit string that rounds back exists, and the reader returns the number it stands for.
\<close>

section \<open>A number close to a double rounds to it\<close>

lemma cut_bits_eq:
  assumes "2 ^ (c + 52) \<le> n" "n < 2 ^ (c + 53)"
  shows "cut_bits n = c"
proof -
  have "(2::real) ^ (c + 52) < 2 ^ (cut_bits n + 53)" using assms(1) cut_bits_upper [of n] by linarith
  then have ge: "c \<le> cut_bits n" by simp
  have "cut_bits n \<le> c"
  proof (rule ccontr)
    assume "\<not> cut_bits n \<le> c"
    then have "(2::real) ^ (cut_bits n + 52) < 2 ^ (c + 53)" using assms(2) cut_bits_lower [of n] by linarith
    then show False using \<open>\<not> cut_bits n \<le> c\<close> by simp
  qed
  with ge show ?thesis by simp
qed

lemma cut_bits_zero:
  assumes "n < 2 ^ 53"
  shows "cut_bits n = 0"
proof (rule ccontr)
  assume "cut_bits n \<noteq> 0"
  then have "2 ^ (cut_bits n + 52) \<le> n" by (intro cut_bits_lower) simp
  moreover have "(2::real) ^ 53 \<le> 2 ^ (cut_bits n + 52)" using \<open>cut_bits n \<noteq> 0\<close> by (intro power_increasing) simp_all
  ultimately show False using assms by linarith
qed

lemma slack: "2 ^ (c + 53) / (2 * 10 ^ 16) < 46 / 100 * (2::real) ^ c"
proof -
  have "2 ^ (c + 53) / (2 * 10 ^ 16) = 2 ^ 53 / (2 * 10 ^ 16) * (2::real) ^ c" by (simp add: power_add)
  also have "\<dots> < 46 / 100 * 2 ^ c" by (intro mult_strict_right_mono) simp_all
  finally show ?thesis .
qed

lemma rnd_units_eq:
  assumes "cut_bits n = c" "\<bar>n / 2 ^ c - of_int q\<bar> < 1 / 2"
  shows "rnd_units n = of_int q * 2 ^ c"
  using assms half_even_eq [of "n / 2 ^ c" q] by (simp add: rnd_units_def)

lemma rnd_units_close:
  assumes "0 < N" "rnd_units N = N" "\<bar>Y - N\<bar> \<le> N / (2 * 10 ^ 16)"
  shows "rnd_units Y = N"
proof -
  define c q where "c = cut_bits N" and "q = half_even (N / 2 ^ c)"
  have N: "N = of_int q * 2 ^ c" using assms(2) by (simp add: rnd_units_def c_def q_def)
  have upper: "N < 2 ^ (c + 53)" using cut_bits_upper [of N] by (simp add: c_def)
  then have q_upper: "of_int q < (2::real) ^ 53" by (simp add: N power_add mult.commute)
  have "N / (2 * 10 ^ 16) \<le> 2 ^ (c + 53) / (2 * 10 ^ 16)" using upper by (intro divide_right_mono) simp_all
  then have near: "\<bar>Y - N\<bar> < 46 / 100 * 2 ^ c" using assms(3) slack [of c] by linarith
  show ?thesis
  proof (cases c)
    case 0
    then have Nq: "N = of_int q" using N by simp
    then have "q < 2 ^ 53" using q_upper by (metis of_int_less_iff of_int_numeral of_int_power)
    then have "of_int q \<le> (of_int (2 ^ 53 - 1) :: real)" by (simp only: of_int_le_iff)
    then have "of_int q \<le> (2::real) ^ 53 - 1" by simp
    moreover have "\<bar>Y - of_int q\<bar> < 46 / 100" using near 0 Nq by simp
    ultimately have "Y < 2 ^ 53" by linarith
    then have "cut_bits Y = 0" by (rule cut_bits_zero)
    moreover have "\<bar>Y / 2 ^ 0 - of_int q\<bar> < 1 / 2" using near 0 Nq by simp
    ultimately have "rnd_units Y = of_int q * 2 ^ 0" by (rule rnd_units_eq)
    then show ?thesis using Nq by simp
  next
    case (Suc d)
    then have lower: "2 ^ (c + 52) \<le> N" using cut_bits_lower [of N] by (simp add: c_def)
    have q_lower: "(2::real) ^ 52 \<le> of_int q" using lower by (simp add: N power_add)
    have quotient: "\<bar>Y / 2 ^ c - of_int q\<bar> < 46 / 100"
    proof -
      have "Y / 2 ^ c - of_int q = (Y - N) / 2 ^ c" by (simp add: N diff_divide_distrib)
      then have "\<bar>Y / 2 ^ c - of_int q\<bar> = \<bar>Y - N\<bar> / 2 ^ c" by simp
      then show ?thesis using near by (simp add: divide_less_eq)
    qed
    show ?thesis
    proof (cases "2 ^ (c + 52) \<le> Y")
      case True
      have "of_int q \<le> (2::real) ^ 53 - 1"
      proof -
        have "q < 2 ^ 53" using q_upper by (metis of_int_less_iff of_int_numeral of_int_power)
        then have "of_int q \<le> (of_int (2 ^ 53 - 1) :: real)" by (simp only: of_int_le_iff)
        then show ?thesis by simp
      qed
      then have "Y / 2 ^ c < 2 ^ 53" using quotient by linarith
      then have "Y < 2 ^ (c + 53)" by (simp add: divide_less_eq power_add mult.commute)
      then have "cut_bits Y = c" using True by (intro cut_bits_eq)
      then have "rnd_units Y = of_int q * 2 ^ c" using quotient by (intro rnd_units_eq) linarith+
      then show ?thesis by (simp add: N)
    next
      case False
      then have "Y / 2 ^ c < 2 ^ 52" by (simp add: divide_less_eq power_add mult.commute)
      then have "of_int q < (2::real) ^ 52 + 1" using quotient by linarith
      then have "of_int q < (of_int (2 ^ 52 + 1) :: real)" by simp
      then have "q < 2 ^ 52 + 1" by (simp only: of_int_less_iff)
      moreover have "of_int (2 ^ 52) \<le> (of_int q :: real)" using q_lower by simp
      then have "2 ^ 52 \<le> q" by (simp only: of_int_le_iff)
      ultimately have "q = 2 ^ 52" by simp
      then have N2: "N = 2 ^ (d + 53)" using N Suc by (simp add: power_add)
      have "\<bar>Y - N\<bar> \<le> 2 ^ (d + 53) / (2 * 10 ^ 16)" using assms(3) by (simp only: N2)
      then have tight: "\<bar>Y - N\<bar> < 46 / 100 * 2 ^ d" using slack [of d] by linarith
      have "2 ^ (d + 52) \<le> N - 46 / 100 * 2 ^ d" by (simp add: N2 power_add)
      then have "2 ^ (d + 52) \<le> Y" using tight by linarith
      moreover have "Y < 2 ^ (d + 53)" using False Suc by (simp add: add.commute)
      ultimately have "cut_bits Y = d" by (intro cut_bits_eq)
      moreover have "\<bar>Y / 2 ^ d - of_int (2 ^ 53)\<bar> < 1 / 2"
      proof -
        have "Y / 2 ^ d - of_int (2 ^ 53) = (Y - N) / 2 ^ d" by (simp add: N2 power_add diff_divide_distrib)
        then have "\<bar>Y / 2 ^ d - of_int (2 ^ 53)\<bar> = \<bar>Y - N\<bar> / 2 ^ d" by simp
        moreover have "(0::real) < 2 ^ d" by simp
        then have "\<bar>Y - N\<bar> < 1 / 2 * 2 ^ d" using tight by linarith
        ultimately show ?thesis by (simp add: divide_less_eq)
      qed
      ultimately have "rnd_units Y = of_int (2 ^ 53) * 2 ^ d" by (rule rnd_units_eq)
      then show ?thesis using N2 by (simp add: power_add)
    qed
  qed
qed

lemma rnd_close:
  assumes "0 < r" "rnd r = r" "\<bar>y - r\<bar> \<le> r / (2 * 10 ^ 16)"
  shows "rnd y = r"
proof -
  have "r / (2 * 10 ^ 16) \<le> r" using assms(1) by simp
  then have y: "0 \<le> y" using assms(3) by linarith
  have fixed: "rnd_units (r * subnormal_scale) = r * subnormal_scale"
    using assms(1,2) rnd_nonneg_eq [of r] by (simp add: divide_eq_eq)
  have "\<bar>y * subnormal_scale - r * subnormal_scale\<bar> = \<bar>y - r\<bar> * subnormal_scale"
    by (simp add: abs_mult left_diff_distrib [symmetric])
  also have "\<dots> \<le> r / (2 * 10 ^ 16) * subnormal_scale" using assms(3) by (rule mult_right_mono) simp
  also have "\<dots> = r * subnormal_scale / (2 * 10 ^ 16)" by simp
  finally have "rnd_units (y * subnormal_scale) = r * subnormal_scale"
    by (rule rnd_units_close [OF mult_pos_pos [OF assms(1) subnormal_scale_pos(1)] fixed])
  then show ?thesis using y by (simp add: rnd_nonneg_eq)
qed

section \<open>The shortest digits exist\<close>

lemma double_ge:
  assumes "0 < r" "rnd r = r"
  shows "1 \<le> r * subnormal_scale"
proof -
  have "r * subnormal_scale = rnd_units (r * subnormal_scale)" using assms rnd_nonneg_eq [of r] by (simp add: divide_eq_eq)
  then obtain q :: int and k where q: "r * subnormal_scale = of_int q * 2 ^ k" by (metis rnd_units_def)
  have "0 < r * subnormal_scale" using assms(1) by simp
  then have "(0::real) < of_int q" using q by (simp add: zero_less_mult_iff)
  then have "1 \<le> q" by simp
  then have "1 \<le> (of_int q :: real)" by simp
  moreover have "1 \<le> (2::real) ^ k" by simp
  ultimately have "1 * 1 \<le> of_int q * (2::real) ^ k" by (intro mult_mono) simp_all
  then show ?thesis using q by simp
qed

lemma subnormal_scale_le: "subnormal_scale \<le> 10 ^ 400"
proof -
  have "(2::real) ^ 1074 \<le> 2 ^ (3 * 400)" by (rule power_increasing) simp_all
  also have "\<dots> = (2 ^ 3) ^ 400" by (rule power_mult)
  also have "\<dots> \<le> 10 ^ 400" by (rule power_mono) simp_all
  finally show ?thesis by (simp only: subnormal_scale_def)
qed

lemma floorlog_bounds:
  assumes "1 \<le> x"
  shows "0 < floorlog 10 (nat \<lfloor>x\<rfloor>)" "10 ^ (floorlog 10 (nat \<lfloor>x\<rfloor>) - 1) \<le> x" "x < 10 ^ floorlog 10 (nat \<lfloor>x\<rfloor>)"
proof -
  let ?n = "floorlog 10 (nat \<lfloor>x\<rfloor>)"
  have m: "1 \<le> nat \<lfloor>x\<rfloor>" using assms by (simp add: le_nat_iff)
  have "nat \<lfloor>x\<rfloor> < 10 ^ ?n" by (rule floorlog_leD) simp_all
  then have "\<lfloor>x\<rfloor> < int (10 ^ ?n)" using assms by (simp add: nat_less_iff)
  then show "x < 10 ^ ?n" by (simp add: floor_less_iff)
  show "0 < ?n"
  proof (rule ccontr)
    assume "\<not> 0 < ?n"
    then have "nat \<lfloor>x\<rfloor> < 10 ^ 0" by (intro floorlog_leD) simp_all
    then show False using m by simp
  qed
  then have "10 ^ (?n - 1) \<le> nat \<lfloor>x\<rfloor>" by (intro floorlog_geD) simp_all
  then have "int (10 ^ (?n - 1)) \<le> \<lfloor>x\<rfloor>" using assms by (simp add: le_nat_iff)
  then show "10 ^ (?n - 1) \<le> x" by (simp add: le_floor_iff)
qed

lemma dec_point_bounds:
  assumes "0 < r" "rnd r = r"
  shows "10 powi (dec_point r - 1) \<le> r" "r < 10 powi dec_point r"
proof -
  define T :: real where "T = 10 ^ 400"
  have T: "0 < T" "T = 10 powi 400" unfolding T_def by (rule zero_less_power, simp) (simp only: power_int_numeral)
  define n where "n = floorlog 10 (nat \<lfloor>r * T\<rfloor>)"
  have "r * subnormal_scale \<le> r * T" using assms(1) subnormal_scale_le unfolding T_def by (intro mult_left_mono) simp_all
  then have x: "1 \<le> r * T" using double_ge [OF assms] by linarith
  note n = floorlog_bounds [OF x, folded n_def]
  have p: "dec_point r = int n - 400" by (simp only: dec_point_def n_def T_def)
  have scaled: "(10::real) powi (int k - 400) = 10 ^ k / T" for k
    by (simp only: T(2) power_int_of_nat [symmetric]) (rule power_int_diff, simp)
  have "int n - 400 - 1 = int (n - 1) - 400" using n(1) by simp
  then have down: "10 powi (dec_point r - 1) = (10::real) ^ (n - 1) / T" by (simp only: p scaled)
  have up: "10 powi dec_point r = (10::real) ^ n / T" by (simp only: p scaled)
  show "10 powi (dec_point r - 1) \<le> r" unfolding down using n(2) T(1) by (simp add: divide_le_eq)
  show "r < 10 powi dec_point r" unfolding up using n(3) T(1) by (simp add: less_divide_eq)
qed

lemma tens: "(10::real) powi i > 0" "(10::real) powi (i + j) = 10 powi i * 10 powi j" "(10::real) powi (i - j) = 10 powi i / 10 powi j"
  by (simp_all add: power_int_add power_int_diff)

lemma digit_candidates_sound:
  assumes "0 < r" "rnd r = r" "1 \<le> k" "c \<in> set (digit_candidates r k)"
  shows "1 \<le> c" "rnd (of_int c * 10 powi (dec_point r - int k)) = r"
proof -
  let ?s = "r * 10 powi (int k - dec_point r)"
  have "10 powi (int k - 1) = 10 powi (dec_point r - 1) * (10::real) powi (int k - dec_point r)"
    by (simp add: tens(2) [symmetric])
  also have "\<dots> \<le> ?s" using dec_point_bounds(1) [OF assms(1,2)] by (intro mult_right_mono) simp_all
  finally have "10 powi (int k - 1) \<le> ?s" .
  moreover have "int k - 1 = int (k - 1)" using assms(3) by simp
  then have "10 powi (int k - 1) = (10::real) ^ (k - 1)" by (simp only: power_int_of_nat)
  moreover have "1 \<le> (10::real) ^ (k - 1)" by simp
  ultimately have "1 \<le> ?s" by linarith
  then have "1 \<le> \<lfloor>?s\<rfloor>" by simp
  then show "1 \<le> c" using assms(4) by (auto simp: digit_candidates_def Let_def split: if_splits)
  show "rnd (of_int c * 10 powi (dec_point r - int k)) = r"
    using assms(4) by (auto simp: digit_candidates_def Let_def)
qed

lemma seventeen_digits:
  assumes "0 < r" "rnd r = r"
  shows "digit_candidates r 17 \<noteq> []"
proof -
  let ?p = "dec_point r"
  let ?s = "r * 10 powi (17 - ?p)" and ?u = "(10::real) powi (?p - 17)"
  define m where "m = (if ?s - of_int \<lfloor>?s\<rfloor> \<le> 1 / 2 then \<lfloor>?s\<rfloor> else \<lfloor>?s\<rfloor> + 1)"
  have m: "\<bar>of_int m - ?s\<bar> \<le> 1 / 2" unfolding m_def by (auto simp: abs_le_iff; linarith)
  have "?s * ?u = r * (10 powi (17 - ?p + (?p - 17)))" by (simp only: tens(2) mult.assoc)
  then have r: "?s * ?u = r" by simp
  have "of_int m * ?u - r = (of_int m - ?s) * ?u" using r by (simp add: left_diff_distrib)
  then have "\<bar>of_int m * ?u - r\<bar> = \<bar>of_int m - ?s\<bar> * ?u" by (simp add: abs_mult)
  also have "\<dots> \<le> 1 / 2 * ?u" using m by (intro mult_right_mono) simp_all
  also have "\<dots> = 10 powi (?p - 1) / (2 * 10 ^ 16)"
  proof -
    have "?u = 10 powi (?p - 1 - 16)" by simp
    also have "\<dots> = 10 powi (?p - 1) / 10 powi 16" by (simp only: tens(3))
    finally show ?thesis by simp
  qed
  also have "\<dots> \<le> r / (2 * 10 ^ 16)" using dec_point_bounds(1) [OF assms] by (intro divide_right_mono) simp_all
  finally have "rnd (of_int m * ?u) = r" by (rule rnd_close [OF assms])
  then show ?thesis by (auto simp: digit_candidates_def Let_def m_def filter_empty_conv split: if_splits)
qed

lemma shortest_from_sound:
  assumes "0 < r" "rnd r = r" "fuel + k = 17" "1 \<le> k" "shortest_from r fuel k = (c, l)"
  shows "1 \<le> c" "rnd (of_int c * 10 powi (dec_point r - int l)) = r"
proof -
  have "c \<in> set (digit_candidates r l) \<and> 1 \<le> l"
    using assms(3-5)
  proof (induction fuel arbitrary: k)
    case 0
    then show ?case using seventeen_digits [OF assms(1,2)] by (auto split: list.splits)
  next
    case (Suc fuel)
    then show ?case using Suc.IH [of "Suc k"] by (auto split: list.splits)
  qed
  then show "1 \<le> c" "rnd (of_int c * 10 powi (dec_point r - int l)) = r"
    using digit_candidates_sound [OF assms(1,2)] by blast+
qed

section \<open>Decimal numerals\<close>

text \<open>A numeral: digits before the point, digits after it, and an exponent.\<close>

definition all_digits :: "string \<Rightarrow> bool" where
  "all_digits s \<longleftrightarrow> list_all is_digit s"

definition exponent_text :: "int option \<Rightarrow> string" where
  "exponent_text ex = (case ex of None \<Rightarrow> [] | Some e \<Rightarrow> ''e'' @ (if e < 0 then ''-'' else ''+'') @ show_padded 2 (nat \<bar>e\<bar>))"

definition fraction_text :: "string \<Rightarrow> string" where
  "fraction_text fd = (if fd = [] then [] else CHR ''.'' # fd)"

definition decimal_text :: "string \<Rightarrow> string \<Rightarrow> int option \<Rightarrow> string" where
  "decimal_text ip fd ex = ip @ fraction_text fd @ exponent_text ex"

definition decimal_value :: "string \<Rightarrow> string \<Rightarrow> int option \<Rightarrow> real" where
  "decimal_value ip fd ex = of_nat (digits_val (ip @ fd)) / 10 ^ length fd * 10 powi (case ex of None \<Rightarrow> 0 | Some e \<Rightarrow> e)"

lemma digits_val_append: "digits_val (a @ b) = digits_val a * 10 ^ length b + digits_val b"
proof (induction b rule: rev_induct)
  case Nil
  show ?case by (simp add: digits_val_def)
next
  case (snoc c b)
  have "digits_val (a @ b @ [c]) = 10 * digits_val (a @ b) + digit_val c"
    using digits_val_snoc [of "a @ b" c] by simp
  then show ?case using snoc by (simp add: digits_val_snoc algebra_simps)
qed

lemma digit_chars:
  assumes "is_digit c"
  shows "c \<noteq> CHR ''.''" "c \<noteq> CHR ''-''" "c \<noteq> CHR ''+''" "c \<noteq> CHR ''_''" "\<not> is_space c" "lower_char c = c" "c \<noteq> CHR ''e''"
    "c \<noteq> CHR ''i''" "c \<noteq> CHR ''n''"
  using assms by (auto simp: is_digit_def is_space_def lower_char_def)

lemma digits_us_all: "s \<noteq> [] \<Longrightarrow> all_digits s \<Longrightarrow> digits_us s = Some s"
  by (induction s rule: digits_us.induct) (auto simp: all_digits_def digit_chars)

lemma opt_digits_all: "all_digits s \<Longrightarrow> opt_digits s = Some s"
  by (simp add: opt_digits_def digits_us_all)

lemma show_padded_all [simp]: "all_digits (show_padded w n)" "show_padded w n \<noteq> []"
  using show_padded_digits [of w n] by (simp_all add: all_digits_def list_all_iff show_padded_def pad_left_def)

lemma takeWhile_stop: "\<forall>x \<in> set a. P x \<Longrightarrow> \<not> P c \<Longrightarrow> takeWhile P (a @ c # b) = a"
  by (simp add: takeWhile_append2)

lemma parse_exponent_text:
  "parse_exponent (Some ((if e < 0 then ''-'' else ''+'') @ show_padded 2 (nat \<bar>e\<bar>))) = Some e"
  by (simp add: parse_exponent_def parse_sign_def digits_us_all)

lemma mantissa_chars:
  assumes "all_digits ip" "all_digits fd"
  shows "\<forall>c \<in> set (ip @ fraction_text fd). lower_char c \<noteq> CHR ''e'' \<and> \<not> is_space c"
proof -
  have point: "lower_char (CHR ''.'') = CHR ''.''" "\<not> is_space (CHR ''.'')" by (simp_all add: lower_char_def is_space_def)
  show ?thesis
    using assms digit_chars point by (auto simp: all_digits_def list_all_iff fraction_text_def)
qed

lemma split_exponent_plain:
  assumes "\<forall>c \<in> set m. lower_char c \<noteq> CHR ''e''"
  shows "split_exponent m = (m, None)" "split_exponent (m @ CHR ''e'' # t) = (m, Some t)"
proof -
  have all: "takeWhile (\<lambda>c. lower_char c \<noteq> CHR ''e'') m = m" using assms by (simp add: takeWhile_eq_all_conv)
  show "split_exponent m = (m, None)" by (simp add: split_exponent_def Let_def all)
  have "takeWhile (\<lambda>c. lower_char c \<noteq> CHR ''e'') (m @ CHR ''e'' # t) = m"
    using assms by (intro takeWhile_stop) (simp_all add: lower_char_def)
  then show "split_exponent (m @ CHR ''e'' # t) = (m, Some t)" by (simp add: split_exponent_def Let_def)
qed

lemma parse_decimal_text:
  assumes "ip \<noteq> []" "all_digits ip" "all_digits fd"
  shows "parse_decimal (decimal_text ip fd ex) = Some (decimal_value ip fd ex)"
proof -
  let ?m = "ip @ fraction_text fd"
  have chars: "\<forall>c \<in> set ?m. lower_char c \<noteq> CHR ''e''" using mantissa_chars [OF assms(2,3)] by blast
  have split: "split_exponent (decimal_text ip fd ex) = (?m, case ex of None \<Rightarrow> None
      | Some e \<Rightarrow> Some ((if e < 0 then ''-'' else ''+'') @ show_padded 2 (nat \<bar>e\<bar>)))"
    using split_exponent_plain [OF chars]
    by (cases ex) (simp_all add: decimal_text_def exponent_text_def del: append_assoc add: append_assoc [symmetric])
  have "takeWhile (\<lambda>c. c \<noteq> CHR ''.'') ?m = ip"
    using assms(2) digit_chars(1)
    by (auto simp: fraction_text_def all_digits_def list_all_iff takeWhile_eq_all_conv intro!: takeWhile_stop)
  moreover have "drop (Suc (length ip)) ?m = fd" by (simp add: fraction_text_def)
  moreover have "parse_exponent (case ex of None \<Rightarrow> None
      | Some e \<Rightarrow> Some ((if e < 0 then ''-'' else ''+'') @ show_padded 2 (nat \<bar>e\<bar>))) = Some (case ex of None \<Rightarrow> 0 | Some e \<Rightarrow> e)"
    using parse_exponent_text by (cases ex) (simp_all add: parse_exponent_def [of None])
  ultimately show ?thesis using assms split by (simp add: parse_decimal_def opt_digits_all decimal_value_def)
qed

section \<open>The text of a double\<close>

lemma show_nat_head: "show_nat n = CHR ''0'' # s \<Longrightarrow> s = [] \<and> n = 0"
proof (induction n arbitrary: s rule: show_nat.induct)
  case (1 n)
  show ?case
  proof (cases "n < 10")
    case True
    then have "digit_char n = CHR ''0''" "s = []" using 1(2) by (simp_all add: show_nat.simps [of n])
    moreover have "digit_val (CHR ''0'') = 0" by (simp add: digit_val_def)
    ultimately show ?thesis using True digit_char_inverse [of n] by simp
  next
    case False
    then obtain t where "show_nat (n div 10) = CHR ''0'' # t"
      using 1(2) by (cases "show_nat (n div 10)") (auto simp: show_nat.simps [of n])
    from 1(1) [OF False this] False show ?thesis by auto
  qed
qed

text \<open>The significant digits of a number, without the zeros at its end.\<close>

lemma significant_digits:
  assumes "1 \<le> c"
  obtains ds z where "show_nat (nat c) = ds @ replicate z (CHR ''0'')" "rstrip_by (\<lambda>x. x = CHR ''0'') (show_nat (nat c)) = ds"
    "ds \<noteq> []" "all_digits ds" "hd ds \<noteq> CHR ''0''" "of_int c = (of_nat (digits_val ds) :: real) * 10 ^ z"
proof -
  define ds where "ds = rstrip_by (\<lambda>x. x = CHR ''0'') (show_nat (nat c))"
  obtain t where t: "show_nat (nat c) = ds @ t" "\<forall>x \<in> set t. x = CHR ''0''"
    using rstrip_by_prefix [of "show_nat (nat c)" "\<lambda>x. x = CHR ''0''"] unfolding ds_def by blast
  then have zeros: "t = replicate (length t) (CHR ''0'')" by (simp add: replicate_eqI)
  then have val: "nat c = digits_val ds * 10 ^ length t"
    using show_nat_val [of "nat c"] digits_val_append [of ds t] digits_val_zeros [of "length t" "[]"]
    by (simp add: t(1) digits_val_def [of "[]"])
  have ne: "ds \<noteq> []"
  proof
    assume "ds = []"
    then show False using val assms by (simp add: digits_val_def)
  qed
  moreover have "hd ds \<noteq> CHR ''0''"
  proof
    assume "hd ds = CHR ''0''"
    then have "show_nat (nat c) = CHR ''0'' # (tl ds @ t)" using ne t(1) by (cases ds) simp_all
    then show False using show_nat_head assms by fastforce
  qed
  moreover have "all_digits ds" using show_nat_digits [of "nat c"] t(1) by (simp add: all_digits_def list_all_iff)
  moreover have "of_int c = of_nat (digits_val ds) * (10::real) ^ length t"
  proof -
    have "(of_int c :: real) = of_nat (nat c)" using assms by simp
    then show ?thesis by (simp add: val)
  qed
  ultimately show ?thesis using that [of ds "length t"] t(1) zeros ds_def by metis
qed

definition layout :: "string \<Rightarrow> int \<Rightarrow> string" where
  "layout ds p =
     (let n = length ds in
      if p \<le> - 4 \<or> p > 16 then
        (let e = p - 1; m = (if n = 1 then ds else take 1 ds @ ''.'' @ drop 1 ds)
         in m @ ''e'' @ (if e < 0 then ''-'' else ''+'') @ show_padded 2 (nat \<bar>e\<bar>))
      else if p \<le> 0 then ''0.'' @ replicate (nat (- p)) (CHR ''0'') @ ds
      else if int n \<le> p then ds @ replicate (nat p - n) (CHR ''0'') @ ''.0''
      else take (nat p) ds @ ''.'' @ drop (nat p) ds)"

definition good_decimal :: "string \<Rightarrow> string \<Rightarrow> int option \<Rightarrow> bool" where
  "good_decimal ip fd ex \<longleftrightarrow> ip \<noteq> [] \<and> all_digits ip \<and> all_digits fd \<and> (fd \<noteq> [] \<or> ex \<noteq> None) \<and>
     (ip = ''0'' \<or> hd ip \<noteq> CHR ''0'')"

lemma zero_digits [simp]: "all_digits (replicate k (CHR ''0''))" "all_digits ''0''"
  by (simp_all add: all_digits_def list_all_iff is_digit_def)

lemma all_digits_append [simp]: "all_digits (a @ b) \<longleftrightarrow> all_digits a \<and> all_digits b"
  by (simp add: all_digits_def)

lemma all_digits_parts: "all_digits ds \<Longrightarrow> all_digits (take k ds)" "all_digits ds \<Longrightarrow> all_digits (drop k ds)"
  by (auto simp: all_digits_def list_all_iff dest: in_set_takeD in_set_dropD)

lemma tens_nat: "(10::real) powi (- int k) = 1 / 10 ^ k"
  by (simp add: power_int_minus inverse_eq_divide)

lemma layout_decimal:
  assumes "ds \<noteq> []" "all_digits ds" "hd ds \<noteq> CHR ''0''"
  shows "\<exists>ip fd ex. layout ds p = decimal_text ip fd ex \<and> good_decimal ip fd ex \<and>
    decimal_value ip fd ex = of_nat (digits_val ds) * 10 powi (p - int (length ds))"
proof -
  let ?n = "length ds"
  have n: "0 < ?n" using assms(1) by simp
  consider "p \<le> - 4 \<or> p > 16" | "\<not> (p \<le> - 4 \<or> p > 16)" "p \<le> 0" | "\<not> (p \<le> - 4 \<or> p > 16)" "0 < p" "int ?n \<le> p"
    | "\<not> (p \<le> - 4 \<or> p > 16)" "0 < p" "p < int ?n" by linarith
  then show ?thesis
  proof cases
    case 1
    let ?ip = "take 1 ds" and ?fd = "drop 1 ds" and ?ex = "Some (p - 1)"
    have "layout ds p = decimal_text ?ip ?fd ?ex"
      using 1 n by (cases ds) (auto simp: layout_def decimal_text_def fraction_text_def exponent_text_def Let_def)
    moreover have "good_decimal ?ip ?fd ?ex" using assms by (cases ds) (auto simp: good_decimal_def all_digits_def)
    moreover have "decimal_value ?ip ?fd ?ex = of_nat (digits_val ds) * 10 powi (p - int ?n)"
    proof -
      have "p - int ?n = (p - 1) + (- int (?n - 1))" using n by linarith
      then show ?thesis by (simp only: decimal_value_def tens(2) tens_nat) simp
    qed
    ultimately show ?thesis by blast
  next
    case 2
    let ?fd = "replicate (nat (- p)) (CHR ''0'') @ ds"
    have "layout ds p = decimal_text ''0'' ?fd None"
      using 2 n by (simp add: layout_def decimal_text_def fraction_text_def exponent_text_def)
    moreover have "good_decimal ''0'' ?fd None" using assms by (simp add: good_decimal_def)
    moreover have "decimal_value ''0'' ?fd None = of_nat (digits_val ds) * 10 powi (p - int ?n)"
    proof -
      have "digits_val (''0'' @ ?fd) = digits_val ds" using digits_val_zeros [of "Suc (nat (- p))" ds] by simp
      moreover have "p - int ?n = - int (length ?fd)" using 2 by simp
      ultimately show ?thesis by (simp only: decimal_value_def tens_nat) simp
    qed
    ultimately show ?thesis by blast
  next
    case 3
    let ?ip = "ds @ replicate (nat p - ?n) (CHR ''0'')"
    have "layout ds p = decimal_text ?ip ''0'' None"
      using 3 by (simp add: layout_def decimal_text_def fraction_text_def exponent_text_def)
    moreover have "good_decimal ?ip ''0'' None" using assms by (simp add: good_decimal_def)
    moreover have "decimal_value ?ip ''0'' None = of_nat (digits_val ds) * 10 powi (p - int ?n)"
    proof -
      have "digits_val (?ip @ ''0'') = digits_val ds * 10 ^ (nat p - ?n) * 10"
        using digits_val_append [of ?ip "''0''"] digits_val_append [of ds "replicate (nat p - ?n) (CHR ''0'')"]
          digits_val_zeros [of "nat p - ?n" "[]"] digits_val_zeros [of 1 "[]"] by (simp add: digits_val_def [of "[]"])
      moreover have "p - int ?n = int (nat p - ?n)" using 3 by simp
      ultimately show ?thesis by (simp only: decimal_value_def power_int_of_nat) simp
    qed
    ultimately show ?thesis by blast
  next
    case 4
    let ?ip = "take (nat p) ds" and ?fd = "drop (nat p) ds"
    have fd: "?fd \<noteq> []" using 4 by simp
    have "layout ds p = decimal_text ?ip ?fd None"
      using 4 fd by (simp add: layout_def decimal_text_def fraction_text_def exponent_text_def)
    moreover have "good_decimal ?ip ?fd None" using assms 4 fd by (simp add: good_decimal_def all_digits_parts)
    moreover have "decimal_value ?ip ?fd None = of_nat (digits_val ds) * 10 powi (p - int ?n)"
    proof -
      have "p - int ?n = - int (length ?fd)" using 4 by simp
      then show ?thesis by (simp only: decimal_value_def tens_nat append_take_drop_id) simp
    qed
    ultimately show ?thesis by blast
  qed
qed

lemma repr_pos_decimal:
  assumes "0 < r" "rnd r = r"
  shows "\<exists>ip fd ex. repr_pos r = decimal_text ip fd ex \<and> good_decimal ip fd ex \<and> rnd (decimal_value ip fd ex) = r"
proof -
  obtain c k where ck: "shortest_from r 16 1 = (c, k)" by (metis surj_pair)
  have c: "1 \<le> c" "rnd (of_int c * 10 powi (dec_point r - int k)) = r"
    using shortest_from_sound [OF assms, of 16 1] ck by simp_all
  obtain ds z where ds: "show_nat (nat c) = ds @ replicate z (CHR ''0'')" "rstrip_by (\<lambda>x. x = CHR ''0'') (show_nat (nat c)) = ds"
    "ds \<noteq> []" "all_digits ds" "hd ds \<noteq> CHR ''0''" "of_int c = (of_nat (digits_val ds) :: real) * 10 ^ z"
    using significant_digits [OF c(1)] by blast
  let ?p = "dec_point r + (int (length (show_nat (nat c))) - int k)"
  have "repr_pos r = layout ds ?p"
    unfolding repr_pos_def ck prod.case Let_def ds(2) layout_def by (rule refl)
  moreover obtain ip fd ex where t: "layout ds ?p = decimal_text ip fd ex" "good_decimal ip fd ex"
      "decimal_value ip fd ex = of_nat (digits_val ds) * 10 powi (?p - int (length ds))"
    using layout_decimal [OF ds(3-5)] by blast
  moreover have "decimal_value ip fd ex = of_int c * 10 powi (dec_point r - int k)"
  proof -
    have "?p - int (length ds) = int z + (dec_point r - int k)" using arg_cong [OF ds(1), of length] by simp
    then show ?thesis unfolding t(3) by (simp only: tens(2) power_int_of_nat ds(6) mult.assoc)
  qed
  ultimately show ?thesis using c(2) by metis
qed

text \<open>A numeral with an optional sign, as \<open>float\<close> reads it.\<close>

definition signed :: "bool \<Rightarrow> string \<Rightarrow> string" where
  "signed neg t = (if neg then CHR ''-'' # t else t)"

lemma strip_none:
  assumes "\<forall>c \<in> set s. \<not> is_space c"
  shows "strip s = s"
proof -
  have keep: "dropWhile is_space t = t" if "\<forall>c \<in> set t. \<not> is_space c" for t
    using that by (cases t) simp_all
  show ?thesis using keep [of s] keep [of "rev s"] assms by (simp add: strip_def rstrip_by_def)
qed

lemma decimal_text_chars:
  assumes "all_digits ip" "all_digits fd"
  shows "\<forall>c \<in> set (decimal_text ip fd ex). \<not> is_space c"
proof -
  have "\<not> is_space (CHR ''e'')" "\<not> is_space (CHR ''-'')" "\<not> is_space (CHR ''+'')" by (simp_all add: is_space_def)
  moreover have "\<forall>c \<in> set (show_padded 2 k). \<not> is_space c" for k using show_padded_digits [of 2 k] digit_chars(5) by blast
  ultimately show ?thesis
    using mantissa_chars [OF assms] by (cases ex) (auto simp: decimal_text_def exponent_text_def)
qed

lemma parse_float_text:
  assumes "good_decimal ip fd ex"
  shows "parse_float (signed neg (decimal_text ip fd ex)) = Some (fl (if neg then - decimal_value ip fd ex else decimal_value ip fd ex))"
proof -
  let ?t = "decimal_text ip fd ex"
  have ok: "ip \<noteq> []" "all_digits ip" "all_digits fd" using assms by (simp_all add: good_decimal_def)
  obtain c cs where t: "?t = c # cs" "is_digit c" using ok by (cases ip) (auto simp: decimal_text_def all_digits_def)
  have "\<not> is_space (CHR ''-'')" by (simp add: is_space_def)
  then have "strip (signed neg ?t) = signed neg ?t"
    using decimal_text_chars [OF ok(2,3)] by (intro strip_none) (simp add: signed_def)
  moreover have "parse_sign (signed neg ?t) = (neg, ?t)" using t digit_chars(2,3) by (simp add: signed_def parse_sign_def)
  moreover have "\<exists>d ds. str_lower ?t = d # ds \<and> d \<noteq> CHR ''i'' \<and> d \<noteq> CHR ''n''"
    using t digit_chars(6,8,9) by (simp add: str_lower_def)
  ultimately show ?thesis using parse_decimal_text [OF ok] by (auto simp: parse_float_def)
qed

text \<open>What \<open>repr\<close> writes for a double: a signed numeral that rounds to it.\<close>

lemma repr_float_text:
  assumes "is_double (Fin r)"
  shows "\<exists>neg ip fd ex. repr_float (Fin r) = signed neg (decimal_text ip fd ex) \<and> good_decimal ip fd ex \<and>
    fl (if neg then - decimal_value ip fd ex else decimal_value ip fd ex) = Fin r"
proof -
  have r: "rnd r = r" "\<bar>r\<bar> < overflow_bound" using assms by (simp_all add: is_double_def)
  have fl: "fl v = Fin x" if "rnd v = x" "\<bar>x\<bar> < overflow_bound" for v x using that by (auto simp: fl_def Let_def)
  consider "r = 0" | "0 < r" | "r < 0" by linarith
  then show ?thesis
  proof cases
    case 1
    have "repr_float (Fin r) = signed False (decimal_text ''0'' ''0'' None)"
      using 1 by (simp add: signed_def decimal_text_def fraction_text_def exponent_text_def)
    moreover have "decimal_value ''0'' ''0'' None = 0" by (simp add: decimal_value_def digits_val_def digit_val_def)
    ultimately show ?thesis using 1 by (intro exI [of _ False] exI [of _ "''0''"] exI [of _ None]) (simp add: good_decimal_def)
  next
    case 2
    then obtain ip fd ex where "repr_pos r = decimal_text ip fd ex" "good_decimal ip fd ex" "rnd (decimal_value ip fd ex) = r"
      using repr_pos_decimal r(1) by blast
    then show ?thesis
      using 2 r(2) fl [of "decimal_value ip fd ex" r] by (intro exI [of _ False] exI [of _ ip] exI [of _ fd] exI [of _ ex]) (simp add: signed_def)
  next
    case 3
    then obtain ip fd ex where "repr_pos (- r) = decimal_text ip fd ex" "good_decimal ip fd ex" "rnd (decimal_value ip fd ex) = - r"
      using repr_pos_decimal [of "- r"] r(1) by auto
    then show ?thesis
      using 3 r(2) fl [of "- decimal_value ip fd ex" r] by (intro exI [of _ True] exI [of _ ip] exI [of _ fd] exI [of _ ex]) (simp add: signed_def)
  qed
qed

theorem float_repr_roundtrip:
  assumes "is_double x"
  shows "parse_float (repr_float x) = Some x"
proof (cases x)
  case (Fin r)
  then show ?thesis using repr_float_text parse_float_text assms by metis
next
  case PInf
  then show ?thesis by (simp add: parse_float_def parse_sign_def strip_def rstrip_by_def is_space_def str_lower_def lower_char_def)
next
  case NInf
  then show ?thesis by (simp add: parse_float_def parse_sign_def strip_def rstrip_by_def is_space_def str_lower_def lower_char_def)
next
  case NaN
  then show ?thesis by (simp add: parse_float_def parse_sign_def strip_def rstrip_by_def is_space_def str_lower_def lower_char_def)
qed

section \<open>Reading it in a document\<close>

text \<open>What may follow a number.\<close>

definition stops :: "string \<Rightarrow> bool" where
  "stops r \<longleftrightarrow> (case r of [] \<Rightarrow> True | c # _ \<Rightarrow> \<not> is_digit c \<and> c \<noteq> CHR ''.'' \<and> lower_char c \<noteq> CHR ''e'')"

lemma span_stops:
  assumes "\<forall>c \<in> set ds. is_digit c" "stops r"
  shows "span is_digit (ds @ r) = (ds, r)"
proof -
  have "takeWhile is_digit r = []" "dropWhile is_digit r = r" using assms(2) by (cases r; simp add: stops_def)+
  then show ?thesis using assms(1) by (simp add: span_def)
qed

lemma span_nondigit:
  assumes "all_digits ds" "r = [] \<or> \<not> is_digit (hd r)"
  shows "span is_digit (ds @ r) = (ds, r)"
proof -
  have "takeWhile is_digit r = []" "dropWhile is_digit r = r" using assms(2) by (cases r; simp)+
  then show ?thesis using assms(1) by (simp add: span_def all_digits_def list_all_iff)
qed

lemma stops_no_fraction: "stops r \<Longrightarrow> scan_fraction r = ([], r)" "stops r \<Longrightarrow> scan_exponent r = ([], r)"
  by (auto simp: stops_def scan_fraction_def scan_exponent_def split: list.splits)

lemma exponent_head:
  assumes "stops r"
  shows "exponent_text ex @ r = [] \<or> \<not> is_digit (hd (exponent_text ex @ r))" "scan_exponent (exponent_text ex @ r) = (exponent_text ex, r)"
proof -
  have e: "\<not> is_digit (CHR ''e'')" "lower_char (CHR ''e'') = CHR ''e''" by (simp_all add: is_digit_def lower_char_def)
  have r: "r = [] \<or> \<not> is_digit (hd r)" using assms by (auto simp: stops_def split: list.splits)
  show "exponent_text ex @ r = [] \<or> \<not> is_digit (hd (exponent_text ex @ r))" using r e by (cases ex) (auto simp: exponent_text_def)
  have "span is_digit (show_padded 2 k @ r) = (show_padded 2 k, r)" for k using r by (intro span_nondigit) simp_all
  then show "scan_exponent (exponent_text ex @ r) = (exponent_text ex, r)"
    using stops_no_fraction(2) [OF assms] e by (cases ex) (auto simp: exponent_text_def scan_exponent_def)
qed

lemma fraction_head:
  assumes "stops r" "all_digits fd" "fd \<noteq> [] \<or> ex \<noteq> None"
  shows "\<not> is_digit (hd (fraction_text fd @ exponent_text ex @ r))" "fraction_text fd @ exponent_text ex @ r \<noteq> []"
    "scan_fraction (fraction_text fd @ exponent_text ex @ r) = (fraction_text fd, exponent_text ex @ r)"
proof -
  have c: "\<not> is_digit (CHR ''e'')" "\<not> is_digit (CHR ''.'')" by (simp_all add: is_digit_def)
  show "\<not> is_digit (hd (fraction_text fd @ exponent_text ex @ r))" "fraction_text fd @ exponent_text ex @ r \<noteq> []"
    using assms(3) c by (auto simp: fraction_text_def exponent_text_def)
  show "scan_fraction (fraction_text fd @ exponent_text ex @ r) = (fraction_text fd, exponent_text ex @ r)"
  proof (cases fd)
    case Nil
    then show ?thesis using assms(3) by (auto simp: fraction_text_def exponent_text_def scan_fraction_def split: list.splits)
  next
    case (Cons d ds)
    have "span is_digit (fd @ exponent_text ex @ r) = (fd, exponent_text ex @ r)"
      using assms(2) exponent_head(1) [OF assms(1)] by (rule span_nondigit)
    then show ?thesis using Cons assms(2) by (simp add: fraction_text_def scan_fraction_def all_digits_def)
  qed
qed

lemma scan_number_text:
  assumes "good_decimal ip fd ex" "stops r"
  shows "scan_number (signed neg (decimal_text ip fd ex) @ r) =
    Some (JFloat (fl (if neg then - decimal_value ip fd ex else decimal_value ip fd ex)), r)"
proof -
  have ok: "ip \<noteq> []" "all_digits ip" "all_digits fd" "fd \<noteq> [] \<or> ex \<noteq> None" "ip = ''0'' \<or> hd ip \<noteq> CHR ''0''"
    using assms(1) by (simp_all add: good_decimal_def)
  let ?q = "fraction_text fd @ exponent_text ex @ r"
  obtain c cs where ip: "ip = c # cs" "is_digit c" using ok(1,2) by (cases ip) (auto simp: all_digits_def)
  have "span is_digit (ip @ ?q) = (ip, ?q)" using ok(2) fraction_head(1) [OF assms(2) ok(3,4)] by (intro span_nondigit) blast+
  then have natural: "scan_natural (ip @ ?q) = Some (ip, ?q)" using ip ok(5) by (auto simp: scan_natural_def)
  have sign: "starts_with ''-'' (signed neg (decimal_text ip fd ex) @ r) = neg"
    using ip digit_chars(2) by (auto simp: signed_def starts_with_def decimal_text_def)
  have body: "(if neg then drop 1 (signed neg (decimal_text ip fd ex) @ r) else signed neg (decimal_text ip fd ex) @ r) = ip @ ?q"
    by (simp add: signed_def decimal_text_def)
  have whole: "(if neg then ''-'' else []) @ ip @ fraction_text fd @ exponent_text ex = signed neg (decimal_text ip fd ex)"
    by (simp add: signed_def decimal_text_def)
  have "\<not> (fraction_text fd = [] \<and> exponent_text ex = [])" using ok(4) by (auto simp: fraction_text_def exponent_text_def)
  then show ?thesis
    by (simp only: scan_number_def Let_def sign body natural option.case prod.case fraction_head(3) [OF assms(2) ok(3,4)]
        exponent_head(2) [OF assms(2)] whole parse_float_text [OF assms(1)] if_False option.map)
qed

lemma scan_number_double:
  assumes "is_double (Fin x)" "stops r"
  shows "scan_number (repr_float (Fin x) @ r) = Some (JFloat (Fin x), r)"
  using repr_float_text [OF assms(1)] scan_number_text [OF _ assms(2)] by metis

end
