(* ===== verification/JsonGrammar.thy ===== *)
theory JsonGrammar
  imports FloatText
begin

text \<open>
  The texts of a document: a grammar of JSON with blanks wherever they are allowed, and the
  decoder of \<open>JsonParse\<close> against it. It reads every text of a document as that document, and what
  it reads from any text is a document with a text.
\<close>

section \<open>Strings\<close>

lemma char_eq_code: "c = CHR 34 \<longleftrightarrow> (of_char c :: nat) = 34" "c = CHR 92 \<longleftrightarrow> (of_char c :: nat) = 92"
  using of_char_eq_iff [where 'a = nat, of c "CHR 34"] of_char_eq_iff [where 'a = nat, of c "CHR 92"] by simp_all

lemma hex_digit_read: "d < 16 \<Longrightarrow> hex_digit_val (hex_digit d) = Some d"
  by (auto simp: hex_digit_val_def hex_digit_def Let_def)

lemma hex_code_byte:
  assumes "n < 256"
  shows "hex_code (CHR ''0'') (CHR ''0'') (hex_digit (n div 16)) (hex_digit (n mod 16)) = Some n"
proof -
  have "hex_digit_val (CHR ''0'') = Some 0" by (simp add: hex_digit_val_def)
  moreover have "n div 16 < 16" "n mod 16 < 16" using assms by auto
  ultimately show ?thesis by (simp add: hex_code_def hex_digit_read)
qed

lemma char_of_92: "char_of (92::nat) = CHR 92"
proof -
  have "(of_char (char_of (92::nat)) :: nat) = of_char (CHR 92)" by simp
  then show ?thesis by (simp only: of_char_eq_iff)
qed

lemma scan_escape:
  "scan_string (Suc m) (escape_char c @ t) = map_option (\<lambda>(cs, q). (c # cs, q)) (scan_string m t)"
proof -
  let ?n = "of_char c :: nat"
  have small: "?n < 256" by simp
  consider "?n \<in> {34, 92, 10, 13, 9, 8, 12}" | "?n \<notin> {34, 92, 10, 13, 9, 8, 12}" "?n < 32 \<or> 126 < ?n"
    | "?n \<notin> {34, 92, 10, 13, 9, 8, 12}" "32 \<le> ?n" "?n \<le> 126" by fastforce
  then show ?thesis
  proof cases
    case 1
    then have "c \<in> {CHR 34, CHR 92, CHR 10, CHR 13, CHR 9, CHR 8, CHR 12}"
      by (simp add: of_char_eq_iff [where 'a = nat, symmetric] del: of_char_eq_iff)
    then show ?thesis by (auto simp: escape_char_def short_escape_def char_of_92)
  next
    case 2
    then have "escape_char c = [CHR 92, CHR ''u'', CHR ''0'', CHR ''0'', hex_digit (?n div 16), hex_digit (?n mod 16)]"
      by (auto simp: escape_char_def Let_def char_of_92)
    then show ?thesis using small by (simp add: hex_code_byte del: nat_of_char_less_256)
  next
    case 3
    then have "escape_char c = [c]" by (auto simp: escape_char_def Let_def)
    then show ?thesis using 3 by (simp add: char_eq_code)
  qed
qed

lemma scan_string_back:
  "length (concat (map escape_char s)) < n \<Longrightarrow>
     scan_string n (concat (map escape_char s) @ CHR 34 # r) = Some (s, r)"
proof (induction s arbitrary: n)
  case Nil
  then show ?case by (cases n) simp_all
next
  case (Cons c s)
  then obtain m where n: "n = Suc m" by (cases n) auto
  have "0 < length (escape_char c)" by (simp add: escape_char_ne)
  then have "length (concat (map escape_char s)) < m" using Cons.prems n by (simp del: length_greater_0_conv)
  from Cons.IH [OF this] show ?case using n by (simp add: scan_escape)
qed

lemma scan_json_string:
  "scan_string (Suc (length (concat (map escape_char s) @ CHR 34 # r))) (concat (map escape_char s) @ CHR 34 # r) = Some (s, r)"
  by (rule scan_string_back) simp

section \<open>Numbers\<close>

lemma scan_natural_show:
  assumes "stops r"
  shows "scan_natural (show_nat n @ r) = Some (show_nat n, r)"
proof (cases "show_nat n")
  case Nil
  then show ?thesis by simp
next
  case (Cons c s)
  show ?thesis
  proof (cases "c = CHR ''0''")
    case True
    then show ?thesis using Cons show_nat_head [of n s] by (simp add: scan_natural_def)
  next
    case False
    have "is_digit c" using show_nat_digits [of n] Cons by simp
    moreover have "span is_digit (show_nat n @ r) = (show_nat n, r)" by (rule span_stops [OF show_nat_digits assms])
    ultimately show ?thesis using False Cons by (simp add: scan_natural_def)
  qed
qed

lemma scan_number_show:
  assumes "stops r"
  shows "scan_number (show_int i @ r) = Some (JInt i, r)"
proof (cases "i < 0")
  case True
  then have "show_int i @ r = CHR ''-'' # (show_nat (nat (- i)) @ r)" by (simp add: show_int_def)
  then show ?thesis using True assms
    by (simp add: scan_number_def Let_def starts_with_def scan_natural_show stops_no_fraction)
next
  case False
  have "\<not> starts_with ''-'' (show_nat (nat i) @ r)"
    using show_nat_digits [of "nat i"] not_is_digit_minus
    by (cases "show_nat (nat i)") (auto simp: starts_with_def)
  then show ?thesis using False assms
    by (simp add: scan_number_def Let_def show_int_def scan_natural_show stops_no_fraction)
qed

section \<open>Values\<close>

fun json_ok :: "json \<Rightarrow> bool" where
  "json_ok (JFloat x) = is_double x"
| "json_ok (JList xs) = list_all json_ok xs"
| "json_ok (JObj d) = (distinct (map fst d) \<and> list_all (\<lambda>(k, b). b) (map (\<lambda>(k, v). (k, json_ok v)) d))"
| "json_ok j = True"

lemma json_ok_object:
  "json_ok (JObj d) \<longleftrightarrow> distinct (map fst d) \<and> (\<forall>m \<in> set d. json_ok (snd m))"
  by (auto simp: list_all_iff)

declare json_ok.simps(3) [simp del]

text \<open>The first character of a text decides what is read.\<close>

definition opener :: "char \<Rightarrow> bool" where
  "opener c \<longleftrightarrow> c = CHR 34 \<or> c = CHR ''['' \<or> c = CHR 123 \<or> c = CHR ''-'' \<or> is_digit c \<or> c \<in> set ''ntfNI''"

definition number_start :: "string \<Rightarrow> bool" where
  "number_start t \<longleftrightarrow> (\<exists>neg c s. t = signed neg (c # s) \<and> is_digit c)"

lemma show_int_start: "number_start (show_int i)"
proof -
  obtain c s where c: "show_nat (nat \<bar>i\<bar>) = c # s" "is_digit c"
    using show_nat_digits [of "nat \<bar>i\<bar>"] show_nat_ne [of "nat \<bar>i\<bar>"] by (cases "show_nat (nat \<bar>i\<bar>)") auto
  then have "show_int i = signed (i < 0) (c # s)" by (cases "i < 0") (simp_all add: show_int_def signed_def)
  then show ?thesis using c by (auto simp: number_start_def)
qed

lemma repr_float_start:
  assumes "is_double (Fin x)"
  shows "number_start (repr_float (Fin x))"
proof -
  obtain neg ip fd ex where t: "repr_float (Fin x) = signed neg (decimal_text ip fd ex)" "good_decimal ip fd ex"
    using repr_float_text [OF assms] by blast
  then obtain c cs where "decimal_text ip fd ex = c # cs" "is_digit c"
    by (cases ip) (auto simp: decimal_text_def good_decimal_def all_digits_def)
  then show ?thesis using t(1) by (auto simp: number_start_def)
qed

lemma number_start_opens: "number_start t \<Longrightarrow> \<exists>c s. t = c # s \<and> opener c"
  by (auto simp: number_start_def signed_def opener_def)

text \<open>A number is not taken for a keyword.\<close>

lemma number_start_scanned:
  assumes "number_start t"
  shows "scan_value (Suc m) (t @ r) = scan_number (t @ r)"
proof -
  obtain neg c s where t: "t = signed neg (c # s)" "is_digit c" using assms by (auto simp: number_start_def)
  have c: "c \<notin> {CHR ''-'', CHR 34, CHR ''['', CHR 123, CHR ''n'', CHR ''t'', CHR ''f'', CHR ''N'', CHR ''I''}" using t(2) by (auto simp: is_digit_def)
  then show ?thesis by (cases neg) (simp_all add: t(1) signed_def json_words_def starts_with_def)
qed

lemma opener_not_space: "opener c \<Longrightarrow> \<not> json_space c"
  by (auto simp: opener_def json_space_def is_digit_def)

lemma skip_space_head [simp]: "\<not> json_space c \<Longrightarrow> skip_space (c # s) = c # s"
  by (simp add: skip_space_def)

lemma delimiter_not_space [simp]:
  "\<not> json_space (CHR '','')" "\<not> json_space (CHR '']'')" "\<not> json_space (CHR 125)" "\<not> json_space (CHR '':'')" "\<not> json_space (CHR 34)"
  by (simp_all add: json_space_def)

lemma stops_delimiters [simp]: "stops []" "stops (CHR '','' # r)" "stops (CHR '']'' # r)" "stops (CHR 125 # r)"
  by (simp_all add: stops_def is_digit_def lower_char_def)

section \<open>Blanks\<close>

definition blank :: "string \<Rightarrow> bool" where
  "blank w \<longleftrightarrow> list_all json_space w"

lemma blank_Nil [simp]: "blank []"
  by (simp add: blank_def)

lemma skip_blank [simp]: "blank w \<Longrightarrow> skip_space (w @ s) = skip_space s"
  by (simp add: blank_def skip_space_def list_all_iff)

lemma stops_blank: "blank w \<Longrightarrow> stops s \<Longrightarrow> stops (w @ s)"
  by (cases w) (auto simp: blank_def stops_def json_space_def is_digit_def lower_char_def)

section \<open>The grammar\<close>

inductive json_text :: "json \<Rightarrow> string \<Rightarrow> bool"
  and items_text :: "json list \<Rightarrow> string \<Rightarrow> bool"
  and members_text :: "(string \<times> json) list \<Rightarrow> string \<Rightarrow> bool" where
  null_text: "json_text JNull ''null''"
| bool_text: "json_text (JBool b) (if b then ''true'' else ''false'')"
| int_text: "json_text (JInt i) (show_int i)"
| float_text: "is_double x \<Longrightarrow> json_text (JFloat x) (json_float x)"
| string_text: "json_text (JStr s) (json_string s)"
| nil_text: "blank w \<Longrightarrow> json_text (JList []) (CHR ''['' # w @ '']'')"
| list_text: "items_text js u \<Longrightarrow> blank w \<Longrightarrow> json_text (JList js) (CHR ''['' # w @ u @ '']'')"
| empty_text: "blank w \<Longrightarrow> json_text (JObj []) (CHR 123 # w @ [CHR 125])"
| object_text: "members_text d u \<Longrightarrow> distinct (map fst d) \<Longrightarrow> blank w \<Longrightarrow> json_text (JObj d) (CHR 123 # w @ u @ [CHR 125])"
| last_item: "json_text j t \<Longrightarrow> blank w \<Longrightarrow> items_text [j] (t @ w)"
| more_items: "json_text j t \<Longrightarrow> items_text js u \<Longrightarrow> blank w \<Longrightarrow> blank v \<Longrightarrow> items_text (j # js) (t @ w @ '','' @ v @ u)"
| last_member: "json_text j t \<Longrightarrow> blank w \<Longrightarrow> blank v \<Longrightarrow> blank x \<Longrightarrow>
    members_text [(k, j)] (json_string k @ w @ '':'' @ v @ t @ x)"
| more_members: "json_text j t \<Longrightarrow> members_text d u \<Longrightarrow> blank w \<Longrightarrow> blank v \<Longrightarrow> blank x \<Longrightarrow> blank y \<Longrightarrow>
    members_text ((k, j) # d) (json_string k @ w @ '':'' @ v @ t @ x @ '','' @ y @ u)"

lemmas text_induct = json_text_items_text_members_text.inducts
lemmas text_intros = json_text_items_text_members_text.intros

lemma float_opens: "is_double x \<Longrightarrow> \<exists>c s. json_float x = c # s \<and> opener c"
  using number_start_opens [OF repr_float_start] by (cases x) (auto simp: opener_def)

lemma text_opens:
  "json_text j t \<Longrightarrow> \<exists>c s. t = c # s \<and> opener c"
  "items_text js u \<Longrightarrow> \<exists>c s. u = c # s \<and> opener c"
  "members_text d v \<Longrightarrow> \<exists>s. v = CHR 34 # s"
proof (induction rule: text_induct)
  case (int_text i)
  show ?case by (rule number_start_opens [OF show_int_start])
next
  case (float_text x)
  then show ?case by (rule float_opens)
qed (auto simp: json_string_def quote_char_def opener_def)

lemma skip_text [simp]: "json_text j t \<Longrightarrow> skip_space (t @ s) = t @ s"
  using text_opens(1) opener_not_space by fastforce

lemma skip_items [simp]: "items_text js t \<Longrightarrow> skip_space (t @ s) = t @ s"
  using text_opens(2) opener_not_space by fastforce

lemma skip_members [simp]: "members_text d t \<Longrightarrow> skip_space (t @ s) = t @ s"
  using text_opens(3) by fastforce

lemma items_not_closed: "items_text js t \<Longrightarrow> \<not> starts_with '']'' (t @ s)"
  using text_opens(2) [of js t] by (auto simp: starts_with_def opener_def is_digit_def)

lemma members_not_closed: "members_text d t \<Longrightarrow> \<not> starts_with [CHR 125] (t @ s)"
  using text_opens(3) [of d t] by (auto simp: starts_with_def)

lemma scan_string_text:
  "json_string k @ q = CHR 34 # s \<Longrightarrow> scan_string (Suc (length s)) s = Some (k, q)"
  using scan_json_string [of k q] by (auto simp: json_string_def quote_char_def)


section \<open>The decoder reads every text\<close>

lemma scan_float:
  assumes "is_double x" "stops r"
  shows "scan_value (Suc m) (json_float x @ r) = Some (JFloat x, r)"
  using assms number_start_scanned [OF repr_float_start] scan_number_double
  by (cases x) (simp_all add: json_words_def starts_with_def del: repr_float.simps)

lemma text_length: "json_text j t \<Longrightarrow> 0 < length t"
  using text_opens(1) by fastforce

lemma text_read:
  "json_text j t \<Longrightarrow> 2 * length t \<le> n \<Longrightarrow> stops r \<Longrightarrow> scan_value n (t @ r) = Some (j, r)"
  "items_text js u \<Longrightarrow> 2 * length u + 1 \<le> n \<Longrightarrow> scan_items n (u @ CHR '']'' # r) = Some (js, r)"
  "members_text d v \<Longrightarrow> 2 * length v + 1 \<le> n \<Longrightarrow> scan_members n (v @ CHR 125 # r) = Some (d, r)"
proof (induction arbitrary: n r and n r and n r rule: text_induct)
  case null_text
  then show ?case by (cases n) (simp_all add: json_words_def starts_with_def)
next
  case (bool_text b)
  then show ?case by (cases n; cases b) (simp_all add: json_words_def starts_with_def)
next
  case (int_text i)
  have "0 < length (show_int i)" by (rule text_length [OF json_text_items_text_members_text.int_text])
  with int_text obtain m where "n = Suc m" by (cases n) auto
  then show ?case using int_text by (simp add: number_start_scanned [OF show_int_start] scan_number_show del: scan_value.simps)
next
  case (float_text x)
  have "0 < length (json_float x)" by (rule text_length [OF json_text_items_text_members_text.float_text [OF float_text(1)]])
  with float_text obtain m where "n = Suc m" by (cases n) auto
  then show ?case using float_text by (simp add: scan_float del: scan_value.simps)
next
  case (string_text s)
  then obtain m where "n = Suc m" by (cases n) (auto simp: json_string_def)
  then show ?case by (simp add: json_string_def quote_char_def scan_string_back)
next
  case (nil_text w)
  then obtain m where "n = Suc m" by (cases n) auto
  then show ?case using nil_text by (simp add: starts_with_def)
next
  case (list_text js u w)
  then obtain m where n: "n = Suc m" by (cases n) auto
  then have "scan_items m (u @ CHR '']'' # r) = Some (js, r)" using list_text.prems by (intro list_text.IH) simp
  then show ?case using n list_text items_not_closed [OF list_text(1)] by simp
next
  case (empty_text w)
  then obtain m where "n = Suc m" by (cases n) auto
  then show ?case using empty_text by (simp add: starts_with_def dict_of_def)
next
  case (object_text d u w)
  then obtain m where n: "n = Suc m" by (cases n) auto
  then have "scan_members m (u @ CHR 125 # r) = Some (d, r)" using object_text.prems by (intro object_text.IH) simp
  moreover have "dict_of d = d" using object_text(2) by (intro dict_of_id) (simp add: dict_ok_def)
  ultimately show ?case using n object_text members_not_closed [OF object_text(1)] by simp
next
  case (last_item j t w)
  then obtain m where n: "n = Suc m" by (cases n) auto
  then have "scan_value m (t @ w @ CHR '']'' # r) = Some (j, w @ CHR '']'' # r)"
    using last_item by (intro last_item.IH stops_blank) simp_all
  then show ?case using n last_item by simp
next
  case (more_items j t js u w v)
  then obtain m where n: "n = Suc m" by (cases n) auto
  let ?q = "v @ u @ CHR '']'' # r"
  have "scan_value m (t @ w @ CHR '','' # ?q) = Some (j, w @ CHR '','' # ?q)"
    using n more_items by (intro more_items.IH(1) stops_blank) simp_all
  moreover have "scan_items m (u @ CHR '']'' # r) = Some (js, r)" using n more_items.prems by (intro more_items.IH(2)) simp
  ultimately show ?case using n more_items by simp
next
  case (last_member j t w v x k)
  then obtain m where n: "n = Suc m" by (cases n) auto
  let ?q = "w @ CHR '':'' # v @ t @ x @ CHR 125 # r"
  obtain s where s: "json_string k @ ?q = CHR 34 # s" by (simp add: json_string_def quote_char_def)
  have "scan_value m (t @ x @ CHR 125 # r) = Some (j, x @ CHR 125 # r)"
    using n last_member by (intro last_member.IH stops_blank) simp_all
  then show ?case using n s last_member scan_string_text [OF s] by simp
next
  case (more_members j t d u w v x y k)
  then obtain m where n: "n = Suc m" by (cases n) auto
  let ?q = "y @ u @ CHR 125 # r"
  obtain s where s: "json_string k @ w @ CHR '':'' # v @ t @ x @ CHR '','' # ?q = CHR 34 # s"
    by (simp add: json_string_def quote_char_def)
  have "scan_value m (t @ x @ CHR '','' # ?q) = Some (j, x @ CHR '','' # ?q)"
    using n more_members by (intro more_members.IH(1) stops_blank) simp_all
  moreover have "scan_members m (u @ CHR 125 # r) = Some (d, r)" using n more_members.prems by (intro more_members.IH(2)) simp
  ultimately show ?case using n s more_members scan_string_text [OF s] by simp
qed

lemma text_loads:
  assumes "json_text j t" "blank w" "blank x"
  shows "json_loads (w @ t @ x) = Inr j"
proof -
  have "stops x" using stops_blank [OF assms(3), of "[]"] by simp
  then have "raw_decode (t @ x) = Some (j, x)"
    using text_read(1) [OF assms(1), of "2 * length (t @ x) + 2" x] by (simp add: raw_decode_def)
  moreover have "skip_space x = []" using skip_blank [OF assms(3), of "[]"] by (simp add: skip_space_def)
  ultimately show ?thesis using assms by (simp add: json_loads_def)
qed

text \<open>So a text is a text of one document only.\<close>

lemma text_unique: "json_text j t \<Longrightarrow> json_text k t \<Longrightarrow> j = k"
  using text_loads [of j t "[]" "[]"] text_loads [of k t "[]" "[]"] by simp

section \<open>Encoders\<close>

text \<open>Items and members joined by a comma and a blank, as \<open>json.dumps\<close> joins them.\<close>

lemma items_join:
  assumes "js \<noteq> []" "\<And>j. j \<in> set js \<Longrightarrow> json_text (g j) (f j)" "blank v" "blank x"
  shows "items_text (map g js) (join ('','' @ v) (map f js) @ x)"
  using assms(1,2)
proof (induction js)
  case (Cons j js)
  show ?case
  proof (cases "js = []")
    case True
    then show ?thesis using last_item [of "g j" "f j" x] Cons.prems(2) assms(4) by simp
  next
    case False
    then have "items_text (map g js) (join ('','' @ v) (map f js) @ x)" using Cons by simp
    from more_items [OF Cons.prems(2) this blank_Nil assms(3), of j] False show ?thesis by (simp add: join_more)
  qed
qed simp

lemma members_join:
  assumes "d \<noteq> []" "\<And>k j. (k, j) \<in> set d \<Longrightarrow> json_text (g j) (f j)" "blank c" "blank v" "blank x"
  shows "members_text (map (\<lambda>(k, j). (k, g j)) d)
    (join ('','' @ v) (map (\<lambda>(k, j). json_string k @ '':'' @ c @ f j) d) @ x)"
  using assms(1,2)
proof (induction d)
  case (Cons m d)
  obtain k j where m: "m = (k, j)" by (cases m)
  then have j: "json_text (g j) (f j)" using Cons.prems(2) [of k j] by simp
  show ?case
  proof (cases "d = []")
    case True
    then show ?thesis using last_member [OF j blank_Nil assms(3,5), of k] m by simp
  next
    case False
    then have "members_text (map (\<lambda>(k, j). (k, g j)) d)
        (join ('','' @ v) (map (\<lambda>(k, j). json_string k @ '':'' @ c @ f j) d) @ x)"
      using Cons by fastforce
    from more_members [OF j this blank_Nil assms(3) blank_Nil assms(4), of k] False m show ?thesis
      by (simp add: join_more)
  qed
qed simp

section \<open>What the decoder returns\<close>

lemma parse_float_double: "parse_float s = Some x \<Longrightarrow> is_double x"
  by (auto simp: parse_float_def Let_def split: if_splits option.splits prod.splits)

lemma scan_number_ok: "scan_number s = Some (j, r) \<Longrightarrow> json_ok j"
  by (auto simp: scan_number_def Let_def split: option.splits prod.splits if_splits dest: parse_float_double)

lemma scan_keyword_value: "scan_keyword ks s = Some (j, r) \<Longrightarrow> j \<in> snd ` set ks"
  by (induction ks s rule: scan_keyword.induct) (auto split: if_splits)

lemma dict_of_values: "(k, v) \<in> set (dict_of kvs) \<Longrightarrow> (k, v) \<in> set kvs"
  using dict_of_ok [of kvs] dict_of_lookup [of kvs]
  by (metis dict_ok_def map_of_SomeD map_of_is_SomeI set_rev)

lemma scan_ok:
  "scan_value n s = Some (j, r) \<Longrightarrow> json_ok j"
  "scan_items n s = Some (js, r) \<Longrightarrow> \<forall>j \<in> set js. json_ok j"
  "scan_members n s = Some (d, r) \<Longrightarrow> \<forall>j \<in> snd ` set d. json_ok j"
proof (induction n s and n s and n s arbitrary: j r and js r and d r rule: scan_value_scan_items_scan_members.induct)
  case (3 n c s)
  have words: "json_ok k" if "k \<in> snd ` set json_words" for k using that by (auto simp: json_words_def)
  have object: "json_ok (JObj (dict_of d))" if "\<forall>j \<in> snd ` set d. json_ok j" for d
    using that dict_of_ok [of d] by (force simp: json_ok_object dict_ok_def dest: dict_of_values)
  show ?case using 3 object
    by (auto simp: list_all_iff json_ok_object split: if_splits option.splits prod.splits
        dest: scan_number_ok scan_keyword_value intro: words)
next
  case (5 n s)
  then show ?case by (fastforce split: option.splits prod.splits list.splits if_splits)
next
  case (7 n s)
  then show ?case by (fastforce split: option.splits prod.splits list.splits if_splits)
qed auto

lemma loads_ok: "json_loads t = Inr j \<Longrightarrow> json_ok j"
  by (auto simp: json_loads_def raw_decode_def split: option.splits if_splits dest: scan_ok(1))

end
