(* ===== verification/StateText.thy ===== *)
theory StateText
  imports Storage JsonGrammar
begin

text \<open>
  The state files as the text they are: \<open>json.dumps(payload, indent=2)\<close>, and
  \<open>shared/storage/json_state.py\<close> on a file system of texts, written one character at a time, so that
  a crash may leave any part of a file. The file system of documents in \<open>Storage\<close> is what these
  texts read as, and its load and save are refined by the ones here.
\<close>

section \<open>The indented text\<close>

definition line_break :: "nat \<Rightarrow> string" where
  "line_break l = CHR ''\<newline>'' # replicate (2 * l) (CHR '' '')"

fun indented_dumps :: "nat \<Rightarrow> json \<Rightarrow> string" where
  "indented_dumps l (JList js) =
     (if js = [] then ''[]''
      else ''['' @ line_break (Suc l) @ join ('','' @ line_break (Suc l)) (map (indented_dumps (Suc l)) js) @ line_break l @ '']'')"
| "indented_dumps l (JObj d) =
     (if d = [] then [CHR 123, CHR 125]
      else CHR 123 # line_break (Suc l) @
        join ('','' @ line_break (Suc l)) (map (\<lambda>(k, j). json_string k @ '': '' @ indented_dumps (Suc l) j) d) @
        line_break l @ [CHR 125])"
| "indented_dumps l j = stable_json_dumps j"

lemma line_break_blank [simp]: "blank (line_break l)"
  by (simp add: blank_def line_break_def list_all_iff json_space_def)

lemma indented_text: "json_ok j \<Longrightarrow> json_text j (indented_dumps l j)"
proof (induction j arbitrary: l)
  case (JList js)
  show ?case
  proof (cases "js = []")
    case True
    then show ?thesis using nil_text [OF blank_Nil] by simp
  next
    case False
    have "items_text (map id js) (join ('','' @ line_break (Suc l)) (map (indented_dumps (Suc l)) js) @ line_break l)"
      using JList by (intro items_join [OF False]) (auto simp: list_all_iff)
    from list_text [OF this line_break_blank [of "Suc l"]] False show ?thesis by simp
  qed
next
  case (JObj d)
  show ?case
  proof (cases "d = []")
    case True
    then show ?thesis using empty_text [OF blank_Nil] by simp
  next
    case False
    have ok: "json_text (id j) (indented_dumps (Suc l) j)" if "(k, j) \<in> set d" for k j
      using JObj that by (force simp: json_ok_object)
    have "blank '' ''" by (simp add: blank_def json_space_def)
    from members_join [of d id "indented_dumps (Suc l)", OF False ok this line_break_blank [of "Suc l"] line_break_blank [of l]]
    have "members_text d (join ('','' @ line_break (Suc l))
        (map (\<lambda>(k, j). json_string k @ '': '' @ indented_dumps (Suc l) j) d) @ line_break l)"
      by (simp add: split_def)
    from object_text [OF this _ line_break_blank [of "Suc l"]] False JObj(2) show ?thesis by (simp add: json_ok_object)
  qed
qed (auto intro: text_intros bool_text [of True, simplified] bool_text [of False, simplified])

lemma indented_loads: "json_ok j \<Longrightarrow> json_loads (indented_dumps l j) = Inr j"
  using text_loads [OF indented_text, of j "[]" "[]"] by simp

section \<open>Files of text\<close>

type_synonym text_fs = "path \<rightharpoonup> string"

definition load_text_file :: "text_fs \<Rightarrow> path option \<Rightarrow> json \<Rightarrow> json result" where
  "load_text_file fs path dflt =
     (case path of None \<Rightarrow> Inr dflt
      | Some p \<Rightarrow> (case fs p of None \<Rightarrow> Inr dflt | Some t \<Rightarrow> json_loads t))"

text \<open>\<open>AppendChar\<close> is what the file has received when the process stops; \<open>MakeDirs\<close> touches no file.\<close>

datatype text_op =
    TextDirs path
  | OpenTemp path
  | AppendChar path char
  | RenameTo path path

fun run_text_op :: "text_op \<Rightarrow> text_fs \<Rightarrow> text_fs" where
  "run_text_op (TextDirs p) fs = fs"
| "run_text_op (OpenTemp p) fs = fs(p \<mapsto> [])"
| "run_text_op (AppendChar p c) fs = (case fs p of None \<Rightarrow> fs | Some t \<Rightarrow> fs(p \<mapsto> t @ [c]))"
| "run_text_op (RenameTo src dst) fs = (fs(dst := fs src))(src := None)"

definition save_text_ops :: "string \<Rightarrow> path \<Rightarrow> json \<Rightarrow> text_op list" where
  "save_text_ops r p payload =
     [TextDirs (parent_dir p), OpenTemp (temp_name p r)] @
     map (AppendChar (temp_name p r)) (indented_dumps 0 payload) @ [RenameTo (temp_name p r) p]"

definition save_text_file :: "string \<Rightarrow> path option \<Rightarrow> json \<Rightarrow> text_fs \<Rightarrow> text_fs" where
  "save_text_file r path payload fs =
     (case path of None \<Rightarrow> fs | Some p \<Rightarrow> fold run_text_op (save_text_ops r p payload) fs)"

lemma append_chars: "fs p = Some s \<Longrightarrow> fold run_text_op (map (AppendChar p) t) fs = fs(p \<mapsto> s @ t)"
  by (induction t arbitrary: fs s) auto

text \<open>Until the rename a save touches its temporary file only.\<close>

definition fills :: "path \<Rightarrow> text_op \<Rightarrow> bool" where
  "fills q op = (case op of TextDirs p \<Rightarrow> True | OpenTemp p \<Rightarrow> p = q | AppendChar p c \<Rightarrow> p = q | RenameTo a b \<Rightarrow> False)"

lemma fills_elsewhere: "list_all (fills q) ops \<Longrightarrow> p \<noteq> q \<Longrightarrow> fold run_text_op ops fs p = fs p"
  by (induction ops arbitrary: fs) (auto simp: fills_def split: text_op.splits option.splits)

lemma save_text_eq: "save_text_file r (Some p) payload fs = (fs(p \<mapsto> indented_dumps 0 payload))(temp_name p r := None)"
  by (simp add: save_text_file_def save_text_ops_def append_chars fun_eq_iff)

text \<open>A save cut off anywhere: the file is the old one, or it has the whole new text.\<close>

lemma save_text_prefix:
  "fold run_text_op (take n (save_text_ops r p payload)) fs p \<in> {fs p, Some (indented_dumps 0 payload)}"
  "q \<noteq> p \<Longrightarrow> q \<noteq> temp_name p r \<Longrightarrow> fold run_text_op (take n (save_text_ops r p payload)) fs q = fs q"
proof -
  define fill where "fill = [TextDirs (parent_dir p), OpenTemp (temp_name p r)] @
    map (AppendChar (temp_name p r)) (indented_dumps 0 payload)"
  have ops: "save_text_ops r p payload = fill @ [RenameTo (temp_name p r) p]" by (simp add: save_text_ops_def fill_def)
  have fill: "list_all (fills (temp_name p r)) fill" by (simp add: fill_def fills_def list_all_iff)
  have "fold run_text_op (take n (save_text_ops r p payload)) fs = save_text_file r (Some p) payload fs \<or>
      (\<forall>q. q \<noteq> temp_name p r \<longrightarrow> fold run_text_op (take n (save_text_ops r p payload)) fs q = fs q)"
  proof (cases "length fill < n")
    case True
    then show ?thesis by (simp add: ops save_text_file_def)
  next
    case False
    have "list_all (fills (temp_name p r)) (take n fill)" using fill by (auto simp: list_all_iff dest: in_set_takeD)
    then show ?thesis using False by (simp add: ops fills_elsewhere)
  qed
  then show "fold run_text_op (take n (save_text_ops r p payload)) fs p \<in> {fs p, Some (indented_dumps 0 payload)}"
    "q \<noteq> p \<Longrightarrow> q \<noteq> temp_name p r \<Longrightarrow> fold run_text_op (take n (save_text_ops r p payload)) fs q = fs q"
    by (auto simp: save_text_eq)
qed

section \<open>What the texts read as\<close>

definition content_of :: "string \<Rightarrow> file_content" where
  "content_of t = (case json_loads t of Inr j \<Rightarrow> JsonFile j | Inl e \<Rightarrow> TextFile t)"

definition read_fs :: "text_fs \<Rightarrow> fs" where
  "read_fs fs p = map_option content_of (fs p)"

lemma loads_error: "json_loads t = Inl e \<Longrightarrow> e = JSONDecodeError"
  by (auto simp: json_loads_def split: option.splits if_splits)

lemma load_refines: "load_text_file fs path dflt = load_json_file (read_fs fs) path dflt"
  by (auto simp: load_text_file_def load_json_file_def read_fs_def content_of_def split: option.splits sum.splits dest: loads_error)

lemma content_of_dumps [simp]: "json_ok j \<Longrightarrow> content_of (indented_dumps l j) = JsonFile j"
  by (simp add: content_of_def indented_loads)

lemma save_refines:
  assumes "json_ok payload" "fs (temp_name p r) = None"
  shows "read_fs (save_text_file r (Some p) payload fs) = save_json_file (Some p) payload (read_fs fs)"
  using assms by (auto simp: save_text_eq save_json_file_def read_fs_def fun_eq_iff)

text \<open>What a document in a file is, a service can write back: it came out of the decoder.\<close>

lemma loaded_ok: "load_text_file fs path dflt = Inr j \<Longrightarrow> json_ok dflt \<Longrightarrow> json_ok j"
  by (auto simp: load_text_file_def split: option.splits dest: loads_ok)

end
