(* ===== verification/JsonRound.thy ===== *)
theory JsonRound
  imports Cloud StateText
begin

text \<open>
  Reading back what was written: the canonical text of a document is a text of it in the grammar
  of \<open>JsonGrammar\<close>, its keys in the written order, so the decoder returns it and leaves the text
  after it. Floats are doubles, infinities and NaN included, and objects have distinct keys. The
  deployment script also finds a document behind warnings of a command line tool.
\<close>

section \<open>The canonical text\<close>

lemma insort_map: "(\<And>x. fst (f x) = fst x) \<Longrightarrow> insort_key fst (f x) (map f xs) = map f (insort_key fst x xs)"
  by (induction xs) simp_all

lemma sort_keys_map: "(\<And>x. fst (f x) = fst x) \<Longrightarrow> sort_keys (map f d) = map f (sort_keys d)"
  by (induction d) (simp_all add: sort_keys_def insort_map)

lemma sort_keys_set [simp]: "set (sort_keys d) = set d"
  by (simp add: sort_keys_def)

lemma sort_keys_length [simp]: "length (sort_keys d) = length d"
  by (simp add: sort_keys_def)

lemma sort_keys_distinct: "distinct (map fst d) \<Longrightarrow> distinct (map fst (sort_keys d))"
  unfolding sort_keys_def by (metis distinct_map distinct_sort mset_eq_imp_distinct_iff mset_map mset_sort)

definition member_text :: "string \<times> json \<Rightarrow> string" where
  "member_text m = json_string (fst m) @ '':'' @ stable_json_dumps (snd m)"

lemma dumps_object:
  "stable_json_dumps (JObj d) = CHR 123 # join '','' (map member_text (sort_keys d)) @ [CHR 125]"
proof -
  have "sort_keys (map (\<lambda>(k, v). (k, stable_json_dumps v)) d) = map (\<lambda>(k, v). (k, stable_json_dumps v)) (sort_keys d)"
    by (rule sort_keys_map) auto
  then show ?thesis by (simp add: comp_def split_def member_text_def [abs_def])
qed

lemma sorted_object: "sorted_json (JObj d) = JObj (map (\<lambda>(k, v). (k, sorted_json v)) (sort_keys d))"
proof -
  have "sort_keys (map (\<lambda>(k, v). (k, sorted_json v)) d) = map (\<lambda>(k, v). (k, sorted_json v)) (sort_keys d)"
    by (rule sort_keys_map) auto
  then show ?thesis by simp
qed

declare stable_json_dumps.simps(7) [simp del] sorted_json.simps(2) [simp del]

lemma canonical_text: "json_ok j \<Longrightarrow> json_text (sorted_json j) (stable_json_dumps j)"
proof (induction j)
  case (JList js)
  show ?case
  proof (cases "js = []")
    case True
    then show ?thesis using nil_text [OF blank_Nil] by simp
  next
    case False
    have "items_text (map sorted_json js) (join '','' (map stable_json_dumps js))"
      using items_join [OF False, of sorted_json stable_json_dumps "[]" "[]"] JList by (auto simp: list_all_iff)
    from list_text [OF this blank_Nil] show ?thesis by simp
  qed
next
  case (JObj d)
  then have ok: "\<And>k j. (k, j) \<in> set (sort_keys d) \<Longrightarrow> json_text (sorted_json j) (stable_json_dumps j)"
    and keys: "distinct (map fst (sort_keys d))"
    by (force simp: json_ok_object intro: sort_keys_distinct)+
  show ?case
  proof (cases "sort_keys d = []")
    case True
    then show ?thesis using empty_text [OF blank_Nil] by (simp add: dumps_object sorted_object)
  next
    case False
    have "members_text (map (\<lambda>(k, v). (k, sorted_json v)) (sort_keys d)) (join '','' (map member_text (sort_keys d)))"
      using members_join [OF False, of sorted_json stable_json_dumps "[]" "[]" "[]"] ok
      by (simp add: member_text_def [abs_def] split_def)
    from object_text [OF this _ blank_Nil] keys show ?thesis
      by (simp add: dumps_object sorted_object comp_def split_beta)
  qed
qed (auto intro: text_intros bool_text [of True, simplified] bool_text [of False, simplified])

text \<open>Whole documents, and a document at the front of a longer text.\<close>

lemma raw_decode_back: "json_ok j \<Longrightarrow> stops r \<Longrightarrow> raw_decode (stable_json_dumps j @ r) = Some (sorted_json j, r)"
  unfolding raw_decode_def by (rule text_read(1) [OF canonical_text]) simp_all

lemma json_text_roundtrip: "json_ok j \<Longrightarrow> json_loads (stable_json_dumps j) = Inr (sorted_json j)"
  using text_loads [OF canonical_text, of j "[]" "[]"] by simp

section \<open>Warnings in front of a document\<close>

definition plain_char :: "char \<Rightarrow> bool" where
  "plain_char c \<longleftrightarrow> c \<noteq> CHR 34 \<and> c \<noteq> CHR ''['' \<and> c \<noteq> CHR 123"

text \<open>What a scalar that is not a string takes off the front has no bracket in it.\<close>

definition takes_plain :: "string \<Rightarrow> string \<Rightarrow> bool" where
  "takes_plain s r \<longleftrightarrow> (\<exists>u. s = u @ r \<and> list_all plain_char u)"

lemma takes_plain_refl [simp]: "takes_plain s s"
  by (simp add: takes_plain_def)

lemma takes_plain_trans: "takes_plain s r \<Longrightarrow> takes_plain r q \<Longrightarrow> takes_plain s q"
  unfolding takes_plain_def by (metis append_assoc list_all_append)

lemma takes_plain_append: "list_all plain_char u \<Longrightarrow> takes_plain (u @ r) r"
  by (auto simp: takes_plain_def)

lemma digits_plain: "list_all plain_char (takeWhile is_digit s)"
  by (auto simp: list_all_iff plain_char_def is_digit_def dest!: set_takeWhileD)

lemma takes_plain_Cons: "plain_char c \<Longrightarrow> takes_plain s r \<Longrightarrow> takes_plain (c # s) r"
  using takes_plain_trans [OF takes_plain_append [of "[c]" s]] by simp

lemma takes_plain_span: "span is_digit s = (u, r) \<Longrightarrow> takes_plain s r"
  using digits_plain [of s] takeWhile_dropWhile_id [of is_digit s]
  unfolding span_def takes_plain_def by (metis prod.inject)

lemma digit_plain: "is_digit c \<Longrightarrow> plain_char c"
  by (auto simp: is_digit_def plain_char_def)

lemma takes_plain_natural: "scan_natural s = Some (u, r) \<Longrightarrow> takes_plain s r"
  by (auto simp: scan_natural_def plain_char_def split: list.splits if_splits
      intro: takes_plain_Cons takes_plain_span)

lemma takes_plain_fraction: "scan_fraction s = (u, r) \<Longrightarrow> takes_plain s r"
  by (auto simp: scan_fraction_def plain_char_def split: list.splits if_splits prod.splits
      intro!: takes_plain_Cons [OF _ takes_plain_span])

lemma takes_plain_drop1: "takes_plain s (drop k s)" if "list_all plain_char (take k s)"
  using takes_plain_append [OF that, of "drop k s"] by simp

lemma takes_plain_exponent: "scan_exponent s = (u, r) \<Longrightarrow> takes_plain s r"
proof (cases s)
  case (Cons c t)
  assume e: "scan_exponent s = (u, r)"
  define sg where "sg = (case t of x # _ \<Rightarrow> if x = CHR ''+'' \<or> x = CHR ''-'' then [x] else [] | [] \<Rightarrow> [])"
  have "takes_plain t (drop (length sg) t)"
    by (auto simp: sg_def plain_char_def split: list.splits intro: takes_plain_Cons)
  moreover have "takes_plain (drop (length sg) t) (dropWhile is_digit (drop (length sg) t))"
    by (rule takes_plain_span) (simp add: span_def)
  ultimately have "takes_plain t (dropWhile is_digit (drop (length sg) t))" by (rule takes_plain_trans)
  moreover have "plain_char c" if "lower_char c = CHR ''e''"
    using that by (auto simp: plain_char_def lower_char_def)
  moreover have "r = s \<or> lower_char c = CHR ''e'' \<and> r = dropWhile is_digit (drop (length sg) t)"
    using e Cons by (auto simp: scan_exponent_def sg_def [symmetric] span_def Let_def split: if_splits)
  ultimately show ?thesis using Cons by (auto intro: takes_plain_Cons)
qed (simp add: scan_exponent_def)

lemma takes_plain_number:
  assumes "scan_number s = Some (j, r)"
  shows "takes_plain s r"
proof -
  define b where "b = (if starts_with ''-'' s then drop 1 s else s)"
  have 1: "takes_plain s b"
    by (cases s) (auto simp: b_def starts_with_def plain_char_def intro: takes_plain_Cons)
  obtain ip r1 where 2: "scan_natural b = Some (ip, r1)"
    using assms by (auto simp: scan_number_def b_def Let_def split: option.splits)
  obtain fp r2 where 3: "scan_fraction r1 = (fp, r2)" by (cases "scan_fraction r1")
  obtain ep r3 where 4: "scan_exponent r2 = (ep, r3)" by (cases "scan_exponent r2")
  have "r = r3"
    using assms 2 3 4 by (auto simp: scan_number_def b_def [symmetric] Let_def split: if_splits)
  then show ?thesis
    using 1 takes_plain_natural [OF 2] takes_plain_fraction [OF 3] takes_plain_exponent [OF 4] takes_plain_trans
    by blast
qed

lemma takes_plain_keyword:
  "scan_keyword ks s = Some (j, r) \<Longrightarrow> list_all (\<lambda>(k, j). list_all plain_char k) ks \<Longrightarrow> takes_plain s r"
proof (induction ks s rule: scan_keyword.induct)
  case (2 k j' ks s)
  show ?case
  proof (cases "starts_with k s")
    case True
    then show ?thesis using 2 takes_plain_drop1 [of "length k" s] by (simp add: starts_with_def)
  next
    case False
    then show ?thesis using 2 by simp
  qed
qed simp

lemma takes_plain_value:
  assumes "plain_char c" "scan_value n (c # s) = Some (j, r)"
  shows "takes_plain (c # s) r"
proof (cases n)
  case (Suc m)
  have words: "list_all (\<lambda>(k, j). list_all plain_char k) json_words" by (simp add: json_words_def plain_char_def)
  from assms Suc have "scan_keyword json_words (c # s) = Some (j, r) \<or> scan_number (c # s) = Some (j, r)"
    by (auto simp: plain_char_def split: option.splits)
  then show ?thesis using takes_plain_number takes_plain_keyword [OF _ words] by blast
qed (use assms in simp)

definition container :: "json \<Rightarrow> bool" where
  "container j \<longleftrightarrow> (\<exists>js. j = JList js) \<or> (\<exists>d. j = JObj d)"

lemma container_text:
  assumes "container j"
  obtains c s where "stable_json_dumps j = c # s" "c = CHR ''['' \<or> c = CHR 123"
    "\<not> is_space (last (stable_json_dumps j))"
  using assms by (auto simp: container_def dumps_object is_space_def)

lemma first_decodable_after:
  assumes "container j" "json_ok j" "list_all plain_char junk"
  shows "first_decodable (junk @ stable_json_dumps j) = Some (sorted_json j)"
  using assms(3)
proof (induction junk)
  case Nil
  obtain c s where "stable_json_dumps j = c # s" "c = CHR ''['' \<or> c = CHR 123"
    using assms(1) by (rule container_text)
  then show ?case using raw_decode_back [OF assms(2), of "[]"] by auto
next
  case (Cons c junk)
  then show ?case by (simp add: plain_char_def)
qed

lemma loads_after_warning:
  assumes "container j" "json_ok j" "list_all plain_char junk"
  shows "json_loads (junk @ stable_json_dumps j) \<in> {Inr (sorted_json j), Inl JSONDecodeError}"
proof -
  let ?t = "stable_json_dumps j"
  obtain c s where t: "?t = c # s" "c = CHR ''['' \<or> c = CHR 123" using assms(1) by (rule container_text)
  then have c: "\<not> json_space c" "\<not> plain_char c" by (auto simp: json_space_def plain_char_def)
  define u where "u = dropWhile json_space junk"
  have "dropWhile json_space (junk @ ?t) = dropWhile json_space junk @ ?t"
    using c(1) t(1) by (induction junk) simp_all
  then have skip: "skip_space (junk @ ?t) = u @ ?t" by (simp add: skip_space_def u_def)
  show ?thesis
  proof (cases u)
    case Nil
    then show ?thesis using skip raw_decode_back [OF assms(2), of "[]"] by (simp add: json_loads_def skip_space_def)
  next
    case (Cons x y)
    have plain: "list_all plain_char u" using assms(3) by (auto simp: u_def list_all_iff dest: set_dropWhileD)
    have "skip_space r \<noteq> []" if "raw_decode (u @ ?t) = Some (v, r)" for v r
    proof -
      have "takes_plain (u @ ?t) r"
        using that plain takes_plain_value [of x "2 * length (u @ ?t) + 2" "y @ ?t" v r]
        unfolding raw_decode_def Cons append_Cons by simp
      then obtain w where w: "u @ ?t = w @ r" "list_all plain_char w" by (auto simp: takes_plain_def)
      have "c \<in> set (u @ ?t)" using t by simp
      moreover have "c \<notin> set w" using w(2) c(2) by (auto simp: list_all_iff)
      ultimately have "c \<in> set r" using w(1) by (metis Un_iff set_append)
      then show ?thesis using c(1) by (auto simp: skip_space_def dropWhile_eq_Nil_conv)
    qed
    then show ?thesis using skip by (auto simp: json_loads_def split: option.splits)
  qed
qed

text \<open>The documents these texts exist for are those some text is read as.\<close>

lemma json_ok_iff_read: "json_ok j \<longleftrightarrow> (\<exists>t. json_loads t = Inr j)"
  using indented_loads loads_ok by blast

text \<open>
  C28. A document, its floats included, is read back as it was written, from the text that is hashed
  with its keys sorted, from the text of the state files in its own order.
\<close>

theorem document_texts_read_back:
  assumes "json_ok j"
  shows "json_loads (stable_json_dumps j) = Inr (sorted_json j) \<and> json_loads (indented_dumps l j) = Inr j"
  using json_text_roundtrip [OF assms] indented_loads [OF assms] by simp

theorem document_texts_read_back_witness:
  "json_loads (indented_dumps 0
       (JObj [(''b'', JList [JInt (- 12), JBool True, JNull]), (''a'', JStr ''x''), (''c'', JFloat (fl (1/10)))])) =
     Inr (JObj [(''b'', JList [JInt (- 12), JBool True, JNull]), (''a'', JStr ''x''), (''c'', JFloat (fl (1/10)))]) \<and>
   json_loads (stable_json_dumps
       (JObj [(''b'', JList [JInt (- 12), JBool True, JNull]), (''a'', JStr ''x''), (''c'', JFloat (fl (1/10)))])) =
     Inr (JObj [(''a'', JStr ''x''), (''b'', JList [JInt (- 12), JBool True, JNull]), (''c'', JFloat (fl (1/10)))])"
proof -
  let ?d = "JObj [(''b'', JList [JInt (- 12), JBool True, JNull]), (''a'', JStr ''x''), (''c'', JFloat (fl (1/10)))]"
  have "json_ok ?d" by (simp add: json_ok_object)
  moreover have "sorted_json ?d =
      JObj [(''a'', JStr ''x''), (''b'', JList [JInt (- 12), JBool True, JNull]), (''c'', JFloat (fl (1/10)))]"
    by (simp add: sorted_json.simps sort_keys_def)
  ultimately show ?thesis using document_texts_read_back by metis
qed

lemma strip_warning:
  assumes "container j"
  shows "\<exists>u. strip (junk @ stable_json_dumps j @ ''\<newline>'') = u @ stable_json_dumps j \<and> set u \<subseteq> set junk"
proof -
  let ?t = "stable_json_dumps j"
  obtain c s where t: "?t = c # s" "c = CHR ''['' \<or> c = CHR 123" "\<not> is_space (last ?t)"
    using assms by (rule container_text)
  then have c: "\<not> is_space c" by (auto simp: is_space_def)
  have "dropWhile is_space (junk @ ?t @ ''\<newline>'') = dropWhile is_space junk @ ?t @ ''\<newline>''"
    using c t(1) by (induction junk) simp_all
  moreover have "rstrip_by is_space (v @ ?t @ ''\<newline>'') = v @ ?t" for v
  proof -
    have "?t \<noteq> []" using t(1) by simp
    then obtain ys y where y: "?t = ys @ [y]" by (meson rev_exhaust)
    moreover have "is_space (CHR ''\<newline>'')" by (simp add: is_space_def)
    ultimately show ?thesis using t(3) by (simp add: rstrip_by_def)
  qed
  ultimately show ?thesis
    using set_dropWhileD [of _ is_space junk] by (auto simp: strip_def)
qed

text \<open>
  Command line tools print warnings in front of their JSON. Whatever stands in front of an object or
  list, as long as it has no quote, bracket or brace, is skipped.\<close>

theorem warnings_before_json_ignored:
  assumes "container j" "json_ok j" "list_all plain_char junk"
  shows "parse_json_output (junk @ stable_json_dumps j @ ''\<newline>'') = Inr (sorted_json j)"
proof -
  obtain u where u: "strip (junk @ stable_json_dumps j @ ''\<newline>'') = u @ stable_json_dumps j" "set u \<subseteq> set junk"
    using strip_warning [OF assms(1)] by blast
  then have plain: "list_all plain_char u" using assms(3) by (auto simp: list_all_iff)
  obtain c s where "stable_json_dumps j = c # s" using assms(1) by (rule container_text)
  then have ne: "stable_json_dumps j \<noteq> []" by simp
  from loads_after_warning [OF assms(1,2) plain] show ?thesis
  proof (cases "json_loads (u @ stable_json_dumps j)")
    case (Inl e)
    then show ?thesis unfolding parse_json_output_def Let_def u(1)
      using ne first_decodable_after [OF assms(1,2) plain] by simp
  next
    case (Inr v)
    then show ?thesis unfolding parse_json_output_def Let_def u(1)
      using ne loads_after_warning [OF assms(1,2) plain] by simp
  qed
qed

theorem warnings_before_json_ignored_witness:
  "parse_json_output (''WARNING: 3 of 4 checks'' @ stable_json_dumps (JObj [(''id'', JInt 7)]) @ ''\<newline>'') =
     Inr (sorted_json (JObj [(''id'', JInt 7)]))"
  by (rule warnings_before_json_ignored) (simp_all add: container_def json_ok.simps plain_char_def)

end
