(* ===== verification/CloudParts.thy ===== *)
theory CloudParts
  imports Cloud
begin

text \<open>
  The lower half of \<open>scripts/cloud_deploy.py\<close> (to \<open>azure_container_env_vars\<close>): build contexts,
  names, lookups of cloud resources, waiting for a service, and the environment each
  service is deployed with.
\<close>

section \<open>Constants\<close>

definition skip_dir_names :: "string list" where
  "skip_dir_names = [''.azure-cli'', ''.mypy_cache'', ''.pytest_cache'', ''.ruff_cache'', ''.venv'',
     ''__pycache__'', ''build'', ''data'', ''dist'']"

definition skip_file_names :: "string list" where
  "skip_file_names = [''.DS_Store'']"

definition skip_file_suffixes :: "string list" where
  "skip_file_suffixes = [''.docx'', ''.pkg'', ''.pyc'', ''.pyd'', ''.pyo'']"

definition azure_containerapp_port :: int where "azure_containerapp_port = 8002"
definition azure_containerapp_secret_name :: string where "azure_containerapp_secret_name = ''storconn''"
definition gcp_cloudrun_port :: int where "gcp_cloudrun_port = 8003"
definition apprunner_registry_port :: int where "apprunner_registry_port = 8000"
definition apprunner_ingestion_port :: int where "apprunner_ingestion_port = 8001"
definition apprunner_role_name :: string where "apprunner_role_name = ''QuantIANAppRunnerECRAccessRole''"

definition apprunner_trust_policy :: json where
  "apprunner_trust_policy = JObj [
     (''Version'', JStr ''2012-10-17''),
     (''Statement'', JList [JObj [
        (''Effect'', JStr ''Allow''),
        (''Principal'', JObj [(''Service'', JStr ''build.apprunner.amazonaws.com'')]),
        (''Action'', JStr ''sts:AssumeRole'')]])]"

definition apprunner_policy_arn :: string where
  "apprunner_policy_arn = ''arn:aws:iam::aws:policy/service-role/AWSAppRunnerServicePolicyForECRAccess''"

definition deploy_portfolio :: json where
  "deploy_portfolio = JObj [
     (''portfolio_id'', JStr ''demo_portfolio''),
     (''positions'', JList [
        JObj [(''symbol'', JStr ''BTCUSD''), (''weight'', JFloat (fl (4 / 10)))],
        JObj [(''symbol'', JStr ''ETHUSD''), (''weight'', JFloat (fl (3 / 10)))],
        JObj [(''symbol'', JStr ''AAPL''), (''weight'', JFloat (fl (2 / 10)))],
        JObj [(''symbol'', JStr ''MSFT''), (''weight'', JFloat (fl (1 / 10)))]])]"

section \<open>Build contexts\<close>

text \<open>\<open>PurePath.suffix\<close>: from the last dot, unless it opens or ends the name.\<close>

definition path_suffix :: "string \<Rightarrow> string" where
  "path_suffix name =
     (let ext = rev (takeWhile (\<lambda>c. c \<noteq> CHR ''.'') (rev name)); stem = take (length name - length ext) name
      in if length stem \<le> 1 \<or> ext = [] then [] else CHR ''.'' # ext)"

definition should_skip_bundle_path :: "path \<Rightarrow> bool" where
  "should_skip_bundle_path relative_path =
     (let parts = path_parts relative_path; name = (if parts = [] then [] else last parts) in
      if list_ex (\<lambda>p. p \<in> set skip_dir_names) parts then True
      else if name \<in> set skip_file_names \<or> starts_with ''._'' name then True
      else path_suffix name \<in> set skip_file_suffixes)"

text \<open>The names left out of every copied tree, at any depth.\<close>

definition ignored_name :: "string \<Rightarrow> bool" where
  "ignored_name n \<longleftrightarrow> n = ''__pycache__'' \<or> n = ''.DS_Store'' \<or> starts_with ''._'' n \<or>
     list_ex (\<lambda>s. ends_with s n) [''.pyc'', ''.pyd'', ''.pyo'']"

definition keep_path :: "path \<Rightarrow> bool" where
  "keep_path p \<longleftrightarrow> list_all (\<lambda>n. \<not> ignored_name n) (split_on (CHR ''/'') p)"

definition copy_filtered_tree :: "path \<Rightarrow> path \<Rightarrow> ('x cloud, unit) cmd" where
  "copy_filtered_tree source destination = copy_tree keep_path source destination"

text \<open>The four packaging functions differ in their directory, Dockerfile, requirements and service.\<close>

record build_context =
  bc_dir :: string
  bc_service :: string
  bc_dockerfile :: string
  bc_requirements :: string

definition package_context :: "'x tools \<Rightarrow> build_context \<Rightarrow> ('x cloud, path) cmd" where
  "package_context ct bc =
     (let root = tl_root ct; dir = root @ ''/dist/'' @ bc_dir bc; service = root @ ''/'' @ bc_service bc in
      seqC (make_dirs (root @ ''/dist''))
      (seqC (\<lambda>w. if cd_dirs w dir then remove_tree dir w else retC () w)
      (seqC (make_dirs dir)
      (seqC (copy_file (service @ ''/'' @ bc_dockerfile bc) (dir @ ''/Dockerfile''))
      (seqC (copy_file (service @ ''/'' @ bc_requirements bc) (dir @ ''/'' @ bc_requirements bc))
      (seqC (copy_filtered_tree service (dir @ ''/'' @ bc_service bc))
      (seqC (copy_filtered_tree (root @ ''/shared'') (dir @ ''/shared''))
        (retC dir))))))))"

definition azure_context :: build_context where
  "azure_context = \<lparr>bc_dir = ''azure-containerapp-src'', bc_service = ''azure_anomaly'',
     bc_dockerfile = ''containerapp.Dockerfile'', bc_requirements = ''requirements-containerapp.txt''\<rparr>"

definition gcp_context :: build_context where
  "gcp_context = \<lparr>bc_dir = ''gcp-cloudrun-src'', bc_service = ''gcp_risk'',
     bc_dockerfile = ''cloudrun.Dockerfile'', bc_requirements = ''requirements-cloudrun.txt''\<rparr>"

definition registry_context :: build_context where
  "registry_context = \<lparr>bc_dir = ''aws-apprunner-registry-src'', bc_service = ''registry_service'',
     bc_dockerfile = ''apprunner.Dockerfile'', bc_requirements = ''requirements-apprunner.txt''\<rparr>"

definition ingestion_context :: build_context where
  "ingestion_context = \<lparr>bc_dir = ''aws-apprunner-ingestion-src'', bc_service = ''aws_ingestion'',
     bc_dockerfile = ''apprunner.Dockerfile'', bc_requirements = ''requirements-apprunner.txt''\<rparr>"

definition package_azure_containerapp_context :: "'x tools \<Rightarrow> ('x cloud, path) cmd" where
  "package_azure_containerapp_context ct = package_context ct azure_context"

definition package_gcp_cloudrun_context :: "'x tools \<Rightarrow> ('x cloud, path) cmd" where
  "package_gcp_cloudrun_context ct = package_context ct gcp_context"

definition package_apprunner_registry_context :: "'x tools \<Rightarrow> ('x cloud, path) cmd" where
  "package_apprunner_registry_context ct = package_context ct registry_context"

definition package_apprunner_ingestion_context :: "'x tools \<Rightarrow> ('x cloud, path) cmd" where
  "package_apprunner_ingestion_context ct = package_context ct ingestion_context"

section \<open>Keys, bundles, names\<close>

definition ensure_ssh_key :: "'x tools \<Rightarrow> ('x cloud, unit) cmd" where
  "ensure_ssh_key ct w =
     (if cd_fs w ''/tmp/quantian_demo_key'' \<noteq> None \<and> cd_fs w ''/tmp/quantian_demo_key.pub'' \<noteq> None then (Inr (), w)
      else do_cmd ct (lits [''ssh-keygen'', ''-t'', ''ed25519'', ''-f'', ''/tmp/quantian_demo_key'',
             ''-N'', '''', ''-C'', ''quantian-demo'']) w)"

definition bundle_path :: "'x tools \<Rightarrow> path" where
  "bundle_path ct = tl_root ct @ ''/dist/quantian-deploy.tar.gz''"

definition package_bundle :: "'x tools \<Rightarrow> ('x cloud, path) cmd" where
  "package_bundle ct =
     seqC (make_dirs (tl_root ct @ ''/dist''))
     (seqC (do_cmd ct (lits [''bash'', tl_root ct @ ''/scripts/package_deployment_bundle.sh'', bundle_path ct]))
       (retC (bundle_path ct)))"

text \<open>\<open>strftime("%Y%m%d%H%M%S")\<close>.\<close>

definition show_compact :: "int \<Rightarrow> string" where
  "show_compact t =
     (let s = t mod us_per_day div 1000000 in
      case ordinal_ymd (t div us_per_day + 1) of (y, m, d) \<Rightarrow>
        show_padded 4 (nat y) @ show_padded 2 (nat m) @ show_padded 2 (nat d) @
        show_padded 2 (nat (s div 3600)) @ show_padded 2 (nat (s div 60 mod 60)) @ show_padded 2 (nat (s mod 60)))"

definition utc_deploy_id :: "('x cloud, string) cmd" where
  "utc_deploy_id w = (Inr (show_compact (cd_now w)), w)"

text \<open>SHA-1, for \<open>hashlib.sha1\<close>: eighty rounds on five words.\<close>

definition rotl32 :: "nat \<Rightarrow> u32 \<Rightarrow> u32" where
  "rotl32 n x = word_rotl n x"

fun sha1_schedule :: "nat \<Rightarrow> u32 list \<Rightarrow> u32 list" where
  "sha1_schedule 0 w = w"
| "sha1_schedule (Suc n) w = sha1_schedule n (rotl32 1 (w ! 2 XOR w ! 7 XOR w ! 13 XOR w ! 15) # w)"

definition sha1_mix :: "nat \<Rightarrow> u32 \<Rightarrow> u32 \<Rightarrow> u32 \<Rightarrow> u32" where
  "sha1_mix t x y z =
     (if t < 20 then ((x AND y) OR (NOT x AND z)) + 1518500249
      else if t < 40 then (x XOR y XOR z) + 1859775393
      else if t < 60 then ((x AND y) OR (x AND z) OR (y AND z)) + 2400959708
      else (x XOR y XOR z) + 3395469782)"

definition sha1_step :: "u32 list \<Rightarrow> nat \<times> u32 \<Rightarrow> u32 list" where
  "sha1_step st tw = (case (st, tw) of
     ([a, b, c, d, e], (t, w)) \<Rightarrow> [rotl32 5 a + sha1_mix t b c d + e + w, a, rotl32 30 b, c, d]
   | _ \<Rightarrow> st)"

definition sha1_block :: "u32 list \<Rightarrow> nat list \<Rightarrow> u32 list" where
  "sha1_block st bs =
     (let w = rev (sha1_schedule 64 (rev (map word_of_bytes (chunks 4 16 bs))))
      in map2 (+) st (foldl sha1_step st (zip [0..<80] w)))"

definition sha1_hex :: "string \<Rightarrow> string" where
  "sha1_hex value =
     (let p = sha_pad (utf8 value);
          digest = foldl sha1_block [1732584193, 4023233417, 2562383102, 271733878, 3285377520]
                     (chunks 64 (length p div 64) p)
      in concat (map (\<lambda>w. hex_of 8 (unat w)) digest))"

definition stable_name_suffix :: "string \<Rightarrow> nat \<Rightarrow> string" where
  "stable_name_suffix seed n = take n (sha1_hex seed)"

section \<open>Arguments of the command\<close>

text \<open>The parsed options of \<open>build_parser\<close>; those without a default are \<open>None\<close> when not given.\<close>

record cloud_args =
  ca_replace :: bool
  ca_deploy_id :: "string option"
  ca_aws_region :: string
  ca_aws_account_id :: "string option"
  ca_aws_registry_repo :: string
  ca_aws_ingestion_repo :: string
  ca_aws_registry_service_name :: string
  ca_aws_ingestion_service_name :: string
  ca_aws_cpu :: string
  ca_aws_memory :: string
  ca_azure_resource_group :: string
  ca_azure_location :: string
  ca_azure_app_name :: "string option"
  ca_azure_environment_name :: "string option"
  ca_azure_registry_name :: "string option"
  ca_azure_image_repository :: string
  ca_azure_storage_account :: "string option"
  ca_azure_storage_container :: string
  ca_azure_cpu :: string
  ca_azure_memory :: string
  ca_azure_min_replicas :: int
  ca_azure_max_replicas :: int
  ca_gcp_project :: "string option"
  ca_gcp_region :: string
  ca_gcp_service_name :: string
  ca_gcp_repository :: string
  ca_gcp_image_repository :: string
  ca_gcp_cpu :: string
  ca_gcp_memory :: string
  ca_gcp_min_instances :: int
  ca_gcp_max_instances :: int

definition default_args :: cloud_args where
  "default_args = \<lparr>ca_replace = False, ca_deploy_id = None,
     ca_aws_region = ''us-east-1'', ca_aws_account_id = None,
     ca_aws_registry_repo = ''quantian-registry'', ca_aws_ingestion_repo = ''quantian-ingestion'',
     ca_aws_registry_service_name = ''quantian-aws-registry'',
     ca_aws_ingestion_service_name = ''quantian-aws-ingestion'', ca_aws_cpu = ''256'', ca_aws_memory = ''512'',
     ca_azure_resource_group = ''quantian-rg'', ca_azure_location = ''eastus'', ca_azure_app_name = None,
     ca_azure_environment_name = None, ca_azure_registry_name = None,
     ca_azure_image_repository = ''quantian/azure-anomaly'', ca_azure_storage_account = None,
     ca_azure_storage_container = ''quantian-state'', ca_azure_cpu = ''0.5'', ca_azure_memory = ''1.0Gi'',
     ca_azure_min_replicas = 1, ca_azure_max_replicas = 1,
     ca_gcp_project = None, ca_gcp_region = ''us-central1'', ca_gcp_service_name = ''quantian-gcp-risk'',
     ca_gcp_repository = ''quantian'', ca_gcp_image_repository = ''gcp-risk'', ca_gcp_cpu = ''1'',
     ca_gcp_memory = ''512Mi'', ca_gcp_min_instances = 1, ca_gcp_max_instances = 1\<rparr>"

text \<open>\<open>a or b\<close> for an option's value.\<close>

definition opt_or :: "string option \<Rightarrow> json \<Rightarrow> json" where
  "opt_or s j = (case s of None \<Rightarrow> j | Some t \<Rightarrow> if t = [] then j else JStr t)"

definition azure_suffix :: "'x tools \<Rightarrow> cloud_args \<Rightarrow> ('x cloud, string) cmd" where
  "azure_suffix ct args =
     bindC (output_value ct (lits [''az'', ''account'', ''show'', ''--query'', ''id'', ''--output'', ''tsv''])) (\<lambda>v.
       let subscription_id = (if v = [] then ''local'' else v)
       in retC (stable_name_suffix
            (subscription_id @ '':'' @ ca_azure_resource_group args @ '':'' @ ca_azure_location args) 10))"

section \<open>Cloud resources\<close>

definition ensure_azure_provider :: "'x tools \<Rightarrow> string \<Rightarrow> ('x cloud, unit) cmd" where
  "ensure_azure_provider ct namespace =
     bindC (output_value ct (lits [''az'', ''provider'', ''show'', ''--namespace'', namespace,
              ''--query'', ''registrationState'', ''--output'', ''tsv''])) (\<lambda>state.
       if str_lower state = ''registered'' then retC ()
       else do_cmd ct (lits [''az'', ''provider'', ''register'', ''--namespace'', namespace, ''--wait'']))"

definition extract_containerapp_fqdn :: "json \<Rightarrow> json result" where
  "extract_containerapp_fqdn payload =
     bindR (json_get payload ''properties'' (JObj [])) (\<lambda>properties.
     bindR (json_get properties ''configuration'' (JObj [])) (\<lambda>configuration.
     bindR (json_get configuration ''ingress'' (JObj [])) (\<lambda>ingress.
     bindR (json_get ingress ''fqdn'' JNull) (\<lambda>fqdn.
       if jtruth fqdn then Inr fqdn else json_get properties ''latestRevisionFqdn'' JNull))))"

definition load_containerapp :: "'x tools \<Rightarrow> argument \<Rightarrow> argument \<Rightarrow> ('x cloud, json) cmd" where
  "load_containerapp ct resource_group app_name =
     query_json ct (lits [''az'', ''containerapp'', ''show'', ''--resource-group''] @ [resource_group] @
       lits [''--name''] @ [app_name] @ lits [''--output'', ''json''])"

text \<open>\<open>json.dumps\<close> with its default separators, for arguments and policies.\<close>

fun json_dumps :: "json \<Rightarrow> string" where
  "json_dumps (JList xs) = ''['' @ join '', '' (map json_dumps xs) @ '']''"
| "json_dumps (JObj d) =
     CHR 123 # join '', '' (map (\<lambda>(k, t). json_string k @ '': '' @ t) (map (\<lambda>(k, v). (k, json_dumps v)) d)) @ [CHR 125]"
| "json_dumps j = stable_json_dumps j"

definition ensure_apprunner_ecr_role :: "'x tools \<Rightarrow> json \<Rightarrow> ('x cloud, string) cmd" where
  "ensure_apprunner_ecr_role ct account_id =
     (let role_arn = ''arn:aws:iam::'' @ py_str account_id @ '':role/'' @ apprunner_role_name in
      bindC (run_with ct False (lits [''aws'', ''iam'', ''get-role'', ''--role-name'', apprunner_role_name,
               ''--output'', ''json''])) (\<lambda>role_check.
      seqC (whenC (cp_returncode role_check \<noteq> 0)
        (seqC (do_cmd ct (lits [''aws'', ''iam'', ''create-role'', ''--role-name'', apprunner_role_name,
                  ''--assume-role-policy-document'', json_dumps apprunner_trust_policy,
                  ''--description'', ''Allows AWS App Runner to pull QuantIAN images from ECR'',
                  ''--output'', ''json'']))
        (seqC (do_cmd ct (lits [''aws'', ''iam'', ''attach-role-policy'', ''--role-name'', apprunner_role_name,
                  ''--policy-arn'', apprunner_policy_arn]))
          (wait_seconds 8))))
        (retC role_arn)))"

definition ensure_ecr_repository :: "'x tools \<Rightarrow> json \<Rightarrow> json \<Rightarrow> ('x cloud, json) cmd" where
  "ensure_ecr_repository ct region repository_name =
     bindC (run_with ct False (lits [''aws'', ''ecr'', ''describe-repositories'', ''--region''] @ [Inr region] @
              lits [''--repository-names''] @ [Inr repository_name] @ lits [''--output'', ''json''])) (\<lambda>describe.
       if cp_returncode describe = 0 then
         liftR (bindR (parse_json_output (cp_stdout describe)) (\<lambda>payload.
                bindR (json_item payload ''repositories'') (\<lambda>repos.
                bindR (json_first repos) (\<lambda>r. json_item r ''repositoryUri''))))
       else
         bindC (run_json ct (lits [''aws'', ''ecr'', ''create-repository'', ''--region''] @ [Inr region] @
                  lits [''--repository-name''] @ [Inr repository_name] @
                  lits [''--image-scanning-configuration'', ''scanOnPush=true'', ''--output'', ''json'']))
           (\<lambda>create. liftR (bindR (json_item create ''repository'') (\<lambda>r. json_item r ''repositoryUri''))))"

definition docker_login_ecr :: "'x tools \<Rightarrow> argument \<Rightarrow> argument \<Rightarrow> ('x cloud, unit) cmd" where
  "docker_login_ecr ct region registry_host =
     bindC (output_value ct (lits [''aws'', ''ecr'', ''get-login-password'', ''--region''] @ [region])) (\<lambda>password.
     bindC (liftR (arguments (lits [''docker'', ''login'', ''--username'', ''AWS'', ''--password-stdin''] @ [registry_host])))
       (\<lambda>command. bindC (exec_command ct (Some password) command) (\<lambda>c.
          if cp_returncode c \<noteq> 0 then failC (SystemExit (show_int (cp_returncode c))) else retC ())))"

definition load_apprunner_service :: "'x tools \<Rightarrow> argument \<Rightarrow> argument \<Rightarrow> ('x cloud, json) cmd" where
  "load_apprunner_service ct service_arn region =
     query_json ct (lits [''aws'', ''apprunner'', ''describe-service'', ''--region''] @ [region] @
       lits [''--service-arn''] @ [service_arn] @ lits [''--output'', ''json''])"

text \<open>The entry with the given name; comparing a name of another type is just unequal.\<close>

fun find_service :: "json \<Rightarrow> json list \<Rightarrow> json result" where
  "find_service service_name [] = Inr JNull"
| "find_service service_name (entry # rest) =
     bindR (json_get entry ''ServiceName'' JNull) (\<lambda>n.
       if n = service_name then Inr entry else find_service service_name rest)"

definition find_apprunner_service :: "'x tools \<Rightarrow> json \<Rightarrow> argument \<Rightarrow> ('x cloud, json) cmd" where
  "find_apprunner_service ct service_name region =
     bindC (run_json ct (lits [''aws'', ''apprunner'', ''list-services'', ''--region''] @ [region] @
              lits [''--output'', ''json'']))
       (\<lambda>payload. liftR (bindR (json_get payload ''ServiceSummaryList'' (JList [])) (\<lambda>l.
          bindR (json_iter l) (find_service service_name))))"

definition load_cloudrun_service :: "'x tools \<Rightarrow> argument \<Rightarrow> argument \<Rightarrow> argument \<Rightarrow> ('x cloud, json) cmd" where
  "load_cloudrun_service ct project region service_name =
     query_json ct (lits [''gcloud'', ''run'', ''services'', ''describe''] @ [service_name] @ lits [''--project''] @ [project] @
       lits [''--region''] @ [region] @ lits [''--platform'', ''managed'', ''--format'', ''json''])"

definition extract_cloudrun_url :: "json \<Rightarrow> json result" where
  "extract_cloudrun_url payload =
     bindR (json_get payload ''status'' (JObj [])) (\<lambda>status_block.
     bindR (json_get status_block ''url'' JNull) (\<lambda>u.
       if jtruth u then Inr u else json_get payload ''url'' JNull))"

section \<open>Environments\<close>

type_synonym endpoints = "(string, json) dict"

definition endpoint_or :: "endpoints \<Rightarrow> string \<Rightarrow> json \<Rightarrow> json" where
  "endpoint_or e k dflt = dict_get e k dflt"

definition endpoint :: "endpoints \<Rightarrow> string \<Rightarrow> json result" where
  "endpoint e k = (case map_of e k of None \<Rightarrow> Inl (KeyError k) | Some v \<Rightarrow> Inr v)"

definition apprunner_env_pairs :: "string \<Rightarrow> endpoints \<Rightarrow> json \<Rightarrow> json \<Rightarrow> (string, json) dict" where
  "apprunner_env_pairs kind e base_url port =
     (let registry_default = (if kind = ''registry'' then base_url else JStr '''');
          common = [
            (''APP_ENV'', JStr ''cloud''),
            (''SERVICE_HOST'', JStr ''0.0.0.0''),
            (''SERVICE_PORT'', JStr (py_str port)),
            (''ENABLE_SERVICE_RUNTIME'', JStr ''true''),
            (''REQUEST_TIMEOUT_SECONDS'', JStr ''8''),
            (''HEARTBEAT_INTERVAL_SECONDS'', JStr ''20''),
            (''QUANTIAN_DATA_DIR'', JStr ''/tmp/quantian-data''),
            (''STORAGE_BACKEND'', JStr ''memory''),
            (''BASE_URL'', base_url),
            (''REGISTRY_URL'', endpoint_or e ''REGISTRY_URL'' registry_default),
            (''LEDGER_URL'', endpoint_or e ''REGISTRY_URL'' registry_default)]
      in common @
         (if kind = ''registry'' then [(''LEDGER_VERIFY_INTERVAL_SECONDS'', JStr ''60'')] else []) @
         (if kind = ''ingestion'' then
            [(''AWS_INGESTION_BASE_URL'', base_url),
             (''AWS_INGESTION_URL'', base_url),
             (''AZURE_ANOMALY_URL'', endpoint_or e ''ANOMALY_URL'' (JStr '''')),
             (''GCP_RISK_URL'', endpoint_or e ''RISK_URL'' (JStr ''''))] else []))"

definition gcp_cloudrun_env_pairs :: "endpoints \<Rightarrow> json \<Rightarrow> (string, json) dict result" where
  "gcp_cloudrun_env_pairs e base_url =
     bindR (endpoint e ''REGISTRY_URL'') (\<lambda>registry.
     bindR (endpoint e ''INGESTION_URL'') (\<lambda>ingestion.
       Inr [(''APP_ENV'', JStr ''cloud''),
            (''SERVICE_HOST'', JStr ''0.0.0.0''),
            (''SERVICE_PORT'', JStr (show_int gcp_cloudrun_port)),
            (''ENABLE_SERVICE_RUNTIME'', JStr ''true''),
            (''REQUEST_TIMEOUT_SECONDS'', JStr ''8''),
            (''HEARTBEAT_INTERVAL_SECONDS'', JStr ''20''),
            (''QUANTIAN_DATA_DIR'', JStr ''/tmp/quantian-data''),
            (''STORAGE_BACKEND'', JStr ''memory''),
            (''BASE_URL'', base_url),
            (''GCP_RISK_BASE_URL'', base_url),
            (''GCP_RISK_URL'', base_url),
            (''REGISTRY_URL'', registry),
            (''LEDGER_URL'', registry),
            (''AWS_INGESTION_URL'', ingestion),
            (''AZURE_ANOMALY_URL'', endpoint_or e ''ANOMALY_URL'' (JStr ''''))]))"

text \<open>\<open>"@" in value\<close>: a substring of a string, a member of a list, a key of an object.\<close>

definition contains_at :: "json \<Rightarrow> bool result" where
  "contains_at v = (case v of
     JStr s \<Rightarrow> Inr (CHR ''@'' \<in> set s)
   | JList xs \<Rightarrow> Inr (JStr ''@'' \<in> set xs)
   | JObj d \<Rightarrow> Inr (''@'' \<in> set (dict_keys d))
   | _ \<Rightarrow> Inl (TypeError ''argument is not iterable''))"

fun env_parts :: "(string, json) dict \<Rightarrow> string list result" where
  "env_parts [] = Inr []"
| "env_parts ((key, v) # rest) =
     bindR (contains_at v) (\<lambda>b.
       if b then Inl (SystemExit (''Cloud Run env var '' @ key @ '' cannot contain '' @ [CHR 39] @ ''@'' @ [CHR 39] @
                        '' (used as our delimiter)''))
       else bindR (env_parts rest) (\<lambda>ps. Inr ((key @ ''='' @ py_str v) # ps)))"

definition encode_cloudrun_env_vars :: "(string, json) dict \<Rightarrow> string result" where
  "encode_cloudrun_env_vars env_pairs = bindR (env_parts env_pairs) (\<lambda>parts. Inr (''^@^'' @ join ''@'' parts))"

definition azure_container_env_vars :: "json \<Rightarrow> endpoints \<Rightarrow> json \<Rightarrow> string list result" where
  "azure_container_env_vars azure e base_url =
     bindR (endpoint e ''REGISTRY_URL'') (\<lambda>registry.
     bindR (endpoint e ''INGESTION_URL'') (\<lambda>ingestion.
     bindR (endpoint e ''RISK_URL'') (\<lambda>risk.
     bindR (json_item azure ''storage_container'') (\<lambda>container.
       Inr [''APP_ENV=cloud'',
            ''SERVICE_HOST=0.0.0.0'',
            ''SERVICE_PORT='' @ show_int azure_containerapp_port,
            ''ENABLE_SERVICE_RUNTIME=true'',
            ''REQUEST_TIMEOUT_SECONDS=8'',
            ''HEARTBEAT_INTERVAL_SECONDS=20'',
            ''QUANTIAN_DATA_DIR=/tmp/quantian-data'',
            ''STORAGE_BACKEND=azure_blob'',
            ''BASE_URL='' @ py_str base_url,
            ''AZURE_ANOMALY_BASE_URL='' @ py_str base_url,
            ''AZURE_ANOMALY_URL='' @ py_str base_url,
            ''REGISTRY_URL='' @ py_str registry,
            ''LEDGER_URL='' @ py_str registry,
            ''AWS_INGESTION_URL='' @ py_str ingestion,
            ''GCP_RISK_URL='' @ py_str risk,
            ''AZURE_ANOMALY_STORAGE_CONNECTION_STRING=secretref:'' @ azure_containerapp_secret_name,
            ''AZURE_ANOMALY_STORAGE_CONTAINER='' @ py_str container,
            ''AZURE_ANOMALY_STATE_BLOB_NAME=azure-anomaly/state.json'']))))"

end
