(* ===== verification/CloudProvision.thy ===== *)
theory CloudProvision
  imports CloudParts
begin

text \<open>
  The provisioning functions of \<open>scripts/cloud_deploy.py\<close>: each reuses or creates the resources
  of one provider and writes its manifest. Azure's is cut into the steps its comments and
  blank lines mark.
\<close>

definition lit :: "string \<Rightarrow> argument" where
  "lit s = Inr (JStr s)"

text \<open>The manifest of an earlier run counts when it is of the right kind and not replaced.\<close>

definition reusable :: "string \<Rightarrow> bool \<Rightarrow> json \<Rightarrow> json result" where
  "reusable kind replace existing =
     bindR (json_get existing ''type'' JNull) (\<lambda>t.
       Inr (if t = JStr kind \<and> \<not> replace then existing else JObj []))"

definition pick :: "string option \<Rightarrow> json \<Rightarrow> string list \<Rightarrow> string \<Rightarrow> json result" where
  "pick arg existing keys dflt =
     (case arg of
        Some (c # s) \<Rightarrow> Inr (JStr (c # s))
      | _ \<Rightarrow> bindR (get_chain existing keys) (\<lambda>v. Inr (jor v (JStr dflt))))"

section \<open>AWS\<close>

definition opt_json :: "string option \<Rightarrow> json" where
  "opt_json s = (case s of None \<Rightarrow> JNull | Some t \<Rightarrow> JStr t)"

definition aws_account :: "'x tools \<Rightarrow> cloud_args \<Rightarrow> json \<Rightarrow> ('x cloud, json) cmd" where
  "aws_account ct args existing =
     bindC (if jtruth (opt_json (ca_aws_account_id args)) then retC (opt_json (ca_aws_account_id args))
            else bindC (liftR (json_get existing ''account_id'' JNull)) (\<lambda>v.
              if jtruth v then retC v
              else bindC (output_value ct (lits [''aws'', ''sts'', ''get-caller-identity'', ''--query'', ''Account'',
                           ''--output'', ''text''])) (\<lambda>s. retC (JStr s))))
       (\<lambda>account_id. if jtruth account_id then retC account_id
          else failC (SystemExit ''Unable to resolve AWS account ID; configure aws CLI credentials.''))"

definition service_block :: "json \<Rightarrow> string \<Rightarrow> cloud_args \<Rightarrow> json \<Rightarrow> json \<Rightarrow> json \<Rightarrow> int \<Rightarrow> json result" where
  "service_block existing kind args service_name repo_name repo_uri port =
     bindR (json_get existing kind (JObj [])) (\<lambda>old.
     bindR (json_get old ''cpu'' (JStr (ca_aws_cpu args))) (\<lambda>cpu.
     bindR (json_get old ''memory'' (JStr (ca_aws_memory args))) (\<lambda>memory.
     bindR (json_get old ''service_arn'' JNull) (\<lambda>service_arn.
     bindR (json_get old ''base_url'' JNull) (\<lambda>base_url.
     bindR (json_get old ''image_ref'' JNull) (\<lambda>image_ref.
     bindR (json_get old ''image_tag'' JNull) (\<lambda>image_tag.
       Inr (JObj [
         (''service_name'', service_name), (''ecr_repository'', repo_name), (''ecr_repository_uri'', repo_uri),
         (''port'', JInt port), (''cpu'', cpu), (''memory'', memory), (''service_arn'', service_arn),
         (''base_url'', base_url), (''image_ref'', image_ref), (''image_tag'', image_tag)]))))))))"

definition provision_aws :: "'x tools \<Rightarrow> cloud_args \<Rightarrow> ('x cloud, json) cmd" where
  "provision_aws ct args =
     bindC (load_manifest ct ''aws'') (\<lambda>m.
     bindC (liftR (reusable ''app_runner'' (ca_replace args) (jor m (JObj [])))) (\<lambda>existing.
     bindC (liftR (pick (Some (ca_aws_region args)) existing [''region''] ''us-east-1'')) (\<lambda>region.
     bindC (aws_account ct args existing) (\<lambda>account_id.
     let registry_host = JStr (py_str account_id @ ''.dkr.ecr.'' @ py_str region @ ''.amazonaws.com'') in
     bindC (ensure_apprunner_ecr_role ct account_id) (\<lambda>role_arn.
     bindC (liftR (pick (Some (ca_aws_registry_repo args)) existing [''registry'', ''ecr_repository''] ''quantian-registry''))
       (\<lambda>registry_repo.
     bindC (liftR (pick (Some (ca_aws_ingestion_repo args)) existing [''ingestion'', ''ecr_repository''] ''quantian-ingestion''))
       (\<lambda>ingestion_repo.
     bindC (ensure_ecr_repository ct region registry_repo) (\<lambda>registry_uri.
     bindC (ensure_ecr_repository ct region ingestion_repo) (\<lambda>ingestion_uri.
     bindC (liftR (pick (Some (ca_aws_registry_service_name args)) existing [''registry'', ''service_name''] ''quantian-aws-registry''))
       (\<lambda>registry_service.
     bindC (liftR (pick (Some (ca_aws_ingestion_service_name args)) existing [''ingestion'', ''service_name''] ''quantian-aws-ingestion''))
       (\<lambda>ingestion_service.
     bindC (liftR (service_block existing ''registry'' args registry_service registry_repo registry_uri apprunner_registry_port))
       (\<lambda>registry_block.
     bindC (liftR (service_block existing ''ingestion'' args ingestion_service ingestion_repo ingestion_uri apprunner_ingestion_port))
       (\<lambda>ingestion_block.
     save_manifest ct ''aws'' (JObj [
       (''type'', JStr ''app_runner''), (''account_id'', account_id), (''region'', region),
       (''registry_host'', registry_host), (''ecr_access_role_arn'', JStr role_arn),
       (''registry'', registry_block), (''ingestion'', ingestion_block)]))))))))))))))"

section \<open>Azure\<close>

definition rg_args :: "cloud_args \<Rightarrow> argument list" where
  "rg_args args = lits [''--resource-group'', ca_azure_resource_group args]"

definition azure_group :: "'x tools \<Rightarrow> cloud_args \<Rightarrow> ('x cloud, unit) cmd" where
  "azure_group ct args =
     bindC (run_cmd ct (lits [''az'', ''group'', ''exists'', ''--name'', ca_azure_resource_group args])) (\<lambda>c.
       if str_lower (strip (cp_stdout c)) \<noteq> ''true''
       then do_cmd ct (lits [''az'', ''group'', ''create'', ''--name'', ca_azure_resource_group args,
              ''--location'', ca_azure_location args, ''--output'', ''json''])
       else retC ())"

definition azure_environment :: "'x tools \<Rightarrow> cloud_args \<Rightarrow> json \<Rightarrow> ('x cloud, unit) cmd" where
  "azure_environment ct args environment_name =
     bindC (run_with ct False (lits [''az'', ''containerapp'', ''env'', ''show''] @ rg_args args @ lits [''--name''] @
              [Inr environment_name] @ lits [''--output'', ''json''])) (\<lambda>c.
       if cp_returncode c \<noteq> 0
       then do_cmd ct (lits [''az'', ''containerapp'', ''env'', ''create''] @ rg_args args @ lits [''--name''] @
              [Inr environment_name] @ lits [''--location'', ca_azure_location args,
              ''--logs-destination'', ''none'', ''--output'', ''json''])
       else retC ())"

definition azure_registry :: "'x tools \<Rightarrow> cloud_args \<Rightarrow> json \<Rightarrow> ('x cloud, unit) cmd" where
  "azure_registry ct args registry_name =
     bindC (run_with ct False (lits [''az'', ''acr'', ''show''] @ rg_args args @ lits [''--name''] @
              [Inr registry_name] @ lits [''--output'', ''json''])) (\<lambda>c.
       if cp_returncode c \<noteq> 0
       then do_cmd ct (lits [''az'', ''acr'', ''create''] @ rg_args args @ lits [''--name''] @ [Inr registry_name] @
              lits [''--location'', ca_azure_location args, ''--sku'', ''Basic'', ''--admin-enabled'', ''true'',
                ''--output'', ''json''])
       else do_cmd ct (lits [''az'', ''acr'', ''update''] @ rg_args args @ lits [''--name''] @ [Inr registry_name] @
              lits [''--admin-enabled'', ''true'', ''--output'', ''json'']))"

definition azure_storage :: "'x tools \<Rightarrow> cloud_args \<Rightarrow> json \<Rightarrow> ('x cloud, unit) cmd" where
  "azure_storage ct args storage_account =
     bindC (run_with ct False (lits [''az'', ''storage'', ''account'', ''show''] @ rg_args args @ lits [''--name''] @
              [Inr storage_account] @ lits [''--output'', ''json''])) (\<lambda>c.
     seqC (whenC (cp_returncode c \<noteq> 0)
       (do_cmd ct (lits [''az'', ''storage'', ''account'', ''create''] @ rg_args args @ lits [''--name''] @
          [Inr storage_account] @ lits [''--location'', ca_azure_location args, ''--sku'', ''Standard_LRS'',
          ''--kind'', ''StorageV2'', ''--allow-blob-public-access'', ''false'', ''--output'', ''json''])))
     (bindC (output_value ct (lits [''az'', ''storage'', ''account'', ''show-connection-string''] @ rg_args args @
              lits [''--name''] @ [Inr storage_account] @ lits [''--query'', ''connectionString'', ''--output'', ''tsv'']))
       (\<lambda>connection_string.
          ignoreC (soft_fail ct (lits [''az'', ''storage'', ''container'', ''create'', ''--connection-string'',
            connection_string, ''--name'', ca_azure_storage_container args, ''--output'', ''json''])
            [''ContainerAlreadyExists'']))))"

definition azure_login_server :: "'x tools \<Rightarrow> cloud_args \<Rightarrow> json \<Rightarrow> ('x cloud, string) cmd" where
  "azure_login_server ct args registry_name =
     output_value ct (lits [''az'', ''acr'', ''show''] @ rg_args args @ lits [''--name''] @ [Inr registry_name] @
       lits [''--query'', ''loginServer'', ''--output'', ''tsv''])"

definition https_or_null :: "json \<Rightarrow> json" where
  "https_or_null h = (if jtruth h then JStr (''https://'' @ py_str h) else JNull)"

definition azure_manifest ::
    "cloud_args \<Rightarrow> json \<Rightarrow> json \<Rightarrow> json \<Rightarrow> json \<Rightarrow> json \<Rightarrow> string \<Rightarrow> json \<Rightarrow> json \<Rightarrow> json result" where
  "azure_manifest args existing app_name environment_name image_repository registry_name registry_server
       storage_account default_hostname =
     bindR (json_get existing ''max_replicas'' (JInt (ca_azure_max_replicas args))) (\<lambda>max_replicas.
     bindR (json_get existing ''memory'' (JStr (ca_azure_memory args))) (\<lambda>memory.
     bindR (json_get existing ''min_replicas'' (JInt (ca_azure_min_replicas args))) (\<lambda>min_replicas.
     bindR (json_get existing ''cpu'' (JStr (ca_azure_cpu args))) (\<lambda>cpu.
       Inr (JObj [
         (''app_name'', app_name), (''base_url'', https_or_null default_hostname),
         (''default_hostname'', default_hostname), (''environment_name'', environment_name),
         (''image_repository'', image_repository), (''location'', JStr (ca_azure_location args)),
         (''max_replicas'', max_replicas), (''memory'', memory), (''min_replicas'', min_replicas),
         (''registry_name'', registry_name), (''registry_server'', JStr registry_server),
         (''resource_group'', JStr (ca_azure_resource_group args)), (''storage_account'', storage_account),
         (''storage_container'', JStr (ca_azure_storage_container args)), (''storage_type'', JStr ''azure_blob''),
         (''target_port'', JInt azure_containerapp_port), (''type'', JStr ''container_app''), (''cpu'', cpu)])))))"

definition provision_azure :: "'x tools \<Rightarrow> cloud_args \<Rightarrow> ('x cloud, json) cmd" where
  "provision_azure ct args =
     bindC (load_manifest ct ''azure'') (\<lambda>m.
     bindC (azure_suffix ct args) (\<lambda>suffix.
     bindC (liftR (if jtruth m then reusable ''container_app'' (ca_replace args) m else Inr (JObj []))) (\<lambda>existing.
     bindC (liftR (pick (ca_azure_app_name args) existing [''app_name''] ''quantian-azure-anomaly'')) (\<lambda>app_name.
     bindC (liftR (pick (ca_azure_environment_name args) existing [''environment_name''] ''quantian-azure-env'')) (\<lambda>environment_name.
     bindC (liftR (pick (Some (ca_azure_image_repository args)) existing [''image_repository''] ''quantian/azure-anomaly''))
       (\<lambda>image_repository.
     bindC (liftR (pick (ca_azure_registry_name args) existing [''registry_name''] (take 50 (''qtanacr'' @ suffix)))) (\<lambda>registry_name.
     bindC (liftR (pick (ca_azure_storage_account args) existing [''storage_account''] (take 24 (''qtanom'' @ suffix)))) (\<lambda>storage_account.
     seqC (azure_group ct args)
     (seqC (eachC (ensure_azure_provider ct) [''Microsoft.App'', ''Microsoft.ContainerRegistry'', ''Microsoft.Storage''])
     (seqC (azure_environment ct args environment_name)
     (seqC (azure_registry ct args registry_name)
     (seqC (azure_storage ct args storage_account)
     (bindC (azure_login_server ct args registry_name) (\<lambda>registry_server.
     bindC (load_containerapp ct (lit (ca_azure_resource_group args)) (Inr app_name)) (\<lambda>data.
     bindC (liftR (extract_containerapp_fqdn (jor data (JObj [])))) (\<lambda>default_hostname.
     bindC (liftR (azure_manifest args existing app_name environment_name image_repository registry_name registry_server
              storage_account default_hostname))
       (save_manifest ct ''azure'')))))))))))))))))"

section \<open>Google Cloud\<close>

definition gcp_project_of :: "'x tools \<Rightarrow> cloud_args \<Rightarrow> json \<Rightarrow> ('x cloud, json) cmd" where
  "gcp_project_of ct args existing =
     bindC (if jtruth (opt_json (ca_gcp_project args)) then retC (opt_json (ca_gcp_project args))
            else bindC (liftR (json_get existing ''project'' JNull)) (\<lambda>v.
              if jtruth v then retC v
              else bindC (output_value ct (lits [''gcloud'', ''config'', ''get-value'', ''project''])) (\<lambda>s. retC (JStr s))))
       (\<lambda>project. if jtruth project then retC project
          else failC (SystemExit ''Unable to resolve GCP project (set --gcp-project or gcloud config).''))"

definition enable_api :: "'x tools \<Rightarrow> json \<Rightarrow> string \<Rightarrow> ('x cloud, unit) cmd" where
  "enable_api ct project api =
     do_cmd ct (lits [''gcloud'', ''services'', ''enable'', api, ''--project''] @ [Inr project])"

definition gcp_artifacts :: "'x tools \<Rightarrow> json \<Rightarrow> json \<Rightarrow> json \<Rightarrow> ('x cloud, unit) cmd" where
  "gcp_artifacts ct project region repository =
     bindC (run_with ct False (lits [''gcloud'', ''artifacts'', ''repositories'', ''describe''] @ [Inr repository] @
              lits [''--project''] @ [Inr project] @ lits [''--location''] @ [Inr region] @ lits [''--format'', ''json''])) (\<lambda>c.
       if cp_returncode c \<noteq> 0
       then do_cmd ct (lits [''gcloud'', ''artifacts'', ''repositories'', ''create''] @ [Inr repository] @
              lits [''--project''] @ [Inr project] @ lits [''--location''] @ [Inr region] @
              lits [''--repository-format'', ''docker'', ''--description'', ''QuantIAN GCP Cloud Run images'',
                ''--format'', ''json''])
       else retC ())"

definition strip_https :: "json \<Rightarrow> json result" where
  "strip_https base_url =
     (if \<not> jtruth base_url then Inr JNull
      else case base_url of JStr s \<Rightarrow> Inr (JStr (remove_prefix ''https://'' s))
        | _ \<Rightarrow> Inl (AttributeError ''removeprefix''))"

definition provision_gcp :: "'x tools \<Rightarrow> cloud_args \<Rightarrow> ('x cloud, json) cmd" where
  "provision_gcp ct args =
     bindC (load_manifest ct ''gcp'') (\<lambda>m.
     bindC (liftR (reusable ''cloud_run'' (ca_replace args) (jor m (JObj [])))) (\<lambda>existing.
     bindC (gcp_project_of ct args existing) (\<lambda>project.
     bindC (liftR (pick (Some (ca_gcp_region args)) existing [''region''] ''us-central1'')) (\<lambda>region.
     bindC (liftR (pick (Some (ca_gcp_service_name args)) existing [''service_name''] ''quantian-gcp-risk'')) (\<lambda>service_name.
     bindC (liftR (pick (Some (ca_gcp_repository args)) existing [''repository''] ''quantian'')) (\<lambda>repository.
     bindC (liftR (pick (Some (ca_gcp_image_repository args)) existing [''image_repository''] ''gcp-risk'')) (\<lambda>image_repository.
     let registry_host = JStr (py_str region @ ''-docker.pkg.dev'') in
     seqC (eachC (enable_api ct project)
       [''run.googleapis.com'', ''artifactregistry.googleapis.com'', ''cloudbuild.googleapis.com''])
     (seqC (gcp_artifacts ct project region repository)
     (bindC (load_cloudrun_service ct (Inr project) (Inr region) (Inr service_name)) (\<lambda>data.
     bindC (liftR (extract_cloudrun_url (jor data (JObj [])))) (\<lambda>base_url.
     bindC (liftR (strip_https base_url)) (\<lambda>default_hostname.
     bindC (liftR (json_get existing ''cpu'' (JStr (ca_gcp_cpu args)))) (\<lambda>cpu.
     bindC (liftR (json_get existing ''memory'' (JStr (ca_gcp_memory args)))) (\<lambda>memory.
     bindC (liftR (json_get existing ''min_instances'' (JInt (ca_gcp_min_instances args)))) (\<lambda>min_instances.
     bindC (liftR (json_get existing ''max_instances'' (JInt (ca_gcp_max_instances args)))) (\<lambda>max_instances.
     save_manifest ct ''gcp'' (JObj [
       (''type'', JStr ''cloud_run''), (''project'', project), (''region'', region), (''service_name'', service_name),
       (''repository'', repository), (''image_repository'', image_repository), (''registry_host'', registry_host),
       (''base_url'', base_url), (''default_hostname'', default_hostname), (''target_port'', JInt gcp_cloudrun_port),
       (''cpu'', cpu), (''memory'', memory), (''min_instances'', min_instances),
       (''max_instances'', max_instances)])))))))))))))))))"

section \<open>The virtual machine path\<close>

definition ssh_target :: "json \<Rightarrow> string result" where
  "ssh_target manifest =
     bindR (json_get manifest ''ssh_user'' (JStr ''ubuntu'')) (\<lambda>user.
     bindR (json_item manifest ''public_ip'') (\<lambda>ip. Inr (py_str user @ ''@'' @ py_str ip)))"

definition upload_bundle :: "'x tools \<Rightarrow> json \<Rightarrow> ('x cloud, unit) cmd" where
  "upload_bundle ct manifest =
     bindC (liftR (ssh_target manifest)) (\<lambda>target.
       do_cmd ct (lits [''scp'', ''-o'', ''StrictHostKeyChecking=no'', ''-i'', ''/tmp/quantian_demo_key'',
         bundle_path ct, target @ '':/tmp/quantian-deploy.tar.gz'']))"

definition run_remote :: "'x tools \<Rightarrow> json \<Rightarrow> string \<Rightarrow> ('x cloud, unit) cmd" where
  "run_remote ct manifest command =
     bindC (liftR (ssh_target manifest)) (\<lambda>target.
       do_cmd ct (lits [''ssh'', ''-o'', ''StrictHostKeyChecking=no'', ''-i'', ''/tmp/quantian_demo_key'', target, command]))"

text \<open>\<open>shlex.quote\<close>: quoted unless every character is a word character or one of a few signs.\<close>

definition shell_safe :: "char \<Rightarrow> bool" where
  "shell_safe c \<longleftrightarrow> (let n = (of_char c :: nat) in
     48 \<le> n \<and> n \<le> 57 \<or> 65 \<le> n \<and> n \<le> 90 \<or> 97 \<le> n \<and> n \<le> 122) \<or> c \<in> set ''_@%+=:,./-''"

definition shlex_quote :: "string \<Rightarrow> string" where
  "shlex_quote s =
     (if s = [] then [CHR 39, CHR 39]
      else if list_all shell_safe s then s
      else CHR 39 # concat (map (\<lambda>c. if c = CHR 39 then [CHR 39, CHR 34, CHR 39, CHR 34, CHR 39] else [c]) s) @ [CHR 39])"

definition remote_bootstrap_command :: "string \<Rightarrow> (string, string) dict \<Rightarrow> string" where
  "remote_bootstrap_command role e =
     ''set -euo pipefail; '' @
     ''sudo mkdir -p /opt/quantian; '' @
     ''sudo chown $(id -un):$(id -gn) /opt/quantian; '' @
     ''tar -xzf /tmp/quantian-deploy.tar.gz -C /opt/quantian; '' @
     ''cd /opt/quantian; '' @
     join '' '' (map (\<lambda>(k, v). k @ ''='' @ shlex_quote v) e) @
     '' bash infra/vm/bootstrap_quantian_host.sh '' @ shlex_quote role"

end
