(* ===== verification/CloudDeploy.thy ===== *)
theory CloudDeploy
  imports CloudProvision FloatEval
begin

text \<open>
  The upper half of \<open>scripts/cloud_deploy.py\<close>: building images, deploying the services with their
  final address fed back into their environment, waiting for them, the whole bootstrap in
  dependency order, the status report and the command dispatch.
\<close>

section \<open>No step moves the clock back\<close>

definition forward :: "('x cloud, 'a) cmd \<Rightarrow> bool" where
  "forward m \<longleftrightarrow> (\<forall>w. cd_now w \<le> cd_now (snd (m w)))"

named_theorems forward_intros \<open>steps that do not move the clock back\<close>

lemma forward_basic [forward_intros]: "forward (retC x)" "forward (failC e)" "forward (liftR r)"
  by (simp_all add: forward_def)

lemma forward_bind [forward_intros]: "forward m \<Longrightarrow> (\<And>x. forward (f x)) \<Longrightarrow> forward (bindC m f)"
  unfolding forward_def
proof (intro allI)
  fix w
  assume m: "\<forall>w. cd_now w \<le> cd_now (snd (m w))" and f: "\<And>x. \<forall>w. cd_now w \<le> cd_now (snd (f x w))"
  show "cd_now w \<le> cd_now (snd (bindC m f w))"
  proof (cases "m w")
    case (Pair r w1)
    then show ?thesis using m [rule_format, of w] f [rule_format, of w1] by (cases r) (auto intro: order_trans)
  qed
qed

lemma forward_seq [forward_intros]: "forward m \<Longrightarrow> forward n \<Longrightarrow> forward (seqC m n)"
  unfolding seqC_def by (rule forward_bind)

lemma forward_exec [forward_intros]: "forward (exec_command ct stdin command)"
  by (simp add: forward_def exec_command_def split: prod.split)

lemma forward_wait [forward_intros]: "forward (wait_seconds n)"
  by (simp add: forward_def wait_seconds_def)

lemma forward_prepare [forward_intros]: "forward (prepare_azure ct command)"
  by (simp add: forward_def prepare_azure_def copy_tree_def make_dirs_def split: list.split)

lemma forward_run [forward_intros]: "forward (run_with ct check as)"
  unfolding run_with_def run_strings_def by (intro forward_intros) (simp add: forward_basic)

lemma forward_query [forward_intros]: "forward (query_json ct as)"
  unfolding query_json_def by (intro forward_intros) (simp add: forward_basic)

section \<open>Waiting\<close>

text \<open>
  An instant past which the wall clock is not below the deadline; the loops below end
  because every turn sleeps.
\<close>

definition horizon :: "pyfloat \<Rightarrow> int" where
  "horizon deadline = unix_epoch + \<lceil>1000000 * (case deadline of Fin d \<Rightarrow> d | _ \<Rightarrow> overflow_bound)\<rceil>"

lemma below_horizon:
  assumes "flt (wall_time w) deadline" "is_double deadline"
  shows "cd_now w < horizon deadline"
proof -
  let ?t = "of_int (cd_now w - unix_epoch) / 1000000 :: real"
  have ob: "rnd overflow_bound = overflow_bound"
  proof (rule rnd_exact_units [of 1 _ "1024 + 1074"])
    show "\<bar>overflow_bound\<bar> * subnormal_scale = of_nat 1 * 2 ^ (1024 + 1074)"
      unfolding subnormal_scale_def power_add overflow_bound_def by simp
  qed simp
  have lt: "?t < (case deadline of Fin d \<Rightarrow> d | _ \<Rightarrow> overflow_bound)"
  proof (rule ccontr)
    assume "\<not> ?thesis"
    then have ge: "(case deadline of Fin d \<Rightarrow> d | _ \<Rightarrow> overflow_bound) \<le> ?t" by simp
    show False
    proof (cases deadline)
      case (Fin d)
      then have "rnd d = d" using assms(2) by (simp add: is_double_def)
      then have "d \<le> rnd ?t" using ge Fin rnd_mono [of d ?t] by simp
      then show False
        using assms(1) Fin assms(2) unfolding wall_time_def fl_def Let_def is_double_def
        by (auto split: if_splits)
    next
      case PInf
      then have "overflow_bound \<le> rnd ?t" using ge rnd_mono [of overflow_bound ?t] ob by simp
      then show False using assms(1) PInf by (simp add: wall_time_def fl_def Let_def)
    next
      case NInf
      then show False using assms(1) by (cases "wall_time w") simp_all
    next
      case NaN
      then show False using assms(1) by simp
    qed
  qed
  then have "of_int (cd_now w - unix_epoch) < 1000000 * (case deadline of Fin d \<Rightarrow> d | _ \<Rightarrow> overflow_bound)"
    by simp
  then have "cd_now w - unix_epoch < \<lceil>1000000 * (case deadline of Fin d \<Rightarrow> d | _ \<Rightarrow> overflow_bound)\<rceil>"
    by (simp add: less_ceiling_iff)
  then show ?thesis by (simp add: horizon_def)
qed

definition deadline_after :: "real \<Rightarrow> 'x cloud \<Rightarrow> pyfloat" where
  "deadline_after timeout w = fadd (wall_time w) (fl timeout)"

lemma deadline_double [simp]: "is_double (deadline_after timeout w)"
  by (simp add: deadline_after_def)

text \<open>A deadline is a double; one that is not would never be compared with by the program.\<close>

definition before :: "'x cloud \<Rightarrow> pyfloat \<Rightarrow> bool" where
  "before w deadline \<longleftrightarrow> is_double deadline \<and> flt (wall_time w) deadline"

definition time_left :: "pyfloat \<Rightarrow> 'x cloud \<Rightarrow> nat" where
  "time_left deadline w = nat (horizon deadline - cd_now w)"

lemma time_left_less:
  assumes "before w deadline" "cd_now w < cd_now w1"
  shows "time_left deadline w1 < time_left deadline w"
  using below_horizon [of w deadline] assms by (simp add: before_def time_left_def)

definition after_wait :: "nat \<Rightarrow> 'x cloud \<Rightarrow> 'x cloud" where
  "after_wait n w = snd (wait_seconds n w)"

lemma after_wait_now [simp]: "cd_now (after_wait n w) = cd_now w + 1000000 * int n"
  by (simp add: after_wait_def wait_seconds_def)

definition failed_states :: "string list" where
  "failed_states = [''CREATE_FAILED'', ''DELETE_FAILED'', ''PAUSED'']"

text \<open>Membership in a set of strings hashes the value: a list or an object cannot be hashed.\<close>

definition in_strings :: "json \<Rightarrow> string list \<Rightarrow> bool result" where
  "in_strings v ss = (case v of
     JStr s \<Rightarrow> Inr (s \<in> set ss)
   | JList xs \<Rightarrow> Inl (TypeError ''unhashable type'')
   | JObj d \<Rightarrow> Inl (TypeError ''unhashable type'')
   | _ \<Rightarrow> Inr False)"

definition timed_out :: "json \<Rightarrow> json \<Rightarrow> py_exc result" where
  "timed_out service_arn last_payload =
     bindR (get_chain last_payload [''Service'', ''Status'']) (\<lambda>st.
       Inr (SystemExit (''Timed out waiting for App Runner service '' @ py_str service_arn @
         '' to become RUNNING; last status was '' @ py_str st)))"

text \<open>What one answer of \<open>describe-service\<close> decides: an exception, the service is up, or go on.\<close>

definition inspect_service :: "json \<Rightarrow> bool result" where
  "inspect_service payload =
     bindR (get_chain payload [''Service'', ''Status'']) (\<lambda>st.
       if st = JStr ''RUNNING'' then Inr True
       else bindR (in_strings st failed_states) (\<lambda>failed.
         if failed then Inl (SystemExit (''App Runner service entered terminal state: '' @ py_str st)) else Inr False))"

function wait_running ::
    "'x tools \<Rightarrow> json \<Rightarrow> json \<Rightarrow> pyfloat \<Rightarrow> json \<Rightarrow> 'x cloud \<Rightarrow> ('x cloud, json) outcome" where
  "wait_running ct service_arn region deadline last_payload w =
     (if before w deadline then
        (case load_apprunner_service ct (Inr service_arn) (Inr region) w of
           (Inl e, w1) \<Rightarrow> (Inl e, w1)
         | (Inr payload, w1) \<Rightarrow>
             (if jtruth payload then
                (case inspect_service payload of
                   Inl e \<Rightarrow> (Inl e, w1)
                 | Inr up \<Rightarrow> if up then (Inr payload, w1)
                     else wait_running ct service_arn region deadline payload (after_wait 8 w1))
              else wait_running ct service_arn region deadline last_payload (after_wait 8 w1)))
      else (bindR (timed_out service_arn last_payload) Inl, w))"
  by pat_completeness auto

lemma load_service_forward:
  "load_apprunner_service ct a b w = (r, w1) \<Longrightarrow> cd_now w \<le> cd_now w1"
  using forward_query unfolding forward_def load_apprunner_service_def by (metis snd_conv)

termination wait_running
proof (relation "measure (\<lambda>(ct, a, b, deadline, l, w). time_left deadline w)")
qed (auto dest!: load_service_forward [OF sym] intro!: time_left_less)

declare wait_running.simps [simp del]

definition wait_for_apprunner_running :: "'x tools \<Rightarrow> json \<Rightarrow> json \<Rightarrow> ('x cloud, json) cmd" where
  "wait_for_apprunner_running ct service_arn region w =
     wait_running ct service_arn region (deadline_after 600 w) (JObj []) w"

function poll_http :: "'x tools \<Rightarrow> string \<Rightarrow> pyfloat \<Rightarrow> 'x cloud \<Rightarrow> ('x cloud, bool) outcome" where
  "poll_http ct url deadline w =
     (if before w deadline then
        (case exec_command ct None [''curl'', ''-fsSL'', ''--max-time'', ''5'', url] w of
           (Inl e, w1) \<Rightarrow> (Inl e, w1)
         | (Inr c, w1) \<Rightarrow>
             if cp_returncode c = 0 then (Inr True, w1) else poll_http ct url deadline (after_wait 3 w1))
      else (Inr False, w))"
  by pat_completeness auto

lemma exec_forward: "exec_command ct i c w = (r, w1) \<Longrightarrow> cd_now w \<le> cd_now w1"
  using forward_exec unfolding forward_def by (metis snd_conv)

termination poll_http
proof (relation "measure (\<lambda>(ct, url, deadline, w). time_left deadline w)")
qed (auto dest!: exec_forward [OF sym] intro!: time_left_less)

declare poll_http.simps [simp del]

definition wait_for_http :: "'x tools \<Rightarrow> string \<Rightarrow> real \<Rightarrow> ('x cloud, bool) cmd" where
  "wait_for_http ct url timeout w = poll_http ct url (deadline_after timeout w) w"

section \<open>Images\<close>

definition image_tag_of :: "string option \<Rightarrow> ('x cloud, string) cmd" where
  "image_tag_of deploy_id = (case deploy_id of
     Some (c # s) \<Rightarrow> retC (c # s) | _ \<Rightarrow> utc_deploy_id)"

definition build_azure_container_image :: "'x tools \<Rightarrow> json \<Rightarrow> string option \<Rightarrow> ('x cloud, string \<times> string) cmd" where
  "build_azure_container_image ct azure deploy_id =
     bindC (package_azure_containerapp_context ct) (\<lambda>dir.
     bindC (image_tag_of deploy_id) (\<lambda>tag.
     seqC (do_cmd ct (lits [''az'', ''acr'', ''build'', ''--resource-group''] @ [json_item azure ''resource_group''] @
        lits [''--registry''] @ [json_item azure ''registry_name''] @ lits [''--image''] @
        [bindR (json_item azure ''image_repository'') (\<lambda>r. Inr (JStr (py_str r @ '':'' @ tag)))] @
        lits [''--file'', dir @ ''/Dockerfile'', dir]))
     (liftR (bindR (json_item azure ''registry_server'') (\<lambda>server.
             bindR (json_item azure ''image_repository'') (\<lambda>repo.
               Inr (py_str server @ ''/'' @ py_str repo @ '':'' @ tag, tag)))))))"

definition build_gcp_container_image :: "'x tools \<Rightarrow> json \<Rightarrow> string option \<Rightarrow> ('x cloud, string \<times> string) cmd" where
  "build_gcp_container_image ct gcp deploy_id =
     bindC (package_gcp_cloudrun_context ct) (\<lambda>dir.
     bindC (image_tag_of deploy_id) (\<lambda>tag.
     bindC (liftR (bindR (json_item gcp ''registry_host'') (\<lambda>host.
                   bindR (json_item gcp ''project'') (\<lambda>project.
                   bindR (json_item gcp ''repository'') (\<lambda>repository.
                   bindR (json_item gcp ''image_repository'') (\<lambda>image.
                     Inr (py_str host @ ''/'' @ py_str project @ ''/'' @ py_str repository @ ''/'' @ py_str image @ '':'' @ tag))))))) (\<lambda>image_ref.
     seqC (do_cmd ct (lits [''gcloud'', ''builds'', ''submit'', dir, ''--project''] @ [json_item gcp ''project''] @
        lits [''--tag'', image_ref]))
     (retC (image_ref, tag)))))"

definition build_aws_container_image ::
    "'x tools \<Rightarrow> json \<Rightarrow> string \<Rightarrow> string option \<Rightarrow> ('x cloud, string \<times> string) cmd" where
  "build_aws_container_image ct aws kind deploy_id =
     bindC (if kind = ''registry'' then package_apprunner_registry_context ct
            else if kind = ''ingestion'' then package_apprunner_ingestion_context ct
            else failC (SystemExit (''Unknown AWS App Runner kind: '' @ kind))) (\<lambda>dir.
     bindC (liftR (bindR (json_item aws kind) (\<lambda>b. json_item b ''ecr_repository_uri''))) (\<lambda>repo_uri.
     bindC (image_tag_of deploy_id) (\<lambda>tag.
     let image_ref = py_str repo_uri @ '':'' @ tag in
     bindC (liftR (json_item aws ''region'')) (\<lambda>region.
     bindC (liftR (json_item aws ''registry_host'')) (\<lambda>host.
     seqC (docker_login_ecr ct (Inr region) (Inr host))
     (seqC (do_cmd ct (lits [''docker'', ''build'', ''--platform'', ''linux/amd64'', ''-t'', image_ref, dir]))
     (seqC (do_cmd ct (lits [''docker'', ''push'', image_ref]))
     (retC (image_ref, tag)))))))))"

section \<open>Azure Container Apps\<close>

definition bootstrap_url :: json where
  "bootstrap_url = JStr ''https://bootstrap.invalid''"

definition azure_create :: "'x tools \<Rightarrow> json \<Rightarrow> string \<Rightarrow> string \<Rightarrow> json \<Rightarrow> json \<Rightarrow> string list \<Rightarrow> ('x cloud, unit) cmd" where
  "azure_create ct azure connection_string image_ref username password env_vars =
     do_cmd ct (lits [''az'', ''containerapp'', ''create'', ''--resource-group''] @ [json_item azure ''resource_group''] @
       lits [''--name''] @ [json_item azure ''app_name''] @
       lits [''--environment''] @ [json_item azure ''environment_name''] @
       lits [''--image'', image_ref, ''--registry-server''] @ [json_item azure ''registry_server''] @
       lits [''--registry-username''] @ [Inr username] @ lits [''--registry-password''] @ [Inr password] @
       lits [''--ingress'', ''external'', ''--target-port''] @ [str_item azure ''target_port''] @
       lits [''--cpu''] @ [str_item azure ''cpu''] @ lits [''--memory''] @ [json_item azure ''memory''] @
       lits [''--min-replicas''] @ [str_item azure ''min_replicas''] @
       lits [''--max-replicas''] @ [str_item azure ''max_replicas''] @
       lits [''--revisions-mode'', ''single'', ''--secrets'', azure_containerapp_secret_name @ ''='' @ connection_string,
         ''--env-vars''] @ lits env_vars @ lits [''--output'', ''json''])"

definition azure_update :: "'x tools \<Rightarrow> json \<Rightarrow> string \<Rightarrow> string \<Rightarrow> string list \<Rightarrow> ('x cloud, unit) cmd" where
  "azure_update ct azure connection_string image_ref env_vars =
     seqC (do_cmd ct (lits [''az'', ''containerapp'', ''secret'', ''set'', ''--resource-group''] @
       [json_item azure ''resource_group''] @ lits [''--name''] @ [json_item azure ''app_name''] @
       lits [''--secrets'', azure_containerapp_secret_name @ ''='' @ connection_string, ''--output'', ''json'']))
     (do_cmd ct (lits [''az'', ''containerapp'', ''update'', ''--resource-group''] @ [json_item azure ''resource_group''] @
       lits [''--name''] @ [json_item azure ''app_name''] @ lits [''--image'', image_ref] @
       lits [''--cpu''] @ [str_item azure ''cpu''] @ lits [''--memory''] @ [json_item azure ''memory''] @
       lits [''--min-replicas''] @ [str_item azure ''min_replicas''] @
       lits [''--max-replicas''] @ [str_item azure ''max_replicas''] @
       lits [''--replace-env-vars''] @ lits env_vars @ lits [''--output'', ''json'']))"

definition azure_app_data :: "'x tools \<Rightarrow> json \<Rightarrow> ('x cloud, json) cmd" where
  "azure_app_data ct azure =
     bindC (liftR (json_item azure ''resource_group'')) (\<lambda>rg.
     bindC (liftR (json_item azure ''app_name'')) (\<lambda>name. load_containerapp ct (Inr rg) (Inr name)))"

definition azure_set_base_url :: "'x tools \<Rightarrow> json \<Rightarrow> endpoints \<Rightarrow> json \<Rightarrow> ('x cloud, unit) cmd" where
  "azure_set_base_url ct azure e base_url =
     bindC (liftR (json_item azure ''resource_group'')) (\<lambda>rg.
     bindC (liftR (json_item azure ''app_name'')) (\<lambda>name.
     bindC (liftR (azure_container_env_vars azure e base_url)) (\<lambda>env_vars.
       do_cmd ct (lits [''az'', ''containerapp'', ''update'', ''--resource-group''] @ [Inr rg] @ lits [''--name''] @ [Inr name] @
         lits [''--replace-env-vars''] @ lits env_vars @ lits [''--output'', ''json'']))))"

text \<open>The answer of the last step, kept, and the values that deploying Azure computes before it.\<close>

definition azure_connection_string :: "'x tools \<Rightarrow> json \<Rightarrow> ('x cloud, string) cmd" where
  "azure_connection_string ct azure =
     output_value ct (lits [''az'', ''storage'', ''account'', ''show-connection-string'', ''--resource-group''] @
       [json_item azure ''resource_group''] @ lits [''--name''] @ [json_item azure ''storage_account''] @
       lits [''--query'', ''connectionString'', ''--output'', ''tsv''])"

definition azure_credentials :: "'x tools \<Rightarrow> json \<Rightarrow> ('x cloud, json \<times> json) cmd" where
  "azure_credentials ct azure =
     bindC (run_json ct (lits [''az'', ''acr'', ''credential'', ''show'', ''--resource-group''] @
              [json_item azure ''resource_group''] @ lits [''--name''] @ [json_item azure ''registry_name''] @
              lits [''--output'', ''json''])) (\<lambda>credentials.
     liftR (bindR (json_item credentials ''username'') (\<lambda>username.
            bindR (json_item credentials ''passwords'') (\<lambda>passwords.
            bindR (json_first passwords) (\<lambda>p.
            bindR (json_item p ''value'') (\<lambda>password. Inr (username, password)))))))"

definition deploy_azure_container_app :: "'x tools \<Rightarrow> json \<Rightarrow> endpoints \<Rightarrow> ('x cloud, json) cmd" where
  "deploy_azure_container_app ct azure e =
     seqC (ensure_azure_provider ct ''Microsoft.App'')
     (bindC (azure_connection_string ct azure) (\<lambda>connection_string.
      bindC (azure_credentials ct azure) (\<lambda>(username, password).
      bindC (build_azure_container_image ct azure None) (\<lambda>(image_ref, tag).
      bindC (azure_app_data ct azure) (\<lambda>current_app.
      bindC (liftR (json_get azure ''base_url'' JNull)) (\<lambda>known.
      let provisional = jor known bootstrap_url in
      bindC (liftR (azure_container_env_vars azure e provisional)) (\<lambda>env_vars.
      seqC (if current_app = JNull
            then azure_create ct azure connection_string image_ref username password env_vars
            else azure_update ct azure connection_string image_ref env_vars)
      (bindC (azure_app_data ct azure) (\<lambda>data.
       bindC (liftR (extract_containerapp_fqdn (jor data (JObj [])))) (\<lambda>fqdn.
       if \<not> jtruth fqdn then failC (SystemExit ''Azure Container App did not return an ingress FQDN.'')
       else
         let base_url = JStr (''https://'' @ py_str fqdn) in
         bindC (if base_url \<noteq> provisional
                then seqC (azure_set_base_url ct azure e base_url)
                       (bindC (azure_app_data ct azure) (\<lambda>d. retC (jor d (jor data (JObj [])))))
                else retC (jor data (JObj []))) (\<lambda>app.
         bindC (liftR (get_chain app [''properties'', ''latestRevisionName''])) (\<lambda>revision.
         bindC (liftR (json_update azure
                  [(''base_url'', base_url), (''default_hostname'', fqdn), (''image_ref'', JStr image_ref),
                   (''image_tag'', JStr tag), (''latest_revision_name'', revision)]))
           (save_manifest ct ''azure'')))))))))))))"

section \<open>Google Cloud Run\<close>

definition gcp_service_data :: "'x tools \<Rightarrow> json \<Rightarrow> ('x cloud, json) cmd" where
  "gcp_service_data ct gcp =
     bindC (liftR (json_item gcp ''project'')) (\<lambda>project.
     bindC (liftR (json_item gcp ''region'')) (\<lambda>region.
     bindC (liftR (json_item gcp ''service_name'')) (\<lambda>name.
       load_cloudrun_service ct (Inr project) (Inr region) (Inr name))))"

definition gcp_update_env :: "'x tools \<Rightarrow> json \<Rightarrow> string \<Rightarrow> ('x cloud, unit) cmd" where
  "gcp_update_env ct gcp assignments =
     do_cmd ct (lits [''gcloud'', ''run'', ''services'', ''update''] @ [json_item gcp ''service_name''] @
       lits [''--project''] @ [json_item gcp ''project''] @ lits [''--region''] @ [json_item gcp ''region''] @
       lits [''--platform'', ''managed'', ''--update-env-vars'', assignments, ''--quiet'', ''--format'', ''json''])"

definition gcp_run_deploy :: "'x tools \<Rightarrow> json \<Rightarrow> string \<Rightarrow> (string, json) dict \<Rightarrow> ('x cloud, unit) cmd" where
  "gcp_run_deploy ct gcp image_ref env_pairs =
     do_cmd ct (lits [''gcloud'', ''run'', ''deploy''] @ [json_item gcp ''service_name''] @
       lits [''--project''] @ [json_item gcp ''project''] @ lits [''--region''] @ [json_item gcp ''region''] @
       lits [''--platform'', ''managed'', ''--image'', image_ref, ''--port''] @ [str_item gcp ''target_port''] @
       lits [''--cpu''] @ [str_item gcp ''cpu''] @ lits [''--memory''] @ [json_item gcp ''memory''] @
       lits [''--min-instances''] @ [str_item gcp ''min_instances''] @
       lits [''--max-instances''] @ [str_item gcp ''max_instances''] @
       lits [''--allow-unauthenticated'', ''--set-env-vars''] @
       [bindR (encode_cloudrun_env_vars env_pairs) (\<lambda>t. Inr (JStr t))] @
       lits [''--quiet'', ''--format'', ''json''])"

definition latest_revision :: "json \<Rightarrow> json result" where
  "latest_revision service_data =
     bindR (get_chain service_data [''status'', ''latestReadyRevisionName'']) (\<lambda>r.
       if jtruth r then Inr r else get_chain service_data [''status'', ''latestCreatedRevisionName''])"

definition deploy_gcp_cloud_run :: "'x tools \<Rightarrow> json \<Rightarrow> endpoints \<Rightarrow> ('x cloud, json) cmd" where
  "deploy_gcp_cloud_run ct gcp e =
     bindC (build_gcp_container_image ct gcp None) (\<lambda>(image_ref, tag).
     bindC (liftR (json_get gcp ''base_url'' JNull)) (\<lambda>known.
     let provisional = jor known bootstrap_url in
     bindC (liftR (gcp_cloudrun_env_pairs e provisional)) (\<lambda>env_pairs.
     seqC (gcp_run_deploy ct gcp image_ref env_pairs)
     (bindC (gcp_service_data ct gcp) (\<lambda>data.
      bindC (liftR (extract_cloudrun_url (jor data (JObj [])))) (\<lambda>base_url.
      if \<not> jtruth base_url then failC (SystemExit ''Cloud Run service did not return a public URL.'')
      else
        bindC (if base_url \<noteq> provisional
               then seqC (gcp_update_env ct gcp (''BASE_URL='' @ py_str base_url @ '',GCP_RISK_BASE_URL='' @ py_str base_url @
                       '',GCP_RISK_URL='' @ py_str base_url))
                      (bindC (gcp_service_data ct gcp) (\<lambda>d. retC (jor d (jor data (JObj [])))))
               else retC (jor data (JObj []))) (\<lambda>service_data.
        bindC (liftR (latest_revision service_data)) (\<lambda>revision.
        bindC (liftR (strip_https base_url)) (\<lambda>hostname.
        bindC (liftR (json_update gcp
                 [(''base_url'', base_url), (''default_hostname'', hostname), (''image_ref'', JStr image_ref),
                  (''image_tag'', JStr tag), (''latest_revision_name'', revision)]))
          (save_manifest ct ''gcp''))))))))))"

section \<open>AWS App Runner\<close>

definition source_configuration :: "string \<Rightarrow> json \<Rightarrow> (string, json) dict \<Rightarrow> json \<Rightarrow> json" where
  "source_configuration image_ref port env_pairs role_arn = JObj [
     (''ImageRepository'', JObj [
        (''ImageIdentifier'', JStr image_ref),
        (''ImageRepositoryType'', JStr ''ECR''),
        (''ImageConfiguration'', JObj [
           (''Port'', JStr (py_str port)),
           (''RuntimeEnvironmentVariables'', JObj env_pairs)])]),
     (''AutoDeploymentsEnabled'', JBool False),
     (''AuthenticationConfiguration'', JObj [(''AccessRoleArn'', role_arn)])]"

definition health_check_configuration :: json where
  "health_check_configuration = JObj [
     (''Protocol'', JStr ''HTTP''), (''Path'', JStr ''/health''), (''Interval'', JInt 10), (''Timeout'', JInt 5),
     (''HealthyThreshold'', JInt 1), (''UnhealthyThreshold'', JInt 5)]"

definition service_configuration_args :: "json \<Rightarrow> string \<Rightarrow> string \<Rightarrow> argument list" where
  "service_configuration_args source_config cpu memory = lits [
     ''--source-configuration'', json_dumps source_config,
     ''--instance-configuration'', json_dumps (JObj [(''Cpu'', JStr cpu), (''Memory'', JStr memory)]),
     ''--health-check-configuration'', json_dumps health_check_configuration,
     ''--output'', ''json'']"

definition apprunner_create_or_update ::
    "'x tools \<Rightarrow> json \<Rightarrow> json \<Rightarrow> argument list \<Rightarrow> ('x cloud, json) cmd" where
  "apprunner_create_or_update ct service_name region configuration =
     bindC (find_apprunner_service ct service_name (Inr region)) (\<lambda>summary.
       if summary = JNull then
         seqC (do_cmd ct (lits [''aws'', ''apprunner'', ''create-service'', ''--region''] @ [Inr region] @
                lits [''--service-name''] @ [Inr service_name] @ configuration))
         (bindC (find_apprunner_service ct service_name (Inr region)) (\<lambda>found.
            if found = JNull
            then failC (SystemExit (''Failed to locate App Runner service '' @ py_str service_name @ '' after creation.''))
            else liftR (json_item found ''ServiceArn'')))
       else
         bindC (liftR (json_item summary ''ServiceArn'')) (\<lambda>service_arn.
         seqC (do_cmd ct (lits [''aws'', ''apprunner'', ''update-service'', ''--region''] @ [Inr region] @
                lits [''--service-arn''] @ [Inr service_arn] @ configuration))
         (retC service_arn)))"

text \<open>
  The result is the new block of the service and the manifest with it, which the function
  also assigns to its argument and saves.
\<close>

definition deploy_aws_app_runner :: "'x tools \<Rightarrow> json \<Rightarrow> string \<Rightarrow> endpoints \<Rightarrow> ('x cloud, json \<times> json) cmd" where
  "deploy_aws_app_runner ct aws kind e =
     bindC (liftR (json_item aws kind)) (\<lambda>block.
     bindC (liftR (json_item block ''service_name'')) (\<lambda>service_name.
     bindC (liftR (json_item aws ''region'')) (\<lambda>region.
     bindC (liftR (json_item block ''port'')) (\<lambda>port.
     bindC (liftR (json_item block ''cpu'')) (\<lambda>cpu.
     bindC (liftR (json_item block ''memory'')) (\<lambda>memory.
     bindC (build_aws_container_image ct aws kind None) (\<lambda>(image_ref, tag).
     bindC (liftR (json_get block ''base_url'' JNull)) (\<lambda>known.
     let provisional = jor known bootstrap_url in
     bindC (liftR (json_item aws ''ecr_access_role_arn'')) (\<lambda>role_arn.
     bindC (apprunner_create_or_update ct service_name region
              (service_configuration_args
                 (source_configuration image_ref port (apprunner_env_pairs kind e provisional port) role_arn)
                 (py_str cpu) (py_str memory))) (\<lambda>service_arn.
     bindC (wait_for_apprunner_running ct service_arn region) (\<lambda>payload.
     bindC (liftR (get_chain payload [''Service'', ''ServiceUrl''])) (\<lambda>service_url.
     if \<not> jtruth service_url
     then failC (SystemExit (''App Runner service '' @ py_str service_name @ '' did not expose a ServiceUrl.''))
     else
       let base_url = JStr (''https://'' @ py_str service_url) in
       seqC (whenC (base_url \<noteq> provisional)
         (seqC (do_cmd ct (lits [''aws'', ''apprunner'', ''update-service'', ''--region''] @ [Inr region] @
                  lits [''--service-arn''] @ [Inr service_arn] @ lits [''--source-configuration'',
                    json_dumps (source_configuration image_ref port (apprunner_env_pairs kind e base_url port) role_arn),
                    ''--output'', ''json'']))
            (ignoreC (wait_for_apprunner_running ct service_arn region))))
       (bindC (liftR (json_update block
                [(''service_arn'', service_arn), (''base_url'', base_url), (''default_hostname'', service_url),
                 (''image_ref'', JStr image_ref), (''image_tag'', JStr tag)])) (\<lambda>updated.
        bindC (liftR (json_update aws [(kind, updated)])) (\<lambda>aws1.
        seqC (save_manifest ct ''aws'' aws1) (retC (updated, aws1)))))))))))))))))"

section \<open>The whole stack\<close>

definition seed_portfolio :: "'x tools \<Rightarrow> json \<Rightarrow> ('x cloud, seeding) cmd" where
  "seed_portfolio ct risk_url w =
     (case tl_post ct (py_str risk_url @ ''/risk/portfolio'') deploy_portfolio (cd_tools w) of (r, dt, x) \<Rightarrow>
        (Inr r, w\<lparr>cd_tools := x, cd_now := cd_now w + int dt,
                  cd_trace := cd_trace w @ [Posted (py_str risk_url @ ''/risk/portfolio'') deploy_portfolio]\<rparr>))"

definition health_url :: "json \<Rightarrow> string" where
  "health_url u = py_str u @ ''/health''"

text \<open>\<open>a or b\<close> and \<open>not a\<close> for conditions that may raise, in the order Python evaluates them.\<close>

fun any_of :: "bool result list \<Rightarrow> bool result" where
  "any_of [] = Inr False"
| "any_of (c # cs) = bindR c (\<lambda>b. if b then Inr True else any_of cs)"

definition lacks :: "json \<Rightarrow> string list \<Rightarrow> bool result" where
  "lacks j ks = bindR (get_chain j ks) (\<lambda>v. Inr (\<not> jtruth v))"

definition missing_manifests :: "json \<Rightarrow> json \<Rightarrow> json \<Rightarrow> string list result" where
  "missing_manifests aws azure gcp =
     bindR (any_of [Inr (\<not> jtruth aws), bindR (json_get aws ''type'' JNull) (\<lambda>t. Inr (t \<noteq> JStr ''app_runner'')),
              lacks aws [''registry'', ''ecr_repository_uri''], lacks aws [''ingestion'', ''ecr_repository_uri'']]) (\<lambda>a.
     bindR (any_of [Inr (\<not> jtruth azure), lacks azure [''app_name'']]) (\<lambda>z.
     bindR (any_of [Inr (\<not> jtruth gcp), lacks gcp [''service_name''], lacks gcp [''project''], lacks gcp [''region'']]) (\<lambda>g.
       Inr ((if a then [''aws''] else []) @ (if z then [''azure''] else []) @ (if g then [''gcp''] else [])))))"

definition deploy_services :: "'x tools \<Rightarrow> json \<Rightarrow> json \<Rightarrow> json \<Rightarrow> ('x cloud, endpoints) cmd" where
  "deploy_services ct aws azure gcp =
     bindC (deploy_aws_app_runner ct aws ''registry'' []) (\<lambda>(registry_block, aws1).
     bindC (load_manifest ct ''aws'') (\<lambda>m1.
     bindC (liftR (json_item registry_block ''base_url'')) (\<lambda>registry_url.
     bindC (deploy_aws_app_runner ct (jor m1 aws1) ''ingestion'' [(''REGISTRY_URL'', registry_url)]) (\<lambda>(ingestion_block, aws2).
     bindC (load_manifest ct ''aws'') (\<lambda>m2.
     bindC (liftR (json_item ingestion_block ''base_url'')) (\<lambda>ingestion_url.
     bindC (deploy_gcp_cloud_run ct gcp [(''REGISTRY_URL'', registry_url), (''INGESTION_URL'', ingestion_url)]) (\<lambda>gcp1.
     bindC (liftR (json_item gcp1 ''base_url'')) (\<lambda>risk_url.
     bindC (deploy_azure_container_app ct azure
              [(''REGISTRY_URL'', registry_url), (''INGESTION_URL'', ingestion_url), (''RISK_URL'', risk_url)]) (\<lambda>azure1.
     bindC (liftR (json_item azure1 ''base_url'')) (\<lambda>anomaly_url.
     seqC (gcp_update_env ct gcp1 (''AZURE_ANOMALY_URL='' @ py_str anomaly_url))
     (seqC (deploy_aws_app_runner ct (jor m2 aws2) ''ingestion''
              [(''REGISTRY_URL'', registry_url), (''ANOMALY_URL'', anomaly_url), (''RISK_URL'', risk_url)])
     (seqC (load_manifest ct ''aws'')
     (retC [(''REGISTRY_URL'', registry_url), (''INGESTION_URL'', ingestion_url), (''RISK_URL'', risk_url),
            (''ANOMALY_URL'', anomaly_url)])))))))))))))"

definition check_health :: "'x tools \<Rightarrow> endpoints \<Rightarrow> ('x cloud, (string, json) dict) cmd" where
  "check_health ct e =
     bindC (liftR (endpoint e ''REGISTRY_URL'')) (\<lambda>u1. bindC (wait_for_http ct (health_url u1) 300) (\<lambda>registry.
     bindC (liftR (endpoint e ''INGESTION_URL'')) (\<lambda>u2. bindC (wait_for_http ct (health_url u2) 300) (\<lambda>ingestion.
     bindC (liftR (endpoint e ''ANOMALY_URL'')) (\<lambda>u3. bindC (wait_for_http ct (health_url u3) 300) (\<lambda>anomaly.
     bindC (liftR (endpoint e ''RISK_URL'')) (\<lambda>u4. bindC (wait_for_http ct (health_url u4) 300) (\<lambda>risk.
     bindC (if \<not> risk then retC False
            else bindC (seed_portfolio ct u4) (\<lambda>r.
              case r of Seeded \<Rightarrow> retC True | UrlError \<Rightarrow> retC False | OtherError err \<Rightarrow> failC err)) (\<lambda>seeded.
       retC [(''registry'', JBool registry), (''ingestion'', JBool ingestion), (''anomaly'', JBool anomaly),
             (''risk'', JBool risk), (''portfolio_seeded'', JBool seeded)])))))))))"

definition status_payload :: "int \<Rightarrow> endpoints \<Rightarrow> (string, json) dict \<Rightarrow> json" where
  "status_payload now e hs = JObj [
     (''completed_at'', JStr (utc_now now)),
     (''endpoints'', JObj [
        (''registry'', endpoint_or e ''REGISTRY_URL'' JNull), (''ingestion'', endpoint_or e ''INGESTION_URL'' JNull),
        (''anomaly'', endpoint_or e ''ANOMALY_URL'' JNull), (''risk'', endpoint_or e ''RISK_URL'' JNull)]),
     (''health'', JObj hs)]"

definition bootstrap_hosts :: "'x tools \<Rightarrow> ('x cloud, json) cmd" where
  "bootstrap_hosts ct =
     bindC (load_manifest ct ''aws'') (\<lambda>aws.
     bindC (load_manifest ct ''azure'') (\<lambda>azure.
     bindC (load_manifest ct ''gcp'') (\<lambda>gcp.
     bindC (liftR (missing_manifests aws azure gcp)) (\<lambda>missing.
     if missing \<noteq> [] then failC (SystemExit (''Missing live manifest(s): '' @ join '', '' missing))
     else
       bindC (deploy_services ct aws azure gcp) (\<lambda>e.
       bindC (check_health ct e) (\<lambda>hs w.
         save_manifest ct ''status'' (status_payload (cd_now w) e hs) w))))))"

text \<open>The health of one service in the status report, when its address is known.\<close>

definition report_health ::
    "'x tools \<Rightarrow> string \<Rightarrow> json \<Rightarrow> string list \<Rightarrow> (string, json) dict \<Rightarrow> ('x cloud, (string, json) dict) cmd" where
  "report_health ct name manifest keys hs =
     (if \<not> jtruth manifest then retC hs
      else bindC (liftR (get_chain manifest keys)) (\<lambda>u.
        if \<not> jtruth u then retC hs
        else bindC (wait_for_http ct (health_url u) 5) (\<lambda>b. retC (dict_set name (JBool b) hs))))"

definition collect_status :: "'x tools \<Rightarrow> ('x cloud, json) cmd" where
  "collect_status ct =
     bindC (load_manifest ct ''aws'') (\<lambda>aws.
     bindC (load_manifest ct ''azure'') (\<lambda>azure.
     bindC (load_manifest ct ''gcp'') (\<lambda>gcp.
     bindC (report_health ct ''registry'' aws [''registry'', ''base_url''] []) (\<lambda>h1.
     bindC (report_health ct ''ingestion'' aws [''ingestion'', ''base_url''] h1) (\<lambda>h2.
     bindC (report_health ct ''anomaly'' azure [''base_url''] h2) (\<lambda>h3.
     bindC (report_health ct ''risk'' gcp [''base_url''] h3) (\<lambda>h4.
       retC (JObj [(''aws'', aws), (''azure'', azure), (''gcp'', gcp), (''health'', JObj h4)]))))))))"

definition go_live :: "'x tools \<Rightarrow> cloud_args \<Rightarrow> ('x cloud, json) cmd" where
  "go_live ct args =
     seqC (provision_aws ct args) (seqC (provision_azure ct args) (seqC (provision_gcp ct args) (bootstrap_hosts ct)))"

section \<open>The commands\<close>

definition require_app_runner :: "json \<Rightarrow> unit result" where
  "require_app_runner aws =
     bindR (any_of [Inr (\<not> jtruth aws), bindR (json_get aws ''type'' JNull) (\<lambda>t. Inr (t \<noteq> JStr ''app_runner''))]) (\<lambda>b.
       if b then Inl (SystemExit ''Run provision-aws first to create the App Runner manifest.'') else Inr ())"

definition known_endpoint :: "string \<Rightarrow> json \<Rightarrow> endpoints result" where
  "known_endpoint name manifest =
     (if \<not> jtruth manifest then Inr []
      else bindR (json_get manifest ''base_url'' JNull) (\<lambda>u. Inr (if jtruth u then [(name, u)] else [])))"

definition aws_urls :: "json \<Rightarrow> (json \<times> json) result" where
  "aws_urls aws =
     bindR (get_chain aws [''registry'', ''base_url'']) (\<lambda>r.
     bindR (get_chain aws [''ingestion'', ''base_url'']) (\<lambda>i. Inr (r, i)))"

definition urls_missing :: py_exc where
  "urls_missing = SystemExit ''AWS App Runner base_urls missing; run deploy-aws-registry and deploy-aws-ingestion first.''"

definition cmd_deploy_registry :: "'x tools \<Rightarrow> ('x cloud, json) cmd" where
  "cmd_deploy_registry ct =
     bindC (load_manifest ct ''aws'') (\<lambda>aws.
     seqC (liftR (require_app_runner aws))
     (bindC (deploy_aws_app_runner ct aws ''registry'' []) (\<lambda>(block, _).
       retC (JObj [(''registry'', block), (''deployed'', JBool True)]))))"

definition cmd_deploy_ingestion :: "'x tools \<Rightarrow> ('x cloud, json) cmd" where
  "cmd_deploy_ingestion ct =
     bindC (load_manifest ct ''aws'') (\<lambda>aws.
     seqC (liftR (require_app_runner aws))
     (bindC (liftR (get_chain aws [''registry'', ''base_url''])) (\<lambda>registry_url.
      if \<not> jtruth registry_url
      then failC (SystemExit ''Registry base_url missing; run deploy-aws-registry before deploy-aws-ingestion.'')
      else
        bindC (load_manifest ct ''gcp'') (\<lambda>gcp.
        bindC (load_manifest ct ''azure'') (\<lambda>azure.
        bindC (liftR (known_endpoint ''RISK_URL'' gcp)) (\<lambda>r.
        bindC (liftR (known_endpoint ''ANOMALY_URL'' azure)) (\<lambda>a.
        bindC (deploy_aws_app_runner ct aws ''ingestion'' ([(''REGISTRY_URL'', registry_url)] @ r @ a)) (\<lambda>(block, _).
          retC (JObj [(''ingestion'', block), (''deployed'', JBool True)])))))))))"

definition cmd_deploy_azure :: "'x tools \<Rightarrow> ('x cloud, json) cmd" where
  "cmd_deploy_azure ct =
     bindC (load_manifest ct ''azure'') (\<lambda>azure.
     bindC (load_manifest ct ''aws'') (\<lambda>aws.
     bindC (load_manifest ct ''gcp'') (\<lambda>gcp.
     bindC (liftR (any_of [Inr (\<not> jtruth azure), lacks azure [''app_name''], Inr (\<not> jtruth aws), Inr (\<not> jtruth gcp)])) (\<lambda>b.
     if b then failC (SystemExit ''Missing aws/gcp/azure manifests required for Azure deployment.'')
     else
       bindC (liftR (aws_urls aws)) (\<lambda>(registry_url, ingestion_url).
       bindC (liftR (json_get gcp ''base_url'' JNull)) (\<lambda>risk_url.
       if \<not> jtruth registry_url \<or> \<not> jtruth ingestion_url then failC urls_missing
       else if \<not> jtruth risk_url
       then failC (SystemExit ''GCP Cloud Run base_url missing; run deploy-gcp before deploy-azure.'')
       else
         bindC (deploy_azure_container_app ct azure
                  [(''REGISTRY_URL'', registry_url), (''INGESTION_URL'', ingestion_url), (''RISK_URL'', risk_url)]) (\<lambda>azure1.
           retC (JObj [(''azure'', azure1), (''deployed'', JBool True)]))))))))"

definition cmd_deploy_gcp :: "'x tools \<Rightarrow> ('x cloud, json) cmd" where
  "cmd_deploy_gcp ct =
     bindC (load_manifest ct ''gcp'') (\<lambda>gcp.
     bindC (load_manifest ct ''aws'') (\<lambda>aws.
     bindC (load_manifest ct ''azure'') (\<lambda>azure.
     bindC (liftR (any_of [Inr (\<not> jtruth gcp), lacks gcp [''service_name''], Inr (\<not> jtruth aws)])) (\<lambda>b.
     if b then failC (SystemExit ''Missing aws/gcp manifests required for Cloud Run deployment.'')
     else
       bindC (liftR (aws_urls aws)) (\<lambda>(registry_url, ingestion_url).
       if \<not> jtruth registry_url \<or> \<not> jtruth ingestion_url then failC urls_missing
       else
         bindC (liftR (known_endpoint ''ANOMALY_URL'' azure)) (\<lambda>a.
         bindC (deploy_gcp_cloud_run ct gcp ([(''REGISTRY_URL'', registry_url), (''INGESTION_URL'', ingestion_url)] @ a)) (\<lambda>gcp1.
           retC (JObj [(''gcp'', gcp1), (''deployed'', JBool True)]))))))))"

datatype cloud_command =
    PackageAzure | PackageGcp | PackageAwsRegistry | PackageAwsIngestion
  | ProvisionAws | ProvisionAzure | ProvisionGcp
  | DeployAwsRegistry | DeployAwsIngestion | DeployAzure | DeployGcp
  | Bootstrap | Status | GoLive

definition command_names :: "(string \<times> cloud_command) list" where
  "command_names =
     [(''package-azure'', PackageAzure), (''package-webapp'', PackageAzure), (''package-gcp'', PackageGcp),
      (''package-aws-registry'', PackageAwsRegistry), (''package-aws-ingestion'', PackageAwsIngestion),
      (''provision-aws'', ProvisionAws), (''provision-azure'', ProvisionAzure), (''provision-gcp'', ProvisionGcp),
      (''deploy-aws-registry'', DeployAwsRegistry), (''deploy-aws-ingestion'', DeployAwsIngestion),
      (''deploy-azure'', DeployAzure), (''deploy-gcp'', DeployGcp), (''bootstrap'', Bootstrap), (''status'', Status),
      (''go-live'', GoLive)]"

definition path_cmd :: "('x cloud, path) cmd \<Rightarrow> ('x cloud, json) cmd" where
  "path_cmd m = bindC m (\<lambda>p. retC (JStr p))"

text \<open>What the command prints, as a value.\<close>

definition cloud_main :: "'x tools \<Rightarrow> cloud_args \<Rightarrow> cloud_command \<Rightarrow> ('x cloud, json) cmd" where
  "cloud_main ct args command =
     (case command of
        PackageAzure \<Rightarrow> path_cmd (package_azure_containerapp_context ct)
      | PackageGcp \<Rightarrow> path_cmd (package_gcp_cloudrun_context ct)
      | PackageAwsRegistry \<Rightarrow> path_cmd (package_apprunner_registry_context ct)
      | PackageAwsIngestion \<Rightarrow> path_cmd (package_apprunner_ingestion_context ct)
      | ProvisionAws \<Rightarrow> provision_aws ct args
      | ProvisionAzure \<Rightarrow> provision_azure ct args
      | ProvisionGcp \<Rightarrow> provision_gcp ct args
      | DeployAwsRegistry \<Rightarrow> cmd_deploy_registry ct
      | DeployAwsIngestion \<Rightarrow> cmd_deploy_ingestion ct
      | DeployAzure \<Rightarrow> cmd_deploy_azure ct
      | DeployGcp \<Rightarrow> cmd_deploy_gcp ct
      | Bootstrap \<Rightarrow> bootstrap_hosts ct
      | Status \<Rightarrow> collect_status ct
      | GoLive \<Rightarrow> go_live ct args)"

end
