(* ===== verification/CloudSpec.thy ===== *)
theory CloudSpec
  imports JsonRound CloudDeploy
begin

text \<open>
  What packaging, provisioning, waiting and bootstrapping guarantee, over any behaviour of the
  command line tools.
\<close>

section \<open>Build contexts\<close>

lemma prefix_of_append [simp]: "starts_with (a @ b) (a @ c) = starts_with b c"
  by (simp add: starts_with_def)

lemma starts_with_Cons [simp]: "starts_with (x # a) (y # b) \<longleftrightarrow> x = y \<and> starts_with a b"
  by (auto simp: starts_with_def)

lemma starts_with_Nil [simp]: "starts_with [] s" "\<not> starts_with (x # a) []"
  by (simp_all add: starts_with_def)

lemma starts_with_iff: "starts_with p s \<longleftrightarrow> (\<exists>q. s = p @ q)"
proof
  assume "starts_with p s"
  then have "s = p @ drop (length p) s" using append_take_drop_id [of "length p" s] by (simp add: starts_with_def)
  then show "\<exists>q. s = p @ q" ..
qed (auto simp: starts_with_def)

lemma under_iff: "under d p \<longleftrightarrow> (\<exists>q. p = d @ CHR ''/'' # q)"
  by (auto simp: under_def starts_with_iff)

lemma relative_under [simp]: "relative d (d @ CHR ''/'' # q) = q"
  by (simp add: relative_def)

lemma under_join [simp]: "under (d @ CHR ''/'' # a) (d @ CHR ''/'' # b) = under a b"
  by (simp add: under_def)

lemma relative_join [simp]: "relative (d @ CHR ''/'' # a) (d @ CHR ''/'' # b) = relative a b"
  by (simp add: relative_def)

lemma keep_under:
  assumes "CHR ''/'' \<notin> set a" "\<not> ignored_name a"
  shows "keep_path (a @ CHR ''/'' # q) = keep_path q"
  using assms by (simp add: keep_path_def split_on_append split_on_absent)

definition build_contexts :: "build_context list" where
  "build_contexts = [azure_context, gcp_context, registry_context, ingestion_context]"

definition context_dir :: "'x tools \<Rightarrow> build_context \<Rightarrow> path" where
  "context_dir ct bc = tl_root ct @ ''/dist/'' @ bc_dir bc"

text \<open>The file a build context has at a relative path, in terms of the files before.\<close>

definition context_file :: "'x tools \<Rightarrow> build_context \<Rightarrow> fs \<Rightarrow> path \<Rightarrow> file_content option" where
  "context_file ct bc fs q =
     (let source = (\<lambda>p. fs (tl_root ct @ CHR ''/'' # p)) in
      if q = ''Dockerfile'' then source (bc_service bc @ CHR ''/'' # bc_dockerfile bc)
      else if q = bc_requirements bc then source (bc_service bc @ CHR ''/'' # bc_requirements bc)
      else if (under (bc_service bc) q \<or> under ''shared'' q) \<and> keep_path q then source q
      else None)"

definition context_ready :: "'x tools \<Rightarrow> build_context \<Rightarrow> 'x cloud \<Rightarrow> bool" where
  "context_ready ct bc w \<longleftrightarrow>
     cd_fs w (tl_root ct @ ''/'' @ bc_service bc @ ''/'' @ bc_dockerfile bc) \<noteq> None \<and>
     cd_fs w (tl_root ct @ ''/'' @ bc_service bc @ ''/'' @ bc_requirements bc) \<noteq> None \<and>
     cd_dirs w (tl_root ct @ ''/'' @ bc_service bc) \<and> cd_dirs w (tl_root ct @ ''/shared'')"

text \<open>A directory with files in it exists.\<close>

definition has_parents :: "path \<Rightarrow> 'x cloud \<Rightarrow> bool" where
  "has_parents d w \<longleftrightarrow> (\<forall>p. under d p \<longrightarrow> cd_fs w p \<noteq> None \<longrightarrow> cd_dirs w d)"

text \<open>What the proofs need of the names in a context.\<close>

definition plain_context :: "build_context \<Rightarrow> bool" where
  "plain_context bc \<longleftrightarrow> \<not> starts_with ''d'' (bc_service bc) \<and> bc_service bc \<noteq> [] \<and> CHR ''/'' \<notin> set (bc_service bc) \<and>
     \<not> ignored_name (bc_service bc) \<and> CHR ''/'' \<notin> set (bc_requirements bc) \<and> bc_requirements bc \<noteq> ''Dockerfile'' \<and>
     bc_service bc \<noteq> ''shared''"

lemma contexts_plain: "bc \<in> set build_contexts \<Longrightarrow> plain_context bc"
  by (auto simp: build_contexts_def plain_context_def azure_context_def gcp_context_def registry_context_def
      ingestion_context_def ignored_name_def starts_with_def ends_with_def)

lemma not_in_context:
  assumes "plain_context bc"
  shows "\<not> under (context_dir ct bc) (tl_root ct @ CHR ''/'' # bc_service bc @ q)"
    "\<not> under (context_dir ct bc) (tl_root ct @ CHR ''/'' # ''shared'' @ q)"
    "tl_root ct @ CHR ''/'' # bc_service bc @ q \<noteq> context_dir ct bc"
    "tl_root ct @ CHR ''/'' # ''shared'' @ q \<noteq> context_dir ct bc"
proof -
  obtain c s where c: "bc_service bc = c # s" "c \<noteq> CHR ''d''"
    using assms by (cases "bc_service bc") (auto simp: plain_context_def)
  then show "\<not> under (context_dir ct bc) (tl_root ct @ CHR ''/'' # bc_service bc @ q)"
    "\<not> under (context_dir ct bc) (tl_root ct @ CHR ''/'' # ''shared'' @ q)"
    "tl_root ct @ CHR ''/'' # bc_service bc @ q \<noteq> context_dir ct bc"
    "tl_root ct @ CHR ''/'' # ''shared'' @ q \<noteq> context_dir ct bc"
    by (auto simp: under_def context_dir_def)
qed

lemma not_above_context:
  assumes "plain_context bc"
  shows "\<not> under (tl_root ct @ CHR ''/'' # bc_service bc) (context_dir ct bc)"
    "\<not> under (tl_root ct @ CHR ''/'' # ''shared'') (context_dir ct bc)"
    "\<not> under (tl_root ct @ CHR ''/'' # bc_service bc) (tl_root ct @ ''/dist'')"
    "\<not> under (tl_root ct @ CHR ''/'' # ''shared'') (tl_root ct @ ''/dist'')"
    "tl_root ct @ CHR ''/'' # bc_service bc \<noteq> tl_root ct @ ''/dist''"
    "tl_root ct @ CHR ''/'' # ''shared'' \<noteq> tl_root ct @ ''/dist''"
proof -
  obtain c s where c: "bc_service bc = c # s" "c \<noteq> CHR ''d''"
    using assms by (cases "bc_service bc") (auto simp: plain_context_def)
  then show "\<not> under (tl_root ct @ CHR ''/'' # bc_service bc) (context_dir ct bc)"
    "\<not> under (tl_root ct @ CHR ''/'' # ''shared'') (context_dir ct bc)"
    "\<not> under (tl_root ct @ CHR ''/'' # bc_service bc) (tl_root ct @ ''/dist'')"
    "\<not> under (tl_root ct @ CHR ''/'' # ''shared'') (tl_root ct @ ''/dist'')"
    "tl_root ct @ CHR ''/'' # bc_service bc \<noteq> tl_root ct @ ''/dist''"
    "tl_root ct @ CHR ''/'' # ''shared'' \<noteq> tl_root ct @ ''/dist''"
    by (auto simp: under_def context_dir_def)
qed

text \<open>The directory is fresh before anything is copied.\<close>

definition fresh_context :: "'x tools \<Rightarrow> build_context \<Rightarrow> 'x cloud \<Rightarrow> 'x cloud" where
  "fresh_context ct bc w =
     (let w1 = snd (make_dirs (tl_root ct @ ''/dist'') w) in
      snd (make_dirs (context_dir ct bc)
        (if cd_dirs w1 (context_dir ct bc) then snd (remove_tree (context_dir ct bc) w1) else w1)))"

lemma package_fresh:
  "package_context ct bc w =
     seqC (copy_file (tl_root ct @ ''/'' @ bc_service bc @ ''/'' @ bc_dockerfile bc) (context_dir ct bc @ ''/Dockerfile''))
     (seqC (copy_file (tl_root ct @ ''/'' @ bc_service bc @ ''/'' @ bc_requirements bc)
        (context_dir ct bc @ ''/'' @ bc_requirements bc))
     (seqC (copy_filtered_tree (tl_root ct @ ''/'' @ bc_service bc) (context_dir ct bc @ ''/'' @ bc_service bc))
     (seqC (copy_filtered_tree (tl_root ct @ ''/shared'') (context_dir ct bc @ ''/shared''))
       (retC (context_dir ct bc))))) (fresh_context ct bc w)"
  by (simp add: package_context_def fresh_context_def context_dir_def Let_def make_dirs_def remove_tree_def)

lemma dist_not_in_context: "\<not> under (context_dir ct bc) (tl_root ct @ ''/dist'')"
  by (simp add: under_def context_dir_def)

lemma fresh_files:
  assumes "has_parents (context_dir ct bc) w"
  shows "cd_fs (fresh_context ct bc w) = (\<lambda>p. if under (context_dir ct bc) p then None else cd_fs w p)"
  using assms by (auto simp: fresh_context_def Let_def make_dirs_def remove_tree_def has_parents_def fun_eq_iff)

lemma fresh_dirs:
  assumes "plain_context bc"
  shows "cd_dirs (fresh_context ct bc w) (tl_root ct @ CHR ''/'' # bc_service bc) = cd_dirs w (tl_root ct @ CHR ''/'' # bc_service bc)"
    "cd_dirs (fresh_context ct bc w) (tl_root ct @ ''/shared'') = cd_dirs w (tl_root ct @ ''/shared'')"
  using not_above_context [OF assms] not_in_context [OF assms, of ct "[]"]
  by (auto simp: fresh_context_def Let_def make_dirs_def remove_tree_def)

lemma under_relative: "under a q \<Longrightarrow> a @ CHR ''/'' # relative a q = q"
  unfolding under_iff by (erule exE) simp

lemma keep_relative:
  assumes "CHR ''/'' \<notin> set a" "\<not> ignored_name a" "under a q"
  shows "keep_path (relative a q) = keep_path q"
  using keep_under [OF assms(1,2), of "relative a q"] under_relative [OF assms(3)] by simp

lemma keep_service:
  assumes "plain_context bc"
  shows "under (bc_service bc) q \<Longrightarrow> keep_path (relative (bc_service bc) q) = keep_path q"
    "under ''shared'' q \<Longrightarrow> keep_path (relative ''shared'' q) = keep_path q"
    "under (bc_service bc) q \<Longrightarrow> bc_service bc @ CHR ''/'' # relative (bc_service bc) q = q"
    "under ''shared'' q \<Longrightarrow> ''shared'' @ CHR ''/'' # relative ''shared'' q = q"
proof -
  have "\<not> ignored_name ''shared''" "CHR ''/'' \<notin> set ''shared''"
    by (simp_all add: ignored_name_def starts_with_def ends_with_def)
  then show "under ''shared'' q \<Longrightarrow> keep_path (relative ''shared'' q) = keep_path q"
    using keep_relative by blast
  show "under (bc_service bc) q \<Longrightarrow> keep_path (relative (bc_service bc) q) = keep_path q"
    using assms keep_relative by (simp add: plain_context_def)
qed (rule under_relative, assumption)+

lemma not_both_trees:
  assumes "plain_context bc" "under (bc_service bc) q"
  shows "\<not> under ''shared'' q"
proof
  assume "under ''shared'' q"
  then obtain x y where "q = bc_service bc @ CHR ''/'' # x" "q = ''shared'' @ CHR ''/'' # y"
    using assms(2) unfolding under_iff by blast
  then have "split_on (CHR ''/'') (bc_service bc) @ split_on (CHR ''/'') x = split_on (CHR ''/'') ''shared'' @ split_on (CHR ''/'') y"
    using split_on_append by metis
  then show False using assms(1) by (simp add: split_on_absent plain_context_def)
qed

lemma top_file:
  "CHR ''/'' \<notin> set q \<Longrightarrow> \<not> under d q"
  by (auto simp: under_iff)

lemma copy_file_eq:
  "copy_file src dst w =
     (if cd_fs w src = None then (Inl (OSError src), w) else (Inr (), w\<lparr>cd_fs := (cd_fs w)(dst := cd_fs w src)\<rparr>))"
  by (auto simp: copy_file_def split: option.splits)

text \<open>The files after the four copies, before they are compared with the specification.\<close>

definition copied :: "'x tools \<Rightarrow> build_context \<Rightarrow> fs \<Rightarrow> path \<Rightarrow> file_content option" where
  "copied ct bc fs q =
     (let source = (\<lambda>p. fs (tl_root ct @ CHR ''/'' # p));
          tree = (\<lambda>d. under d q \<and> keep_path (relative d q) \<and> source (d @ CHR ''/'' # relative d q) \<noteq> None) in
      if tree ''shared'' then source (''shared'' @ CHR ''/'' # relative ''shared'' q)
      else if tree (bc_service bc) then source (bc_service bc @ CHR ''/'' # relative (bc_service bc) q)
      else if q = bc_requirements bc then source (bc_service bc @ CHR ''/'' # bc_requirements bc)
      else if q = ''Dockerfile'' then source (bc_service bc @ CHR ''/'' # bc_dockerfile bc)
      else None)"

lemma copied_is_context_file:
  assumes bc: "plain_context bc"
  shows "copied ct bc fs q = context_file ct bc fs q"
proof -
  define sh where "sh = ''shared''"
  define df where "df = ''Dockerfile''"
  have slash: "CHR ''/'' \<notin> set (bc_requirements bc)" "CHR ''/'' \<notin> set df" "bc_requirements bc \<noteq> df"
    using bc by (simp_all add: plain_context_def df_def)
  note defs = copied_def context_file_def Let_def sh_def [symmetric] df_def [symmetric]
  note keep = keep_service [OF bc, of q, folded sh_def] not_both_trees [OF bc, of q, folded sh_def]
  consider "under (bc_service bc) q" "\<not> under sh q" | "under sh q" "\<not> under (bc_service bc) q"
    | "\<not> under sh q" "\<not> under (bc_service bc) q" using keep(5) by blast
  then show ?thesis
  proof cases
    case 1
    then have "q \<noteq> df" "q \<noteq> bc_requirements bc" using slash top_file by blast+
    then show ?thesis using 1 keep(1) [OF 1(1)] keep(3) [OF 1(1)] by (simp add: defs)
  next
    case 2
    then have "q \<noteq> df" "q \<noteq> bc_requirements bc" using slash top_file by blast+
    then show ?thesis using 2 keep(2) [OF 2(1)] keep(4) [OF 2(1)] by (simp add: defs)
  next
    case 3
    then show ?thesis using slash(3) by (simp add: defs)
  qed
qed

lemma package_result:
  assumes bc: "plain_context bc" and wf: "has_parents (context_dir ct bc) w"
  shows "context_ready ct bc w \<Longrightarrow> \<exists>w1. package_context ct bc w = (Inr (context_dir ct bc), w1) \<and>
      (\<forall>q. cd_fs w1 (context_dir ct bc @ CHR ''/'' # q) = copied ct bc (cd_fs w) q) \<and>
      (\<forall>p. \<not> under (context_dir ct bc) p \<longrightarrow> cd_fs w1 p = cd_fs w p)"
    "\<not> context_ready ct bc w \<Longrightarrow> \<exists>p w1. package_context ct bc w = (Inl (OSError p), w1) \<and>
      (\<forall>p. \<not> under (context_dir ct bc) p \<longrightarrow> cd_fs w1 p = cd_fs w p)"
proof -
  define d where "d = context_dir ct bc"
  define sv where "sv = bc_service bc"
  define sh where "sh = ''shared''"
  define df where "df = ''Dockerfile''"
  define wf where "wf = fresh_context ct bc w"
  have files: "cd_fs wf = (\<lambda>p. if under d p then None else cd_fs w p)"
    unfolding wf_def d_def by (rule fresh_files [OF assms(2)])
  have out: "\<not> under d (tl_root ct @ CHR ''/'' # sv @ q)" "\<not> under d (tl_root ct @ CHR ''/'' # sh @ q)" for q
    unfolding d_def sv_def sh_def by (rule not_in_context [OF bc])+
  have out2: "\<not> under (d @ CHR ''/'' # a) (tl_root ct @ CHR ''/'' # sv @ q)"
    "\<not> under (d @ CHR ''/'' # a) (tl_root ct @ CHR ''/'' # sh @ q)" 
    "tl_root ct @ CHR ''/'' # sv @ q \<noteq> d @ CHR ''/'' # a" "tl_root ct @ CHR ''/'' # sh @ q \<noteq> d @ CHR ''/'' # a" for a q
    using out [of q] by (auto simp: under_iff)
  have dirs: "cd_dirs wf (tl_root ct @ CHR ''/'' # sv) = cd_dirs w (tl_root ct @ CHR ''/'' # sv)"
    "cd_dirs wf (tl_root ct @ CHR ''/'' # sh) = cd_dirs w (tl_root ct @ CHR ''/'' # sh)"
    using fresh_dirs [OF bc, of ct w] by (simp_all add: wf_def sv_def sh_def)
  have inside: "under d (d @ CHR ''/'' # q)" for q by (auto simp: under_iff)
  have step: "package_context ct bc w =
     seqC (copy_file (tl_root ct @ CHR ''/'' # sv @ CHR ''/'' # bc_dockerfile bc) (d @ CHR ''/'' # df))
     (seqC (copy_file (tl_root ct @ CHR ''/'' # sv @ CHR ''/'' # bc_requirements bc) (d @ CHR ''/'' # bc_requirements bc))
     (seqC (copy_filtered_tree (tl_root ct @ CHR ''/'' # sv) (d @ CHR ''/'' # sv))
     (seqC (copy_filtered_tree (tl_root ct @ CHR ''/'' # sh) (d @ CHR ''/'' # sh)) (retC d)))) wf"
    unfolding package_fresh d_def sv_def sh_def wf_def df_def by simp
  have above: "\<not> under (tl_root ct @ CHR ''/'' # sh) (d @ CHR ''/'' # a)" for a
    by (simp add: under_def d_def context_dir_def sh_def)
  have nested: "under d p" if "under (d @ CHR ''/'' # a) p" for a p
    using that by (auto simp: under_iff)
  have tops: "\<not> under a df" "\<not> under a (bc_requirements bc)" "bc_requirements bc \<noteq> df" "df \<noteq> bc_requirements bc" for a
    using bc by (auto simp: df_def plain_context_def intro!: top_file)
  note run = tops step copy_file_eq copy_filtered_tree_def copy_tree_def files out out2 dirs inside
  have ready: "context_ready ct bc w \<longleftrightarrow>
      cd_fs w (tl_root ct @ CHR ''/'' # sv @ CHR ''/'' # bc_dockerfile bc) \<noteq> None \<and>
      cd_fs w (tl_root ct @ CHR ''/'' # sv @ CHR ''/'' # bc_requirements bc) \<noteq> None \<and>
      cd_dirs w (tl_root ct @ CHR ''/'' # sv) \<and> cd_dirs w (tl_root ct @ CHR ''/'' # sh)"
    by (simp add: context_ready_def sv_def sh_def)
  have copied: "copied ct bc fs q =
     (if under sh q \<and> keep_path (relative sh q) \<and> fs (tl_root ct @ CHR ''/'' # sh @ CHR ''/'' # relative sh q) \<noteq> None
      then fs (tl_root ct @ CHR ''/'' # sh @ CHR ''/'' # relative sh q)
      else if under sv q \<and> keep_path (relative sv q) \<and> fs (tl_root ct @ CHR ''/'' # sv @ CHR ''/'' # relative sv q) \<noteq> None
      then fs (tl_root ct @ CHR ''/'' # sv @ CHR ''/'' # relative sv q)
      else if q = bc_requirements bc then fs (tl_root ct @ CHR ''/'' # sv @ CHR ''/'' # bc_requirements bc)
      else if q = df then fs (tl_root ct @ CHR ''/'' # sv @ CHR ''/'' # bc_dockerfile bc) else None)" for fs q
    by (simp only: copied_def Let_def sh_def sv_def df_def)
  show "\<exists>w1. package_context ct bc w = (Inr (context_dir ct bc), w1) \<and>
      (\<forall>q. cd_fs w1 (context_dir ct bc @ CHR ''/'' # q) = copied ct bc (cd_fs w) q) \<and>
      (\<forall>p. \<not> under (context_dir ct bc) p \<longrightarrow> cd_fs w1 p = cd_fs w p)" if "context_ready ct bc w"
    using that unfolding ready d_def [symmetric] copied by (auto simp: run dest: nested)
  show "\<exists>p w1. package_context ct bc w = (Inl (OSError p), w1) \<and>
      (\<forall>p. \<not> under (context_dir ct bc) p \<longrightarrow> cd_fs w1 p = cd_fs w p)" if "\<not> context_ready ct bc w"
    using that unfolding ready d_def [symmetric]
    by (auto simp: run above out2 [where q = "[]", simplified] dest: nested)
qed

text \<open>
  C26. Each packaging command builds its context from scratch: when the Dockerfile, the requirements and
  the two source trees are there, the directory ends with exactly the files of the specification,
  so nothing stale and no cache file is in it; otherwise an error is raised. No file
  outside the directory is touched either way.\<close>

theorem package_context_contents:
  assumes "bc \<in> set build_contexts" "has_parents (context_dir ct bc) w"
    and "package_context ct bc w = (r, w1)"
  shows "(if context_ready ct bc w
       then r = Inr (context_dir ct bc) \<and>
         (\<forall>q. cd_fs w1 (context_dir ct bc @ CHR ''/'' # q) = context_file ct bc (cd_fs w) q)
       else \<exists>p. r = Inl (OSError p)) \<and>
     (\<forall>p. \<not> under (context_dir ct bc) p \<longrightarrow> cd_fs w1 p = cd_fs w p)"
proof (cases "context_ready ct bc w")
  case True
  note bc = contexts_plain [OF assms(1)]
  from package_result(1) [OF bc assms(2) True] assms(3) show ?thesis
    using True by (simp add: copied_is_context_file [OF bc])
next
  case False
  from package_result(2) [OF contexts_plain [OF assms(1)] assms(2) False] assms(3) show ?thesis
    using False by auto
qed

definition sample_tools :: "unit tools" where
  "sample_tools = \<lparr>tl_root = ''/r'', tl_home = ''/h'',
     tl_exec = (\<lambda>command stdin x. (Inr \<lparr>cp_returncode = 0, cp_stdout = ''{}'', cp_stderr = []\<rparr>, 1000, x)),
     tl_post = (\<lambda>url body x. (Seeded, 1000, x))\<rparr>"

definition sample_tree :: "unit cloud" where
  "sample_tree = \<lparr>cd_tools = (),
     cd_fs = map_of [(''/r/gcp_risk/cloudrun.Dockerfile'', TextFile ''FROM python''),
       (''/r/gcp_risk/requirements-cloudrun.txt'', TextFile ''fastapi''), (''/r/gcp_risk/main.py'', TextFile ''app = 1''),
       (''/r/gcp_risk/__pycache__/main.pyc'', TextFile ''x''), (''/r/dist/gcp-cloudrun-src/old.py'', TextFile ''x'')],
     cd_dirs = (\<lambda>q. q \<in> {''/r/gcp_risk'', ''/r/shared'', ''/r/dist'', ''/r/dist/gcp-cloudrun-src''}),
     cd_now = unix_epoch + 1700000000000000, cd_trace = []\<rparr>"

theorem package_context_contents_witness:
  "fst (package_gcp_cloudrun_context sample_tools sample_tree) = Inr ''/r/dist/gcp-cloudrun-src'' \<and>
   (let fs = cd_fs (snd (package_gcp_cloudrun_context sample_tools sample_tree)) in
    fs ''/r/dist/gcp-cloudrun-src/Dockerfile'' = Some (TextFile ''FROM python'') \<and>
    fs ''/r/dist/gcp-cloudrun-src/gcp_risk/main.py'' = Some (TextFile ''app = 1'') \<and>
    fs ''/r/dist/gcp-cloudrun-src/gcp_risk/__pycache__/main.pyc'' = None \<and>
    fs ''/r/dist/gcp-cloudrun-src/old.py'' = None)"
proof -
  obtain r w1 where p: "package_context sample_tools gcp_context sample_tree = (r, w1)" by fastforce
  have "gcp_context \<in> set build_contexts" by (simp add: build_contexts_def)
  moreover have "has_parents (context_dir sample_tools gcp_context) sample_tree"
    by (simp add: has_parents_def sample_tree_def sample_tools_def context_dir_def gcp_context_def)
  moreover have "context_ready sample_tools gcp_context sample_tree"
    by (simp add: context_ready_def sample_tree_def sample_tools_def gcp_context_def)
  ultimately have "r = Inr (context_dir sample_tools gcp_context)"
    and fs: "\<And>q. cd_fs w1 (context_dir sample_tools gcp_context @ CHR ''/'' # q) =
      context_file sample_tools gcp_context (cd_fs sample_tree) q"
    using package_context_contents [OF _ _ p] by auto
  moreover have "context_dir sample_tools gcp_context = ''/r/dist/gcp-cloudrun-src''"
    by (simp add: context_dir_def sample_tools_def gcp_context_def)
  ultimately show ?thesis
    using p fs [of "''Dockerfile''"] fs [of "''gcp_risk/main.py''"] fs [of "''gcp_risk/__pycache__/main.pyc''"]
      fs [of "''old.py''"]
    by (simp add: package_gcp_cloudrun_context_def context_file_def Let_def sample_tree_def sample_tools_def gcp_context_def
        under_def starts_with_def relative_def keep_path_def ignored_name_def ends_with_def)
qed

section \<open>Waiting\<close>

text \<open>The clock shows a time between 1970 and 9999.\<close>

definition clock_ok :: "'x cloud \<Rightarrow> bool" where
  "clock_ok w \<longleftrightarrow> unix_epoch \<le> cd_now w \<and> cd_now w < 3652059 * us_per_day"

text \<open>Rounding moves a deadline of whole seconds by less than a second.\<close>

lemma deadline_bound:
  assumes "clock_ok w" "T \<le> 1000000"
  shows "horizon (deadline_after (of_nat T) w) \<le> cd_now w + 1000000 * (int T + 1)"
proof -
  define u where "u = cd_now w - unix_epoch"
  define k where "k = (u + 999999) div 1000000"
  have u: "0 \<le> u" "u < 1000000 * 400000000000" using assms(1) by (simp_all add: u_def clock_ok_def unix_epoch_def us_per_day_def)
  have k: "u \<le> 1000000 * k" "1000000 * k < u + 1000000" "0 \<le> k" "k \<le> 400000000000" using u by (auto simp: k_def)
  let ?t = "of_int u / 1000000 :: real"
  have "(of_int u :: real) \<le> of_int (1000000 * k)" using k(1) by (simp only: of_int_le_iff)
  then have t: "?t \<le> of_int k" "0 \<le> ?t" using u(1) by simp_all
  have small: "rnd (of_int k) = of_int k" "rnd (of_int (k + int T)) = of_int (k + int T)" "rnd (of_nat T) = of_nat T"
    using k(3,4) assms(2) by (intro rnd_of_int rnd_of_nat; simp)+
  have rt: "rnd ?t \<le> of_int k" "0 \<le> rnd ?t" using rnd_mono [OF t(1)] rnd_nonneg [OF t(2)] small(1) by simp_all
  have sum: "rnd (rnd ?t + of_nat T) \<le> of_int (k + int T)" "0 \<le> rnd (rnd ?t + of_nat T)"
    using rnd_mono [of "rnd ?t + of_nat T" "of_int (k + int T)"] small(2) rt by (auto intro: rnd_nonneg)
  have big: "(1000000000000 :: real) < overflow_bound" by (simp add: overflow_bound_def)
  have kb: "of_int (k + int T) \<le> (1000000000000 :: real)" using k(4) assms(2) by simp
  have fin: "fl ?t = Fin (rnd ?t)" "fl (of_nat T) = Fin (of_nat T)" "fl (rnd ?t + of_nat T) = Fin (rnd (rnd ?t + of_nat T))"
    using rt sum kb k(4) assms(2) big unfolding fl_def Let_def small(3) by auto
  have "deadline_after (of_nat T) w = Fin (rnd (rnd ?t + of_nat T))"
    using fin by (simp add: deadline_after_def wall_time_def u_def)
  then have "horizon (deadline_after (of_nat T) w) = unix_epoch + \<lceil>1000000 * rnd (rnd ?t + of_nat T)\<rceil>"
    by (simp add: horizon_def)
  also have "\<lceil>1000000 * rnd (rnd ?t + of_nat T)\<rceil> \<le> 1000000 * (k + int T)"
    using sum(1) by (simp add: ceiling_le_iff)
  finally show ?thesis using k(2) by (simp add: u_def)
qed

lemma before_deadline:
  assumes "before w1 deadline"
  shows "cd_now w1 < horizon deadline"
  using assms by (auto simp: before_def intro: below_horizon)

definition probe :: "string \<Rightarrow> string list" where
  "probe url = [''curl'', ''-fsSL'', ''--max-time'', ''5'', url]"

lemma poll_steps:
  assumes "poll_http ct url deadline w = (r, w1)"
  shows "\<exists>n. cd_trace w1 = cd_trace w @ concat (replicate n [Ran (probe url), Waited 3]) @
            (if r = Inr False then [] else [Ran (probe url)]) \<and>
          (0 < n \<longrightarrow> cd_now w + 3000000 * (int n - 1) < horizon deadline) \<and>
          (r = Inr False \<longrightarrow> \<not> before w1 deadline) \<and>
          (r = Inr True \<longrightarrow> (\<exists>w2 c. exec_command ct None (probe url) w2 = (Inr c, w1) \<and> cp_returncode c = 0))"
  using assms
proof (induction ct url deadline w arbitrary: r w1 rule: poll_http.induct)
  case (1 ct url deadline w)
  show ?case
  proof (cases "before w deadline")
    case False
    then have "r = Inr False" "w1 = w" using 1(2) by (simp_all add: poll_http.simps [of ct url deadline w])
    then show ?thesis using False by (intro exI [of _ 0]) simp
  next
    case True
    obtain q w2 where e: "exec_command ct None (probe url) w = (q, w2)" by fastforce
    then have tr: "cd_trace w2 = cd_trace w @ [Ran (probe url)]" and now: "cd_now w \<le> cd_now w2"
      by (auto simp: exec_command_def split: prod.splits)
    have step: "poll_http ct url deadline w = (case q of Inl e \<Rightarrow> (Inl e, w2)
       | Inr c \<Rightarrow> if cp_returncode c = 0 then (Inr True, w2) else poll_http ct url deadline (after_wait 3 w2))"
      using True e by (simp add: poll_http.simps [of ct url deadline w] probe_def split: sum.split)
    show ?thesis
    proof (cases "\<exists>c. q = Inr c \<and> cp_returncode c \<noteq> 0")
      case False
      then show ?thesis using 1(2) step tr e by (intro exI [of _ 0]) (auto split: sum.splits)
    next
      case again: True
      then obtain c where c: "q = Inr c" "cp_returncode c \<noteq> 0" by blast
      with step 1(2) have rest: "poll_http ct url deadline (after_wait 3 w2) = (r, w1)" by simp
      have "\<exists>n. cd_trace w1 = cd_trace (after_wait 3 w2) @ concat (replicate n [Ran (probe url), Waited 3]) @
              (if r = Inr False then [] else [Ran (probe url)]) \<and>
            (0 < n \<longrightarrow> cd_now (after_wait 3 w2) + 3000000 * (int n - 1) < horizon deadline) \<and>
            (r = Inr False \<longrightarrow> \<not> before w1 deadline) \<and>
            (r = Inr True \<longrightarrow> (\<exists>w2 c. exec_command ct None (probe url) w2 = (Inr c, w1) \<and> cp_returncode c = 0))"
        using 1(1) [OF True, of _ w2 c] e c rest by (simp add: probe_def)
      then obtain n where n: "cd_trace w1 = cd_trace (after_wait 3 w2) @ concat (replicate n [Ran (probe url), Waited 3]) @
              (if r = Inr False then [] else [Ran (probe url)])"
        "0 < n \<longrightarrow> cd_now (after_wait 3 w2) + 3000000 * (int n - 1) < horizon deadline"
        "r = Inr False \<longrightarrow> \<not> before w1 deadline"
        "r = Inr True \<longrightarrow> (\<exists>w2 c. exec_command ct None (probe url) w2 = (Inr c, w1) \<and> cp_returncode c = 0)" by blast
      have "cd_trace (after_wait 3 w2) = cd_trace w @ [Ran (probe url), Waited 3]"
        using tr by (simp add: after_wait_def wait_seconds_def)
      moreover have "cd_now w + 3000000 * int n < horizon deadline"
        using n(2) now before_deadline [OF True] by (cases n) auto
      ultimately show ?thesis using n(1,3,4) by (intro exI [of _ "Suc n"]) simp
    qed
  qed
qed

text \<open>
  C27. Waiting for a health endpoint ends: within \<open>T\<close> seconds at most \<open>T div 3 + 1\<close> failed probes are made, each
  followed by a pause of three seconds. The answer is true only after a probe that succeeded, and
  false only when the deadline has passed.\<close>

theorem wait_for_http_bounded:
  assumes "clock_ok w" "T \<le> 1000000" "wait_for_http ct url (of_nat T) w = (r, w1)"
  shows "(\<exists>n \<le> T div 3 + 1. cd_trace w1 = cd_trace w @ concat (replicate n [Ran (probe url), Waited 3]) @
            (if r = Inr False then [] else [Ran (probe url)])) \<and>
     (r = Inr True \<longrightarrow> (\<exists>w2 c. exec_command ct None (probe url) w2 = (Inr c, w1) \<and> cp_returncode c = 0)) \<and>
     (r = Inr False \<longrightarrow> \<not> before w1 (deadline_after (of_nat T) w))"
proof -
  obtain n where n: "cd_trace w1 = cd_trace w @ concat (replicate n [Ran (probe url), Waited 3]) @
            (if r = Inr False then [] else [Ran (probe url)])"
    "0 < n \<longrightarrow> cd_now w + 3000000 * (int n - 1) < horizon (deadline_after (of_nat T) w)"
    "r = Inr False \<longrightarrow> \<not> before w1 (deadline_after (of_nat T) w)"
    "r = Inr True \<longrightarrow> (\<exists>w2 c. exec_command ct None (probe url) w2 = (Inr c, w1) \<and> cp_returncode c = 0)"
    using poll_steps [OF assms(3) [unfolded wait_for_http_def]] by blast
  have "n \<le> T div 3 + 1" using n(2) deadline_bound [OF assms(1,2)] by (cases n) auto
  then show ?thesis using n by blast
qed

lemma sample_clock: "clock_ok sample_tree"
  by (simp add: clock_ok_def sample_tree_def unix_epoch_def us_per_day_def)

theorem wait_for_http_bounded_witness:
  "case wait_for_http sample_tools ''http://h/health'' (of_nat 300) sample_tree of (r, w1) \<Rightarrow>
     \<exists>n \<le> 101. cd_trace w1 = cd_trace sample_tree @ concat (replicate n [Ran (probe ''http://h/health''), Waited 3]) @
       (if r = Inr False then [] else [Ran (probe ''http://h/health'')])"
proof (cases "wait_for_http sample_tools ''http://h/health'' (of_nat 300) sample_tree")
  case (Pair r w1)
  show ?thesis using wait_for_http_bounded [OF sample_clock _ Pair] unfolding Pair prod.case by simp
qed

definition pauses :: "'x cloud \<Rightarrow> nat" where
  "pauses w = length (filter (\<lambda>x. x = Waited 8) (cd_trace w))"

lemma exec_pauses: "exec_command ct i c w = (r, w1) \<Longrightarrow> pauses w1 = pauses w"
  by (auto simp: exec_command_def pauses_def split: prod.splits)

lemma prepare_pauses: "pauses (snd (prepare_azure ct c w)) = pauses w"
  by (simp add: prepare_azure_def copy_tree_def make_dirs_def pauses_def split: list.split)

lemma run_pauses: "pauses (snd (run_with ct b as w)) = pauses w"
proof -
  have "pauses (snd (run_strings ct b c w)) = pauses w" for c
  proof (cases "prepare_azure ct c w")
    case (Pair q w2)
    then have w2: "pauses w2 = pauses w" using prepare_pauses [of ct c w] by simp
    obtain q3 w3 where e: "exec_command ct None c w2 = (q3, w3)" by fastforce
    show ?thesis using w2 exec_pauses [OF e] Pair e unfolding run_strings_def
      by (cases q; cases q3) auto
  qed
  then show ?thesis unfolding run_with_def by (cases "arguments as") simp_all
qed

lemma load_service_pauses: "load_apprunner_service ct a b w = (r, w1) \<Longrightarrow> pauses w1 = pauses w"
proof -
  have "pauses (snd (query_json ct as w)) = pauses w" for as
    unfolding query_json_def using run_pauses [of ct False as w]
    by (cases "run_with ct False as w"; cases "fst (run_with ct False as w)") auto
  then show "load_apprunner_service ct a b w = (r, w1) \<Longrightarrow> pauses w1 = pauses w"
    unfolding load_apprunner_service_def by (metis snd_conv)
qed

lemma wait_running_steps:
  assumes "wait_running ct arn region deadline l w = (r, w1)"
  shows "\<exists>n. pauses w1 = pauses w + n \<and>
          (0 < n \<longrightarrow> cd_now w + 8000000 * (int n - 1) < horizon deadline) \<and>
          (\<forall>p. r = Inr p \<longrightarrow> get_chain p [''Service'', ''Status''] = Inr (JStr ''RUNNING''))"
  using assms
proof (induction ct arn region deadline l w arbitrary: r w1 rule: wait_running.induct)
  case (1 ct arn region deadline l w)
  note unfold = wait_running.simps [of ct arn region deadline l w]
  show ?case
  proof (cases "before w deadline")
    case False
    then have "w1 = w" "\<forall>p. r \<noteq> Inr p" using 1(3) unfold by (auto simp: bindR_def split: sum.splits)
    then show ?thesis by (intro exI [of _ 0]) simp
  next
    case True
    obtain q w2 where e: "load_apprunner_service ct (Inr arn) (Inr region) w = (q, w2)" by fastforce
    have p2: "pauses w2 = pauses w" and now: "cd_now w \<le> cd_now w2"
      using load_service_pauses [OF e] load_service_forward [OF e] by simp_all
    have again: ?thesis if rest: "wait_running ct arn region deadline l' (after_wait 8 w2) = (r, w1)"
      and IH: "\<exists>n. pauses w1 = pauses (after_wait 8 w2) + n \<and>
          (0 < n \<longrightarrow> cd_now (after_wait 8 w2) + 8000000 * (int n - 1) < horizon deadline) \<and>
          (\<forall>p. r = Inr p \<longrightarrow> get_chain p [''Service'', ''Status''] = Inr (JStr ''RUNNING''))" for l'
    proof -
      from IH obtain n where n: "pauses w1 = pauses (after_wait 8 w2) + n"
        "0 < n \<longrightarrow> cd_now (after_wait 8 w2) + 8000000 * (int n - 1) < horizon deadline"
        "\<forall>p. r = Inr p \<longrightarrow> get_chain p [''Service'', ''Status''] = Inr (JStr ''RUNNING'')" by blast
      have "pauses (after_wait 8 w2) = Suc (pauses w)"
        using p2 by (simp add: after_wait_def wait_seconds_def pauses_def)
      moreover have "cd_now w + 8000000 * int n < horizon deadline"
        using n(2) now before_deadline [OF True] by (cases n) auto
      ultimately show ?thesis using n(1,3) by (intro exI [of _ "Suc n"]) simp
    qed
    show ?thesis
    proof (cases q)
      case (Inl x)
      then have "r = Inl x" "w1 = w2" using True e 1(3) unfold by simp_all
      then show ?thesis using p2 by (intro exI [of _ 0]) simp
    next
      case (Inr payload)
      show ?thesis
      proof (cases "jtruth payload")
        case False
        then have rest: "wait_running ct arn region deadline l (after_wait 8 w2) = (r, w1)"
          using True e 1(3) unfold Inr by simp
        show ?thesis using again [OF rest 1(2) [OF True _ Inr False rest]] e by auto
      next
        case truth: True
        show ?thesis
        proof (cases "inspect_service payload")
          case (Inl x)
          then have "r = Inl x" "w1 = w2" using True e 1(3) unfold Inr truth by simp_all
          then show ?thesis using p2 by (intro exI [of _ 0]) simp
        next
          case up: (Inr up)
          show ?thesis
          proof (cases up)
            case True
            then have "r = Inr payload" "w1 = w2" using \<open>before w deadline\<close> e 1(3) unfold Inr truth up by simp_all
            moreover have "get_chain payload [''Service'', ''Status''] = Inr (JStr ''RUNNING'')"
              using up True unfolding inspect_service_def
              by (cases "get_chain payload [''Service'', ''Status'']") (auto simp: bindR_def split: sum.splits if_splits)
            ultimately show ?thesis using p2 by (intro exI [of _ 0]) simp
          next
            case False
            then have rest: "wait_running ct arn region deadline payload (after_wait 8 w2) = (r, w1)"
              using True e 1(3) unfold Inr truth up by simp
            show ?thesis using again [OF rest 1(1) [OF True _ Inr truth up _ rest]] e False by auto
          qed
        qed
      qed
    qed
  qed
qed

text \<open>
  Waiting for an App Runner service ends after at most 76 pauses of eight seconds, and returns
  only a description whose status is RUNNING; everything else is an exception.\<close>

theorem wait_for_apprunner_bounded:
  assumes "clock_ok w" "wait_for_apprunner_running ct service_arn region w = (r, w1)"
  shows "pauses w1 \<le> pauses w + 76 \<and>
     (\<forall>p. r = Inr p \<longrightarrow> get_chain p [''Service'', ''Status''] = Inr (JStr ''RUNNING''))"
proof -
  obtain n where n: "pauses w1 = pauses w + n"
    "0 < n \<longrightarrow> cd_now w + 8000000 * (int n - 1) < horizon (deadline_after 600 w)"
    "\<forall>p. r = Inr p \<longrightarrow> get_chain p [''Service'', ''Status''] = Inr (JStr ''RUNNING'')"
    using wait_running_steps [OF assms(2) [unfolded wait_for_apprunner_running_def]] by blast
  have "horizon (deadline_after 600 w) \<le> cd_now w + 601000000"
    using deadline_bound [OF assms(1), of 600] by simp
  then have "n \<le> 76" using n(2) by (cases n) auto
  then show ?thesis using n by simp
qed

definition running_reply :: string where
  "running_reply = CHR 123 # CHR 34 # ''Service'' @ CHR 34 # '':'' @ CHR 123 # CHR 34 # ''Status'' @ CHR 34 # '':'' @
     CHR 34 # ''RUNNING'' @ CHR 34 # [CHR 125, CHR 125]"

theorem wait_for_apprunner_bounded_witness:
  "case wait_for_apprunner_running
      (sample_tools\<lparr>tl_exec := (\<lambda>command stdin x. (Inr \<lparr>cp_returncode = 0, cp_stdout = running_reply, cp_stderr = []\<rparr>, 1000, x))\<rparr>)
      (JStr ''arn'') (JStr ''us-east-1'') sample_tree of (r, w1) \<Rightarrow>
     pauses w1 \<le> 76 \<and> (\<forall>p. r = Inr p \<longrightarrow> get_chain p [''Service'', ''Status''] = Inr (JStr ''RUNNING''))"
proof (cases "wait_for_apprunner_running
      (sample_tools\<lparr>tl_exec := (\<lambda>command stdin x. (Inr \<lparr>cp_returncode = 0, cp_stdout = running_reply, cp_stderr = []\<rparr>, 1000, x))\<rparr>)
      (JStr ''arn'') (JStr ''us-east-1'') sample_tree")
  case (Pair r w1)
  have "pauses sample_tree = 0" by (simp add: pauses_def sample_tree_def)
  then show ?thesis using wait_for_apprunner_bounded [OF sample_clock Pair] unfolding Pair prod.case by simp
qed

section \<open>Environments and names\<close>

text \<open>How \<open>gcloud\<close> reads \<open>--set-env-vars ^@^...\<close>: pairs between at signs, cut at the first equals sign.\<close>

definition gcloud_pairs :: "string \<Rightarrow> (string \<times> string) list" where
  "gcloud_pairs s = map (\<lambda>p. (takeWhile (\<lambda>c. c \<noteq> CHR ''='') p, drop 1 (dropWhile (\<lambda>c. c \<noteq> CHR ''='') p)))
     (split_on (CHR ''@'') (drop 3 s))"

lemma env_parts_strings:
  assumes "\<forall>(k, v) \<in> set env. \<exists>t. v = JStr t"
  shows "env_parts env =
     (case find (\<lambda>(k, v). CHR ''@'' \<in> set (py_str v)) env of
        None \<Rightarrow> Inr (map (\<lambda>(k, v). k @ ''='' @ py_str v) env)
      | Some (k, v) \<Rightarrow> Inl (SystemExit (''Cloud Run env var '' @ k @ '' cannot contain '' @ [CHR 39] @ ''@'' @ [CHR 39] @
                        '' (used as our delimiter)'')))"
  using assms
proof (induction env)
  case (Cons x env)
  obtain k t where x: "x = (k, JStr t)" using Cons.prems by auto
  have "\<forall>(k, v) \<in> set env. \<exists>t. v = JStr t" using Cons.prems by simp
  note IH = Cons.IH [OF this]
  show ?case
    unfolding x by (simp add: contains_at_def py_str_def IH split: option.split)
qed simp

lemma string_values:
  "\<forall>(k, v) \<in> set env. (\<exists>t. v = JStr t) \<and> P k \<and> Q k \<Longrightarrow> \<forall>(k, v) \<in> set env. \<exists>t. v = JStr t"
  by fastforce

lemma cut_pair: "CHR ''='' \<notin> set k \<Longrightarrow>
    takeWhile (\<lambda>c. c \<noteq> CHR ''='') (k @ CHR ''='' # t) = k \<and> dropWhile (\<lambda>c. c \<noteq> CHR ''='') (k @ CHR ''='' # t) = CHR ''='' # t"
  by (induction k) auto

text \<open>
  The environment handed to Cloud Run is read back pair by pair as it was meant, or the deployment
  stops because a value contains the delimiter.\<close>

theorem cloudrun_env_roundtrip:
  assumes "env \<noteq> []" "\<forall>(k, v) \<in> set env. (\<exists>t. v = JStr t) \<and> CHR ''@'' \<notin> set k \<and> CHR ''='' \<notin> set k"
  shows "(\<exists>s. encode_cloudrun_env_vars env = Inr s \<and> gcloud_pairs s = map (\<lambda>(k, v). (k, py_str v)) env) \<or>
     (\<exists>k v m. (k, v) \<in> set env \<and> CHR ''@'' \<in> set (py_str v) \<and> encode_cloudrun_env_vars env = Inl (SystemExit m))"
proof (cases "find (\<lambda>(k, v). CHR ''@'' \<in> set (py_str v)) env")
  case None
  let ?ps = "map (\<lambda>(k, v). k @ ''='' @ py_str v) env"
  have "env_parts env = Inr ?ps" using env_parts_strings [OF string_values [OF assms(2)]] None by simp
  then have enc: "encode_cloudrun_env_vars env = Inr (''^@^'' @ join ''@'' ?ps)"
    by (simp add: encode_cloudrun_env_vars_def)
  have "split_on (CHR ''@'') (join ''@'' ?ps) = ?ps"
    using assms None by (intro split_join) (fastforce simp: find_None_iff)+
  moreover have "(takeWhile (\<lambda>c. c \<noteq> CHR ''='') p, drop 1 (dropWhile (\<lambda>c. c \<noteq> CHR ''='') p)) = (k, py_str v)"
    if "(k, v) \<in> set env" "p = k @ ''='' @ py_str v" for p k v
    using that assms(2) cut_pair [of k "py_str v"] by auto
  ultimately have "gcloud_pairs (''^@^'' @ join ''@'' ?ps) = map (\<lambda>(k, v). (k, py_str v)) env"
    by (auto simp: gcloud_pairs_def)
  with enc show ?thesis by blast
next
  case (Some kv)
  obtain k v where kv: "kv = (k, v)" by (cases kv)
  then have "(k, v) \<in> set env" "CHR ''@'' \<in> set (py_str v)" using Some nth_mem by (fastforce simp: find_Some_iff)+
  moreover have "\<exists>m. encode_cloudrun_env_vars env = Inl (SystemExit m)"
    using env_parts_strings [OF string_values [OF assms(2)]] Some kv by (simp add: encode_cloudrun_env_vars_def)
  ultimately show ?thesis by blast
qed

theorem cloudrun_env_roundtrip_witness:
  "\<exists>s. encode_cloudrun_env_vars [(''APP_ENV'', JStr ''cloud''), (''BASE_URL'', JStr ''https://a?b=c'')] = Inr s \<and>
     gcloud_pairs s = [(''APP_ENV'', ''cloud''), (''BASE_URL'', ''https://a?b=c'')]"
proof -
  have "(\<exists>s. encode_cloudrun_env_vars [(''APP_ENV'', JStr ''cloud''), (''BASE_URL'', JStr ''https://a?b=c'')] = Inr s \<and>
      gcloud_pairs s = map (\<lambda>(k, v). (k, py_str v)) [(''APP_ENV'', JStr ''cloud''), (''BASE_URL'', JStr ''https://a?b=c'')]) \<or>
     (\<exists>k v m. (k, v) \<in> set [(''APP_ENV'', JStr ''cloud''), (''BASE_URL'', JStr ''https://a?b=c'')] \<and>
       CHR ''@'' \<in> set (py_str v) \<and>
       encode_cloudrun_env_vars [(''APP_ENV'', JStr ''cloud''), (''BASE_URL'', JStr ''https://a?b=c'')] = Inl (SystemExit m))"
    by (rule cloudrun_env_roundtrip) simp_all
  then show ?thesis by (auto simp: py_str_def)
qed

lemma sha1_step_length: "length st = 5 \<Longrightarrow> length (sha1_step st tw) = 5"
  by (auto simp: sha1_step_def length_Suc_conv eval_nat_numeral split: prod.split)

lemma sha1_fold_length: "length st = 5 \<Longrightarrow> length (foldl sha1_step st tws) = 5"
  by (induction tws arbitrary: st) (simp_all add: sha1_step_length)

lemma sha1_block_length: "length st = 5 \<Longrightarrow> length (sha1_block st bs) = 5"
  by (simp add: sha1_block_def Let_def sha1_fold_length)

lemma sha1_blocks_length: "length st = 5 \<Longrightarrow> length (foldl sha1_block st bss) = 5"
  by (induction bss arbitrary: st) (simp_all add: sha1_block_length)

definition name_char :: "char \<Rightarrow> bool" where
  "name_char c \<longleftrightarrow> is_digit c \<or> (97 \<le> (of_char c :: nat) \<and> (of_char c :: nat) \<le> 122)"

lemma hex_digit_name: "d < 16 \<Longrightarrow> name_char (hex_digit d)"
  by (auto simp: name_char_def hex_digit_def is_digit_def)

lemma hex_words:
  "length (concat (map (\<lambda>w. hex_of 8 (unat w)) ws)) = 8 * length (ws :: u32 list)"
  "list_all name_char (concat (map (\<lambda>w. hex_of 8 (unat w)) ws))"
  by (induction ws) (auto simp: hex_of_def list_all_iff intro: hex_digit_name)

lemma sha1_hex_shape: "length (sha1_hex s) = 40" "list_all name_char (sha1_hex s)"
  by (simp_all add: sha1_hex_def Let_def hex_words sha1_blocks_length)

text \<open>
  The names made up for the Azure registry and storage account keep Azure's rules (lower-case letters
  and digits, at most 50 and 24 characters) whatever the subscription, and depend only on the
  subscription, the resource group and the location.\<close>

theorem azure_names_valid:
  assumes "azure_suffix ct args w = (Inr suffix, w1)"
  shows "length suffix = 10 \<and>
     (\<forall>n \<in> {take 50 (''qtanacr'' @ suffix), take 24 (''qtanom'' @ suffix)}. list_all name_char n \<and> length n \<in> {16, 17}) \<and>
     (\<exists>subscription_id. subscription_id \<noteq> [] \<and> suffix = stable_name_suffix
        (subscription_id @ '':'' @ ca_azure_resource_group args @ '':'' @ ca_azure_location args) 10)"
proof -
  obtain v where v: "suffix = stable_name_suffix
        ((if v = [] then ''local'' else v) @ '':'' @ ca_azure_resource_group args @ '':'' @ ca_azure_location args) 10"
    using assms unfolding azure_suffix_def
    by (auto simp: bindS_def Let_def split: prod.splits sum.splits)
  define i where "i = (if v = [] then ''local'' else v)"
  with v have i: "i \<noteq> []" "suffix = stable_name_suffix
        (i @ '':'' @ ca_azure_resource_group args @ '':'' @ ca_azure_location args) 10" by simp_all
  have "length suffix = 10" "list_all name_char suffix"
    using sha1_hex_shape i(2) by (auto simp: stable_name_suffix_def list_all_iff dest: in_set_takeD)
  then show ?thesis using i by (auto simp: name_char_def is_digit_def)
qed

theorem azure_names_valid_witness:
  "\<exists>suffix w1. azure_suffix sample_tools default_args sample_tree = (Inr suffix, w1) \<and> length suffix = 10"
proof -
  have "\<exists>suffix w1. azure_suffix sample_tools default_args sample_tree = (Inr suffix, w1)"
    by (simp add: azure_suffix_def output_value_def run_cmd_def run_with_def run_strings_def arguments_def lits_def as_arg_def
        prepare_azure_def make_dirs_def exec_command_def sample_tools_def sample_tree_def Let_def bindR_def)
  then show ?thesis using azure_names_valid by blast
qed

end
