(* ===== verification/CloudDeploySpec.thy ===== *)
theory CloudDeploySpec
  imports CloudSpec
begin

text \<open>
  What provisioning keeps of an earlier run, when the bootstrap stops before it does anything, when it
  seeds the portfolio, and which configuration a deployed service is left with.
\<close>

section \<open>Provisioning\<close>

lemma bindS_Inr: "bindS r f = (Inr y, w1) \<longleftrightarrow> (\<exists>x w. r = (Inr x, w) \<and> f x w = (Inr y, w1))"
  by (cases r; cases "fst r") auto

text \<open>The manifest of the earlier run as far as it is used.\<close>

definition earlier_run :: "'x tools \<Rightarrow> cloud_args \<Rightarrow> 'x cloud \<Rightarrow> json result" where
  "earlier_run ct args w =
     bindR (fst (load_manifest ct ''aws'' w)) (\<lambda>m. reusable ''app_runner'' (ca_replace args) (jor m (JObj [])))"

lemma load_manifest_state [simp]: "snd (load_manifest ct name w) = w"
  by (simp add: load_manifest_def split: option.split file_content.split)

lemma load_manifest_Inr: "load_manifest ct name w = (Inr m, w1) \<longleftrightarrow> w1 = w \<and> fst (load_manifest ct name w) = Inr m"
  by (metis fst_conv load_manifest_state prod.collapse snd_conv)

lemma service_block_keeps:
  assumes "service_block existing kind args name repo uri port = Inr b"
    and "k \<in> {''service_arn'', ''base_url'', ''image_ref'', ''image_tag''}"
  shows "json_get b k JNull = get_chain existing [kind, k]"
  using assms by (auto simp: service_block_def bindR_Inr_iff)

lemma save_manifest_eq:
  "save_manifest ct name p w = (Inr p, w\<lparr>cd_dirs := (\<lambda>q. cd_dirs w q \<or> q = tl_root ct @ ''/dist/live'' \<or> under q (tl_root ct @ ''/dist/live'')),
     cd_fs := (cd_fs w)(manifest_path ct name \<mapsto> JsonFile (sorted_json p))\<rparr>)"
  by (simp add: save_manifest_def make_dirs_def)

lemma provision_aws_result:
  assumes "provision_aws ct args w = (Inr m, w1)"
  obtains existing region registry_block ingestion_block account_id host role_arn s1 r1 u1 s2 r2 u2
    where "earlier_run ct args w = Inr existing"
    "pick (Some (ca_aws_region args)) existing [''region''] ''us-east-1'' = Inr region"
    "service_block existing ''registry'' args s1 r1 u1 apprunner_registry_port = Inr registry_block"
    "service_block existing ''ingestion'' args s2 r2 u2 apprunner_ingestion_port = Inr ingestion_block"
    "m = JObj [(''type'', JStr ''app_runner''), (''account_id'', account_id), (''region'', region),
       (''registry_host'', host), (''ecr_access_role_arn'', JStr role_arn),
       (''registry'', registry_block), (''ingestion'', ingestion_block)]"
    "cd_fs w1 (manifest_path ct ''aws'') = Some (JsonFile (sorted_json m))"
  using assms unfolding provision_aws_def Let_def step_simps bindS_Inr load_manifest_Inr save_manifest_eq prod.inject
proof (elim exE conjE, goal_cases)
  case 1
  show ?case by (rule 1(1)) (use 1(2-) in \<open>auto simp: earlier_run_def\<close>)
qed

text \<open>
  Provisioning AWS again keeps, from a manifest of the right type, the address, the service and the image of both
  services, and takes the region from the arguments alone: its default is never empty, so the
  region of the manifest is not used, while the service of that region is still recorded.\<close>

theorem provision_aws_keeps:
  assumes "provision_aws ct args w = (Inr m, w1)" "ca_aws_region args \<noteq> []"
  shows "\<exists>existing. earlier_run ct args w = Inr existing \<and>
     json_item m ''region'' = Inr (JStr (ca_aws_region args)) \<and>
     (\<forall>kind \<in> {''registry'', ''ingestion''}. \<forall>k \<in> {''service_arn'', ''base_url'', ''image_ref'', ''image_tag''}.
        get_chain m [kind, k] = get_chain existing [kind, k]) \<and>
     cd_fs w1 (manifest_path ct ''aws'') = Some (JsonFile (sorted_json m))"
proof (rule provision_aws_result [OF assms(1)], goal_cases)
  case (1 existing region registry_block ingestion_block account_id host role_arn s1 r1 u1 s2 r2 u2)
  have "region = JStr (ca_aws_region args)" using 1(2) assms(2) by (cases "ca_aws_region args") (simp_all add: pick_def)
  moreover have "get_chain m [''registry'', k] = get_chain existing [''registry'', k]"
    "get_chain m [''ingestion'', k] = get_chain existing [''ingestion'', k]"
    if "k \<in> {''service_arn'', ''base_url'', ''image_ref'', ''image_tag''}" for k
    using service_block_keeps [OF 1(3) that] service_block_keeps [OF 1(4) that] 1(5) by simp_all
  ultimately show ?case using 1(1,5,6) by auto
qed

definition repository_reply :: string where
  "repository_reply = stable_json_dumps (JObj [(''repositories'', JList [JObj [(''repositoryUri'', JStr ''1.dkr/repo'')]])])"

definition aws_tools :: "unit tools" where
  "aws_tools = sample_tools\<lparr>tl_exec := (\<lambda>command stdin x.
     (Inr \<lparr>cp_returncode = 0, cp_stdout = repository_reply, cp_stderr = []\<rparr>, 1000, x))\<rparr>"

definition european_manifest :: json where
  "european_manifest = JObj [(''type'', JStr ''app_runner''), (''account_id'', JStr ''1''), (''region'', JStr ''eu-west-1''),
     (''registry'', JObj [(''service_arn'', JStr ''arn:aws:apprunner:eu-west-1:1:service/r'')]), (''ingestion'', JObj [])]"

definition european_world :: "unit cloud" where
  "european_world = sample_tree\<lparr>cd_fs := (cd_fs sample_tree)(''/r/dist/live/aws.json'' \<mapsto> JsonFile european_manifest)\<rparr>"

theorem provision_aws_keeps_witness:
  "case provision_aws aws_tools default_args european_world of (r, w1) \<Rightarrow>
     \<exists>m. r = Inr m \<and> json_item m ''region'' = Inr (JStr ''us-east-1'') \<and>
       get_chain m [''registry'', ''service_arn''] = Inr (JStr ''arn:aws:apprunner:eu-west-1:1:service/r'')"
proof (cases "provision_aws aws_tools default_args european_world")
  case (Pair r w1)
  have "case provision_aws aws_tools default_args european_world of (r, w1) \<Rightarrow> \<not> isl r" by code_simp
  then obtain m where r: "r = Inr m" using Pair by (cases r) auto
  have "earlier_run aws_tools default_args european_world = Inr european_manifest"
    by (simp add: earlier_run_def load_manifest_def manifest_path_def european_world_def aws_tools_def sample_tools_def
        reusable_def jor_def european_manifest_def default_args_def)
  then show ?thesis
    using provision_aws_keeps [OF Pair [unfolded r]] r
    unfolding Pair prod.case by (auto simp: default_args_def european_manifest_def)
qed

section \<open>The bootstrap\<close>

text \<open>
  Without the manifests of all three providers the bootstrap stops with their names, before any command
  is run or any file is written.\<close>

theorem bootstrap_refuses_early:
  assumes "fst (load_manifest ct ''aws'' w) = Inr aws" "fst (load_manifest ct ''azure'' w) = Inr azure"
    "fst (load_manifest ct ''gcp'' w) = Inr gcp"
    and "missing_manifests aws azure gcp = Inr missing" "missing \<noteq> []"
  shows "bootstrap_hosts ct w = (Inl (SystemExit (''Missing live manifest(s): '' @ join '', '' missing)), w) \<and>
     set missing \<subseteq> {''aws'', ''azure'', ''gcp''} \<and>
     (aws = JNull \<longrightarrow> ''aws'' \<in> set missing) \<and> (azure = JNull \<longrightarrow> ''azure'' \<in> set missing) \<and>
     (gcp = JNull \<longrightarrow> ''gcp'' \<in> set missing)"
proof -
  have load: "load_manifest ct ''aws'' w = (Inr aws, w)" "load_manifest ct ''azure'' w = (Inr azure, w)"
    "load_manifest ct ''gcp'' w = (Inr gcp, w)"
    using assms(1-3) by (simp_all add: load_manifest_Inr)
  have "bootstrap_hosts ct w = (Inl (SystemExit (''Missing live manifest(s): '' @ join '', '' missing)), w)"
    using assms(5) by (simp add: bootstrap_hosts_def load assms(4))
  moreover have "set missing \<subseteq> {''aws'', ''azure'', ''gcp''} \<and>
     (aws = JNull \<longrightarrow> ''aws'' \<in> set missing) \<and> (azure = JNull \<longrightarrow> ''azure'' \<in> set missing) \<and>
     (gcp = JNull \<longrightarrow> ''gcp'' \<in> set missing)"
  proof -
    obtain a z g where m: "missing = (if a then [''aws''] else []) @ (if z then [''azure''] else []) @ (if g then [''gcp''] else [])"
      and b: "any_of [Inr (\<not> jtruth aws), bindR (json_get aws ''type'' JNull) (\<lambda>t. Inr (t \<noteq> JStr ''app_runner'')),
              lacks aws [''registry'', ''ecr_repository_uri''], lacks aws [''ingestion'', ''ecr_repository_uri'']] = Inr a"
        "any_of [Inr (\<not> jtruth azure), lacks azure [''app_name'']] = Inr z"
        "any_of [Inr (\<not> jtruth gcp), lacks gcp [''service_name''], lacks gcp [''project''], lacks gcp [''region'']] = Inr g"
      using assms(4) unfolding missing_manifests_def bindR_Inr_iff sum.inject by blast
    have "aws = JNull \<Longrightarrow> a" "azure = JNull \<Longrightarrow> z" "gcp = JNull \<Longrightarrow> g" using b by simp_all
    then show ?thesis unfolding m by auto
  qed
  ultimately show ?thesis by simp
qed

theorem bootstrap_refuses_early_witness:
  "bootstrap_hosts sample_tools sample_tree =
     (Inl (SystemExit ''Missing live manifest(s): aws, azure, gcp''), sample_tree)"
proof -
  have m: "fst (load_manifest sample_tools ''aws'' sample_tree) = Inr JNull"
    "fst (load_manifest sample_tools ''azure'' sample_tree) = Inr JNull"
    "fst (load_manifest sample_tools ''gcp'' sample_tree) = Inr JNull"
    by (simp_all add: load_manifest_def manifest_path_def sample_tools_def sample_tree_def)
  have missing: "missing_manifests JNull JNull JNull = Inr [''aws'', ''azure'', ''gcp'']"
    by (simp add: missing_manifests_def)
  have "join '', '' [''aws'', ''azure'', ''gcp''] = ''aws, azure, gcp''" by simp
  then show ?thesis using bootstrap_refuses_early [OF m missing] by simp
qed

definition posts :: "'x cloud \<Rightarrow> cloud_effect list" where
  "posts w = filter (\<lambda>x. \<exists>u b. x = Posted u b) (cd_trace w)"

lemma poll_posts: "wait_for_http ct url T w = (r, w1) \<Longrightarrow> posts w1 = posts w"
proof -
  assume "wait_for_http ct url T w = (r, w1)"
  then obtain n where "cd_trace w1 = cd_trace w @ concat (replicate n [Ran (probe url), Waited 3]) @
            (if r = Inr False then [] else [Ran (probe url)])"
    using poll_steps unfolding wait_for_http_def by blast
  moreover have "filter (\<lambda>x. \<exists>u b. x = Posted u b) (concat (replicate n [Ran (probe url), Waited 3])) = []" for n
    by (induction n) simp_all
  ultimately show ?thesis by (simp add: posts_def)
qed

text \<open>
  The demo portfolio is posted exactly when the risk service answered, once, after all four
  services were probed; what is recorded as seeded is what that request returned.\<close>

theorem portfolio_seeded_iff_risk_healthy:
  assumes "check_health ct e w = (Inr hs, w1)"
  shows "\<exists>risk seeded u. map_of hs ''risk'' = Some (JBool risk) \<and> map_of hs ''portfolio_seeded'' = Some (JBool seeded) \<and>
     map_of e ''RISK_URL'' = Some u \<and> (seeded \<longrightarrow> risk) \<and>
     posts w1 = posts w @ (if risk then [Posted (py_str u @ ''/risk/portfolio'') deploy_portfolio] else [])"
proof -
  obtain u1 u2 u3 u4 b1 b2 b3 b4 s v1 v2 v3 v4 where
    u: "endpoint e ''RISK_URL'' = Inr u4"
    and w: "wait_for_http ct (health_url u1) 300 w = (Inr b1, v1)" "wait_for_http ct (health_url u2) 300 v1 = (Inr b2, v2)"
      "wait_for_http ct (health_url u3) 300 v2 = (Inr b3, v3)" "wait_for_http ct (health_url u4) 300 v3 = (Inr b4, v4)"
    and s: "(if \<not> b4 then retC False
            else bindC (seed_portfolio ct u4) (\<lambda>r.
              case r of Seeded \<Rightarrow> retC True | UrlError \<Rightarrow> retC False | OtherError err \<Rightarrow> failC err)) v4 = (Inr s, w1)"
    and hs: "hs = [(''registry'', JBool b1), (''ingestion'', JBool b2), (''anomaly'', JBool b3),
             (''risk'', JBool b4), (''portfolio_seeded'', JBool s)]"
    using assms unfolding check_health_def step_simps bindS_Inr prod.inject
    by (elim exE conjE) blast
  have "posts v4 = posts w" using w poll_posts by metis
  moreover have "(s \<longrightarrow> b4) \<and> posts w1 = posts v4 @ (if b4 then [Posted (py_str u4 @ ''/risk/portfolio'') deploy_portfolio] else [])"
    using s by (cases b4)
      (auto simp: seed_portfolio_def posts_def split: seeding.splits prod.splits)
  moreover have "map_of e ''RISK_URL'' = Some u4" using u by (simp add: endpoint_def split: option.splits)
  ultimately show ?thesis using hs by auto
qed

text \<open>A fresh deadline of a few seconds has not passed, so at least one probe is made.\<close>

lemma deadline_ahead:
  assumes "clock_ok w" "2 \<le> T" "T \<le> 1000000"
  shows "before w (deadline_after (of_nat T) w)"
proof -
  define u where "u = cd_now w - unix_epoch"
  define k where "k = u div 1000000"
  have u: "0 \<le> u" "u < 1000000 * 400000000000"
    using assms(1) by (simp_all add: u_def clock_ok_def unix_epoch_def us_per_day_def)
  have k: "1000000 * k \<le> u" "u \<le> 1000000 * (k + 1)" "0 \<le> k" "k < 400000000000" using u by (auto simp: k_def)
  let ?t = "of_int u / 1000000 :: real"
  have "(of_int (1000000 * k) :: real) \<le> of_int u" "(of_int u :: real) \<le> of_int (1000000 * (k + 1))"
    using k(1,2) by (simp_all only: of_int_le_iff)
  then have t: "of_int k \<le> ?t" "?t \<le> of_int (k + 1)" by simp_all
  have small: "rnd (of_int k) = of_int k" "rnd (of_int (k + 1)) = of_int (k + 1)"
    "rnd (of_int (k + int T)) = of_int (k + int T)" "rnd (of_nat T) = of_nat T"
    using k(3,4) assms(3) by (intro rnd_of_int rnd_of_nat; simp)+
  have rt: "of_int k \<le> rnd ?t" "rnd ?t \<le> of_int (k + 1)"
    using rnd_mono [OF t(1)] rnd_mono [OF t(2)] small(1,2) by simp_all
  have sum: "of_int (k + int T) \<le> rnd (rnd ?t + of_nat T)" "rnd (rnd ?t + of_nat T) \<le> of_int (k + 1 + int T)"
    using rnd_mono [of "of_int (k + int T)" "rnd ?t + of_nat T"] rnd_mono [of "rnd ?t + of_nat T" "of_int (k + 1 + int T)"]
      small(3) rt rnd_of_int [of "k + 1 + int T"] k(3,4) assms(3) by simp_all
  have kb: "of_int (k + 1 + int T) \<le> (1000000000000 :: real)" "(0 :: real) \<le> of_int k" using k(3,4) assms(3) by simp_all
  have big: "(1000000000000 :: real) < overflow_bound" by (simp add: overflow_bound_def)
  have fin: "fl ?t = Fin (rnd ?t)" "fl (of_nat T) = Fin (of_nat T)" "fl (rnd ?t + of_nat T) = Fin (rnd (rnd ?t + of_nat T))"
    using rt sum kb big assms(2) unfolding fl_def Let_def small(4) by auto
  have "rnd ?t < rnd (rnd ?t + of_nat T)" using rt(2) sum(1) assms(2) by simp
  moreover have "wall_time w = Fin (rnd ?t)" using fin(1) by (simp add: wall_time_def u_def)
  moreover have "deadline_after (of_nat T) w = Fin (rnd (rnd ?t + of_nat T))"
    using fin by (simp add: deadline_after_def wall_time_def u_def)
  ultimately show ?thesis using deadline_double [of "of_nat T" w] by (simp add: before_def)
qed

lemma healthy_probe:
  assumes "clock_ok w" "2 \<le> T" "T \<le> 1000000" "exec_command ct None (probe url) w = (Inr c, w1)" "cp_returncode c = 0"
  shows "wait_for_http ct url (of_nat T) w = (Inr True, w1)"
  unfolding wait_for_http_def
  using deadline_ahead [OF assms(1-3)] assms(4,5) by (simp add: poll_http.simps probe_def)

lemma sample_probe:
  assumes "cd_now w = unix_epoch + n" "0 \<le> n" "n < 1800000000000000"
  obtains w1 where "wait_for_http sample_tools url 300 w = (Inr True, w1)" "cd_now w1 = unix_epoch + (n + 1000)"
proof -
  obtain c w1 where e: "exec_command sample_tools None (probe url) w = (Inr c, w1)" "cp_returncode c = 0"
    "cd_now w1 = unix_epoch + (n + 1000)"
    using assms(1) by (simp add: exec_command_def sample_tools_def)
  moreover have "clock_ok w" using assms by (simp add: clock_ok_def unix_epoch_def us_per_day_def)
  ultimately show thesis using healthy_probe [OF _ _ _ e(1,2), of 300] that by simp
qed

theorem portfolio_seeded_iff_risk_healthy_witness:
  "\<exists>hs w1. check_health sample_tools [(''REGISTRY_URL'', JStr ''http://a''), (''INGESTION_URL'', JStr ''http://b''),
       (''RISK_URL'', JStr ''http://c''), (''ANOMALY_URL'', JStr ''http://d'')] sample_tree = (Inr hs, w1) \<and>
     posts w1 = [Posted ''http://c/risk/portfolio'' deploy_portfolio]"
proof -
  let ?e = "[(''REGISTRY_URL'', JStr ''http://a''), (''INGESTION_URL'', JStr ''http://b''),
       (''RISK_URL'', JStr ''http://c''), (''ANOMALY_URL'', JStr ''http://d'')]"
  have 0: "cd_now sample_tree = unix_epoch + 1700000000000000" by (simp add: sample_tree_def)
  obtain v1 where 1: "wait_for_http sample_tools (health_url (JStr ''http://a'')) 300 sample_tree = (Inr True, v1)"
    "cd_now v1 = unix_epoch + 1700000000001000" by (rule sample_probe [OF 0]) simp_all
  obtain v2 where 2: "wait_for_http sample_tools (health_url (JStr ''http://b'')) 300 v1 = (Inr True, v2)"
    "cd_now v2 = unix_epoch + 1700000000002000" by (rule sample_probe [OF 1(2)]) simp_all
  obtain v3 where 3: "wait_for_http sample_tools (health_url (JStr ''http://d'')) 300 v2 = (Inr True, v3)"
    "cd_now v3 = unix_epoch + 1700000000003000" by (rule sample_probe [OF 2(2)]) simp_all
  obtain v4 where 4: "wait_for_http sample_tools (health_url (JStr ''http://c'')) 300 v3 = (Inr True, v4)"
    by (rule sample_probe [OF 3(2)]) simp_all
  have "\<exists>hs w1. check_health sample_tools ?e sample_tree = (Inr hs, w1) \<and> map_of hs ''risk'' = Some (JBool True)"
    using 1(1) 2(1) 3(1) 4 by (simp add: check_health_def endpoint_def seed_portfolio_def sample_tools_def)
  then obtain hs w1 where hs: "check_health sample_tools ?e sample_tree = (Inr hs, w1)" "map_of hs ''risk'' = Some (JBool True)"
    by blast
  have "posts sample_tree = []" by (simp add: posts_def sample_tree_def)
  with portfolio_seeded_iff_risk_healthy [OF hs(1)] hs show ?thesis by (auto simp: py_str_def)
qed

end
