(* ===== verification/CloudRollout.thy ===== *)
theory CloudRollout
  imports CloudDeploySpec
begin

text \<open>
  The configuration a service on App Runner is left with: the last one sent carries the address and the
  image that the manifest records, although the address is known only after the first one.
\<close>

definition sends_config :: "cloud_effect \<Rightarrow> bool" where
  "sends_config x \<longleftrightarrow> (\<exists>c. x = Ran c \<and>
     take 3 c \<in> {[''aws'', ''apprunner'', ''create-service''], [''aws'', ''apprunner'', ''update-service'']})"

text \<open>The value of \<open>--source-configuration\<close> in the last command of that kind.\<close>

definition last_config :: "'x cloud \<Rightarrow> string option" where
  "last_config w = (case filter sends_config (rev (cd_trace w)) of Ran c # _ \<Rightarrow> Some (c ! 8) | _ \<Rightarrow> None)"

definition quiet :: "('x cloud, 'a) cmd \<Rightarrow> bool" where
  "quiet m \<longleftrightarrow> (\<forall>w. last_config (snd (m w)) = last_config w)"

named_theorems quiet_intros \<open>steps that send no configuration\<close>

lemma quiet_basic [quiet_intros]: "quiet (retC x)" "quiet (failC e)" "quiet (liftR r)"
  by (simp_all add: quiet_def)

lemma quiet_bind [quiet_intros]:
  assumes "quiet m" "\<And>x. quiet (f x)"
  shows "quiet (bindC m f)"
  unfolding quiet_def
proof
  fix w
  show "last_config (snd (bindC m f w)) = last_config w"
  proof (cases "m w")
    case (Pair r w1)
    then have "last_config w1 = last_config w" using assms(1) by (metis quiet_def snd_conv)
    then show ?thesis using Pair assms(2) by (cases r) (auto simp: quiet_def)
  qed
qed

lemma cmd_Inr:
  "bindC m f w = (Inr y, w1) \<longleftrightarrow> (\<exists>x w2. m w = (Inr x, w2) \<and> f x w2 = (Inr y, w1))"
  "seqC m n w = (Inr y, w1) \<longleftrightarrow> (\<exists>z w2. m w = (Inr z, w2) \<and> n w2 = (Inr y, w1))"
  "liftR r w = (Inr x, w1) \<longleftrightarrow> r = Inr x \<and> w1 = w"
  "retC x w = (Inr y, w1) \<longleftrightarrow> x = y \<and> w1 = w"
  "(if b then failC err else l) w = (Inr y, w1) \<longleftrightarrow> \<not> b \<and> l w = (Inr y, w1)"
  by (auto simp: bindS_Inr)

lemma quiet_keeps: "quiet m \<Longrightarrow> m w = (r, w1) \<Longrightarrow> last_config w1 = last_config w"
  by (metis quiet_def snd_conv)

lemma exec_last:
  assumes "exec_command ct i c w = (r, w1)"
  shows "last_config w1 = (if sends_config (Ran c) then Some (c ! 8) else last_config w)"
  using assms by (auto simp: exec_command_def last_config_def split: prod.splits)

lemma prepare_last: "last_config (snd (prepare_azure ct c w)) = last_config w"
proof -
  have "cd_trace (snd (prepare_azure ct c w)) = cd_trace w"
    by (simp add: prepare_azure_def copy_tree_def make_dirs_def split: list.split)
  then show ?thesis by (simp add: last_config_def)
qed

lemma run_strings_last:
  assumes "run_strings ct check c w = (Inr x, w1)"
  shows "last_config w1 = (if sends_config (Ran c) then Some (c ! 8) else last_config w)"
proof -
  obtain u w2 y where p: "prepare_azure ct c w = (Inr u, w2)" and e: "exec_command ct None c w2 = (Inr y, w1)"
    using assms unfolding run_strings_def
    by (auto simp: bindS_Inr split: if_splits)
  then show ?thesis using exec_last [OF e] prepare_last [of ct c w] by simp
qed

lemma arguments_prefix:
  assumes "arguments (lits ps @ as) = Inr c"
  shows "\<exists>cs. c = ps @ cs \<and> arguments as = Inr cs"
  using assms
  by (induction ps arbitrary: c) (auto simp: arguments_def lits_def as_arg_def bindR_Inr_iff)

lemma quiet_run:
  assumes "length ps = 3" "ps \<notin> {[''aws'', ''apprunner'', ''create-service''], [''aws'', ''apprunner'', ''update-service'']}"
  shows "quiet (run_with ct check (lits ps @ as))"
  unfolding quiet_def
proof
  fix w
  show "last_config (snd (run_with ct check (lits ps @ as) w)) = last_config w"
  proof (cases "arguments (lits ps @ as)")
    case (Inr c)
    then obtain cs where c: "c = ps @ cs" using arguments_prefix by blast
    have no: "\<not> sends_config (Ran c)" using assms c by (simp add: sends_config_def)
    obtain u w2 where p: "prepare_azure ct c w = (u, w2)" by fastforce
    obtain y w3 where e: "exec_command ct None c w2 = (y, w3)" by fastforce
    have "last_config w3 = last_config w" "last_config w2 = last_config w"
      using exec_last [OF e] no prepare_last [of ct c w] p by simp_all
    then show ?thesis using p e unfolding run_with_def run_strings_def
      by (cases u; cases y) (auto simp: Inr)
  qed (simp add: run_with_def)
qed

lemma quiet_aws [quiet_intros]:
  "quiet (run_with ct check (lits (''aws'' # ''apprunner'' # ''describe-service'' # ps) @ as))"
  "quiet (run_with ct check (lits (''aws'' # ''apprunner'' # ''list-services'' # ps) @ as))"
proof -
  have split: "lits (a # b # c # ps) @ as = lits [a, b, c] @ (lits ps @ as)" for a b c :: string
    by (simp add: lits_def)
  show "quiet (run_with ct check (lits (''aws'' # ''apprunner'' # ''describe-service'' # ps) @ as))"
    "quiet (run_with ct check (lits (''aws'' # ''apprunner'' # ''list-services'' # ps) @ as))"
    unfolding split by (rule quiet_run; simp)+
qed

lemma quiet_if [quiet_intros]: "(b \<Longrightarrow> quiet m) \<Longrightarrow> (\<not> b \<Longrightarrow> quiet n) \<Longrightarrow> quiet (if b then m else n)"
  by simp

lemma quiet_load: "quiet (load_apprunner_service ct a b)"
  unfolding load_apprunner_service_def query_json_def append_assoc by (intro quiet_intros)

lemma quiet_find: "quiet (find_apprunner_service ct name region)"
  unfolding find_apprunner_service_def run_json_def run_cmd_def append_assoc by (intro quiet_intros)

lemma quiet_wait: "quiet (wait_for_apprunner_running ct arn region)"
proof -
  have "last_config (snd (wait_running ct arn region deadline l w)) = last_config w" for deadline l w
  proof (induction ct arn region deadline l w rule: wait_running.induct)
    case (1 ct arn region deadline l w)
    show ?case
    proof (cases "before w deadline")
      case True
      obtain q w2 where e: "load_apprunner_service ct (Inr arn) (Inr region) w = (q, w2)" by fastforce
      have w2: "last_config w2 = last_config w" "last_config (after_wait 8 w2) = last_config w"
        using quiet_keeps [OF quiet_load e]
        by (simp_all add: after_wait_def wait_seconds_def last_config_def sends_config_def)
      show ?thesis using True e w2 1
        by (auto simp: wait_running.simps [of ct arn region deadline l w] split: sum.split)
    qed (simp add: wait_running.simps)
  qed
  then show ?thesis by (simp add: quiet_def wait_for_apprunner_running_def)
qed

lemma config_arguments:
  assumes "arguments (lits [''aws'', ''apprunner'', op, x] @ [Inr r] @ lits [y] @ [Inr n] @ lits (''--source-configuration'' # C # rest)) = Inr c"
    and "op \<in> {''create-service'', ''update-service''}"
  shows "sends_config (Ran c) \<and> c ! 8 = C"
  using assms
  by (auto simp: arguments_def lits_def as_arg_def bindR_Inr_iff sends_config_def split: json.splits)

lemma sent:
  assumes "do_cmd ct (lits [''aws'', ''apprunner'', op, x] @ [Inr r] @ lits [y] @ [Inr n] @
      lits (''--source-configuration'' # C # rest)) w = (Inr u, w1)"
    and "op \<in> {''create-service'', ''update-service''}"
  shows "last_config w1 = Some C"
proof -
  obtain c z where c: "arguments (lits [''aws'', ''apprunner'', op, x] @ [Inr r] @ lits [y] @ [Inr n] @
      lits (''--source-configuration'' # C # rest)) = Inr c" "run_strings ct True c w = (Inr z, w1)"
    using assms(1) unfolding do_cmd_def run_cmd_def run_with_def ignoreC_def step_simps bindS_Inr by auto
  show ?thesis using run_strings_last [OF c(2)] config_arguments [OF c(1) assms(2)] by simp
qed

lemma created_or_updated:
  assumes "apprunner_create_or_update ct name region (service_configuration_args src cpu memory) w = (Inr arn, w1)"
  shows "last_config w1 = Some (json_dumps src)"
proof -
  obtain summary w2 where f: "find_apprunner_service ct name (Inr region) w = (Inr summary, w2)"
    and rest: "(if summary = JNull then
         seqC (do_cmd ct (lits [''aws'', ''apprunner'', ''create-service'', ''--region''] @ [Inr region] @
                lits [''--service-name''] @ [Inr name] @ service_configuration_args src cpu memory))
         (bindC (find_apprunner_service ct name (Inr region)) (\<lambda>found.
            if found = JNull
            then failC (SystemExit (''Failed to locate App Runner service '' @ py_str name @ '' after creation.''))
            else liftR (json_item found ''ServiceArn'')))
       else
         bindC (liftR (json_item summary ''ServiceArn'')) (\<lambda>service_arn.
         seqC (do_cmd ct (lits [''aws'', ''apprunner'', ''update-service'', ''--region''] @ [Inr region] @
                lits [''--service-arn''] @ [Inr service_arn] @ service_configuration_args src cpu memory))
         (retC service_arn))) w2 = (Inr arn, w1)"
    using assms unfolding apprunner_create_or_update_def step_simps bindS_Inr by blast
  show ?thesis
  proof (cases "summary = JNull")
    case True
    obtain u w3 where s: "do_cmd ct (lits [''aws'', ''apprunner'', ''create-service'', ''--region''] @ [Inr region] @
                lits [''--service-name''] @ [Inr name] @ service_configuration_args src cpu memory) w2 = (Inr u, w3)"
      and t: "bindC (find_apprunner_service ct name (Inr region)) (\<lambda>found.
            if found = JNull
            then failC (SystemExit (''Failed to locate App Runner service '' @ py_str name @ '' after creation.''))
            else liftR (json_item found ''ServiceArn'')) w3 = (Inr arn, w1)"
      using rest unfolding if_P [OF True] cmd_Inr(2) by blast
    have "last_config w3 = Some (json_dumps src)" using sent [OF s [unfolded service_configuration_args_def]] by simp
    moreover have q: "quiet (bindC (find_apprunner_service ct name (Inr region)) (\<lambda>found.
            if found = JNull
            then failC (SystemExit (''Failed to locate App Runner service '' @ py_str name @ '' after creation.''))
            else liftR (json_item found ''ServiceArn'')))"
      by (intro quiet_intros quiet_find)
    ultimately show ?thesis using quiet_keeps [OF q t] by simp
  next
    case False
    have "\<exists>a u. do_cmd ct (lits [''aws'', ''apprunner'', ''update-service'', ''--region''] @ [Inr region] @
                lits [''--service-arn''] @ [Inr a] @ service_configuration_args src cpu memory) w2 = (Inr u, w1)"
      using rest unfolding if_not_P [OF False] cmd_Inr
    by blast
    then obtain a u where s: "do_cmd ct (lits [''aws'', ''apprunner'', ''update-service'', ''--region''] @ [Inr region] @
                lits [''--service-arn''] @ [Inr a] @ service_configuration_args src cpu memory) w2 = (Inr u, w1)"
      by (elim exE) (rule that)
    show ?thesis using sent [OF s [unfolded service_configuration_args_def]] by simp
  qed
qed

lemma deploy_result:
  assumes "deploy_aws_app_runner ct aws kind e w = (Inr (block, aws1), w1)"
  obtains blk name region port cpu memory image_ref tag known role_arn arn payload service_url wa wb wc wd u x
  where "apprunner_create_or_update ct name region
       (service_configuration_args
          (source_configuration image_ref port (apprunner_env_pairs kind e (jor known bootstrap_url) port) role_arn)
          (py_str cpu) (py_str memory)) wa = (Inr arn, wb)"
    "wait_for_apprunner_running ct arn region wb = (Inr payload, wc)"
    "whenC (JStr (''https://'' @ py_str service_url) \<noteq> jor known bootstrap_url)
         (seqC (do_cmd ct (lits [''aws'', ''apprunner'', ''update-service'', ''--region''] @ [Inr region] @
                  lits [''--service-arn''] @ [Inr arn] @ lits [''--source-configuration'',
                    json_dumps (source_configuration image_ref port
                      (apprunner_env_pairs kind e (JStr (''https://'' @ py_str service_url)) port) role_arn),
                    ''--output'', ''json'']))
            (ignoreC (wait_for_apprunner_running ct arn region))) wc = (Inr u, wd)"
    "json_update blk [(''service_arn'', arn), (''base_url'', JStr (''https://'' @ py_str service_url)),
                 (''default_hostname'', service_url), (''image_ref'', JStr image_ref), (''image_tag'', JStr tag)] = Inr block"
    "json_update aws [(kind, block)] = Inr aws1"
    "save_manifest ct ''aws'' aws1 wd = (Inr x, w1)"
  using assms unfolding deploy_aws_app_runner_def Let_def cmd_Inr case_prod_unfold prod.inject
proof (elim exE conjE, goal_cases)
  case 1
  show ?case by (rule 1(1)) (use 1(2-) in \<open>simp_all only:\<close>)
qed

lemma json_update_item:
  assumes "json_update j kvs = Inr b" "map_of (rev kvs) k = Some v"
  shows "json_item b k = Inr v"
  using assms by (auto simp: json_update_def fold_dict_set_lookup map_add_Some_iff split: json.splits)


section \<open>A deployment that succeeds\<close>

lemma running_wait:
  assumes "clock_ok w" "load_apprunner_service ct (Inr arn) (Inr region) w = (Inr p, w1)" "jtruth p"
    "inspect_service p = Inr True"
  shows "wait_for_apprunner_running ct arn region w = (Inr p, w1)"
  unfolding wait_for_apprunner_running_def
  using deadline_ahead [OF assms(1), of 600] assms(2-4) by (simp add: wait_running.simps)

definition rollout_answer :: json where
  "rollout_answer = JObj [(''Service'', JObj [(''ServiceUrl'', JStr ''h''), (''Status'', JStr ''RUNNING'')]),
     (''ServiceSummaryList'', JList [JObj [(''ServiceArn'', JStr ''a''), (''ServiceName'', JStr ''s'')]])]"

definition rollout_reply :: completed where
  "rollout_reply = \<lparr>cp_returncode = 0, cp_stdout = stable_json_dumps rollout_answer, cp_stderr = []\<rparr>"

definition rollout_tools :: "unit tools" where
  "rollout_tools = sample_tools\<lparr>tl_exec := (\<lambda>command stdin x. (Inr rollout_reply, 1000, x))\<rparr>"

definition rollout_manifest :: json where
  "rollout_manifest = JObj [(''region'', JStr ''us-east-1''), (''registry_host'', JStr ''x''), (''ecr_access_role_arn'', JStr ''role''),
     (''registry'', JObj [(''service_name'', JStr ''s''), (''port'', JInt 8000), (''cpu'', JStr ''256''), (''memory'', JStr ''512''),
        (''ecr_repository_uri'', JStr ''x/r''), (''base_url'', JStr ''https://h'')])]"

definition rollout_world :: "unit cloud" where
  "rollout_world = sample_tree\<lparr>
     cd_fs := map_of [(''/r/registry_service/apprunner.Dockerfile'', TextFile ''FROM python''),
       (''/r/registry_service/requirements-apprunner.txt'', TextFile ''fastapi'')],
     cd_dirs := (\<lambda>q. q \<in> {''/r/registry_service'', ''/r/shared''})\<rparr>"

lemma answer_parsed: "parse_json_output (stable_json_dumps rollout_answer) = Inr rollout_answer"
  by code_simp

text \<open>Every command is answered, a millisecond later.\<close>

lemma rollout_run:
  assumes "arguments as = Inr (prog # c)" "prog \<noteq> ''az''" "cd_now w = n"
  obtains w1 where "run_with rollout_tools check as w = (Inr rollout_reply, w1)" "cd_now w1 = n + 1000"
  using assms
  by (simp add: run_with_def run_strings_def prepare_azure_def exec_command_def rollout_tools_def rollout_reply_def)

lemma rollout_package:
  obtains d w1 where "package_apprunner_registry_context rollout_tools rollout_world = (Inr d, w1)"
    "cd_now w1 = unix_epoch + 1700000000000000"
proof -
  have plain: "plain_context registry_context" by (rule contexts_plain) (simp add: build_contexts_def)
  have "has_parents (context_dir rollout_tools registry_context) rollout_world"
    by (simp add: has_parents_def rollout_world_def context_dir_def rollout_tools_def sample_tools_def registry_context_def
        under_def starts_with_def)
  moreover have "context_ready rollout_tools registry_context rollout_world"
    by (simp add: context_ready_def rollout_world_def rollout_tools_def sample_tools_def registry_context_def)
  ultimately obtain w1 where
    p: "package_context rollout_tools registry_context rollout_world = (Inr (context_dir rollout_tools registry_context), w1)"
    using package_result(1) [OF plain] by blast
  have still: "cd_now (snd (copy_file s d w)) = cd_now w" "cd_now (snd (copy_tree k s d w)) = cd_now w"
    "cd_now (fresh_context ct bc w) = cd_now w" for s d k ct bc and w :: "unit cloud"
    by (simp_all add: copy_file_eq copy_tree_def fresh_context_def Let_def make_dirs_def remove_tree_def)
  have seq: "cd_now (snd (seqC m n w)) = cd_now w"
    if "\<And>w. cd_now (snd (m w)) = cd_now w" "\<And>w. cd_now (snd (n w)) = cd_now w"
    for m :: "(unit cloud, unit) cmd" and n :: "(unit cloud, path) cmd" and w
    using that(1) [of w] that(2) by (cases "m w"; cases "fst (m w)") auto
  have "cd_now (snd (package_context rollout_tools registry_context rollout_world)) = cd_now rollout_world"
    unfolding package_fresh copy_filtered_tree_def
    by (subst seq; (intro seq)?) (simp_all add: still)
  then show thesis using that p by (simp add: package_apprunner_registry_context_def rollout_world_def sample_tree_def)
qed

lemma literal_arguments: "arguments (lits cs) = Inr cs"
proof -
  have "mapR (\<lambda>a. a) (lits cs) = Inr (map JStr cs)" by (induction cs) (simp_all add: lits_def)
  moreover have "mapR as_arg (map JStr cs) = Inr cs" by (induction cs) (simp_all add: as_arg_def)
  ultimately show ?thesis by (simp add: arguments_def)
qed

lemma rollout_do:
  assumes "prog \<noteq> ''az''" "cd_now w = n"
  obtains w1 where "do_cmd rollout_tools (lits (prog # c)) w = (Inr (), w1)" "cd_now w1 = n + 1000"
proof (rule rollout_run [OF literal_arguments assms, of True c])
  fix w1
  assume "run_with rollout_tools True (lits (prog # c)) w = (Inr rollout_reply, w1)" "cd_now w1 = n + 1000"
  then show thesis by (intro that) (simp_all add: do_cmd_def run_cmd_def ignoreC_def)
qed

lemma rollout_succeeds:
  "\<exists>block aws1 w1. deploy_aws_app_runner rollout_tools rollout_manifest ''registry'' [] rollout_world = (Inr (block, aws1), w1)"
proof -
  let ?now = "unix_epoch + 1700000000000000"
  obtain d w1 where 1: "package_apprunner_registry_context rollout_tools rollout_world = (Inr d, w1)" "cd_now w1 = ?now"
    by (rule rollout_package)
  obtain w2 where 2: "docker_login_ecr rollout_tools (Inr (JStr ''us-east-1'')) (Inr (JStr ''x'')) w1 = (Inr (), w2)"
    "cd_now w2 = ?now + 2000"
    using 1(2)
    by (simp add: docker_login_ecr_def output_value_def run_cmd_def run_with_def arguments_def lits_def as_arg_def
        run_strings_def prepare_azure_def exec_command_def rollout_tools_def rollout_reply_def)
  have prog: "''docker'' \<noteq> ''az''" "''aws'' \<noteq> ''az''" by simp_all
  define tag where "tag = show_compact ?now"
  define ref where "ref = ''x/r:'' @ tag"
  obtain w3 where 3: "do_cmd rollout_tools (lits [''docker'', ''build'', ''--platform'', ''linux/amd64'', ''-t'', ref, d]) w2 = (Inr (), w3)"
    "cd_now w3 = ?now + 2000 + 1000" by (rule rollout_do [OF prog(1) 2(2)])
  obtain w4 where 4: "do_cmd rollout_tools (lits [''docker'', ''push'', ref]) w3 = (Inr (), w4)"
    "cd_now w4 = ?now + 2000 + 1000 + 1000" by (rule rollout_do [OF prog(1) 3(2)])
  have build: "build_aws_container_image rollout_tools rollout_manifest ''registry'' None rollout_world = (Inr (ref, tag), w4)"
    using 1 2(1) 3(1) 4(1)
    by (simp add: build_aws_container_image_def rollout_manifest_def image_tag_of_def utc_deploy_id_def Let_def py_str_def
        ref_def tag_def)
  have lits: "[Inr (JStr s)] = lits [s]" "lits xs @ lits ys = lits (xs @ ys)" for s xs ys by (simp_all add: lits_def)
  obtain w5 where 5: "run_with rollout_tools True (lits [''aws'', ''apprunner'', ''list-services'', ''--region'', ''us-east-1'',
      ''--output'', ''json'']) w4 = (Inr rollout_reply, w5)" "cd_now w5 = ?now + 2000 + 1000 + 1000 + 1000"
    by (rule rollout_run [OF literal_arguments prog(2) 4(2)])
  have find: "find_apprunner_service rollout_tools (JStr ''s'') (Inr (JStr ''us-east-1'')) w4 =
      (Inr (JObj [(''ServiceArn'', JStr ''a''), (''ServiceName'', JStr ''s'')]), w5)"
    using 5(1) unfolding find_apprunner_service_def lits run_json_def run_cmd_def append.simps
    by (simp add: rollout_reply_def answer_parsed) (simp add: rollout_answer_def)
  define config where "config = json_dumps (source_configuration ref (JInt 8000)
      (apprunner_env_pairs ''registry'' [] (JStr ''https://h'') (JInt 8000)) (JStr ''role''))"
  obtain w6 where 6: "do_cmd rollout_tools (lits ([''aws'', ''apprunner'', ''update-service'', ''--region'', ''us-east-1'',
      ''--service-arn'', ''a'', ''--source-configuration'', config, ''--instance-configuration'',
      json_dumps (JObj [(''Cpu'', JStr ''256''), (''Memory'', JStr ''512'')]), ''--health-check-configuration'',
      json_dumps health_check_configuration, ''--output'', ''json''])) w5 = (Inr (), w6)"
    "cd_now w6 = ?now + 2000 + 1000 + 1000 + 1000 + 1000" by (rule rollout_do [OF prog(2) 5(2)])
  have update: "apprunner_create_or_update rollout_tools (JStr ''s'') (JStr ''us-east-1'')
      (service_configuration_args (source_configuration ref (JInt 8000)
         (apprunner_env_pairs ''registry'' [] (JStr ''https://h'') (JInt 8000)) (JStr ''role'')) ''256'' ''512'') w4 = (Inr (JStr ''a''), w6)"
    using find 6(1) by (simp add: apprunner_create_or_update_def service_configuration_args_def lits_def config_def)
  obtain w7 where 7: "run_with rollout_tools False (lits [''aws'', ''apprunner'', ''describe-service'', ''--region'', ''us-east-1'',
      ''--service-arn'', ''a'', ''--output'', ''json'']) w6 = (Inr rollout_reply, w7)"
    by (rule rollout_run [OF literal_arguments prog(2) 6(2)])
  have "load_apprunner_service rollout_tools (Inr (JStr ''a'')) (Inr (JStr ''us-east-1'')) w6 = (Inr rollout_answer, w7)"
    using 7 unfolding load_apprunner_service_def lits query_json_def append.simps
    by (simp add: rollout_reply_def answer_parsed)
  moreover have "clock_ok w6" using 6(2) by (simp add: clock_ok_def unix_epoch_def us_per_day_def)
  ultimately have wait: "wait_for_apprunner_running rollout_tools (JStr ''a'') (JStr ''us-east-1'') w6 = (Inr rollout_answer, w7)"
    using running_wait [of w6 rollout_tools "JStr ''a''" "JStr ''us-east-1''" rollout_answer w7]
    by (simp add: rollout_answer_def inspect_service_def)
  show ?thesis
    using build update wait
    unfolding deploy_aws_app_runner_def rollout_manifest_def
    by (simp add: rollout_manifest_def py_str_def jor_def Let_def rollout_answer_def whenC_def json_update_def save_manifest_eq)
qed


end
