(* ===== verification/Services.thy ===== *)
theory Services
  imports Risk RuntimeSpec
begin

text \<open>
  The three cloud peers as processes: the module level of \<open>aws_ingestion/main.py\<close>,
  \<open>azure_anomaly/main.py\<close> and \<open>gcp_risk/main.py\<close> (settings, runtime, service) and
  their routes, and the deployed system: a network in which the registry and the peers answer
  at their addresses, so that a request to one service runs the requests it makes to the others.
\<close>

section \<open>Module level\<close>

definition azure_node :: string where
  "azure_node = ''azure-anomaly-01''"

definition gcp_node :: string where
  "gcp_node = ''gcp-risk-01''"

definition azure_runtime :: "service_settings \<Rightarrow> runtime" where
  "azure_runtime settings = \<lparr>rt_settings = settings, rt_node_id = azure_node, rt_node_type = ''anomaly'',
     rt_cloud = ''azure'', rt_capabilities = [''detect_anomalies'', ''list_alerts'', ''submit_review_feedback''],
     rt_metadata = []\<rparr>"

definition gcp_runtime :: "service_settings \<Rightarrow> runtime" where
  "gcp_runtime settings = \<lparr>rt_settings = settings, rt_node_id = gcp_node, rt_node_type = ''risk'',
     rt_cloud = ''gcp'', rt_capabilities = [''compute_risk'', ''list_risk_history'', ''store_market_events''],
     rt_metadata = []\<rparr>"

text \<open>\<open>f"{settings.data_dir}/state.json"\<close>, as a \<open>Path\<close>.\<close>

definition state_file :: "service_settings \<Rightarrow> path" where
  "state_file settings = path_join (ss_data_dir settings) ''state.json''"

definition aws_main :: "env \<Rightarrow> path \<Rightarrow> pydantic \<Rightarrow> int \<Rightarrow> fs \<Rightarrow> (service_settings \<times> ingestion) result" where
  "aws_main e cwd px now fs =
     bindR (load_service_settings e cwd ''aws_ingestion'' 8001) (\<lambda>settings.
     bindR (ingestion_load px now aws_node (Some (state_file settings)) fs) (\<lambda>service.
     Inr (settings, service)))"

text \<open>
  The anomaly peer's store is a file or a blob; the two keep their state side by side. The SDK
  depends on connection string, container and blob name.
\<close>

type_synonym 'r store_state = "fs \<times> 'r blob_state"

definition on_files :: "fs store_ops \<Rightarrow> 'r store_state store_ops" where
  "on_files ops = \<lparr>so_load = (\<lambda>d (f, b). case so_load ops d f of (r, f1) \<Rightarrow> (r, (f1, b))),
     so_save = (\<lambda>j (f, b). case so_save ops j f of (r, f1) \<Rightarrow> (r, (f1, b)))\<rparr>"

definition on_blob :: "'r blob_state store_ops \<Rightarrow> 'r store_state store_ops" where
  "on_blob ops = \<lparr>so_load = (\<lambda>d (f, b). case so_load ops d b of (r, b1) \<Rightarrow> (r, (f, b1))),
     so_save = (\<lambda>j (f, b). case so_save ops j b of (r, b1) \<Rightarrow> (r, (f, b1)))\<rparr>"

definition state_store_ops ::
    "(string \<Rightarrow> string \<Rightarrow> string \<Rightarrow> 'r azure_sdk) \<Rightarrow> state_store \<Rightarrow> 'r store_state store_ops" where
  "state_store_ops sdk store =
     (case store of FileJsonStateStore p \<Rightarrow> on_files (file_ops p)
      | AzureBlobJsonStateStore connection container blob \<Rightarrow> on_blob (blob_ops (sdk connection container blob)))"

definition store_class :: "state_store \<Rightarrow> string" where
  "store_class store = (case store of FileJsonStateStore p \<Rightarrow> ''FileJsonStateStore''
     | AzureBlobJsonStateStore connection container blob \<Rightarrow> ''AzureBlobJsonStateStore'')"

definition azure_main ::
    "(string \<Rightarrow> string \<Rightarrow> string \<Rightarrow> 'r azure_sdk) \<Rightarrow> env \<Rightarrow> path \<Rightarrow> pydantic \<Rightarrow> int \<Rightarrow> 'r store_state \<Rightarrow>
       ('r store_state, service_settings \<times> state_store \<times> anomaly) outcome" where
  "azure_main sdk e cwd px now s =
     (case bindR (load_service_settings e cwd ''azure_anomaly'' 8002) (\<lambda>settings.
             bindR (build_json_state_store e settings (Some (state_file settings)) ''azure_anomaly''
               ''azure-anomaly/state.json'') (\<lambda>store. Inr (settings, store))) of
        Inl x \<Rightarrow> (Inl x, s)
      | Inr (settings, store) \<Rightarrow>
          bindS (anomaly_load (state_store_ops sdk store) px now azure_node default_alert_threshold
                   default_history_window s) (\<lambda>service s1. (Inr (settings, store, service), s1)))"

definition gcp_main :: "env \<Rightarrow> path \<Rightarrow> pydantic \<Rightarrow> int \<Rightarrow> fs \<Rightarrow> (service_settings \<times> risk) result" where
  "gcp_main e cwd px now fs =
     bindR (load_service_settings e cwd ''gcp_risk'' 8003) (\<lambda>settings.
     bindR (risk_load px now gcp_node (Some (state_file settings)) True fs) (\<lambda>service.
     Inr (settings, service)))"

section \<open>Routes\<close>

definition with_base_url :: "service_settings \<Rightarrow> json \<Rightarrow> json" where
  "with_base_url settings h = JObj (dict_set ''base_url'' (JStr (ss_base_url settings)) (jfields h))"

datatype ingestion_request =
    IngestionHealth
  | PostMessage json
  | PostEvent json
  | RecentEvents "string option"

text \<open>The query parameter arrives as text; pydantic reads the number.\<close>

definition query_limit :: "pydantic \<Rightarrow> string option \<Rightarrow> int option option" where
  "query_limit px t = (case t of None \<Rightarrow> Some None | Some s \<Rightarrow> map_option Some (lax_int px (JStr s)))"

fun serve_ingestion ::
    "'n network \<Rightarrow> service_settings \<Rightarrow> pydantic \<Rightarrow> string \<Rightarrow> int \<Rightarrow> ingestion_request \<Rightarrow> ingestion \<times> 'n world \<Rightarrow>
       (ingestion \<times> 'n world, json) outcome" where
  "serve_ingestion net settings px uuid now IngestionHealth s =
     (Inr (with_base_url settings (ingestion_health (fst s))), s)"
| "serve_ingestion net settings px uuid now (PostMessage body) s =
     map_outcome dump_event (ingest_endpoint net settings px uuid now body s)"
| "serve_ingestion net settings px uuid now (PostEvent body) s =
     map_outcome dump_event (store_endpoint net settings px now body s)"
| "serve_ingestion net settings px uuid now (RecentEvents t) s =
     (case query_limit px t of None \<Rightarrow> (Inl unprocessable, s)
      | Some limit \<Rightarrow> (bindR (recent_events_ep limit (fst s)) (\<lambda>es. Inr (JList (map dump_event es))), s))"

datatype anomaly_request =
    AnomalyHealth
  | Analyze json
  | ListAlerts
  | GetAlert string
  | ReviewAlert string json

fun serve_anomaly ::
    "'s store_ops \<Rightarrow> string \<Rightarrow> forest \<Rightarrow> 'n network \<Rightarrow> service_settings \<Rightarrow> pydantic \<Rightarrow> string \<Rightarrow> int \<Rightarrow>
       anomaly_request \<Rightarrow> ('s, 'n world) anomaly_state \<Rightarrow> (('s, 'n world) anomaly_state, json) outcome" where
  "serve_anomaly ops backend forest net settings px uuid now AnomalyHealth s =
     (Inr (with_base_url settings (anomaly_health (forest \<noteq> None) backend (fst s))), s)"
| "serve_anomaly ops backend forest net settings px uuid now (Analyze body) s =
     map_outcome (\<lambda>a. case a of None \<Rightarrow> JNull | Some x \<Rightarrow> dump_alert x)
       (analyze_ep ops forest (runtime_appender net (azure_runtime settings)) px uuid now body s)"
| "serve_anomaly ops backend forest net settings px uuid now ListAlerts s =
     (Inr (JList (map dump_alert (list_alerts (fst s)))), s)"
| "serve_anomaly ops backend forest net settings px uuid now (GetAlert k) s =
     (bindR (get_alert_ep k (fst s)) (\<lambda>a. Inr (dump_alert a)), s)"
| "serve_anomaly ops backend forest net settings px uuid now (ReviewAlert k body) s =
     map_outcome dump_alert (review_alert_ep ops (runtime_appender net (azure_runtime settings)) now k body s)"

datatype risk_request =
    RiskHealth
  | PostRiskEvent json
  | PostPortfolio json
  | GetPortfolio
  | PostCompute "json option"
  | GetLatest
  | GetHistory

text \<open>The optional body of \<open>/risk/compute\<close>: absent or \<open>null\<close> is no portfolio.\<close>

definition compute_argument :: "pydantic \<Rightarrow> json option \<Rightarrow> portfolio option option" where
  "compute_argument px body =
     (case body of None \<Rightarrow> Some None | Some JNull \<Rightarrow> Some None | Some j \<Rightarrow> map_option Some (validate_portfolio px j))"

fun serve_risk ::
    "'n network \<Rightarrow> service_settings \<Rightarrow> pydantic \<Rightarrow> string \<Rightarrow> int \<Rightarrow> risk_request \<Rightarrow> risk \<times> 'n world \<Rightarrow>
       (risk \<times> 'n world, json) outcome" where
  "serve_risk net settings px uuid now RiskHealth s =
     (Inr (with_base_url settings (risk_health (fst s))), s)"
| "serve_risk net settings px uuid now (PostRiskEvent body) s =
     map_outcome dump_event (ingest_event_ep (runtime_appender net (gcp_runtime settings)) px uuid now body s)"
| "serve_risk net settings px uuid now (PostPortfolio body) s =
     (case validate_portfolio px body of None \<Rightarrow> (Inl unprocessable, s)
      | Some p \<Rightarrow> (case set_portfolio p (fst s) of (q, st) \<Rightarrow> (Inr (dump_portfolio q), (st, snd s))))"
| "serve_risk net settings px uuid now GetPortfolio s =
     (bindR (get_portfolio_ep (fst s)) (\<lambda>p. Inr (dump_portfolio p)), s)"
| "serve_risk net settings px uuid now (PostCompute body) s =
     (case compute_argument px body of None \<Rightarrow> (Inl unprocessable, s)
      | Some argument \<Rightarrow> map_outcome dump_snapshot
          (compute_risk_ep (runtime_appender net (gcp_runtime settings)) uuid now argument s))"
| "serve_risk net settings px uuid now GetLatest s =
     (bindR (latest_snapshot_ep (fst s)) (\<lambda>x. Inr (dump_snapshot x)), s)"
| "serve_risk net settings px uuid now GetHistory s =
     (Inr (JList (map dump_snapshot (rk_snapshots (fst s)))), s)"

section \<open>The paths\<close>

definition request_body :: "http_request \<Rightarrow> json" where
  "request_body rq = (case rq_body rq of None \<Rightarrow> JNull | Some j \<Rightarrow> j)"

definition ingestion_route :: "http_request \<Rightarrow> string \<Rightarrow> ingestion_request option" where
  "ingestion_route rq p =
     (if rq_method rq = ''POST'' then
        (if p = ''/ingestion/messages'' then Some (PostMessage (request_body rq))
         else if p = ''/ingestion/events'' then Some (PostEvent (request_body rq)) else None)
      else if rq_method rq = ''GET'' then
        (if p = ''/health'' then Some IngestionHealth
         else if p = ''/ingestion/events/recent'' then Some (RecentEvents None)
         else if starts_with ''/ingestion/events/recent?limit='' p
           then Some (RecentEvents (Some (drop (length ''/ingestion/events/recent?limit='') p)))
         else None)
      else None)"

definition anomaly_route :: "http_request \<Rightarrow> string \<Rightarrow> anomaly_request option" where
  "anomaly_route rq p =
     (if rq_method rq = ''POST'' then
        (if p = ''/anomaly/analyze'' then Some (Analyze (request_body rq))
         else map_option (\<lambda>k. ReviewAlert k (request_body rq)) (path_middle ''/anomaly/alerts/'' ''/review'' p))
      else if rq_method rq = ''GET'' then
        (if p = ''/health'' then Some AnomalyHealth
         else if p = ''/anomaly/alerts'' then Some ListAlerts
         else map_option GetAlert (path_middle ''/anomaly/alerts/'' '''' p))
      else None)"

definition risk_route :: "http_request \<Rightarrow> string \<Rightarrow> risk_request option" where
  "risk_route rq p =
     (if rq_method rq = ''POST'' then
        (if p = ''/risk/events'' then Some (PostRiskEvent (request_body rq))
         else if p = ''/risk/portfolio'' then Some (PostPortfolio (request_body rq))
         else if p = ''/risk/compute'' then Some (PostCompute (rq_body rq)) else None)
      else if rq_method rq = ''GET'' then
        (if p = ''/health'' then Some RiskHealth
         else if p = ''/risk/portfolio'' then Some GetPortfolio
         else if p = ''/risk/latest'' then Some GetLatest
         else if p = ''/risk/history'' then Some GetHistory else None)
      else None)"

text \<open>
  The response: FastAPI renders a result as JSON, which has no infinities and no NaN, so a result
  that holds one is answered with 500 after the handler has done its work.
\<close>

fun json_finite :: "json \<Rightarrow> bool" where
  "json_finite (JFloat x) = is_finite x"
| "json_finite (JList js) = list_all json_finite js"
| "json_finite (JObj d) = list_all (\<lambda>(k, j). json_finite j) d"
| "json_finite _ = True"

definition rendered :: "json result \<Rightarrow> reply" where
  "rendered r = (case r of
     Inr j \<Rightarrow> if json_finite j then reply_of 200 r else Reply 500 (BadBody ''Internal Server Error'')
   | Inl e \<Rightarrow> reply_of 200 r)"

definition not_found_reply :: reply where
  "not_found_reply = Reply 404 (JsonBody (JObj [(''detail'', JStr ''Not Found'')]))"

section \<open>The client\<close>

text \<open>
  The services send with \<open>httpx\<close>, which encodes a body before it connects and refuses infinities and
  NaN: the exception is raised, and nothing is sent. What arrives from elsewhere may hold them.
\<close>

definition encodable :: "http_request \<Rightarrow> bool" where
  "encodable rq = (case rq_body rq of None \<Rightarrow> True | Some j \<Rightarrow> json_finite j)"

definition httpx_net :: "'n network \<Rightarrow> 'n network" where
  "httpx_net net = net\<lparr>net_send := (\<lambda>rq n. if encodable rq then net_send net rq n
     else (NoReply ''Out of range float values are not JSON compliant'', n))\<rparr>"

lemma httpx_send: "encodable rq \<Longrightarrow> net_send (httpx_net net) rq = net_send net rq"
  by (simp add: httpx_net_def fun_eq_iff)

lemma httpx_refuses:
  "\<not> encodable rq \<Longrightarrow> net_send (httpx_net net) rq n = (NoReply ''Out of range float values are not JSON compliant'', n)"
  by (simp add: httpx_net_def)

section \<open>The deployed system\<close>

text \<open>
  What does not change: addresses (the base URLs of the settings), parameters, and the inputs of
  the k-th request a service handles: its clock and the random part of its ids.
\<close>

record ('s, 'm) deployment =
  dp_interval :: int
  dp_registry_url :: string
  dp_clocks :: "nat \<Rightarrow> nat \<Rightarrow> int"
  dp_now :: "nat \<Rightarrow> int"
  dp_uuid :: "nat \<Rightarrow> string"
  dp_px :: pydantic
  dp_forest :: forest
  dp_store :: "'s store_ops"
  dp_backend :: string
  dp_anomaly :: service_settings
  dp_risk :: service_settings
  dp_ingestion :: service_settings
  dp_other :: "http_request \<Rightarrow> 'm \<Rightarrow> reply \<times> 'm"
  dp_status_text :: "nat \<Rightarrow> string \<Rightarrow> string"

text \<open>The registry and whatever else there is, and the same behind the client of the anomaly and the risk peer.\<close>

definition registry_host :: "('s, 'm) deployment \<Rightarrow> 'm registry_net network" where
  "registry_host dp = registry_network (dp_interval dp) (dp_registry_url dp) (dp_clocks dp) (dp_other dp) (dp_status_text dp)"

definition ledger_net :: "('s, 'm) deployment \<Rightarrow> 'm registry_net network" where
  "ledger_net dp = httpx_net (registry_host dp)"

record ('s, 'm) peers =
  pe_registry :: "'m registry_net"
  pe_anomaly :: anomaly
  pe_store :: 's
  pe_risk :: risk
  pe_served :: nat

definition anomaly_request_served ::
    "('s, 'm) deployment \<Rightarrow> anomaly_request \<Rightarrow> ('s, 'm) peers \<Rightarrow> reply \<times> ('s, 'm) peers" where
  "anomaly_request_served dp req s =
     (case serve_anomaly (dp_store dp) (dp_backend dp) (dp_forest dp) (ledger_net dp) (dp_anomaly dp) (dp_px dp)
             (dp_uuid dp (pe_served s)) (dp_now dp (pe_served s)) req
             (pe_anomaly s, pe_store s, \<lparr>w_net = pe_registry s, w_trace = []\<rparr>) of
        (r, (st, store, w)) \<Rightarrow>
          (rendered r, s\<lparr>pe_registry := w_net w, pe_anomaly := st, pe_store := store, pe_served := Suc (pe_served s)\<rparr>))"

definition risk_request_served ::
    "('s, 'm) deployment \<Rightarrow> risk_request \<Rightarrow> ('s, 'm) peers \<Rightarrow> reply \<times> ('s, 'm) peers" where
  "risk_request_served dp req s =
     (case serve_risk (ledger_net dp) (dp_risk dp) (dp_px dp) (dp_uuid dp (pe_served s)) (dp_now dp (pe_served s)) req
             (pe_risk s, \<lparr>w_net = pe_registry s, w_trace = []\<rparr>) of
        (r, (st, w)) \<Rightarrow>
          (rendered r, s\<lparr>pe_registry := w_net w, pe_risk := st, pe_served := Suc (pe_served s)\<rparr>))"

text \<open>
  What serves a request of ingestion: the two other peers, and the registry behind them. \<open>peers_net\<close> is
  the network ingestion sees, through its client.
\<close>

definition peers_send ::
    "('s, 'm) deployment \<Rightarrow> http_request \<Rightarrow> ('s, 'm) peers \<Rightarrow> reply \<times> ('s, 'm) peers" where
  "peers_send dp rq s =
     (let url = rq_url rq; a = ss_base_url (dp_anomaly dp); k = ss_base_url (dp_risk dp) in
      if starts_with a url then
        (case anomaly_route rq (drop (length a) url) of
           None \<Rightarrow> (not_found_reply, s) | Some req \<Rightarrow> anomaly_request_served dp req s)
      else if starts_with k url then
        (case risk_route rq (drop (length k) url) of
           None \<Rightarrow> (not_found_reply, s) | Some req \<Rightarrow> risk_request_served dp req s)
      else (case net_send (registry_host dp) rq (pe_registry s) of (r, n) \<Rightarrow> (r, s\<lparr>pe_registry := n\<rparr>)))"

definition peers_net :: "('s, 'm) deployment \<Rightarrow> ('s, 'm) peers network" where
  "peers_net dp = httpx_net \<lparr>net_send = peers_send dp, net_status_text = dp_status_text dp\<rparr>"

text \<open>What everybody outside reaches: ingestion as well. \<open>stack_net\<close> is what a sender with \<open>httpx\<close> sees, such as the bridge.\<close>

record ('s, 'm) stack =
  sk_ingestion :: ingestion
  sk_peers :: "('s, 'm) peers"
  sk_served :: nat

definition ingestion_request_served ::
    "('s, 'm) deployment \<Rightarrow> ingestion_request \<Rightarrow> ('s, 'm) stack \<Rightarrow> reply \<times> ('s, 'm) stack" where
  "ingestion_request_served dp req s =
     (case serve_ingestion (peers_net dp) (dp_ingestion dp) (dp_px dp) (dp_uuid dp (sk_served s)) (dp_now dp (sk_served s))
             req (sk_ingestion s, \<lparr>w_net = sk_peers s, w_trace = []\<rparr>) of
        (r, (st, w)) \<Rightarrow> (rendered r, s\<lparr>sk_ingestion := st, sk_peers := w_net w, sk_served := Suc (sk_served s)\<rparr>))"

definition stack_send ::
    "('s, 'm) deployment \<Rightarrow> http_request \<Rightarrow> ('s, 'm) stack \<Rightarrow> reply \<times> ('s, 'm) stack" where
  "stack_send dp rq s =
     (let i = ss_base_url (dp_ingestion dp) in
      if starts_with i (rq_url rq) then
        (case ingestion_route rq (drop (length i) (rq_url rq)) of
           None \<Rightarrow> (not_found_reply, s) | Some req \<Rightarrow> ingestion_request_served dp req s)
      else (case peers_send dp rq (sk_peers s) of (r, p) \<Rightarrow> (r, s\<lparr>sk_peers := p\<rparr>)))"

definition stack_net :: "('s, 'm) deployment \<Rightarrow> ('s, 'm) stack network" where
  "stack_net dp = httpx_net \<lparr>net_send = stack_send dp, net_status_text = dp_status_text dp\<rparr>"

end
