(* ===== verification/NetFrame.thy ===== *)
theory NetFrame
  imports Services IngestionSpec RiskSpec
begin

text \<open>
  A relation between network states that every request respects is respected by every program
  that only sends requests: the runtime, the routing of an event, and the handlers of the three
  peers. \<open>network_frame\<close> is that interface; the deployed system provides it at each of its levels.
\<close>

lemma map_outcome_state [simp]: "snd (map_outcome f r) = snd r"
  by (auto simp: map_outcome_def split: prod.splits sum.splits)

text \<open>
  The same with less: what a service keeps when every block it sends under its own name keeps it.
  \<open>ledger_frame\<close> is a relation on the worlds of an appender and the name of the service; the handlers
  of the anomaly and the risk peer touch the world through such blocks alone.
\<close>

locale ledger_frame =
  fixes R :: "'n world \<Rightarrow> 'n world \<Rightarrow> bool"
    and actor :: string
  assumes R_refl: "R w w"
begin

definition framed :: "'n world ledger_appender option \<Rightarrow> bool" where
  "framed appender \<longleftrightarrow> (\<forall>f r w. appender = Some f \<longrightarrow> ledger_request_ok r \<longrightarrow>
     lr_actor_node r = actor \<longrightarrow> R w (snd (f r w)))"

lemma record_frame: "framed appender \<Longrightarrow> R w (snd (record_ledger_event appender et actor d w))"
  by (auto simp: framed_def record_ledger_event_def mk_ledger_request_def Let_def R_refl split: option.splits sum.splits if_splits)

lemma analyze_frame:
  assumes "framed appender" "an_node_id st = actor"
  shows "R w (snd (snd (snd (analyze_event ops forest appender uuid now event (st, t, w)))))"
  using record_frame [OF assms(1)] assms(2)
  by (auto simp: analyze_event_def Let_def R_refl split: prod.splits sum.splits) (metis snd_conv)+

lemma review_frame:
  assumes "framed appender" "an_node_id st = actor"
  shows "R w (snd (snd (snd (review_alert ops appender k review (st, t, w)))))"
  using record_frame [OF assms(1)] assms(2)
  by (auto simp: review_alert_def Let_def R_refl split: prod.splits sum.splits option.splits) (metis snd_conv)+

lemma serve_anomaly_frame:
  assumes "framed (runtime_appender net (azure_runtime settings))" "an_node_id (fst s) = actor"
  shows "R (snd (snd s)) (snd (snd (snd (serve_anomaly ops backend forest net settings px uuid now req s))))"
proof (cases s)
  case (fields st t w)
  have node: "an_node_id st = actor" using assms(2) by (simp add: fields)
  show ?thesis
  proof (cases req)
    case (Analyze body)
    have "R w (snd (snd (snd (analyze_ep ops forest (runtime_appender net (azure_runtime settings)) px uuid now body (st, t, w)))))"
      by (auto simp: analyze_ep_def R_refl analyze_frame [OF assms(1) node] split: option.splits)
    then show ?thesis by (simp add: Analyze fields)
  next
    case (ReviewAlert k body)
    have "R w (snd (snd (snd (review_alert_ep ops (runtime_appender net (azure_runtime settings)) now k body (st, t, w)))))"
      by (auto simp: review_alert_ep_def R_refl review_frame [OF assms(1) node] split: option.splits)
    then show ?thesis by (simp add: ReviewAlert fields)
  qed (auto simp: R_refl fields)
qed

lemma compute_frame:
  assumes "framed appender" "rk_node_id st = actor"
  shows "R w (snd (snd (compute_risk appender uuid now argument (st, w))))"
  using record_frame [OF assms(1)] assms(2)
  by (auto simp: compute_risk_def Let_def R_refl split: prod.splits sum.splits option.splits) (metis snd_conv)+

lemma ingest_event_frame:
  assumes "framed appender" "rk_node_id st = actor"
  shows "R w (snd (snd (ingest_event appender uuid now event (st, w))))"
proof -
  let ?st = "risk_save (st\<lparr>rk_events := dict_set (ev_symbol event)
      (dict_get (rk_events st) (ev_symbol event) [] @ [event]) (rk_events st)\<rparr>)"
  have "rk_node_id ?st = actor" using assms(2) by simp
  from compute_frame [OF assms(1) this, of w uuid now None]
  show ?thesis by (auto simp: ingest_event_def Let_def R_refl split: prod.splits sum.splits)
qed

lemma serve_risk_frame:
  assumes "framed (runtime_appender net (gcp_runtime settings))" "rk_node_id (fst s) = actor"
  shows "R (snd s) (snd (snd (serve_risk net settings px uuid now req s)))"
proof (cases s)
  case (Pair st w)
  have node: "rk_node_id st = actor" using assms(2) by (simp add: Pair)
  show ?thesis
  proof (cases req)
    case (PostRiskEvent body)
    have "R w (snd (snd (ingest_event_ep (runtime_appender net (gcp_runtime settings)) px uuid now body (st, w))))"
      using ingest_event_frame [OF assms(1) node] by (auto simp: ingest_event_ep_def R_refl split: option.splits)
    then show ?thesis by (simp add: PostRiskEvent Pair)
  next
    case (PostCompute body)
    have "R w (snd (snd (compute_risk_ep (runtime_appender net (gcp_runtime settings)) uuid now argument (st, w))))" for argument
      using compute_frame [OF assms(1) node, of w uuid now argument]
      by (auto simp: compute_risk_ep_def split: prod.splits sum.splits py_exc.splits)
    then show ?thesis by (cases "compute_argument px body") (simp_all add: PostCompute Pair R_refl)
  qed (auto simp: R_refl set_portfolio_def Pair split: option.splits)
qed

end

text \<open>A relation on the states of a network that every request keeps.\<close>

locale network_frame =
  fixes net :: "'n network"
    and R :: "'n \<Rightarrow> 'n \<Rightarrow> bool"
  assumes R_refl: "R n n"
    and R_trans: "R a b \<Longrightarrow> R b c \<Longrightarrow> R a c"
    and R_send: "R n (snd (net_send net rq n))"
begin

lemma send_frame: "R (w_net w) (w_net (snd (send net rq w)))"
  using R_send [of "w_net w" rq] by (simp add: send_def split_beta)

lemma request_frame: "R (w_net w) (w_net (snd (request_json net meth url body w)))"
  using send_frame [of w "\<lparr>rq_method = meth, rq_url = url, rq_body = body\<rparr>"]
  by (auto simp: request_json_def split_beta split: sum.splits)

lemma append_frame: "R (w_net w) (w_net (snd (append_ledger net rt r w)))"
  using request_frame by (simp add: append_ledger_def R_refl)

lemma discovery_frame: "R (w_net w) (w_net (snd (peers_by_capability net now rt c w)))"
  using request_frame [of w "''GET''" "ss_registry_url (rt_settings rt) @ ''/registry/capabilities/'' @ c" None]
  by (auto simp: peers_by_capability_def split_beta R_refl split: json.splits)

lemma sleep_net: "w_net (snd (sleep d w)) = w_net w"
  by (simp add: sleep_def)

lemma attempts_frame: "R (w_net w) (w_net (snd (route_attempts net rq retries backoff n a le w)))"
proof (induction n arbitrary: a le w)
  case 0
  show ?case by (simp add: R_refl)
next
  case (Suc n)
  obtain r w1 where s: "send net rq w = (r, w1)" by (metis surj_pair)
  then have 1: "R (w_net w) (w_net w1)" using send_frame [of w rq] by simp
  have 2: "R (w_net w) (w_net (snd (route_attempts net rq retries backoff n a' le' w2)))" if "w_net w2 = w_net w1" for a' le' w2
    using R_trans [OF 1 Suc.IH [of w2 a' le', unfolded that]] by simp
  have 3: "w_net (snd (sleep d w1)) = w_net w1" for d by (rule sleep_net)
  show ?case
    using 1 2 [OF 3] 2 [OF refl] 3
    by (auto simp: s bindS_def split: sum.splits prod.splits) (metis snd_conv)+
qed

lemma routing_frame: "R (w_net w) (w_net (snd (route_with_retries net rt peer p payload et ctx retries backoff w)))"
proof -
  let ?rq = "\<lparr>rq_method = ''POST'', rq_url = pr_base_url peer @ p, rq_body = payload\<rparr>"
  obtain r w1 where a: "route_attempts net ?rq retries backoff (nat retries) 1 None w = (r, w1)" by (metis surj_pair)
  then have 1: "R (w_net w) (w_net w1)" using attempts_frame [of w ?rq retries backoff "nat retries" 1 None] by simp
  show ?thesis
    using 1 R_trans [OF 1 append_frame]
    by (auto simp: route_with_retries_def Let_def a [simplified] split: sum.splits)
qed

lemma bindS_frame:
  assumes "R (w_net w) (w_net (snd (f w)))"
    and "\<And>x w1. f w = (Inr x, w1) \<Longrightarrow> R (w_net w1) (w_net (snd (g x w1)))"
  shows "R (w_net w) (w_net (snd (bindS (f w) g)))"
  using assms by (auto simp: bindS_def split: prod.splits sum.splits intro: R_trans)

lemma route_to_peers_frame: "R (w_net w) (w_net (snd (route_to_peers net rt event p payload et peers f w)))"
proof (induction peers arbitrary: f w)
  case Nil
  show ?case by (simp add: R_refl)
next
  case (Cons peer peers)
  note ih = Cons.IH
  have step: "R (w_net w1) (w_net (snd (case exc of
      Some e \<Rightarrow> route_to_peers net rt event p payload et peers (f + 1) w1
    | None \<Rightarrow> (case mk_ledger_request et aws_node (event_context event @ [(''target_node'', JStr (pr_node_id peer))]) of
         Inl e \<Rightarrow> (Inl e, w1)
       | Inr r \<Rightarrow> route_to_peers net rt event p payload et peers f (snd (append_ledger net rt r w1))))))"
    for exc :: "py_exc option" and w1
    using R_trans [OF append_frame ih] by (auto simp: ih R_refl split: option.splits sum.splits)
  show ?case
    unfolding route_to_peers.simps by (rule bindS_frame [OF routing_frame]) (simp add: step split_beta)
qed

lemma route_to_capability_frame:
  "R (w_net w) (w_net (snd (route_to_capability net now rt event c p payload et w)))"
  unfolding route_to_capability_def by (rule bindS_frame [OF discovery_frame route_to_peers_frame])

lemma compute_peers_frame: "R (w_net w) (w_net (snd (compute_peers net rt event peers f w)))"
proof (induction peers arbitrary: f w)
  case Nil
  show ?case by (simp add: R_refl)
next
  case (Cons peer peers)
  show ?case
    unfolding compute_peers.simps by (rule bindS_frame [OF routing_frame]) (simp add: Cons.IH split_beta)
qed

lemma route_event_frame: "R (w_net w) (w_net (snd (route_event net now rt event w)))"
  unfolding route_event_def
  by (intro bindS_frame route_to_capability_frame discovery_frame compute_peers_frame) (simp add: Let_def R_refl)

end

section \<open>Handlers\<close>

sublocale network_frame \<subseteq> told: ledger_frame "\<lambda>w w'. R (w_net w) (w_net w')" actor for actor
  by unfold_locales (rule R_refl)

context network_frame
begin

lemma runtime_appender_framed: "told.framed actor (runtime_appender net rt)"
  by (simp add: told.framed_def runtime_appender_def append_frame)

lemma forward_frame:
  assumes "\<And>w. R (w_net w) (w_net (snd (f event w)))"
  shows "R (w_net w) (w_net (snd (forward_event (Some f) event (st, w))))"
  using assms [of w] by (auto simp: forward_event_def split: prod.splits sum.splits)

lemma ingest_message_frame:
  assumes "told.framed (in_node_id st) appender" "\<And>f event w. route = Some f \<Longrightarrow> R (w_net w) (w_net (snd (f event w)))"
  shows "R (w_net w) (w_net (snd (snd (ingest_message appender route uuid now m (st, w)))))"
proof -
  have fwd: "R (w_net w1) (w_net (snd (forward_event route event (st1, w1))))" for event st1 w1
    using forward_frame [of _ event w1 st1] assms(2) by (cases route) (auto simp: forward_event_def R_refl)
  obtain event where e: "normalize uuid now (in_node_id st) (map_of (in_last_message st) (sm_symbol m)) m = Inr event"
    using normalize_eq by blast
  let ?st = "ingestion_save (st\<lparr>in_raw_messages := in_raw_messages st @ [m], in_events := in_events st @ [event],
    in_last_message := dict_set (sm_symbol m) m (in_last_message st)\<rparr>)"
  obtain r w1 where a: "record_ledger_event appender ''market_event_ingested'' (in_node_id ?st) (event_payload event) w = (r, w1)"
    by (metis surj_pair)
  have "in_node_id ?st = in_node_id st" by simp
  then have "R (w_net w) (w_net w1)"
    using told.record_frame [OF assms(1), of w "''market_event_ingested''" "event_payload event"] a by simp
  then show ?thesis
    using a R_trans [OF _ fwd] by (auto simp: ingest_message_def e Let_def split: sum.splits)
qed

lemma serve_ingestion_frame:
  "R (w_net (snd s)) (w_net (snd (snd (serve_ingestion net settings px uuid now req s))))"
proof (cases s)
  case (Pair st w)
  have store: "R (w_net w) (w_net (snd (snd (store_normalized_event (runtime_appender net rt) event (st, w)))))" for rt event
    using told.record_frame [OF runtime_appender_framed]
    by (auto simp: store_normalized_event_def Let_def split: prod.splits sum.splits) (metis snd_conv)+
  show ?thesis
  proof (cases req)
    case (PostMessage body)
    have "R (w_net w) (w_net (snd (snd (ingest_endpoint net settings px uuid now body (st, w)))))"
      by (auto simp: ingest_endpoint_def R_refl split: option.splits
          intro!: ingest_message_frame runtime_appender_framed route_event_frame)
    then show ?thesis by (simp add: PostMessage Pair)
  next
    case (PostEvent body)
    have "R (w_net w) (w_net (snd (snd (store_endpoint net settings px now body (st, w)))))"
      by (auto simp: store_endpoint_def R_refl store split: option.splits)
    then show ?thesis by (simp add: PostEvent Pair)
  qed (auto simp: R_refl split: option.splits)
qed

lemma serve_anomaly_frame:
  "R (w_net (snd (snd s))) (w_net (snd (snd (snd (serve_anomaly ops backend forest net settings px uuid now req s)))))"
  by (rule told.serve_anomaly_frame [OF runtime_appender_framed refl])

lemma serve_risk_frame:
  "R (w_net (snd s)) (w_net (snd (snd (serve_risk net settings px uuid now req s))))"
  by (rule told.serve_risk_frame [OF runtime_appender_framed refl])

end

end
