(* ===== verification/ServicesSpec.thy ===== *)
theory ServicesSpec
  imports NetFrame AnomalySpec RiskSpec
begin

text \<open>
  The services together: whatever requests arrive at any of them, the registry only ever makes its
  own operations, so its ledger grows; and what
  the retries of a delivery do to a service that fails after it has stored the event.
\<close>

section \<open>The registry under every request\<close>

abbreviation store_of :: "'m registry_net \<Rightarrow> registry" where
  "store_of n \<equiv> app_store (fst n)"

definition store_moves :: "'m registry_net \<Rightarrow> 'm registry_net \<Rightarrow> bool" where
  "store_moves a b \<longleftrightarrow> registry_op\<^sup>*\<^sup>* (store_of a) (store_of b)"

lemma mk_request_inv: "mk_ledger_request e a d = Inr r \<Longrightarrow> ledger_request_ok r"
  by (simp add: mk_ledger_request_def Let_def split: if_splits)

lemma validate_request_inv: "validate_ledger_request j = Some r \<Longrightarrow> ledger_request_ok r"
  by (auto simp: validate_ledger_request_def Let_def bind_eq_Some_conv)

lemmas op_intros = r_into_rtranclp [of registry_op, OF op_upsert] r_into_rtranclp [of registry_op, OF op_heartbeat]
  r_into_rtranclp [of registry_op, OF op_append]

lemma serve_moves: "registry_op\<^sup>*\<^sup>* (app_store app) (app_store (snd (serve interval clk req app)))"
proof (cases req)
  case (PostPeer body)
  show ?thesis
  proof (cases "validate_peer (utc_now (clk 0)) body")
    case (Some p)
    have 1: "registry_op\<^sup>*\<^sup>* (app_store app) (snd (upsert_peer (clk (Suc 0)) p (app_store app)))"
      using validate_peer_ok [OF Some] by (rule op_intros)
    then show ?thesis
      using rtranclp_trans [OF 1 op_intros(3) [OF mk_request_inv]]
      by (auto simp: PostPeer Some register_peer_def split_beta split: sum.splits)
  qed (simp add: PostPeer)
next
  case (PostHeartbeat k body)
  show ?thesis
  proof (cases "validate_heartbeat (utc_now (clk 0)) body")
    case (Some hb)
    have 1: "registry_op\<^sup>*\<^sup>* (app_store app) (snd (heartbeat k hb (app_store app)))" by (rule op_intros)
    obtain r st where h: "heartbeat k hb (app_store app) = (r, st)" by (metis surj_pair)
    then show ?thesis
      using 1 rtranclp_trans [OF 1 op_intros(3) [OF mk_request_inv]]
      by (auto simp: PostHeartbeat Some peer_heartbeat_ep_def h split: sum.splits option.splits)
  qed (simp add: PostHeartbeat)
next
  case (PostBlock body)
  show ?thesis
    using op_intros(3) [OF validate_request_inv]
    by (auto simp: PostBlock split_beta split: option.splits)
qed simp_all

lemma httpx_frame: "network_frame net R \<Longrightarrow> network_frame (httpx_net net) R"
  by (auto simp: network_frame_def httpx_net_def)

interpretation registry_host_side: network_frame "registry_host dp" store_moves for dp
proof
  show "store_moves n n" for n :: "'b registry_net" by (simp add: store_moves_def)
  show "store_moves a c" if "store_moves a b" "store_moves b c" for a b c :: "'b registry_net"
    using that by (auto simp: store_moves_def)
  show "store_moves n (snd (net_send (registry_host dp) rq n))" for n rq
    using serve_moves
    by (auto simp: store_moves_def registry_host_def registry_network_def registry_send_def split_beta
        split: option.splits)
qed

interpretation registry_side: network_frame "ledger_net dp" store_moves for dp
  unfolding ledger_net_def by (rule httpx_frame [OF registry_host_side.network_frame_axioms])

definition peers_move :: "('s, 'm) peers \<Rightarrow> ('s, 'm) peers \<Rightarrow> bool" where
  "peers_move a b \<longleftrightarrow> store_moves (pe_registry a) (pe_registry b)"

lemma peers_send_moves: "peers_move s (snd (peers_send dp rq s))"
proof -
  have a: "peers_move s (snd (anomaly_request_served dp req s))" for req
    using registry_side.serve_anomaly_frame [where dp = dp and s = "(pe_anomaly s, pe_store s, \<lparr>w_net = pe_registry s, w_trace = []\<rparr>)"]
    by (simp add: peers_move_def anomaly_request_served_def split_beta)
  have k: "peers_move s (snd (risk_request_served dp req s))" for req
    using registry_side.serve_risk_frame [where dp = dp and s = "(pe_risk s, \<lparr>w_net = pe_registry s, w_trace = []\<rparr>)"]
    by (simp add: peers_move_def risk_request_served_def split_beta)
  show ?thesis
    using a k registry_host_side.R_send [of "pe_registry s" dp rq]
    by (auto simp: peers_send_def Let_def peers_move_def registry_side.R_refl split_beta split: option.splits)
qed

interpretation peers_side: network_frame "peers_net dp" peers_move for dp
  unfolding peers_net_def
  by (rule httpx_frame, unfold_locales) (auto simp: peers_send_moves, auto simp: peers_move_def store_moves_def)

definition stack_moves :: "('s, 'm) stack \<Rightarrow> ('s, 'm) stack \<Rightarrow> bool" where
  "stack_moves a b \<longleftrightarrow> peers_move (sk_peers a) (sk_peers b)"

lemma stack_send_moves: "stack_moves s (snd (stack_send dp rq s))"
proof -
  have "stack_moves s (snd (ingestion_request_served dp req s))" for req
    using peers_side.serve_ingestion_frame [where dp = dp and s = "(sk_ingestion s, \<lparr>w_net = sk_peers s, w_trace = []\<rparr>)"]
    by (simp add: stack_moves_def ingestion_request_served_def split_beta)
  then show ?thesis
    using peers_send_moves
    by (auto simp: stack_send_def Let_def stack_moves_def peers_side.R_refl split_beta split: option.splits)
qed

interpretation stack_side: network_frame "stack_net dp" stack_moves for dp
  unfolding stack_net_def
  by (rule httpx_frame, unfold_locales)
    (auto simp: stack_send_moves, auto simp: stack_moves_def peers_move_def store_moves_def)

section \<open>Runs of the whole system\<close>

definition stack_app :: "('s, 'm) stack \<Rightarrow> registry_app" where
  "stack_app s = fst (pe_registry (sk_peers s))"

definition stack_tick :: "(nat \<Rightarrow> int) \<Rightarrow> ('s, 'm) stack \<Rightarrow> ('s, 'm) stack" where
  "stack_tick clk s = s\<lparr>sk_peers := (sk_peers s)\<lparr>pe_registry :=
     (verifier_tick clk (stack_app s), snd (pe_registry (sk_peers s)))\<rparr>\<rparr>"

text \<open>The registry's process starts again, with what its files gave it.\<close>

definition stack_restart :: "registry \<Rightarrow> ('s, 'm) stack \<Rightarrow> ('s, 'm) stack" where
  "stack_restart st s = s\<lparr>sk_peers := (sk_peers s)\<lparr>pe_registry :=
     (\<lparr>app_store = st, app_last_result = JNull, app_last_checked_at = JNull, app_runs = 0, app_failures = 0\<rparr>,
      snd (pe_registry (sk_peers s)))\<rparr>\<rparr>"

text \<open>
  A step: a request from outside to any of the services, a pass of the registry's verifier, or a
  restart of the registry.
\<close>

inductive stack_step :: "('s, 'm) deployment \<Rightarrow> ('s, 'm) stack \<Rightarrow> ('s, 'm) stack \<Rightarrow> bool" for dp where
  step_request: "stack_step dp s (snd (stack_send dp rq s))"
| step_tick: "stack_step dp s (stack_tick clk s)"
| step_restart: "load_state (dp_px dp) now (rg_state_dir (app_store (stack_app s))) (rg_fs (app_store (stack_app s))) = Inr st \<Longrightarrow>
     stack_step dp s (stack_restart st s)"

inductive_cases stack_stepE: "stack_step dp s s'"

lemma tick_moves: "registry_op\<^sup>*\<^sup>* (app_store app) (app_store (verifier_tick clk app))"
  using op_intros(3) [OF mk_request_inv] by (auto simp: verifier_tick_def Let_def split: sum.splits)

lemma ops_reachable: "registry_op\<^sup>*\<^sup>* st st' \<Longrightarrow> registry_reachable px dir st \<Longrightarrow> registry_reachable px dir st'"
  by (induction rule: rtranclp_induct) (auto intro: reachable_op)

lemma ops_dir: "registry_op\<^sup>*\<^sup>* st st' \<Longrightarrow> rg_state_dir st' = rg_state_dir st"
  by (induction rule: rtranclp_induct) (auto simp: registry_op_dir)

lemma ops_grow: "registry_op\<^sup>*\<^sup>* st st' \<Longrightarrow> \<exists>bs. rg_ledger st' = rg_ledger st @ bs"
proof (induction rule: rtranclp_induct)
  case (step st1 st2)
  then show ?case using registry_op_grows [OF step(2)] by (metis append.assoc)
qed simp

lemma restart_store:
  assumes "registry_reachable px dir st" "rg_state_dir st = Some d" "load_state px' now (rg_state_dir st) (rg_fs st) = Inr st'"
  shows "st' = st"
  using restart_same [OF reachable_inv [OF assms(1)] assms(3)] assms(2) by simp

lemma stack_step_moves:
  assumes "stack_step dp s s'" "registry_reachable px dir (app_store (stack_app s))"
    and "rg_state_dir (app_store (stack_app s)) = Some d"
  shows "registry_op\<^sup>*\<^sup>* (app_store (stack_app s)) (app_store (stack_app s'))"
  using assms(1)
proof cases
  case (step_request rq)
  then show ?thesis
    using stack_send_moves [of s dp rq] by (simp add: stack_moves_def peers_move_def store_moves_def stack_app_def)
next
  case (step_tick clk)
  then show ?thesis using tick_moves [of "stack_app s" clk] by (simp add: stack_app_def stack_tick_def)
next
  case (step_restart now st)
  from restart_store [OF assms(2,3) step_restart(2)] step_restart(1)
  show ?thesis by (simp add: stack_restart_def stack_app_def)
qed

lemma stack_run_moves:
  assumes "(stack_step dp)\<^sup>*\<^sup>* s s'" "registry_reachable px dir (app_store (stack_app s))"
    and "rg_state_dir (app_store (stack_app s)) = Some d"
  shows "registry_op\<^sup>*\<^sup>* (app_store (stack_app s)) (app_store (stack_app s'))"
  using assms(1)
proof (induction rule: rtranclp_induct)
  case (step s1 s2)
  then show ?case
    using stack_step_moves [OF step(2) ops_reachable [OF step(3) assms(2)]] ops_dir [OF step(3)] assms(3) by auto
qed simp

section \<open>Retries against the risk service\<close>

definition stored_events :: "string \<Rightarrow> ('s, 'm) peers \<Rightarrow> market_event list" where
  "stored_events symbol s = dict_get (rk_events (pe_risk s)) symbol []"

definition event_delivery :: "peer_registration \<Rightarrow> market_event \<Rightarrow> http_request" where
  "event_delivery peer event = route_request peer ''/risk/events'' (Some (dump_event event))"

lemma risk_event_stored:
  "stored_events (ev_symbol event) (snd (risk_request_served dp (PostRiskEvent (dump_event event)) s)) =
     stored_events (ev_symbol event) s @ [event]"
proof -
  let ?app = "runtime_appender (ledger_net dp) (gcp_runtime (dp_risk dp))"
  obtain r st w where i: "ingest_event ?app (dp_uuid dp (pe_served s)) (dp_now dp (pe_served s)) event
      (pe_risk s, \<lparr>w_net = pe_registry s, w_trace = []\<rparr>) = (r, (st, w))" by (metis prod_cases3)
  then have stored: "dict_get (rk_events st) (ev_symbol event) [] = dict_get (rk_events (pe_risk s)) (ev_symbol event) [] @ [event]"
    using event_stored [OF i] by (simp only: dict_get_def [of "rk_events st"]) simp
  have "snd (serve_risk (ledger_net dp) (dp_risk dp) (dp_px dp) (dp_uuid dp (pe_served s)) (dp_now dp (pe_served s))
      (PostRiskEvent (dump_event event)) (pe_risk s, \<lparr>w_net = pe_registry s, w_trace = []\<rparr>)) = (st, w)"
    using i by (simp add: ingest_event_ep_def validate_dump_event)
  then show ?thesis using stored by (simp add: stored_events_def risk_request_served_def split_beta del: serve_risk.simps)
qed

lemma delivery_reaches_risk:
  assumes "pr_base_url peer = ss_base_url (dp_risk dp)"
    and "\<not> starts_with (ss_base_url (dp_anomaly dp)) (ss_base_url (dp_risk dp) @ ''/risk/events'')"
  shows "peers_send dp (event_delivery peer event) s = risk_request_served dp (PostRiskEvent (dump_event event)) s"
  using assms by (simp add: peers_send_def event_delivery_def route_request_def Let_def risk_route_def request_body_def)

lemma deliveries_stored:
  assumes "pr_base_url peer = ss_base_url (dp_risk dp)"
    and "\<not> starts_with (ss_base_url (dp_anomaly dp)) (ss_base_url (dp_risk dp) @ ''/risk/events'')"
  shows "stored_events (ev_symbol event) (state_after (peers_net dp) (event_delivery peer event) n s) =
     stored_events (ev_symbol event) s @ (if json_finite (dump_event event) then replicate n event else [])"
proof (induction n arbitrary: s)
  case 0
  show ?case by simp
next
  case (Suc n)
  have enc: "encodable (event_delivery peer event) = json_finite (dump_event event)"
    by (simp add: encodable_def event_delivery_def route_request_def)
  show ?case
  proof (cases "json_finite (dump_event event)")
    case True
    then have "net_send (peers_net dp) (event_delivery peer event) s = risk_request_served dp (PostRiskEvent (dump_event event)) s"
      using delivery_reaches_risk [OF assms] enc by (simp add: peers_net_def httpx_send)
    then show ?thesis
      using Suc.IH [of "snd (risk_request_served dp (PostRiskEvent (dump_event event)) s)"] True by (simp add: risk_event_stored)
  next
    case False
    then show ?thesis using Suc.IH [of s] enc by (simp add: peers_net_def httpx_refuses)
  qed
qed

lemma refused_delivery:
  "\<not> json_finite (dump_event event) \<Longrightarrow>
     attempt_value (peers_net dp) (event_delivery peer event) i s = Inl (HttpxError ''Out of range float values are not JSON compliant'')"
  by (simp add: attempt_value_def peers_net_def httpx_refuses encodable_def event_delivery_def route_request_def response_value_def)

lemma ledger_append_stored:
  assumes "\<not> starts_with (ss_base_url (dp_anomaly dp)) (ss_ledger_url (rt_settings rt) @ ''/ledger/blocks'')"
    and "\<not> starts_with (ss_base_url (dp_risk dp)) (ss_ledger_url (rt_settings rt) @ ''/ledger/blocks'')"
  shows "stored_events symbol (w_net (snd (append_ledger (peers_net dp) rt r w))) = stored_events symbol (w_net w)"
  using assms
  by (auto simp: append_ledger_def request_json_def send_def peers_net_def httpx_net_def peers_send_def Let_def stored_events_def
      split_beta split: sum.splits)

lemma delivery_succeeds:
  fixes dp :: "('s, 'm) deployment" and w :: "('s, 'm) peers world" and event :: market_event
  assumes "pr_base_url peer = ss_base_url (dp_risk dp)"
    and "\<not> starts_with (ss_base_url (dp_anomaly dp)) (ss_base_url (dp_risk dp) @ ''/risk/events'')"
    and failed: "\<And>i. failed i \<longleftrightarrow> isl (attempt_value (peers_net dp) (event_delivery peer event) i (w_net w))"
    and k: "k < 3" "\<not> failed k" "\<forall>i < k. failed i"
  shows "\<exists>body w'. route_with_retries (peers_net dp) rt peer ''/risk/events'' (Some (dump_event event)) et ctx
       default_route_retries default_route_backoff w = (Inr (body, None), w') \<and>
     stored_events (ev_symbol event) (w_net w') = stored_events (ev_symbol event) (w_net w) @ replicate (Suc k) event \<and>
     json_finite (dump_event event)"
proof -
  have fin: "json_finite (dump_event event)"
    using k(2) refused_delivery unfolding failed by (metis sum.disc(1))
  have rq: "route_request peer ''/risk/events'' (Some (dump_event event)) = event_delivery peer event"
    by (simp add: event_delivery_def)
  obtain body where "attempt_value (peers_net dp) (event_delivery peer event) k (w_net w) = Inr body"
    using k(2) by (cases "attempt_value (peers_net dp) (event_delivery peer event) k (w_net w)") (simp_all add: failed)
  then show ?thesis
    using k fin route_delivers_eq [OF default_backoff_fine, of k "peers_net dp" peer "''/risk/events''" "Some (dump_event event)"
        w body rt et ctx] deliveries_stored [OF assms(1,2), of event "Suc k"]
    by (auto simp: rq default_route_retries_def failed isl_def simp del: state_after.simps replicate.simps)
qed

text \<open>
  C30. Delivery of an event to the risk service is not idempotent: with the default retries the
  event is stored once for every attempt that was made, so three times when the service fails
  each time after it has stored the event; the sender is then told of a failure. An event with an
  infinity or NaN in it is never stored: the client refuses each of the three attempts.
\<close>

theorem delivery_stores_once_per_attempt:
  fixes dp :: "('s, 'm) deployment" and w :: "('s, 'm) peers world" and event :: market_event
  assumes "pr_base_url peer = ss_base_url (dp_risk dp)" "str_between 3 128 (rt_node_id rt)"
    and "\<not> starts_with (ss_base_url (dp_anomaly dp)) (ss_base_url (dp_risk dp) @ ''/risk/events'')"
    and "\<not> starts_with (ss_base_url (dp_anomaly dp)) (ss_ledger_url (rt_settings rt) @ ''/ledger/blocks'')"
    and "\<not> starts_with (ss_base_url (dp_risk dp)) (ss_ledger_url (rt_settings rt) @ ''/ledger/blocks'')"
  defines "failed \<equiv> \<lambda>i. isl (attempt_value (peers_net dp) (event_delivery peer event) i (w_net w))"
  shows "\<exists>body exc w'. route_with_retries (peers_net dp) rt peer ''/risk/events'' (Some (dump_event event)) et ctx
       default_route_retries default_route_backoff w = (Inr (body, exc), w') \<and>
     stored_events (ev_symbol event) (w_net w') = stored_events (ev_symbol event) (w_net w) @
       replicate (if \<not> json_finite (dump_event event) then 0 else if \<not> failed 0 then 1 else if \<not> failed 1 then 2 else 3) event \<and>
     (exc \<noteq> None \<longleftrightarrow> failed 0 \<and> failed 1 \<and> failed 2) \<and>
     (\<not> json_finite (dump_event event) \<longrightarrow> exc \<noteq> None)"
proof -
  note stored = deliveries_stored [OF assms(1,3), of event]
  have refused: "failed i" if "\<not> json_finite (dump_event event)" for i
    unfolding failed_def by (simp add: refused_delivery [OF that])
  have rq: "route_request peer ''/risk/events'' (Some (dump_event event)) = event_delivery peer event"
    by (simp add: event_delivery_def)
  have "failed i \<longleftrightarrow> isl (attempt_value (peers_net dp) (event_delivery peer event) i (w_net w))" for i
    by (simp add: failed_def)
  note ok = delivery_succeeds [OF assms(1,3) this, where rt = rt and et = et and ctx = ctx]
  show ?thesis
  proof (cases "failed 0 \<and> failed 1 \<and> failed 2")
    case False
    then consider "\<not> failed 0" | "failed 0" "\<not> failed 1" | "failed 0" "failed 1" "\<not> failed 2" by blast
    then show ?thesis
    proof cases
      case 1 then show ?thesis using ok [where k = 0] by auto
    next
      case 2 then show ?thesis using ok [where k = 1] by (auto simp: numeral_2_eq_2)
    next
      case 3 then show ?thesis using ok [where k = 2] by (auto simp: less_2_cases_iff numeral_3_eq_3)
    qed
  next
    case True
    then have "\<forall>i < nat 3. \<exists>e. attempt_value (peers_net dp) (event_delivery peer event) i (w_net w) = Inl e"
      by (auto simp: failed_def isl_def numeral_3_eq_3 less_Suc_eq numeral_2_eq_2)
    from route_failure_audited_eq [OF _ _ assms(2), of default_route_backoff 3 "peers_net dp" peer "''/risk/events''"
        "Some (dump_event event)" w et ctx, unfolded rq, OF _ _ this] default_backoff_fine
    obtain e where "route_with_retries (peers_net dp) rt peer ''/risk/events'' (Some (dump_event event)) et ctx
        default_route_retries default_route_backoff w = (Inr (JNull, Some e),
          snd (append_ledger (peers_net dp) rt (failure_request rt peer ''/risk/events'' et ctx 3 e)
          \<lparr>w_net = state_after (peers_net dp) (event_delivery peer event) 3 (w_net w),
           w_trace = w_trace w @ attempts_effects (event_delivery peer event) default_route_backoff 1 3\<rparr>))"
      by (auto simp: default_route_retries_def)
    then show ?thesis using True ledger_append_stored [OF assms(4,5)] stored [of 3] by (cases "json_finite (dump_event event)") auto
  qed
qed

text \<open>A deployment on one machine whose risk service keeps no ledger.\<close>

definition host_at :: "string \<Rightarrow> service_settings" where
  "host_at url = demo_settings\<lparr>ss_base_url := url\<rparr>"

definition demo_deployment :: "(fs, unit) deployment" where
  "demo_deployment = \<lparr>dp_interval = 60, dp_registry_url = ''http://r:8'', dp_clocks = (\<lambda>k i. 5 + int k),
     dp_now = (\<lambda>k. 7 + int k), dp_uuid = (\<lambda>k. ''0123456789abcdef''), dp_px = strict_pydantic, dp_forest = None,
     dp_store = file_ops None, dp_backend = ''FileJsonStateStore'', dp_anomaly = host_at ''http://b:2'',
     dp_risk = (host_at ''http://c:3'')\<lparr>ss_enable_runtime := False\<rparr>, dp_ingestion = host_at ''http://a:1'',
     dp_other = (\<lambda>rq m. (NoReply ''unknown host'', m)), dp_status_text = (\<lambda>n u. ''Server error'')\<rparr>"

definition demo_peers :: "nat \<Rightarrow> nat \<Rightarrow> (fs, unit) peers" where
  "demo_peers n k = \<lparr>pe_registry = (demo_app, 0, ()), pe_anomaly = \<lparr>an_node_id = azure_node,
     an_alert_threshold = default_alert_threshold, an_history_window = default_history_window, an_history = [], an_alerts = []\<rparr>,
     pe_store = Map.empty, pe_risk = after_loss n, pe_served = k\<rparr>"

definition risk_peer :: peer_registration where
  "risk_peer = demo_peer\<lparr>pr_node_id := gcp_node, pr_base_url := ''http://c:3''\<rparr>"

lemma demo_urls [simp]:
  "ss_base_url (dp_anomaly demo_deployment) = ''http://b:2''" "ss_base_url (dp_risk demo_deployment) = ''http://c:3''"
  "ss_base_url (dp_ingestion demo_deployment) = ''http://a:1''" "ss_ledger_url (rt_settings demo_runtime) = ''http://r:8''"
  "ss_enable_runtime (dp_risk demo_deployment) = False" "pr_base_url risk_peer = ''http://c:3''"
  by (simp_all add: demo_deployment_def host_at_def demo_runtime_def demo_settings_def risk_peer_def)

lemma demo_event_finite: "json_finite (dump_event (price_event (Fin 0)))"
  by (simp add: price_event_def demo_event_def normalized_def dump_event_def fl_eval is_finite_def)

lemma demo_delivery:
  "net_send (peers_net demo_deployment) (event_delivery risk_peer (price_event (Fin 0))) (demo_peers n k) =
     (Reply 500 (BadBody ''Internal Server Error''), demo_peers (Suc n) (Suc k))"
proof -
  have a: "runtime_appender (ledger_net demo_deployment) (gcp_runtime (dp_risk demo_deployment)) = None"
    by (simp add: runtime_appender_def rt_enabled_def gcp_runtime_def)
  have "\<not> starts_with ''http://b:2'' ''http://c:3/risk/events''" by (simp add: starts_with_def)
  then have "net_send (peers_net demo_deployment) (event_delivery risk_peer (price_event (Fin 0))) (demo_peers n k) =
      risk_request_served demo_deployment (PostRiskEvent (dump_event (price_event (Fin 0)))) (demo_peers n k)"
    using delivery_reaches_risk [of risk_peer demo_deployment] demo_event_finite
    by (simp add: peers_net_def httpx_send encodable_def event_delivery_def route_request_def)
  also have "\<dots> = (Reply 500 (BadBody ''Internal Server Error''), demo_peers (Suc n) (Suc k))"
    by (simp add: risk_request_served_def demo_peers_def ingest_event_ep_def validate_dump_event a total_loss_raises_again
        map_outcome_def rendered_def reply_of_def)
  finally show ?thesis .
qed

lemma demo_attempts:
  "isl (attempt_value (peers_net demo_deployment) (event_delivery risk_peer (price_event (Fin 0))) i (demo_peers n k))"
proof -
  have "state_after (peers_net demo_deployment) (event_delivery risk_peer (price_event (Fin 0))) i (demo_peers n k) =
      demo_peers (n + i) (k + i)" by (induction i arbitrary: n k) (simp_all add: demo_delivery)
  then show ?thesis by (simp add: attempt_value_def demo_delivery response_value_def)
qed

theorem delivery_stores_once_per_attempt_witness:
  "\<exists>body exc w'. route_with_retries (peers_net demo_deployment) demo_runtime risk_peer ''/risk/events''
       (Some (dump_event (price_event (Fin 0)))) ''event_routed_to_risk'' [] default_route_retries default_route_backoff
       \<lparr>w_net = demo_peers 0 0, w_trace = []\<rparr> = (Inr (body, exc), w') \<and> exc \<noteq> None \<and>
     stored_events ''BTC'' (w_net w') = price_event (Fin 100) # replicate 3 (price_event (Fin 0))"
proof -
  have "stored_events ''BTC'' (demo_peers 0 0) = [price_event (Fin 100)]"
    by (simp add: stored_events_def demo_peers_def after_loss_def one_asset_def dict_get_def)
  then show ?thesis
    using delivery_stores_once_per_attempt [where peer = risk_peer and dp = demo_deployment and rt = demo_runtime
        and w = "\<lparr>w_net = demo_peers 0 0, w_trace = []\<rparr>" and event = "price_event (Fin 0)"
        and et = "''event_routed_to_risk''" and ctx = "[]"] demo_attempts [of _ 0 0] demo_event_finite
    by (auto simp: starts_with_def)
qed

definition demo_stack :: "(fs, unit) stack" where
  "demo_stack = \<lparr>sk_ingestion = \<lparr>in_node_id = aws_node, in_state_path = None, in_raw_messages = [], in_events = [],
     in_last_message = [], in_forwarded_events = 0, in_routing_failures = 0, in_fs = Map.empty\<rparr>,
     sk_peers = demo_peers 0 0, sk_served = 0\<rparr>"

end
