(* ===== verification/LocalFlow.thy ===== *)
theory LocalFlow
  imports Risk RegistryApi Simulator
begin

text \<open>
  \<open>scripts/local_flow_demo.py\<close>: the registry store and the three services in one process, with
  the store's \<open>append_block\<close> as everybody's ledger appender, fed by the simulator. The world the
  appender acts on is the store together with the number of clock readings made so far, which is
  also where the next random id comes from.
\<close>

type_synonym flow_world = "registry \<times> nat"

definition flow_appender :: "(nat \<Rightarrow> int) \<Rightarrow> flow_world ledger_appender" where
  "flow_appender clk r w = (case w of (st, n) \<Rightarrow> (Inr (), (snd (append_block (clk n) r st), Suc n)))"

record 'g flow =
  fl_world :: flow_world
  fl_ingestion :: ingestion
  fl_anomaly :: anomaly
  fl_store :: fs
  fl_risk :: risk
  fl_simulator :: "'g simulator"
  fl_alerts :: "anomaly_alert list"

section \<open>Registration\<close>

text \<open>The constructor call \<open>PeerRegistration(...)\<close>: defaults and validation.\<close>

definition new_peer :: "int \<Rightarrow> string \<Rightarrow> string \<Rightarrow> string \<Rightarrow> string \<Rightarrow> string list \<Rightarrow> peer_registration result" where
  "new_peer now node_id node_type cloud base_url capabilities =
     (let p = \<lparr>pr_node_id = node_id, pr_node_type = node_type, pr_cloud = cloud, pr_base_url = base_url,
            pr_capabilities = capabilities, pr_status = Online, pr_last_heartbeat = utc_now now,
            pr_metadata = [], pr_extra = []\<rparr>
      in if peer_ok p then Inr p else Inl (ValidationError ''PeerRegistration''))"

definition flow_register :: "(nat \<Rightarrow> int) \<Rightarrow> peer_registration \<Rightarrow> flow_world \<Rightarrow> (flow_world, unit) outcome" where
  "flow_register clk peer w =
     (case w of (st, n) \<Rightarrow>
        case upsert_peer (clk n) peer st of (registered, st1) \<Rightarrow>
        (case mk_ledger_request ''peer_registered'' (pr_node_id peer) (jfields (dump_peer registered)) of
           Inl e \<Rightarrow> (Inl e, (st1, Suc n))
         | Inr r \<Rightarrow>
             (case append_block (clk (Suc n)) r st1 of (_, st2) \<Rightarrow>
              case heartbeat (pr_node_id peer) \<lparr>hb_status = Online, hb_observed_at = utc_now (clk (n + 2))\<rparr> st2 of (_, st3) \<Rightarrow>
                (Inr (), (st3, n + 3)))))"

fun register_all ::
    "(nat \<Rightarrow> int) \<Rightarrow> (string \<times> string \<times> string \<times> string \<times> string list) list \<Rightarrow> flow_world \<Rightarrow>
       (flow_world, unit) outcome" where
  "register_all clk [] w = (Inr (), w)"
| "register_all clk ((node_id, node_type, cloud, base_url, capabilities) # ps) w =
     (case new_peer (clk (snd w)) node_id node_type cloud base_url capabilities of
        Inl e \<Rightarrow> (Inl e, w)
      | Inr p \<Rightarrow> bindS (flow_register clk p (fst w, Suc (snd w))) (\<lambda>_. register_all clk ps))"

definition local_peers :: "(string \<times> string \<times> string \<times> string \<times> string list) list" where
  "local_peers =
     [(''registry-01'', ''registry'', ''shared'', ''http://localhost:8000'',
       [''register_peers'', ''track_heartbeats'', ''append_ledger'']),
      (''aws-ingestion-01'', ''ingestion'', ''aws'', ''http://localhost:8001'',
       [''ingest_market_data'', ''publish_events'']),
      (''azure-anomaly-01'', ''anomaly'', ''azure'', ''http://localhost:8002'',
       [''detect_anomalies'', ''list_alerts'', ''submit_review_feedback'']),
      (''gcp-risk-01'', ''risk'', ''gcp'', ''http://localhost:8003'',
       [''compute_risk'', ''list_risk_history''])]"

section \<open>The services\<close>

definition demo_portfolio :: portfolio where
  "demo_portfolio = \<lparr>pf_portfolio_id = ''demo_portfolio'',
     pf_positions =
       [\<lparr>po_symbol = ''BTCUSD'', po_weight = fl (4 / 10)\<rparr>, \<lparr>po_symbol = ''ETHUSD'', po_weight = fl (3 / 10)\<rparr>,
        \<lparr>po_symbol = ''AAPL'', po_weight = fl (2 / 10)\<rparr>, \<lparr>po_symbol = ''MSFT'', po_weight = fl (1 / 10)\<rparr>]\<rparr>"

text \<open>Services without a state path, and a risk service that computes only when asked.\<close>

definition flow_init :: "'g \<Rightarrow> flow_world \<Rightarrow> 'g flow" where
  "flow_init seed w = \<lparr>fl_world = w,
     fl_ingestion = \<lparr>in_node_id = ''aws-ingestion-01'', in_state_path = None, in_raw_messages = [], in_events = [],
       in_last_message = [], in_forwarded_events = 0, in_routing_failures = 0, in_fs = Map.empty\<rparr>,
     fl_anomaly = \<lparr>an_node_id = ''azure-anomaly-01'', an_alert_threshold = default_alert_threshold,
       an_history_window = default_history_window, an_history = [], an_alerts = []\<rparr>,
     fl_store = Map.empty,
     fl_risk = snd (set_portfolio demo_portfolio \<lparr>rk_node_id = ''gcp-risk-01'', rk_state_path = None,
       rk_auto_compute = False, rk_events = [], rk_portfolio = None, rk_snapshots = [], rk_fs = Map.empty\<rparr>),
     fl_simulator = new_simulator seed, fl_alerts = []\<rparr>"

section \<open>One message\<close>

text \<open>Each of the three calls reads the clock once for its own timestamps before it appends a block.\<close>

definition reading :: "flow_world \<Rightarrow> nat \<times> flow_world" where
  "reading w = (snd w, (fst w, Suc (snd w)))"

definition flow_ingest ::
    "(nat \<Rightarrow> int) \<Rightarrow> (nat \<Rightarrow> string) \<Rightarrow> sensor_message \<Rightarrow> 'g flow \<Rightarrow> ('g flow, market_event) outcome" where
  "flow_ingest clk uuid m s =
     (case reading (fl_world s) of (n, w) \<Rightarrow>
      case ingest_message (Some (flow_appender clk)) None (uuid n) (clk n) m (fl_ingestion s, w) of (r, (st, w1)) \<Rightarrow>
        (r, s\<lparr>fl_ingestion := st, fl_world := w1\<rparr>))"

definition flow_risk_event ::
    "(nat \<Rightarrow> int) \<Rightarrow> (nat \<Rightarrow> string) \<Rightarrow> market_event \<Rightarrow> 'g flow \<Rightarrow> ('g flow, market_event) outcome" where
  "flow_risk_event clk uuid event s =
     (case reading (fl_world s) of (n, w) \<Rightarrow>
      case ingest_event (Some (flow_appender clk)) (uuid n) (clk n) event (fl_risk s, w) of (r, (st, w1)) \<Rightarrow>
        (r, s\<lparr>fl_risk := st, fl_world := w1\<rparr>))"

definition flow_analyze ::
    "forest \<Rightarrow> (nat \<Rightarrow> int) \<Rightarrow> (nat \<Rightarrow> string) \<Rightarrow> market_event \<Rightarrow> 'g flow \<Rightarrow> ('g flow, anomaly_alert option) outcome" where
  "flow_analyze forest clk uuid event s =
     (case reading (fl_world s) of (n, w) \<Rightarrow>
      case analyze_event (file_ops None) forest (Some (flow_appender clk)) (uuid n) (clk n) event
             (fl_anomaly s, fl_store s, w) of (r, (st, store, w1)) \<Rightarrow>
        (r, s\<lparr>fl_anomaly := st, fl_store := store, fl_world := w1\<rparr>))"

definition flow_message ::
    "forest \<Rightarrow> (nat \<Rightarrow> int) \<Rightarrow> (nat \<Rightarrow> string) \<Rightarrow> sensor_message \<Rightarrow> 'g flow \<Rightarrow> ('g flow, unit) outcome" where
  "flow_message forest clk uuid m s =
     bindS (flow_ingest clk uuid m s) (\<lambda>event s1.
     bindS (flow_risk_event clk uuid event s1) (\<lambda>_ s2.
     bindS (flow_analyze forest clk uuid event s2) (\<lambda>alert s3.
       (Inr (), case alert of None \<Rightarrow> s3 | Some a \<Rightarrow> s3\<lparr>fl_alerts := fl_alerts s3 @ [a]\<rparr>))))"

fun flow_messages ::
    "forest \<Rightarrow> (nat \<Rightarrow> int) \<Rightarrow> (nat \<Rightarrow> string) \<Rightarrow> sensor_message list \<Rightarrow> 'g flow \<Rightarrow> ('g flow, unit) outcome" where
  "flow_messages forest clk uuid [] s = (Inr (), s)"
| "flow_messages forest clk uuid (m # ms) s =
     bindS (flow_message forest clk uuid m s) (\<lambda>_. flow_messages forest clk uuid ms)"

section \<open>The run\<close>

text \<open>\<open>for cycle in range(18)\<close>: \<open>n\<close> is the number of cycles left; the simulator reads the clock once per message.\<close>

fun flow_cycles ::
    "'g rng \<Rightarrow> forest \<Rightarrow> (nat \<Rightarrow> int) \<Rightarrow> (nat \<Rightarrow> string) \<Rightarrow> int \<Rightarrow> string option \<Rightarrow> nat \<Rightarrow> int \<Rightarrow> 'g flow \<Rightarrow> ('g flow, unit) outcome" where
  "flow_cycles rng forest clk uuid anomaly_cycle anomaly_symbol 0 cycle s = (Inr (), s)"
| "flow_cycles rng forest clk uuid anomaly_cycle anomaly_symbol (Suc n) cycle s =
     (case generate_cycle rng (\<lambda>i. clk (snd (fl_world s) + i)) None
             (if cycle = anomaly_cycle then anomaly_symbol else None) (fl_simulator s) of
        (Inl e, sim) \<Rightarrow> (Inl e, s\<lparr>fl_simulator := sim\<rparr>)
      | (Inr ms, sim) \<Rightarrow>
          bindS (flow_messages forest clk uuid ms (s\<lparr>fl_simulator := sim,
                   fl_world := (fst (fl_world s), snd (fl_world s) + length ms)\<rparr>))
            (\<lambda>_. flow_cycles rng forest clk uuid anomaly_cycle anomaly_symbol n (cycle + 1)))"

definition flow_compute ::
    "(nat \<Rightarrow> int) \<Rightarrow> (nat \<Rightarrow> string) \<Rightarrow> 'g flow \<Rightarrow> ('g flow, risk_snapshot) outcome" where
  "flow_compute clk uuid s =
     (case reading (fl_world s) of (n, w) \<Rightarrow>
      case compute_risk (Some (flow_appender clk)) (uuid n) (clk n) None (fl_risk s, w) of (r, (st, w1)) \<Rightarrow>
        (r, s\<lparr>fl_risk := st, fl_world := w1\<rparr>))"

definition flow_summary :: "(nat \<Rightarrow> int) \<Rightarrow> risk_snapshot \<Rightarrow> 'g flow \<Rightarrow> json result" where
  "flow_summary clk latest_risk s =
     (let store = fst (fl_world s) in
      bindR (list_peers (\<lambda>i. clk (snd (fl_world s) + i)) store) (\<lambda>ps.
      Inr (JObj [
        (''peers'', JList (map dump_peer ps)),
        (''events_processed'', JInt (int (length (in_events (fl_ingestion s))))),
        (''alerts_created'', JInt (int (length (fl_alerts s)))),
        (''latest_alert'', if fl_alerts s = [] then JNull else dump_alert (last (fl_alerts s))),
        (''latest_risk'', dump_snapshot latest_risk),
        (''ledger_valid'', dump_verification (verify_ledger store)),
        (''ledger_blocks'', JInt (int (length (list_blocks store))))])))"

definition local_flow ::
    "'g rng \<Rightarrow> forest \<Rightarrow> (nat \<Rightarrow> int) \<Rightarrow> (nat \<Rightarrow> string) \<Rightarrow> 'g \<Rightarrow> ('g flow, json) outcome" where
  "local_flow rng forest clk uuid seed =
     (case register_all clk local_peers (\<lparr>rg_state_dir = None, rg_peers = [], rg_ledger = [], rg_fs = Map.empty\<rparr>, 0) of
        (Inl e, w) \<Rightarrow> (Inl e, flow_init seed w)
      | (Inr _, w) \<Rightarrow>
          bindS (flow_cycles rng forest clk uuid 10 (Some ''BTCUSD'') 18 0 (flow_init seed w)) (\<lambda>_ s.
          bindS (flow_compute clk uuid s) (\<lambda>latest_risk s1. (flow_summary clk latest_risk s1, s1))))"

end
