(* ===== verification/LocalFlowSpec.thy ===== *)
theory LocalFlowSpec
  imports LocalFlow RiskSpec SimulatorSpec
begin

text \<open>
  The composition in one process: however the run of the demo ends, the registry's ledger verifies
  and has one block for each registration, event, alert and snapshot.
\<close>

section \<open>The shared ledger\<close>

interpretation flow_quiet: quiet_appender "Some (flow_appender clk)" for clk
  by unfold_locales (auto simp: flow_appender_def split: prod.splits)

definition blocks :: "flow_world \<Rightarrow> nat" where
  "blocks w = length (rg_ledger (fst w))"

lemma recorded:
  assumes "str_between 3 128 et" "str_between 3 128 actor" "registry_inv (fst w)"
  shows "\<exists>w'. record_ledger_event (Some (flow_appender clk)) et actor d w = (Inr (), w') \<and>
     registry_inv (fst w') \<and> blocks w' = Suc (blocks w)"
proof -
  have "ledger_request_ok \<lparr>lr_event_type = et, lr_actor_node = actor, lr_payload = d\<rparr>"
    using assms(1,2) by (simp add: ledger_request_ok_def)
  then show ?thesis
    using assms by (cases w) (simp add: record_ledger_event_def flow_appender_def mk_request_ok blocks_def append_inv)
qed

section \<open>Registration\<close>

lemma flow_register_ok:
  assumes "peer_ok p" "registry_inv (fst w)"
  shows "\<exists>w'. flow_register clk p w = (Inr (), w') \<and> registry_inv (fst w') \<and> blocks w' = Suc (blocks w)"
proof -
  have n: "str_between 3 128 (pr_node_id p)" using assms(1) by (simp add: peer_ok_def)
  let ?q = "fst (upsert_peer (clk (snd w)) p (fst w))" and ?st1 = "snd (upsert_peer (clk (snd w)) p (fst w))"
  let ?r = "\<lparr>lr_event_type = ''peer_registered'', lr_actor_node = pr_node_id p, lr_payload = jfields (dump_peer ?q)\<rparr>"
  let ?st2 = "snd (append_block (clk (Suc (snd w))) ?r ?st1)"
  let ?st3 = "snd (heartbeat (pr_node_id p) \<lparr>hb_status = Online, hb_observed_at = utc_now (clk (snd w + 2))\<rparr> ?st2)"
  have "registry_inv ?st1" by (rule upsert_inv [OF assms(2,1)])
  moreover have "flow_register clk p w = (Inr (), (?st3, snd w + 3))"
    using n by (simp add: flow_register_def mk_request_ok split_beta)
  ultimately show ?thesis using heartbeat_inv [OF append_inv] by (simp add: blocks_def)
qed

lemma new_peer_ok:
  assumes "str_between 3 128 n" "str_between 3 64 t" "c \<in> set cloud_names" "str_between 1 512 u"
  shows "\<exists>p. new_peer now n t c u caps = Inr p \<and> peer_ok p"
  using assms by (simp add: new_peer_def peer_ok_def)

lemma register_all_ok:
  assumes "\<forall>(n, t, c, u, caps) \<in> set ps. str_between 3 128 n \<and> str_between 3 64 t \<and> c \<in> set cloud_names \<and> str_between 1 512 u"
    and "registry_inv (fst w)"
  shows "\<exists>w'. register_all clk ps w = (Inr (), w') \<and> registry_inv (fst w') \<and> blocks w' = blocks w + length ps"
  using assms
proof (induction ps arbitrary: w)
  case Nil
  then show ?case by simp
next
  case (Cons x ps)
  obtain n t c u caps where x: "x = (n, t, c, u, caps)" by (metis prod_cases5)
  obtain p where p: "new_peer (clk (snd w)) n t c u caps = Inr p" "peer_ok p"
    using new_peer_ok [of n t c u "clk (snd w)" caps] Cons.prems(1) x by auto
  obtain w1 where w1: "flow_register clk p (fst w, Suc (snd w)) = (Inr (), w1)" "registry_inv (fst w1)"
    "blocks w1 = Suc (blocks w)"
    using flow_register_ok [OF p(2), of "(fst w, Suc (snd w))" clk] Cons.prems(2) by (auto simp: blocks_def)
  from Cons.IH [OF _ w1(2)] Cons.prems(1) w1 show ?case by (auto simp: x p(1))
qed

lemma local_peers_registered:
  "\<exists>w. register_all clk local_peers (registry_init None, 0) = (Inr (), w) \<and> registry_inv (fst w) \<and> blocks w = 4"
proof -
  have "\<forall>(n, t, c, u, caps) \<in> set local_peers.
      str_between 3 128 n \<and> str_between 3 64 t \<and> c \<in> set cloud_names \<and> str_between 1 512 u"
    by (simp add: local_peers_def str_between_def cloud_names_def)
  moreover have "length local_peers = 4" by (simp add: local_peers_def)
  moreover have "blocks (registry_init None, 0) = 0" by (simp add: blocks_def registry_init_def)
  ultimately show ?thesis
    using register_all_ok [of local_peers "(registry_init None, 0)" clk] registry_init_inv [of None] by simp
qed

section \<open>The invariant of the run\<close>

definition flow_inv :: "'g flow \<Rightarrow> bool" where
  "flow_inv s \<longleftrightarrow> registry_inv (fst (fl_world s)) \<and>
     blocks (fl_world s) = 4 + length (in_events (fl_ingestion s)) + length (fl_alerts s) + length (rk_snapshots (fl_risk s)) \<and>
     str_between 3 128 (in_node_id (fl_ingestion s)) \<and> str_between 3 128 (an_node_id (fl_anomaly s)) \<and>
     str_between 3 128 (rk_node_id (fl_risk s)) \<and> \<not> rk_auto_compute (fl_risk s)"

lemma reading_simps [simp]: "fst (fst (snd (reading w)), m) = fst w" "fst (snd (reading w)) = fst w" "blocks (snd (reading w)) = blocks w"
  by (simp_all add: reading_def blocks_def)

lemma flow_ingest_ok:
  assumes "flow_inv s"
  shows "\<exists>event s'. flow_ingest clk uuid m s = (Inr event, s') \<and> flow_inv s' \<and>
     length (in_events (fl_ingestion s')) = Suc (length (in_events (fl_ingestion s))) \<and>
     fl_alerts s' = fl_alerts s \<and> fl_risk s' = fl_risk s \<and> fl_simulator s' = fl_simulator s"
proof -
  obtain n w where r: "reading (fl_world s) = (n, w)" by (metis surj_pair)
  have w: "fst w = fst (fl_world s)" "blocks w = blocks (fl_world s)"
    using r reading_simps [of "fl_world s"] by (metis snd_conv)+
  let ?st = "fl_ingestion s"
  obtain event where e: "normalize (uuid n) (clk n) (in_node_id ?st) (map_of (in_last_message ?st) (sm_symbol m)) m = Inr event"
    using normalize_eq by blast
  obtain w1 where w1: "record_ledger_event (Some (flow_appender clk)) ''market_event_ingested'' (in_node_id ?st) (event_payload event) w =
      (Inr (), w1)" "registry_inv (fst w1)" "blocks w1 = Suc (blocks w)"
    using recorded [of "''market_event_ingested''" "in_node_id ?st" w clk "event_payload event"] assms w(1)
    unfolding flow_inv_def by auto
  show ?thesis
    using assms w1 w(2) by (simp add: flow_ingest_def r ingest_message_def e Let_def forward_event_def flow_inv_def)
qed

lemma flow_risk_event_ok:
  assumes "flow_inv s"
  shows "\<exists>event' s'. flow_risk_event clk uuid event s = (Inr event', s') \<and> flow_inv s' \<and>
     fl_ingestion s' = fl_ingestion s \<and> rk_snapshots (fl_risk s') = rk_snapshots (fl_risk s)"
proof -
  obtain n w where r: "reading (fl_world s) = (n, w)" by (metis surj_pair)
  have w: "fst w = fst (fl_world s)" "blocks w = blocks (fl_world s)"
    using r reading_simps [of "fl_world s"] by (metis snd_conv)+
  show ?thesis
    using assms w by (simp add: flow_risk_event_def r ingest_event_def Let_def flow_inv_def)
qed

definition with_alert :: "anomaly_alert option result \<Rightarrow> 'g flow \<Rightarrow> 'g flow" where
  "with_alert r s = (case r of Inr (Some a) \<Rightarrow> s\<lparr>fl_alerts := fl_alerts s @ [a]\<rparr> | _ \<Rightarrow> s)"

lemma flow_analyze_ok:
  assumes "flow_inv s" "flow_analyze forest clk uuid event s = (r, s')"
  shows "flow_inv (with_alert r s')" "fl_ingestion s' = fl_ingestion s" "fl_risk s' = fl_risk s"
proof -
  obtain n w where rd: "reading (fl_world s) = (n, w)" by (metis surj_pair)
  have w: "fst w = fst (fl_world s)" "blocks w = blocks (fl_world s)"
    using rd reading_simps [of "fl_world s"] by (metis snd_conv)+
  let ?an = "fl_anomaly s"
  obtain r0 st store w1 where a: "analyze_event (file_ops None) forest (Some (flow_appender clk)) (uuid n) (clk n) event
      (?an, fl_store s, w) = (r0, (st, store, w1))" by (metis prod_cases4)
  have r: "r = r0" "s' = s\<lparr>fl_anomaly := st, fl_store := store, fl_world := w1\<rparr>"
    using assms(2) a by (auto simp: flow_analyze_def rd)
  have "registry_inv (fst w1) \<and> an_node_id st = an_node_id ?an \<and>
      blocks w1 = blocks w + (case r0 of Inr (Some _) \<Rightarrow> 1 | _ \<Rightarrow> 0)"
  proof (cases "event_scores forest event ?an")
    case (Inl e)
    have "r0 = Inl e \<and> w1 = w \<and> an_node_id st = an_node_id ?an" using a by (auto simp: analyze_raises [OF Inl])
    then show ?thesis using assms(1) w by (simp add: flow_inv_def)
  next
    case (Inr sc)
    obtain rule model where sc: "event_scores forest event ?an = Inr (rule, model)" using Inr by (cases sc) auto
    show ?thesis
    proof (cases "flt (pymax rule model) (an_alert_threshold ?an)")
      case True
      have "r0 = Inr None \<and> w1 = w \<and> an_node_id st = an_node_id ?an" using a by (auto simp: analyze_below [OF sc True])
      then show ?thesis using assms(1) w by (simp add: flow_inv_def)
    next
      case False
      let ?al = "new_alert (uuid n) (clk n) event rule model"
      have "str_between 3 128 ''anomaly_alert_created''" by (simp add: str_between_def)
      then obtain w2 where w2: "record_ledger_event (Some (flow_appender clk)) ''anomaly_alert_created'' (an_node_id ?an)
          (alert_fields ?al) w = (Inr (), w2)" "registry_inv (fst w2)" "blocks w2 = Suc (blocks w)"
        using recorded [of "''anomaly_alert_created''" "an_node_id ?an" w clk "alert_fields ?al"] assms(1) w(1)
        by (auto simp: flow_inv_def)
      then have "r0 = Inr (Some ?al)" "w1 = w2" "st = alerted_state (uuid n) (clk n) event rule model ?an"
        using a by (auto simp: analyze_alert [OF sc False] file_ops_def)
      then show ?thesis using w2 by (simp add: alerted_state_def)
    qed
  qed
  then show "flow_inv (with_alert r s')"
    using assms(1) w(2) unfolding r by (auto simp: flow_inv_def with_alert_def split: sum.splits option.splits)
  show "fl_ingestion s' = fl_ingestion s" "fl_risk s' = fl_risk s" by (simp_all add: r)
qed

lemma flow_message_ok:
  assumes "flow_inv s" "flow_message forest clk uuid m s = (r, s')"
  shows "flow_inv s'" "r = Inr () \<Longrightarrow> length (in_events (fl_ingestion s')) = Suc (length (in_events (fl_ingestion s)))"
    "rk_snapshots (fl_risk s') = rk_snapshots (fl_risk s)"
proof -
  obtain event s1 where 1: "flow_ingest clk uuid m s = (Inr event, s1)" "flow_inv s1"
    "length (in_events (fl_ingestion s1)) = Suc (length (in_events (fl_ingestion s)))"
    "rk_snapshots (fl_risk s1) = rk_snapshots (fl_risk s)"
    using flow_ingest_ok [OF assms(1), of clk uuid m] by auto
  obtain event' s2 where 2: "flow_risk_event clk uuid event s1 = (Inr event', s2)" "flow_inv s2"
    "fl_ingestion s2 = fl_ingestion s1" "rk_snapshots (fl_risk s2) = rk_snapshots (fl_risk s1)"
    using flow_risk_event_ok [OF 1(2), of clk uuid event] by blast
  obtain ra s3 where 3: "flow_analyze forest clk uuid event s2 = (ra, s3)" by (metis surj_pair)
  note 4 = flow_analyze_ok [OF 2(2) 3]
  have "s' = with_alert ra s3 \<and> r = bindR ra (\<lambda>_. Inr ())"
    using assms(2) by (auto simp: flow_message_def 1(1) 2(1) 3 with_alert_def split: sum.splits option.splits)
  then show "flow_inv s'" "r = Inr () \<Longrightarrow> length (in_events (fl_ingestion s')) = Suc (length (in_events (fl_ingestion s)))"
    "rk_snapshots (fl_risk s') = rk_snapshots (fl_risk s)"
    using 1 2 4 by (auto simp: with_alert_def split: sum.splits option.splits)
qed

lemma flow_messages_ok:
  assumes "flow_inv s" "flow_messages forest clk uuid ms s = (r, s')"
  shows "flow_inv s' \<and> (r = Inr () \<longrightarrow> length (in_events (fl_ingestion s')) = length (in_events (fl_ingestion s)) + length ms) \<and>
    rk_snapshots (fl_risk s') = rk_snapshots (fl_risk s)"
  using assms
proof (induction ms arbitrary: s)
  case Nil
  then show ?case by auto
next
  case (Cons m ms)
  obtain r1 s1 where 1: "flow_message forest clk uuid m s = (r1, s1)" by (metis surj_pair)
  note m = flow_message_ok [OF Cons.prems(1) 1]
  show ?case
  proof (cases r1)
    case (Inl e)
    then show ?thesis using Cons.prems(2) 1 m by auto
  next
    case (Inr u)
    then have "flow_messages forest clk uuid ms s1 = (r, s')" using Cons.prems(2) 1 by simp
    from Cons.IH [OF m(1) this] show ?thesis using m Inr by auto
  qed
qed

lemma flow_message_simulator: "fl_simulator (snd (flow_message forest clk uuid m s)) = fl_simulator s"
  by (auto simp: flow_message_def bindS_def flow_ingest_def flow_risk_event_def flow_analyze_def split_beta
      split: sum.splits option.splits prod.splits)

lemma flow_messages_simulator: "fl_simulator (snd (flow_messages forest clk uuid ms s)) = fl_simulator s"
proof (induction ms arbitrary: s)
  case (Cons m ms)
  obtain r1 s1 where "flow_message forest clk uuid m s = (r1, s1)" by (metis surj_pair)
  then show ?case using flow_message_simulator [of forest clk uuid m s] Cons.IH [of s1] by (cases r1) simp_all
qed simp

lemma flow_inv_simulator [simp]:
  "fst w = fst (fl_world s) \<Longrightarrow> flow_inv (s\<lparr>fl_simulator := sim, fl_world := w\<rparr>) = flow_inv s"
  "flow_inv (s\<lparr>fl_simulator := sim\<rparr>) = flow_inv s"
  by (simp_all add: flow_inv_def blocks_def)

lemma flow_cycles_ok:
  assumes "flow_inv s" "simulator_ok (fl_simulator s)" "length (si_state (fl_simulator s)) = k"
    and "flow_cycles rng forest clk uuid ac odd_one n cycle s = (r, s')"
  shows "flow_inv s' \<and> (r = Inr () \<longrightarrow> length (in_events (fl_ingestion s')) = length (in_events (fl_ingestion s)) + n * k) \<and>
    rk_snapshots (fl_risk s') = rk_snapshots (fl_risk s)"
  using assms
proof (induction n arbitrary: s cycle)
  case 0
  then show ?case by auto
next
  case (Suc n)
  let ?sel = "selected None (fl_simulator s)"
  obtain ms sim where ms: "generate_cycle rng (\<lambda>i. clk (snd (fl_world s) + i)) None
      (if cycle = ac then odd_one else None) (fl_simulator s) = (Inr ms, sim)" "map sm_symbol ms = ?sel" "simulator_ok sim"
      "dict_keys (si_state sim) = dict_keys (si_state (fl_simulator s))"
    using generate_cycle_known [OF Suc.prems(2), of None rng "\<lambda>i. clk (snd (fl_world s) + i)" "if cycle = ac then odd_one else None"]
    by (auto simp: selected_def)
  have k: "length ms = k" "length (si_state sim) = k"
    using arg_cong [OF ms(2), of length] arg_cong [OF ms(4), of length] Suc.prems(3)
    by (simp_all add: selected_def dict_keys_def)
  let ?s = "s\<lparr>fl_simulator := sim, fl_world := (fst (fl_world s), snd (fl_world s) + length ms)\<rparr>"
  obtain r1 s1 where 1: "flow_messages forest clk uuid ms ?s = (r1, s1)" by (metis surj_pair)
  have "flow_inv ?s" using Suc.prems(1) by simp
  note m = flow_messages_ok [OF this 1]
  have sim: "fl_simulator s1 = sim" using flow_messages_simulator [of forest clk uuid ms ?s] 1 by simp
  show ?case
  proof (cases r1)
    case (Inl e)
    then show ?thesis using Suc.prems(4) ms(1) 1 m by auto
  next
    case (Inr u)
    then have "flow_cycles rng forest clk uuid ac odd_one n (cycle + 1) s1 = (r, s')" using Suc.prems(4) ms(1) 1 by simp
    with Suc.IH [of s1 "cycle + 1"] show ?thesis using m Inr sim ms(3) k by auto
  qed
qed

section \<open>The run\<close>

lemma flow_compute_ok:
  assumes "flow_inv s" "flow_compute clk uuid s = (r, s')"
  shows "flow_inv s' \<and> fl_ingestion s' = fl_ingestion s \<and> fl_alerts s' = fl_alerts s \<and>
    (\<forall>x. r = Inr x \<longrightarrow> rk_snapshots (fl_risk s') = rk_snapshots (fl_risk s) @ [x])"
proof -
  obtain n w where rd: "reading (fl_world s) = (n, w)" by (metis surj_pair)
  have w: "fst w = fst (fl_world s)" "blocks w = blocks (fl_world s)"
    using rd reading_simps [of "fl_world s"] by (metis snd_conv)+
  have node: "str_between 3 128 (rk_node_id (fl_risk s))" "str_between 3 128 ''risk_snapshot_computed''"
    using assms(1) by (simp_all add: flow_inv_def str_between_def)
  have rec: "\<exists>w'. record_ledger_event (Some (flow_appender clk)) ''risk_snapshot_computed'' (rk_node_id (fl_risk s)) d w = (Inr (), w') \<and>
      registry_inv (fst w') \<and> blocks w' = Suc (blocks w)" for d
    using recorded [OF node(2,1)] assms(1) w(1) by (simp add: flow_inv_def)
  obtain r0 st w1 where c: "compute_risk (Some (flow_appender clk)) (uuid n) (clk n) None (fl_risk s, w) = (r0, (st, w1))"
    by (metis prod_cases3)
  have r: "r = r0" "s' = s\<lparr>fl_risk := st, fl_world := w1\<rparr>"
    using assms(2) c by (auto simp: flow_compute_def rd)
  have "(st = fl_risk s \<and> w1 = w \<and> (\<exists>e. r0 = Inl e)) \<or>
      (\<exists>x. r0 = Inr x \<and> rk_snapshots st = rk_snapshots (fl_risk s) @ [x] \<and> registry_inv (fst w1) \<and> blocks w1 = Suc (blocks w))"
  proof (cases "rk_portfolio (fl_risk s)")
    case None
    then show ?thesis using c by (auto simp: compute_risk_def)
  next
    case (Some p)
    show ?thesis
    proof (cases "bindR (series_by_symbol (pf_positions p) (fl_risk s)) (\<lambda>series.
                    risk_figures (portfolio_returns series (pf_positions p)))")
      case (Inl e)
      then show ?thesis using c by (auto simp: compute_risk_def Some)
    next
      case (Inr f)
      obtain vol var95 dd rolling where f: "f = (vol, var95, dd, rolling)" by (metis prod_cases4)
      let ?x = "\<lparr>rs_snapshot_id = make_prefixed_id ''risk'' (uuid n), rs_portfolio_id = pf_portfolio_id p,
        rs_as_of = utc_now (clk n), rs_volatility = round_nd 6 vol, rs_value_at_risk_95 = round_nd 6 var95,
        rs_max_drawdown = round_nd 6 dd, rs_rolling_return_1d = round_nd 6 rolling\<rparr>"
      obtain w2 where "record_ledger_event (Some (flow_appender clk)) ''risk_snapshot_computed'' (rk_node_id (fl_risk s))
          (snapshot_fields ?x) w = (Inr (), w2)" "registry_inv (fst w2)" "blocks w2 = Suc (blocks w)" using rec by blast
      then have "r0 = Inr ?x \<and> st = risk_save ((fl_risk s)\<lparr>rk_snapshots := rk_snapshots (fl_risk s) @ [?x]\<rparr>) \<and> w1 = w2 \<and>
          registry_inv (fst w2) \<and> blocks w2 = Suc (blocks w)"
        using c by (simp add: compute_risk_def Some Inr f Let_def)
      then show ?thesis by auto
    qed
  qed
  moreover have "rk_node_id st = rk_node_id (fl_risk s)" "rk_auto_compute st = rk_auto_compute (fl_risk s)"
    using compute_risk_frame [OF c] by simp_all
  ultimately show ?thesis using assms(1) w unfolding r by (auto simp: flow_inv_def)
qed

lemma flow_init_inv:
  assumes "registry_inv (fst w)" "blocks w = 4"
  shows "flow_inv (flow_init seed w)"
  using assms by (simp add: flow_inv_def flow_init_def set_portfolio_def str_between_def)

definition flow_accounts :: "'g flow \<Rightarrow> bool" where
  "flow_accounts s \<longleftrightarrow> verify_ledger (fst (fl_world s)) =
     \<lparr>vr_valid = True, vr_block_count =
        int (4 + length (in_events (fl_ingestion s)) + length (fl_alerts s) + length (rk_snapshots (fl_risk s))),
      vr_error = None\<rparr>"

lemma flow_inv_accounts: "flow_inv s \<Longrightarrow> flow_accounts s"
proof -
  assume s: "flow_inv s"
  then have "vr_valid (verify_ledger (fst (fl_world s)))" by (simp add: flow_inv_def registry_inv_def verify_ledger_valid)
  then show ?thesis
    using s verify_ledger_ok_error [of "fst (fl_world s)"] verify_ledger_count [of "fst (fl_world s)"]
    by (cases "verify_ledger (fst (fl_world s))") (simp add: flow_inv_def flow_accounts_def blocks_def)
qed

text \<open>
  C31. However the run of the demo ends (an exception of the model or of the statistics included),
  whatever the random generator draws and the clock shows, the ledger verifies and has one block
  for each of the four registrations, the events, the alerts and the snapshots. When it returns,
  every symbol was processed in each of the 18 cycles and the summary reports these numbers.
\<close>

theorem local_flow_accounts:
  "case local_flow rng forest clk uuid seed of (r, s) \<Rightarrow>
     flow_accounts s \<and>
     (case r of Inl e \<Rightarrow> True | Inr summary \<Rightarrow>
        length (in_events (fl_ingestion s)) = 72 \<and> length (rk_snapshots (fl_risk s)) = 1 \<and>
        json_item summary ''events_processed'' = Inr (JInt 72) \<and>
        json_item summary ''ledger_blocks'' = Inr (JInt (77 + int (length (fl_alerts s)))) \<and>
        json_item summary ''ledger_valid'' = Inr (dump_verification (verify_ledger (fst (fl_world s)))))"
proof -
  obtain w where w: "register_all clk local_peers (registry_init None, 0) = (Inr (), w)" "registry_inv (fst w)" "blocks w = 4"
    using local_peers_registered by blast
  let ?s = "flow_init seed w"
  have "simulator_ok (fl_simulator ?s)" "length (si_state (fl_simulator ?s)) = 4" "in_events (fl_ingestion ?s) = []"
    "rk_snapshots (fl_risk ?s) = []"
    using new_simulator_ok by (simp_all add: flow_init_def new_simulator_def set_portfolio_def)
  note init = flow_init_inv [OF w(2,3), of seed] this
  obtain r1 s1 where 1: "flow_cycles rng forest clk uuid 10 (Some ''BTCUSD'') 18 0 ?s = (r1, s1)" by (metis surj_pair)
  note c = flow_cycles_ok [OF init(1-3) 1]
  have start: "local_flow rng forest clk uuid seed = bindS (r1, s1) (\<lambda>_ s.
      bindS (flow_compute clk uuid s) (\<lambda>latest_risk s1. (flow_summary clk latest_risk s1, s1)))"
    using w(1) 1 by (simp add: local_flow_def registry_init_def)
  show ?thesis
  proof (cases r1)
    case (Inl e)
    then show ?thesis using c flow_inv_accounts [of s1] by (simp add: start)
  next
    case (Inr u)
    obtain r2 s2 where 2: "flow_compute clk uuid s1 = (r2, s2)" by (metis surj_pair)
    note d = flow_compute_ok [OF conjunct1 [OF c] 2]
    show ?thesis
    proof (cases r2)
      case (Inl e)
      then show ?thesis using d flow_inv_accounts [of s2] by (simp add: start Inr 2)
    next
      case r2: (Inr x)
      have n: "length (in_events (fl_ingestion s2)) = 72" "length (rk_snapshots (fl_risk s2)) = 1"
        using c d init Inr r2 by simp_all
      have "blocks (fl_world s2) = 77 + length (fl_alerts s2)" using d n by (simp add: flow_inv_def)
      then show ?thesis
        using d n flow_inv_accounts [of s2]
        by (auto simp: start Inr 2 r2 flow_summary_def Let_def bindR_def blocks_def list_blocks_def split: sum.splits)
    qed
  qed
qed

end
