(* ===== verification/LocalStack.thy ===== *)
theory LocalStack
  imports CloudDeploy Runtime
begin

text \<open>
  \<open>scripts/run_local_stack.py\<close>: the services as child processes of one script, which starts them one
  after the other, each when the one before answers, idles until Ctrl-C, and ends them all. The
  operating system and the services behind the ports are a record of operations on a state of
  their own; the ones that block may be interrupted. The trace records what the script does to
  its processes. The clock and the deadlines are those of \<open>cloud_deploy.py\<close>.
\<close>

text \<open>Ctrl-C is not an \<open>Exception\<close>: only the outermost handler catches it.\<close>

datatype interruption = KeyboardInterrupt | Raised py_exc

type_synonym ('s, 'a) step = "(interruption + 'a) \<times> 's"

definition thenK :: "('s, 'a) step \<Rightarrow> ('a \<Rightarrow> 's \<Rightarrow> ('s, 'b) step) \<Rightarrow> ('s, 'b) step" where
  "thenK r f = (case r of (Inl e, s) \<Rightarrow> (Inl e, s) | (Inr x, s) \<Rightarrow> f x s)"

lemma thenK_simps [simp]: "thenK (Inl e, s) f = (Inl e, s)" "thenK (Inr x, s) f = f x s"
  by (simp_all add: thenK_def)

record 'x os =
  os_launch :: "string list \<Rightarrow> env \<Rightarrow> 'x \<Rightarrow> (interruption + nat) \<times> 'x"
  os_get :: "string \<Rightarrow> 'x \<Rightarrow> (interruption + nat) \<times> nat \<times> 'x"
  os_post :: "string \<Rightarrow> json \<Rightarrow> 'x \<Rightarrow> (interruption + unit) \<times> 'x"
  os_sleep :: "nat \<Rightarrow> 'x \<Rightarrow> bool \<times> nat \<times> 'x"
  os_finished :: "nat \<Rightarrow> 'x \<Rightarrow> bool \<times> 'x"
  os_terminate :: "nat \<Rightarrow> 'x \<Rightarrow> 'x"
  os_wait :: "nat \<Rightarrow> 'x \<Rightarrow> (interruption + bool) \<times> 'x"
  os_kill :: "nat \<Rightarrow> 'x \<Rightarrow> 'x"

datatype stack_event =
    Launched nat "string list"
  | Answered string nat
  | PostedTo string
  | Found nat bool
  | Terminated nat
  | Awaited nat bool
  | Killed nat

record 'x local_stack =
  ls_os :: 'x
  ls_now :: int
  ls_trace :: "stack_event list"
  ls_processes :: "nat list"

section \<open>Steps\<close>

definition launch_process :: "'x os \<Rightarrow> string list \<Rightarrow> env \<Rightarrow> 'x local_stack \<Rightarrow> ('x local_stack, unit) step" where
  "launch_process os command env s =
     (case os_launch os command env (ls_os s) of
        (Inl e, x) \<Rightarrow> (Inl e, s\<lparr>ls_os := x\<rparr>)
      | (Inr pid, x) \<Rightarrow> (Inr (), s\<lparr>ls_os := x, ls_trace := ls_trace s @ [Launched pid command],
                                  ls_processes := ls_processes s @ [pid]\<rparr>))"

text \<open>A sleep takes at least the time asked for, unless it is interrupted.\<close>

definition sleep_us :: "'x os \<Rightarrow> nat \<Rightarrow> 'x local_stack \<Rightarrow> ('x local_stack, unit) step" where
  "sleep_us os us s =
     (case os_sleep os us (ls_os s) of (interrupted, extra, x) \<Rightarrow>
        if interrupted then (Inl KeyboardInterrupt, s\<lparr>ls_os := x, ls_now := ls_now s + int extra\<rparr>)
        else (Inr (), s\<lparr>ls_os := x, ls_now := ls_now s + int us + int extra\<rparr>))"

text \<open>\<open>client.get\<close> answers with a status, raises, or is interrupted; whichever it is takes time.\<close>

definition get_status :: "'x os \<Rightarrow> string \<Rightarrow> 'x local_stack \<Rightarrow> ('x local_stack, nat) step" where
  "get_status os url s =
     (case os_get os url (ls_os s) of (r, dt, x) \<Rightarrow>
        (r, s\<lparr>ls_os := x, ls_now := ls_now s + int dt,
             ls_trace := ls_trace s @ (case r of Inl e \<Rightarrow> [] | Inr n \<Rightarrow> [Answered url n])\<rparr>))"

definition at_time :: "int \<Rightarrow> unit cloud" where
  "at_time now = \<lparr>cd_tools = (), cd_fs = Map.empty, cd_dirs = (\<lambda>_. False), cd_now = now, cd_trace = []\<rparr>"

section \<open>Waiting for a service\<close>

definition health_failed :: "string \<Rightarrow> string \<Rightarrow> interruption" where
  "health_failed url last_error = Raised (RuntimeError (''health check failed for '' @ url @ '': '' @ last_error))"

definition probe_error :: "interruption + nat \<Rightarrow> string" where
  "probe_error r = (case r of Inr n \<Rightarrow> ''unexpected status '' @ show_nat n
     | Inl (Raised e) \<Rightarrow> exc_text e | Inl KeyboardInterrupt \<Rightarrow> '''')"

function probe_health ::
    "'x os \<Rightarrow> string \<Rightarrow> pyfloat \<Rightarrow> string \<Rightarrow> 'x local_stack \<Rightarrow> ('x local_stack, unit) step" where
  "probe_health os url deadline last_error s =
     (if before (at_time (ls_now s)) deadline then
        (case get_status os (url @ ''/health'') s of (r, s1) \<Rightarrow>
           if r = Inl KeyboardInterrupt then (Inl KeyboardInterrupt, s1)
           else if r = Inr 200 then (Inr (), s1)
           else (case sleep_us os 500000 s1 of
               (Inl e, s2) \<Rightarrow> (Inl e, s2)
             | (Inr _, s2) \<Rightarrow> probe_health os url deadline (probe_error r) s2))
      else (Inl (health_failed url last_error), s))"
  by pat_completeness auto

lemma get_forward: "get_status os url s = (r, s1) \<Longrightarrow> ls_now s \<le> ls_now s1"
  by (auto simp: get_status_def split: prod.splits)

lemma sleep_forward: "sleep_us os us s = (Inr u, s1) \<Longrightarrow> ls_now s + int us \<le> ls_now s1"
  by (auto simp: sleep_us_def split: prod.splits if_splits)

termination probe_health
proof (relation "measure (\<lambda>(os, url, deadline, l, s). time_left deadline (at_time (ls_now s)))")
qed (auto dest!: get_forward [OF sym] sleep_forward [OF sym] intro!: time_left_less simp: at_time_def)

declare probe_health.simps [simp del]

definition wait_for_health :: "'x os \<Rightarrow> string \<Rightarrow> real \<Rightarrow> 'x local_stack \<Rightarrow> ('x local_stack, unit) step" where
  "wait_for_health os url timeout_seconds s =
     probe_health os url (deadline_after timeout_seconds (at_time (ls_now s))) ''service did not respond'' s"

section \<open>Starting the stack\<close>

record stack_args =
  sa_with_dashboard :: bool
  sa_autoplay :: bool
  sa_cycles :: int
  sa_interval :: pyfloat
  sa_reset_state :: bool
  sa_with_iot_bridge :: bool
  sa_mqtt_broker_url :: string

text \<open>What \<open>argparse\<close> fills in for an empty command line.\<close>

definition default_stack_args :: "env \<Rightarrow> stack_args" where
  "default_stack_args e = \<lparr>sa_with_dashboard = False, sa_autoplay = False, sa_cycles = 12, sa_interval = Fin 1,
     sa_reset_state = False, sa_with_iot_bridge = False,
     sa_mqtt_broker_url = getenv e ''MQTT_BROKER_URL'' ''mqtt://localhost:1883''\<rparr>"

text \<open>\<open>DEFAULT_PORTFOLIO\<close>, the literal of \<open>cloud_deploy.py\<close> again.\<close>

definition stack_portfolio :: json where
  "stack_portfolio = JObj [(''portfolio_id'', JStr ''demo_portfolio''),
     (''positions'', JList (map (\<lambda>(symbol, weight). JObj [(''symbol'', JStr symbol), (''weight'', JFloat (fl (weight / 10)))])
        [(''BTCUSD'', 4), (''ETHUSD'', 3), (''AAPL'', 2), (''MSFT'', 1)]))]"

definition stack_services :: "(string \<times> nat) list" where
  "stack_services =
     [(''registry_service.main:app'', 8000), (''aws_ingestion.main:app'', 8001),
      (''azure_anomaly.main:app'', 8002), (''gcp_risk.main:app'', 8003)]"

definition python_path :: "path \<Rightarrow> path" where
  "python_path repo = repo @ ''/.venv/bin/python''"

definition streamlit_path :: "path \<Rightarrow> path" where
  "streamlit_path repo = repo @ ''/.venv/bin/streamlit''"

definition runtime_dir :: "path \<Rightarrow> path" where
  "runtime_dir repo = repo @ ''/data/runtime''"

definition stack_env :: "path \<Rightarrow> stack_args \<Rightarrow> env \<Rightarrow> env" where
  "stack_env repo args e = e(''PYTHONPATH'' \<mapsto> repo, ''QUANTIAN_DATA_DIR'' \<mapsto> runtime_dir repo,
     ''ENABLE_SERVICE_RUNTIME'' \<mapsto> ''true'', ''MQTT_BROKER_URL'' \<mapsto> sa_mqtt_broker_url args)"

definition uvicorn_command :: "path \<Rightarrow> string \<Rightarrow> nat \<Rightarrow> string list" where
  "uvicorn_command repo app port =
     [python_path repo, ''-m'', ''uvicorn'', app, ''--host'', ''127.0.0.1'', ''--port'', show_nat port]"

definition local_url :: "nat \<Rightarrow> string" where
  "local_url port = ''http://127.0.0.1:'' @ show_nat port"

fun start_services ::
    "'x os \<Rightarrow> path \<Rightarrow> env \<Rightarrow> (string \<times> nat) list \<Rightarrow> 'x local_stack \<Rightarrow> ('x local_stack, unit) step" where
  "start_services os repo e [] s = (Inr (), s)"
| "start_services os repo e ((app, port) # rest) s =
     thenK (launch_process os (uvicorn_command repo app port) e s) (\<lambda>_ s1.
     thenK (wait_for_health os (local_url port) 30 s1) (\<lambda>_ s2. start_services os repo e rest s2))"

text \<open>A bridge that does not come up is not an error; an interrupt while waiting for it is one.\<close>

definition start_bridge :: "'x os \<Rightarrow> path \<Rightarrow> env \<Rightarrow> stack_args \<Rightarrow> 'x local_stack \<Rightarrow> ('x local_stack, unit) step" where
  "start_bridge os repo e args s =
     (if \<not> sa_with_iot_bridge args then (Inr (), s)
      else thenK (launch_process os (uvicorn_command repo ''iot.main:app'' 8004) e s) (\<lambda>_ s1.
        case wait_for_health os (local_url 8004) 10 s1 of
          (Inl (Raised (RuntimeError m)), s2) \<Rightarrow> (Inr (), s2)
        | r \<Rightarrow> r))"

definition post_portfolio :: "'x os \<Rightarrow> 'x local_stack \<Rightarrow> ('x local_stack, unit) step" where
  "post_portfolio os s =
     (case os_post os (local_url 8003 @ ''/risk/portfolio'') stack_portfolio (ls_os s) of
        (r, x) \<Rightarrow> (r, s\<lparr>ls_os := x, ls_trace := ls_trace s @ [PostedTo (local_url 8003 @ ''/risk/portfolio'')]\<rparr>))"

definition autoplay_command :: "path \<Rightarrow> stack_args \<Rightarrow> string list" where
  "autoplay_command repo args =
     [python_path repo, repo @ ''/scripts/publish_simulation.py'', ''--cycles'', show_int (sa_cycles args),
      ''--interval'', repr_float (sa_interval args), ''--ingestion-url'', local_url 8001]"

definition start_autoplay :: "'x os \<Rightarrow> path \<Rightarrow> env \<Rightarrow> stack_args \<Rightarrow> 'x local_stack \<Rightarrow> ('x local_stack, unit) step" where
  "start_autoplay os repo e args s =
     (if \<not> sa_autoplay args then (Inr (), s) else launch_process os (autoplay_command repo args) e s)"

definition start_dashboard :: "'x os \<Rightarrow> path \<Rightarrow> env \<Rightarrow> stack_args \<Rightarrow> 'x local_stack \<Rightarrow> ('x local_stack, unit) step" where
  "start_dashboard os repo e args s =
     (if \<not> sa_with_dashboard args then (Inr (), s)
      else launch_process os
        [streamlit_path repo, ''run'', ''dashboard/app.py'', ''--server.headless'', ''true'', ''--server.port'', ''8501''] e s)"

definition start_stack :: "'x os \<Rightarrow> path \<Rightarrow> env \<Rightarrow> stack_args \<Rightarrow> 'x local_stack \<Rightarrow> ('x local_stack, unit) step" where
  "start_stack os repo e args s =
     thenK (start_services os repo e stack_services s) (\<lambda>_ s1.
     thenK (start_bridge os repo e args s1) (\<lambda>_ s2.
     thenK (post_portfolio os s2) (\<lambda>_ s3.
     thenK (start_autoplay os repo e args s3) (\<lambda>_ s4. start_dashboard os repo e args s4))))"

text \<open>\<open>while True: time.sleep(1.0)\<close>: what ends it, if anything does.\<close>

partial_function (option) idle :: "'x os \<Rightarrow> 'x local_stack \<Rightarrow> (interruption \<times> 'x local_stack) option" where
  "idle os s = (case sleep_us os 1000000 s of
     (Inl e, s1) \<Rightarrow> Some (e, s1)
   | (Inr u, s1) \<Rightarrow> idle os s1)"

section \<open>Ending it\<close>

fun terminate_all :: "'x os \<Rightarrow> nat list \<Rightarrow> 'x local_stack \<Rightarrow> 'x local_stack" where
  "terminate_all os [] s = s"
| "terminate_all os (p # ps) s =
     (case os_finished os p (ls_os s) of (done, x) \<Rightarrow>
        if done then terminate_all os ps (s\<lparr>ls_os := x, ls_trace := ls_trace s @ [Found p True]\<rparr>)
        else terminate_all os ps
          (s\<lparr>ls_os := os_terminate os p x, ls_trace := ls_trace s @ [Found p False, Terminated p]\<rparr>))"

fun reap_all :: "'x os \<Rightarrow> nat list \<Rightarrow> 'x local_stack \<Rightarrow> ('x local_stack, unit) step" where
  "reap_all os [] s = (Inr (), s)"
| "reap_all os (p # ps) s =
     (case os_finished os p (ls_os s) of (done, x) \<Rightarrow>
        if done then reap_all os ps (s\<lparr>ls_os := x, ls_trace := ls_trace s @ [Found p True]\<rparr>)
        else case os_wait os p x of
            (Inl e, x1) \<Rightarrow> (Inl e, s\<lparr>ls_os := x1, ls_trace := ls_trace s @ [Found p False]\<rparr>)
          | (Inr True, x1) \<Rightarrow>
              reap_all os ps (s\<lparr>ls_os := x1, ls_trace := ls_trace s @ [Found p False, Awaited p True]\<rparr>)
          | (Inr False, x1) \<Rightarrow>
              reap_all os ps (s\<lparr>ls_os := os_kill os p x1,
                ls_trace := ls_trace s @ [Found p False, Awaited p False, Killed p]\<rparr>))"

text \<open>The \<open>finally\<close> block: an exception in it replaces the one it was entered with.\<close>

definition shut_down ::
    "'x os \<Rightarrow> (interruption + unit) \<Rightarrow> 'x local_stack \<Rightarrow> ('x local_stack, unit) step" where
  "shut_down os r s =
     thenK (reap_all os (rev (ls_processes s)) (terminate_all os (rev (ls_processes s)) s)) (\<lambda>_ s1. (r, s1))"

text \<open>
  The \<open>try\<close> statement with its handler for Ctrl-C; \<open>None\<close> is a run that goes on for ever.
\<close>

definition run_stack ::
    "'x os \<Rightarrow> path \<Rightarrow> env \<Rightarrow> stack_args \<Rightarrow> 'x local_stack \<Rightarrow> ('x local_stack, unit) step option" where
  "run_stack os repo e args s =
     (case (case start_stack os repo e args (s\<lparr>ls_processes := []\<rparr>) of
              (Inl x, s1) \<Rightarrow> Some (x, s1) | (Inr u, s1) \<Rightarrow> idle os s1) of
        None \<Rightarrow> None
      | Some (KeyboardInterrupt, s1) \<Rightarrow> Some (shut_down os (Inr ()) s1)
      | Some (Raised x, s1) \<Rightarrow> Some (shut_down os (Inl (Raised x)) s1))"

text \<open>\<open>main\<close>: the state of the disk is the files under \<open>repo\<close>, of which it reads and deletes some.\<close>

definition stack_main ::
    "'x os \<Rightarrow> path \<Rightarrow> env \<Rightarrow> stack_args \<Rightarrow> fs \<Rightarrow> 'x local_stack \<Rightarrow> (('x local_stack, unit) step \<times> fs) option" where
  "stack_main os repo e args disk s =
     (if disk (python_path repo) = None
      then Some ((Inl (Raised (SystemExit ''Missing .venv. Create it and install dependencies first.'')), s), disk)
      else
        let disk1 = (if sa_reset_state args then (\<lambda>p. if under (runtime_dir repo) p then None else disk p) else disk)
        in map_option (\<lambda>r. (r, disk1)) (run_stack os repo (stack_env repo args e) args s))"

end
