(* ===== verification/LocalStackSpec.thy ===== *)
theory LocalStackSpec
  imports LocalStack CloudDeploySpec
begin

text \<open>
  The life of the local stack: the services start one after the other, each only after the one
  before has answered, and whatever happens then, every process that was started is asked to end,
  and ended unless the clean-up itself is interrupted.
\<close>

section \<open>The start\<close>

text \<open>A launched command, or a health endpoint that answered 200.\<close>

definition milestone :: "stack_event \<Rightarrow> (string list + string) list" where
  "milestone ev = (case ev of Launched pid c \<Rightarrow> [Inl c]
     | Answered url n \<Rightarrow> (if n = 200 then [Inr url] else []) | _ \<Rightarrow> [])"

definition milestones :: "stack_event list \<Rightarrow> (string list + string) list" where
  "milestones tr = concat (map milestone tr)"

lemma milestones_simps [simp]:
  "milestones [] = []" "milestones (tr @ tr') = milestones tr @ milestones tr'"
  "milestones (Launched pid c # tr) = Inl c # milestones tr"
  "milestones (Answered url n # tr) = (if n = 200 then [Inr url] else []) @ milestones tr"
  by (simp_all add: milestones_def milestone_def)

definition launches :: "stack_event list \<Rightarrow> nat set" where
  "launches tr = {p. \<exists>c. Launched p c \<in> set tr}"

lemma launches_simps [simp]:
  "launches [] = {}" "launches (tr @ tr') = launches tr \<union> launches tr'"
  "launches (Launched p c # tr) = insert p (launches tr)" "launches (Answered url n # tr) = launches tr"
  "launches (PostedTo url # tr) = launches tr" "launches (Found p b # tr) = launches tr"
  "launches (Terminated p # tr) = launches tr" "launches (Awaited p b # tr) = launches tr"
  "launches (Killed p # tr) = launches tr"
  by (auto simp: launches_def)

definition startup :: "path \<Rightarrow> (string \<times> nat) list \<Rightarrow> (string list + string) list" where
  "startup repo services =
     concat (map (\<lambda>(app, port). [Inl (uvicorn_command repo app port), Inr (local_url port @ ''/health'')]) services)"

lemma probe_health_milestones:
  assumes "probe_health os url deadline last_error s = (r, s')"
  shows "milestones (ls_trace s') = milestones (ls_trace s) @ (if r = Inr () then [Inr (url @ ''/health'')] else []) \<and>
    ls_processes s' = ls_processes s \<and> launches (ls_trace s') = launches (ls_trace s)"
  using assms
proof (induction os url deadline last_error s arbitrary: r s' rule: probe_health.induct)
  case (1 os url deadline last_error s)
  show ?case
  proof (cases "before (at_time (ls_now s)) deadline")
    case False
    then show ?thesis using 1(2) by (auto simp: probe_health.simps [of os url deadline last_error s])
  next
    case True
    obtain q s1 where g: "get_status os (url @ ''/health'') s = (q, s1)" by (metis surj_pair)
    then have m: "milestones (ls_trace s1) = milestones (ls_trace s) @ (if q = Inr 200 then [Inr (url @ ''/health'')] else [])"
      "ls_processes s1 = ls_processes s" "launches (ls_trace s1) = launches (ls_trace s)"
      by (auto simp: get_status_def split: prod.splits sum.splits)
    show ?thesis
    proof (cases "q = Inl KeyboardInterrupt \<or> q = Inr 200")
      case over: True
      then have "s' = s1" "(r = Inr ()) = (q = Inr 200)"
        using 1(2) True g by (auto simp: probe_health.simps [of os url deadline last_error s])
      then show ?thesis using m by simp
    next
      case again: False
      obtain u s2 where sl: "sleep_us os 500000 s1 = (u, s2)" by (metis surj_pair)
      then have m2: "ls_trace s2 = ls_trace s1" "ls_processes s2 = ls_processes s1"
        by (auto simp: sleep_us_def split: prod.splits if_splits)
      show ?thesis
      proof (cases u)
        case (Inl e)
        then have "s' = s2" "r = Inl e"
          using 1(2) True g again sl by (simp_all add: probe_health.simps [of os url deadline last_error s])
        then show ?thesis using m m2 again by simp
      next
        case (Inr x)
        then have "probe_health os url deadline (probe_error q) s2 = (r, s')"
          using 1(2) True g again sl by (simp add: probe_health.simps [of os url deadline last_error s])
        then show ?thesis using 1(1) [OF True g [symmetric] _ _ sl [symmetric] Inr] again m m2 by simp
      qed
    qed
  qed
qed

lemma launch_milestones:
  assumes "launch_process os c e s = (r, s')"
  shows "milestones (ls_trace s') = milestones (ls_trace s) @ (if r = Inr () then [Inl c] else [])"
  using assms by (auto simp: launch_process_def split: prod.splits sum.splits)

text \<open>
  C32. The services start in order: what the script has launched and seen healthy is always a
  beginning of the sequence registry, registry healthy, ingestion, ingestion healthy, and so on,
  and all of it exactly when starting them succeeds.
\<close>

theorem stack_starts_in_order:
  "case start_services os repo e services s of (r, s') \<Rightarrow>
     \<exists>n. milestones (ls_trace s') = milestones (ls_trace s) @ take n (startup repo services) \<and>
       (case r of Inr _ \<Rightarrow> n = length (startup repo services) | Inl _ \<Rightarrow> n < length (startup repo services))"
proof (induction services arbitrary: s)
  case Nil
  show ?case by (simp add: startup_def)
next
  case (Cons x services)
  obtain app port where x: "x = (app, port)" by (metis surj_pair)
  have su: "startup repo ((app, port) # services) =
      [Inl (uvicorn_command repo app port), Inr (local_url port @ ''/health'')] @ startup repo services"
    by (simp add: startup_def)
  obtain r1 s1 where l: "launch_process os (uvicorn_command repo app port) e s = (r1, s1)" by (metis surj_pair)
  obtain r2 s2 where w: "wait_for_health os (local_url port) 30 s1 = (r2, s2)" by (metis surj_pair)
  note ml = launch_milestones [OF l] and mw = probe_health_milestones [OF w [unfolded wait_for_health_def]]
  consider (no) y where "r1 = Inl y" | (sick) y where "r1 = Inr ()" "r2 = Inl y" | (up) "r1 = Inr ()" "r2 = Inr ()"
    by (cases r1; cases r2) auto
  then show ?case
  proof cases
    case no
    then show ?thesis using l ml unfolding no by (intro case_prodI2 exI [of _ 0]) (auto simp: x su)
  next
    case sick
    then show ?thesis using l w ml mw unfolding sick by (intro case_prodI2 exI [of _ 1]) (auto simp: x su)
  next
    case up
    obtain r s' where rest: "start_services os repo e services s2 = (r, s')" by (metis surj_pair)
    obtain n where "milestones (ls_trace s') = milestones (ls_trace s2) @ take n (startup repo services)"
      "case r of Inr _ \<Rightarrow> n = length (startup repo services) | Inl _ \<Rightarrow> n < length (startup repo services)"
      using Cons.IH [of s2] rest by auto
    then show ?thesis
      using up l w ml mw rest by (auto simp: x su intro!: exI [of _ "Suc (Suc n)"] split: sum.splits)
  qed
qed

section \<open>The end\<close>

text \<open>Every process the script has started is in its list.\<close>

definition owned :: "'x local_stack \<Rightarrow> bool" where
  "owned s \<longleftrightarrow> launches (ls_trace s) \<subseteq> set (ls_processes s)"

named_theorems keeps_owned

lemma thenK_owned [keeps_owned]:
  assumes "owned s \<Longrightarrow> owned (snd r)" and "\<And>x s1. owned s1 \<Longrightarrow> owned (snd (f x s1))" and "owned s"
  shows "owned (snd (thenK r f))"
  using assms by (cases r; cases "fst r") auto

lemma launch_owned [keeps_owned]: "owned s \<Longrightarrow> owned (snd (launch_process os c e s))"
  by (auto simp: launch_process_def owned_def split: prod.splits sum.splits)

lemma post_owned [keeps_owned]: "owned s \<Longrightarrow> owned (snd (post_portfolio os s))"
  by (auto simp: post_portfolio_def owned_def split: prod.splits)

lemma sleep_owned: "sleep_us os us s = (r, s') \<Longrightarrow> owned s' = owned s"
  by (auto simp: sleep_us_def owned_def split: prod.splits if_splits)

lemma wait_owned [keeps_owned]: "owned s \<Longrightarrow> owned (snd (wait_for_health os url t s))"
  using probe_health_milestones [OF surjective_pairing [of "wait_for_health os url t s", unfolded wait_for_health_def]]
  by (simp add: wait_for_health_def owned_def)

lemma start_services_owned [keeps_owned]: "owned s \<Longrightarrow> owned (snd (start_services os repo e services s))"
  by (induction os repo e services s rule: start_services.induct) (auto intro!: keeps_owned)

lemma start_bridge_owned [keeps_owned]:
  assumes "owned s" shows "owned (snd (start_bridge os repo e args s))"
proof -
  have "owned (snd (case wait_for_health os (local_url 8004) 10 s1 of
      (Inl (Raised (RuntimeError m)), s2) \<Rightarrow> (Inr (), s2) | r \<Rightarrow> r))" if "owned s1" for s1
    using wait_owned [OF that, of os "local_url 8004" 10]
    by (auto split: prod.split sum.split interruption.split py_exc.split)
  then show ?thesis using assms by (auto simp: start_bridge_def intro!: keeps_owned)
qed

lemma start_stack_owned: "owned s \<Longrightarrow> owned (snd (start_stack os repo e args s))"
  by (auto simp: start_stack_def start_autoplay_def start_dashboard_def intro!: keeps_owned)

lemma idle_owned:
  assumes "idle os s = Some (e, s')" and "owned s"
  shows "owned s'"
proof -
  have "owned s \<longrightarrow> owned (snd (e, s'))"
    using assms(1) by (rule idle.raw_induct [rotated]) (auto dest: sleep_owned split: prod.splits sum.splits)
  then show ?thesis using assms(2) by simp
qed

text \<open>The two loops of the clean-up: who was asked to end, and who has ended.\<close>

definition asked_to_end :: "stack_event list \<Rightarrow> nat \<Rightarrow> bool" where
  "asked_to_end tr p \<longleftrightarrow> Terminated p \<in> set tr \<or> Found p True \<in> set tr"

definition ended :: "stack_event list \<Rightarrow> nat \<Rightarrow> bool" where
  "ended tr p \<longleftrightarrow> Found p True \<in> set tr \<or> Awaited p True \<in> set tr \<or> Killed p \<in> set tr"

lemma asked_to_end_append: "asked_to_end (tr @ tr') p = (asked_to_end tr p \<or> asked_to_end tr' p)"
  by (auto simp: asked_to_end_def)

lemma ended_append: "ended (tr @ tr') p = (ended tr p \<or> ended tr' p)"
  by (auto simp: ended_def)

lemma terminate_all_trace:
  "\<exists>tr. ls_trace (terminate_all os ps s) = ls_trace s @ tr \<and> launches tr = {} \<and> (\<forall>p\<in>set ps. asked_to_end tr p)"
proof (induction os ps s rule: terminate_all.induct)
  case (2 os p ps s)
  obtain b x where f: "os_finished os p (ls_os s) = (b, x)" by (metis surj_pair)
  show ?case
  proof (cases b)
    case True
    from "2.IH"(1) [OF f [symmetric]] True obtain tr where
      "ls_trace (terminate_all os (p # ps) s) = ls_trace s @ [Found p True] @ tr" "launches tr = {}"
      "\<forall>p\<in>set ps. asked_to_end tr p" by (auto simp: f)
    then show ?thesis by (intro exI [of _ "[Found p True] @ tr"]) (auto simp: asked_to_end_def)
  next
    case False
    from "2.IH"(2) [OF f [symmetric]] False obtain tr where
      "ls_trace (terminate_all os (p # ps) s) = ls_trace s @ [Found p False, Terminated p] @ tr" "launches tr = {}"
      "\<forall>p\<in>set ps. asked_to_end tr p" by (auto simp: f)
    then show ?thesis by (intro exI [of _ "[Found p False, Terminated p] @ tr"]) (auto simp: asked_to_end_def)
  qed
qed simp

text \<open>What the script does about one process, when nothing interrupts it.\<close>

lemma reap_one:
  assumes "reap_all os (p # ps) s = (Inr (), s')"
  obtains s1 tr where "ls_trace s1 = ls_trace s @ tr" "ended tr p" "reap_all os ps s1 = (Inr (), s')"
proof -
  obtain b x where f: "os_finished os p (ls_os s) = (b, x)" by (metis surj_pair)
  obtain w x1 where w: "os_wait os p x = (w, x1)" by (metis surj_pair)
  show thesis
    using assms f w
      that [of "s\<lparr>ls_os := x, ls_trace := ls_trace s @ [Found p True]\<rparr>" "[Found p True]"]
      that [of "s\<lparr>ls_os := x1, ls_trace := ls_trace s @ [Found p False, Awaited p True]\<rparr>" "[Found p False, Awaited p True]"]
      that [of "s\<lparr>ls_os := os_kill os p x1, ls_trace := ls_trace s @ [Found p False, Awaited p False, Killed p]\<rparr>"
        "[Found p False, Awaited p False, Killed p]"]
    by (auto simp: ended_def split: if_splits sum.splits bool.splits)
qed

lemma reap_all_trace:
  "reap_all os ps s = (Inr (), s') \<Longrightarrow> \<exists>tr. ls_trace s' = ls_trace s @ tr \<and> (\<forall>p\<in>set ps. ended tr p)"
proof (induction ps arbitrary: s)
  case (Cons p ps)
  obtain s1 tr where one: "ls_trace s1 = ls_trace s @ tr" "ended tr p" "reap_all os ps s1 = (Inr (), s')"
    using Cons.prems by (rule reap_one)
  then obtain tr' where "ls_trace s' = ls_trace s1 @ tr'" "\<forall>p\<in>set ps. ended tr' p" using Cons.IH by blast
  then show ?case using one by (intro exI [of _ "tr @ tr'"]) (simp add: ended_append)
qed simp

lemma reap_all_extends: "\<exists>tr. ls_trace (snd (reap_all os ps s)) = ls_trace s @ tr \<and> launches tr = {}"
proof (induction os ps s rule: reap_all.induct)
  case (2 os p ps s)
  then show ?case by (fastforce split: prod.splits sum.splits bool.splits)
qed simp

lemma shut_down_trace:
  assumes "shut_down os r s = (r', s')" and "owned s"
  obtains tr where "ls_trace s' = ls_trace s @ tr" "launches tr = {}"
    "\<forall>p\<in>launches (ls_trace s). asked_to_end tr p"
    "(r' = r \<and> (\<forall>p\<in>launches (ls_trace s). ended tr p)) \<or>
     (\<exists>err. r' = Inl err \<and> fst (reap_all os (rev (ls_processes s)) (terminate_all os (rev (ls_processes s)) s)) = Inl err)"
proof -
  let ?ps = "rev (ls_processes s)"
  obtain ta where ta: "ls_trace (terminate_all os ?ps s) = ls_trace s @ ta" "launches ta = {}"
    "\<forall>p\<in>set ?ps. asked_to_end ta p" using terminate_all_trace by blast
  obtain q s1 where q: "reap_all os ?ps (terminate_all os ?ps s) = (q, s1)" by (metis surj_pair)
  obtain tb where tb: "ls_trace s1 = ls_trace s @ ta @ tb" "launches tb = {}"
    using reap_all_extends [of os ?ps "terminate_all os ?ps s"] ta q by auto
  have sub: "launches (ls_trace s) \<subseteq> set ?ps" using assms(2) by (simp add: owned_def)
  have s': "s' = s1 \<and> r' = (case q of Inl err \<Rightarrow> Inl err | Inr u \<Rightarrow> r)"
    using assms(1) q by (cases q) (auto simp: shut_down_def)
  have "\<forall>p\<in>set ?ps. ended tb p" if "q = Inr ()"
    using reap_all_trace [OF q [unfolded that]] ta tb by auto
  note quiet = this
  have asked: "\<forall>p\<in>launches (ls_trace s). asked_to_end (ta @ tb) p"
    using ta(3) sub by (auto simp: asked_to_end_append)
  show thesis
  proof (rule that [of "ta @ tb"])
    show "(r' = r \<and> (\<forall>p\<in>launches (ls_trace s). ended (ta @ tb) p)) \<or>
      (\<exists>err. r' = Inl err \<and> fst (reap_all os ?ps (terminate_all os ?ps s)) = Inl err)"
      using quiet sub q s' by (cases q) (auto simp: ended_append)
  qed (use asked ta(2) tb s' in simp_all)
qed

lemma reap_all_raises:
  assumes "reap_all os ps s = (Inl err, s')" and "\<And>p x err x1. os_wait os p x = (Inl err, x1) \<Longrightarrow> err = KeyboardInterrupt"
  shows "err = KeyboardInterrupt"
  using assms(1)
proof (induction ps arbitrary: s)
  case (Cons p ps)
  then show ?case
    by (auto split: prod.splits if_splits sum.splits bool.splits dest: assms(2) Cons.IH)
qed simp

text \<open>
  C33. However the run of the local stack ends, every process it ever launched is afterwards found
  ended or sent the signal to terminate; and unless Ctrl-C interrupts the clean-up itself, each is
  then found ended, waited for until it ends, or killed. Nothing is launched during the clean-up.
\<close>

theorem stack_leaves_no_process:
  assumes "run_stack os repo e args s = Some (r, s')" and "ls_trace s = []"
    and "\<And>p x err x1. os_wait os p x = (Inl err, x1) \<Longrightarrow> err = KeyboardInterrupt"
  shows "\<exists>tr tr'. ls_trace s' = tr @ tr' \<and> launches tr' = {} \<and>
    (\<forall>p\<in>launches tr. asked_to_end tr' p \<and> (r = Inl KeyboardInterrupt \<or> ended tr' p))"
proof -
  have o: "owned (s\<lparr>ls_processes := []\<rparr>)" using assms(2) by (simp add: owned_def)
  obtain q s1 where st: "start_stack os repo e args (s\<lparr>ls_processes := []\<rparr>) = (q, s1)" by (metis surj_pair)
  then have o1: "owned s1" using start_stack_owned [OF o, of os repo e args] by simp
  obtain i s2 where i: "owned s2"
    "run_stack os repo e args s = Some (shut_down os (if i = KeyboardInterrupt then Inr () else Inl i) s2)"
  proof (cases q)
    case (Inl i)
    then show thesis using that [of s1 i] o1 st by (cases i) (simp_all add: run_stack_def)
  next
    case (Inr x)
    show thesis
    proof (cases "idle os s1")
      case None
      then show thesis using assms(1) st Inr by (simp add: run_stack_def)
    next
      case (Some y)
      obtain i s2 where y: "y = (i, s2)" by (metis surj_pair)
      have "owned s2" using idle_owned [OF Some [unfolded y] o1] .
      then show thesis using that [of s2 i] st Inr Some y by (cases i) (simp_all add: run_stack_def)
    qed
  qed
  define u where "u = (if i = KeyboardInterrupt then Inr () else Inl i)"
  have u: "owned s2" "shut_down os u s2 = (r, s')" using i assms(1) by (simp_all add: u_def)
  obtain tr where tr: "ls_trace s' = ls_trace s2 @ tr" "launches tr = {}"
    "\<forall>p\<in>launches (ls_trace s2). asked_to_end tr p"
    and ends: "(r = u \<and> (\<forall>p\<in>launches (ls_trace s2). ended tr p)) \<or>
     (\<exists>err. r = Inl err \<and> fst (reap_all os (rev (ls_processes s2)) (terminate_all os (rev (ls_processes s2)) s2)) = Inl err)"
    by (rule shut_down_trace [OF u(2,1)])
  have "r = Inl KeyboardInterrupt" if rerr: "r = Inl err" and err:
    "fst (reap_all os (rev (ls_processes s2)) (terminate_all os (rev (ls_processes s2)) s2)) = Inl err" for err
  proof -
    obtain s3 where "reap_all os (rev (ls_processes s2)) (terminate_all os (rev (ls_processes s2)) s2) = (Inl err, s3)"
      using err by (metis prod.collapse)
    then have "err = KeyboardInterrupt" by (rule reap_all_raises) (rule assms(3))
    then show ?thesis using rerr by simp
  qed
  then have "r = Inl KeyboardInterrupt \<or> (\<forall>p\<in>launches (ls_trace s2). ended tr p)" using ends by blast
  then show ?thesis using tr by (intro exI [of _ "ls_trace s2"] exI [of _ tr]) simp
qed

text \<open>Four services that answer at once, and Ctrl-C in the first sleep: they are asked to end and end.\<close>

definition calm_os :: "nat os" where
  "calm_os = \<lparr>os_launch = (\<lambda>c e n. (Inr n, n + 1)), os_get = (\<lambda>u n. (Inr 200, 0, n)), os_post = (\<lambda>u j n. (Inr (), n)),
     os_sleep = (\<lambda>us n. (True, 0, n)), os_finished = (\<lambda>p n. (False, n)), os_terminate = (\<lambda>p n. n),
     os_wait = (\<lambda>p n. (Inr True, n)), os_kill = (\<lambda>p n. n)\<rparr>"

lemma calm_os_simps [simp]:
  "os_launch calm_os c e n = (Inr n, n + 1)" "os_get calm_os u n = (Inr 200, 0, n)" "os_post calm_os u j n = (Inr (), n)"
  "os_sleep calm_os us n = (True, 0, n)" "os_finished calm_os p n = (False, n)" "os_terminate calm_os p n = n"
  "os_wait calm_os p n = (Inr True, n)" "os_kill calm_os p n = n"
  by (simp_all add: calm_os_def)

definition calm_stack :: "nat local_stack" where
  "calm_stack = \<lparr>ls_os = 0, ls_now = unix_epoch, ls_trace = [], ls_processes = []\<rparr>"

lemma calm_wait:
  assumes "ls_now s = unix_epoch"
  shows "wait_for_health calm_os url 30 s = (Inr (), s\<lparr>ls_trace := ls_trace s @ [Answered (url @ ''/health'') 200]\<rparr>)"
proof -
  have "before (at_time unix_epoch) (deadline_after (of_nat 30) (at_time unix_epoch))"
    by (rule deadline_ahead) (simp_all add: CloudSpec.clock_ok_def at_time_def unix_epoch_def us_per_day_def)
  then show ?thesis using assms by (simp add: wait_for_health_def probe_health.simps get_status_def)
qed

lemma stack_leaves_no_process_witness:
  "\<exists>s'. run_stack calm_os ''/q'' Map.empty (default_stack_args Map.empty) calm_stack = Some (Inr (), s') \<and>
     launches (ls_trace s') = {0, 1, 2, 3} \<and> (\<forall>p<4. asked_to_end (ls_trace s') p \<and> ended (ls_trace s') p)"
proof -
  let ?s = "calm_stack"
  obtain s' where run: "run_stack calm_os ''/q'' Map.empty (default_stack_args Map.empty) ?s = Some (Inr (), s')"
    and l: "launches (ls_trace s') = {0, 1, 2, 3}"
    by (simp add: run_stack_def start_stack_def stack_services_def calm_wait launch_process_def calm_stack_def
      start_bridge_def default_stack_args_def post_portfolio_def start_autoplay_def start_dashboard_def idle.simps sleep_us_def
      shut_down_def) (simp add: eval_nat_numeral)
  obtain tr tr' where tr: "ls_trace s' = tr @ tr'" "launches tr' = {}"
    "\<forall>p\<in>launches tr. asked_to_end tr' p \<and> ended tr' p"
    using stack_leaves_no_process [OF run] by (auto simp: calm_stack_def)
  then have "\<forall>p\<in>{0, 1, 2, 3}. asked_to_end (ls_trace s') p \<and> ended (ls_trace s') p"
    using l by (auto simp: asked_to_end_append ended_append)
  moreover have "{0, 1, 2, 3} = {p. p < (4::nat)}" by auto
  ultimately show ?thesis using run l by (intro exI [of _ s']) (metis mem_Collect_eq)
qed

end
