(* ===== verification/Dashboard.thy ===== *)
theory Dashboard
  imports CloudParts Simulator
begin

text \<open>
  \<open>dashboard/app.py\<close>: the Streamlit page. Streamlit runs the script from top to bottom for every
  view and every click, with the widgets' values as input; what survives is the session. A run is a
  sequence of steps on a record of the services behind \<open>urlopen\<close>, the requests sent, the elements
  shown and the session. Columns, tabs and other layout are left out, and so is the fixed set of
  headers of a request; every call that shows something is an element, in the order of the calls.
\<close>

section \<open>Requests\<close>

record page_request =
  pq_method :: string
  pq_url :: string
  pq_data :: "string option"

text \<open>
  What \<open>urlopen\<close> can end in: a response with its decoded text, an \<open>HTTPError\<close> with code, reason
  and the text of its body (or what decoding it raises), a \<open>URLError\<close>, or any other exception, such
  as a timeout while the body is read.
\<close>

datatype answer =
    Body string
  | HttpFailure nat string "string result"
  | UrlFailure string
  | Broken py_exc

type_synonym 'n urlopen = "page_request \<Rightarrow> 'n \<Rightarrow> answer \<times> 'n"

datatype element =
    Widget string string
  | MetaRefresh int
  | ErrorBox string
  | WarningBox string
  | InfoBox string
  | SuccessBox string
  | JsonView json
  | Table json
  | Metric string json
  | Choice string "json list"
  | LedgerLine "nat list" string
  | Divider
  | Markdown string

record ('n, 'g) page =
  pg_net :: 'n
  pg_sent :: "page_request list"
  pg_shown :: "element list"
  pg_simulator :: "'g simulator option"
  pg_results :: "json option"
  pg_readings :: nat

type_synonym ('n, 'g, 'a) page_step = "('n, 'g) page \<Rightarrow> (('n, 'g) page, 'a) outcome"

definition ask :: "'n urlopen \<Rightarrow> page_request \<Rightarrow> ('n, 'g) page \<Rightarrow> answer \<times> ('n, 'g) page" where
  "ask urlopen rq pg = (case urlopen rq (pg_net pg) of (a, n) \<Rightarrow> (a, pg\<lparr>pg_net := n, pg_sent := pg_sent pg @ [rq]\<rparr>))"

definition get_request :: "string \<Rightarrow> page_request" where
  "get_request url = \<lparr>pq_method = ''GET'', pq_url = url, pq_data = None\<rparr>"

definition post_request :: "string \<Rightarrow> json option \<Rightarrow> page_request" where
  "post_request url payload = \<lparr>pq_method = ''POST'', pq_url = url, pq_data = map_option json_dumps payload\<rparr>"

definition fetch_json :: "'n urlopen \<Rightarrow> string \<Rightarrow> ('n, 'g, json \<times> string option) page_step" where
  "fetch_json urlopen url pg =
     (case ask urlopen (get_request url) pg of (a, pg1) \<Rightarrow>
        (case a of
           Body t \<Rightarrow> bindR (json_loads t) (\<lambda>j. Inr (j, None))
         | HttpFailure code reason body \<Rightarrow> Inr (JNull, Some (show_nat code @ '' '' @ reason))
         | UrlFailure reason \<Rightarrow> Inr (JNull, Some reason)
         | Broken e \<Rightarrow> Inl e, pg1))"

text \<open>The three calls of \<open>send_json\<close> pass \<open>POST\<close>. An empty response body is \<open>None\<close>.\<close>

definition send_json :: "'n urlopen \<Rightarrow> string \<Rightarrow> json option \<Rightarrow> ('n, 'g, json \<times> string option) page_step" where
  "send_json urlopen url payload pg =
     (case ask urlopen (post_request url payload) pg of (a, pg1) \<Rightarrow>
        (case a of
           Body t \<Rightarrow> if t = [] then Inr (JNull, None) else bindR (json_loads t) (\<lambda>j. Inr (j, None))
         | HttpFailure code reason body \<Rightarrow>
             bindR body (\<lambda>m. Inr (JNull, Some (if m = [] then show_nat code @ '' '' @ reason else m)))
         | UrlFailure reason \<Rightarrow> Inr (JNull, Some reason)
         | Broken e \<Rightarrow> Inl e, pg1))"

text \<open>\<open>if error:\<close>: no error and an empty text count as none.\<close>

definition has_error :: "string option \<Rightarrow> bool" where
  "has_error error = (error \<noteq> None \<and> error \<noteq> Some '''')"

definition display :: "element list \<Rightarrow> ('n, 'g) page \<Rightarrow> ('n, 'g) page" where
  "display es pg = pg\<lparr>pg_shown := pg_shown pg @ es\<rparr>"

definition showing :: "element list \<Rightarrow> ('n, 'g, unit) page_step" where
  "showing es pg = (Inr (), display es pg)"

definition then_show :: "('n, 'g, unit) page_step \<Rightarrow> ('n, 'g, unit) page_step \<Rightarrow> ('n, 'g, unit) page_step" where
  "then_show f g pg = bindS (f pg) (\<lambda>_. g)"

section \<open>Settings and inputs\<close>

record page_urls =
  pu_registry :: string
  pu_ingestion :: string
  pu_anomaly :: string
  pu_risk :: string
  pu_bridge :: string

definition page_urls_of :: "env \<Rightarrow> page_urls" where
  "page_urls_of e = \<lparr>pu_registry = getenv e ''REGISTRY_URL'' ''http://localhost:8000'',
     pu_ingestion = getenv e ''AWS_INGESTION_URL'' ''http://localhost:8001'',
     pu_anomaly = getenv e ''AZURE_ANOMALY_URL'' ''http://localhost:8002'',
     pu_risk = getenv e ''GCP_RISK_URL'' ''http://localhost:8003'',
     pu_bridge = getenv e ''IOT_BRIDGE_URL'' ''http://localhost:8004''\<rparr>"

text \<open>The values of the widgets in one run; a choice is an index into the options.\<close>

record page_input =
  pi_auto_refresh :: bool
  pi_refresh_seconds :: int
  pi_seed_portfolio :: bool
  pi_send_cycle :: bool
  pi_send_anomalous :: bool
  pi_recompute :: bool
  pi_alert :: nat
  pi_review_status :: nat
  pi_review_notes :: string
  pi_submit_review :: bool

definition page_portfolio :: json where
  "page_portfolio = JObj [(''portfolio_id'', JStr ''demo_portfolio''),
     (''positions'', JList (map (\<lambda>(symbol, weight). JObj [(''symbol'', JStr symbol), (''weight'', JFloat (fl (weight / 10)))])
        [(''BTCUSD'', 4), (''ETHUSD'', 3), (''AAPL'', 2), (''MSFT'', 1)]))]"

definition ensure_simulator :: "(int \<Rightarrow> 'g) \<Rightarrow> env \<Rightarrow> ('n, 'g, unit) page_step" where
  "ensure_simulator seeded e pg =
     (case int_str (getenv e ''SIMULATOR_SEED'' ''42'') of
        Inl x \<Rightarrow> (Inl x, pg)
      | Inr seed \<Rightarrow> (Inr (), case pg_simulator pg of
            None \<Rightarrow> pg\<lparr>pg_simulator := Some (new_simulator (seeded seed))\<rparr> | Some sim \<Rightarrow> pg))"

section \<open>Overview and controls\<close>

definition render_health_card :: "'n urlopen \<Rightarrow> string \<Rightarrow> string \<Rightarrow> ('n, 'g, unit) page_step" where
  "render_health_card urlopen label url pg =
     bindS (fetch_json urlopen (url @ ''/health'') pg) (\<lambda>(data, error).
       showing [Widget ''subheader'' label, if has_error error then ErrorBox (the error) else JsonView data])"

fun post_cycle :: "'n urlopen \<Rightarrow> string \<Rightarrow> sensor_message list \<Rightarrow> json list \<Rightarrow> ('n, 'g, json list) page_step" where
  "post_cycle urlopen url [] results pg = (Inr results, pg)"
| "post_cycle urlopen url (m # ms) results pg =
     bindS (send_json urlopen (url @ ''/ingestion/messages'') (Some (dump_message m)) pg) (\<lambda>(response, error).
       post_cycle urlopen url ms (results @ [JObj [(''symbol'', JStr (sm_symbol m)), (''error'', jopt_str error),
         (''response'', response)]]))"

text \<open>The clock gives each reading of the session; without a session's simulator the lookup raises.\<close>

definition send_market_cycle ::
    "'n urlopen \<Rightarrow> 'g rng \<Rightarrow> (nat \<Rightarrow> int) \<Rightarrow> page_urls \<Rightarrow> bool \<Rightarrow> ('n, 'g, unit) page_step" where
  "send_market_cycle urlopen rng clk urls anomaly pg =
     (case pg_simulator pg of
        None \<Rightarrow> (Inl (KeyError ''simulator''), pg)
      | Some sim \<Rightarrow>
          (case generate_cycle rng (\<lambda>i. clk (pg_readings pg + i)) None (if anomaly then Some ''BTCUSD'' else None) sim of
             (Inl e, sim1) \<Rightarrow> (Inl e, pg\<lparr>pg_simulator := Some sim1\<rparr>)
           | (Inr ms, sim1) \<Rightarrow>
               bindS (post_cycle urlopen (pu_ingestion urls) ms []
                        (pg\<lparr>pg_simulator := Some sim1, pg_readings := pg_readings pg + length ms\<rparr>))
                 (\<lambda>results pg1. (Inr (), pg1\<lparr>pg_results := Some (JList results)\<rparr>))))"

definition report :: "string option \<Rightarrow> string \<Rightarrow> element" where
  "report error done = (if has_error error then ErrorBox (the error) else SuccessBox done)"

definition clicked :: "bool \<Rightarrow> ('n, 'g, unit) page_step \<Rightarrow> ('n, 'g, unit) page_step" where
  "clicked b f pg = (if b then f pg else (Inr (), pg))"

definition show_results :: "('n, 'g, unit) page_step" where
  "show_results pg = (case pg_results pg of
     Some j \<Rightarrow> if jtruth j then showing [Table j] pg else (Inr (), pg) | None \<Rightarrow> (Inr (), pg))"

definition controls ::
    "'n urlopen \<Rightarrow> 'g rng \<Rightarrow> (nat \<Rightarrow> int) \<Rightarrow> page_urls \<Rightarrow> page_input \<Rightarrow> ('n, 'g, unit) page_step" where
  "controls urlopen rng clk urls inp =
     then_show (showing [Widget ''subheader'' ''Runtime Controls'', Widget ''button'' ''Seed Portfolio''])
    (then_show (clicked (pi_seed_portfolio inp) (\<lambda>pg.
        bindS (send_json urlopen (pu_risk urls @ ''/risk/portfolio'') (Some page_portfolio) pg)
          (\<lambda>(response, error). showing [report error ''Portfolio seeded.''])))
    (then_show (showing [Widget ''button'' ''Send Market Cycle''])
    (then_show (clicked (pi_send_cycle inp) (send_market_cycle urlopen rng clk urls False))
    (then_show (showing [Widget ''button'' ''Send Anomalous Cycle''])
    (then_show (clicked (pi_send_anomalous inp) (send_market_cycle urlopen rng clk urls True))
    (then_show (showing [Widget ''button'' ''Recompute Risk''])
    (then_show (clicked (pi_recompute inp) (\<lambda>pg.
        bindS (send_json urlopen (pu_risk urls @ ''/risk/compute'') None pg)
          (\<lambda>(response, error). showing [report error ''Risk recomputed.''])))
     show_results)))))))"

section \<open>Peers, alerts, risk\<close>

definition peers_tab :: "'n urlopen \<Rightarrow> page_urls \<Rightarrow> ('n, 'g, unit) page_step" where
  "peers_tab urlopen urls pg =
     bindS (fetch_json urlopen (pu_registry urls @ ''/registry/peers'') pg) (\<lambda>(peers, error).
       showing [if has_error error then ErrorBox (the error) else Table peers])"

definition chosen :: "'a list \<Rightarrow> nat \<Rightarrow> 'a" where
  "chosen options i = (if i < length options then options ! i else options ! 0)"

definition review_options :: "string list" where
  "review_options = [''confirmed'', ''false_positive'', ''dismissed'']"

definition review_payload :: "page_input \<Rightarrow> json" where
  "review_payload inp = JObj [(''reviewer'', JStr ''dashboard-user''),
     (''status'', JStr (chosen review_options (pi_review_status inp))),
     (''notes'', if pi_review_notes inp = [] then JNull else JStr (pi_review_notes inp))]"

definition review_form :: "'n urlopen \<Rightarrow> page_urls \<Rightarrow> page_input \<Rightarrow> json list \<Rightarrow> ('n, 'g, unit) page_step" where
  "review_form urlopen urls inp alert_ids =
     then_show (showing [Choice ''Alert To Review'' alert_ids, Choice ''Review Status'' (map JStr review_options),
       Widget ''text_input'' ''Review Notes'', Widget ''button'' ''Submit Review''])
     (clicked (pi_submit_review inp) (\<lambda>pg.
        bindS (send_json urlopen (pu_anomaly urls @ ''/anomaly/alerts/'' @ py_str (chosen alert_ids (pi_alert inp)) @ ''/review'')
                (Some (review_payload inp)) pg)
          (\<lambda>(response, error). showing [report error ''Review submitted.''])))"

definition alerts_tab :: "'n urlopen \<Rightarrow> page_urls \<Rightarrow> page_input \<Rightarrow> ('n, 'g, unit) page_step" where
  "alerts_tab urlopen urls inp pg =
     bindS (fetch_json urlopen (pu_anomaly urls @ ''/anomaly/alerts'') pg) (\<lambda>(alerts, error).
       if has_error error then showing [ErrorBox (the error)]
       else then_show (showing [Table alerts])
         (\<lambda>pg1. case bindR (json_iter alerts) (mapR (\<lambda>item. json_item item ''alert_id'')) of
            Inl e \<Rightarrow> (Inl e, pg1)
          | Inr alert_ids \<Rightarrow> if alert_ids = [] then (Inr (), pg1) else review_form urlopen urls inp alert_ids pg1))"

definition warn_or :: "string option \<Rightarrow> element list \<Rightarrow> element list" where
  "warn_or error es = (if has_error error then [WarningBox (the error)] else es)"

definition risk_tab :: "'n urlopen \<Rightarrow> page_urls \<Rightarrow> ('n, 'g, unit) page_step" where
  "risk_tab urlopen urls pg =
     bindS (fetch_json urlopen (pu_risk urls @ ''/risk/portfolio'') pg) (\<lambda>(portfolio, portfolio_error) pg1.
     bindS (fetch_json urlopen (pu_risk urls @ ''/risk/latest'') (display (warn_or portfolio_error [JsonView portfolio]) pg1))
       (\<lambda>(snapshot, error) pg2.
     bindS (fetch_json urlopen (pu_risk urls @ ''/risk/history'') (display (warn_or error [JsonView snapshot]) pg2))
       (\<lambda>(history, error).
     showing (warn_or error (if jtruth history then [Table history] else [])))))"

section \<open>The ledger\<close>

text \<open>
  A key of a dictionary: numbers that are equal are one key, lists and objects are unhashable.
\<close>

fun dict_key :: "json \<Rightarrow> json result" where
  "dict_key (JBool b) = Inr (JInt (if b then 1 else 0))"
| "dict_key (JFloat x) = Inr (case x of Fin r \<Rightarrow> if of_int \<lfloor>r\<rfloor> = r then JInt \<lfloor>r\<rfloor> else JFloat x | _ \<Rightarrow> JFloat x)"
| "dict_key (JList js) = Inl (TypeError ''unhashable type'')"
| "dict_key (JObj d) = Inl (TypeError ''unhashable type'')"
| "dict_key j = Inr j"

definition block_key :: "json \<Rightarrow> json result" where
  "block_key block = bindR (json_item block ''event_type'') dict_key"

fun count_events :: "json list \<Rightarrow> (json, int) dict \<Rightarrow> (json, int) dict result" where
  "count_events [] counts = Inr counts"
| "count_events (block # blocks) counts =
     bindR (block_key block) (\<lambda>k. count_events blocks (dict_set k (dict_get counts k 0 + 1) counts))"

definition ledger_metrics :: "json \<Rightarrow> ('n, 'g, unit) page_step" where
  "ledger_metrics blocks pg =
     (case json_len blocks of Inl e \<Rightarrow> (Inl e, pg) | Inr n \<Rightarrow>
       then_show (showing [Metric ''Blocks'' (JInt n)]) (\<lambda>pg1.
         case bindR (json_iter blocks) (\<lambda>bs. count_events bs []) of
           Inl e \<Rightarrow> (Inl e, pg1)
         | Inr counts \<Rightarrow> showing [Metric ''Distinct event types'' (JInt (int (length counts))),
             Metric ''Routing failures'' (JInt (dict_get counts (JStr ''routing_failed'') 0))] pg1) pg)"

text \<open>The code points of the emoji.\<close>

definition event_icons :: "(json \<times> nat list) list" where
  "event_icons = map (\<lambda>(k, cs). (JStr k, cs))
     [(''peer_registered'', [0x1F4E1]), (''peer_heartbeat'', [0x1F493]), (''market_event_ingested'', [0x1F4E5]),
      (''event_routed_to_anomaly'', [0x27A1, 0xFE0F]), (''event_routed_to_risk'', [0x27A1, 0xFE0F]),
      (''anomaly_alert_created'', [0x1F6A8]), (''anomaly_alert_reviewed'', [0x2705]), (''risk_snapshot_computed'', [0x1F4CA]),
      (''routing_failed'', [0x26A0, 0xFE0F]), (''ledger_verification_failed'', [0x1F512])]"

definition event_icon :: "json \<Rightarrow> nat list" where
  "event_icon k = (case map_of event_icons k of Some cs \<Rightarrow> cs | None \<Rightarrow> [0x2022])"

definition ledger_line :: "json \<Rightarrow> element result" where
  "ledger_line block =
     bindR (block_key block) (\<lambda>k.
     bindR (json_item block ''block_id'') (\<lambda>i.
     bindR (json_item block ''event_type'') (\<lambda>t.
     bindR (json_item block ''actor_node'') (\<lambda>a.
     bindR (json_item block ''timestamp'') (\<lambda>ts.
       Inr (LedgerLine (event_icon k) ('' **#'' @ py_str i @ ''** `'' @ py_str t @ ''` '' @ [CHR 0xB7] @ '' '' @ py_str a @
         '' '' @ [CHR 0xB7] @ '' '' @ py_str ts)))))))"

fun show_lines :: "json list \<Rightarrow> ('n, 'g, unit) page_step" where
  "show_lines [] pg = (Inr (), pg)"
| "show_lines (b # bs) pg =
     (case ledger_line b of Inl e \<Rightarrow> (Inl e, pg) | Inr l \<Rightarrow> show_lines bs (display [l] pg))"

text \<open>Only a list has \<open>blocks[-25:][::-1]\<close>: anything else has raised before it is reached.\<close>

definition recent_blocks :: "json \<Rightarrow> json list result" where
  "recent_blocks blocks = (case blocks of JList bs \<Rightarrow> Inr (rev (slice_last 25 bs))
     | _ \<Rightarrow> Inl (TypeError ''object is not subscriptable''))"

definition verification_note :: "json \<Rightarrow> element result" where
  "verification_note verification =
     bindR (json_get verification ''valid'' JNull) (\<lambda>valid.
       if jtruth valid
       then bindR (json_get verification ''block_count'' JNull) (\<lambda>n.
         Inr (SuccessBox (''Ledger verified: '' @ py_str n @ '' blocks intact'')))
       else bindR (json_get verification ''error'' JNull) (\<lambda>x.
         Inr (ErrorBox (''Ledger verification FAILED: '' @ py_str x))))"

definition show_verification :: "json \<Rightarrow> string option \<Rightarrow> ('n, 'g, unit) page_step" where
  "show_verification verification verify_error pg =
     (if has_error verify_error then showing [ErrorBox (the verify_error)] pg
      else if jtruth verification then
        (case verification_note verification of Inl e \<Rightarrow> (Inl e, pg) | Inr b \<Rightarrow> showing [b] pg)
      else (Inr (), pg))"

definition show_blocks :: "json \<Rightarrow> string option \<Rightarrow> ('n, 'g, unit) page_step" where
  "show_blocks blocks blocks_error pg =
     (if has_error blocks_error then showing [ErrorBox (the blocks_error)] pg
      else if jtruth blocks then
        (case recent_blocks blocks of Inl e \<Rightarrow> (Inl e, display [Widget ''subheader'' ''Recent blocks''] pg)
         | Inr recent \<Rightarrow>
             then_show (showing [Widget ''subheader'' ''Recent blocks''])
            (then_show (show_lines recent)
             (showing [Widget ''expander'' ''Full ledger (all blocks)'', Table blocks])) pg)
      else (Inr (), pg))"

definition ledger_tab :: "'n urlopen \<Rightarrow> page_urls \<Rightarrow> ('n, 'g, unit) page_step" where
  "ledger_tab urlopen urls pg =
     bindS (fetch_json urlopen (pu_registry urls @ ''/ledger/verify'') pg) (\<lambda>(verification, verify_error) pg1.
     bindS (fetch_json urlopen (pu_registry urls @ ''/ledger/blocks'') pg1) (\<lambda>(blocks, blocks_error).
       then_show (clicked (jtruth blocks \<and> \<not> has_error blocks_error) (ledger_metrics blocks))
      (then_show (show_verification verification verify_error) (show_blocks blocks blocks_error))))"

section \<open>The bridge, and the page\<close>

definition bridge_metrics :: "json \<Rightarrow> element list result" where
  "bridge_metrics bridge_data =
     bindR (json_get bridge_data ''mqtt_received'' (JInt 0)) (\<lambda>received.
     bindR (json_get bridge_data ''forwarded_to_ingestion'' (JInt 0)) (\<lambda>forwarded.
     bindR (json_get bridge_data ''forward_failures'' (JInt 0)) (\<lambda>failures.
       Inr [Metric ''MQTT received'' received, Metric ''Forwarded to ingestion'' forwarded, Metric ''Forward failures'' failures,
            JsonView bridge_data])))"

definition iot_tab :: "'n urlopen \<Rightarrow> page_urls \<Rightarrow> ('n, 'g, unit) page_step" where
  "iot_tab urlopen urls pg =
     bindS (fetch_json urlopen (pu_bridge urls @ ''/health'') (display [Widget ''subheader'' ''IoT Bridge''] pg))
       (\<lambda>(bridge_data, bridge_error).
     then_show
       (if has_error bridge_error then
          showing [InfoBox (''IoT bridge not reachable at `'' @ pu_bridge urls @ ''`. Start it with '' @
            ''`python scripts/run_local_stack.py --with-iot-bridge` and an MQTT broker running.''),
            Widget ''caption'' (''Error: '' @ the bridge_error)]
        else (\<lambda>pg1. case bridge_metrics bridge_data of Inl e \<Rightarrow> (Inl e, pg1) | Inr es \<Rightarrow> showing es pg1))
       (showing [Divider, Markdown ''How it works'']))"

definition page_head :: "page_input \<Rightarrow> element list" where
  "page_head inp =
     [Widget ''title'' ''QuantIAN Dashboard'', Widget ''caption'' ''Lightweight local dashboard for the multi-cloud MVP.'',
      Widget ''header'' ''Live View'', Widget ''toggle'' ''Auto-refresh'', Widget ''slider'' ''Refresh every (s)''] @
     (if pi_auto_refresh inp then [MetaRefresh (pi_refresh_seconds inp)] else []) @
     [Widget ''caption'' ''Toggle on to watch peers, alerts, risk, and the ledger update live.'']"

definition overview :: "'n urlopen \<Rightarrow> page_urls \<Rightarrow> ('n, 'g, unit) page_step" where
  "overview urlopen urls =
     then_show (render_health_card urlopen ''Registry'' (pu_registry urls))
    (then_show (render_health_card urlopen ''AWS Ingestion'' (pu_ingestion urls))
    (then_show (render_health_card urlopen ''Azure Anomaly'' (pu_anomaly urls))
     (render_health_card urlopen ''GCP Risk'' (pu_risk urls))))"

definition page_tabs ::
    "'n urlopen \<Rightarrow> 'g rng \<Rightarrow> (nat \<Rightarrow> int) \<Rightarrow> page_urls \<Rightarrow> page_input \<Rightarrow> ('n, 'g, unit) page_step" where
  "page_tabs urlopen rng clk urls inp =
     then_show (overview urlopen urls)
    (then_show (controls urlopen rng clk urls inp)
    (then_show (peers_tab urlopen urls)
    (then_show (alerts_tab urlopen urls inp)
    (then_show (risk_tab urlopen urls)
    (then_show (ledger_tab urlopen urls) (iot_tab urlopen urls))))))"

definition run_page ::
    "'n urlopen \<Rightarrow> (int \<Rightarrow> 'g) \<Rightarrow> 'g rng \<Rightarrow> (nat \<Rightarrow> int) \<Rightarrow> env \<Rightarrow> page_input \<Rightarrow> ('n, 'g, unit) page_step" where
  "run_page urlopen seeded rng clk e inp =
     then_show (ensure_simulator seeded e)
    (then_show (showing (page_head inp)) (page_tabs urlopen rng clk (page_urls_of e) inp))"

end
