(* ===== verification/DashboardSpec.thy ===== *)
theory DashboardSpec
  imports Dashboard SimulatorSpec
begin

text \<open>
  What the page asks of the services. A step is described by the set of request sequences it makes
  when it returns; when it raises it has made a beginning of one of them. The descriptions compose
  along the script, and the session's simulator stays well formed, so they hold for every run.
\<close>

section \<open>Plans of requests\<close>

definition market_symbols :: "string list" where
  "market_symbols = [''BTCUSD'', ''ETHUSD'', ''AAPL'', ''MSFT'']"

definition session_ok :: "('n, 'g) page \<Rightarrow> bool" where
  "session_ok pg \<longleftrightarrow> (case pg_simulator pg of None \<Rightarrow> True
     | Some sim \<Rightarrow> simulator_ok sim \<and> dict_keys (si_state sim) = market_symbols)"

lemma session_ok_frame [simp]:
  "session_ok (pg\<lparr>pg_net := n\<rparr>) = session_ok pg" "session_ok (pg\<lparr>pg_sent := rqs\<rparr>) = session_ok pg"
  "session_ok (pg\<lparr>pg_shown := es\<rparr>) = session_ok pg" "session_ok (pg\<lparr>pg_results := rs\<rparr>) = session_ok pg"
  "session_ok (pg\<lparr>pg_readings := k\<rparr>) = session_ok pg"
  by (simp_all add: session_ok_def)

definition asks :: "page_request list set \<Rightarrow> ('n, 'g, 'a) page_step \<Rightarrow> bool" where
  "asks plan f \<longleftrightarrow> (\<forall>pg. session_ok pg \<longrightarrow> (case f pg of (r, pg') \<Rightarrow> session_ok pg' \<and>
     (\<exists>new. pg_sent pg' = pg_sent pg @ new \<and> (case r of Inr _ \<Rightarrow> new \<in> plan | Inl _ \<Rightarrow> \<exists>rest. new @ rest \<in> plan))))"

definition after_plan :: "page_request list set \<Rightarrow> page_request list set \<Rightarrow> page_request list set" where
  "after_plan plan plan' = {new @ new' |new new'. new \<in> plan \<and> new' \<in> plan'}"

lemma after_plan_single [simp]: "after_plan {new} {new'} = {new @ new'}"
  by (auto simp: after_plan_def)

named_theorems asks_rules

lemma asksI:
  assumes "\<And>pg r pg'. session_ok pg \<Longrightarrow> f pg = (r, pg') \<Longrightarrow> session_ok pg' \<and>
    (\<exists>new. pg_sent pg' = pg_sent pg @ new \<and> (case r of Inr _ \<Rightarrow> new \<in> plan | Inl _ \<Rightarrow> \<exists>rest. new @ rest \<in> plan))"
  shows "asks plan f"
  using assms by (auto simp: asks_def split: prod.split)

lemma asksD:
  fixes f :: "('n, 'g, 'a) page_step" and pg :: "('n, 'g) page"
  assumes "asks plan f" "session_ok pg" "f pg = (r, pg')"
  obtains new where "session_ok pg'" "pg_sent pg' = pg_sent pg @ new"
    "case r of Inr _ \<Rightarrow> new \<in> plan | Inl _ \<Rightarrow> \<exists>rest. new @ rest \<in> plan"
  using assms by (fastforce simp: asks_def)

lemma asks_nonempty:
  fixes f :: "('n, 'g, 'a) page_step" and pg :: "('n, 'g) page"
  assumes "asks plan f" "session_ok pg" shows "\<exists>new. new \<in> plan"
proof -
  obtain r pg' where f: "f pg = (r, pg')" by (metis surj_pair)
  then obtain new where "case r of Inr _ \<Rightarrow> new \<in> plan | Inl _ \<Rightarrow> \<exists>rest. new @ rest \<in> plan"
    using asksD [OF assms f] by blast
  then show ?thesis by (auto split: sum.splits)
qed

lemma asks_bind [asks_rules]:
  fixes f :: "('n, 'g, 'a) page_step" and g :: "'a \<Rightarrow> ('n, 'g, 'b) page_step"
  assumes "asks plan f" and "\<And>x. asks plan' (g x)"
  shows "asks (after_plan plan plan') (\<lambda>pg. bindS (f pg) g)"
proof (rule asksI)
  fix pg r pg' assume pg: "session_ok pg" and run: "bindS (f pg) g = (r, pg')"
  obtain q pg1 where f: "f pg = (q, pg1)" by (metis surj_pair)
  obtain new where new: "session_ok pg1" "pg_sent pg1 = pg_sent pg @ new"
    "case q of Inr _ \<Rightarrow> new \<in> plan | Inl _ \<Rightarrow> \<exists>rest. new @ rest \<in> plan" using asksD [OF assms(1) pg f] by blast
  show "session_ok pg' \<and> (\<exists>new. pg_sent pg' = pg_sent pg @ new \<and>
      (case r of Inr _ \<Rightarrow> new \<in> after_plan plan plan' | Inl _ \<Rightarrow> \<exists>rest. new @ rest \<in> after_plan plan plan'))"
  proof (cases q)
    case (Inl e)
    obtain rest where "new @ rest \<in> plan" using new(3) Inl by auto
    moreover obtain new' where "new' \<in> plan'" using asks_nonempty [OF assms(2) new(1)] by blast
    ultimately have "new @ (rest @ new') \<in> after_plan plan plan'" unfolding after_plan_def by (metis (mono_tags, lifting) append_assoc mem_Collect_eq)
    then show ?thesis using run f new(1,2) Inl by auto
  next
    case (Inr x)
    then have g: "g x pg1 = (r, pg')" using run f by simp
    obtain new' where new': "session_ok pg'" "pg_sent pg' = pg_sent pg1 @ new'"
      "case r of Inr _ \<Rightarrow> new' \<in> plan' | Inl _ \<Rightarrow> \<exists>rest. new' @ rest \<in> plan'" using asksD [OF assms(2) new(1) g] by blast
    have "new \<in> plan" using new(3) Inr by simp
    then have "case r of Inr _ \<Rightarrow> new @ new' \<in> after_plan plan plan' | Inl _ \<Rightarrow> \<exists>rest. (new @ new') @ rest \<in> after_plan plan plan'"
      using new'(3) by (auto simp: after_plan_def split: sum.splits)
    then show ?thesis using new(2) new'(1,2) by auto
  qed
qed

lemma asks_then [asks_rules]: "asks plan f \<Longrightarrow> asks plan' g \<Longrightarrow> asks (after_plan plan plan') (then_show f g)"
  unfolding then_show_def [abs_def] by (rule asks_bind)

lemma asks_showing [asks_rules]: "asks {[]} (showing es)"
  by (rule asksI) (auto simp: showing_def display_def)

lemma asks_display: "asks plan f \<Longrightarrow> asks plan (\<lambda>pg. f (display es pg))"
  using asksD [of plan f "display es pg" for pg] by (fastforce intro!: asksI simp: display_def)

lemma asks_clicked [asks_rules]: "asks plan f \<Longrightarrow> asks (if b then plan else {[]}) (clicked b f)"
  by (auto simp: asks_def clicked_def)

lemma asks_mono: "asks plan f \<Longrightarrow> plan \<subseteq> plan' \<Longrightarrow> asks plan' f"
  by (fastforce simp: asks_def split: prod.splits sum.splits)

lemma asks_fetch [asks_rules]: "asks {[get_request url]} (fetch_json urlopen url)"
  by (rule asksI) (auto simp: fetch_json_def ask_def split: prod.splits sum.splits)

lemma asks_send [asks_rules]: "asks {[post_request url payload]} (send_json urlopen url payload)"
  by (rule asksI) (auto simp: send_json_def ask_def split: prod.splits sum.splits)

lemmas asks_fetch_after [asks_rules] = asks_display [OF asks_fetch]

text \<open>A step that asks nothing: it shows elements, or raises.\<close>

lemma asks_quiet:
  assumes "\<And>pg. pg_sent (snd (f pg)) = pg_sent pg \<and> pg_simulator (snd (f pg)) = pg_simulator pg"
  shows "asks {[]} f"
proof (rule asksI)
  fix pg r pg' assume "session_ok pg" "f pg = (r, pg')"
  then show "session_ok pg' \<and> (\<exists>new. pg_sent pg' = pg_sent pg @ new \<and> (case r of Inr _ \<Rightarrow> new \<in> {[]} | Inl _ \<Rightarrow> \<exists>rest. new @ rest \<in> {[]}))"
    using assms [of pg] by (auto simp: session_ok_def split: sum.splits)
qed

section \<open>The plan of each part\<close>

lemma asks_eq: "asks plan f \<Longrightarrow> plan = plan' \<Longrightarrow> asks plan' f"
  by simp

lemma asks_split [asks_rules]: "(\<And>a b. asks plan (f a b)) \<Longrightarrow> asks plan (case x of (a, b) \<Rightarrow> f a b)"
  by (cases x) simp

lemma asks_if [asks_rules]: "asks plan f \<Longrightarrow> asks plan g \<Longrightarrow> asks plan (if b then f else g)"
  by simp

definition gets :: "string list \<Rightarrow> page_request list" where
  "gets us = map get_request us"

definition overview_urls :: "page_urls \<Rightarrow> string list" where
  "overview_urls urls = map (\<lambda>u. u @ ''/health'') [pu_registry urls, pu_ingestion urls, pu_anomaly urls, pu_risk urls]"

definition risk_urls :: "page_urls \<Rightarrow> string list" where
  "risk_urls urls = map (\<lambda>p. pu_risk urls @ p) [''/risk/portfolio'', ''/risk/latest'', ''/risk/history'']"

definition ledger_urls :: "page_urls \<Rightarrow> string list" where
  "ledger_urls urls = map (\<lambda>p. pu_registry urls @ p) [''/ledger/verify'', ''/ledger/blocks'']"

definition message_requests :: "page_urls \<Rightarrow> sensor_message list \<Rightarrow> page_request list" where
  "message_requests urls ms = map (\<lambda>m. post_request (pu_ingestion urls @ ''/ingestion/messages'') (Some (dump_message m))) ms"

definition cycle_plan :: "page_urls \<Rightarrow> page_request list set" where
  "cycle_plan urls = {message_requests urls ms |ms. map sm_symbol ms = market_symbols \<and> (\<forall>m\<in>set ms. tick_ok m)}"

definition click_plan :: "page_urls \<Rightarrow> page_input \<Rightarrow> page_request list set" where
  "click_plan urls inp =
     after_plan (if pi_seed_portfolio inp then {[post_request (pu_risk urls @ ''/risk/portfolio'') (Some page_portfolio)]} else {[]})
    (after_plan (if pi_send_cycle inp then cycle_plan urls else {[]})
    (after_plan (if pi_send_anomalous inp then cycle_plan urls else {[]})
     (if pi_recompute inp then {[post_request (pu_risk urls @ ''/risk/compute'') None]} else {[]})))"

definition review_request :: "page_urls \<Rightarrow> page_input \<Rightarrow> json \<Rightarrow> page_request" where
  "review_request urls inp alert_id =
     post_request (pu_anomaly urls @ ''/anomaly/alerts/'' @ py_str alert_id @ ''/review'') (Some (review_payload inp))"

definition review_plan :: "page_urls \<Rightarrow> page_input \<Rightarrow> page_request list set" where
  "review_plan urls inp = {[]} \<union> (if pi_submit_review inp then {[review_request urls inp alert_id] |alert_id. True} else {})"

definition page_plan :: "page_urls \<Rightarrow> page_input \<Rightarrow> page_request list set" where
  "page_plan urls inp =
     after_plan {gets (overview_urls urls)} (after_plan (click_plan urls inp)
    (after_plan {gets [pu_registry urls @ ''/registry/peers'', pu_anomaly urls @ ''/anomaly/alerts'']} (after_plan (review_plan urls inp)
     {gets (risk_urls urls @ ledger_urls urls @ [pu_bridge urls @ ''/health''])})))"

lemma overview_asks: "asks {gets (overview_urls urls)} (overview urlopen urls)"
  unfolding overview_def render_health_card_def [abs_def]
  by (rule asks_eq) (rule asks_rules | simp add: gets_def overview_urls_def)+

lemma peers_asks: "asks {gets [pu_registry urls @ ''/registry/peers'']} (peers_tab urlopen urls)"
  unfolding peers_tab_def [abs_def]
  by (rule asks_eq) (rule asks_rules | simp add: gets_def)+

lemma risk_asks: "asks {gets (risk_urls urls)} (risk_tab urlopen urls)"
  unfolding risk_tab_def [abs_def]
  by (rule asks_eq) (rule asks_rules | simp add: gets_def risk_urls_def)+

lemma ensure_simulator_asks: "asks {[]} (ensure_simulator seeded e)"
  by (rule asksI) (auto simp: ensure_simulator_def session_ok_def new_simulator_ok market_symbols_def
      split: sum.splits option.splits, simp_all add: new_simulator_def dict_keys_def)

lemma post_cycle_asks:
  "asks {map (\<lambda>m. post_request (url @ ''/ingestion/messages'') (Some (dump_message m))) ms} (post_cycle urlopen url ms results)"
proof (induction ms arbitrary: results)
  case Nil
  show ?case by (rule asksI) auto
next
  case (Cons m ms)
  show ?case
    unfolding post_cycle.simps [abs_def]
    by (rule asks_eq) (rule asks_rules Cons.IH | simp)+
qed

lemma show_results_asks: "asks {[]} show_results"
  by (rule asks_quiet) (simp add: show_results_def showing_def display_def split: option.splits)

lemma cycle_of_session:
  assumes "session_ok pg" "pg_simulator pg = Some sim"
  obtains ms sim' where "generate_cycle rng clk None a sim = (Inr ms, sim')" "map sm_symbol ms = market_symbols"
    "\<forall>m\<in>set ms. tick_ok m" "simulator_ok sim'" "dict_keys (si_state sim') = market_symbols"
proof -
  have ok: "simulator_ok sim" "dict_keys (si_state sim) = market_symbols" using assms by (simp_all add: session_ok_def)
  then show thesis
    using generate_cycle_known [OF ok(1), of None rng clk a] that by (auto simp: selected_def)
qed

lemma cycle_plan_nonempty: "\<exists>new. new \<in> cycle_plan urls"
proof -
  let ?pg = "\<lparr>pg_net = (), pg_sent = [], pg_shown = [], pg_simulator = Some (new_simulator ()), pg_results = None, pg_readings = 0\<rparr>"
  have "session_ok ?pg"
    using new_simulator_ok by (simp add: session_ok_def market_symbols_def new_simulator_def dict_keys_def)
  then obtain ms sim' where "generate_cycle nan_rng (\<lambda>_. 0) None None (new_simulator ()) = (Inr ms, sim')"
      "map sm_symbol ms = market_symbols" "\<forall>m\<in>set ms. tick_ok m"
    by (rule cycle_of_session) auto
  then show ?thesis unfolding cycle_plan_def by blast
qed

lemma cycle_asks: "asks (cycle_plan urls) (send_market_cycle urlopen rng clk urls anomaly)"
proof (rule asksI)
  fix pg :: "('a, 'b) page" and r pg' assume pg: "session_ok pg" and run: "send_market_cycle urlopen rng clk urls anomaly pg = (r, pg')"
  show "session_ok pg' \<and> (\<exists>new. pg_sent pg' = pg_sent pg @ new \<and>
    (case r of Inr _ \<Rightarrow> new \<in> cycle_plan urls | Inl _ \<Rightarrow> \<exists>rest. new @ rest \<in> cycle_plan urls))"
  proof (cases "pg_simulator pg")
    case None
    then show ?thesis using run pg cycle_plan_nonempty by (auto simp: send_market_cycle_def)
  next
    case (Some sim)
    let ?a = "if anomaly then Some ''BTCUSD'' else None"
    obtain ms sim' where c: "generate_cycle rng (\<lambda>i. clk (pg_readings pg + i)) None ?a sim = (Inr ms, sim')"
        "map sm_symbol ms = market_symbols" "\<forall>m\<in>set ms. tick_ok m" "simulator_ok sim'" "dict_keys (si_state sim') = market_symbols"
      using cycle_of_session [OF pg Some] by metis
    let ?pg = "pg\<lparr>pg_simulator := Some sim', pg_readings := pg_readings pg + length ms\<rparr>"
    have ok: "session_ok ?pg" using c by (simp add: session_ok_def)
    have plan: "message_requests urls ms \<in> cycle_plan urls" using c unfolding cycle_plan_def by blast
    obtain q pg1 where p: "post_cycle urlopen (pu_ingestion urls) ms [] ?pg = (q, pg1)" by (metis surj_pair)
    obtain new where new: "session_ok pg1" "pg_sent pg1 = pg_sent ?pg @ new"
        "case q of Inr _ \<Rightarrow> new \<in> {message_requests urls ms} | Inl _ \<Rightarrow> \<exists>rest. new @ rest \<in> {message_requests urls ms}"
      by (rule asksD [OF post_cycle_asks ok p, folded message_requests_def])
    have end_of: "(r, pg') = bindS (q, pg1) (\<lambda>results pg1. (Inr (), pg1\<lparr>pg_results := Some (JList results)\<rparr>))"
      using run p by (simp add: send_market_cycle_def Some c(1))
    show ?thesis
    proof (cases q)
      case (Inl e)
      then have "r = Inl e" "pg' = pg1" using end_of by simp_all
      moreover have "\<exists>rest. new @ rest \<in> cycle_plan urls" using new(3) plan Inl by simp metis
      ultimately show ?thesis using new(1,2) by simp
    next
      case (Inr results)
      then have "r = Inr ()" "pg' = pg1\<lparr>pg_results := Some (JList results)\<rparr>" using end_of by simp_all
      then show ?thesis using new plan Inr by simp
    qed
  qed
qed

lemma after_plan_nil [simp]: "after_plan {[]} plan = plan" "after_plan plan {[]} = plan"
  by (auto simp: after_plan_def)

lemma asks_report:
  "asks {[post_request url payload]} (\<lambda>pg. bindS (send_json urlopen url payload pg) (\<lambda>(response, error). showing [report error m]))"
  by (rule asks_eq) (rule asks_bind asks_send asks_split asks_showing | simp only: after_plan_nil)+

lemma controls_asks: "asks (click_plan urls inp) (controls urlopen rng clk urls inp)"
proof -
  have "asks (after_plan {[]} (after_plan (if pi_seed_portfolio inp then {[post_request (pu_risk urls @ ''/risk/portfolio'') (Some page_portfolio)]} else {[]})
    (after_plan {[]} (after_plan (if pi_send_cycle inp then cycle_plan urls else {[]})
    (after_plan {[]} (after_plan (if pi_send_anomalous inp then cycle_plan urls else {[]})
    (after_plan {[]} (after_plan (if pi_recompute inp then {[post_request (pu_risk urls @ ''/risk/compute'') None]} else {[]}) {[]}))))))))
    (controls urlopen rng clk urls inp)"
    unfolding controls_def by (intro asks_then asks_showing asks_clicked asks_report cycle_asks show_results_asks)
  then show ?thesis by (simp add: click_plan_def)
qed

lemma review_asks: "asks (review_plan urls inp) (review_form urlopen urls inp alert_ids)"
proof -
  have "asks (after_plan {[]} (if pi_submit_review inp then {[review_request urls inp (chosen alert_ids (pi_alert inp))]} else {[]}))
    (review_form urlopen urls inp alert_ids)"
    unfolding review_form_def review_request_def by (intro asks_then asks_showing asks_clicked asks_report)
  then show ?thesis by (rule asks_mono) (auto simp: review_plan_def)
qed

lemma alerts_asks: "asks (after_plan {gets [pu_anomaly urls @ ''/anomaly/alerts'']} (review_plan urls inp)) (alerts_tab urlopen urls inp)"
proof -
  have "asks (after_plan {[]} (review_plan urls inp)) (then_show (showing [Table alerts])
         (\<lambda>pg1. case bindR (json_iter alerts) (mapR (\<lambda>item. json_item item ''alert_id'')) of
            Inl e \<Rightarrow> (Inl e, pg1)
          | Inr alert_ids \<Rightarrow> if alert_ids = [] then (Inr (), pg1) else review_form urlopen urls inp alert_ids pg1))" for alerts
  proof (rule asks_then [OF asks_showing])
    show "asks (review_plan urls inp) (\<lambda>pg1. case bindR (json_iter alerts) (mapR (\<lambda>item. json_item item ''alert_id'')) of
            Inl e \<Rightarrow> (Inl e, pg1)
          | Inr alert_ids \<Rightarrow> if alert_ids = [] then (Inr (), pg1) else review_form urlopen urls inp alert_ids pg1)"
    proof (cases "bindR (json_iter alerts) (mapR (\<lambda>item. json_item item ''alert_id''))")
      case (Inl e)
      then show ?thesis by (simp add: asks_mono [OF asks_quiet] review_plan_def)
    next
      case (Inr ids)
      then show ?thesis
        by (cases "ids = []") (simp_all add: review_asks, simp_all add: asks_mono [OF asks_quiet] review_plan_def)
    qed
  qed
  then have tab: "asks (review_plan urls inp) (if has_error error then showing [ErrorBox (the error)]
       else then_show (showing [Table alerts]) (\<lambda>pg1. case bindR (json_iter alerts) (mapR (\<lambda>item. json_item item ''alert_id'')) of
            Inl e \<Rightarrow> (Inl e, pg1)
          | Inr alert_ids \<Rightarrow> if alert_ids = [] then (Inr (), pg1) else review_form urlopen urls inp alert_ids pg1))" for alerts error
    by (intro asks_if) (simp_all only: after_plan_nil, rule asks_mono [OF asks_showing], simp add: review_plan_def)
  show ?thesis
    unfolding alerts_tab_def [abs_def] gets_def by (simp, intro asks_bind asks_fetch asks_split tab)
qed

lemma metrics_asks: "asks {[]} (ledger_metrics blocks)"
  by (rule asks_quiet) (auto simp: ledger_metrics_def then_show_def showing_def display_def split: sum.splits)

lemma verification_asks: "asks {[]} (show_verification v ve)"
  by (rule asks_quiet) (auto simp: show_verification_def showing_def display_def split: sum.splits)

lemma lines_asks: "asks {[]} (show_lines bs)"
proof (rule asks_quiet)
  fix pg :: "('a, 'b) page"
  show "pg_sent (snd (show_lines bs pg)) = pg_sent pg \<and> pg_simulator (snd (show_lines bs pg)) = pg_simulator pg"
    by (induction bs arbitrary: pg) (auto simp: display_def split: sum.splits)
qed

lemma blocks_asks: "asks {[]} (show_blocks b be)"
proof -
  let ?lines = "\<lambda>recent. then_show (showing [Widget ''subheader'' ''Recent blocks''])
    (then_show (show_lines recent) (showing [Widget ''expander'' ''Full ledger (all blocks)'', Table b]))"
  have "asks (after_plan {[]} (after_plan {[]} {[]})) (?lines recent)" for recent
    by (intro asks_then asks_showing lines_asks)
  then have l: "asks {[]} (?lines recent)" for recent by simp
  show ?thesis
  proof (cases "has_error be \<or> \<not> jtruth b")
    case True
    then show ?thesis by (intro asks_quiet) (auto simp: show_blocks_def showing_def display_def)
  next
    case False
    then have "(show_blocks b be :: ('a, 'b, unit) page_step) = (case recent_blocks b of
        Inl e \<Rightarrow> (\<lambda>pg. (Inl e, display [Widget ''subheader'' ''Recent blocks''] pg)) | Inr recent \<Rightarrow> ?lines recent)"
      by (auto simp: show_blocks_def fun_eq_iff split: sum.splits)
    then show ?thesis using l by (simp add: asks_quiet display_def split: sum.splits)
  qed
qed

lemma ledger_asks: "asks {gets (ledger_urls urls)} (ledger_tab urlopen urls)"
proof -
  have rest: "asks {[]} (then_show (clicked c (ledger_metrics blocks)) (then_show (show_verification v ve) (show_blocks blocks be)))"
    for c v ve blocks be
    using asks_then [OF asks_clicked [OF metrics_asks] asks_then [OF verification_asks blocks_asks]] by simp
  show ?thesis
    unfolding ledger_tab_def [abs_def]
    by (rule asks_eq) (rule asks_bind asks_fetch asks_split rest | simp add: gets_def ledger_urls_def)+
qed

lemma iot_asks: "asks {gets [pu_bridge urls @ ''/health'']} (iot_tab urlopen urls)"
proof -
  have metrics: "asks {[]} (\<lambda>pg1. case bridge_metrics d of Inl e \<Rightarrow> (Inl e, pg1) | Inr es \<Rightarrow> showing es pg1)" for d
    by (rule asks_quiet) (auto simp: showing_def display_def split: sum.splits)
  show ?thesis
    unfolding iot_tab_def [abs_def]
    by (rule asks_eq) (rule asks_bind asks_fetch_after asks_split asks_then asks_if asks_showing metrics | simp only: gets_def list.map after_plan_nil)+
qed

lemma run_page_asks: "asks (page_plan (page_urls_of e) inp) (run_page urlopen seeded rng clk e inp)"
proof -
  let ?u = "page_urls_of e"
  have "asks (after_plan {[]} (after_plan {[]} (after_plan {gets (overview_urls ?u)} (after_plan (click_plan ?u inp)
      (after_plan {gets [pu_registry ?u @ ''/registry/peers'']}
      (after_plan (after_plan {gets [pu_anomaly ?u @ ''/anomaly/alerts'']} (review_plan ?u inp))
      (after_plan {gets (risk_urls ?u)} (after_plan {gets (ledger_urls ?u)} {gets [pu_bridge ?u @ ''/health'']}))))))))
      (run_page urlopen seeded rng clk e inp)"
    unfolding run_page_def page_tabs_def
    by (intro asks_then ensure_simulator_asks asks_showing overview_asks controls_asks peers_asks alerts_asks risk_asks
        ledger_asks iot_asks)
  moreover have "after_plan {a} (after_plan (after_plan {b} plan) c) = after_plan {a @ b} (after_plan plan c)" for a b plan c
    by (auto simp: after_plan_def) (metis append.assoc)+
  ultimately show ?thesis by (simp add: page_plan_def gets_def)
qed

section \<open>Views and sessions\<close>

definition quiet_input :: "page_input \<Rightarrow> bool" where
  "quiet_input inp \<longleftrightarrow> \<not> (pi_seed_portfolio inp \<or> pi_send_cycle inp \<or> pi_send_anomalous inp \<or> pi_recompute inp \<or>
     pi_submit_review inp)"

definition view_urls :: "page_urls \<Rightarrow> string list" where
  "view_urls urls = overview_urls urls @ [pu_registry urls @ ''/registry/peers'', pu_anomaly urls @ ''/anomaly/alerts''] @
     risk_urls urls @ ledger_urls urls @ [pu_bridge urls @ ''/health'']"

lemma quiet_plan: "quiet_input inp \<Longrightarrow> page_plan urls inp = {gets (view_urls urls)}"
  by (simp add: page_plan_def click_plan_def review_plan_def quiet_input_def view_urls_def gets_def)

text \<open>
  C37. Looking at the dashboard changes nothing: a run in which no button is clicked, whatever the
  services answer, sends only GET requests, the twelve of the tabs in their order; when the run
  raises it has sent a beginning of them, and otherwise all.
\<close>

theorem page_view_only_reads:
  fixes pg :: "('n, 'g) page"
  assumes "quiet_input inp" and "session_ok pg"
  shows "case run_page urlopen seeded rng clk e inp pg of (r, pg') \<Rightarrow>
    \<exists>k. pg_sent pg' = pg_sent pg @ map get_request (take k (view_urls (page_urls_of e))) \<and>
      (r = Inr () \<longrightarrow> 12 \<le> k) \<and> length (view_urls (page_urls_of e)) = 12"
proof -
  let ?u = "view_urls (page_urls_of e)"
  obtain r pg' where run: "run_page urlopen seeded rng clk e inp pg = (r, pg')" by (metis surj_pair)
  obtain new where new: "pg_sent pg' = pg_sent pg @ new"
    "case r of Inr _ \<Rightarrow> new \<in> {gets ?u} | Inl _ \<Rightarrow> \<exists>rest. new @ rest \<in> {gets ?u}"
    by (rule asksD [OF run_page_asks [of e inp urlopen seeded rng clk, unfolded quiet_plan [OF assms(1)]] assms(2) run])
  have len: "length ?u = 12" by (simp add: view_urls_def overview_urls_def risk_urls_def ledger_urls_def)
  have "new = take (length new) (gets ?u)" using new(2) by (auto split: sum.splits) (metis append_eq_conv_conj)
  then have "new = map get_request (take (length new) ?u)" by (simp add: gets_def take_map)
  moreover have "r = Inr () \<Longrightarrow> 12 \<le> length new" using new(2) len by (simp add: gets_def)
  ultimately show ?thesis using run new(1) len by auto
qed

text \<open>The first view: services that answer with an empty list, and a widget state without clicks.\<close>

definition first_input :: page_input where
  "first_input = \<lparr>pi_auto_refresh = True, pi_refresh_seconds = 5, pi_seed_portfolio = False, pi_send_cycle = False,
     pi_send_anomalous = False, pi_recompute = False, pi_alert = 0, pi_review_status = 0, pi_review_notes = [],
     pi_submit_review = False\<rparr>"

definition empty_page :: "(unit, unit) page" where
  "empty_page = \<lparr>pg_net = (), pg_sent = [], pg_shown = [], pg_simulator = None, pg_results = None, pg_readings = 0\<rparr>"

definition first_view :: "page_input \<Rightarrow> ((unit, unit) page, unit) outcome" where
  "first_view inp = run_page (\<lambda>rq n. (Body ''[]'', n)) (\<lambda>_. ()) nan_rng (\<lambda>_. 0) Map.empty inp empty_page"

theorem page_view_only_reads_witness:
  "\<exists>k. pg_sent (snd (first_view first_input)) = map get_request (take k (view_urls (page_urls_of Map.empty))) \<and>
     (fst (first_view first_input) = Inr () \<longrightarrow> 12 \<le> k)"
proof -
  have "quiet_input first_input" "session_ok empty_page"
    by (simp_all add: quiet_input_def first_input_def session_ok_def empty_page_def)
  note view = page_view_only_reads [OF this, where urlopen = "\<lambda>rq n. (Body ''[]'', n)" and seeded = "\<lambda>_. ()" and rng = nan_rng and clk = "\<lambda>_. 0" and e = Map.empty]
  obtain r pg' where run: "first_view first_input = (r, pg')" by (metis surj_pair)
  show ?thesis
    using view unfolding first_view_def [symmetric] run by (auto simp: empty_page_def)
qed

text \<open>A session: runs of the page with any clicks, while the services change as they like.\<close>

inductive page_session :: "env \<Rightarrow> ('n, 'g) page \<Rightarrow> bool" for e where
  opened: "page_session e \<lparr>pg_net = n, pg_sent = [], pg_shown = [], pg_simulator = None, pg_results = None, pg_readings = 0\<rparr>"
| rerun: "page_session e pg \<Longrightarrow> run_page urlopen seeded rng clk e inp (pg\<lparr>pg_shown := [], pg_net := n\<rparr>) = (r, pg') \<Longrightarrow>
    page_session e pg'"

definition allowed :: "page_urls \<Rightarrow> page_request \<Rightarrow> bool" where
  "allowed urls rq \<longleftrightarrow> (\<exists>u \<in> set (view_urls urls). rq = get_request u) \<or>
     rq = post_request (pu_risk urls @ ''/risk/portfolio'') (Some page_portfolio) \<or>
     rq = post_request (pu_risk urls @ ''/risk/compute'') None \<or>
     (\<exists>inp alert_id. rq = review_request urls inp alert_id) \<or>
     (\<exists>m. tick_ok m \<and> sm_symbol m \<in> set market_symbols \<and>
        rq = post_request (pu_ingestion urls @ ''/ingestion/messages'') (Some (dump_message m)))"

lemma message_requests_allowed:
  assumes "new \<in> cycle_plan urls" shows "list_all (allowed urls) new"
proof -
  obtain ms where ms: "new = message_requests urls ms" "map sm_symbol ms = market_symbols" "\<forall>m\<in>set ms. tick_ok m"
    using assms by (auto simp: cycle_plan_def)
  have "sm_symbol m \<in> set market_symbols" if "m \<in> set ms" for m using ms(2) that by (metis image_eqI set_map)
  then show ?thesis using ms(1,3) by (fastforce simp: list_all_iff message_requests_def allowed_def)
qed

lemma list_all_after_plan:
  "\<forall>a\<in>plan. list_all P a \<Longrightarrow> \<forall>a\<in>plan'. list_all P a \<Longrightarrow> \<forall>a\<in>after_plan plan plan'. list_all P a"
  by (auto simp: after_plan_def)

lemma review_allowed: "allowed urls (review_request urls inp alert_id)"
  unfolding allowed_def by blast

lemma plan_allowed:
  assumes "new \<in> page_plan urls inp" shows "list_all (allowed urls) new"
proof -
  have g: "list_all (allowed urls) (gets us)" if "set us \<subseteq> set (view_urls urls)" for us
    using that by (auto simp: list_all_iff gets_def allowed_def)
  have c: "\<forall>a\<in>click_plan urls inp. list_all (allowed urls) a"
    unfolding click_plan_def
    by (intro list_all_after_plan) (auto intro: message_requests_allowed simp: allowed_def split: if_splits)
  have r: "\<forall>a\<in>review_plan urls inp. list_all (allowed urls) a"
    by (auto simp: review_plan_def review_allowed split: if_splits)
  have "\<forall>a\<in>page_plan urls inp. list_all (allowed urls) a"
    unfolding page_plan_def by (intro list_all_after_plan c r) (auto intro!: g simp: view_urls_def)
  then show ?thesis using assms by blast
qed

text \<open>
  C38. Over a whole session of views and clicks, with services that answer anything or nothing, the
  dashboard sends nothing but its GET requests, the demo portfolio, requests to recompute, reviews of
  alerts, and market messages in range for the four symbols of the simulator.
\<close>

theorem session_sends_only_allowed:
  assumes "page_session e pg"
  shows "session_ok pg \<and> list_all (allowed (page_urls_of e)) (pg_sent pg)"
  using assms
proof induction
  case (opened n)
  show ?case by (simp add: session_ok_def)
next
  case (rerun pg urlopen seeded rng clk inp n r pg')
  then have ok: "session_ok (pg\<lparr>pg_shown := [], pg_net := n\<rparr>)" by simp
  obtain new where new: "session_ok pg'" "pg_sent pg' = pg_sent (pg\<lparr>pg_shown := [], pg_net := n\<rparr>) @ new"
    "case r of Inr _ \<Rightarrow> new \<in> page_plan (page_urls_of e) inp | Inl _ \<Rightarrow> \<exists>rest. new @ rest \<in> page_plan (page_urls_of e) inp"
    by (rule asksD [OF run_page_asks ok rerun.hyps(2)])
  then obtain rest where "new @ rest \<in> page_plan (page_urls_of e) inp" by (auto split: sum.splits) (metis append_Nil2)
  from plan_allowed [OF this] show ?case using new(1,2) rerun.IH by simp
qed

theorem session_sends_only_allowed_witness:
  "page_session Map.empty (snd (first_view (first_input\<lparr>pi_send_anomalous := True, pi_submit_review := True\<rparr>))) \<and>
   list_all (allowed (page_urls_of Map.empty))
     (pg_sent (snd (first_view (first_input\<lparr>pi_send_anomalous := True, pi_submit_review := True\<rparr>))))"
proof -
  let ?v = "first_view (first_input\<lparr>pi_send_anomalous := True, pi_submit_review := True\<rparr>)"
  have "page_session Map.empty empty_page" unfolding empty_page_def by (rule page_session.opened)
  moreover have "empty_page = empty_page\<lparr>pg_shown := [], pg_net := ()\<rparr>" by (simp add: empty_page_def)
  ultimately have s: "page_session Map.empty (snd ?v)"
    using page_session.rerun [of Map.empty empty_page] unfolding first_view_def by (metis prod.collapse)
  then show ?thesis using session_sends_only_allowed [OF s] by simp
qed

end
