(* ===== verification/DashboardTabs.thy ===== *)
theory DashboardTabs
  imports DashboardSpec
begin

text \<open>
  What the page shows of the answers: the ledger tab is a summary of the ledger; the results table
  of a market cycle has a row per symbol; and one answer that is not the page's ends the run.
\<close>

section \<open>The ledger tab\<close>

lemma block_key_dump: "block_key (dump_block b) = Inr (JStr (lb_event_type b))"
  by (simp add: block_key_def dump_block_def)

lemma count_events_dump:
  assumes "dict_ok counts"
  shows "\<exists>counts'. count_events (map dump_block bs) counts = Inr counts' \<and> dict_ok counts' \<and>
    set (dict_keys counts') = set (dict_keys counts) \<union> (JStr ` lb_event_type ` set bs) \<and>
    (\<forall>t. dict_get counts' (JStr t) 0 = dict_get counts (JStr t) 0 + int (length (filter (\<lambda>b. lb_event_type b = t) bs)))"
  using assms
proof (induction bs arbitrary: counts)
  case Nil
  then show ?case by simp
next
  case (Cons b bs)
  let ?c = "dict_set (JStr (lb_event_type b)) (dict_get counts (JStr (lb_event_type b)) 0 + 1) counts"
  obtain counts' where "count_events (map dump_block bs) ?c = Inr counts'" "dict_ok counts'"
    "set (dict_keys counts') = set (dict_keys ?c) \<union> (JStr ` lb_event_type ` set bs)"
    "\<forall>t. dict_get counts' (JStr t) 0 = dict_get ?c (JStr t) 0 + int (length (filter (\<lambda>b. lb_event_type b = t) bs))"
    using Cons.IH [of ?c] Cons.prems by auto
  then show ?case by (auto simp: block_key_dump dict.keys_insert dict_get_def)
qed

lemma count_of_types:
  assumes "dict_ok counts" "set (dict_keys counts) = JStr ` T"
  shows "length counts = card T"
proof -
  have "length counts = card (set (dict_keys counts))"
    using distinct_card [OF dict.invar_distinct [OF assms(1)]] by (simp add: dict_keys_def)
  also have "\<dots> = card T" unfolding assms(2) by (rule card_image) (simp add: inj_on_def)
  finally show ?thesis .
qed

definition block_line :: "ledger_block \<Rightarrow> element" where
  "block_line b = LedgerLine (event_icon (JStr (lb_event_type b)))
     ('' **#'' @ show_int (lb_block_id b) @ ''** `'' @ lb_event_type b @ ''` '' @ [CHR 0xB7] @ '' '' @ lb_actor_node b @
      '' '' @ [CHR 0xB7] @ '' '' @ lb_timestamp b)"

lemma ledger_line_dump: "ledger_line (dump_block b) = Inr (block_line b)"
  unfolding ledger_line_def block_key_dump by (simp add: block_line_def dump_block_def py_str_def)

lemma show_lines_dump: "show_lines (map dump_block bs) pg = (Inr (), display (map block_line bs) pg)"
  by (induction bs arbitrary: pg) (simp_all add: ledger_line_dump display_def)

definition verification_box :: "verification_result \<Rightarrow> element" where
  "verification_box v =
     (if vr_valid v then SuccessBox (''Ledger verified: '' @ show_int (vr_block_count v) @ '' blocks intact'')
      else ErrorBox (''Ledger verification FAILED: '' @ (case vr_error v of None \<Rightarrow> ''None'' | Some m \<Rightarrow> m)))"

lemma verification_note_dump: "verification_note (dump_verification v) = Inr (verification_box v)"
  by (simp add: verification_note_def verification_box_def dump_verification_def py_str_def jopt_str_def split: option.split)

definition ledger_view :: "verification_result \<Rightarrow> ledger_block list \<Rightarrow> element list" where
  "ledger_view v bs =
     [Metric ''Blocks'' (JInt (int (length bs))),
      Metric ''Distinct event types'' (JInt (int (card (lb_event_type ` set bs)))),
      Metric ''Routing failures'' (JInt (int (length (filter (\<lambda>b. lb_event_type b = ''routing_failed'') bs)))),
      verification_box v, Widget ''subheader'' ''Recent blocks''] @
     map block_line (rev (drop (length bs - 25) bs)) @
     [Widget ''expander'' ''Full ledger (all blocks)'', Table (JList (map dump_block bs))]"

lemma metrics_dump:
  assumes "bs \<noteq> []"
  shows "ledger_metrics (JList (map dump_block bs)) pg = (Inr (), display (take 3 (ledger_view v bs)) pg)"
proof -
  have nil: "dict_keys ([] :: (json, int) dict) = []" "dict_get ([] :: (json, int) dict) k 0 = 0" for k
    by (simp_all add: dict_keys_def dict_get_def)
  obtain counts where c: "count_events (map dump_block bs) [] = Inr counts" "dict_ok counts"
    "set (dict_keys counts) = JStr ` lb_event_type ` set bs"
    "\<forall>t. dict_get counts (JStr t) 0 = int (length (filter (\<lambda>b. lb_event_type b = t) bs))"
    using count_events_dump [of "[]" bs] by (auto simp: nil)
  have "length counts = card (lb_event_type ` set bs)" using count_of_types [OF c(2,3)] .
  then show ?thesis
    using c(1,4) by (simp add: ledger_metrics_def json_len_def then_show_def showing_def display_def ledger_view_def eval_nat_numeral)
qed

text \<open>
  C39. The ledger tab is a summary of a ledger that is not empty: the number of its blocks, of its
  different event types and of its failed routings, the verdict of the verification, and the last
  25 blocks, or all if there are fewer, the newest first. Two requests are sent, and nothing raises.
\<close>

theorem ledger_tab_summarises:
  assumes "urlopen (get_request (pu_registry urls @ ''/ledger/verify'')) (pg_net pg) = (Body tv, n1)"
    and "json_loads tv = Inr (dump_verification v)"
    and "urlopen (get_request (pu_registry urls @ ''/ledger/blocks'')) n1 = (Body tb, n2)"
    and "json_loads tb = Inr (JList (map dump_block bs))" and "bs \<noteq> []"
  shows "\<exists>pg'. ledger_tab urlopen urls pg = (Inr (), pg') \<and> pg_shown pg' = pg_shown pg @ ledger_view v bs \<and>
    pg_sent pg' = pg_sent pg @ gets (ledger_urls urls) \<and> pg_net pg' = n2"
proof -
  have ver: "show_verification (dump_verification v) None p = (Inr (), display [verification_box v] p)" for p :: "('a, 'b) page"
    by (simp add: show_verification_def has_error_def verification_note_dump showing_def) (simp add: dump_verification_def)
  have blocks: "show_blocks (JList (map dump_block bs)) None p =
      (Inr (), display (drop 4 (ledger_view v bs)) p)" for p :: "('a, 'b) page"
    using assms(5)
    by (simp add: show_blocks_def has_error_def recent_blocks_def slice_last_def drop_map rev_map then_show_def
        showing_def show_lines_dump display_def ledger_view_def eval_nat_numeral)
  have view: "ledger_view v bs = take 3 (ledger_view v bs) @ [verification_box v] @ drop 4 (ledger_view v bs)"
    by (simp add: ledger_view_def eval_nat_numeral)
  show ?thesis
    using assms
    by (subst view) (simp add: ledger_tab_def fetch_json_def ask_def has_error_def clicked_def then_show_def
        metrics_dump [OF assms(5), of _ v] ver blocks, simp add: display_def gets_def ledger_urls_def)
qed

definition one_block :: ledger_block where
  "one_block = \<lparr>lb_block_id = 1, lb_timestamp = ''t'', lb_event_type = ''routing_failed'', lb_actor_node = ''n-1'',
     lb_payload_hash = ''p'', lb_previous_hash = None, lb_block_hash = ''h''\<rparr>"

definition one_verified :: verification_result where
  "one_verified = \<lparr>vr_valid = True, vr_block_count = 1, vr_error = None\<rparr>"

definition ledger_answers :: "unit urlopen" where
  "ledger_answers rq n =
     (Body (if ends_with ''/ledger/verify'' (pq_url rq) then json_dumps (dump_verification one_verified)
            else json_dumps (JList (map dump_block [one_block]))), ())"

theorem ledger_tab_summarises_witness:
  "\<exists>pg'. ledger_tab ledger_answers (page_urls_of Map.empty) empty_page = (Inr (), pg') \<and>
     pg_shown pg' = [Metric ''Blocks'' (JInt 1), Metric ''Distinct event types'' (JInt 1), Metric ''Routing failures'' (JInt 1),
       SuccessBox (''Ledger verified: '' @ show_int 1 @ '' blocks intact''), Widget ''subheader'' ''Recent blocks'',
       block_line one_block, Widget ''expander'' ''Full ledger (all blocks)'', Table (JList [dump_block one_block])]"
proof -
  let ?u = "page_urls_of Map.empty"
  have a: "ledger_answers (get_request (pu_registry ?u @ ''/ledger/verify'')) (pg_net empty_page) =
      (Body (json_dumps (dump_verification one_verified)), ())"
    "ledger_answers (get_request (pu_registry ?u @ ''/ledger/blocks'')) () = (Body (json_dumps (JList (map dump_block [one_block]))), ())"
    by (simp_all add: ledger_answers_def get_request_def page_urls_of_def getenv_def ends_with_def)
  have t: "json_loads (json_dumps (dump_verification one_verified)) = Inr (dump_verification one_verified)"
    "json_loads (json_dumps (JList (map dump_block [one_block]))) = Inr (JList (map dump_block [one_block]))"
    by code_simp+
  show ?thesis
    using ledger_tab_summarises [where pg = empty_page, OF a(1) t(1) a(2) t(2)]
    by (auto simp: ledger_view_def empty_page_def verification_box_def one_verified_def)
      (simp_all add: one_block_def)
qed

section \<open>The market cycle\<close>

text \<open>Answers the page can use: a body that is JSON, or an error it catches.\<close>

definition sent_value :: "answer \<Rightarrow> (json \<times> string option) option" where
  "sent_value a = (case a of
     Body t \<Rightarrow> if t = [] then Some (JNull, None)
       else (case json_loads t of Inr j \<Rightarrow> Some (j, None) | Inl e \<Rightarrow> None)
   | HttpFailure code reason body \<Rightarrow>
       (case body of Inr m \<Rightarrow> Some (JNull, Some (if m = [] then show_nat code @ '' '' @ reason else m)) | Inl e \<Rightarrow> None)
   | UrlFailure reason \<Rightarrow> Some (JNull, Some reason)
   | Broken e \<Rightarrow> None)"

lemma send_value:
  assumes "sent_value (answers (post_request url payload)) = Some v"
  shows "send_json (\<lambda>rq n. (answers rq, n)) url payload pg = (Inr v, pg\<lparr>pg_sent := pg_sent pg @ [post_request url payload]\<rparr>)"
  using assms by (auto simp: send_json_def ask_def sent_value_def split: answer.splits if_splits sum.splits)

definition result_row :: "(page_request \<Rightarrow> answer) \<Rightarrow> string \<Rightarrow> sensor_message \<Rightarrow> json" where
  "result_row answers url m =
     (case the (sent_value (answers (post_request (url @ ''/ingestion/messages'') (Some (dump_message m))))) of
        (response, error) \<Rightarrow> JObj [(''symbol'', JStr (sm_symbol m)), (''error'', jopt_str error), (''response'', response)])"

lemma post_cycle_rows:
  assumes "\<And>m. m \<in> set ms \<Longrightarrow> sent_value (answers (post_request (url @ ''/ingestion/messages'') (Some (dump_message m)))) \<noteq> None"
  shows "post_cycle (\<lambda>rq n. (answers rq, n)) url ms rows pg = (Inr (rows @ map (result_row answers url) ms),
    pg\<lparr>pg_sent := pg_sent pg @ map (\<lambda>m. post_request (url @ ''/ingestion/messages'') (Some (dump_message m))) ms\<rparr>)"
  using assms
proof (induction ms arbitrary: rows pg)
  case (Cons m ms)
  obtain j err where "sent_value (answers (post_request (url @ ''/ingestion/messages'') (Some (dump_message m)))) = Some (j, err)"
    using Cons.prems by fastforce
  then show ?case using Cons.IH Cons.prems by (simp add: send_value result_row_def)
qed simp

text \<open>
  A market cycle sends one message per symbol, in the simulator's order, whatever happens to the
  ones before, and the results table has one row per symbol with the error the service gave, or
  none: a refused message stops neither the cycle nor the table.
\<close>

theorem market_cycle_rows:
  assumes "session_ok pg" and "pg_simulator pg = Some sim"
    and "\<And>m. sent_value (answers (post_request (pu_ingestion urls @ ''/ingestion/messages'') (Some (dump_message m)))) \<noteq> None"
  shows "\<exists>ms pg'. send_market_cycle (\<lambda>rq n. (answers rq, n)) rng clk urls anomaly pg = (Inr (), pg') \<and>
    map sm_symbol ms = [''BTCUSD'', ''ETHUSD'', ''AAPL'', ''MSFT''] \<and>
    pg_sent pg' = pg_sent pg @ message_requests urls ms \<and>
    pg_results pg' = Some (JList (map (result_row answers (pu_ingestion urls)) ms)) \<and> session_ok pg'"
proof -
  let ?a = "if anomaly then Some ''BTCUSD'' else None"
  obtain ms sim' where c: "generate_cycle rng (\<lambda>i. clk (pg_readings pg + i)) None ?a sim = (Inr ms, sim')"
      "map sm_symbol ms = market_symbols" "simulator_ok sim'" "dict_keys (si_state sim') = market_symbols"
    using cycle_of_session [OF assms(1,2)] by metis
  then show ?thesis
    using assms(2,3) by (intro exI [of _ ms])
      (simp add: send_market_cycle_def post_cycle_rows message_requests_def session_ok_def market_symbols_def)
qed

text \<open>The first message is refused with a validation error, the others are not reached at all.\<close>

definition refusing :: "page_request \<Rightarrow> answer" where
  "refusing rq = (if contains_str ''BTCUSD'' (the (pq_data rq)) then HttpFailure 422 ''Unprocessable'' (Inr [])
     else UrlFailure ''timed out'')"

theorem market_cycle_rows_witness:
  "\<exists>ms pg'. send_market_cycle (\<lambda>rq n. (refusing rq, n)) nan_rng (\<lambda>_. 0) (page_urls_of Map.empty) True
      (empty_page\<lparr>pg_simulator := Some (new_simulator ())\<rparr>) = (Inr (), pg') \<and> length (pg_sent pg') = 4 \<and>
    pg_results pg' = Some (JList (map (result_row refusing ''http://localhost:8001'') ms)) \<and> length ms = 4"
proof -
  let ?pg = "empty_page\<lparr>pg_simulator := Some (new_simulator ())\<rparr>"
  have ok: "session_ok ?pg"
    using new_simulator_ok by (simp add: session_ok_def market_symbols_def new_simulator_def dict_keys_def)
  have a: "sent_value (refusing rq) \<noteq> None" for rq by (simp add: sent_value_def refusing_def)
  have sim: "pg_simulator ?pg = Some (new_simulator ())" by simp
  obtain ms pg' where r: "send_market_cycle (\<lambda>rq n. (refusing rq, n)) nan_rng (\<lambda>_. 0) (page_urls_of Map.empty) True ?pg = (Inr (), pg')"
    "map sm_symbol ms = [''BTCUSD'', ''ETHUSD'', ''AAPL'', ''MSFT'']"
    "pg_sent pg' = pg_sent ?pg @ message_requests (page_urls_of Map.empty) ms"
    "pg_results pg' = Some (JList (map (result_row refusing (pu_ingestion (page_urls_of Map.empty))) ms))"
    using market_cycle_rows [OF ok sim, of refusing "page_urls_of Map.empty" nan_rng "\<lambda>_. 0" True, OF a] by (elim exE conjE) (rule that)
  have "length ms = 4" using arg_cong [OF r(2), of length] by simp
  then show ?thesis
    using r by (intro exI [of _ ms] exI [of _ pg']) (simp add: empty_page_def message_requests_def page_urls_of_def getenv_def)
qed

section \<open>An answer the page does not catch\<close>

text \<open>
  The exception \<open>fetch_json\<close> lets through: what \<open>urlopen\<close> raises besides its two errors, such as a timeout
  while the body is read, and a body that is not JSON.
\<close>

definition uncaught :: "answer \<Rightarrow> py_exc option" where
  "uncaught a = (case a of Broken e \<Rightarrow> Some e
     | Body t \<Rightarrow> (case json_loads t of Inl e \<Rightarrow> Some e | Inr j \<Rightarrow> None) | _ \<Rightarrow> None)"

text \<open>
  Two steps that do the same, but that the second meets an answer which raises \<open>x\<close> when it sends \<open>rq\<close>: if
  the first returns, the second returns with the same page, or the first has sent \<open>rq\<close> and the
  second raises \<open>x\<close>, with the requests up to \<open>rq\<close> sent and some of the elements shown.
\<close>

definition stops :: "page_request \<Rightarrow> py_exc \<Rightarrow> ('n, 'g) page \<Rightarrow> ('n, 'g) page \<Rightarrow> ('n, 'g) page \<Rightarrow> bool" where
  "stops rq x pg whole pg' \<longleftrightarrow> (\<exists>new rest es more.
     pg_sent pg' = pg_sent pg @ new @ [rq] \<and> pg_sent whole = pg_sent pg' @ rest \<and> rq \<notin> set new \<and>
     pg_shown pg' = pg_shown pg @ es \<and> pg_shown whole = pg_shown pg' @ more)"

definition goes_on :: "page_request \<Rightarrow> ('n, 'g) page \<Rightarrow> ('n, 'g) page \<Rightarrow> bool" where
  "goes_on rq pg whole \<longleftrightarrow> (\<exists>new es. pg_sent whole = pg_sent pg @ new \<and> rq \<notin> set new \<and> pg_shown whole = pg_shown pg @ es)"

definition breaks :: "page_request \<Rightarrow> py_exc \<Rightarrow> ('n, 'g, 'a) page_step \<Rightarrow> ('n, 'g, 'a) page_step \<Rightarrow> bool" where
  "breaks rq x f g \<longleftrightarrow> (\<forall>pg r whole. f pg = (Inr r, whole) \<longrightarrow>
     (goes_on rq pg whole \<and> g pg = (Inr r, whole)) \<or> (\<exists>pg'. g pg = (Inl x, pg') \<and> stops rq x pg whole pg'))"

named_theorems breaks_rules

lemma breaksD:
  assumes "breaks rq x f g" "f pg = (Inr r, whole)"
  obtains "goes_on rq pg whole" "g pg = (Inr r, whole)" | pg' where "g pg = (Inl x, pg')" "stops rq x pg whole pg'"
  using assms unfolding breaks_def by blast

lemma goes_on_trans: "goes_on rq a b \<Longrightarrow> goes_on rq b c \<Longrightarrow> goes_on rq a c"
  by (auto simp: goes_on_def)

lemma goes_on_stops:
  assumes "goes_on rq a b" "stops rq x b c b'" shows "stops rq x a c b'"
proof -
  obtain new es where 1: "pg_sent b = pg_sent a @ new" "rq \<notin> set new" "pg_shown b = pg_shown a @ es"
    using assms(1) by (auto simp: goes_on_def)
  obtain new' rest es' more where 2: "pg_sent b' = pg_sent b @ new' @ [rq]" "pg_sent c = pg_sent b' @ rest" "rq \<notin> set new'"
    "pg_shown b' = pg_shown b @ es'" "pg_shown c = pg_shown b' @ more" using assms(2) unfolding stops_def by blast
  show ?thesis
    unfolding stops_def using 1 2
    by (intro exI [of _ "new @ new'"] exI [of _ rest] exI [of _ "es @ es'"] exI [of _ more]) simp
qed

lemma breaks_kept:
  assumes "breaks rq x f g" "f pg = (Inr r, whole)"
  shows "\<exists>new es. pg_sent whole = pg_sent pg @ new \<and> pg_shown whole = pg_shown pg @ es"
  using assms
proof (cases rule: breaksD)
  case 1
  then show ?thesis unfolding goes_on_def by blast
next
  case (2 pg')
  from 2(2) show ?thesis unfolding stops_def by (metis append.assoc)
qed

lemma stops_on:
  assumes "stops rq x pg mid pg'" "\<exists>new es. pg_sent whole = pg_sent mid @ new \<and> pg_shown whole = pg_shown mid @ es"
  shows "stops rq x pg whole pg'"
  using assms unfolding stops_def by (metis append.assoc)

lemma breaks_bind [breaks_rules]:
  fixes f g :: "('n, 'g, 'a) page_step" and F G :: "'a \<Rightarrow> ('n, 'g, 'b) page_step"
  assumes "breaks rq x f g" "\<And>y. breaks rq x (F y) (G y)"
  shows "breaks rq x (\<lambda>pg. bindS (f pg) F) (\<lambda>pg. bindS (g pg) G)"
  unfolding breaks_def
proof (intro allI impI)
  fix pg r whole assume run: "bindS (f pg) F = (Inr r, whole)"
  then obtain y mid where f: "f pg = (Inr y, mid)" and F: "F y mid = (Inr r, whole)"
    by (cases "f pg"; cases "fst (f pg)") (auto simp: bindS_def)
  show "goes_on rq pg whole \<and> bindS (g pg) G = (Inr r, whole) \<or> (\<exists>pg'. bindS (g pg) G = (Inl x, pg') \<and> stops rq x pg whole pg')"
    using assms(1) f
  proof (cases rule: breaksD)
    case 1
    from assms(2) F show ?thesis
    proof (cases rule: breaksD)
      case 2: 1
      then show ?thesis using 1 goes_on_trans by (simp add: bindS_def) blast
    next
      case (2 pg')
      then show ?thesis using 1 goes_on_stops by (simp add: bindS_def) blast
    qed
  next
    case (2 pg')
    moreover have "stops rq x pg whole pg'" using stops_on [OF 2(2) breaks_kept [OF assms(2) F]] .
    ultimately show ?thesis by (simp add: bindS_def)
  qed
qed

lemma breaks_then [breaks_rules]: "breaks rq x f g \<Longrightarrow> breaks rq x f' g' \<Longrightarrow> breaks rq x (then_show f f') (then_show g g')"
  unfolding then_show_def [abs_def] by (rule breaks_bind)

lemma breaks_quiet:
  assumes "\<And>pg r whole. f pg = (Inr r, whole) \<Longrightarrow> pg_sent whole = pg_sent pg \<and> (\<exists>es. pg_shown whole = pg_shown pg @ es)"
  shows "breaks rq x f f"
  using assms by (fastforce simp: breaks_def goes_on_def)

lemma breaks_showing [breaks_rules]: "breaks rq x (showing es) (showing es)"
  by (rule breaks_quiet) (auto simp: showing_def display_def)

lemma breaks_return: "breaks rq x (\<lambda>pg. (r, pg)) (\<lambda>pg. (r, pg))"
  by (rule breaks_quiet) auto

lemma breaks_clicked [breaks_rules]: "breaks rq x f g \<Longrightarrow> breaks rq x (clicked b f) (clicked b g)"
  by (cases b) (simp_all add: clicked_def [abs_def] breaks_return)

lemma breaks_split [breaks_rules]:
  "(\<And>a b. breaks rq x (f a b) (g a b)) \<Longrightarrow> breaks rq x (case p of (a, b) \<Rightarrow> f a b) (case p of (a, b) \<Rightarrow> g a b)"
  by (cases p) simp

lemma breaks_if [breaks_rules]:
  "breaks rq x f g \<Longrightarrow> breaks rq x f' g' \<Longrightarrow> breaks rq x (if b then f else f') (if b then g else g')"
  by simp

lemma breaks_display:
  assumes "breaks rq x f g" shows "breaks rq x (\<lambda>pg. f (display es pg)) (\<lambda>pg. g (display es pg))"
  unfolding breaks_def
proof (intro allI impI)
  fix pg r whole assume run: "f (display es pg) = (Inr r, whole)"
  have "goes_on rq pg (display es pg)" by (simp add: goes_on_def display_def)
  from assms run
  show "goes_on rq pg whole \<and> g (display es pg) = (Inr r, whole) \<or>
      (\<exists>pg'. g (display es pg) = (Inl x, pg') \<and> stops rq x pg whole pg')"
    by (cases rule: breaksD) (use \<open>goes_on rq pg (display es pg)\<close> goes_on_trans goes_on_stops in blast)+
qed

text \<open>The two oracles, and the two kinds of request.\<close>

definition spoilt :: "page_request \<Rightarrow> py_exc \<Rightarrow> 'n urlopen \<Rightarrow> 'n urlopen \<Rightarrow> bool" where
  "spoilt rq x urlopen broken \<longleftrightarrow>
     (\<forall>rq' n. rq' \<noteq> rq \<longrightarrow> broken rq' n = urlopen rq' n) \<and> (\<forall>n. uncaught (fst (broken rq n)) = Some x)"

lemma breaks_fetch [breaks_rules]:
  assumes "spoilt rq x urlopen broken" shows "breaks rq x (fetch_json urlopen url) (fetch_json broken url)"
  unfolding breaks_def
proof (intro allI impI)
  fix pg r whole assume run: "fetch_json urlopen url pg = (Inr r, whole)"
  have whole: "pg_sent whole = pg_sent pg @ [get_request url]" "pg_shown whole = pg_shown pg"
    using run by (auto simp: fetch_json_def ask_def split: prod.splits)
  show "goes_on rq pg whole \<and> fetch_json broken url pg = (Inr r, whole) \<or>
      (\<exists>pg'. fetch_json broken url pg = (Inl x, pg') \<and> stops rq x pg whole pg')"
  proof (cases "get_request url = rq")
    case True
    obtain a n where a: "broken rq (pg_net pg) = (a, n)" by (metis surj_pair)
    then have "uncaught a = Some x" using assms unfolding spoilt_def by (metis fst_conv)
    then have "fetch_json broken url pg = (Inl x, pg\<lparr>pg_net := n, pg_sent := pg_sent pg @ [rq]\<rparr>)"
      using a True by (auto simp: fetch_json_def ask_def uncaught_def bindR_def split: answer.splits sum.splits)
    then show ?thesis using whole True by (intro disjI2) (simp add: stops_def)
  next
    case False
    then have "broken (get_request url) (pg_net pg) = urlopen (get_request url) (pg_net pg)" using assms by (simp add: spoilt_def)
    then have "fetch_json broken url pg = fetch_json urlopen url pg" by (simp add: fetch_json_def ask_def)
    then show ?thesis using run whole False by (simp add: goes_on_def)
  qed
qed

lemmas breaks_fetch_after [breaks_rules] = breaks_display [OF breaks_fetch]

lemma breaks_send [breaks_rules]:
  assumes "spoilt (get_request u) x urlopen broken"
  shows "breaks (get_request u) x (send_json urlopen url payload) (send_json broken url payload)"
proof -
  have ne: "post_request url payload \<noteq> get_request u" by (simp add: post_request_def get_request_def)
  then have "broken (post_request url payload) n = urlopen (post_request url payload) n" for n using assms by (simp add: spoilt_def)
  then have same: "send_json broken url payload = (send_json urlopen url payload :: ('a, 'b, _) page_step)"
    by (simp add: send_json_def ask_def fun_eq_iff)
  show ?thesis
    unfolding breaks_def same
    using ne by (auto simp: goes_on_def send_json_def ask_def split: prod.splits)
qed

section \<open>The parts of the page\<close>

lemma breaks_card [breaks_rules]:
  "spoilt rq x urlopen broken \<Longrightarrow> breaks rq x (render_health_card urlopen label url) (render_health_card broken label url)"
  unfolding render_health_card_def [abs_def] by (intro breaks_rules)

lemma breaks_overview: "spoilt rq x urlopen broken \<Longrightarrow> breaks rq x (overview urlopen urls) (overview broken urls)"
  unfolding overview_def by (intro breaks_rules)

lemma breaks_peers: "spoilt rq x urlopen broken \<Longrightarrow> breaks rq x (peers_tab urlopen urls) (peers_tab broken urls)"
  unfolding peers_tab_def [abs_def] by (intro breaks_rules)

lemma breaks_risk: "spoilt rq x urlopen broken \<Longrightarrow> breaks rq x (risk_tab urlopen urls) (risk_tab broken urls)"
  unfolding risk_tab_def [abs_def] by (intro breaks_rules)

lemma breaks_results [breaks_rules]: "breaks rq x show_results show_results"
  by (rule breaks_quiet) (auto simp: show_results_def showing_def display_def split: option.splits if_splits)

lemma breaks_posts:
  "spoilt (get_request u) x urlopen broken \<Longrightarrow>
     breaks (get_request u) x (post_cycle urlopen url ms results) (post_cycle broken url ms results)"
proof (induction ms arbitrary: results)
  case Nil
  show ?case by (simp add: breaks_return)
next
  case (Cons m ms)
  then show ?case unfolding post_cycle.simps [abs_def] by (intro breaks_rules) simp_all
qed

lemma breaks_cycle [breaks_rules]:
  assumes "spoilt (get_request u) x urlopen broken"
  shows "breaks (get_request u) x (send_market_cycle urlopen rng clk urls a) (send_market_cycle broken rng clk urls a)"
  unfolding breaks_def
proof (intro allI impI)
  fix pg :: "('a, 'b) page" and r whole assume run: "send_market_cycle urlopen rng clk urls a pg = (Inr r, whole)"
  then obtain sim where sim: "pg_simulator pg = Some sim" by (cases "pg_simulator pg") (simp_all add: send_market_cycle_def)
  then obtain ms sim1 where c: "generate_cycle rng (\<lambda>i. clk (pg_readings pg + i)) None (if a then Some ''BTCUSD'' else None) sim = (Inr ms, sim1)"
    using run by (auto simp: send_market_cycle_def split: prod.splits sum.splits)
  let ?pg = "pg\<lparr>pg_simulator := Some sim1, pg_readings := pg_readings pg + length ms\<rparr>"
  let ?steps = "\<lambda>op pg. bindS (post_cycle op (pu_ingestion urls) ms [] pg) (\<lambda>results pg1. (Inr (), pg1\<lparr>pg_results := Some (JList results)\<rparr>))"
  have steps: "send_market_cycle op rng clk urls a pg = ?steps op ?pg" for op by (simp add: send_market_cycle_def sim c)
  have keep: "breaks (get_request u) x (\<lambda>pg1. (Inr (), pg1\<lparr>pg_results := Some (JList results)\<rparr>))
      (\<lambda>pg1. (Inr (), pg1\<lparr>pg_results := Some (JList results)\<rparr>))" for results
    by (rule breaks_quiet) auto
  have "breaks (get_request u) x (?steps urlopen) (?steps broken)" by (intro breaks_bind breaks_posts assms keep)
  moreover have "goes_on (get_request u) pg whole \<longleftrightarrow> goes_on (get_request u) ?pg whole"
    "stops (get_request u) x pg whole pg' \<longleftrightarrow> stops (get_request u) x ?pg whole pg'" for pg'
    by (simp_all add: goes_on_def stops_def)
  ultimately show "goes_on (get_request u) pg whole \<and> send_market_cycle broken rng clk urls a pg = (Inr r, whole) \<or>
      (\<exists>pg'. send_market_cycle broken rng clk urls a pg = (Inl x, pg') \<and> stops (get_request u) x pg whole pg')"
    using run unfolding steps breaks_def by blast
qed

lemma breaks_controls:
  "spoilt (get_request u) x urlopen broken \<Longrightarrow>
     breaks (get_request u) x (controls urlopen rng clk urls inp) (controls broken rng clk urls inp)"
  unfolding controls_def by (intro breaks_rules)

lemma breaks_review [breaks_rules]:
  "spoilt (get_request u) x urlopen broken \<Longrightarrow>
     breaks (get_request u) x (review_form urlopen urls inp ids) (review_form broken urls inp ids)"
  unfolding review_form_def by (intro breaks_rules)

lemma breaks_result:
  "(\<And>y. breaks rq x (f y) (g y)) \<Longrightarrow>
     breaks rq x (\<lambda>pg. case r of Inl e \<Rightarrow> (Inl e, h pg) | Inr y \<Rightarrow> f y pg) (\<lambda>pg. case r of Inl e \<Rightarrow> (Inl e, h pg) | Inr y \<Rightarrow> g y pg)"
  by (cases r) (simp_all add: breaks_def)

lemma breaks_either:
  "breaks rq x f g \<Longrightarrow> breaks rq x f' g' \<Longrightarrow>
     breaks rq x (\<lambda>pg. if b then f pg else f' pg) (\<lambda>pg. if b then g pg else g' pg)"
  by (cases b) simp_all

lemma breaks_alerts:
  assumes "spoilt (get_request u) x urlopen broken"
  shows "breaks (get_request u) x (alerts_tab urlopen urls inp) (alerts_tab broken urls inp)"
proof -
  have "breaks (get_request u) x
      (\<lambda>pg. case r of Inl e \<Rightarrow> (Inl e, pg) | Inr ids \<Rightarrow> if ids = [] then (Inr (), pg) else review_form urlopen urls inp ids pg)
      (\<lambda>pg. case r of Inl e \<Rightarrow> (Inl e, pg) | Inr ids \<Rightarrow> if ids = [] then (Inr (), pg) else review_form broken urls inp ids pg)" for r
    by (intro breaks_result breaks_either breaks_return breaks_review assms)
  then show ?thesis unfolding alerts_tab_def [abs_def] by (intro breaks_rules assms)
qed

lemma breaks_ledger:
  assumes "spoilt rq x urlopen broken"
  shows "breaks rq x (ledger_tab urlopen urls) (ledger_tab broken urls)"
proof -
  have m: "breaks rq x (ledger_metrics b) (ledger_metrics b)" for b
    by (rule breaks_quiet) (auto simp: ledger_metrics_def then_show_def showing_def display_def split: sum.splits)
  have v: "breaks rq x (show_verification v ve) (show_verification v ve)" for v ve
    by (rule breaks_quiet) (auto simp: show_verification_def showing_def display_def split: sum.splits if_splits)
  have l: "breaks rq x (show_lines bs) (show_lines bs)" for bs
  proof (rule breaks_quiet)
    show "pg_sent whole = pg_sent pg \<and> (\<exists>es. pg_shown whole = pg_shown pg @ es)" if "show_lines bs pg = (Inr r, whole)" for pg r whole
      using that by (induction bs arbitrary: pg) (fastforce simp: display_def split: sum.splits)+
  qed
  have b: "breaks rq x (show_blocks j je) (show_blocks j je)" for j je
    unfolding show_blocks_def [abs_def]
    by (intro breaks_either breaks_result breaks_return breaks_then breaks_showing l)
  show ?thesis
    unfolding ledger_tab_def [abs_def] by (intro breaks_rules assms m v b)
qed

lemma breaks_iot: "spoilt rq x urlopen broken \<Longrightarrow> breaks rq x (iot_tab urlopen urls) (iot_tab broken urls)"
  unfolding iot_tab_def [abs_def] by (intro breaks_rules breaks_result)

text \<open>The overview and the six other tabs, in the order of the script, and the page up to one of them.\<close>

definition page_parts ::
    "'n urlopen \<Rightarrow> 'g rng \<Rightarrow> (nat \<Rightarrow> int) \<Rightarrow> page_urls \<Rightarrow> page_input \<Rightarrow> ('n, 'g, unit) page_step list" where
  "page_parts urlopen rng clk urls inp =
     [overview urlopen urls, controls urlopen rng clk urls inp, peers_tab urlopen urls, alerts_tab urlopen urls inp,
      risk_tab urlopen urls, ledger_tab urlopen urls, iot_tab urlopen urls]"

fun run_parts :: "('n, 'g, unit) page_step list \<Rightarrow> ('n, 'g, unit) page_step" where
  "run_parts [] pg = (Inr (), pg)"
| "run_parts (f # fs) pg = bindS (f pg) (\<lambda>_. run_parts fs)"

definition page_top :: "(int \<Rightarrow> 'g) \<Rightarrow> env \<Rightarrow> page_input \<Rightarrow> ('n, 'g, unit) page_step" where
  "page_top seeded e inp = then_show (ensure_simulator seeded e) (showing (page_head inp))"

lemma bindS_return: "bindS r (\<lambda>_ pg. (Inr (), pg)) = r" for r :: "(('n, 'g) page, unit) outcome"
  by (cases r; cases "fst r") (auto simp: bindS_def)

lemma run_page_parts:
  "run_page urlopen seeded rng clk e inp pg =
     bindS (page_top seeded e inp pg) (\<lambda>_. run_parts (page_parts urlopen rng clk (page_urls_of e) inp))"
proof -
  have "page_tabs urlopen rng clk (page_urls_of e) inp = run_parts (page_parts urlopen rng clk (page_urls_of e) inp)"
    unfolding page_tabs_def page_parts_def then_show_def [abs_def] run_parts.simps [abs_def]
    by (simp add: bindS_return)
  then show ?thesis
    by (simp add: run_page_def page_top_def then_show_def bindS_def split: prod.split sum.split)
qed

lemma parts_breaks: "list_all2 (breaks rq x) fs gs \<Longrightarrow> breaks rq x (run_parts fs) (run_parts gs)"
proof (induction rule: list_all2_induct)
  case Nil
  show ?case by (simp add: breaks_return run_parts.simps [abs_def])
next
  case (Cons f fs g gs)
  then show ?case unfolding run_parts.simps [abs_def] by (intro breaks_bind)
qed

lemma breaks_parts:
  assumes "spoilt (get_request u) x urlopen broken"
  shows "list_all2 (breaks (get_request u) x) (page_parts urlopen rng clk urls inp) (page_parts broken rng clk urls inp)"
  using assms
  by (simp add: page_parts_def breaks_overview breaks_controls breaks_peers breaks_alerts breaks_risk breaks_ledger breaks_iot)

text \<open>Where a run of parts stops: in one of them, after the ones before it have shown all that is theirs.\<close>

lemma parts_break:
  assumes "list_all2 (breaks rq x) fs gs" "run_parts fs pg = (Inr (), whole)" "pg_sent whole = pg_sent pg @ sent" "rq \<in> set sent"
  shows "\<exists>k before after pg' es more. k < length fs \<and> run_parts (take k fs) pg = (Inr (), before) \<and> (fs ! k) before = (Inr (), after) \<and>
     run_parts gs pg = (Inl x, pg') \<and> stops rq x pg whole pg' \<and>
     pg_shown pg' = pg_shown before @ es \<and> pg_shown after = pg_shown pg' @ more"
  using assms
proof (induction fs gs arbitrary: pg sent rule: list_all2_induct)
  case Nil
  then show ?case by simp
next
  case (Cons f fs g gs)
  obtain mid where f: "f pg = (Inr (), mid)" and rest: "run_parts fs mid = (Inr (), whole)"
    using Cons.prems(1) by (cases "f pg"; cases "fst (f pg)") (auto simp: bindS_def)
  have kept: "\<exists>new es. pg_sent whole = pg_sent mid @ new \<and> pg_shown whole = pg_shown mid @ es"
    using breaks_kept [OF parts_breaks [OF Cons.hyps(2)] rest] .
  show ?case
    using Cons.hyps(1) f
  proof (cases rule: breaksD)
    case 1
    then obtain new es0 where mid: "pg_sent mid = pg_sent pg @ new" "rq \<notin> set new" "pg_shown mid = pg_shown pg @ es0"
      by (auto simp: goes_on_def)
    obtain sent' where sent': "pg_sent whole = pg_sent mid @ sent'" using kept by blast
    then have "sent = new @ sent'" using Cons.prems(2) mid(1) by simp
    then have "rq \<in> set sent'" using Cons.prems(3) mid(2) by simp
    from Cons.IH [OF rest sent' this] obtain k before after pg' es more where ih: "k < length fs"
      "run_parts (take k fs) mid = (Inr (), before)" "(fs ! k) before = (Inr (), after)" "run_parts gs mid = (Inl x, pg')"
      "stops rq x mid whole pg'" "pg_shown pg' = pg_shown before @ es" "pg_shown after = pg_shown pg' @ more" by blast
    show ?thesis
      using ih f 1 goes_on_stops [OF 1(1) ih(5)]
      by (intro exI [of _ "Suc k"] exI [of _ before] exI [of _ after] exI [of _ pg'] exI [of _ es] exI [of _ more]) (simp add: bindS_def)
  next
    case (2 pg')
    obtain es more where "pg_shown pg' = pg_shown pg @ es" "pg_shown mid = pg_shown pg' @ more" using 2(2) unfolding stops_def by blast
    then show ?thesis
      using 2 f stops_on [OF 2(2) kept]
      by (intro exI [of _ 0] exI [of _ pg] exI [of _ mid] exI [of _ pg'] exI [of _ es] exI [of _ more]) (simp add: bindS_def)
  qed
qed

text \<open>
  C40. An exception the page does not catch ends the run. Take any run that returns, with whatever clicks
  and services that change as they like, and let any one of the GET requests it sent be answered with a
  timeout while the body is read, another exception of \<open>urlopen\<close>, or a body that is not JSON. Then the run
  raises it; the requests sent are those up to this one, none after it, also to services that are up;
  and the page shows everything of the parts before the one that asked, a beginning of that part, and
  nothing of the tabs after it.
\<close>

theorem one_broken_answer_ends_page:
  fixes pg :: "('n, 'g) page"
  assumes "run_page urlopen seeded rng clk e inp pg = (Inr (), whole)"
    and "pg_sent whole = pg_sent pg @ sent" and "get_request u \<in> set sent"
    and "\<And>rq n. rq \<noteq> get_request u \<Longrightarrow> broken rq n = urlopen rq n" and "\<And>n. uncaught (fst (broken (get_request u) n)) = Some x"
  defines "parts \<equiv> page_parts urlopen rng clk (page_urls_of e) inp"
  shows "\<exists>pg' first rest k top before after es more.
     run_page broken seeded rng clk e inp pg = (Inl x, pg') \<and>
     sent = first @ get_request u # rest \<and> get_request u \<notin> set first \<and> pg_sent pg' = pg_sent pg @ first @ [get_request u] \<and>
     page_top seeded e inp pg = (Inr (), top) \<and> k < length parts \<and>
     run_parts (take k parts) top = (Inr (), before) \<and> (parts ! k) before = (Inr (), after) \<and>
     pg_shown pg' = pg_shown before @ es \<and> pg_shown after = pg_shown pg' @ more"
proof -
  let ?gs = "page_parts broken rng clk (page_urls_of e) inp"
  have spoilt: "spoilt (get_request u) x urlopen broken" using assms(4,5) by (simp add: spoilt_def)
  obtain top where top: "page_top seeded e inp pg = (Inr (), top)" and parts: "run_parts parts top = (Inr (), whole)"
    using assms(1) unfolding run_page_parts parts_def
    by (cases "page_top seeded e inp pg"; cases "fst (page_top seeded e inp pg)") (auto simp: bindS_def)
  have sent: "pg_sent top = pg_sent pg"
    using top by (auto simp: page_top_def then_show_def bindS_def ensure_simulator_def showing_def display_def
        split: sum.splits option.splits)
  obtain k before after pg' es more where b: "k < length parts" "run_parts (take k parts) top = (Inr (), before)"
      "(parts ! k) before = (Inr (), after)" "run_parts ?gs top = (Inl x, pg')" "stops (get_request u) x top whole pg'"
      "pg_shown pg' = pg_shown before @ es" "pg_shown after = pg_shown pg' @ more"
    using parts_break [OF breaks_parts [OF spoilt] parts [unfolded parts_def] _ assms(3)] assms(2) sent
    unfolding parts_def by auto
  obtain first rest where f: "pg_sent pg' = pg_sent pg @ first @ [get_request u]" "pg_sent whole = pg_sent pg' @ rest"
      "get_request u \<notin> set first"
    using b(5) sent unfolding stops_def by metis
  have "sent = first @ get_request u # rest" using f assms(2) by simp
  then show ?thesis
    using b f top unfolding run_page_parts
    by (intro exI [of _ pg'] exI [of _ first] exI [of _ rest] exI [of _ k] exI [of _ top] exI [of _ before] exI [of _ after]
        exI [of _ es] exI [of _ more]) (simp add: bindS_def)
qed

text \<open>Services with nothing to show, and the same with a list of alerts that never arrives.\<close>

definition plain_urlopen :: "unit urlopen" where
  "plain_urlopen rq n = (Body (if pq_url rq = ''http://localhost:8004/health'' then ''{}'' else ''[]''), ())"

definition stalling :: "unit urlopen" where
  "stalling rq n = (if rq = get_request ''http://localhost:8002/anomaly/alerts''
     then (Broken (OSError ''The read operation timed out''), ()) else plain_urlopen rq n)"

definition idle_view :: "((unit, unit) page, unit) outcome" where
  "idle_view = run_page plain_urlopen (\<lambda>_. ()) nan_rng (\<lambda>_. 0) Map.empty first_input empty_page"

lemma idle_fetch:
  "fetch_json plain_urlopen url pg =
     (Inr (if url = ''http://localhost:8004/health'' then JObj [] else JList [], None), pg\<lparr>pg_sent := pg_sent pg @ [get_request url]\<rparr>)"
proof -
  have "json_loads ''{}'' = Inr (JObj [])" "json_loads ''[]'' = Inr (JList [])" by code_simp+
  then show ?thesis by (cases pg) (simp add: fetch_json_def ask_def plain_urlopen_def get_request_def)
qed

lemma idle_returns: "fst idle_view = Inr ()"
proof -
  have seed: "int_str (getenv Map.empty ''SIMULATOR_SEED'' ''42'') = Inr 42" by code_simp
  have urls: "page_urls_of Map.empty = \<lparr>pu_registry = ''http://localhost:8000'', pu_ingestion = ''http://localhost:8001'',
      pu_anomaly = ''http://localhost:8002'', pu_risk = ''http://localhost:8003'', pu_bridge = ''http://localhost:8004''\<rparr>"
    by (simp add: page_urls_of_def getenv_def)
  have parts: "fst (run_page plain_urlopen (\<lambda>_. ()) nan_rng (\<lambda>_. 0) Map.empty first_input pg) = Inr ()"
    if "pg_results pg = None" for pg :: "(unit, unit) page"
    using that seed
    by (cases "pg_simulator pg")
      (simp_all add: run_page_def page_tabs_def overview_def render_health_card_def controls_def peers_tab_def alerts_tab_def risk_tab_def
        ledger_tab_def iot_tab_def then_show_def showing_def display_def clicked_def idle_fetch urls first_input_def has_error_def
        ensure_simulator_def show_results_def warn_or_def show_verification_def show_blocks_def bridge_metrics_def)
  show ?thesis unfolding idle_view_def by (rule parts) (simp add: empty_page_def)
qed

lemma idle_sent: "pg_sent (snd idle_view) = gets (view_urls (page_urls_of Map.empty))"
proof -
  have ok: "session_ok empty_page" "quiet_input first_input"
    by (simp_all add: session_ok_def empty_page_def quiet_input_def first_input_def)
  obtain whole where run: "run_page plain_urlopen (\<lambda>_. ()) nan_rng (\<lambda>_. 0) Map.empty first_input empty_page = (Inr (), whole)"
    using idle_returns unfolding idle_view_def by (metis prod.collapse)
  from asksD [OF run_page_asks [of Map.empty first_input plain_urlopen, unfolded quiet_plan [OF ok(2)]] ok(1) run]
  show ?thesis using run by (auto simp: idle_view_def empty_page_def)
qed

theorem one_broken_answer_ends_page_witness:
  "\<exists>pg'. run_page stalling (\<lambda>_. ()) nan_rng (\<lambda>_. 0) Map.empty first_input empty_page =
     (Inl (OSError ''The read operation timed out''), pg') \<and> length (pg_sent pg') = 6"
proof -
  let ?u = "''http://localhost:8002/anomaly/alerts''"
  have run: "run_page plain_urlopen (\<lambda>_. ()) nan_rng (\<lambda>_. 0) Map.empty first_input empty_page = (Inr (), snd idle_view)"
    using idle_returns unfolding idle_view_def by (metis prod.collapse)
  have view: "gets (view_urls (page_urls_of Map.empty)) =
      gets (overview_urls (page_urls_of Map.empty)) @ [get_request ''http://localhost:8000/registry/peers'', get_request ?u] @
      gets (risk_urls (page_urls_of Map.empty) @ ledger_urls (page_urls_of Map.empty) @ [''http://localhost:8004/health''])"
    by (simp add: view_urls_def gets_def page_urls_of_def getenv_def)
  have sent: "pg_sent (snd idle_view) = pg_sent empty_page @ gets (view_urls (page_urls_of Map.empty))"
    using idle_sent by (simp add: empty_page_def)
  obtain pg' first rest where r: "run_page stalling (\<lambda>_. ()) nan_rng (\<lambda>_. 0) Map.empty first_input empty_page =
      (Inl (OSError ''The read operation timed out''), pg')" "gets (view_urls (page_urls_of Map.empty)) = first @ get_request ?u # rest"
      "get_request ?u \<notin> set first" "pg_sent pg' = first @ [get_request ?u]"
    using one_broken_answer_ends_page [OF run sent, of ?u stalling "OSError ''The read operation timed out''"]
    by (force simp: view stalling_def uncaught_def empty_page_def)
  have "get_request ?u \<notin> set (gets (overview_urls (page_urls_of Map.empty)) @ [get_request ''http://localhost:8000/registry/peers''])"
    by (simp add: gets_def overview_urls_def page_urls_of_def getenv_def get_request_def)
  then have "first = gets (overview_urls (page_urls_of Map.empty)) @ [get_request ''http://localhost:8000/registry/peers'']"
    using r(2,3) unfolding view by (auto simp: append_eq_append_conv2 append_eq_Cons_conv Cons_eq_append_conv)
  then show ?thesis using r(1,4) by (simp add: gets_def overview_urls_def)
qed

end
