(* ===== verification/DiscoveryFlow.thy ===== *)
theory DiscoveryFlow
  imports Services CloudParts Simulator
begin

text \<open>
  \<open>scripts/discovery_flow_demo.py\<close>: the four services behind their endpoints in one process, without
  their runtimes; the script itself finds the peers at the registry and carries the events from one
  to the next. A \<open>TestClient\<close> is a function call: it turns the result of a handler into a status and
  a body, and raises in the script what the handler raised.
\<close>

text \<open>What the script imports and does not change: settings, store and parameters of the services, and for each
  request the clock readings and the random part of the ids made while it is served.\<close>

record 'r apps =
  ap_interval :: int
  ap_px :: pydantic
  ap_forest :: forest
  ap_sdk :: "string \<Rightarrow> string \<Rightarrow> string \<Rightarrow> 'r azure_sdk"
  ap_state_store :: state_store
  ap_ingestion :: service_settings
  ap_anomaly :: service_settings
  ap_risk :: service_settings
  ap_clks :: "nat \<Rightarrow> nat \<Rightarrow> int"
  ap_uuid :: "nat \<Rightarrow> string"

record ('r, 'g) discovery =
  ds_app :: registry_app
  ds_ingestion :: ingestion
  ds_anomaly :: anomaly
  ds_store :: "'r store_state"
  ds_risk :: risk
  ds_simulator :: "'g simulator"
  ds_served :: nat

type_synonym ('r, 'g, 'a) discovery_step = "('r, 'g) discovery \<Rightarrow> (('r, 'g) discovery, 'a) outcome"

section \<open>Clients\<close>

text \<open>With the runtimes off no service sends a request, so what the network would do is of no matter.\<close>

definition no_network :: "unit network" where
  "no_network = \<lparr>net_send = (\<lambda>rq n. (NoReply ''no network'', n)), net_status_text = (\<lambda>n u. '''')\<rparr>"

definition no_world :: "unit world" where
  "no_world = \<lparr>w_net = (), w_trace = []\<rparr>"

definition tested :: "nat \<Rightarrow> json result \<Rightarrow> (nat \<times> json) result" where
  "tested success r = (case r of
     Inr j \<Rightarrow> if json_finite j then Inr (success, j) else Inl (ValueError ''Out of range float values are not JSON compliant'')
   | Inl (HTTPException n m) \<Rightarrow> Inr (n, JObj [(''detail'', JStr m)])
   | Inl e \<Rightarrow> Inl e)"

text \<open>The test client is \<open>httpx\<close> as well: a body that holds an infinity or a NaN is refused before anything is called.\<close>

definition with_body :: "json \<Rightarrow> ('r, 'g, 'a) discovery_step \<Rightarrow> ('r, 'g, 'a) discovery_step" where
  "with_body body call s =
     (if json_finite body then call s else (Inl (ValueError ''Out of range float values are not JSON compliant''), s))"

definition registry_call :: "'r apps \<Rightarrow> registry_request \<Rightarrow> ('r, 'g, nat \<times> json) discovery_step" where
  "registry_call ap req s =
     (case serve (ap_interval ap) (ap_clks ap (ds_served s)) req (ds_app s) of (r, app) \<Rightarrow>
        (tested (success_status req) r, s\<lparr>ds_app := app, ds_served := Suc (ds_served s)\<rparr>))"

definition ingestion_call :: "'r apps \<Rightarrow> ingestion_request \<Rightarrow> ('r, 'g, nat \<times> json) discovery_step" where
  "ingestion_call ap req s =
     (case serve_ingestion no_network (ap_ingestion ap) (ap_px ap) (ap_uuid ap (ds_served s)) (ap_clks ap (ds_served s) 0) req
             (ds_ingestion s, no_world) of (r, (st, w)) \<Rightarrow>
        (tested 200 r, s\<lparr>ds_ingestion := st, ds_served := Suc (ds_served s)\<rparr>))"

definition anomaly_call :: "'r apps \<Rightarrow> anomaly_request \<Rightarrow> ('r, 'g, nat \<times> json) discovery_step" where
  "anomaly_call ap req s =
     (case serve_anomaly (state_store_ops (ap_sdk ap) (ap_state_store ap)) (store_class (ap_state_store ap)) (ap_forest ap)
             no_network (ap_anomaly ap) (ap_px ap) (ap_uuid ap (ds_served s)) (ap_clks ap (ds_served s) 0) req
             (ds_anomaly s, ds_store s, no_world) of (r, (st, store, w)) \<Rightarrow>
        (tested 200 r, s\<lparr>ds_anomaly := st, ds_store := store, ds_served := Suc (ds_served s)\<rparr>))"

definition risk_call :: "'r apps \<Rightarrow> risk_request \<Rightarrow> ('r, 'g, nat \<times> json) discovery_step" where
  "risk_call ap req s =
     (case serve_risk no_network (ap_risk ap) (ap_px ap) (ap_uuid ap (ds_served s)) (ap_clks ap (ds_served s) 0) req
             (ds_risk s, no_world) of (r, (st, w)) \<Rightarrow>
        (tested 200 r, s\<lparr>ds_risk := st, ds_served := Suc (ds_served s)\<rparr>))"

section \<open>Helpers\<close>

definition register_peer_payload :: "'r apps \<Rightarrow> string \<Rightarrow> json \<Rightarrow> ('r, 'g, unit) discovery_step" where
  "register_peer_payload ap node_id payload s =
     bindS (registry_call ap (PostPeer payload) s) (\<lambda>_ s1.
     bindS (registry_call ap (PostHeartbeat node_id (JObj [])) s1) (\<lambda>_ s2. (Inr (), s2)))"

definition first_match :: "string \<Rightarrow> nat \<times> json \<Rightarrow> json result" where
  "first_match capability response =
     (case response of (status, matches) \<Rightarrow>
        if status < 200 \<or> 300 \<le> status then Inl (HttpxError (show_nat status))
        else if \<not> jtruth matches then Inl (RuntimeError (''no peers registered for capability '' @ capability))
        else (case matches of JList js \<Rightarrow> Inr (hd js) | _ \<Rightarrow> Inl (KeyError ''0'')))"

definition first_peer_for_capability :: "'r apps \<Rightarrow> string \<Rightarrow> ('r, 'g, json) discovery_step" where
  "first_peer_for_capability ap capability s =
     bindS (registry_call ap (GetCapability capability) s) (\<lambda>response s1. (first_match capability response, s1))"

text \<open>The answer is not looked at.\<close>

definition append_ledger_block :: "'r apps \<Rightarrow> string \<Rightarrow> string \<Rightarrow> json \<Rightarrow> ('r, 'g, unit) discovery_step" where
  "append_ledger_block ap event_type actor_node payload s =
     bindS (registry_call ap (PostBlock (JObj [(''event_type'', JStr event_type), (''actor_node'', JStr actor_node),
       (''payload'', payload)])) s) (\<lambda>_ s1. (Inr (), s1))"

text \<open>\<open>client_by_base_url\<close>, and a POST of an event to one of its clients; another path is not found.\<close>

datatype demo_client = IngestionClient | AnomalyClient | RiskClient

definition client_by_base_url :: "(string \<times> demo_client) list" where
  "client_by_base_url =
     [(''http://localhost:8001'', IngestionClient), (''http://localhost:8002'', AnomalyClient), (''http://localhost:8003'', RiskClient)]"

definition client_of :: "json \<Rightarrow> demo_client result" where
  "client_of peer = bindR (json_item peer ''base_url'') (\<lambda>u.
     case map_of client_by_base_url (py_str u) of None \<Rightarrow> Inl (KeyError (py_str u)) | Some c \<Rightarrow> Inr c)"

definition no_such_path :: "nat \<times> json" where
  "no_such_path = (404, JObj [(''detail'', JStr ''Not Found'')])"

definition post_analyze :: "'r apps \<Rightarrow> demo_client \<Rightarrow> json \<Rightarrow> ('r, 'g, nat \<times> json) discovery_step" where
  "post_analyze ap c event s =
     (case c of AnomalyClient \<Rightarrow> anomaly_call ap (Analyze event) s | _ \<Rightarrow> (Inr no_such_path, s))"

definition post_risk_event :: "'r apps \<Rightarrow> demo_client \<Rightarrow> json \<Rightarrow> ('r, 'g, nat \<times> json) discovery_step" where
  "post_risk_event ap c event s =
     (case c of RiskClient \<Rightarrow> risk_call ap (PostRiskEvent event) s | _ \<Rightarrow> (Inr no_such_path, s))"

section \<open>The flow\<close>

definition peer_payload :: "string \<Rightarrow> string \<Rightarrow> string \<Rightarrow> string \<Rightarrow> string list \<Rightarrow> json" where
  "peer_payload node_id node_type cloud base_url capabilities =
     JObj [(''node_id'', JStr node_id), (''node_type'', JStr node_type), (''cloud'', JStr cloud), (''base_url'', JStr base_url),
       (''capabilities'', JList (map JStr capabilities))]"

definition discovery_portfolio :: json where
  "discovery_portfolio = JObj [(''portfolio_id'', JStr ''demo_portfolio''),
     (''positions'', JList (map (\<lambda>(symbol, weight). JObj [(''symbol'', JStr symbol), (''weight'', JFloat (fl (weight / 10)))])
        [(''BTCUSD'', 4), (''ETHUSD'', 3), (''AAPL'', 2), (''MSFT'', 1)]))]"

definition discovery_setup :: "'r apps \<Rightarrow> ('r, 'g, unit) discovery_step" where
  "discovery_setup ap s =
     bindS (register_peer_payload ap ''aws-ingestion-01'' (peer_payload ''aws-ingestion-01'' ''ingestion'' ''aws''
       ''http://localhost:8001'' [''ingest_market_data'', ''publish_events'']) s) (\<lambda>_ s1.
     bindS (register_peer_payload ap ''azure-anomaly-01'' (peer_payload ''azure-anomaly-01'' ''anomaly'' ''azure''
       ''http://localhost:8002'' [''detect_anomalies'', ''list_alerts'', ''submit_review_feedback'']) s1) (\<lambda>_ s2.
     bindS (register_peer_payload ap ''gcp-risk-01'' (peer_payload ''gcp-risk-01'' ''risk'' ''gcp''
       ''http://localhost:8003'' [''compute_risk'', ''list_risk_history'', ''store_market_events'']) s2) (\<lambda>_ s3.
     bindS (risk_call ap (PostPortfolio discovery_portfolio) s3) (\<lambda>_ s4. (Inr (), s4)))))"

definition routing_payload :: "json \<Rightarrow> json \<Rightarrow> json \<Rightarrow> json result" where
  "routing_payload event anomaly_peer risk_peer =
     bindR (json_item event ''event_id'') (\<lambda>i.
     bindR (json_item event ''symbol'') (\<lambda>symbol.
     bindR (json_item anomaly_peer ''node_id'') (\<lambda>a.
     bindR (json_item risk_peer ''node_id'') (\<lambda>k.
       Inr (JObj [(''event_id'', i), (''symbol'', symbol), (''anomaly_peer'', a), (''risk_peer'', k)])))))"

text \<open>One message; the result is 1 when an alert was forwarded.\<close>

definition discovery_message :: "'r apps \<Rightarrow> sensor_message \<Rightarrow> ('r, 'g, nat) discovery_step" where
  "discovery_message ap m s =
     bindS (with_body (dump_message m) (ingestion_call ap (PostMessage (dump_message m))) s) (\<lambda>(status, event) s1.
     bindS (first_peer_for_capability ap ''detect_anomalies'' s1) (\<lambda>anomaly_peer s2.
     bindS (bindS (client_of anomaly_peer, s2) (\<lambda>c. post_analyze ap c event)) (\<lambda>(status, alert) s3.
     bindS (first_peer_for_capability ap ''compute_risk'' s3) (\<lambda>risk_peer s4.
     bindS (bindS (client_of risk_peer, s4) (\<lambda>c. post_risk_event ap c event)) (\<lambda>_ s5.
     bindS (bindS (routing_payload event anomaly_peer risk_peer, s5)
              (append_ledger_block ap ''event_routed'' ''aws-ingestion-01'')) (\<lambda>_ s6.
     if alert = JNull then (Inr 0, s6)
     else bindS (append_ledger_block ap ''alert_forwarded'' ''azure-anomaly-01'' alert s6) (\<lambda>_ s7. (Inr 1, s7))))))))"

fun discovery_messages :: "'r apps \<Rightarrow> sensor_message list \<Rightarrow> nat \<Rightarrow> ('r, 'g, nat) discovery_step" where
  "discovery_messages ap [] routed_alerts s = (Inr routed_alerts, s)"
| "discovery_messages ap (m # ms) routed_alerts s =
     bindS (discovery_message ap m s) (\<lambda>k. discovery_messages ap ms (routed_alerts + k))"

text \<open>\<open>for cycle in range(14)\<close>: \<open>n\<close> is the number of cycles left; the simulator's readings are one more row of the clock.\<close>

fun discovery_cycles :: "'r apps \<Rightarrow> 'g rng \<Rightarrow> nat \<Rightarrow> int \<Rightarrow> nat \<Rightarrow> ('r, 'g, nat) discovery_step" where
  "discovery_cycles ap rng 0 cycle routed_alerts s = (Inr routed_alerts, s)"
| "discovery_cycles ap rng (Suc n) cycle routed_alerts s =
     (case generate_cycle rng (ap_clks ap (ds_served s)) None (if cycle = 8 then Some ''BTCUSD'' else None) (ds_simulator s) of
        (Inl e, sim) \<Rightarrow> (Inl e, s\<lparr>ds_simulator := sim\<rparr>)
      | (Inr ms, sim) \<Rightarrow>
          bindS (discovery_messages ap ms routed_alerts (s\<lparr>ds_simulator := sim, ds_served := Suc (ds_served s)\<rparr>))
            (\<lambda>k. discovery_cycles ap rng n (cycle + 1) k))"

definition discovery_summary :: "'r apps \<Rightarrow> nat \<Rightarrow> ('r, 'g, json) discovery_step" where
  "discovery_summary ap routed_alerts s =
     bindS (risk_call ap (PostCompute None) s) (\<lambda>(status, latest_risk) s1.
     bindS (registry_call ap GetPeers s1) (\<lambda>(status, registered) s2.
     bindS (anomaly_call ap ListAlerts s2) (\<lambda>(status, alerts) s3.
     bindS (registry_call ap GetVerify s3) (\<lambda>(status, verification) s4.
     bindS (registry_call ap GetBlocks s4) (\<lambda>(status, bs) s5.
     (bindR (json_len bs) (\<lambda>n. Inr (JObj [(''registered_peers'', registered), (''alerts'', alerts),
        (''routed_alert_count'', JInt (int routed_alerts)), (''risk_snapshot'', latest_risk),
        (''ledger_verification'', verification), (''ledger_block_count'', JInt n)])), s5))))))"

definition discovery_flow :: "'r apps \<Rightarrow> 'g rng \<Rightarrow> ('r, 'g, json) discovery_step" where
  "discovery_flow ap rng s =
     bindS (discovery_setup ap s) (\<lambda>_ s1.
     bindS (discovery_cycles ap rng 14 0 0 s1) (\<lambda>routed_alerts. discovery_summary ap routed_alerts))"

section \<open>The imports\<close>

definition registry_main :: "env \<Rightarrow> path \<Rightarrow> pydantic \<Rightarrow> int \<Rightarrow> fs \<Rightarrow> (int \<times> registry_app) result" where
  "registry_main e cwd px now disk =
     bindR (load_state px now (Some (path_join (getenv e ''QUANTIAN_DATA_DIR'' (path_join cwd ''data/runtime'')) ''registry_service'')) disk)
       (\<lambda>store.
     bindR (ledger_verify_interval e) (\<lambda>interval.
     Inr (interval, \<lparr>app_store = store, app_last_result = JNull, app_last_checked_at = JNull, app_runs = 0, app_failures = 0\<rparr>)))"

text \<open>
  The services imported one after the other, each reading its own part of the disk, after the state of an
  earlier run has been removed.
\<close>

definition import_services ::
    "path \<Rightarrow> env \<Rightarrow> path \<Rightarrow> pydantic \<Rightarrow> forest \<Rightarrow> (string \<Rightarrow> string \<Rightarrow> string \<Rightarrow> 'r azure_sdk) \<Rightarrow> (nat \<Rightarrow> nat \<Rightarrow> int) \<Rightarrow>
       (nat \<Rightarrow> string) \<Rightarrow> int \<Rightarrow> 'g simulator \<Rightarrow> fs \<times> 'r blob_state \<Rightarrow> ('r apps \<times> ('r, 'g) discovery) result" where
  "import_services data_dir e0 cwd px forest sdk clks uuid now sim s0 =
     (case s0 of (disk0, blob) \<Rightarrow>
      let e = e0(''ENABLE_SERVICE_RUNTIME'' \<mapsto> ''false'', ''QUANTIAN_DATA_DIR'' \<mapsto> data_dir);
          disk = (\<lambda>p. if under data_dir p then None else disk0 p) in
      bindR (aws_main e cwd px now disk) (\<lambda>(ingestion_settings, ingestion).
      case azure_main sdk e cwd px now (disk, blob) of
        (Inl x, _) \<Rightarrow> Inl x
      | (Inr (anomaly_settings, store, anomaly), st) \<Rightarrow>
          bindR (gcp_main e cwd px now disk) (\<lambda>(risk_settings, risk).
          bindR (registry_main e cwd px now disk) (\<lambda>(interval, app).
          Inr (\<lparr>ap_interval = interval, ap_px = px, ap_forest = forest, ap_sdk = sdk, ap_state_store = store,
                ap_ingestion = ingestion_settings, ap_anomaly = anomaly_settings, ap_risk = risk_settings,
                ap_clks = clks, ap_uuid = uuid\<rparr>,
               \<lparr>ds_app = app, ds_ingestion = ingestion, ds_anomaly = anomaly, ds_store = st, ds_risk = risk,
                ds_simulator = sim, ds_served = 0\<rparr>)))))"

text \<open>The module level of the script.\<close>

definition discovery_data_dir :: "path \<Rightarrow> path" where
  "discovery_data_dir repo = path_join (path_join repo ''data'') ''test_discovery_flow''"

definition discovery_imports ::
    "path \<Rightarrow> env \<Rightarrow> path \<Rightarrow> pydantic \<Rightarrow> forest \<Rightarrow> (string \<Rightarrow> string \<Rightarrow> string \<Rightarrow> 'r azure_sdk) \<Rightarrow> (nat \<Rightarrow> nat \<Rightarrow> int) \<Rightarrow>
       (nat \<Rightarrow> string) \<Rightarrow> int \<Rightarrow> 'g \<Rightarrow> fs \<times> 'r blob_state \<Rightarrow> ('r apps \<times> ('r, 'g) discovery) result" where
  "discovery_imports repo e0 cwd px forest sdk clks uuid now seed s0 =
     import_services (discovery_data_dir repo) e0 cwd px forest sdk clks uuid now (new_simulator seed) s0"

end
