(* ===== verification/ServiceSmoke.thy ===== *)
theory ServiceSmoke
  imports DiscoveryFlow
begin

text \<open>
  \<open>scripts/service_smoke_test.py\<close>: each service driven once through its endpoints, with the events
  of the ingestion peer handed on to the anomaly and the risk peer, and a summary of the answers.
  The clients are those of the discovery flow; the simulator of that state is not used here.
\<close>

section \<open>Module level\<close>

definition smoke_data_dir :: "path \<Rightarrow> path" where
  "smoke_data_dir repo = path_join (path_join repo ''data'') ''test_service_smoke''"

definition smoke_imports ::
    "path \<Rightarrow> env \<Rightarrow> path \<Rightarrow> pydantic \<Rightarrow> forest \<Rightarrow> (string \<Rightarrow> string \<Rightarrow> string \<Rightarrow> 'r azure_sdk) \<Rightarrow> (nat \<Rightarrow> nat \<Rightarrow> int) \<Rightarrow>
       (nat \<Rightarrow> string) \<Rightarrow> int \<Rightarrow> 'g simulator \<Rightarrow> fs \<times> 'r blob_state \<Rightarrow> ('r apps \<times> ('r, 'g) discovery) result" where
  "smoke_imports repo e0 cwd px forest sdk clks uuid now sim s0 =
     import_services (smoke_data_dir repo) e0 cwd px forest sdk clks uuid now sim s0"

section \<open>The requests\<close>

type_synonym response = "nat \<times> json"

definition smoke_registry :: "'r apps \<Rightarrow> ('r, 'g, response \<times> response \<times> response) discovery_step" where
  "smoke_registry ap s =
     bindS (registry_call ap (PostPeer (peer_payload ''aws-ingestion-01'' ''ingestion'' ''aws'' ''http://localhost:8001''
       [''ingest_market_data'', ''publish_events''])) s) (\<lambda>register_response s1.
     bindS (registry_call ap (PostHeartbeat ''aws-ingestion-01'' (JObj [])) s1) (\<lambda>heartbeat_response s2.
     bindS (registry_call ap (GetCapability ''ingest_market_data'') s2) (\<lambda>capability_response s3.
     (Inr (register_response, heartbeat_response, capability_response), s3))))"

definition message_payload :: "real \<Rightarrow> real \<Rightarrow> json" where
  "message_payload price volume = JObj [(''sensor_id'', JStr ''sensor-btcusd''), (''symbol'', JStr ''BTCUSD''),
     (''asset_class'', JStr ''crypto''), (''price'', JFloat (fl price)), (''volume'', JFloat (fl volume)),
     (''source'', JStr ''smoke-test'')]"

definition smoke_ingestion :: "'r apps \<Rightarrow> ('r, 'g, response \<times> response) discovery_step" where
  "smoke_ingestion ap s =
     bindS (ingestion_call ap (PostMessage (message_payload 71000 185000)) s) (\<lambda>event_one s1.
     bindS (ingestion_call ap (PostMessage (message_payload 78000 305000)) s1) (\<lambda>event_two s2.
     (Inr (event_one, event_two), s2)))"

definition smoke_anomaly :: "'r apps \<Rightarrow> json \<Rightarrow> ('r, 'g, response \<times> response) discovery_step" where
  "smoke_anomaly ap event_two s =
     bindS (anomaly_call ap (Analyze event_two) s) (\<lambda>alert_response s1.
     bindS (anomaly_call ap ListAlerts s1) (\<lambda>alerts_response s2.
     (Inr (alert_response, alerts_response), s2)))"

definition smoke_portfolio :: json where
  "smoke_portfolio = JObj [(''portfolio_id'', JStr ''demo_portfolio''),
     (''positions'', JList [JObj [(''symbol'', JStr ''BTCUSD''), (''weight'', JFloat (fl (6 / 10)))],
        JObj [(''symbol'', JStr ''ETHUSD''), (''weight'', JFloat (fl (4 / 10)))]])]"

definition eth_event :: "string \<Rightarrow> real \<Rightarrow> real \<Rightarrow> real \<Rightarrow> real \<Rightarrow> json" where
  "eth_event event_id price volume price_change volume_change =
     JObj [(''event_id'', JStr event_id), (''symbol'', JStr ''ETHUSD''), (''asset_class'', JStr ''crypto''),
       (''price'', JFloat (fl price)), (''volume'', JFloat (fl volume)), (''source'', JStr ''smoke-test''),
       (''window'', JObj [(''price_change_1m'', JFloat (fl price_change)), (''volume_change_1m'', JFloat (fl volume_change))])]"

definition smoke_risk :: "'r apps \<Rightarrow> json \<Rightarrow> json \<Rightarrow> ('r, 'g, response \<times> response) discovery_step" where
  "smoke_risk ap event_one event_two s =
     bindS (risk_call ap (PostPortfolio smoke_portfolio) s) (\<lambda>portfolio_response s1.
     bindS (risk_call ap (PostRiskEvent (eth_event ''evt_eth_1'' 3200 120000 0 0)) s1) (\<lambda>_ s2.
     bindS (risk_call ap (PostRiskEvent (eth_event ''evt_eth_2'' 3340 180000 (4375 / 100000) (1 / 2))) s2) (\<lambda>_ s3.
     bindS (risk_call ap (PostRiskEvent event_one) s3) (\<lambda>_ s4.
     bindS (risk_call ap (PostRiskEvent event_two) s4) (\<lambda>_ s5.
     bindS (risk_call ap (PostCompute None) s5) (\<lambda>compute_response s6.
     (Inr (portfolio_response, compute_response), s6)))))))"

section \<open>The summary\<close>

definition smoke_part :: "(string \<times> json) list \<Rightarrow> (string \<times> json result) list \<Rightarrow> json result" where
  "smoke_part known counted = bindR (mapR (\<lambda>(k, r). bindR r (\<lambda>j. Inr (k, j))) counted) (\<lambda>d. Inr (JObj (known @ d)))"

definition len_of :: "json \<Rightarrow> json result" where
  "len_of j = bindR (json_len j) (\<lambda>n. Inr (JInt n))"

definition status_of :: "response \<Rightarrow> json" where
  "status_of response = JInt (int (fst response))"

definition smoke_test :: "'r apps \<Rightarrow> ('r, 'g, json) discovery_step" where
  "smoke_test ap s =
     bindS (smoke_registry ap s) (\<lambda>(register_response, heartbeat_response, capability_response) s1.
     bindS (smoke_ingestion ap s1) (\<lambda>(event_one, event_two) s2.
     bindS (smoke_anomaly ap (snd event_two) s2) (\<lambda>(alert_response, alerts_response) s3.
     bindS (smoke_risk ap (snd event_one) (snd event_two) s3) (\<lambda>(portfolio_response, compute_response) s4.
     bindS (registry_call ap GetVerify s4) (\<lambda>ledger_response s5.
     bindS (smoke_part [(''register_status'', status_of register_response), (''heartbeat_status'', status_of heartbeat_response)]
              [(''capability_matches'', len_of (snd capability_response))], s5) (\<lambda>registry s6.
     bindS (ingestion_call ap (RecentEvents None) s6) (\<lambda>recent s7.
     (bindR (smoke_part [(''first_event_status'', status_of event_one), (''second_event_status'', status_of event_two)]
              [(''recent_events'', len_of (snd recent))]) (\<lambda>ingestion.
      bindR (smoke_part [(''analyze_status'', status_of alert_response), (''alert_returned'', JBool (snd alert_response \<noteq> JNull))]
              [(''stored_alerts'', len_of (snd alerts_response))]) (\<lambda>anomaly.
      Inr (JObj [(''registry'', registry), (''ingestion'', ingestion), (''anomaly'', anomaly),
        (''risk'', JObj [(''portfolio_status'', status_of portfolio_response), (''compute_status'', status_of compute_response),
           (''latest_snapshot'', snd compute_response)]),
        (''ledger'', snd ledger_response)]))), s7))))))))"

end
