(* ===== verification/DiscoveryFlowSpec.thy ===== *)
theory DiscoveryFlowSpec
  imports DiscoveryFlow ServicesSpec SimulatorSpec
begin

text \<open>
  The flow through the endpoints keeps the books: whatever the services answer, the ledger verifies at
  the end, and when the flow returns the ledger has two blocks per registered peer, one per message and
  one per alert that was forwarded, and the summary says so.
\<close>

section \<open>Steps that keep the registry in order\<close>

definition flow_ok :: "('r, 'g) discovery \<Rightarrow> bool" where
  "flow_ok s \<longleftrightarrow> registry_inv (app_store (ds_app s)) \<and> simulator_ok (ds_simulator s) \<and> length (si_state (ds_simulator s)) = 4"

definition book :: "('r, 'g) discovery \<Rightarrow> nat" where
  "book s = length (rg_ledger (app_store (ds_app s)))"

text \<open>\<open>adds R f\<close>: the step keeps the state in order, and when it returns \<open>x\<close> it has added \<open>n\<close> blocks with \<open>R x n\<close>.\<close>

definition adds :: "('a \<Rightarrow> nat \<Rightarrow> bool) \<Rightarrow> ('r, 'g, 'a) discovery_step \<Rightarrow> bool" where
  "adds R f \<longleftrightarrow> (\<forall>s r s'. flow_ok s \<longrightarrow> f s = (r, s') \<longrightarrow>
     flow_ok s' \<and> (\<forall>x. r = Inr x \<longrightarrow> (\<exists>n. book s' = book s + n \<and> R x n)))"

lemma addsI:
  assumes "\<And>s r s'. flow_ok s \<Longrightarrow> f s = (r, s') \<Longrightarrow>
     flow_ok s' \<and> (\<forall>x. r = Inr x \<longrightarrow> (\<exists>n. book s' = book s + n \<and> R x n))"
  shows "adds R f"
  using assms unfolding adds_def by blast

lemma addsD:
  fixes f :: "('r, 'g, 'a) discovery_step" and s :: "('r, 'g) discovery"
  assumes "adds R f" "flow_ok s" "f s = (r, s')"
  shows "flow_ok s'" "r = Inr x \<Longrightarrow> \<exists>n. book s' = book s + n \<and> R x n"
  using assms unfolding adds_def by blast+

lemma adds_bind:
  fixes f :: "('r, 'g, 'a) discovery_step" and g :: "'a \<Rightarrow> ('r, 'g, 'b) discovery_step"
  assumes "adds R f" and "\<And>x n. R x n \<Longrightarrow> adds (\<lambda>y m. Q y (n + m)) (g x)"
  shows "adds Q (\<lambda>s. bindS (f s) g)"
proof (rule addsI)
  fix s r s' assume s: "flow_ok s" and run: "bindS (f s) g = (r, s')"
  obtain q s1 where f: "f s = (q, s1)" by (metis surj_pair)
  note first = addsD [OF assms(1) s f]
  show "flow_ok s' \<and> (\<forall>x. r = Inr x \<longrightarrow> (\<exists>n. book s' = book s + n \<and> Q x n))"
  proof (cases q)
    case (Inl e)
    then show ?thesis using run f first(1) by auto
  next
    case (Inr x)
    then have g: "g x s1 = (r, s')" using run f by simp
    obtain n where n: "book s1 = book s + n" "R x n" using first(2) [OF Inr] by blast
    from addsD [OF assms(2) [OF n(2)] first(1) g] n(1) show ?thesis by (metis add.assoc)
  qed
qed

lemma adds_weaken: "adds R f \<Longrightarrow> (\<And>x n. R x n \<Longrightarrow> Q x n) \<Longrightarrow> adds Q f"
  unfolding adds_def by blast

lemma adds_return: "R x 0 \<Longrightarrow> adds R (\<lambda>s. (Inr x, s))"
  by (rule addsI) auto

lemma adds_result: "(\<And>x. r = Inr x \<Longrightarrow> R x 0) \<Longrightarrow> adds R (\<lambda>s. (r, s))"
  by (rule addsI) auto

section \<open>The registry's answers\<close>

lemma serve_keeps: "registry_inv (app_store app) \<Longrightarrow> registry_inv (app_store (snd (serve interval clk req app)))"
proof -
  assume inv: "registry_inv (app_store app)"
  have "registry_inv st \<Longrightarrow> registry_inv st'" if "registry_op\<^sup>*\<^sup>* st st'" for st st'
    using that by (induction rule: rtranclp_induct) (auto dest: registry_op_inv)
  then show ?thesis using serve_moves inv by blast
qed

lemma registry_call_ok: "flow_ok s \<Longrightarrow> flow_ok (snd (registry_call ap req s))"
  by (simp add: flow_ok_def registry_call_def serve_keeps split_beta)

text \<open>The questions that only read.\<close>

lemma registry_reads:
  assumes "req \<in> {GetPeers, GetVerify, GetBlocks} \<union> range GetCapability"
  shows "adds (\<lambda>x n. n = 0) (registry_call ap req)"
proof (rule addsI)
  fix s r s' assume s: "flow_ok s" and run: "registry_call ap req s = (r, s')"
  have "ds_app s' = ds_app s" using run assms by (auto simp: registry_call_def)
  then show "flow_ok s' \<and> (\<forall>x. r = Inr x \<longrightarrow> (\<exists>n. book s' = book s + n \<and> n = 0))"
    using registry_call_ok [OF s, of ap req] run by (simp add: book_def)
qed

lemma calls_quiet:
  "adds (\<lambda>x n. n = 0) (ingestion_call ap ireq)" "adds (\<lambda>x n. n = 0) (risk_call ap rreq)" "adds (\<lambda>x n. n = 0) (anomaly_call ap areq)"
  by (rule addsI; auto simp: ingestion_call_def risk_call_def anomaly_call_def flow_ok_def book_def split: prod.splits)+

lemma analyze_answer:
  assumes "post_analyze ap c event s = (Inr (status, alert), s')"
  shows "alert = JNull \<or> (\<exists>d. alert = JObj d)"
proof (cases c)
  case AnomalyClient
  let ?r = "fst (serve_anomaly (state_store_ops (ap_sdk ap) (ap_state_store ap)) (store_class (ap_state_store ap)) (ap_forest ap)
      no_network (ap_anomaly ap) (ap_px ap) (ap_uuid ap (ds_served s)) (ap_clks ap (ds_served s) 0) (Analyze event)
      (ds_anomaly s, ds_store s, no_world))"
  have "tested 200 ?r = Inr (status, alert)"
    using assms AnomalyClient by (auto simp: post_analyze_def anomaly_call_def split: prod.splits)
  moreover have "\<And>j. ?r = Inr j \<Longrightarrow> j = JNull \<or> (\<exists>x. j = dump_alert x)"
    by (auto simp: map_outcome_def split: prod.splits sum.splits option.splits)
  ultimately show ?thesis by (auto simp: tested_def dump_alert_def split: sum.splits if_splits py_exc.splits)
qed (use assms in \<open>auto simp: post_analyze_def no_such_path_def\<close>)

lemma post_analyze_adds: "adds (\<lambda>(status, alert) n. n = 0 \<and> (alert = JNull \<or> (\<exists>d. alert = JObj d))) (post_analyze ap c event)"
proof (rule addsI)
  fix s r s' assume s: "flow_ok s" and run: "post_analyze ap c event s = (r, s')"
  have "adds (\<lambda>x n. n = 0) (post_analyze ap c event)"
    using calls_quiet(3) by (cases c) (auto simp: post_analyze_def [abs_def] intro: adds_return)
  from addsD [OF this s run]
  show "flow_ok s' \<and> (\<forall>x. r = Inr x \<longrightarrow> (\<exists>n. book s' = book s + n \<and>
      (case x of (status, alert) \<Rightarrow> \<lambda>n. n = 0 \<and> (alert = JNull \<or> (\<exists>d. alert = JObj d))) n))"
    using run by (auto dest: analyze_answer)
qed

lemma post_risk_event_adds: "adds (\<lambda>x n. n = 0) (post_risk_event ap c event)"
  using calls_quiet(2) by (cases c) (auto simp: post_risk_event_def [abs_def] intro: adds_return)

lemma first_peer_adds: "adds (\<lambda>x n. n = 0) (first_peer_for_capability ap capability)"
  unfolding first_peer_for_capability_def [abs_def]
  by (rule adds_bind [OF registry_reads]) (auto intro: adds_result)

section \<open>What is written\<close>

lemma append_adds:
  assumes "str_between 3 128 event_type" "str_between 3 128 actor" "payload = JObj d"
  shows "adds (\<lambda>x n. n = 1) (append_ledger_block ap event_type actor payload)"
proof (rule addsI)
  fix s r s' assume s: "flow_ok s" and run: "append_ledger_block ap event_type actor payload s = (r, s')"
  let ?req = "PostBlock (JObj [(''event_type'', JStr event_type), (''actor_node'', JStr actor), (''payload'', payload)])"
  have v: "validate_ledger_request (JObj [(''event_type'', JStr event_type), (''actor_node'', JStr actor), (''payload'', JObj d)]) =
      Some \<lparr>lr_event_type = event_type, lr_actor_node = actor, lr_payload = d\<rparr>"
    using assms(1,2) by (simp add: validate_ledger_request_def reader_simps ledger_request_ok_def Let_def)
  have "s' = snd (registry_call ap ?req s)"
    using run by (auto simp: append_ledger_block_def bindS_def split: prod.splits sum.splits)
  moreover have "book (snd (registry_call ap ?req s)) = Suc (book s)"
    using v assms(3) by (simp add: registry_call_def book_def split_beta)
  ultimately show "flow_ok s' \<and> (\<forall>x. r = Inr x \<longrightarrow> (\<exists>n. book s' = book s + n \<and> n = 1))"
    using registry_call_ok [OF s, of ap ?req] by simp
qed

lemma register_adds:
  assumes "\<And>t. \<exists>p. validate_peer t payload = Some p \<and> pr_node_id p = node_id"
  shows "adds (\<lambda>x n. n = 2) (register_peer_payload ap node_id payload)"
proof (rule addsI)
  fix s r s' assume s: "flow_ok s" and run: "register_peer_payload ap node_id payload s = (r, s')"
  let ?clk = "ap_clks ap (ds_served s)" and ?app = "ds_app s"
  obtain p where p: "validate_peer (utc_now (?clk 0)) payload = Some p" "pr_node_id p = node_id" using assms by blast
  have n: "str_between 3 128 node_id" using validate_peer_ok [OF p(1)] p(2) by (simp add: peer_ok_def)
  let ?s1 = "snd (registry_call ap (PostPeer payload) s)"
  have one: "map_of (rg_peers (app_store (ds_app ?s1))) node_id \<noteq> None" "book ?s1 = Suc (book s)"
    using p n by (simp_all add: registry_call_def register_peer_def mk_request_ok book_def split_beta map_outcome_def)
  have hb: "validate_heartbeat t (JObj []) = Some \<lparr>hb_status = Online, hb_observed_at = t\<rparr>" for t
    by (simp add: validate_heartbeat_def reader_simps)
  let ?s2 = "snd (registry_call ap (PostHeartbeat node_id (JObj [])) ?s1)"
  have two: "book ?s2 = Suc (book ?s1)"
    using one(1) n by (auto simp: registry_call_def peer_heartbeat_ep_def heartbeat_def hb mk_request_ok book_def split_beta map_outcome_def
      Let_def split: option.splits)
  have ok: "flow_ok ?s1" "flow_ok ?s2" using registry_call_ok s by blast+
  have "s' = ?s1 \<and> isl r \<or> s' = ?s2"
    using run by (auto simp: register_peer_payload_def bindS_def split: prod.splits sum.splits)
  then show "flow_ok s' \<and> (\<forall>x. r = Inr x \<longrightarrow> (\<exists>n. book s' = book s + n \<and> n = 2))"
    using ok one(2) two by auto
qed

section \<open>The flow\<close>

lemma adds_answer:
  "(\<And>x. r = Inr x \<Longrightarrow> adds R (f x)) \<Longrightarrow> adds R (\<lambda>s. bindS (r, s) f)"
  by (cases r) (auto intro: adds_result)

lemma adds_with_body: "adds R f \<Longrightarrow> adds R (with_body body f)"
  by (rule addsI) (auto simp: with_body_def dest: addsD split: if_splits)

lemma discovery_message_adds: "adds (\<lambda>k n. n = 1 + k \<and> k \<le> 1) (discovery_message ap m)"
proof -
  have forwarded: "adds (\<lambda>k n. 1 + n = 1 + k \<and> k \<le> 1) (\<lambda>s6. if alert = JNull then (Inr 0, s6)
     else bindS (append_ledger_block ap ''alert_forwarded'' ''azure-anomaly-01'' alert s6) (\<lambda>_ s7. (Inr 1, s7)))"
    if shape: "alert = JNull \<or> (\<exists>d. alert = JObj d)" for alert
  proof (cases "alert = JNull")
    case True
    then show ?thesis by (auto intro: adds_return)
  next
    case False
    then obtain d where "alert = JObj d" using shape by blast
    then have "adds (\<lambda>x n. n = 1) (append_ledger_block ap ''alert_forwarded'' ''azure-anomaly-01'' alert)"
      by (intro append_adds) (simp_all add: str_between_def)
    then show ?thesis using False by (auto intro!: adds_bind adds_return)
  qed
  have routed: "adds (\<lambda>x n. n = 1) (\<lambda>s5. bindS (routing_payload event a k, s5) (append_ledger_block ap ''event_routed'' ''aws-ingestion-01''))"
    for event a k
  proof (rule adds_answer)
    fix x assume "routing_payload event a k = Inr x"
    then obtain d where "x = JObj d" by (auto simp: routing_payload_def bindR_Inr_iff)
    then show "adds (\<lambda>x n. n = 1) (append_ledger_block ap ''event_routed'' ''aws-ingestion-01'' x)"
      by (intro append_adds) (simp_all add: str_between_def)
  qed
  have risk: "adds (\<lambda>x n. n = 0) (\<lambda>s4. bindS (client_of k, s4) (\<lambda>c. post_risk_event ap c event))" for k event
    by (rule adds_answer) (rule post_risk_event_adds)
  have analyzed: "adds (\<lambda>(status, alert) n. n = 0 \<and> (alert = JNull \<or> (\<exists>d. alert = JObj d)))
      (\<lambda>s2. bindS (client_of a, s2) (\<lambda>c. post_analyze ap c event))" for a event
    by (rule adds_answer) (rule post_analyze_adds)
  show ?thesis
    unfolding discovery_message_def [abs_def]
    apply (rule adds_bind [OF adds_with_body [OF calls_quiet(1)]])
    apply (clarsimp split: prod.split)
    apply (rule adds_bind [OF first_peer_adds])
    apply (rule adds_bind [OF analyzed])
    apply (clarsimp split: prod.splits)
    apply (rule adds_bind [OF first_peer_adds])
    apply (rule adds_bind [OF risk])
    apply (rule adds_bind [OF routed])
    using forwarded by auto
qed

lemma discovery_messages_adds:
  "adds (\<lambda>k n. \<exists>j. k = routed + j \<and> n = length ms + j) (discovery_messages ap ms routed)"
proof (induction ms arbitrary: routed)
  case Nil
  show ?case unfolding discovery_messages.simps [abs_def] by (rule adds_return) simp
next
  case (Cons m ms)
  show ?case
    unfolding discovery_messages.simps [abs_def]
    by (rule adds_bind [OF discovery_message_adds], rule adds_weaken [OF Cons.IH]) auto
qed

lemma discovery_cycles_adds:
  "adds (\<lambda>k n. \<exists>j. k = routed + j \<and> n = 4 * N + j) (discovery_cycles ap rng N cycle routed)"
proof (induction N arbitrary: cycle routed)
  case 0
  show ?case unfolding discovery_cycles.simps [abs_def] by (rule adds_return) simp
next
  case (Suc N)
  show ?case
  proof (rule addsI)
    fix s r s' assume s: "flow_ok s" and run: "discovery_cycles ap rng (Suc N) cycle routed s = (r, s')"
    let ?a = "if cycle = 8 then Some ''BTCUSD'' else None"
    obtain ms sim where ms: "generate_cycle rng (ap_clks ap (ds_served s)) None ?a (ds_simulator s) = (Inr ms, sim)"
        "map sm_symbol ms = selected None (ds_simulator s)" "simulator_ok sim"
        "dict_keys (si_state sim) = dict_keys (si_state (ds_simulator s))"
      using generate_cycle_known [of "ds_simulator s" None rng "ap_clks ap (ds_served s)" ?a] s by (auto simp: selected_def flow_ok_def)
    have four: "length ms = 4" "length (si_state sim) = 4"
      using arg_cong [OF ms(2), of length] arg_cong [OF ms(4), of length] s by (simp_all add: selected_def dict_keys_def flow_ok_def)
    let ?s = "s\<lparr>ds_simulator := sim, ds_served := Suc (ds_served s)\<rparr>"
    have ok: "flow_ok ?s" using s ms(3) four(2) by (simp add: flow_ok_def)
    have "adds (\<lambda>k n. \<exists>j. k = routed + j \<and> n = 4 * Suc N + j)
        (\<lambda>s. bindS (discovery_messages ap ms routed s) (\<lambda>k. discovery_cycles ap rng N (cycle + 1) k))"
    proof (rule adds_bind [OF discovery_messages_adds])
      fix k n assume "\<exists>j. k = routed + j \<and> n = length ms + j"
      then show "adds (\<lambda>y m. \<exists>j. y = routed + j \<and> n + m = 4 * Suc N + j) (discovery_cycles ap rng N (cycle + 1) k)"
        using four(1) by (intro adds_weaken [OF Suc.IH]) auto
    qed
    from addsD [OF this ok, of r s'] run ms(1) show "flow_ok s' \<and> (\<forall>x. r = Inr x \<longrightarrow>
        (\<exists>n. book s' = book s + n \<and> (\<exists>j. x = routed + j \<and> n = 4 * Suc N + j)))"
      by (simp add: book_def)
  qed
qed

lemma payload_ok:
  assumes "str_between 3 128 n" "str_between 3 64 t" "c \<in> set cloud_names" "str_between 1 512 u"
  shows "\<exists>p. validate_peer now (peer_payload n t c u caps) = Some p \<and> pr_node_id p = n"
  using assms by (simp add: validate_peer_def peer_payload_def reader_simps peer_ok_def peer_fields_def Let_def)

lemma discovery_setup_adds: "adds (\<lambda>x n. n = 6) (discovery_setup ap)"
proof -
  have reg: "adds (\<lambda>x n. n = 2) (register_peer_payload ap n (peer_payload n t c u caps))"
    if "str_between 3 128 n" "str_between 3 64 t" "c \<in> set cloud_names" "str_between 1 512 u" for n t c u caps
    by (rule register_adds) (rule payload_ok [OF that])
  show ?thesis
    unfolding discovery_setup_def [abs_def]
    by (rule adds_bind [OF reg], simp_all add: str_between_def cloud_names_def)
      (rule adds_bind [OF reg], simp_all add: str_between_def cloud_names_def,
       rule adds_bind [OF reg], simp_all add: str_between_def cloud_names_def,
       rule adds_bind [OF calls_quiet(2)], auto intro: adds_return)
qed

lemma summary_answers:
  assumes "discovery_summary ap k s = (Inr summary, s')"
  shows "ds_app s' = ds_app s" "json_item summary ''routed_alert_count'' = Inr (JInt (int k))"
    "json_item summary ''ledger_verification'' = Inr (dump_verification (verify_ledger (app_store (ds_app s))))"
    "json_item summary ''ledger_block_count'' = Inr (JInt (int (book s)))"
proof -
  obtain a s1 where 1: "risk_call ap (PostCompute None) s = (Inr a, s1)"
    using assms by (auto simp: discovery_summary_def bindS_def split: prod.splits sum.splits)
  obtain b s2 where 2: "registry_call ap GetPeers s1 = (Inr b, s2)"
    using assms 1 by (auto simp: discovery_summary_def bindS_def split: prod.splits sum.splits)
  obtain c s3 where 3: "anomaly_call ap ListAlerts s2 = (Inr c, s3)"
    using assms 1 2 by (auto simp: discovery_summary_def bindS_def split: prod.splits sum.splits)
  have app: "ds_app s1 = ds_app s" "ds_app s2 = ds_app s1" "ds_app s3 = ds_app s2"
    using 1 2 3 by (auto simp: risk_call_def registry_call_def anomaly_call_def split: prod.splits)
  have ver: "registry_call ap GetVerify s3 = (Inr (200, dump_verification (verify_ledger (app_store (ds_app s)))),
      s3\<lparr>ds_served := Suc (ds_served s3)\<rparr>)"
    using app by (simp add: registry_call_def tested_def dump_verification_def jopt_str_def split: option.splits)
  have fin: "json_finite (dump_block x)" for x by (simp add: dump_block_def jopt_str_def split: option.splits)
  have blk: "registry_call ap GetBlocks (s3\<lparr>ds_served := Suc (ds_served s3)\<rparr>) =
      (Inr (200, JList (map dump_block (rg_ledger (app_store (ds_app s))))), s3\<lparr>ds_served := Suc (Suc (ds_served s3))\<rparr>)"
    using app fin by (simp add: registry_call_def tested_def list_blocks_def list_all_iff)
  show "ds_app s' = ds_app s" "json_item summary ''routed_alert_count'' = Inr (JInt (int k))"
    "json_item summary ''ledger_verification'' = Inr (dump_verification (verify_ledger (app_store (ds_app s))))"
    "json_item summary ''ledger_block_count'' = Inr (JInt (int (book s)))"
    using assms 1 2 3 ver blk app
    by (auto simp: discovery_summary_def json_len_def book_def split: prod.splits)
qed

text \<open>
  C35. However the flow ends, the ledger verifies. When it returns, it has six more blocks for the three
  peers (registration and heartbeat), one for each of the 56 messages of the 14 cycles, and one for each
  alert that was forwarded; the summary gives these numbers and the verdict.
\<close>

theorem discovery_flow_accounts:
  assumes "registry_inv (app_store (ds_app s))" and "simulator_ok (ds_simulator s)" and "length (si_state (ds_simulator s)) = 4"
  shows "case discovery_flow ap rng s of (r, s') \<Rightarrow>
    vr_valid (verify_ledger (app_store (ds_app s'))) \<and>
    (\<forall>summary. r = Inr summary \<longrightarrow> (\<exists>forwarded.
       book s' = book s + 6 + 56 + forwarded \<and>
       json_item summary ''routed_alert_count'' = Inr (JInt (int forwarded)) \<and>
       json_item summary ''ledger_block_count'' = Inr (JInt (int (book s'))) \<and>
       json_item summary ''ledger_verification'' = Inr (dump_verification (verify_ledger (app_store (ds_app s'))))))"
proof -
  have valid: "flow_ok x \<Longrightarrow> vr_valid (verify_ledger (app_store (ds_app x)))" for x :: "('a, 'b) discovery"
    by (simp add: flow_ok_def registry_inv_def verify_ledger_valid)
  have ok: "flow_ok s" using assms by (simp add: flow_ok_def)
  let ?before = "\<lambda>s. bindS (discovery_setup ap s) (\<lambda>_. discovery_cycles ap rng 14 0 0)"
  have before: "adds (\<lambda>k n. n = 62 + k) ?before"
    by (rule adds_bind [OF discovery_setup_adds], rule adds_weaken [OF discovery_cycles_adds]) auto
  obtain r1 s1 where 1: "?before s = (r1, s1)" by (metis surj_pair)
  note first = addsD [OF before ok 1]
  have flow: "discovery_flow ap rng s = bindS (r1, s1) (discovery_summary ap)"
    using 1 by (auto simp: discovery_flow_def bindS_def split: prod.splits sum.splits)
  show ?thesis
  proof (cases r1)
    case (Inl e)
    then show ?thesis using flow valid [OF first(1)] by simp
  next
    case (Inr k)
    obtain r2 s2 where 2: "discovery_summary ap k s1 = (r2, s2)" by (metis surj_pair)
    have "adds (\<lambda>x n. n = 0) (discovery_summary ap k)"
      unfolding discovery_summary_def [abs_def]
      by (rule adds_bind [OF calls_quiet(2)], clarsimp split: prod.split, rule adds_bind [OF registry_reads], simp,
          clarsimp split: prod.split, rule adds_bind [OF calls_quiet(3)], clarsimp split: prod.split,
          rule adds_bind [OF registry_reads], simp, clarsimp split: prod.split, rule adds_bind [OF registry_reads], simp,
          clarsimp split: prod.split, rule adds_result) simp
    from addsD [OF this first(1) 2] have ok2: "flow_ok s2" by blast
    obtain n where n: "book s1 = book s + (62 + k)" using first(2) [OF Inr] by auto
    show ?thesis
    proof (cases r2)
      case (Inl e)
      then show ?thesis using flow Inr 2 valid [OF ok2] by simp
    next
      case summary: (Inr summary)
      note a = summary_answers [OF 2 [unfolded summary]]
      have "book s2 = book s1" using a(1) by (simp add: book_def)
      then show ?thesis using flow Inr 2 summary valid [OF ok2] a n by auto
    qed
  qed
qed

text \<open>The services as they are after a start without state files.\<close>

definition plain_apps :: "unit apps" where
  "plain_apps = \<lparr>ap_interval = 60, ap_px = strict_pydantic, ap_forest = None,
     ap_sdk = (\<lambda>connection container blob. \<lparr>sdk_installed = False, sdk_create_container = (\<lambda>r. (None, r)),
       sdk_download = (\<lambda>r. (Inl ResourceNotFound, r)), sdk_upload = (\<lambda>j r. (None, r))\<rparr>),
     ap_state_store = FileJsonStateStore None, ap_ingestion = demo_settings\<lparr>ss_enable_runtime := False\<rparr>,
     ap_anomaly = demo_settings\<lparr>ss_enable_runtime := False\<rparr>, ap_risk = demo_settings\<lparr>ss_enable_runtime := False\<rparr>,
     ap_clks = (\<lambda>k i. unix_epoch + 1000000 * int k + int i), ap_uuid = (\<lambda>k. show_nat k)\<rparr>"

definition plain_discovery :: "(unit, unit) discovery" where
  "plain_discovery = \<lparr>
     ds_app = \<lparr>app_store = registry_init None, app_last_result = JNull, app_last_checked_at = JNull, app_runs = 0, app_failures = 0\<rparr>,
     ds_ingestion = \<lparr>in_node_id = aws_node, in_state_path = None, in_raw_messages = [], in_events = [],
       in_last_message = [], in_forwarded_events = 0, in_routing_failures = 0, in_fs = Map.empty\<rparr>,
     ds_anomaly = \<lparr>an_node_id = azure_node, an_alert_threshold = default_alert_threshold,
       an_history_window = default_history_window, an_history = [], an_alerts = []\<rparr>,
     ds_store = (Map.empty, \<lparr>bl_client = False, bl_remote = ()\<rparr>),
     ds_risk = \<lparr>rk_node_id = gcp_node, rk_state_path = None, rk_auto_compute = True, rk_events = [], rk_portfolio = None,
       rk_snapshots = [], rk_fs = Map.empty\<rparr>,
     ds_simulator = new_simulator (), ds_served = 0\<rparr>"

theorem discovery_flow_accounts_witness:
  "case discovery_flow plain_apps nan_rng plain_discovery of (r, s') \<Rightarrow>
     vr_valid (verify_ledger (app_store (ds_app s'))) \<and>
     (\<forall>summary. r = Inr summary \<longrightarrow> (\<exists>forwarded. book s' = 62 + forwarded))"
proof -
  have "registry_inv (app_store (ds_app plain_discovery))" "simulator_ok (ds_simulator plain_discovery)"
    "length (si_state (ds_simulator plain_discovery)) = 4" "book plain_discovery = 0"
    using registry_init_inv new_simulator_ok
    by (simp_all add: plain_discovery_def book_def) (simp_all add: new_simulator_def registry_init_def)
  then show ?thesis
    using discovery_flow_accounts [of plain_discovery plain_apps nan_rng] by auto
qed

end
