(* ===== verification/ServiceSmokeSpec.thy ===== *)
theory ServiceSmokeSpec
  imports ServiceSmoke DiscoveryFlowSpec
begin

text \<open>
  The smoke test passes: started on the services it imports, in any environment that keeps the state in
  files, whatever an earlier run left on the disk, whatever the random parts of the ids and whatever
  scikit-learn would say, every request succeeds and the summary holds the numbers one expects.
\<close>

section \<open>Sizes of rounding errors\<close>

lemma rnd_near: "\<bar>x\<bar> \<le> 1000000 \<Longrightarrow> \<bar>rnd x - x\<bar> \<le> 1 / 2 ^ 32"
proof -
  assume x: "\<bar>x\<bar> \<le> 1000000"
  have "\<bar>x\<bar> / 2 ^ 53 \<le> 1000000 / 2 ^ 53" using x by (intro divide_right_mono) simp_all
  then have "\<bar>rnd x - x\<bar> \<le> 1000000 / 2 ^ 53 + 1 / 2 ^ 60" using rnd_error [of x] tiny_unit by linarith
  then show ?thesis by simp
qed

lemma round_close:
  assumes "\<bar>r - x\<bar> \<le> 1 / 2 ^ 28" "\<bar>x * 1000000 - of_int m\<bar> \<le> 99 / 200"
  shows "round_nd 6 (Fin r) = fl (of_int m / 1000000)"
proof -
  have "\<bar>r * 1000000 - of_int m\<bar> \<le> \<bar>r - x\<bar> * 1000000 + \<bar>x * 1000000 - of_int m\<bar>" by (simp add: abs_le_iff abs_if)
  also have "\<dots> \<le> 1 / 2 ^ 28 * 1000000 + 99 / 200" using assms by (intro add_mono mult_right_mono) simp_all
  also have "\<dots> < 1 / 2" by simp
  finally have "half_even (r * 1000000) = m" by (rule half_even_eq)
  then show ?thesis by simp
qed

lemma near_weaken: "\<bar>r - x\<bar> \<le> 1 / 2 ^ 32 \<Longrightarrow> \<bar>r - x\<bar> \<le> 1 / (2::real) ^ 28"
  by simp

section \<open>The registry\<close>

definition expected_peer :: "string \<Rightarrow> peer_registration" where
  "expected_peer t = \<lparr>pr_node_id = ''aws-ingestion-01'', pr_node_type = ''ingestion'', pr_cloud = ''aws'',
     pr_base_url = ''http://localhost:8001'', pr_capabilities = [''ingest_market_data'', ''publish_events''],
     pr_status = Online, pr_last_heartbeat = t, pr_metadata = [], pr_extra = []\<rparr>"

lemma validate_expected_peer:
  "validate_peer t (peer_payload ''aws-ingestion-01'' ''ingestion'' ''aws'' ''http://localhost:8001''
     [''ingest_market_data'', ''publish_events'']) = Some (expected_peer t)"
  by (simp add: validate_peer_def peer_payload_def reader_simps peer_ok_def peer_fields_def Let_def expected_peer_def
      str_between_def cloud_names_def)

lemma tested_ok: "json_finite j \<Longrightarrow> tested n (Inr j) = Inr (n, j)"
  by (simp add: tested_def)

lemma dump_peer_finite: "json_finite (dump_peer (expected_peer t))"
  by (simp add: dump_peer_def expected_peer_def)

lemma serve_post_peer:
  assumes "validate_peer (utc_now (clk 0)) body = Some p" "str_between 3 128 (pr_node_id p)"
  shows "\<exists>lr. serve interval clk (PostPeer body) app =
    (Inr (dump_peer (p\<lparr>pr_status := Online, pr_last_heartbeat := utc_now (clk 1)\<rparr>)),
     app\<lparr>app_store := snd (append_block (clk 2) lr (snd (upsert_peer (clk 1) p (app_store app))))\<rparr>)"
  using assms by (auto simp: register_peer_def mk_request_ok map_outcome_def split_beta numeral_2_eq_2)

lemma serve_post_heartbeat:
  assumes "map_of (rg_peers (app_store app)) k = Some p" "str_between 3 128 k"
  shows "\<exists>lr. serve interval clk (PostHeartbeat k (JObj [])) app =
    (Inr (dump_peer (p\<lparr>pr_status := Online, pr_last_heartbeat := utc_now (clk 0)\<rparr>)),
     app\<lparr>app_store := snd (append_block (clk 1) lr (save_state ((app_store app)
       \<lparr>rg_peers := dict_set k (p\<lparr>pr_status := Online, pr_last_heartbeat := utc_now (clk 0)\<rparr>) (rg_peers (app_store app))\<rparr>)))\<rparr>)"
  using assms by (auto simp: validate_heartbeat_def reader_simps peer_heartbeat_ep_def heartbeat_def mk_request_ok map_outcome_def Let_def)

lemma expected_peer_update [simp]:
  "(expected_peer t)\<lparr>pr_status := Online, pr_last_heartbeat := u\<rparr> = expected_peer u"
  "pr_node_id (expected_peer t) = ''aws-ingestion-01''"
  by (simp_all add: expected_peer_def)

lemma smoke_registry_passes:
  fixes s :: "('r, 'g) discovery"
  assumes "\<And>k i. instant_ok (ap_clks ap k i)" and fresh: "rg_peers (app_store (ds_app s)) = []" "rg_ledger (app_store (ds_app s)) = []"
  shows "\<exists>a b p app. smoke_registry ap s = (Inr ((201, a), (200, b), (200, JList [p])), s\<lparr>ds_app := app, ds_served := ds_served s + 3\<rparr>) \<and>
    chained None (rg_ledger (app_store app)) \<and> length (rg_ledger (app_store app)) = 2"
proof -
  let ?id = "''aws-ingestion-01''"
  let ?clk = "ap_clks ap (ds_served s)" and ?clk1 = "ap_clks ap (Suc (ds_served s))" and ?clk2 = "ap_clks ap (Suc (Suc (ds_served s)))"
  have id: "str_between 3 128 ?id" by (simp add: str_between_def)
  obtain lr where one: "serve (ap_interval ap) ?clk (PostPeer (peer_payload ?id ''ingestion'' ''aws'' ''http://localhost:8001''
       [''ingest_market_data'', ''publish_events''])) (ds_app s) = (Inr (dump_peer (expected_peer (utc_now (?clk 1)))),
      (ds_app s)\<lparr>app_store := snd (append_block (?clk 2) lr (snd (upsert_peer (?clk 1) (expected_peer (utc_now (?clk 0))) (app_store (ds_app s)))))\<rparr>)"
    (is "_ = (_, ?app1)")
    using serve_post_peer [OF validate_expected_peer, of ?clk "ap_interval ap" "ds_app s"] id by auto
  have peers1: "rg_peers (app_store ?app1) = [(?id, expected_peer (utc_now (?clk 1)))]"
    using fresh by (simp add: dict_set_def)
  have chain1: "chained None (rg_ledger (app_store ?app1))"
    using chained_append_block [of "snd (upsert_peer (?clk 1) (expected_peer (utc_now (?clk 0))) (app_store (ds_app s)))"] fresh by simp
  have len1: "length (rg_ledger (app_store ?app1)) = 1" using fresh by simp
  obtain lr2 where two: "serve (ap_interval ap) ?clk1 (PostHeartbeat ?id (JObj [])) ?app1 =
     (Inr (dump_peer (expected_peer (utc_now (?clk1 0)))),
      ?app1\<lparr>app_store := snd (append_block (?clk1 1) lr2 (save_state ((app_store ?app1)
        \<lparr>rg_peers := [(?id, expected_peer (utc_now (?clk1 0)))]\<rparr>)))\<rparr>)"
    (is "_ = (_, ?app2)")
    using serve_post_heartbeat [of ?app1 ?id "expected_peer (utc_now (?clk 1))" "ap_interval ap" ?clk1] id
    unfolding peers1 by (auto simp: dict_set_def)
  have peers2: "rg_peers (app_store ?app2) = [(?id, expected_peer (utc_now (?clk1 0)))]" by simp
  have chain2: "chained None (rg_ledger (app_store ?app2)) \<and> length (rg_ledger (app_store ?app2)) = 2"
    using chained_append_block [of "save_state ((app_store ?app1)\<lparr>rg_peers := [(?id, expected_peer (utc_now (?clk1 0)))]\<rparr>)" "?clk1 1" lr2]
      chain1 len1 by simp
  have readable: "readable (expected_peer (utc_now (?clk1 0)))"
    using assms(1) by (simp add: readable_def expected_peer_def heartbeat_instant_now)
  have three: "serve (ap_interval ap) ?clk2 (GetCapability ''ingest_market_data'') ?app2 =
     (Inr (JList [dump_peer (fresh (?clk2 0) (expected_peer (utc_now (?clk1 0))))]), ?app2)"
    using with_fresh_readable [OF readable] by (simp add: peers_with_capability_def dict_values_def expected_peer_def)
  have "json_finite (dump_peer (fresh t (expected_peer u)))" for t u by (simp add: dump_peer_def expected_peer_def fresh_def)
  then have "smoke_registry ap s = (Inr ((201, dump_peer (expected_peer (utc_now (?clk 1)))),
      (200, dump_peer (expected_peer (utc_now (?clk1 0)))),
      (200, JList [dump_peer (fresh (?clk2 0) (expected_peer (utc_now (?clk1 0))))])),
      s\<lparr>ds_app := ?app2, ds_served := ds_served s + 3\<rparr>)"
    using one two three dump_peer_finite
    by (simp add: smoke_registry_def registry_call_def tested_ok del: serve.simps append_block_simps upsert_peer_simps)
  then show ?thesis using chain2 by blast
qed

section \<open>The ingestion peer\<close>

definition btc_message :: "int \<Rightarrow> real \<Rightarrow> real \<Rightarrow> sensor_message" where
  "btc_message now price volume = \<lparr>sm_sensor_id = ''sensor-btcusd'', sm_symbol = ''BTCUSD'', sm_asset_class = ''crypto'',
     sm_price = Fin price, sm_volume = Fin volume, sm_source = ''smoke-test'', sm_event_time = utc_now now\<rparr>"

definition btc_event :: "string \<Rightarrow> int \<Rightarrow> string \<Rightarrow> real \<Rightarrow> real \<Rightarrow> pyfloat \<Rightarrow> pyfloat \<Rightarrow> real \<Rightarrow> market_event" where
  "btc_event uuid now node price volume price_change volume_change notional = \<lparr>ev_event_id = make_prefixed_id ''evt'' uuid,
     ev_symbol = ''BTCUSD'', ev_asset_class = ''crypto'', ev_price = Fin price, ev_volume = Fin volume, ev_source = node,
     ev_ingested_at = utc_now now, ev_window = [(''price_change_1m'', price_change), (''volume_change_1m'', volume_change),
       (''notional_value'', Fin notional)]\<rparr>"

lemma fl_thousands: "fl 71000 = Fin 71000" "fl 185000 = Fin 185000" "fl 78000 = Fin 78000" "fl 305000 = Fin 305000"
    "fl 3200 = Fin 3200" "fl 3340 = Fin 3340" "fl 120000 = Fin 120000" "fl 180000 = Fin 180000"
    "fl 13135000000 = Fin 13135000000" "fl 23790000000 = Fin 23790000000" "fl 7000 = Fin 7000" "fl 140 = Fin 140"
  by (simp_all add: fl_eval)

lemma validate_btc:
  "validate_message px (utc_now now) (message_payload 71000 185000) = Some (btc_message now 71000 185000)"
  "validate_message px (utc_now now) (message_payload 78000 305000) = Some (btc_message now 78000 305000)"
  by (simp_all add: validate_message_def message_payload_def reader_simps asset_classes_def btc_message_def fl_thousands)

lemma normalize_first:
  "normalize uuid now node None (btc_message t 71000 185000) = Inr (btc_event uuid now node 71000 185000 (Fin 0) (Fin 0) 13135000000)"
  by (simp add: normalize_def btc_message_def btc_event_def fl_thousands)

lemma round_changes:
  "round_nd 6 (fl (7000 / 71000)) = fl (98592 / 1000000)"
  "round_nd 6 (fl (120000 / 185000)) = fl (648649 / 1000000)"
proof -
  have "round_nd 6 (Fin (rnd (7000 / 71000))) = fl (of_int 98592 / 1000000)"
    by (rule round_close [OF near_weaken [OF rnd_near]]) simp_all
  then show "round_nd 6 (fl (7000 / 71000)) = fl (98592 / 1000000)" by (simp add: fl_eval)
  have "round_nd 6 (Fin (rnd (120000 / 185000))) = fl (of_int 648649 / 1000000)"
    by (rule round_close [OF near_weaken [OF rnd_near]]) simp_all
  then show "round_nd 6 (fl (120000 / 185000)) = fl (648649 / 1000000)" by (simp add: fl_eval)
qed

lemma normalize_second:
  "normalize uuid now node (Some (btc_message u 71000 185000)) (btc_message t 78000 305000) =
     Inr (btc_event uuid now node 78000 305000 (fl (98592 / 1000000)) (fl (648649 / 1000000)) 23790000000)"
  using round_changes
  by (simp add: normalize_def btc_message_def btc_event_def relative_change_def ftruth_def fsub_def fdiv_def fl_thousands)

lemma ingestion_call_message:
  assumes "\<not> ss_enable_runtime (ap_ingestion ap)" "validate_message (ap_px ap) (utc_now (ap_clks ap (ds_served s) 0)) body = Some m"
    and "normalize (ap_uuid ap (ds_served s)) (ap_clks ap (ds_served s) 0) (in_node_id (ds_ingestion s))
      (map_of (in_last_message (ds_ingestion s)) (sm_symbol m)) m = Inr e" "json_finite (dump_event e)"
  shows "\<exists>st. ingestion_call ap (PostMessage body) s = (Inr (200, dump_event e), s\<lparr>ds_ingestion := st, ds_served := Suc (ds_served s)\<rparr>) \<and>
    in_node_id st = in_node_id (ds_ingestion s) \<and> in_events st = in_events (ds_ingestion s) @ [e] \<and>
    in_last_message st = dict_set (sm_symbol m) m (in_last_message (ds_ingestion s))"
  using assms
  by (simp add: ingestion_call_def ingest_endpoint_def ingest_message_def runtime_appender_def rt_enabled_def aws_runtime_def
      record_ledger_event_def forward_event_def map_outcome_def tested_ok ingestion_save_def Let_def)
    (rule exI, rule conjI, rule refl, simp)

lemma btc_event_finite: "is_finite p \<Longrightarrow> is_finite v \<Longrightarrow> json_finite (dump_event (btc_event uuid now node a b p v c))"
  by (simp add: dump_event_def btc_event_def is_finite_def)

lemma is_finite_fin [simp]: "is_finite (Fin x)"
  by (simp add: is_finite_def)

lemma fl_small_finite: "\<bar>x\<bar> \<le> 2 ^ 60 \<Longrightarrow> is_finite (fl x)"
  by (simp add: fl_eval is_finite_def)

lemma smoke_ingestion_passes:
  fixes s :: "('r, 'g) discovery"
  defines "node \<equiv> in_node_id (ds_ingestion s)" and "n \<equiv> ds_served s"
  assumes "\<not> ss_enable_runtime (ap_ingestion ap)" "in_last_message (ds_ingestion s) = []"
  defines "e1 \<equiv> btc_event (ap_uuid ap n) (ap_clks ap n 0) node 71000 185000 (Fin 0) (Fin 0) 13135000000"
    and "e2 \<equiv> btc_event (ap_uuid ap (Suc n)) (ap_clks ap (Suc n) 0) node 78000 305000 (fl (98592 / 1000000)) (fl (648649 / 1000000)) 23790000000"
  shows "\<exists>st. smoke_ingestion ap s = (Inr ((200, dump_event e1), (200, dump_event e2)), s\<lparr>ds_ingestion := st, ds_served := n + 2\<rparr>) \<and>
    in_events st = in_events (ds_ingestion s) @ [e1, e2]"
proof -
  let ?m1 = "btc_message (ap_clks ap n 0) 71000 185000" and ?m2 = "btc_message (ap_clks ap (Suc n) 0) 78000 305000"
  have symbols: "sm_symbol ?m1 = ''BTCUSD''" "sm_symbol ?m2 = ''BTCUSD''" by (simp_all add: btc_message_def)
  have fin: "json_finite (dump_event e1)" "json_finite (dump_event e2)"
    by (simp_all add: e1_def e2_def btc_event_finite fl_small_finite)
  obtain st1 where one: "ingestion_call ap (PostMessage (message_payload 71000 185000)) s =
      (Inr (200, dump_event e1), s\<lparr>ds_ingestion := st1, ds_served := Suc n\<rparr>)"
      "in_node_id st1 = node" "in_events st1 = in_events (ds_ingestion s) @ [e1]" "in_last_message st1 = [(''BTCUSD'', ?m1)]"
    using ingestion_call_message [OF assms(3) validate_btc(1), where e = e1 and s = s] assms(4) fin(1) symbols
    by (auto simp: normalize_first e1_def node_def n_def dict_set_def)
  obtain st2 where two: "ingestion_call ap (PostMessage (message_payload 78000 305000)) (s\<lparr>ds_ingestion := st1, ds_served := Suc n\<rparr>) =
      (Inr (200, dump_event e2), s\<lparr>ds_ingestion := st2, ds_served := n + 2\<rparr>)" "in_events st2 = in_events st1 @ [e2]"
    using ingestion_call_message [OF assms(3) validate_btc(2), where s = "s\<lparr>ds_ingestion := st1, ds_served := Suc n\<rparr>" and e = e2] one(2,4) fin(2) symbols
    by (auto simp: normalize_second e2_def)
  show ?thesis using one two by (auto simp: smoke_ingestion_def)
qed

section \<open>The anomaly peer\<close>

lemma rule_score_full:
  assumes "0 \<le> a" "a \<le> 1" "1 / 3 \<le> b" "b \<le> 1"
  shows "rule_based_score [Fin a, Fin b, p, v] [] = Inr (Fin 1)"
proof -
  have "1 \<le> rnd (b * 3)" "rnd (b * 3) \<le> 3" using assms rnd_mono [of 1 "b * 3"] rnd_mono [of "b * 3" 3] by simp_all
  moreover have "0 \<le> rnd (a * 8)" "rnd (a * 8) \<le> 8" using assms rnd_mono [of 0 "a * 8"] rnd_mono [of "a * 8" 8] by simp_all
  ultimately have sum: "1 \<le> rnd (a * 8) + rnd (b * 3)" "rnd (a * 8) + rnd (b * 3) \<le> 11" by linarith+
  then have one: "1 \<le> rnd (rnd (a * 8) + rnd (b * 3))" using rnd_mono [of 1] by fastforce
  have "fl (a * 8) = Fin (rnd (a * 8))" "fl (b * 3) = Fin (rnd (b * 3))"
    "fl (rnd (a * 8) + rnd (b * 3)) = Fin (rnd (rnd (a * 8) + rnd (b * 3)))"
    using assms sum by (intro fl_eval, simp)+
  then show ?thesis using one assms by (simp add: rule_based_score_def Let_def pymin_def)
qed

lemma fl_in:
  assumes "lo \<le> x - 1 / 1000" "x + 1 / 1000 \<le> hi" "\<bar>x\<bar> \<le> 1000000"
  shows "\<exists>r. fl x = Fin r \<and> lo \<le> r \<and> r \<le> hi"
proof -
  have "\<bar>rnd x - x\<bar> \<le> 1 / 1000" using rnd_near [OF assms(3)] by simp
  then have "lo \<le> rnd x" "rnd x \<le> hi" using assms(1,2) by linarith+
  then show ?thesis using assms(3) by (simp add: fl_eval)
qed

lemma rule_score_spike:
  "rule_based_score [fl (98592 / 1000000), fl (648649 / 1000000), p, v] [] = Inr (Fin 1)"
proof -
  obtain a b where "fl (98592 / 1000000) = Fin a" "0 \<le> a" "a \<le> 1" "fl (648649 / 1000000) = Fin b" "1 / 3 \<le> b" "b \<le> 1"
    using fl_in [of 0 "98592 / 1000000" 1] fl_in [of "1 / 3" "648649 / 1000000" 1] by auto
  then show ?thesis by (simp only: rule_score_full)
qed

lemma model_score_few [simp]: "length history < 12 \<Longrightarrow> model_score forest features history = Inr (Fin 0)"
  by (simp add: model_score_def split: option.split)

lemma severity_one: "severity (Fin 1) = ''critical''"
  using fl_in [of 0 "95 / 100" 1] by (auto simp: severity_def)

lemma below_threshold: "\<not> flt (Fin 1) default_alert_threshold"
  using fl_in [of 0 "82 / 100" 1] by (auto simp: default_alert_threshold_def)

lemma alert_finite:
  "is_finite (al_score a) \<Longrightarrow> json_finite (dump_alert a)"
  by (simp add: dump_alert_def)

lemma smoke_anomaly_passes:
  fixes s :: "('r, 'g) discovery" and uuid node :: string and now :: int
  assumes "\<not> ss_enable_runtime (ap_anomaly ap)" "ap_state_store ap = FileJsonStateStore file"
    and "an_history (ds_anomaly s) = []" "an_alerts (ds_anomaly s) = []" "an_alert_threshold (ds_anomaly s) = default_alert_threshold"
  defines "e \<equiv> btc_event uuid now node 78000 305000 (fl (98592 / 1000000)) (fl (648649 / 1000000)) 23790000000"
  shows "\<exists>alert st store. smoke_anomaly ap (dump_event e) s = (Inr ((200, dump_alert alert), (200, JList [dump_alert alert])),
      s\<lparr>ds_anomaly := st, ds_store := store, ds_served := ds_served s + 2\<rparr>)"
proof -
  let ?ops = "state_store_ops (ap_sdk ap) (ap_state_store ap)" and ?n = "ds_served s"
  obtain files blob where store: "ds_store s = (files, blob)" by (cases "ds_store s")
  have features: "extract_features e = [fl (98592 / 1000000), fl (648649 / 1000000), Fin 78000, Fin 305000]"
    by (simp add: extract_features_def e_def btc_event_def dict_get_def)
  have score: "rule_based_score (extract_features e) [] = Inr (Fin 1)"
    unfolding features by (rule rule_score_spike)
  have symbol: "ev_symbol e = ''BTCUSD''" by (simp add: e_def btc_event_def)
  define why where "why = reason (extract_features e) (Fin 1) (Fin 0)"
  define alert where "alert = \<lparr>al_alert_id = make_prefixed_id ''alt'' (ap_uuid ap ?n), al_event_id = ev_event_id e,
      al_symbol = ev_symbol e, al_severity = severity (Fin 1), al_score = round_nd 4 (Fin 1), al_reason = why,
      al_status = ''pending_review'', al_created_at = utc_now (ap_clks ap ?n 0)\<rparr>"
  define st where "st = (ds_anomaly s)\<lparr>an_history := [(''BTCUSD'', deque_append (an_history_window (ds_anomaly s)) (extract_features e) [])],
      an_alerts := [(al_alert_id alert, alert)]\<rparr>"
  define store' where "store' = (save_json_file file (anomaly_doc st) files, blob)"
  have "analyze_event ?ops (ap_forest ap) None (ap_uuid ap ?n) (ap_clks ap ?n 0) e (ds_anomaly s, ds_store s, no_world) =
      (Inr (Some alert), (st, store', no_world))"
    using assms(2-5) below_threshold score
    by (simp add: analyze_event_def Let_def touch_def symbol store state_store_ops_def on_files_def file_ops_def
        dict_set_def pymax_def record_ledger_event_def alert_def st_def store'_def why_def)
  moreover have fin: "json_finite (dump_alert alert)" by (rule alert_finite) (simp add: alert_def is_finite_def)
  ultimately have analyze: "anomaly_call ap (Analyze (dump_event e)) s =
      (Inr (200, dump_alert alert), s\<lparr>ds_anomaly := st, ds_store := store', ds_served := Suc ?n\<rparr>)"
    using assms(1) by (simp add: anomaly_call_def analyze_ep_def validate_dump_event runtime_appender_def rt_enabled_def azure_runtime_def
        map_outcome_def tested_ok)
  have "anomaly_call ap ListAlerts (s\<lparr>ds_anomaly := st, ds_store := store', ds_served := Suc ?n\<rparr>) =
      (Inr (200, JList [dump_alert alert]), s\<lparr>ds_anomaly := st, ds_store := store', ds_served := ?n + 2\<rparr>)"
    using fin by (simp add: anomaly_call_def list_alerts_def dict_values_def tested_ok st_def)
  with analyze have "smoke_anomaly ap (dump_event e) s = (Inr ((200, dump_alert alert), (200, JList [dump_alert alert])),
      s\<lparr>ds_anomaly := st, ds_store := store', ds_served := ?n + 2\<rparr>)"
    by (simp add: smoke_anomaly_def)
  then show ?thesis by blast
qed

section \<open>The risk peer\<close>

definition eth_market_event :: "string \<Rightarrow> int \<Rightarrow> real \<Rightarrow> real \<Rightarrow> pyfloat \<Rightarrow> pyfloat \<Rightarrow> market_event" where
  "eth_market_event event_id now price volume price_change volume_change = \<lparr>ev_event_id = event_id, ev_symbol = ''ETHUSD'',
     ev_asset_class = ''crypto'', ev_price = Fin price, ev_volume = Fin volume, ev_source = ''smoke-test'', ev_ingested_at = utc_now now,
     ev_window = [(''price_change_1m'', price_change), (''volume_change_1m'', volume_change)]\<rparr>"

lemma validate_eth:
  "validate_event px (utc_now now) (eth_event i 3200 120000 0 0) = Some (eth_market_event i now 3200 120000 (Fin 0) (Fin 0))"
  "validate_event px (utc_now now) (eth_event i 3340 180000 (4375 / 100000) (1 / 2)) =
     Some (eth_market_event i now 3340 180000 (fl (4375 / 100000)) (fl (1 / 2)))"
  by (simp_all add: validate_event_def eth_event_def reader_simps eth_market_event_def fl_thousands)

lemma eth_event_finite:
  "is_finite a \<Longrightarrow> is_finite b \<Longrightarrow> json_finite (dump_event (eth_market_event i now p v a b))"
  by (simp add: dump_event_def eth_market_event_def is_finite_def)

definition two_positions :: portfolio where
  "two_positions = \<lparr>pf_portfolio_id = ''demo_portfolio'', pf_positions =
     [\<lparr>po_symbol = ''BTCUSD'', po_weight = fl (6 / 10)\<rparr>, \<lparr>po_symbol = ''ETHUSD'', po_weight = fl (4 / 10)\<rparr>]\<rparr>"

lemma validate_smoke_portfolio: "validate_portfolio px smoke_portfolio = Some two_positions"
  by (simp add: validate_portfolio_def smoke_portfolio_def reader_simps validate_position_def two_positions_def)

text \<open>The figures of no return and of one return.\<close>

lemma figures_none: "risk_figures [] = Inr (Fin 0, Fin 0, Fin 0, Fin 0)"
  by (simp add: risk_figures_def volatility_def historical_var_def max_drawdown_def rolling_return_def)

lemma tail_of_one: "tail_position (fl (95 / 100)) 1 = Inr 0"
proof -
  obtain c where c: "fl (95 / 100) = Fin c" "9 / 10 \<le> c" "c \<le> 1" using fl_in [of "9 / 10" "95 / 100" 1] by auto
  have "0 \<le> rnd (1 - c)" "rnd (1 - c) \<le> 1 / 2" using c rnd_mono [of "1 - c" "1 / 2"] rnd_dyadic [of 1 1] by (simp_all add: rnd_nonneg)
  moreover from this have "\<lfloor>rnd (1 - c)\<rfloor> = 0" by (simp add: floor_eq_iff)
  ultimately show ?thesis using c by (simp add: tail_position_def fsub_def fl_eval)
qed

lemma figures_one:
  assumes "\<bar>r\<bar> \<le> 1 / 2"
  shows "\<exists>q. risk_figures [Fin r] = Inr (Fin 0, Fin r, Fin 0, Fin q) \<and> \<bar>q - r\<bar> \<le> 2 / 2 ^ 32"
proof -
  define c where "c = rnd (1 + r)"
  have c: "\<bar>c - (1 + r)\<bar> \<le> 1 / 2 ^ 32" unfolding c_def using assms by (intro rnd_near) linarith
  have "\<bar>c - (1 + r)\<bar> \<le> 1 / 1000" using c by simp
  then have c_range: "1 / 4 \<le> c" "c \<le> 2" using assms by linarith+
  have q: "\<bar>rnd (c - 1) - (c - 1)\<bar> \<le> 1 / 2 ^ 32" using c_range by (intro rnd_near) linarith
  have step: "fmul (Fin 1) (fadd (Fin 1) (Fin r)) = Fin c"
    using assms c_range by (simp add: fl_eval c_def)
  have "max_drawdown [Fin r] = Inr (Fin 0)"
    using step c_range by (simp add: max_drawdown_def Let_def pymax_def fdiv_def fsub_def pymin_def)
  moreover have "rolling_return [Fin r] 24 = Fin (rnd (c - 1))"
    using step c_range by (simp add: rolling_return_def slice_last_def fsub_def fl_eval)
  moreover have "historical_var [Fin r] (fl (95 / 100)) = Inr (Fin r)"
    using tail_of_one by (simp add: historical_var_def py_sorted_def)
  ultimately have "risk_figures [Fin r] = Inr (Fin 0, Fin r, Fin 0, Fin (rnd (c - 1)))"
    by (simp add: risk_figures_def volatility_def)
  moreover have "\<bar>rnd (c - 1) - r\<bar> \<le> 2 / 2 ^ 32" using c q by linarith
  ultimately show ?thesis by blast
qed

text \<open>The returns of the two symbols, and the weighted return of the portfolio.\<close>

definition smoke_figures :: "risk \<Rightarrow> (pyfloat \<times> pyfloat \<times> pyfloat \<times> pyfloat) result" where
  "smoke_figures st = bindR (series_by_symbol (pf_positions two_positions) st)
     (\<lambda>series. risk_figures (portfolio_returns series (pf_positions two_positions)))"

lemma smoke_figures_eq:
  assumes "returns_for_symbol ''BTCUSD'' st = Inr rb" "returns_for_symbol ''ETHUSD'' st = Inr re"
  shows "smoke_figures st = risk_figures (portfolio_returns [(''BTCUSD'', rb), (''ETHUSD'', re)] (pf_positions two_positions))"
  using assms by (simp add: smoke_figures_def series_by_symbol_def two_positions_def dict_of_def dict_set_def)

lemma weighted_near:
  assumes "\<bar>w - W\<bar> \<le> 1 / 2 ^ 32" "\<bar>x - X\<bar> \<le> 1 / 2 ^ 32" "\<bar>W\<bar> \<le> 3 / 5" "\<bar>X\<bar> \<le> 1 / 8"
  shows "\<bar>rnd (w * x) - W * X\<bar> \<le> 2 / 2 ^ 32" "\<bar>rnd (w * x)\<bar> \<le> 1 / 8" "\<bar>w * x\<bar> \<le> 1 / 4"
proof -
  let ?d = "1 / 2 ^ 32 :: real"
  have "w * x - W * X = w * (x - X) + (w - W) * X" by (simp add: algebra_simps)
  then have "\<bar>w * x - W * X\<bar> \<le> \<bar>w\<bar> * \<bar>x - X\<bar> + \<bar>w - W\<bar> * \<bar>X\<bar>" by (metis abs_mult abs_triangle_ineq)
  also have "\<dots> \<le> 7 / 10 * ?d + ?d * (1 / 8)"
  proof (intro add_mono mult_mono)
    have "\<bar>w - W\<bar> \<le> 1 / 1000" using assms(1) by simp
    then show "\<bar>w\<bar> \<le> 7 / 10" using assms(3) by linarith
  qed (use assms in simp_all)
  also have "\<dots> \<le> ?d" by simp
  finally have prod: "\<bar>w * x - W * X\<bar> \<le> ?d" .
  have WX: "\<bar>W * X\<bar> \<le> 3 / 5 * (1 / 8)" unfolding abs_mult using assms by (intro mult_mono) simp_all
  have "\<bar>w * x - W * X\<bar> \<le> 1 / 1000" using prod by simp
  then show small: "\<bar>w * x\<bar> \<le> 1 / 4" using WX by linarith
  then have near: "\<bar>w * x\<bar> \<le> 1000000" by linarith
  show "\<bar>rnd (w * x) - W * X\<bar> \<le> 2 / 2 ^ 32" using rnd_near [OF near] prod by linarith
  moreover have "(2::real) / 2 ^ 32 \<le> 1 / 1000" by simp
  ultimately show "\<bar>rnd (w * x)\<bar> \<le> 1 / 8" using WX by linarith
qed

lemma sum_of_two:
  assumes "\<bar>p\<bar> \<le> 1 / 4" "\<bar>q\<bar> \<le> 1 / 4" "\<bar>rnd p\<bar> \<le> 1 / 8" "\<bar>rnd q\<bar> \<le> 1 / 8"
  shows "fadd (fadd (Fin 0) (fl p)) (fl q) = Fin (rnd (rnd p + rnd q))" "\<bar>rnd (rnd p + rnd q) - (rnd p + rnd q)\<bar> \<le> 1 / 2 ^ 32"
proof -
  have "fl p = Fin (rnd p)" "fl q = Fin (rnd q)" "fl (rnd p) = Fin (rnd p)" using assms by (simp_all add: fl_eval)
  moreover have "fl (rnd p + rnd q) = Fin (rnd (rnd p + rnd q))" using assms by (intro fl_eval) simp
  ultimately show "fadd (fadd (Fin 0) (fl p)) (fl q) = Fin (rnd (rnd p + rnd q))" by simp
  show "\<bar>rnd (rnd p + rnd q) - (rnd p + rnd q)\<bar> \<le> 1 / 2 ^ 32" using assms by (intro rnd_near) simp
qed

lemma weighted_return:
  assumes "\<bar>b - B\<bar> \<le> 1 / 2 ^ 32" "\<bar>B\<bar> \<le> 1 / 8" "\<bar>e - E\<bar> \<le> 1 / 2 ^ 32" "\<bar>E\<bar> \<le> 1 / 8"
  shows "\<exists>r. fadd (fadd (Fin 0) (fmul (fl (6 / 10)) (Fin b))) (fmul (fl (4 / 10)) (Fin e)) = Fin r \<and>
    \<bar>r - (6 / 10 * B + 4 / 10 * E)\<bar> \<le> 5 / 2 ^ 32"
proof -
  have w: "\<bar>rnd (6 / 10) - 6 / 10\<bar> \<le> 1 / 2 ^ 32" "\<bar>rnd (4 / 10) - 4 / 10\<bar> \<le> 1 / 2 ^ 32" by (rule rnd_near, simp)+
  have "fl (6 / 10) = Fin (rnd (6 / 10))" "fl (4 / 10) = Fin (rnd (4 / 10))" by (rule fl_eval, simp)+
  then obtain w6 w4 where w6: "fl (6 / 10) = Fin w6" "\<bar>w6 - 6 / 10\<bar> \<le> 1 / 2 ^ 32"
      and w4: "fl (4 / 10) = Fin w4" "\<bar>w4 - 4 / 10\<bar> \<le> 1 / 2 ^ 32"
    using w by blast
  have bounds: "\<bar>6 / 10 :: real\<bar> \<le> 3 / 5" "\<bar>4 / 10 :: real\<bar> \<le> 3 / 5" by simp_all
  note x = weighted_near [OF w6(2) assms(1) bounds(1) assms(2)] and y = weighted_near [OF w4(2) assms(3) bounds(2) assms(4)]
  note s = sum_of_two [OF x(3) y(3) x(2) y(2)]
  have "\<bar>rnd (rnd (w6 * b) + rnd (w4 * e)) - (6 / 10 * B + 4 / 10 * E)\<bar> \<le>
      \<bar>rnd (rnd (w6 * b) + rnd (w4 * e)) - (rnd (w6 * b) + rnd (w4 * e))\<bar> + \<bar>rnd (w6 * b) - 6 / 10 * B\<bar> + \<bar>rnd (w4 * e) - 4 / 10 * E\<bar>"
    by simp
  also have "\<dots> \<le> 1 / 2 ^ 32 + 2 / 2 ^ 32 + 2 / 2 ^ 32" by (rule add_mono [OF add_mono [OF s(2) x(1)] y(1)])
  also have "\<dots> = 5 / 2 ^ 32" by simp
  finally show ?thesis using s(1) w6(1) w4(1) by auto
qed

lemma one_return:
  assumes "rb = [] \<and> b = Fin 0 \<or> rb = [b]"
  shows "portfolio_returns [(''BTCUSD'', rb), (''ETHUSD'', [e])] (pf_positions two_positions) =
    [fadd (fadd (Fin 0) (fmul (fl (6 / 10)) b)) (fmul (fl (4 / 10)) e)]"
  using assms py_index_neg [of 1 "[b]"] py_index_neg [of 1 "[e]"]
  by (auto simp: portfolio_returns_def portfolio_return_def common_length_def dict_values_def symbol_return_def dict_get_def two_positions_def)

lemma no_return: "portfolio_returns [(''BTCUSD'', []), (''ETHUSD'', [])] positions = []"
  by (simp add: portfolio_returns_def common_length_def dict_values_def)

definition btc_return :: real where "btc_return = 7000 / 71000"
definition eth_return :: real where "eth_return = 140 / 3200"

lemma returns_near:
  "\<exists>b. fl (7000 / 71000) = Fin b \<and> \<bar>b - btc_return\<bar> \<le> 1 / 2 ^ 32" "\<exists>e. fl (140 / 3200) = Fin e \<and> \<bar>e - eth_return\<bar> \<le> 1 / 2 ^ 32"
  unfolding btc_return_def eth_return_def by (rule exI, rule conjI, rule fl_eval, simp, rule rnd_near, simp)+

lemma weighted_figures:
  assumes "rb = [] \<and> b = 0 \<and> B = 0 \<or> rb = [Fin b]" "\<bar>b - B\<bar> \<le> 1 / 2 ^ 32" "\<bar>B\<bar> \<le> 1 / 8" "\<bar>e - E\<bar> \<le> 1 / 2 ^ 32" "\<bar>E\<bar> \<le> 1 / 8"
  shows "\<exists>r q. risk_figures (portfolio_returns [(''BTCUSD'', rb), (''ETHUSD'', [Fin e])] (pf_positions two_positions)) =
      Inr (Fin 0, Fin r, Fin 0, Fin q) \<and> \<bar>r - (6 / 10 * B + 4 / 10 * E)\<bar> \<le> 5 / 2 ^ 32 \<and> \<bar>q - r\<bar> \<le> 2 / 2 ^ 32"
proof -
  obtain r where r: "fadd (fadd (Fin 0) (fmul (fl (6 / 10)) (Fin b))) (fmul (fl (4 / 10)) (Fin e)) = Fin r"
      "\<bar>r - (6 / 10 * B + 4 / 10 * E)\<bar> \<le> 5 / 2 ^ 32"
    using weighted_return [OF assms(2-5)] by blast
  have "\<bar>r - (6 / 10 * B + 4 / 10 * E)\<bar> \<le> 1 / 1000" using r(2) by simp
  then have "\<bar>r\<bar> \<le> 1 / 2" using assms(3,5) by linarith
  moreover have "portfolio_returns [(''BTCUSD'', rb), (''ETHUSD'', [Fin e])] (pf_positions two_positions) = [Fin r]"
    using one_return [of rb "Fin b" "Fin e"] assms(1) r(1) by auto
  ultimately show ?thesis using figures_one [of r] r(2) by auto
qed

text \<open>The four states the figures are computed in.\<close>

lemma figures_quiet:
  assumes "returns_for_symbol ''BTCUSD'' st = Inr []" "returns_for_symbol ''ETHUSD'' st = Inr []"
  shows "smoke_figures st = Inr (Fin 0, Fin 0, Fin 0, Fin 0)"
  using smoke_figures_eq [OF assms] by (simp add: no_return figures_none)

lemma figures_eth:
  assumes "returns_for_symbol ''BTCUSD'' st = Inr []" "returns_for_symbol ''ETHUSD'' st = Inr [fl (140 / 3200)]"
  shows "\<exists>r q. smoke_figures st = Inr (Fin 0, Fin r, Fin 0, Fin q)"
proof -
  obtain e where e: "fl (140 / 3200) = Fin e" "\<bar>e - eth_return\<bar> \<le> 1 / 2 ^ 32" using returns_near by blast
  show ?thesis
    using weighted_figures [of "[]" 0 0 e eth_return] smoke_figures_eq [OF assms] e by (auto simp: eth_return_def)
qed

lemma figures_both:
  assumes "returns_for_symbol ''BTCUSD'' st = Inr [fl (7000 / 71000)]" "returns_for_symbol ''ETHUSD'' st = Inr [fl (140 / 3200)]"
  shows "\<exists>r q. smoke_figures st = Inr (Fin 0, Fin r, Fin 0, Fin q) \<and>
    round_nd 6 (Fin r) = fl (76655 / 1000000) \<and> round_nd 6 (Fin q) = fl (76655 / 1000000)"
proof -
  let ?R = "6 / 10 * btc_return + 4 / 10 * eth_return"
  obtain b e where be: "fl (7000 / 71000) = Fin b" "\<bar>b - btc_return\<bar> \<le> 1 / 2 ^ 32" "fl (140 / 3200) = Fin e" "\<bar>e - eth_return\<bar> \<le> 1 / 2 ^ 32"
    using returns_near by blast
  obtain r q where f: "smoke_figures st = Inr (Fin 0, Fin r, Fin 0, Fin q)" and r: "\<bar>r - ?R\<bar> \<le> 5 / 2 ^ 32" and q: "\<bar>q - r\<bar> \<le> 2 / 2 ^ 32"
    using weighted_figures [of "[Fin b]" b btc_return e eth_return] smoke_figures_eq [OF assms] be
    by (auto simp: eth_return_def btc_return_def)
  have R: "\<bar>?R * 1000000 - of_int 76655\<bar> \<le> 99 / 200" by (simp add: btc_return_def eth_return_def)
  have "\<bar>q - ?R\<bar> \<le> 2 / 2 ^ 32 + 5 / 2 ^ 32" using r q by linarith
  then have "\<bar>q - ?R\<bar> \<le> 1 / 2 ^ 28" by simp
  moreover have "\<bar>r - ?R\<bar> \<le> 1 / 2 ^ 28" using r by simp
  ultimately show ?thesis using f round_close [OF _ R] by (metis of_int_numeral)
qed

text \<open>The requests to the risk peer.\<close>

lemma compute_smoke:
  assumes "rk_portfolio st = Some two_positions" "smoke_figures st = Inr (vol, var95, dd, rolling)"
  shows "\<exists>snapshot st'. compute_risk None uuid now None (st, w) = (Inr snapshot, (st', w)) \<and>
    rs_volatility snapshot = round_nd 6 vol \<and> rs_value_at_risk_95 snapshot = round_nd 6 var95 \<and>
    rs_max_drawdown snapshot = round_nd 6 dd \<and> rs_rolling_return_1d snapshot = round_nd 6 rolling \<and>
    rs_portfolio_id snapshot = ''demo_portfolio'' \<and>
    rk_events st' = rk_events st \<and> rk_portfolio st' = rk_portfolio st \<and> rk_auto_compute st' = rk_auto_compute st"
  using assms by (simp add: compute_risk_def smoke_figures_def record_ledger_event_def risk_save_def two_positions_def Let_def)

lemma risk_call_event:
  fixes s :: "('r, 'g) discovery"
  assumes "\<not> ss_enable_runtime (ap_risk ap)" "validate_event (ap_px ap) (utc_now (ap_clks ap (ds_served s) 0)) body = Some e"
    and "rk_portfolio (ds_risk s) = Some two_positions" "rk_auto_compute (ds_risk s)" "json_finite (dump_event e)"
    and figures: "\<And>st. rk_events st = dict_set (ev_symbol e) (dict_get (rk_events (ds_risk s)) (ev_symbol e) [] @ [e]) (rk_events (ds_risk s)) \<Longrightarrow>
      \<exists>f. smoke_figures st = Inr f"
  shows "\<exists>st. risk_call ap (PostRiskEvent body) s = (Inr (200, dump_event e), s\<lparr>ds_risk := st, ds_served := Suc (ds_served s)\<rparr>) \<and>
    rk_portfolio st = Some two_positions \<and> rk_auto_compute st \<and>
    rk_events st = dict_set (ev_symbol e) (dict_get (rk_events (ds_risk s)) (ev_symbol e) [] @ [e]) (rk_events (ds_risk s))"
proof -
  let ?st = "risk_save ((ds_risk s)\<lparr>rk_events := dict_set (ev_symbol e)
      (dict_get (rk_events (ds_risk s)) (ev_symbol e) [] @ [e]) (rk_events (ds_risk s))\<rparr>)"
  have st: "rk_portfolio ?st = Some two_positions" "rk_auto_compute ?st"
    "rk_events ?st = dict_set (ev_symbol e) (dict_get (rk_events (ds_risk s)) (ev_symbol e) [] @ [e]) (rk_events (ds_risk s))"
    using assms(3,4) by (simp_all add: risk_save_def)
  obtain vol var95 dd rolling where "smoke_figures ?st = Inr (vol, var95, dd, rolling)" using figures [OF st(3)] by auto
  from compute_smoke [OF st(1) this] obtain snapshot st' where
    c: "compute_risk None (ap_uuid ap (ds_served s)) (ap_clks ap (ds_served s) 0) None (?st, no_world) = (Inr snapshot, (st', no_world))"
      "rk_events st' = rk_events ?st" "rk_portfolio st' = Some two_positions" "rk_auto_compute st'"
    using st by metis
  have "risk_call ap (PostRiskEvent body) s = (Inr (200, dump_event e), s\<lparr>ds_risk := st', ds_served := Suc (ds_served s)\<rparr>)"
    using assms(1,2,5) c(1) st(1,2)
    by (simp add: risk_call_def ingest_event_ep_def ingest_event_def runtime_appender_def rt_enabled_def gcp_runtime_def map_outcome_def
        tested_ok Let_def)
  then show ?thesis using c st(3) by auto
qed

text \<open>What the last computation has to say.\<close>

definition expected_snapshot :: "risk_snapshot \<Rightarrow> bool" where
  "expected_snapshot x \<longleftrightarrow> rs_portfolio_id x = ''demo_portfolio'' \<and> rs_volatility x = Fin 0 \<and>
     rs_value_at_risk_95 x = fl (76655 / 1000000) \<and> rs_max_drawdown x = Fin 0 \<and> rs_rolling_return_1d x = fl (76655 / 1000000)"

lemma risk_call_compute:
  fixes s :: "('r, 'g) discovery"
  assumes "\<not> ss_enable_runtime (ap_risk ap)" "rk_portfolio (ds_risk s) = Some two_positions"
    and "returns_for_symbol ''BTCUSD'' (ds_risk s) = Inr [fl (7000 / 71000)]" "returns_for_symbol ''ETHUSD'' (ds_risk s) = Inr [fl (140 / 3200)]"
  shows "\<exists>snapshot st. risk_call ap (PostCompute None) s = (Inr (200, dump_snapshot snapshot), s\<lparr>ds_risk := st, ds_served := Suc (ds_served s)\<rparr>) \<and>
    expected_snapshot snapshot"
proof -
  obtain r q where f: "smoke_figures (ds_risk s) = Inr (Fin 0, Fin r, Fin 0, Fin q)"
      "round_nd 6 (Fin r) = fl (76655 / 1000000)" "round_nd 6 (Fin q) = fl (76655 / 1000000)"
    using figures_both [OF assms(3,4)] by blast
  from compute_smoke [OF assms(2) f(1), where uuid = "ap_uuid ap (ds_served s)" and now = "ap_clks ap (ds_served s) 0" and w = no_world]
  obtain snapshot st' where
    c: "compute_risk None (ap_uuid ap (ds_served s)) (ap_clks ap (ds_served s) 0) None (ds_risk s, no_world) = (Inr snapshot, (st', no_world))"
    and x: "rs_volatility snapshot = round_nd 6 (Fin 0)" "rs_value_at_risk_95 snapshot = round_nd 6 (Fin r)"
      "rs_max_drawdown snapshot = round_nd 6 (Fin 0)" "rs_rolling_return_1d snapshot = round_nd 6 (Fin q)"
      "rs_portfolio_id snapshot = ''demo_portfolio''"
    by blast
  have e: "expected_snapshot snapshot" unfolding expected_snapshot_def using x f(2,3) by simp
  then have "json_finite (dump_snapshot snapshot)" by (simp add: dump_snapshot_def expected_snapshot_def fl_eval is_finite_def)
  then have "risk_call ap (PostCompute None) s = (Inr (200, dump_snapshot snapshot), s\<lparr>ds_risk := st', ds_served := Suc (ds_served s)\<rparr>)"
    using assms(1) c
    by (simp add: risk_call_def compute_argument_def compute_risk_ep_def runtime_appender_def rt_enabled_def gcp_runtime_def map_outcome_def tested_ok)
  then show ?thesis using e by blast
qed

lemma risk_step:
  fixes s :: "('r, 'g) discovery"
  assumes "\<not> ss_enable_runtime (ap_risk ap)" "validate_event (ap_px ap) (utc_now (ap_clks ap k 0)) body = Some e" "json_finite (dump_event e)"
    and "rk_portfolio st = Some two_positions" "rk_auto_compute st"
    and "rk_events st = old" "evs = dict_set (ev_symbol e) (dict_get old (ev_symbol e) [] @ [e]) old"
    and "\<And>st. rk_events st = evs \<Longrightarrow> \<exists>f. smoke_figures st = Inr f"
  obtains st' where "risk_call ap (PostRiskEvent body) (s\<lparr>ds_risk := st, ds_served := k\<rparr>) =
      (Inr (200, dump_event e), s\<lparr>ds_risk := st', ds_served := Suc k\<rparr>)"
    "rk_portfolio st' = Some two_positions" "rk_auto_compute st'" "rk_events st' = evs"
  using risk_call_event [where s = "s\<lparr>ds_risk := st, ds_served := k\<rparr>" and ap = ap and body = body and e = e] assms by auto

lemma returns_of:
  "rk_events st = evs \<Longrightarrow> returns_for_symbol k st = price_returns (map ev_price (dict_get evs k []))"
  by (simp add: returns_for_symbol_def)

lemma smoke_returns:
  "price_returns [Fin 3200] = Inr []" "price_returns [Fin 3200, Fin 3340] = Inr [fl (140 / 3200)]"
  "price_returns [Fin 71000] = Inr []" "price_returns [Fin 71000, Fin 78000] = Inr [fl (7000 / 71000)]"
  by (simp_all add: ftruth_def fdiv_def fsub_def fl_thousands)

lemma event_fields [simp]:
  "ev_symbol (eth_market_event i t p v a b) = ''ETHUSD''" "ev_price (eth_market_event i t p v a b) = Fin p"
  "ev_symbol (btc_event u t n p v a b c) = ''BTCUSD''" "ev_price (btc_event u t n p v a b c) = Fin p"
  by (simp_all add: eth_market_event_def btc_event_def)

lemma smoke_risk_passes:
  fixes s :: "('r, 'g) discovery" and u1 u2 node1 node2 :: string and t1 t2 :: int
  assumes off: "\<not> ss_enable_runtime (ap_risk ap)" and "rk_events (ds_risk s) = []" "rk_auto_compute (ds_risk s)"
  defines "e1 \<equiv> btc_event u1 t1 node1 71000 185000 (Fin 0) (Fin 0) 13135000000"
    and "e2 \<equiv> btc_event u2 t2 node2 78000 305000 (fl (98592 / 1000000)) (fl (648649 / 1000000)) 23790000000"
  shows "\<exists>snapshot st. smoke_risk ap (dump_event e1) (dump_event e2) s =
      (Inr ((200, dump_portfolio two_positions), (200, dump_snapshot snapshot)), s\<lparr>ds_risk := st, ds_served := ds_served s + 6\<rparr>) \<and>
    expected_snapshot snapshot"
proof -
  let ?n = "ds_served s"
  let ?h1 = "eth_market_event ''evt_eth_1'' (ap_clks ap (Suc ?n) 0) 3200 120000 (Fin 0) (Fin 0)"
  let ?h2 = "eth_market_event ''evt_eth_2'' (ap_clks ap (Suc (Suc ?n)) 0) 3340 180000 (fl (4375 / 100000)) (fl (1 / 2))"
  have fin: "json_finite (dump_event ?h1)" "json_finite (dump_event ?h2)" "json_finite (dump_event e1)" "json_finite (dump_event e2)"
    by (simp_all add: e1_def e2_def btc_event_finite eth_event_finite fl_small_finite is_finite_fin)
  have e: "ev_symbol e1 = ''BTCUSD''" "ev_price e1 = Fin 71000" "ev_symbol e2 = ''BTCUSD''" "ev_price e2 = Fin 78000"
    by (simp_all add: e1_def e2_def)
  let ?w = "\<lambda>st k. s\<lparr>ds_risk := st, ds_served := k\<rparr>"
  define st0 where "st0 = risk_save ((ds_risk s)\<lparr>rk_portfolio := Some two_positions\<rparr>)"
  have st0: "rk_portfolio st0 = Some two_positions" "rk_auto_compute st0" "rk_events st0 = []"
    using assms(2,3) by (simp_all add: st0_def risk_save_def)
  have "json_finite (dump_portfolio two_positions)" by (simp add: dump_portfolio_def two_positions_def dump_position_def fl_eval)
  then have p: "risk_call ap (PostPortfolio smoke_portfolio) s = (Inr (200, dump_portfolio two_positions), ?w st0 (Suc ?n))"
    by (simp add: risk_call_def validate_smoke_portfolio set_portfolio_def tested_ok st0_def)
  have f1: "\<exists>f. smoke_figures st = Inr f" if "rk_events st = [(''ETHUSD'', [?h1])]" for st
    using figures_quiet returns_of [OF that] by (simp add: dict_get_def e smoke_returns)
  have f2: "\<exists>f. smoke_figures st = Inr f" if "rk_events st = [(''ETHUSD'', [?h1, ?h2])]" for st
    using figures_eth [of st] returns_of [OF that] by (auto simp: dict_get_def e smoke_returns simp del: price_returns.simps(1))
  have f3: "\<exists>f. smoke_figures st = Inr f" if "rk_events st = [(''ETHUSD'', [?h1, ?h2]), (''BTCUSD'', [e1])]" for st
    using figures_eth [of st] returns_of [OF that] by (auto simp: dict_get_def e smoke_returns simp del: price_returns.simps(1))
  have last: "returns_for_symbol ''BTCUSD'' st = Inr [fl (7000 / 71000)]" "returns_for_symbol ''ETHUSD'' st = Inr [fl (140 / 3200)]"
    if "rk_events st = [(''ETHUSD'', [?h1, ?h2]), (''BTCUSD'', [e1, e2])]" for st
    using returns_of [OF that] by (simp_all add: dict_get_def e smoke_returns del: price_returns.simps(1))
  have f4: "\<exists>f. smoke_figures st = Inr f" if "rk_events st = [(''ETHUSD'', [?h1, ?h2]), (''BTCUSD'', [e1, e2])]" for st
    using figures_both [OF last [OF that]] by blast
  obtain st1 where 1: "risk_call ap (PostRiskEvent (eth_event ''evt_eth_1'' 3200 120000 0 0)) (?w st0 (Suc ?n)) = (Inr (200, dump_event ?h1), ?w st1 (Suc (Suc ?n)))"
    and st1: "rk_portfolio st1 = Some two_positions" "rk_auto_compute st1" "rk_events st1 = [(''ETHUSD'', [?h1])]"
    by (rule risk_step [OF off validate_eth(1) fin(1) st0 _ f1]) (simp_all add: e dict_set_def dict_get_def)
  obtain st2 where 2: "risk_call ap (PostRiskEvent (eth_event ''evt_eth_2'' 3340 180000 (4375 / 100000) (1 / 2))) (?w st1 (Suc (Suc ?n))) =
      (Inr (200, dump_event ?h2), ?w st2 (Suc (Suc (Suc ?n))))"
    and st2: "rk_portfolio st2 = Some two_positions" "rk_auto_compute st2" "rk_events st2 = [(''ETHUSD'', [?h1, ?h2])]"
    by (rule risk_step [OF off validate_eth(2) fin(2) st1 _ f2]) (simp_all add: e dict_set_def dict_get_def)
  obtain st3 where 3: "risk_call ap (PostRiskEvent (dump_event e1)) (?w st2 (Suc (Suc (Suc ?n)))) = (Inr (200, dump_event e1), ?w st3 (Suc (Suc (Suc (Suc ?n)))))"
    and st3: "rk_portfolio st3 = Some two_positions" "rk_auto_compute st3" "rk_events st3 = [(''ETHUSD'', [?h1, ?h2]), (''BTCUSD'', [e1])]"
    by (rule risk_step [OF off validate_dump_event fin(3) st2 _ f3]) (simp_all add: e dict_set_def dict_get_def)
  obtain st4 where 4: "risk_call ap (PostRiskEvent (dump_event e2)) (?w st3 (Suc (Suc (Suc (Suc ?n))))) =
      (Inr (200, dump_event e2), ?w st4 (Suc (Suc (Suc (Suc (Suc ?n))))))"
    and st4: "rk_portfolio st4 = Some two_positions" "rk_auto_compute st4" "rk_events st4 = [(''ETHUSD'', [?h1, ?h2]), (''BTCUSD'', [e1, e2])]"
    by (rule risk_step [OF off validate_dump_event fin(4) st3 _ f4]) (simp_all add: e dict_set_def dict_get_def)
  obtain snapshot st5 where 5: "risk_call ap (PostCompute None) (?w st4 (Suc (Suc (Suc (Suc (Suc ?n)))))) = (Inr (200, dump_snapshot snapshot), ?w st5 (Suc (Suc (Suc (Suc (Suc (Suc ?n)))))))"
    and x: "expected_snapshot snapshot"
    using risk_call_compute [OF off, of "?w st4 (Suc (Suc (Suc (Suc (Suc ?n)))))"] st4(1) last [OF st4(3)] by auto
  have "smoke_risk ap (dump_event e1) (dump_event e2) s = (Inr ((200, dump_portfolio two_positions), (200, dump_snapshot snapshot)), ?w st5 (?n + 6))"
    by (simp only: smoke_risk_def p 1 2 3 4 5 bindS_simps) (simp add: numeral_eq_Suc)
  then show ?thesis using x by blast
qed

section \<open>The imports\<close>

text \<open>Services without state, with the runtimes off and the anomaly peer's state in a file.\<close>

definition fresh_services :: "'r apps \<Rightarrow> ('r, 'g) discovery \<Rightarrow> bool" where
  "fresh_services ap s \<longleftrightarrow>
     \<not> ss_enable_runtime (ap_ingestion ap) \<and> \<not> ss_enable_runtime (ap_anomaly ap) \<and> \<not> ss_enable_runtime (ap_risk ap) \<and>
     (\<exists>file. ap_state_store ap = FileJsonStateStore file) \<and>
     rg_peers (app_store (ds_app s)) = [] \<and> rg_ledger (app_store (ds_app s)) = [] \<and>
     in_events (ds_ingestion s) = [] \<and> in_last_message (ds_ingestion s) = [] \<and>
     an_history (ds_anomaly s) = [] \<and> an_alerts (ds_anomaly s) = [] \<and> an_alert_threshold (ds_anomaly s) = default_alert_threshold \<and>
     rk_events (ds_risk s) = [] \<and> rk_auto_compute (ds_risk s)"

text \<open>What lies two levels below a directory is under it.\<close>

lemma under_state:
  assumes "plain_name t" "plain_name n" "plain_name f"
  shows "under (path_join d t) (path_join (path_join (path_join d t) n) f)"
proof -
  define b ps where "b = starts_with ''/'' d" and "ps = path_parts d @ [t]"
  have d: "path_join d t = path_render b ps" using assms(1) by (simp add: path_join_plain b_def ps_def)
  have ps: "list_all plain_name ps" "ps \<noteq> []" using assms(1) path_parts_plain [of d] by (simp_all add: ps_def)
  have "path_join (path_join (path_join d t) n) f = path_render b (ps @ [n] @ [f])"
    using ps assms(2,3) by (simp add: d path_join_render)
  also have "\<dots> = path_render b ps @ ''/'' @ n @ ''/'' @ f"
    using ps(2) join_snoc [of "''/''" "ps @ [n]" f] join_snoc [of "''/''" ps n] by (simp add: path_render_def)
  finally show ?thesis by (simp add: d under_def starts_with_def)
qed

lemma load_nothing:
  "fs p = None \<Longrightarrow> load_json_file fs (Some p) dflt = Inr dflt"
  by (simp add: load_json_file_def)

text \<open>The settings every service of the test loads.\<close>

lemma test_settings:
  assumes "load_service_settings (e0(''ENABLE_SERVICE_RUNTIME'' \<mapsto> ''false'', ''QUANTIAN_DATA_DIR'' \<mapsto> data_dir)) cwd name port = Inr settings"
  shows "\<not> ss_enable_runtime settings" "ss_data_dir settings = path_join data_dir name"
    "ss_storage_backend settings = getenv e0 ''STORAGE_BACKEND'' ''memory''"
  using assms by (auto simp: load_service_settings_def bindR_Inr_iff Let_def getenv_def str_lower_def)

lemma fresh_loads:
  assumes "\<And>p. under data_dir p \<Longrightarrow> fs p = None" and "\<And>p. path = Some p \<Longrightarrow> under data_dir p"
  shows "ingestion_load px now node path fs = Inr x \<Longrightarrow> in_events x = [] \<and> in_last_message x = []"
    "risk_load px now node path auto fs = Inr y \<Longrightarrow> rk_events y = [] \<and> rk_auto_compute y = auto"
    "anomaly_load (on_files (file_ops path)) px now node threshold window (fs, blob) = (Inr z, st) \<Longrightarrow>
       an_history z = [] \<and> an_alerts z = [] \<and> an_alert_threshold z = threshold"
proof -
  have none: "load_json_file fs path dflt = Inr dflt" for dflt
    using assms by (cases path) (simp_all add: load_json_file_def)
  show "ingestion_load px now node path fs = Inr x \<Longrightarrow> in_events x = [] \<and> in_last_message x = []"
    by (auto simp: ingestion_load_def none load_models_def last_by_symbol_def dict_of_def)
  show "risk_load px now node path auto fs = Inr y \<Longrightarrow> rk_events y = [] \<and> rk_auto_compute y = auto"
    by (auto simp: risk_load_def none load_models_def dict_of_def)
  show "anomaly_load (on_files (file_ops path)) px now node threshold window (fs, blob) = (Inr z, st) \<Longrightarrow>
       an_history z = [] \<and> an_alerts z = [] \<and> an_alert_threshold z = threshold"
    by (auto simp: anomaly_load_def on_files_def file_ops_def none dict_of_def)
qed

lemma registry_main_fresh:
  assumes "registry_main e cwd px now fs = Inr (interval, app)" and "e ''QUANTIAN_DATA_DIR'' = Some data_dir"
    and "\<And>p. under data_dir p \<Longrightarrow> fs p = None"
    and "under data_dir (peers_path (path_join data_dir ''registry_service''))" "under data_dir (ledger_path (path_join data_dir ''registry_service''))"
  shows "rg_peers (app_store app) = []" "rg_ledger (app_store app) = []"
  using assms
  by (auto simp: registry_main_def bindR_Inr_iff getenv_def load_state_def load_json_file_def load_peers_def load_models_def dict_of_def)

lemma import_services_fresh:
  fixes ap :: "'r apps" and s :: "('r, 'g) discovery"
  assumes "import_services (path_join d t) e0 cwd px forest sdk clks uuid now sim s0 = Inr (ap, s)" and "plain_name t"
    and "str_lower (getenv e0 ''STORAGE_BACKEND'' ''memory'') \<notin> set blob_backends"
  shows "fresh_services ap s" "ap_clks ap = clks" "ap_uuid ap = uuid" "ds_served s = 0"
proof -
  let ?data = "path_join d t" and ?e = "e0(''ENABLE_SERVICE_RUNTIME'' \<mapsto> ''false'', ''QUANTIAN_DATA_DIR'' \<mapsto> path_join d t)"
  obtain disk0 blob where s0: "s0 = (disk0, blob)" by (cases s0)
  define disk where "disk = (\<lambda>p. if under ?data p then None else disk0 p)"
  have none: "\<And>p. under ?data p \<Longrightarrow> disk p = None" by (simp add: disk_def)
  note run = assms(1) [unfolded import_services_def s0 Let_def, simplified, folded disk_def]
  obtain s1 ingestion where aws: "aws_main ?e cwd px now disk = Inr (s1, ingestion)"
    using run by (auto simp: bindR_Inr_iff)
  obtain r st where r: "azure_main sdk ?e cwd px now (disk, blob) = (r, st)" by (metis surj_pair)
  obtain s2 store anomaly where "r = Inr (s2, store, anomaly)"
    using run aws r by (cases r) auto
  then have azure: "azure_main sdk ?e cwd px now (disk, blob) = (Inr (s2, store, anomaly), st)" using r by simp
  obtain s3 risk interval app where gcp: "gcp_main ?e cwd px now disk = Inr (s3, risk)" and
    registry: "registry_main ?e cwd px now disk = Inr (interval, app)" and
    ap: "ap = \<lparr>ap_interval = interval, ap_px = px, ap_forest = forest, ap_sdk = sdk, ap_state_store = store,
                ap_ingestion = s1, ap_anomaly = s2, ap_risk = s3, ap_clks = clks, ap_uuid = uuid\<rparr>" and
    s: "s = \<lparr>ds_app = app, ds_ingestion = ingestion, ds_anomaly = anomaly, ds_store = st, ds_risk = risk,
                ds_simulator = sim, ds_served = 0\<rparr>"
    using run aws azure by (auto simp: bindR_Inr_iff)
  show "ap_clks ap = clks" "ap_uuid ap = uuid" "ds_served s = 0" by (simp_all add: ap s)
  have state: "under ?data (state_file settings)" if "ss_data_dir settings = path_join ?data name" "plain_name name" for settings name
    using that assms(2) by (simp add: state_file_def under_state plain_name_def)
  have 1: "load_service_settings ?e cwd ''aws_ingestion'' 8001 = Inr s1" "ingestion_load px now aws_node (Some (state_file s1)) disk = Inr ingestion"
    using aws by (auto simp: aws_main_def bindR_Inr_iff)
  have 2: "load_service_settings ?e cwd ''azure_anomaly'' 8002 = Inr s2"
      "build_json_state_store ?e s2 (Some (state_file s2)) ''azure_anomaly'' ''azure-anomaly/state.json'' = Inr store"
      "anomaly_load (state_store_ops sdk store) px now azure_node default_alert_threshold default_history_window (disk, blob) = (Inr anomaly, st)"
    using azure by (auto simp: azure_main_def bindR_Inr_iff bindS_def split: sum.splits prod.splits)
  have 3: "load_service_settings ?e cwd ''gcp_risk'' 8003 = Inr s3" "risk_load px now gcp_node (Some (state_file s3)) True disk = Inr risk"
    using gcp by (auto simp: gcp_main_def bindR_Inr_iff)
  have names: "plain_name ''aws_ingestion''" "plain_name ''azure_anomaly''" "plain_name ''gcp_risk''" "plain_name ''registry_service''"
    "plain_name ''peers.json''" "plain_name ''ledger.json''" by (simp_all add: plain_name_def)
  note t1 = test_settings [OF 1(1)] and t2 = test_settings [OF 2(1)] and t3 = test_settings [OF 3(1)]
  have store: "store = FileJsonStateStore (Some (state_file s2))"
    using 2(2) assms(3) t2(3) by (simp add: build_json_state_store_def)
  have "in_events ingestion = [] \<and> in_last_message ingestion = []"
    using fresh_loads(1) [OF none _ 1(2)] state [OF t1(2) names(1)] by simp
  moreover have "rk_events risk = [] \<and> rk_auto_compute risk"
    using fresh_loads(2) [OF none _ 3(2)] state [OF t3(2) names(3)] by simp
  moreover have "an_history anomaly = [] \<and> an_alerts anomaly = [] \<and> an_alert_threshold anomaly = default_alert_threshold"
    using fresh_loads(3) [OF none, where path = "Some (state_file s2)"] 2(3) state [OF t2(2) names(2)] by (simp add: store state_store_ops_def)
  moreover have "rg_peers (app_store app) = [] \<and> rg_ledger (app_store app) = []"
    using registry_main_fresh [OF registry _ none] under_state [OF assms(2) names(4)] names(5,6) by (simp add: peers_path_def ledger_path_def)
  ultimately show "fresh_services ap s" using t1(1) t2(1) t3(1) store by (simp add: fresh_services_def ap s)
qed

section \<open>The test passes\<close>

definition passing_summary :: "risk_snapshot \<Rightarrow> json" where
  "passing_summary snapshot = JObj [
     (''registry'', JObj [(''register_status'', JInt 201), (''heartbeat_status'', JInt 200), (''capability_matches'', JInt 1)]),
     (''ingestion'', JObj [(''first_event_status'', JInt 200), (''second_event_status'', JInt 200), (''recent_events'', JInt 2)]),
     (''anomaly'', JObj [(''analyze_status'', JInt 200), (''alert_returned'', JBool True), (''stored_alerts'', JInt 1)]),
     (''risk'', JObj [(''portfolio_status'', JInt 200), (''compute_status'', JInt 200), (''latest_snapshot'', dump_snapshot snapshot)]),
     (''ledger'', dump_verification \<lparr>vr_valid = True, vr_block_count = 2, vr_error = None\<rparr>)]"

lemma fresh_services_pass:
  fixes ap :: "'r apps" and s :: "('r, 'g) discovery"
  assumes "fresh_services ap s" "\<And>k i. instant_ok (ap_clks ap k i)"
  shows "\<exists>snapshot s'. smoke_test ap s = (Inr (passing_summary snapshot), s') \<and> expected_snapshot snapshot"
proof -
  obtain path where fresh: "\<not> ss_enable_runtime (ap_ingestion ap)" "\<not> ss_enable_runtime (ap_anomaly ap)" "\<not> ss_enable_runtime (ap_risk ap)"
      "ap_state_store ap = FileJsonStateStore path" "rg_peers (app_store (ds_app s)) = []" "rg_ledger (app_store (ds_app s)) = []"
      "in_events (ds_ingestion s) = []" "in_last_message (ds_ingestion s) = []" "an_history (ds_anomaly s) = []" "an_alerts (ds_anomaly s) = []"
      "an_alert_threshold (ds_anomaly s) = default_alert_threshold" "rk_events (ds_risk s) = []" "rk_auto_compute (ds_risk s)"
    using assms(1) unfolding fresh_services_def by blast
  obtain a b p app where 1: "smoke_registry ap s = (Inr ((201, a), (200, b), (200, JList [p])), s\<lparr>ds_app := app, ds_served := ds_served s + 3\<rparr>)"
      "chained None (rg_ledger (app_store app))" "length (rg_ledger (app_store app)) = 2"
    using smoke_registry_passes [OF assms(2) fresh(5,6)] by blast
  define s1 where "s1 = s\<lparr>ds_app := app, ds_served := ds_served s + 3\<rparr>"
  let ?n = "ds_served s1" and ?node = "in_node_id (ds_ingestion s1)"
  define e1 where "e1 = btc_event (ap_uuid ap ?n) (ap_clks ap ?n 0) ?node 71000 185000 (Fin 0) (Fin 0) 13135000000"
  define e2 where "e2 = btc_event (ap_uuid ap (Suc ?n)) (ap_clks ap (Suc ?n) 0) ?node 78000 305000 (fl (98592 / 1000000)) (fl (648649 / 1000000)) 23790000000"
  obtain st1 where 2: "smoke_ingestion ap s1 = (Inr ((200, dump_event e1), (200, dump_event e2)), s1\<lparr>ds_ingestion := st1, ds_served := ?n + 2\<rparr>)"
      "in_events st1 = [e1, e2]"
    using smoke_ingestion_passes [of ap s1] fresh(1,7,8) unfolding e1_def e2_def by (auto simp: s1_def)
  define s2 where "s2 = s1\<lparr>ds_ingestion := st1, ds_served := ?n + 2\<rparr>"
  obtain alert st2 store where 3: "smoke_anomaly ap (dump_event e2) s2 = (Inr ((200, dump_alert alert), (200, JList [dump_alert alert])),
      s2\<lparr>ds_anomaly := st2, ds_store := store, ds_served := ds_served s2 + 2\<rparr>)"
    using smoke_anomaly_passes [of ap path s2] fresh(2,4,9-11) unfolding e2_def by (fastforce simp: s1_def s2_def)
  define s3 where "s3 = s2\<lparr>ds_anomaly := st2, ds_store := store, ds_served := ds_served s2 + 2\<rparr>"
  obtain snapshot st3 where 4: "smoke_risk ap (dump_event e1) (dump_event e2) s3 =
      (Inr ((200, dump_portfolio two_positions), (200, dump_snapshot snapshot)), s3\<lparr>ds_risk := st3, ds_served := ds_served s3 + 6\<rparr>)"
      and x: "expected_snapshot snapshot"
    using smoke_risk_passes [of ap s3] fresh(3,12,13) unfolding e1_def e2_def by (fastforce simp: s1_def s2_def s3_def)
  define s4 where "s4 = s3\<lparr>ds_risk := st3, ds_served := ds_served s3 + 6\<rparr>"
  have s4: "ds_app s4 = app" "ds_ingestion s4 = st1" by (simp_all add: s4_def s3_def s2_def s1_def)
  have verdict: "verify_ledger (app_store app) = \<lparr>vr_valid = True, vr_block_count = 2, vr_error = None\<rparr>"
    using 1(2,3) verify_ledger_count [of "app_store app"] verify_ledger_ok_error [of "app_store app"] verify_ledger_valid [of "app_store app"]
    by (cases "verify_ledger (app_store app)") simp
  have 5: "registry_call ap GetVerify s4 = (Inr (200, dump_verification \<lparr>vr_valid = True, vr_block_count = 2, vr_error = None\<rparr>),
      s4\<lparr>ds_served := Suc (ds_served s4)\<rparr>)"
    using s4 verdict by (simp add: registry_call_def tested_def dump_verification_def jopt_str_def)
  have fin: "json_finite (dump_event e1)" "json_finite (dump_event e2)" by (simp_all add: e1_def e2_def btc_event_finite fl_small_finite)
  have 6: "ingestion_call ap (RecentEvents None) (s4\<lparr>ds_served := Suc (ds_served s4)\<rparr>) =
      (Inr (200, JList [dump_event e1, dump_event e2]), s4\<lparr>ds_served := Suc (Suc (ds_served s4))\<rparr>)"
    using s4 2(2) fin by (simp add: ingestion_call_def query_limit_def recent_events_ep_def recent_events_def slice_last_def tested_def)
  have "smoke_test ap s = (Inr (passing_summary snapshot), s4\<lparr>ds_served := Suc (Suc (ds_served s4))\<rparr>)"
    by (simp only: smoke_test_def 1(1) [folded s1_def] 2(1) [folded s2_def] 3 [folded s3_def] 4 [folded s4_def] 5 bindS_simps prod.case snd_conv)
      (simp add: smoke_part_def len_of_def json_len_def status_of_def passing_summary_def dump_alert_def 6)
  then show ?thesis using x by blast
qed

text \<open>
  C36. The smoke test passes: once the services are imported with their state in files, every request is
  answered with 200, the registration with 201, one peer has the capability, two events are kept, the price jump raises the one alert,
  the risk snapshot has the figures of the two weighted returns, and the ledger verifies with two blocks.
  Neither the disk before the run, the clock, the ids nor the isolation forest make a difference.
\<close>

theorem smoke_test_passes:
  fixes ap :: "'r apps" and s :: "('r, 'g) discovery"
  assumes "smoke_imports repo e0 cwd px forest sdk clks uuid now sim s0 = Inr (ap, s)"
    and "str_lower (getenv e0 ''STORAGE_BACKEND'' ''memory'') \<notin> set blob_backends" and "\<And>k i. instant_ok (clks k i)"
  shows "\<exists>snapshot s'. smoke_test ap s = (Inr (passing_summary snapshot), s') \<and> expected_snapshot snapshot"
proof -
  have "plain_name ''test_service_smoke''" by (simp add: plain_name_def)
  note fresh = import_services_fresh [OF assms(1) [unfolded smoke_imports_def smoke_data_dir_def] this assms(2)]
  then show ?thesis using assms(3) by (intro fresh_services_pass) simp_all
qed

text \<open>With nothing in the environment and nothing on the disk the imports succeed.\<close>

lemmas text_eval = is_space_def is_digit_def digit_val_def digits_val_def strip_def rstrip_by_def parse_sign_def lower_char_def upper_char_def
  str_lower_def str_upper_def

lemma default_numbers:
  "int_str ''15'' = Inr 15" "int_str ''60'' = Inr 60" "float_str ''2.5'' = Inr (fl (5 / 2))"
  by (simp_all add: int_str_def parse_int_def float_str_def parse_float_def parse_decimal_def split_exponent_def opt_digits_def parse_exponent_def
      text_eval)

lemma default_settings:
  assumes "name \<in> {''aws_ingestion'', ''azure_anomaly'', ''gcp_risk''}"
  shows "\<exists>settings. load_service_settings (Map.empty(''ENABLE_SERVICE_RUNTIME'' \<mapsto> ''false'', ''QUANTIAN_DATA_DIR'' \<mapsto> data_dir)) cwd name port = Inr settings"
  using assms default_numbers
  by (auto simp: load_service_settings_def service_port_of_def getenv_def Let_def service_prefix_def) 

lemma empty_loads:
  "\<exists>x. ingestion_load px now node path Map.empty = Inr x" "\<exists>x. risk_load px now node path auto Map.empty = Inr x"
  "\<exists>x st. anomaly_load (on_files (file_ops path)) px now node threshold window (Map.empty, blob) = (Inr x, st)"
  "\<exists>x. load_state px now dir Map.empty = Inr x"
proof -
  have none: "load_json_file Map.empty path dflt = Inr dflt" for path dflt by (cases path) (simp_all add: load_json_file_def)
  show "\<exists>x. ingestion_load px now node path Map.empty = Inr x" "\<exists>x. risk_load px now node path auto Map.empty = Inr x"
    "\<exists>x st. anomaly_load (on_files (file_ops path)) px now node threshold window (Map.empty, blob) = (Inr x, st)"
    "\<exists>x. load_state px now dir Map.empty = Inr x"
    by (simp_all add: ingestion_load_def risk_load_def anomaly_load_def on_files_def file_ops_def load_state_def load_peers_def load_models_def none
        split: option.split)
qed

lemma smoke_imports_succeed:
  fixes sim :: "'g simulator" and blob :: "'r blob_state"
  shows "\<exists>ap s. smoke_imports repo Map.empty cwd px forest sdk clks uuid now sim (Map.empty, blob) = Inr (ap, s)"
proof -
  let ?e = "Map.empty(''ENABLE_SERVICE_RUNTIME'' \<mapsto> ''false'', ''QUANTIAN_DATA_DIR'' \<mapsto> smoke_data_dir repo)"
  obtain s1 where s1: "load_service_settings ?e cwd ''aws_ingestion'' 8001 = Inr s1" using default_settings by blast
  obtain s2 where s2: "load_service_settings ?e cwd ''azure_anomaly'' 8002 = Inr s2" using default_settings by blast
  obtain s3 where s3: "load_service_settings ?e cwd ''gcp_risk'' 8003 = Inr s3" using default_settings by blast
  have memory: "ss_storage_backend s2 = ''memory''" using test_settings(3) [OF s2] by (simp add: getenv_def)
  obtain ingestion where i: "aws_main ?e cwd px now Map.empty = Inr (s1, ingestion)"
    using s1 empty_loads(1) [of px now aws_node "Some (state_file s1)"] by (auto simp: aws_main_def)
  have store: "build_json_state_store ?e s2 (Some (state_file s2)) ''azure_anomaly'' ''azure-anomaly/state.json'' = Inr (FileJsonStateStore (Some (state_file s2)))"
    using memory by (simp add: build_json_state_store_def blob_backends_def text_eval)
  obtain anomaly st where a: "azure_main sdk ?e cwd px now (Map.empty, blob) = (Inr (s2, FileJsonStateStore (Some (state_file s2)), anomaly), st)"
    using s2 store empty_loads(3) [of "Some (state_file s2)" px now azure_node default_alert_threshold default_history_window blob]
    by (auto simp: azure_main_def state_store_ops_def)
  obtain risk where k: "gcp_main ?e cwd px now Map.empty = Inr (s3, risk)"
    using s3 empty_loads(2) [of px now gcp_node "Some (state_file s3)" True] by (auto simp: gcp_main_def)
  obtain interval app where g: "registry_main ?e cwd px now Map.empty = Inr (interval, app)"
    using empty_loads(4) [of px now "Some (path_join (smoke_data_dir repo) ''registry_service'')"] default_numbers(2)
    by (auto simp: registry_main_def getenv_def ledger_verify_interval_def)
  show ?thesis using i a k g by (simp add: smoke_imports_def import_services_def Let_def)
qed

text \<open>One clock that never leaves the years a date can have.\<close>

theorem smoke_test_passes_witness:
  "\<exists>ap s snapshot s'. smoke_imports ''/repo'' Map.empty ''/'' strict_pydantic None (ap_sdk plain_apps) (\<lambda>k i. unix_epoch) show_nat unix_epoch
     (new_simulator ()) (Map.empty, \<lparr>bl_client = False, bl_remote = ()\<rparr>) = Inr (ap, s) \<and>
     smoke_test ap s = (Inr (passing_summary snapshot), s') \<and> expected_snapshot snapshot"
proof -
  have clock: "instant_ok unix_epoch" by (simp add: instant_ok_def unix_epoch_def us_per_day_def)
  have memory: "str_lower (getenv Map.empty ''STORAGE_BACKEND'' ''memory'') \<notin> set blob_backends"
    by (simp add: getenv_def blob_backends_def text_eval)
  obtain ap s where "smoke_imports ''/repo'' Map.empty ''/'' strict_pydantic None (ap_sdk plain_apps) (\<lambda>k i. unix_epoch) show_nat unix_epoch
     (new_simulator ()) (Map.empty, \<lparr>bl_client = False, bl_remote = ()\<rparr>) = Inr (ap, s)"
    using smoke_imports_succeed by blast
  from smoke_test_passes [OF this memory clock] this show ?thesis by blast
qed

end
