(* ===== verification/RegistryDisk.thy ===== *)
theory RegistryDisk
  imports RegistrySpec StateText
begin

text \<open>
  The registry store on a disk that holds texts: \<open>registry_service/store.py\<close> with
  \<open>shared/storage/json_state.py\<close> as it writes, one character after the other, and request bodies as
  the texts they arrive as. The texts read as the files of \<open>Registry\<close>, also after a crash between
  any two characters, so what the store keeps in memory is what the next process reads.
\<close>

section \<open>Saving and loading\<close>

definition state_text_ops :: "string \<Rightarrow> string \<Rightarrow> path \<Rightarrow> registry \<Rightarrow> text_op list" where
  "state_text_ops r1 r2 d st =
     save_text_ops r1 (peers_path d) (peers_doc (rg_peers st)) @
     save_text_ops r2 (ledger_path d) (ledger_doc (rg_ledger st))"

definition save_state_text :: "string \<Rightarrow> string \<Rightarrow> registry \<Rightarrow> text_fs \<Rightarrow> text_fs" where
  "save_state_text r1 r2 st fs =
     (case rg_state_dir st of None \<Rightarrow> fs | Some d \<Rightarrow> fold run_text_op (state_text_ops r1 r2 d st) fs)"

definition load_state_text :: "pydantic \<Rightarrow> int \<Rightarrow> path option \<Rightarrow> text_fs \<Rightarrow> registry result" where
  "load_state_text px now dir fs =
     (case dir of None \<Rightarrow> Inr \<lparr>rg_state_dir = None, rg_peers = [], rg_ledger = [], rg_fs = read_fs fs\<rparr>
      | Some d \<Rightarrow>
          bindR (load_text_file fs (Some (peers_path d)) (JList [])) (\<lambda>peers_payload.
          bindR (load_text_file fs (Some (ledger_path d)) (JList [])) (\<lambda>ledger_payload.
          bindR (load_peers now peers_payload) (\<lambda>peers.
          bindR (load_models ''LedgerBlock'' (validate_block px (utc_now now)) ledger_payload) (\<lambda>ledger.
          Inr \<lparr>rg_state_dir = dir, rg_peers = peers, rg_ledger = ledger, rg_fs = read_fs fs\<rparr>)))))"

lemma load_state_text_eq: "load_state_text px now dir fs = load_state px now dir (read_fs fs)"
  by (simp add: load_state_text_def load_state_def load_refines split: option.split)

section \<open>What is saved can be read\<close>

lemma ledger_doc_ok [simp]: "json_ok (ledger_doc bs)"
  by (auto simp: ledger_doc_def dump_block_def json_ok_object jopt_str_def list_all_iff split: option.splits)

definition peers_storable :: "(string, peer_registration) dict \<Rightarrow> bool" where
  "peers_storable ps \<longleftrightarrow> (\<forall>p \<in> snd ` set ps. json_ok (dump_peer p))"

lemma peers_doc_ok: "peers_storable ps \<Longrightarrow> json_ok (peers_doc ps)"
  by (auto simp: peers_doc_def dict_values_def peers_storable_def list_all_iff)

lemma dump_peer_ok_update:
  "json_ok (dump_peer (p\<lparr>pr_status := s, pr_last_heartbeat := t\<rparr>)) = json_ok (dump_peer p)"
  by (simp add: dump_peer_def json_ok_object)

lemma dump_peer_ok_iff:
  "json_ok (dump_peer p) \<longleftrightarrow> json_ok (JObj (pr_metadata p)) \<and> distinct (map fst (pr_extra p)) \<and>
     (\<forall>m \<in> set (pr_extra p). json_ok (snd m) \<and> fst m \<notin> set peer_fields)"
proof -
  obtain A where A: "dump_peer p = JObj (A @ pr_extra p)" "map fst A = peer_fields"
    "(\<forall>m \<in> set A. json_ok (snd m)) = json_ok (JObj (pr_metadata p))"
    by (simp add: dump_peer_def peer_fields_def list_all_iff)
  have "distinct peer_fields" by (simp add: peer_fields_def)
  then have "distinct (map fst (A @ pr_extra p)) \<longleftrightarrow>
      distinct (map fst (pr_extra p)) \<and> (\<forall>m \<in> set (pr_extra p). fst m \<notin> set peer_fields)"
    by (auto simp: A(2))
  then show ?thesis by (auto simp: A(1) A(3) [symmetric] json_ok_object [of "A @ pr_extra p"] ball_Un)
qed

lemma peers_storable_set: "peers_storable ps \<Longrightarrow> json_ok (dump_peer p) \<Longrightarrow> peers_storable (dict_set k p ps)"
  by (induction ps) (auto simp: peers_storable_def dict_set_def)

lemma peers_storable_get: "peers_storable ps \<Longrightarrow> map_of ps k = Some p \<Longrightarrow> json_ok (dump_peer p)"
  by (force simp: peers_storable_def dest: map_of_SomeD)

lemma field_json_ok: "json_ok (JObj d) \<Longrightarrow> map_of d k = Some j \<Longrightarrow> json_ok j"
  by (force simp: json_ok_object dest: map_of_SomeD)

text \<open>A registration read from a text keeps only documents that came out of the decoder.\<close>

lemma validated_peer_ok:
  assumes "json_ok j" "validate_peer now j = Some p"
  shows "json_ok (dump_peer p)"
proof -
  from assms(2) obtain d where j: "j = JObj d" by (cases j) (auto simp: validate_peer_def)
  have p: "pr_extra p = filter (\<lambda>kv. fst kv \<notin> set peer_fields) d" "field_or as_dict [] d ''metadata'' = Some (pr_metadata p)"
    using assms(2) by (auto simp: j validate_peer_def Let_def bind_eq_Some_conv)
  have "json_ok (JObj (pr_metadata p))"
  proof (cases "map_of d ''metadata''")
    case None
    then show ?thesis using p(2) by (simp add: field_or_def json_ok_object)
  next
    case (Some v)
    then have "v = JObj (pr_metadata p)" using p(2) by (cases v) (simp_all add: field_or_def)
    then show ?thesis using field_json_ok assms(1) Some j by metis
  qed
  moreover have "distinct (map fst (pr_extra p))" "\<forall>m \<in> set (pr_extra p). json_ok (snd m) \<and> fst m \<notin> set peer_fields"
    using assms(1) by (auto simp: p(1) j json_ok_object distinct_map intro: inj_on_subset)
  ultimately show ?thesis by (simp add: dump_peer_ok_iff)
qed

section \<open>Steps on the disk\<close>

text \<open>
  A change of the store and the save that ends it. Peers come from request bodies, as texts.
\<close>

inductive disk_change :: "registry \<Rightarrow> registry \<Rightarrow> bool" where
  change_peer: "json_loads body = Inr j \<Longrightarrow> validate_peer (utc_now t) j = Some p \<Longrightarrow>
    disk_change st (snd (upsert_peer now p st))"
| change_heartbeat: "map_of (rg_peers st) k = Some p \<Longrightarrow> disk_change st (snd (heartbeat k hb st))"
| change_block: "ledger_request_ok r \<Longrightarrow> disk_change st (snd (append_block now r st))"

inductive_cases disk_changeE: "disk_change st st'"

text \<open>\<open>NamedTemporaryFile\<close> never takes a name that is in use.\<close>

definition new_names :: "string \<Rightarrow> string \<Rightarrow> path \<Rightarrow> text_fs \<Rightarrow> bool" where
  "new_names r1 r2 d fs \<longleftrightarrow> fs (temp_name (peers_path d) r1) = None \<and> fs (temp_name (ledger_path d) r2) = None"

inductive disk_step :: "pydantic \<Rightarrow> registry \<times> text_fs \<Rightarrow> registry \<times> text_fs \<Rightarrow> bool" for px where
  disk_write: "disk_change st st' \<Longrightarrow> rg_state_dir st = Some d \<Longrightarrow> new_names r1 r2 d fs \<Longrightarrow>
    disk_step px (st, fs) (st', save_state_text r1 r2 st' fs)"
| disk_restart: "load_state_text px now (rg_state_dir st) fs = Inr st' \<Longrightarrow> disk_step px (st, fs) (st', fs)"
| disk_crash: "disk_change st st1 \<Longrightarrow> rg_state_dir st = Some d \<Longrightarrow> new_names r1 r2 d fs \<Longrightarrow>
    fs' = fold run_text_op (take n (state_text_ops r1 r2 d st1)) fs \<Longrightarrow>
    load_state_text px now (Some d) fs' = Inr st' \<Longrightarrow> disk_step px (st, fs) (st', fs')"

lemma disk_change_op: "disk_change st st' \<Longrightarrow> registry_op st st'"
  by (auto elim!: disk_changeE intro: registry_op.intros validate_peer_ok)

lemma disk_change_storable:
  assumes "disk_change st st'" "peers_storable (rg_peers st)"
  shows "peers_storable (rg_peers st')"
  using assms
proof cases
  case (change_peer body j t p now)
  have "json_ok (dump_peer p)" by (rule validated_peer_ok [OF loads_ok [OF change_peer(2)] change_peer(3)])
  then show ?thesis using assms(2) change_peer(1) by (simp add: peers_storable_set dump_peer_ok_update)
next
  case (change_heartbeat k p hb)
  have "json_ok (dump_peer p)" by (rule peers_storable_get [OF assms(2) change_heartbeat(2)])
  then show ?thesis
    using assms(2) change_heartbeat by (simp add: heartbeat_def Let_def peers_storable_set dump_peer_ok_update)
next
  case (change_block r now)
  then show ?thesis using assms(2) by simp
qed

lemma state_text_prefix:
  fixes fs :: text_fs and st :: registry and r1 r2 :: string and d :: path
  defines "after n \<equiv> fold run_text_op (take n (state_text_ops r1 r2 d st)) fs"
  shows "after n (peers_path d) \<in> {fs (peers_path d), Some (indented_dumps 0 (peers_doc (rg_peers st)))}"
    and "after n (ledger_path d) \<in> {fs (ledger_path d), Some (indented_dumps 0 (ledger_doc (rg_ledger st)))}"
proof -
  let ?A = "save_text_ops r1 (peers_path d) (peers_doc (rg_peers st))"
  let ?B = "save_text_ops r2 (ledger_path d) (ledger_doc (rg_ledger st))"
  have split: "after n = fold run_text_op (take (n - length ?A) ?B) (fold run_text_op (take n ?A) fs)"
    by (simp add: after_def state_text_ops_def)
  show "after n (peers_path d) \<in> {fs (peers_path d), Some (indented_dumps 0 (peers_doc (rg_peers st)))}"
    unfolding split using save_text_prefix(1) [where n = n and r = r1 and p = "peers_path d"]
    by (subst save_text_prefix(2)) simp_all
  have "fold run_text_op (take n ?A) fs (ledger_path d) = fs (ledger_path d)"
    by (subst save_text_prefix(2)) simp_all
  then show "after n (ledger_path d) \<in> {fs (ledger_path d), Some (indented_dumps 0 (ledger_doc (rg_ledger st)))}"
    unfolding split using save_text_prefix(1) [where n = "n - length ?A" and r = r2 and p = "ledger_path d"] by metis
qed

lemma change_fs:
  assumes "disk_change st st'" "rg_state_dir st = Some d"
  shows "rg_state_dir st' = Some d"
    and "rg_fs st' = save_json_file (Some (ledger_path d)) (ledger_doc (rg_ledger st'))
      (save_json_file (Some (peers_path d)) (peers_doc (rg_peers st')) (rg_fs st))"
  using assms
  by (auto elim!: disk_changeE simp: upsert_peer_def heartbeat_def append_block_def Let_def save_state_def)

lemma save_state_refines:
  assumes "rg_state_dir st = Some d" "new_names r1 r2 d fs" "peers_storable (rg_peers st)"
  shows "read_fs (save_state_text r1 r2 st fs) = save_json_file (Some (ledger_path d)) (ledger_doc (rg_ledger st))
      (save_json_file (Some (peers_path d)) (peers_doc (rg_peers st)) (read_fs fs))"
proof -
  let ?fs1 = "save_text_file r1 (Some (peers_path d)) (peers_doc (rg_peers st)) fs"
  have "save_state_text r1 r2 st fs = save_text_file r2 (Some (ledger_path d)) (ledger_doc (rg_ledger st)) ?fs1"
    using assms(1) by (simp add: save_state_text_def state_text_ops_def save_text_file_def)
  moreover have "?fs1 (temp_name (ledger_path d) r2) = None"
    using assms(2) by (auto simp: save_text_eq new_names_def)
  ultimately show ?thesis
    using save_refines assms(2) peers_doc_ok [OF assms(3)] by (simp add: new_names_def)
qed

section \<open>The invariant\<close>

definition disk_inv :: "registry \<times> text_fs \<Rightarrow> bool" where
  "disk_inv s = (case s of (st, fs) \<Rightarrow>
     registry_inv st \<and> rg_fs st = read_fs fs \<and> rg_state_dir st \<noteq> None \<and> peers_storable (rg_peers st))"

definition disk_init :: "path \<Rightarrow> registry \<times> text_fs" where
  "disk_init d = (registry_init (Some d), Map.empty)"

lemma disk_init_inv: "disk_inv (disk_init d)"
  by (simp add: disk_inv_def disk_init_def registry_init_inv)
    (simp add: registry_init_def read_fs_def peers_storable_def fun_eq_iff)

lemma disk_crash_reload:
  assumes "disk_inv (st, fs)" "disk_change st st1" "rg_state_dir st = Some d"
    and fs': "fs' = fold run_text_op (take n (state_text_ops r1 r2 d st1)) fs"
  shows "\<exists>st'. load_state_text px now (Some d) fs' = Inr st' \<and> disk_inv (st', fs') \<and> rg_state_dir st' = Some d \<and>
    rg_peers st' \<in> {rg_peers st, rg_peers st1} \<and> rg_ledger st' \<in> {rg_ledger st, rg_ledger st1}"
proof -
  have inv: "registry_inv st" "rg_fs st = read_fs fs" "peers_storable (rg_peers st)" using assms(1) by (simp_all add: disk_inv_def)
  note inv1 = registry_op_inv [OF disk_change_op [OF assms(2)] inv(1)]
  have storable: "peers_storable (rg_peers st1)" using assms(2) inv(3) by (rule disk_change_storable)
  have "read_fs fs' (peers_path d) \<in> {rg_fs st (peers_path d), Some (JsonFile (peers_doc (rg_peers st1)))}"
    using state_text_prefix(1) [of n r1 r2 d st1 fs] peers_doc_ok [OF storable] by (auto simp: fs' inv(2) read_fs_def)
  moreover have "read_fs fs' (ledger_path d) \<in> {rg_fs st (ledger_path d), Some (JsonFile (ledger_doc (rg_ledger st1)))}"
    using state_text_prefix(2) [of n r1 r2 d st1 fs] by (auto simp: fs' inv(2) read_fs_def)
  ultimately obtain st' where st': "load_state px now (Some d) (read_fs fs') = Inr st'"
      "rg_peers st' \<in> {rg_peers st, rg_peers st1}" "rg_ledger st' \<in> {rg_ledger st, rg_ledger st1}"
      "registry_inv st'" "rg_state_dir st' = Some d" "rg_fs st' = read_fs fs'"
    using mixed_reload [OF inv(1) inv1 assms(3)] by blast
  moreover have "disk_inv (st', fs')" using st' inv(3) storable by (auto simp: disk_inv_def)
  ultimately show ?thesis by (auto simp: load_state_text_eq)
qed

lemma disk_restart_same: "disk_inv (st, fs) \<Longrightarrow> rg_state_dir st = Some d \<Longrightarrow> load_state_text px now (Some d) fs = Inr st"
  using load_state_inv [of st d px now] by (simp add: disk_inv_def load_state_text_eq)

lemma disk_step_inv:
  assumes "disk_step px s s'" "disk_inv s"
  shows "disk_inv s' \<and> rg_state_dir (fst s') = rg_state_dir (fst s) \<and>
    (\<exists>bs. rg_ledger (fst s') = rg_ledger (fst s) @ bs \<and> length bs \<le> 1)"
  using assms
proof cases
  case (disk_write st st' d r1 r2 fs)
  have inv: "registry_inv st" "rg_fs st = read_fs fs" "peers_storable (rg_peers st)"
    using assms(2) disk_write(1) by (simp_all add: disk_inv_def)
  have storable: "peers_storable (rg_peers st')" using disk_write(3) inv(3) by (rule disk_change_storable)
  note op = disk_change_op [OF disk_write(3)] and fs' = change_fs [OF disk_write(3,4)]
  have "disk_inv (st', save_state_text r1 r2 st' fs)"
    using registry_op_inv [OF op inv(1)] storable fs' save_state_refines [OF fs'(1) disk_write(5) storable] inv(2)
    by (simp add: disk_inv_def)
  then show ?thesis using registry_op_grows [OF op] disk_write(1,2,4) fs'(1) by simp
next
  case (disk_restart now st fs st')
  then obtain d where d: "rg_state_dir st = Some d" using assms(2) by (auto simp: disk_inv_def)
  then have "st' = st" using disk_restart disk_restart_same [of st fs d px now] assms(2) by simp
  then show ?thesis using disk_restart assms(2) by simp
next
  case (disk_crash st st1 d r1 r2 fs fs' n now st')
  have "disk_inv (st, fs)" using assms(2) disk_crash(1) by simp
  from disk_crash_reload [OF this disk_crash(3,4,6), of px now] disk_crash(7)
  have "disk_inv (st', fs')" "rg_state_dir st' = Some d" "rg_ledger st' \<in> {rg_ledger st, rg_ledger st1}" by auto
  then show ?thesis using registry_op_grows [OF disk_change_op [OF disk_crash(3)]] disk_crash(1,2,4) by auto
qed

lemma disk_reach_inv: "(disk_step px)\<^sup>*\<^sup>* (disk_init d) s \<Longrightarrow> disk_inv s \<and> rg_state_dir (fst s) = Some d"
proof (induction rule: rtranclp_induct)
  case base
  show ?case by (simp add: disk_init_inv) (simp add: disk_init_def registry_init_def)
next
  case (step s s')
  then show ?case using disk_step_inv [OF step(2)] by simp
qed

section \<open>Restart and crash\<close>

text \<open>A first registration on an empty disk.\<close>

lemma demo_change: "disk_change st (snd (upsert_peer now demo_peer st))"
proof (rule change_peer)
  have "json_ok (dump_peer demo_peer)" by (simp add: dump_peer_ok_iff json_ok_object demo_peer_def)
  then show "json_loads (indented_dumps 0 (dump_peer demo_peer)) = Inr (dump_peer demo_peer)" by (rule indented_loads)
  show "validate_peer (utc_now now) (dump_peer demo_peer) = Some demo_peer" by (simp add: validate_dump_peer)
qed

definition registered :: registry where
  "registered = snd (upsert_peer 3 demo_peer (registry_init (Some ''d'')))"

definition registered_disk :: text_fs where
  "registered_disk = save_state_text ''a'' ''b'' registered Map.empty"

lemma registered_reached: "(disk_step px)\<^sup>*\<^sup>* (disk_init ''d'') (registered, registered_disk)"
proof (rule r_into_rtranclp)
  show "disk_step px (disk_init ''d'') (registered, registered_disk)"
    unfolding disk_init_def registered_disk_def
  proof (rule disk_write)
    show "disk_change (registry_init (Some ''d'')) registered" unfolding registered_def by (rule demo_change)
    show "rg_state_dir (registry_init (Some ''d'')) = Some ''d''" by (simp add: registry_init_def)
    show "new_names ''a'' ''b'' ''d'' Map.empty" by (simp add: new_names_def)
  qed
qed

text \<open>
  C5. Whatever changes, restarts and crashes came before, the texts on the disk are read back as the
  state in memory, peers and ledger, and the ledger verifies.
\<close>

theorem disk_restart_restores:
  assumes "(disk_step px)\<^sup>*\<^sup>* (disk_init d) (st, fs)"
  shows "load_state_text px' now (Some d) fs = Inr st \<and> vr_valid (verify_ledger st)"
proof -
  have "disk_inv (st, fs)" "rg_state_dir st = Some d" using disk_reach_inv [OF assms] by simp_all
  then show ?thesis
    using disk_restart_same by (simp add: disk_inv_def registry_inv_def verify_ledger_valid)
qed

theorem disk_restart_restores_witness:
  "load_state_text strict_pydantic 9 (Some ''d'') registered_disk = Inr registered"
  using disk_restart_restores [OF registered_reached] by blast

text \<open>
  C6. A process that stops after any number of file operations of a save, in the middle of a text as
  well, leaves a disk that loads: peers and ledger are each the old or the new ones, and the ledger
  verifies.
\<close>

theorem torn_save_recovers:
  assumes "(disk_step px)\<^sup>*\<^sup>* (disk_init d) (st, fs)" "disk_change st st1"
  shows "\<exists>st'. load_state_text px' now (Some d) (fold run_text_op (take n (state_text_ops r1 r2 d st1)) fs) = Inr st' \<and>
    rg_peers st' \<in> {rg_peers st, rg_peers st1} \<and> rg_ledger st' \<in> {rg_ledger st, rg_ledger st1} \<and>
    vr_valid (verify_ledger st')"
proof -
  have "disk_inv (st, fs)" "rg_state_dir st = Some d" using disk_reach_inv [OF assms(1)] by simp_all
  from disk_crash_reload [OF this(1) assms(2) this(2) refl, where px = px' and now = now and n = n and ?r1.0 = r1 and ?r2.0 = r2]
  show ?thesis by (auto simp: disk_inv_def registry_inv_def verify_ledger_valid)
qed

theorem torn_save_recovers_witness:
  "\<exists>st'. load_state_text strict_pydantic 9 (Some ''d'') (fold run_text_op
      (take 5 (state_text_ops ''x'' ''y'' ''d'' (snd (append_block 7 demo_request registered)))) registered_disk) = Inr st' \<and>
    rg_peers st' = rg_peers registered \<and> vr_valid (verify_ledger st')"
  using torn_save_recovers [OF registered_reached change_block [OF demo_ok(2)], of strict_pydantic 9 5 "''x''" "''y''" 7]
  by auto

text \<open>
  On the disk too the ledger only grows, by one block at a time.
\<close>

theorem disk_ledger_grows:
  assumes "(disk_step px)\<^sup>*\<^sup>* (disk_init d) s" "disk_step px s s'"
  shows "\<exists>bs. rg_ledger (fst s') = rg_ledger (fst s) @ bs \<and> length bs \<le> 1"
  using disk_step_inv [OF assms(2)] disk_reach_inv [OF assms(1)] by blast

theorem disk_ledger_grows_witness:
  "\<exists>bs. rg_ledger registered = [] @ bs \<and> length bs \<le> 1"
  using disk_ledger_grows [OF rtranclp.rtrancl_refl, of strict_pydantic "''d''" "(registered, registered_disk)"]
    disk_write [OF demo_change, of "registry_init (Some ''d'')" "''d''" "''a''" "''b''" Map.empty strict_pydantic 3]
  by (simp add: disk_init_def registered_disk_def registered_def new_names_def registry_init_def)

end
