(* ===== verification/RegistryRef.thy ===== *)
theory RegistryRef
  imports RegistryApiSpec
begin

text \<open>
  The registry store against a reference machine: an order of names, a map of entries and a list of
  appended requests, without files, hashes or lists of pairs. What a caller sees of the store,
  reads, writes, verification and restarts, is what the machine answers.
\<close>

section \<open>Requests and answers\<close>

datatype store_request =
    Upsert int peer_registration
  | Beat string peer_heartbeat
  | AppendBlock int ledger_request
  | ListPeers "nat \<Rightarrow> int"
  | ReadPeer int string
  | WithCapability "nat \<Rightarrow> int" string
  | CountPeers "nat \<Rightarrow> int"
  | ListBlocks
  | VerifyLedger
  | Restart int

datatype store_answer =
    OnePeer "peer_registration option"
  | SeveralPeers "peer_registration list"
  | Counts "(string, nat) dict"
  | Blocks "ledger_block list"
  | Verdict verification_result
  | Raised py_exc
  | Restarted

text \<open>A caller only sends what validation lets through.\<close>

fun request_valid :: "store_request \<Rightarrow> bool" where
  "request_valid (Upsert now p) = peer_ok p"
| "request_valid (AppendBlock now r) = ledger_request_ok r"
| "request_valid _ = True"

definition answered :: "('a \<Rightarrow> store_answer) \<Rightarrow> 'a result \<Rightarrow> store_answer" where
  "answered f r = (case r of Inl e \<Rightarrow> Raised e | Inr x \<Rightarrow> f x)"

lemma answered_simps [simp]: "answered f (Inl e) = Raised e" "answered f (Inr x) = f x"
  by (simp_all add: answered_def)

fun store_step :: "pydantic \<Rightarrow> store_request \<Rightarrow> registry \<Rightarrow> store_answer \<times> registry" where
  "store_step px (Upsert now p) st = (case upsert_peer now p st of (q, st1) \<Rightarrow> (OnePeer (Some q), st1))"
| "store_step px (Beat k hb) st = (case heartbeat k hb st of (q, st1) \<Rightarrow> (OnePeer q, st1))"
| "store_step px (AppendBlock now r) st = (case append_block now r st of (b, st1) \<Rightarrow> (Blocks [b], st1))"
| "store_step px (ListPeers clk) st = (answered SeveralPeers (list_peers clk st), st)"
| "store_step px (ReadPeer now k) st = (answered OnePeer (get_peer now k st), st)"
| "store_step px (WithCapability clk c) st = (answered SeveralPeers (peers_with_capability clk c st), st)"
| "store_step px (CountPeers clk) st = (answered Counts (peer_counts clk st), st)"
| "store_step px ListBlocks st = (Blocks (list_blocks st), st)"
| "store_step px VerifyLedger st = (Verdict (verify_ledger st), st)"
| "store_step px (Restart now) st =
     (case load_state px now (rg_state_dir st) (rg_fs st) of Inl e \<Rightarrow> (Raised e, st) | Inr st1 \<Rightarrow> (Restarted, st1))"

section \<open>The reference machine\<close>

record reference =
  rf_durable :: bool
  rf_order :: "string list"
  rf_entry :: "string \<rightharpoonup> peer_registration"
  rf_log :: "(int \<times> ledger_request) list"

definition rf_empty :: "bool \<Rightarrow> reference" where
  "rf_empty durable = \<lparr>rf_durable = durable, rf_order = [], rf_entry = Map.empty, rf_log = []\<rparr>"

text \<open>The chain a list of requests stands for: numbered from \<open>n\<close>, each block linked to the one before.\<close>

definition sealed :: "nat \<Rightarrow> string option \<Rightarrow> int \<times> ledger_request \<Rightarrow> ledger_block" where
  "sealed n previous = (\<lambda>(now, r).
     let b = \<lparr>lb_block_id = int n, lb_timestamp = utc_now now, lb_event_type = lr_event_type r,
          lb_actor_node = lr_actor_node r, lb_payload_hash = hash_json (JObj (lr_payload r)),
          lb_previous_hash = previous, lb_block_hash = ''''\<rparr>
     in b\<lparr>lb_block_hash := compute_block_hash b\<rparr>)"

fun chain_of :: "nat \<Rightarrow> string option \<Rightarrow> (int \<times> ledger_request) list \<Rightarrow> ledger_block list" where
  "chain_of n previous [] = []"
| "chain_of n previous (x # xs) =
     (let b = sealed n previous x in b # chain_of (Suc n) (Some (lb_block_hash b)) xs)"

text \<open>A read raises when the heartbeat of a peer it returns cannot be read; a status is a matter of age alone.\<close>

definition rf_read :: "(nat \<Rightarrow> int) \<Rightarrow> string list \<Rightarrow> reference \<Rightarrow> peer_registration list result" where
  "rf_read clk ks a =
     (if \<forall>k \<in> set ks. heartbeat_instant (pr_last_heartbeat (the (rf_entry a k))) \<noteq> None
      then Inr (map (\<lambda>i. let p = the (rf_entry a (ks ! i)) in
             p\<lparr>pr_status := status_of_us (clk i - the (heartbeat_instant (pr_last_heartbeat p)))\<rparr>) [0..<length ks])
      else Inl (ValueError ''Invalid isoformat string''))"

definition having :: "peer_status \<Rightarrow> peer_registration list \<Rightarrow> nat" where
  "having s ps = length (filter (\<lambda>p. pr_status p = s) ps)"

fun rf_step :: "store_request \<Rightarrow> reference \<Rightarrow> store_answer \<times> reference" where
  "rf_step (Upsert now p) a =
     (let k = pr_node_id p; q = p\<lparr>pr_status := Online, pr_last_heartbeat := utc_now now\<rparr> in
      (OnePeer (Some q), a\<lparr>rf_order := (if k \<in> set (rf_order a) then rf_order a else rf_order a @ [k]),
         rf_entry := (rf_entry a)(k \<mapsto> q)\<rparr>))"
| "rf_step (Beat k hb) a =
     (case rf_entry a k of None \<Rightarrow> (OnePeer None, a)
      | Some p \<Rightarrow> let q = p\<lparr>pr_status := hb_status hb, pr_last_heartbeat := hb_observed_at hb\<rparr> in
          (OnePeer (Some q), a\<lparr>rf_entry := (rf_entry a)(k \<mapsto> q)\<rparr>))"
| "rf_step (AppendBlock now r) a =
     (let xs = rf_log a @ [(now, r)] in (Blocks [last (chain_of 1 None xs)], a\<lparr>rf_log := xs\<rparr>))"
| "rf_step (ListPeers clk) a = (answered SeveralPeers (rf_read clk (rf_order a) a), a)"
| "rf_step (ReadPeer now k) a =
     (if rf_entry a k = None then OnePeer None
      else answered (\<lambda>ps. OnePeer (Some (hd ps))) (rf_read (\<lambda>_. now) [k] a), a)"
| "rf_step (WithCapability clk c) a =
     (answered SeveralPeers (rf_read clk (filter (\<lambda>k. c \<in> set (pr_capabilities (the (rf_entry a k)))) (rf_order a)) a), a)"
| "rf_step (CountPeers clk) a =
     (answered (\<lambda>ps. Counts [(''online'', having Online ps), (''stale'', having Stale ps), (''offline'', having Offline ps)])
        (rf_read clk (rf_order a) a), a)"
| "rf_step ListBlocks a = (Blocks (chain_of 1 None (rf_log a)), a)"
| "rf_step VerifyLedger a =
     (Verdict \<lparr>vr_valid = True, vr_block_count = int (length (rf_log a)), vr_error = None\<rparr>, a)"
| "rf_step (Restart now) a = (Restarted, if rf_durable a then a else rf_empty False)"

fun answers :: "('q \<Rightarrow> 's \<Rightarrow> 'a \<times> 's) \<Rightarrow> 'q list \<Rightarrow> 's \<Rightarrow> 'a list" where
  "answers step [] s = []"
| "answers step (q # qs) s = (case step q s of (a, s1) \<Rightarrow> a # answers step qs s1)"

section \<open>Simulation\<close>

lemma chain_of_snoc:
  "chain_of n previous (xs @ [x]) =
     chain_of n previous xs @ [sealed (n + length xs) (chain_end lb_block_hash previous (chain_of n previous xs)) x]"
  by (induction xs arbitrary: n previous) (simp_all add: Let_def)

lemma chain_of_length [simp]: "length (chain_of n previous xs) = length xs"
  by (induction xs arbitrary: n previous) (simp_all add: Let_def)

lemma chain_of_append:
  "chain_of (Suc 0) None (xs @ [(now, r)]) = chain_of (Suc 0) None xs @ [make_block now r (chain_of (Suc 0) None xs)]"
  unfolding chain_of_snoc
  by (simp add: sealed_def make_block_def last_hash_def chain_end_def Let_def add.commute [of 1])

definition represents :: "registry \<Rightarrow> reference \<Rightarrow> bool" where
  "represents st a \<longleftrightarrow> registry_inv st \<and> rf_durable a = (rg_state_dir st \<noteq> None) \<and>
     rf_order a = map fst (rg_peers st) \<and> rf_entry a = map_of (rg_peers st) \<and> rg_ledger st = chain_of 1 None (rf_log a)"

lemma set_order:
  "map fst (dict_set k v d) = (if k \<in> set (map fst d) then map fst d else map fst d @ [k])"
  unfolding dict_set_def by (induction d) auto

lemma values_by_key: "dict_ok d \<Longrightarrow> dict_values d = map (\<lambda>k. the (map_of d k)) (map fst d)"
  unfolding dict_ok_def dict_values_def by (auto simp: map_of_eq_Some_iff intro!: map_cong [OF refl])

lemma read_values:
  assumes "dict_ok (rg_peers st)" "rf_entry a = map_of (rg_peers st)"
    and "ps = map (\<lambda>k. the (rf_entry a k)) ks"
  shows "fresh_all clk 0 ps = rf_read clk ks a"
proof (cases "list_all readable ps")
  case True
  then have "fresh_all clk 0 ps = Inr (map (\<lambda>(j, p). fresh (clk j) p) (zip [0..<length ps] ps))"
    using fresh_all_readable [of ps clk 0] by simp
  also have "map (\<lambda>(j, p). fresh (clk j) p) (zip [0..<length ps] ps) =
      map (\<lambda>i. fresh (clk i) (the (rf_entry a (ks ! i)))) [0..<length ks]"
    by (rule nth_equalityI) (simp_all add: assms(3))
  finally show ?thesis
    using True by (simp add: rf_read_def fresh_def Let_def assms(3) readable_def list_all_iff)
next
  case False
  then have "fresh_all clk 0 ps = Inl (ValueError ''Invalid isoformat string'')" by (rule fresh_all_unreadable)
  then show ?thesis using False by (auto simp: rf_read_def assms(3) readable_def list_all_iff)
qed

lemma represents_read:
  assumes "represents st a"
  shows "list_peers clk st = rf_read clk (rf_order a) a"
    and "peers_with_capability clk c st =
      rf_read clk (filter (\<lambda>k. c \<in> set (pr_capabilities (the (rf_entry a k)))) (rf_order a)) a"
proof -
  have ok: "dict_ok (rg_peers st)" using assms by (simp add: represents_def registry_inv_def keyed_peers_def)
  have vals: "dict_values (rg_peers st) = map (\<lambda>k. the (rf_entry a k)) (rf_order a)"
    using values_by_key [OF ok] assms by (simp add: represents_def)
  have entry: "rf_entry a = map_of (rg_peers st)" using assms by (simp add: represents_def)
  show "list_peers clk st = rf_read clk (rf_order a) a"
    unfolding list_peers_def by (rule read_values [OF ok entry vals])
  show "peers_with_capability clk c st =
      rf_read clk (filter (\<lambda>k. c \<in> set (pr_capabilities (the (rf_entry a k)))) (rf_order a)) a"
    unfolding peers_with_capability_def by (rule read_values [OF ok entry]) (simp add: vals filter_map o_def)
qed

lemma represents_get:
  assumes "represents st a"
  shows "answered OnePeer (get_peer now k st) = fst (rf_step (ReadPeer now k) a)"
  using assms by (auto simp: represents_def get_peer_def rf_read_def with_fresh_status_eq split: option.splits)

lemma represents_restart:
  assumes "represents st a"
  shows "\<exists>st'. load_state px now (rg_state_dir st) (rg_fs st) = Inr st' \<and>
     represents st' (if rf_durable a then a else rf_empty False)"
proof (cases "rg_state_dir st")
  case None
  then have "load_state px now (rg_state_dir st) (rg_fs st) = Inr ((registry_init None)\<lparr>rg_fs := rg_fs st\<rparr>)"
    by (simp add: load_state_def registry_init_def)
  then show ?thesis
    using None assms registry_init_inv [of None]
    by (simp add: represents_def registry_inv_def saved_def registry_init_def rf_empty_def)
next
  case (Some d)
  then show ?thesis using assms load_state_inv [of st d px now] by (simp add: represents_def)
qed

lemma step_represents:
  assumes "represents st a" "request_valid q"
  shows "fst (store_step px q st) = fst (rf_step q a) \<and> represents (snd (store_step px q st)) (snd (rf_step q a))"
proof (cases q)
  case (Upsert now p)
  then show ?thesis
    using assms upsert_inv [of st p now]
    by (auto simp: represents_def upsert_peer_def Let_def set_order fun_eq_iff dict.lookup_insert)
next
  case (Beat k hb)
  then show ?thesis
    using assms heartbeat_inv [of st k hb]
    by (auto simp: represents_def heartbeat_def Let_def set_order fun_eq_iff dict.lookup_insert domIff dom_map_of_conv_image_fst
        split: option.splits dest: map_of_SomeD intro: rev_image_eqI)
next
  case (AppendBlock now r)
  then show ?thesis
    using assms append_inv [of st now r]
    by (auto simp: represents_def append_block_def Let_def chain_of_append)
next
  case (Restart now)
  then show ?thesis using represents_restart [OF assms(1), of px now] by auto
next
  case VerifyLedger
  have "vr_valid (verify_ledger st)"
    using assms unfolding represents_def registry_inv_def verify_ledger_valid by metis
  then show ?thesis
    using assms VerifyLedger verify_ledger_count [of st] verify_ledger_ok_error [of st]
    by (cases "verify_ledger st") (simp add: represents_def)
qed (use assms represents_read [OF assms(1)] represents_get [OF assms(1)] in
      \<open>auto simp: peer_counts_eq having_def list_blocks_def represents_def answered_def split: sum.splits\<close>)

text \<open>
  C9. The store implements its specification. Whatever requests it is sent from its start on, reads,
  registrations, heartbeats, appends, verifications and restarts in any order, its answers are
  those of the reference machine: peers in the order of their first registration, each with the
  entry last written and a status that is a matter of age, the ledger as the chain of the requests
  appended, numbered and linked, always valid, and, with a state directory, a restart nobody sees.
\<close>

theorem store_refines_reference:
  assumes "list_all request_valid qs"
  shows "answers (store_step px) qs (registry_init dir) = answers rf_step qs (rf_empty (dir \<noteq> None))"
proof -
  have "answers (store_step px) qs st = answers rf_step qs a" if "represents st a" for st a
    using assms that
  proof (induction qs arbitrary: st a)
    case (Cons q qs)
    then show ?case using step_represents [of st a q px] by (auto simp: split_beta)
  qed simp
  moreover have "represents (registry_init dir) (rf_empty (dir \<noteq> None))"
    using registry_init_inv [of dir] by (simp add: represents_def registry_init_def rf_empty_def)
  ultimately show ?thesis by blast
qed

theorem store_refines_reference_witness:
  "answers (store_step strict_pydantic) [Upsert 3 demo_peer, AppendBlock 5 demo_request, Restart 9, VerifyLedger,
     ReadPeer 9 ''ghost''] (registry_init (Some ''d'')) =
   [OnePeer (Some (demo_peer\<lparr>pr_last_heartbeat := utc_now 3\<rparr>)), Blocks [sealed 1 None (5, demo_request)], Restarted,
    Verdict \<lparr>vr_valid = True, vr_block_count = 1, vr_error = None\<rparr>, OnePeer None]"
  by (subst store_refines_reference) (simp_all add: rf_empty_def Let_def, simp add: demo_peer_def)

end
