(* ===== verification/AuditTrail.thy ===== *)
theory AuditTrail
  imports ServicesSpec
begin

text \<open>
  What the services put on record. In a deployment whose services send their blocks to its registry,
  everything a service keeps has its block in the ledger, and each delivery of an event leaves
  one block of its sender.
\<close>

section \<open>Blocks that arrive\<close>

definition entries_of :: "'m registry_net \<Rightarrow> log_entry list" where
  "entries_of n = ledger_entries (app_store (fst n))"

text \<open>The runtimes are on and name the registry of the deployment, whose ledger no other base URL hides.\<close>

definition wired :: "('s, 'm) deployment \<Rightarrow> bool" where
  "wired dp \<longleftrightarrow>
     (\<forall>settings \<in> {dp_anomaly dp, dp_risk dp, dp_ingestion dp}.
        ss_enable_runtime settings \<and> ss_ledger_url settings = dp_registry_url dp) \<and>
     \<not> starts_with (ss_base_url (dp_anomaly dp)) (dp_registry_url dp @ ''/ledger/blocks'') \<and>
     \<not> starts_with (ss_base_url (dp_risk dp)) (dp_registry_url dp @ ''/ledger/blocks'')"

definition block_post :: "string \<Rightarrow> ledger_request \<Rightarrow> http_request" where
  "block_post url r = \<lparr>rq_method = ''POST'', rq_url = url @ ''/ledger/blocks'', rq_body = Some (dump_ledger_request r)\<rparr>"

lemma append_ledger_net:
  "rt_enabled rt \<Longrightarrow> w_net (snd (append_ledger net rt r w)) = snd (net_send net (block_post (ss_ledger_url (rt_settings rt)) r) (w_net w))"
  by (simp add: append_ledger_def request_json_def send_def block_post_def split_beta split: sum.split)

lemma block_encodable [simp]: "encodable (block_post url r) = json_finite (JObj (lr_payload r))"
  by (simp add: encodable_def block_post_def dump_ledger_request_def)

lemma host_takes_block:
  assumes "ledger_request_ok r"
  shows "entries_of (snd (net_send (registry_host dp) (block_post (dp_registry_url dp) r) n)) = entries_of n @ [request_entry r]"
proof -
  obtain app k m where n: "n = (app, k, m)" by (metis prod_cases3)
  have "net_send (registry_host dp) (block_post (dp_registry_url dp) r) (w_net \<lparr>w_net = n, w_trace = []\<rparr>) =
     (reply_of 201 (fst (serve (dp_interval dp) (dp_clocks dp k) (PostBlock (dump_ledger_request r)) app)),
      (snd (serve (dp_interval dp) (dp_clocks dp k) (PostBlock (dump_ledger_request r)) app), Suc k, m))"
    unfolding registry_host_def block_post_def
    using send_registry [where req = "PostBlock (dump_ledger_request r)" and w = "\<lparr>w_net = n, w_trace = []\<rparr>"] n by simp
  then show ?thesis
    using validate_dump_ledger_request [OF assms] n
    by (simp add: entries_of_def registry_log.entries_append split_beta)
qed

definition told_entry :: "string \<Rightarrow> string \<Rightarrow> (string, json) dict \<Rightarrow> log_entry list" where
  "told_entry et actor d = (if json_finite (JObj d) then [(et, actor, hash_json (JObj d))] else [])"

lemma ledger_takes_block:
  assumes "rt_enabled rt" "ss_ledger_url (rt_settings rt) = dp_registry_url dp" "ledger_request_ok r"
  shows "entries_of (w_net (snd (append_ledger (ledger_net dp) rt r w))) =
     entries_of (w_net w) @ told_entry (lr_event_type r) (lr_actor_node r) (lr_payload r)"
  using assms host_takes_block [OF assms(3), of dp "w_net w"]
  by (cases "json_finite (JObj (lr_payload r))")
    (simp_all add: append_ledger_net ledger_net_def httpx_send httpx_refuses told_entry_def request_entry_def del: json_finite.simps)

lemma peers_take_block:
  assumes "wired dp" "rt_enabled rt" "ss_ledger_url (rt_settings rt) = dp_registry_url dp" "ledger_request_ok r"
  shows "entries_of (pe_registry (w_net (snd (append_ledger (peers_net dp) rt r w)))) =
       entries_of (pe_registry (w_net w)) @ told_entry (lr_event_type r) (lr_actor_node r) (lr_payload r)"
    "pe_anomaly (w_net (snd (append_ledger (peers_net dp) rt r w))) = pe_anomaly (w_net w)"
    "pe_risk (w_net (snd (append_ledger (peers_net dp) rt r w))) = pe_risk (w_net w)"
proof -
  let ?rq = "block_post (dp_registry_url dp) r"
  have "peers_send dp ?rq s = (case net_send (registry_host dp) ?rq (pe_registry s) of (rp, n) \<Rightarrow> (rp, s\<lparr>pe_registry := n\<rparr>))" for s
    using assms(1) by (simp add: peers_send_def block_post_def wired_def)
  then show "entries_of (pe_registry (w_net (snd (append_ledger (peers_net dp) rt r w)))) =
       entries_of (pe_registry (w_net w)) @ told_entry (lr_event_type r) (lr_actor_node r) (lr_payload r)"
    "pe_anomaly (w_net (snd (append_ledger (peers_net dp) rt r w))) = pe_anomaly (w_net w)"
    "pe_risk (w_net (snd (append_ledger (peers_net dp) rt r w))) = pe_risk (w_net w)"
    using assms host_takes_block [OF assms(4), of dp "pe_registry (w_net w)"]
    by (cases "json_finite (JObj (lr_payload r))";
        simp add: append_ledger_net peers_net_def httpx_send httpx_refuses told_entry_def request_entry_def split_beta
          del: json_finite.simps)+
qed

section \<open>Everything kept has its block\<close>

text \<open>
  An alert: the block of its creation, with the alert as it was raised, and, once its status is not the
  initial one, the block of a review that set that status. A snapshot and a market event: their own block.
  What holds an infinity or a NaN is excepted, since the client refuses to send it.
\<close>

definition alerts_audited :: "log_entry list \<Rightarrow> anomaly \<Rightarrow> bool" where
  "alerts_audited es st \<longleftrightarrow>
     (\<forall>(k, a) \<in> set (an_alerts st). json_finite (dump_alert a) \<longrightarrow>
        (''anomaly_alert_created'', azure_node, hash_json (dump_alert (a\<lparr>al_status := ''pending_review''\<rparr>))) \<in> set es \<and>
        (al_status a \<noteq> ''pending_review'' \<longrightarrow>
           (\<exists>review. rv_status review = al_status a \<and>
              (''anomaly_alert_reviewed'', azure_node, hash_json (JObj [(''alert_id'', JStr k), (''review'', dump_review review)]))
                \<in> set es)))"

definition snapshots_audited :: "log_entry list \<Rightarrow> risk \<Rightarrow> bool" where
  "snapshots_audited es st \<longleftrightarrow>
     (\<forall>x \<in> set (rk_snapshots st). json_finite (dump_snapshot x) \<longrightarrow>
        (''risk_snapshot_computed'', gcp_node, hash_json (dump_snapshot x)) \<in> set es)"

definition events_audited :: "log_entry list \<Rightarrow> ingestion \<Rightarrow> bool" where
  "events_audited es st \<longleftrightarrow>
     (\<forall>e \<in> set (in_events st). json_finite (dump_event e) \<longrightarrow>
        (\<exists>et \<in> {''market_event_ingested'', ''market_event_stored''}. (et, aws_node, hash_json (dump_event e)) \<in> set es))"

lemma audited_mono:
  assumes "set es \<subseteq> set es'"
  shows "alerts_audited es st \<Longrightarrow> alerts_audited es' st" "snapshots_audited es r \<Longrightarrow> snapshots_audited es' r"
    "events_audited es i \<Longrightarrow> events_audited es' i"
  using assms unfolding alerts_audited_def snapshots_audited_def events_audited_def by fast+

lemma audit_names_ok [simp]:
  "str_between 3 128 ''anomaly_alert_created''" "str_between 3 128 ''anomaly_alert_reviewed''"
  "str_between 3 128 ''risk_snapshot_computed''" "str_between 3 128 azure_node" "str_between 3 128 gcp_node"
  by (simp_all add: str_between_def azure_node_def gcp_node_def)

lemma payload_objects [simp]:
  "JObj (alert_fields a) = dump_alert a" "JObj (snapshot_fields x) = dump_snapshot x" "JObj (event_payload e) = dump_event e"
  by (simp_all add: alert_fields_def dump_alert_def snapshot_fields_def dump_snapshot_def event_payload_def dump_event_def)

lemma review_finite [simp]: "json_finite (JObj [(''alert_id'', JStr k), (''review'', dump_review review)])"
  by (cases "rv_notes review") (simp_all add: dump_review_def jopt_str_def)

lemma dict_set_value_in: "(k', x) \<in> set (dict_set k v d) \<Longrightarrow> (k', x) = (k, v) \<or> (k', x) \<in> set d"
  unfolding dict_set_def by (induction d) (auto split: if_splits)

lemma alerts_audited_same: "alerts_audited es st \<Longrightarrow> an_alerts st' = an_alerts st \<Longrightarrow> alerts_audited es st'"
  by (simp add: alerts_audited_def)

lemma alerts_audited_set:
  assumes "alerts_audited es st" "an_alerts st' = dict_set k a (an_alerts st)" "al_status a = ''pending_review''"
    and "es' = es @ told_entry ''anomaly_alert_created'' azure_node (alert_fields a)"
  shows "alerts_audited es' st'"
proof -
  have "alerts_audited es' st" using assms(1) by (rule audited_mono(1) [rotated]) (simp add: assms(4))
  moreover have "dump_alert (a\<lparr>al_status := ''pending_review''\<rparr>) = dump_alert a" using assms(3) by (simp add: dump_alert_def)
  ultimately show ?thesis
    using assms(2-4) by (auto simp: alerts_audited_def told_entry_def dest!: dict_set_value_in)
qed

lemma alerts_audited_review:
  assumes "alerts_audited es st" "(k, a) \<in> set (an_alerts st)"
    and "an_alerts st' = dict_set k (a\<lparr>al_status := rv_status review\<rparr>) (an_alerts st)"
    and "es' = es @ [(''anomaly_alert_reviewed'', azure_node, hash_json (JObj [(''alert_id'', JStr k), (''review'', dump_review review)]))]"
  shows "alerts_audited es' st'"
proof -
  have "alerts_audited es' st" using assms(1) by (rule audited_mono(1) [rotated]) (auto simp: assms(4))
  moreover have "json_finite (dump_alert (a\<lparr>al_status := x\<rparr>)) = json_finite (dump_alert a)" for x
    by (simp add: dump_alert_def)
  ultimately show ?thesis
    using assms(2-4) unfolding alerts_audited_def by (fastforce dest!: dict_set_value_in)
qed

lemma saving:
  assumes "\<And>j t. fst (so_save ops j t) = Inr ()"
  shows "(case so_save ops j t of (Inl e, s1) \<Rightarrow> F e s1 | (Inr x, s1) \<Rightarrow> G x s1) = G () (snd (so_save ops j t))"
  using assms [of j t] by (cases "so_save ops j t") simp

text \<open>An appender which, once it is connected, brings every block to the log, unless it cannot be encoded.\<close>

locale recording =
  fixes appender :: "'w ledger_appender option"
    and log_of :: "'w \<Rightarrow> log_entry list"
    and connected :: bool
  assumes told: "connected \<Longrightarrow> str_between 3 128 et \<Longrightarrow> str_between 3 128 a \<Longrightarrow>
      \<exists>w'. record_ledger_event appender et a d w = (Inr (), w') \<and> log_of w' = log_of w @ told_entry et a d"
begin

lemma record_told:
  "record_ledger_event appender et a d w = (x, w1) \<Longrightarrow> connected \<Longrightarrow> str_between 3 128 et \<Longrightarrow> str_between 3 128 a \<Longrightarrow>
     x = Inr () \<and> log_of w1 = log_of w @ told_entry et a d"
  using told [of et a d w] by auto

lemma analyze_audited:
  assumes "alerts_audited (log_of w) st" "an_node_id st = azure_node" "\<And>j t. fst (so_save ops j t) = Inr ()"
    and "connected" "analyze_event ops forest appender uuid now event (st, t, w) = (r, (st', t', w'))"
  shows "alerts_audited (log_of w') st' \<and> an_node_id st' = azure_node"
proof -
  note save = saving [of ops, OF assms(3)]
  let ?f = "extract_features event"
  let ?st1 = "st\<lparr>an_history := touch (ev_symbol event) (an_history st)\<rparr>"
  let ?h = "the (map_of (an_history ?st1) (ev_symbol event))"
  have "an_node_id st' = azure_node \<and> ((w' = w \<and> an_alerts st' = an_alerts st) \<or>
     (\<exists>k a. an_alerts st' = dict_set k a (an_alerts st) \<and> al_status a = ''pending_review'' \<and>
       log_of w' = log_of w @ told_entry ''anomaly_alert_created'' azure_node (alert_fields a)))"
  proof (cases "bindR (rule_based_score ?f ?h) (\<lambda>rule. bindR (model_score forest ?f ?h) (\<lambda>model. Inr (rule, model)))")
    case (Inl e)
    then have "an_node_id st' = an_node_id st \<and> an_alerts st' = an_alerts st \<and> w' = w"
      using assms(5) by (simp add: analyze_event_def Let_def) auto
    then show ?thesis using assms(2) by simp
  next
    case (Inr p)
    obtain x y where p: "p = (x, y)" by (cases p)
    show ?thesis
    proof (cases "flt (pymax x y) (an_alert_threshold st)")
      case True
      then have "an_node_id st' = an_node_id st \<and> an_alerts st' = an_alerts st \<and> w' = w"
        using assms(5) Inr p by (simp add: analyze_event_def Let_def) auto
      then show ?thesis using assms(2) by simp
    next
      case False
      define alert where "alert = \<lparr>al_alert_id = make_prefixed_id ''alt'' uuid, al_event_id = ev_event_id event,
        al_symbol = ev_symbol event, al_severity = severity (pymax x y), al_score = round_nd 4 (pymax x y),
        al_reason = reason ?f x y, al_status = ''pending_review'', al_created_at = utc_now now\<rparr>"
      obtain w1 where w1: "record_ledger_event appender ''anomaly_alert_created'' azure_node (alert_fields alert) w = (Inr (), w1)"
        "log_of w1 = log_of w @ told_entry ''anomaly_alert_created'' azure_node (alert_fields alert)"
        using told [OF assms(4)] by force
      then have "w' = w1 \<and> an_node_id st' = azure_node \<and> an_alerts st' = dict_set (al_alert_id alert) alert (an_alerts st)"
        using assms(2,5) Inr p False by (auto simp: analyze_event_def Let_def save alert_def)
      moreover have "al_status alert = ''pending_review''" by (simp add: alert_def)
      ultimately show ?thesis using w1(2) by blast
    qed
  qed
  then show ?thesis
    using alerts_audited_set [OF assms(1)] alerts_audited_same [OF assms(1)] by auto
qed

lemma review_audited:
  assumes "alerts_audited (log_of w) st" "an_node_id st = azure_node" "\<And>j t. fst (so_save ops j t) = Inr ()"
    and "connected" "review_alert ops appender k review (st, t, w) = (r, (st', t', w'))"
  shows "alerts_audited (log_of w') st' \<and> an_node_id st' = azure_node"
proof (cases "map_of (an_alerts st) k")
  case None
  then show ?thesis using assms by (auto simp: review_alert_def)
next
  case (Some a)
  let ?d = "[(''alert_id'', JStr k), (''review'', dump_review review)]"
  note save = saving [of ops, OF assms(3)]
  obtain w1 where w1: "record_ledger_event appender ''anomaly_alert_reviewed'' azure_node ?d w = (Inr (), w1)"
    "log_of w1 = log_of w @ [(''anomaly_alert_reviewed'', azure_node, hash_json (JObj ?d))]"
    using told [OF assms(4), of "''anomaly_alert_reviewed''" azure_node ?d w] by (auto simp: told_entry_def simp del: json_finite.simps)
  then have "w' = w1 \<and> an_node_id st' = azure_node \<and>
      an_alerts st' = dict_set k (a\<lparr>al_status := rv_status review\<rparr>) (an_alerts st)"
    using assms(2,5) Some by (simp add: review_alert_def Let_def save) auto
  then show ?thesis
    using alerts_audited_review [OF assms(1) map_of_SomeD [OF Some]] w1(2) by blast
qed

lemma compute_audited:
  assumes "snapshots_audited (log_of w) st" "rk_node_id st = gcp_node"
    and "connected" "compute_risk appender uuid now argument (st, w) = (r, (st', w'))"
  shows "snapshots_audited (log_of w') st' \<and> rk_node_id st' = gcp_node"
proof -
  have "rk_node_id st' = gcp_node \<and> ((w' = w \<and> rk_snapshots st' = rk_snapshots st) \<or>
     (\<exists>x. rk_snapshots st' = rk_snapshots st @ [x] \<and>
       log_of w' = log_of w @ told_entry ''risk_snapshot_computed'' gcp_node (snapshot_fields x)))"
    using assms(2,4)
    by (auto simp: compute_risk_def Let_def split: option.splits sum.splits prod.splits dest!: record_told [OF _ assms(3)])
  then show ?thesis using assms(1) by (auto simp: snapshots_audited_def told_entry_def)
qed

lemma ingest_event_audited:
  assumes "snapshots_audited (log_of w) st" "rk_node_id st = gcp_node"
    and "connected" "ingest_event appender uuid now event (st, w) = (r, (st', w'))"
  shows "snapshots_audited (log_of w') st' \<and> rk_node_id st' = gcp_node"
proof -
  let ?st = "risk_save (st\<lparr>rk_events := dict_set (ev_symbol event)
      (dict_get (rk_events st) (ev_symbol event) [] @ [event]) (rk_events st)\<rparr>)"
  have start: "snapshots_audited (log_of w) ?st" "rk_node_id ?st = gcp_node"
    using assms(1,2) by (simp_all add: snapshots_audited_def)
  obtain r1 st1 w1 where c: "compute_risk appender uuid now None (?st, w) = (r1, (st1, w1))" by (metis prod_cases3)
  from compute_audited [OF start assms(3) c] start show ?thesis
    using assms(4) c by (auto simp: ingest_event_def Let_def split: if_splits sum.splits)
qed

lemma event_told:
  assumes "events_audited (log_of w) st" "connected" "et \<in> {''market_event_ingested'', ''market_event_stored''}"
    and "in_events st' = in_events st @ [e]" "record_ledger_event appender et aws_node (event_payload e) w = (x, w')"
  shows "events_audited (log_of w') st'"
proof -
  have t: "log_of w' = log_of w @ told_entry et aws_node (event_payload e)" using record_told [OF assms(5,2)] assms(3) by auto
  then have "events_audited (log_of w') st" using assms(1) audited_mono(3) [of "log_of w" "log_of w'"] by simp
  then show ?thesis using assms(3,4) t by (auto simp: events_audited_def told_entry_def)
qed

end

interpretation ledger_recording: recording "runtime_appender (ledger_net dp) rt" "\<lambda>w. entries_of (w_net w)"
    "rt_enabled rt \<and> ss_ledger_url (rt_settings rt) = dp_registry_url dp" for dp rt
  by unfold_locales
    (auto simp: record_ledger_event_def runtime_appender_def mk_request_ok ledger_takes_block ledger_request_ok_def)

interpretation peers_recording: recording "runtime_appender (peers_net dp) rt" "\<lambda>w. entries_of (pe_registry (w_net w))"
    "wired dp \<and> rt_enabled rt \<and> ss_ledger_url (rt_settings rt) = dp_registry_url dp" for dp rt
  by unfold_locales
    (auto simp: record_ledger_event_def runtime_appender_def mk_request_ok peers_take_block ledger_request_ok_def)

section \<open>The services behind their requests\<close>

definition saves :: "('s, 'm) deployment \<Rightarrow> bool" where
  "saves dp \<longleftrightarrow> (\<forall>j t. fst (so_save (dp_store dp) j t) = Inr ())"

definition peers_audited :: "('s, 'm) peers \<Rightarrow> bool" where
  "peers_audited s \<longleftrightarrow> an_node_id (pe_anomaly s) = azure_node \<and> rk_node_id (pe_risk s) = gcp_node \<and>
     alerts_audited (entries_of (pe_registry s)) (pe_anomaly s) \<and> snapshots_audited (entries_of (pe_registry s)) (pe_risk s)"

definition stack_audited :: "('s, 'm) stack \<Rightarrow> bool" where
  "stack_audited s \<longleftrightarrow> in_node_id (sk_ingestion s) = aws_node \<and> peers_audited (sk_peers s) \<and>
     events_audited (entries_of (pe_registry (sk_peers s))) (sk_ingestion s)"

lemma ops_entries: "registry_op\<^sup>*\<^sup>* st st' \<Longrightarrow> set (ledger_entries st) \<subseteq> set (ledger_entries st')"
  using ops_grow by (fastforce simp: ledger_entries_def)

lemma moves_entries: "peers_move a b \<Longrightarrow> set (entries_of (pe_registry a)) \<subseteq> set (entries_of (pe_registry b))"
  by (simp add: peers_move_def store_moves_def entries_of_def ops_entries)

lemma wired_appenders:
  assumes "wired dp"
  shows "rt_enabled (azure_runtime (dp_anomaly dp)) \<and> ss_ledger_url (rt_settings (azure_runtime (dp_anomaly dp))) = dp_registry_url dp"
    "rt_enabled (gcp_runtime (dp_risk dp)) \<and> ss_ledger_url (rt_settings (gcp_runtime (dp_risk dp))) = dp_registry_url dp"
    "wired dp \<and> rt_enabled (aws_runtime (dp_ingestion dp)) \<and>
       ss_ledger_url (rt_settings (aws_runtime (dp_ingestion dp))) = dp_registry_url dp"
  using assms by (simp_all add: wired_def rt_enabled_def azure_runtime_def gcp_runtime_def aws_runtime_def)

lemma serve_anomaly_audited:
  fixes dp :: "('s, 'm) deployment"
  assumes "wired dp" "saves dp" "alerts_audited (entries_of (w_net w)) st" "an_node_id st = azure_node"
    and "serve_anomaly (dp_store dp) backend forest (ledger_net dp) (dp_anomaly dp) px uuid now req (st, t, w) = (r, (st', t', w'))"
  shows "alerts_audited (entries_of (w_net w')) st' \<and> an_node_id st' = azure_node"
proof -
  have ok: "fst (so_save (dp_store dp) j u) = Inr ()" for j u using assms(2) by (simp add: saves_def)
  note analyze = ledger_recording.analyze_audited [OF assms(3,4) ok wired_appenders(1) [OF assms(1)]]
  note review = ledger_recording.review_audited [OF assms(3,4) ok wired_appenders(1) [OF assms(1)]]
  show ?thesis
  proof (cases req)
    case (Analyze body)
    then have "snd (analyze_ep (dp_store dp) forest (runtime_appender (ledger_net dp) (azure_runtime (dp_anomaly dp)))
        px uuid now body (st, t, w)) = (st', t', w')" using assms(5) by (metis map_outcome_state serve_anomaly.simps(2) snd_conv)
    then show ?thesis
      using assms(3,4) analyze by (auto simp: analyze_ep_def split: option.splits) (metis prod.collapse)+
  next
    case (ReviewAlert k body)
    then have "snd (review_alert_ep (dp_store dp) (runtime_appender (ledger_net dp) (azure_runtime (dp_anomaly dp)))
        now k body (st, t, w)) = (st', t', w')" using assms(5) by (metis map_outcome_state serve_anomaly.simps(5) snd_conv)
    then show ?thesis
      using assms(3,4) review by (auto simp: review_alert_ep_def split: option.splits) (metis prod.collapse)+
  qed (use assms(3-5) in auto)
qed

lemma serve_risk_audited:
  fixes dp :: "('s, 'm) deployment"
  assumes "wired dp" "snapshots_audited (entries_of (w_net w)) st" "rk_node_id st = gcp_node"
    and "serve_risk (ledger_net dp) (dp_risk dp) px uuid now req (st, w) = (r, (st', w'))"
  shows "snapshots_audited (entries_of (w_net w')) st' \<and> rk_node_id st' = gcp_node"
proof -
  note compute = ledger_recording.compute_audited [OF assms(2,3) wired_appenders(2) [OF assms(1)]]
  note ingest = ledger_recording.ingest_event_audited [OF assms(2,3) wired_appenders(2) [OF assms(1)]]
  show ?thesis
  proof (cases req)
    case (PostRiskEvent body)
    then have "snd (ingest_event_ep (runtime_appender (ledger_net dp) (gcp_runtime (dp_risk dp))) px uuid now body (st, w)) = (st', w')"
      using assms(4) by (metis map_outcome_state serve_risk.simps(2) snd_conv)
    then show ?thesis
      using assms(2,3) ingest by (auto simp: ingest_event_ep_def split: option.splits) (metis prod.collapse)+
  next
    case (PostPortfolio body)
    then show ?thesis
      using assms(2-4) by (auto simp: set_portfolio_def snapshots_audited_def split: option.splits)
  next
    case (PostCompute body)
    have "snd (compute_risk_ep (runtime_appender (ledger_net dp) (gcp_runtime (dp_risk dp))) uuid now argument (st, w)) =
        snd (compute_risk (runtime_appender (ledger_net dp) (gcp_runtime (dp_risk dp))) uuid now argument (st, w))" for argument
      by (auto simp: compute_risk_ep_def split: prod.splits sum.splits py_exc.splits)
    then show ?thesis
      using assms(2-4) PostCompute compute
      by (auto split: option.splits) (metis map_outcome_state prod.collapse snd_conv)+
  qed (use assms(2-4) in auto)
qed

text \<open>What every request keeps, of the registry's operations and of the audit.\<close>

definition peers_keep :: "('s, 'm) deployment \<Rightarrow> ('s, 'm) peers \<Rightarrow> ('s, 'm) peers \<Rightarrow> bool" where
  "peers_keep dp a b \<longleftrightarrow> peers_move a b \<and> (wired dp \<longrightarrow> saves dp \<longrightarrow> peers_audited a \<longrightarrow> peers_audited b)"

lemma peers_send_audited:
  assumes "wired dp" "saves dp" "peers_audited s"
  shows "peers_audited (snd (peers_send dp rq s))"
proof -
  note kept = moves_entries [OF peers_send_moves [of s dp rq]]
  have a: "peers_audited (snd (anomaly_request_served dp req s))"
    if "set (entries_of (pe_registry s)) \<subseteq> set (entries_of (pe_registry (snd (anomaly_request_served dp req s))))" for req
  proof -
    obtain r st t w where sv: "serve_anomaly (dp_store dp) (dp_backend dp) (dp_forest dp) (ledger_net dp) (dp_anomaly dp) (dp_px dp)
        (dp_uuid dp (pe_served s)) (dp_now dp (pe_served s)) req
        (pe_anomaly s, pe_store s, \<lparr>w_net = pe_registry s, w_trace = []\<rparr>) = (r, (st, t, w))" by (metis prod_cases4)
    then show ?thesis
      using serve_anomaly_audited [OF assms(1,2) _ _ sv] assms(3) that
      by (auto simp: peers_audited_def anomaly_request_served_def intro: audited_mono(2))
  qed
  have k: "peers_audited (snd (risk_request_served dp req s))"
    if "set (entries_of (pe_registry s)) \<subseteq> set (entries_of (pe_registry (snd (risk_request_served dp req s))))" for req
  proof -
    obtain r st w where sv: "serve_risk (ledger_net dp) (dp_risk dp) (dp_px dp) (dp_uuid dp (pe_served s)) (dp_now dp (pe_served s)) req
        (pe_risk s, \<lparr>w_net = pe_registry s, w_trace = []\<rparr>) = (r, (st, w))" by (metis prod_cases3)
    then show ?thesis
      using serve_risk_audited [OF assms(1) _ _ sv] assms(3) that
      by (auto simp: peers_audited_def risk_request_served_def intro: audited_mono(1))
  qed
  show ?thesis
    using kept assms(3) a k
    by (auto simp: peers_send_def Let_def peers_audited_def split_beta split: option.splits if_splits
        intro: audited_mono(1,2))
qed

interpretation keeping: network_frame "peers_net dp" "peers_keep dp" for dp
  unfolding peers_net_def
proof (rule httpx_frame, unfold_locales)
  show "peers_keep dp n n" for n :: "('a, 'b) peers" by (simp add: peers_keep_def peers_side.R_refl)
  show "peers_keep dp a c" if "peers_keep dp a b" "peers_keep dp b c" for a b c :: "('a, 'b) peers"
    using that peers_side.R_trans by (auto simp: peers_keep_def)
  show "peers_keep dp n (snd (net_send \<lparr>net_send = peers_send dp, net_status_text = dp_status_text dp\<rparr> rq n))"
    for n :: "('a, 'b) peers" and rq by (simp add: peers_keep_def peers_send_moves peers_send_audited)
qed

lemma keep_entries: "peers_keep dp a b \<Longrightarrow> set (entries_of (pe_registry a)) \<subseteq> set (entries_of (pe_registry b))"
  by (simp add: peers_keep_def moves_entries)

definition route_keeps ::
    "('s, 'm) deployment \<Rightarrow> (market_event \<Rightarrow> ('s, 'm) peers world \<Rightarrow> (('s, 'm) peers world, unit) outcome) option \<Rightarrow> bool" where
  "route_keeps dp route \<longleftrightarrow> (\<forall>f event w. route = Some f \<longrightarrow> peers_keep dp (w_net w) (w_net (snd (f event w))))"

lemma forwarded_audited:
  assumes "events_audited (entries_of (pe_registry (w_net w))) st" "route_keeps dp route"
    and "forward_event route event (st, w) = (st', w')"
  shows "events_audited (entries_of (pe_registry (w_net w'))) st'"
proof -
  have e: "in_events st' = in_events st" using forward_event_simps(2) [of route event "(st, w)"] assms(3) by simp
  have "peers_keep dp (w_net w) (w_net w')"
  proof (cases route)
    case None
    then show ?thesis using assms(3) keeping.R_refl by (simp add: forward_event_def)
  next
    case (Some f)
    have "w' = snd (f event w)" using assms(3) Some by (auto simp: forward_event_def split: prod.splits sum.splits)
    then show ?thesis using assms(2) Some by (simp add: route_keeps_def)
  qed
  then show ?thesis using audited_mono(3) [OF keep_entries assms(1)] e by (simp add: events_audited_def)
qed

lemma ingest_audited:
  fixes dp :: "('s, 'm) deployment"
  defines "rt \<equiv> aws_runtime (dp_ingestion dp)"
  assumes "wired dp" "events_audited (entries_of (pe_registry (w_net w))) st" "in_node_id st = aws_node"
    and "route_keeps dp route"
    and "ingest_message (runtime_appender (peers_net dp) rt) route uuid now m (st, w) = (r, (st', w'))"
  shows "events_audited (entries_of (pe_registry (w_net w'))) st' \<and> in_node_id st' = aws_node"
proof -
  let ?ev = "normalized uuid now (in_node_id st) (map_of (in_last_message st) (sm_symbol m)) m"
  let ?st = "ingestion_save (st\<lparr>in_raw_messages := in_raw_messages st @ [m], in_events := in_events st @ [?ev],
    in_last_message := dict_set (sm_symbol m) m (in_last_message st)\<rparr>)"
  obtain x w1 where told: "record_ledger_event (runtime_appender (peers_net dp) rt) ''market_event_ingested'' aws_node (event_payload ?ev) w = (x, w1)"
    by (metis surj_pair)
  have connected: "wired dp \<and> rt_enabled rt \<and> ss_ledger_url (rt_settings rt) = dp_registry_url dp"
    unfolding rt_def by (rule wired_appenders(3) [OF assms(2)])
  have x: "x = Inr ()" using peers_recording.record_told [OF told connected] by simp
  have a: "events_audited (entries_of (pe_registry (w_net w1))) ?st"
    using peers_recording.event_told [OF assms(3) connected _ _ told, of ?st] by simp
  obtain st2 w2 where f: "forward_event route ?ev (?st, w1) = (st2, w2)" by (metis surj_pair)
  then have "(st', w') = (st2, w2)" using assms(4,6) told x by (simp add: ingest_message_def normalize_eq Let_def)
  moreover have "in_node_id st2 = aws_node" using arg_cong [OF f, of "\<lambda>x. in_node_id (fst x)"] assms(4) by simp
  ultimately show ?thesis using forwarded_audited [OF a assms(5) f] by simp
qed

lemma serve_ingestion_audited:
  fixes dp :: "('s, 'm) deployment"
  assumes "wired dp" "events_audited (entries_of (pe_registry (w_net w))) st" "in_node_id st = aws_node"
    and "serve_ingestion (peers_net dp) (dp_ingestion dp) px uuid now req (st, w) = (r, (st', w'))"
  shows "events_audited (entries_of (pe_registry (w_net w'))) st' \<and> in_node_id st' = aws_node"
proof (cases req)
  case (PostMessage body)
  then have e: "snd (ingest_endpoint (peers_net dp) (dp_ingestion dp) px uuid now body (st, w)) = (st', w')"
    using assms(4) by (metis map_outcome_state serve_ingestion.simps(2) snd_conv)
  let ?route = "if rt_enabled (aws_runtime (dp_ingestion dp)) then Some (route_event (peers_net dp) now (aws_runtime (dp_ingestion dp)))
    else None"
  have route: "route_keeps dp ?route" by (auto simp: route_keeps_def keeping.route_event_frame split: if_splits)
  show ?thesis
    using e assms(2,3) ingest_audited [OF assms(1-3) route]
    by (auto simp: ingest_endpoint_def split: option.splits) (metis prod.collapse)+
next
  case (PostEvent body)
  then have e: "snd (store_endpoint (peers_net dp) (dp_ingestion dp) px now body (st, w)) = (st', w')"
    using assms(4) by (metis map_outcome_state serve_ingestion.simps(3) snd_conv)
  show ?thesis
  proof (cases "validate_event px (utc_now now) body")
    case None
    then show ?thesis using e assms(2,3) by (auto simp: store_endpoint_def)
  next
    case (Some event)
    let ?st = "ingestion_save (st\<lparr>in_events := in_events st @ [event]\<rparr>)"
    obtain x w1 where told: "record_ledger_event (runtime_appender (peers_net dp) (aws_runtime (dp_ingestion dp)))
        ''market_event_stored'' aws_node (event_payload event) w = (x, w1)" by (metis surj_pair)
    have "(st', w') = (?st, w1)"
      using e Some told assms(3)
      by (auto simp: store_endpoint_def store_normalized_event_def Let_def split: sum.splits)
    moreover have "events_audited (entries_of (pe_registry (w_net w1))) ?st"
      using peers_recording.event_told [OF assms(2) wired_appenders(3) [OF assms(1)] _ _ told, of ?st] by simp
    ultimately show ?thesis using assms(3) by simp
  qed
qed (use assms(2-4) in \<open>auto split: option.splits\<close>)

lemma stack_send_audited:
  assumes "wired dp" "saves dp" "stack_audited s"
  shows "stack_audited (snd (stack_send dp rq s))"
proof -
  have i: "stack_audited (snd (ingestion_request_served dp req s))" for req
  proof -
    obtain r st w where sv: "serve_ingestion (peers_net dp) (dp_ingestion dp) (dp_px dp) (dp_uuid dp (sk_served s)) (dp_now dp (sk_served s))
        req (sk_ingestion s, \<lparr>w_net = sk_peers s, w_trace = []\<rparr>) = (r, (st, w))" by (metis prod_cases3)
    have "peers_keep dp (sk_peers s) (w_net w)"
      using keeping.serve_ingestion_frame [where dp = dp and s = "(sk_ingestion s, \<lparr>w_net = sk_peers s, w_trace = []\<rparr>)"] sv
      by (metis (no_types, lifting) snd_conv world.select_convs(1))
    then have "peers_audited (w_net w)" using assms by (simp add: peers_keep_def stack_audited_def)
    then show ?thesis
      using serve_ingestion_audited [OF assms(1) _ _ sv] assms(3) sv
      by (simp add: stack_audited_def ingestion_request_served_def)
  qed
  have p: "peers_audited (snd (peers_send dp rq (sk_peers s)))"
    using peers_send_audited [OF assms(1,2)] assms(3) by (simp add: stack_audited_def)
  show ?thesis
    using i p assms(3) moves_entries [OF peers_send_moves [of "sk_peers s" dp rq]]
    by (auto simp: stack_send_def Let_def stack_audited_def split_beta split: option.splits intro: audited_mono(3))
qed

lemma stack_step_audited:
  assumes "stack_step dp s s'" "wired dp" "saves dp" "stack_audited s"
    and "registry_reachable px dir (app_store (stack_app s))" "rg_state_dir (app_store (stack_app s)) = Some d"
  shows "stack_audited s'"
  using assms(1)
proof cases
  case (step_request rq)
  then show ?thesis using stack_send_audited [OF assms(2-4)] by simp
next
  case (step_tick clk)
  have "set (ledger_entries (app_store (stack_app s))) \<subseteq> set (ledger_entries (app_store (stack_app s')))"
    using ops_entries [OF stack_step_moves [OF assms(1,5,6)]] .
  then show ?thesis
    using assms(4) step_tick
    by (auto simp: stack_audited_def peers_audited_def stack_tick_def entries_of_def stack_app_def intro: audited_mono)
next
  case (step_restart now st)
  from restart_store [OF assms(5,6) step_restart(2)] step_restart(1) assms(4) show ?thesis
    by (simp add: stack_audited_def peers_audited_def stack_restart_def entries_of_def stack_app_def)
qed

text \<open>
  C29. Whatever requests arrive at any of the services, in any order, with any bodies, and
  whatever they make each other do, and however often the verifier runs and the registry restarts
  from its files in between: the ledger keeps every block it had and verifies, the registry's files
  give back its state at every point, and everything the services keep has its block: each alert
  that of its creation and, once it is reviewed, that of a review with its status, each risk
  snapshot and each market event its own. Excepted is what holds an infinity or a NaN, which the
  client refuses to send. The services are to name this registry as their ledger, the registry to
  have a state directory, and the store of the alerts not to raise.
\<close>

theorem system_keeps_ledger:
  assumes "registry_reachable px (Some d) (app_store (stack_app s))" "rg_state_dir (app_store (stack_app s)) = Some d"
    and "wired dp" "saves dp" "stack_audited s" "(stack_step dp)\<^sup>*\<^sup>* s s'"
  shows "vr_valid (verify_ledger (app_store (stack_app s'))) \<and>
     (\<exists>bs. rg_ledger (app_store (stack_app s')) = rg_ledger (app_store (stack_app s)) @ bs) \<and>
     load_state px' now (Some d) (rg_fs (app_store (stack_app s'))) = Inr (app_store (stack_app s')) \<and>
     stack_audited s'"
proof -
  have moves: "registry_op\<^sup>*\<^sup>* (app_store (stack_app s)) (app_store (stack_app s'))"
    by (rule stack_run_moves [OF assms(6,1,2)])
  have reach: "registry_reachable px (Some d) (app_store (stack_app s'))" by (rule ops_reachable [OF moves assms(1)])
  have "load_state px' now (Some d) (rg_fs (app_store (stack_app s'))) = Inr (app_store (stack_app s'))"
    using load_state_inv [OF reachable_inv [OF reach]] ops_dir [OF moves] assms(2) by simp
  moreover have "stack_audited s'"
    using assms(6)
  proof (induction rule: rtranclp_induct)
    case (step s1 s2)
    have m: "registry_op\<^sup>*\<^sup>* (app_store (stack_app s)) (app_store (stack_app s1))"
      by (rule stack_run_moves [OF step(1) assms(1,2)])
    have "rg_state_dir (app_store (stack_app s1)) = Some d" using ops_dir [OF m] assms(2) by simp
    from stack_step_audited [OF step(2) assms(3,4) step(3) ops_reachable [OF m assms(1)] this] show ?case .
  qed (rule assms(5))
  ultimately show ?thesis using ops_grow [OF moves] reachable_valid [OF reach] by blast
qed

definition audit_deployment :: "(fs, unit) deployment" where
  "audit_deployment = demo_deployment\<lparr>dp_risk := host_at ''http://c:3''\<rparr>"

definition audit_stack :: "(fs, unit) stack" where
  "audit_stack = demo_stack\<lparr>sk_peers := (demo_peers 0 0)\<lparr>pe_registry :=
     (demo_app\<lparr>app_store := demo_registry (Some ''d'')\<rparr>, 0, ())\<rparr>\<rparr>"

definition audit_request :: http_request where
  "audit_request = \<lparr>rq_method = ''POST'', rq_url = ''http://a:1/ingestion/messages'', rq_body = Some (dump_message demo_message)\<rparr>"

lemma audit_deployment_ok [simp]: "wired audit_deployment" "saves audit_deployment"
  by (simp_all add: wired_def saves_def audit_deployment_def demo_deployment_def host_at_def demo_settings_def
      starts_with_def file_ops_def)

lemma audit_stack_ok [simp]: "stack_audited audit_stack" "app_store (stack_app audit_stack) = demo_registry (Some ''d'')"
  by (simp_all add: stack_audited_def peers_audited_def audit_stack_def demo_stack_def demo_peers_def azure_node_def gcp_node_def
      after_loss_def one_asset_def alerts_audited_def snapshots_audited_def events_audited_def stack_app_def)

theorem system_keeps_ledger_witness:
  "stack_audited (stack_restart (app_store (stack_app (snd (stack_send audit_deployment audit_request audit_stack))))
     (snd (stack_send audit_deployment audit_request audit_stack)))"
proof -
  let ?s = "snd (stack_send audit_deployment audit_request audit_stack)"
  have one: "(stack_step audit_deployment)\<^sup>*\<^sup>* audit_stack ?s" using step_request by blast
  note ok = system_keeps_ledger [of strict_pydantic "''d''" audit_stack audit_deployment, simplified]
  have "rg_state_dir (app_store (stack_app ?s)) = Some ''d''"
    using ops_dir [OF stack_run_moves [OF one, of strict_pydantic "Some ''d''" "''d''"]] by simp
  then have "stack_step audit_deployment ?s (stack_restart (app_store (stack_app ?s)) ?s)"
    using ok [OF one, of "dp_px audit_deployment" 9] by (intro step_restart [where now = 9]) simp
  then show ?thesis using ok [OF rtranclp.rtrancl_into_rtrancl [OF one]] by blast
qed

section \<open>The trail of a router\<close>

text \<open>The blocks of one node. What the other services record under their own names leaves them alone.\<close>

definition node_trail :: "string \<Rightarrow> 'm registry_net \<Rightarrow> log_entry list" where
  "node_trail node n = filter (\<lambda>(et, a, h). a = node) (entries_of n)"

interpretation others: ledger_frame "\<lambda>w w'. node_trail node (w_net w') = node_trail node (w_net w)" actor for node actor
  by unfold_locales simp

lemma others_framed:
  assumes "actor \<noteq> node" "rt_enabled rt \<and> ss_ledger_url (rt_settings rt) = dp_registry_url dp"
  shows "others.framed node actor (runtime_appender (ledger_net dp) rt)"
  using assms unfolding others.framed_def by (auto simp: runtime_appender_def node_trail_def ledger_takes_block told_entry_def)

lemma anomaly_node_kept: "an_node_id (fst (snd (serve_anomaly ops backend forest net settings px uuid now req s))) = an_node_id (fst s)"
  by (cases s; cases req)
    (auto simp: analyze_ep_def analyze_event_def review_alert_ep_def review_alert_def Let_def
      split: option.splits sum.splits prod.splits)

lemma compute_node_kept: "rk_node_id (fst (snd (compute_risk appender uuid now argument s))) = rk_node_id (fst s)"
  by (cases s) (auto simp: compute_risk_def Let_def split: option.splits sum.splits prod.splits)

lemma compute_ep_state: "snd (compute_risk_ep appender uuid now argument s) = snd (compute_risk appender uuid now argument s)"
  by (auto simp: compute_risk_ep_def split: prod.splits sum.splits py_exc.splits)

lemma ingest_node_kept: "rk_node_id (fst (snd (ingest_event appender uuid now event (st, w)))) = rk_node_id st"
  using compute_node_kept [of appender uuid now None "(risk_save (st\<lparr>rk_events := dict_set (ev_symbol event)
      (dict_get (rk_events st) (ev_symbol event) [] @ [event]) (rk_events st)\<rparr>), w)"]
  by (auto simp: ingest_event_def Let_def split: prod.splits sum.splits)

lemma risk_node_kept: "rk_node_id (fst (snd (serve_risk net settings px uuid now req s))) = rk_node_id (fst s)"
  by (cases s; cases req)
    (auto simp: ingest_event_ep_def set_portfolio_def compute_ep_state compute_node_kept ingest_node_kept split: option.splits)

text \<open>Everyone but the router under the name it has in the deployment.\<close>

definition standard_nodes :: "('s, 'm) peers \<Rightarrow> bool" where
  "standard_nodes s \<longleftrightarrow> an_node_id (pe_anomaly s) = azure_node \<and> rk_node_id (pe_risk s) = gcp_node"

lemma not_aws [simp]: "azure_node \<noteq> aws_node" "gcp_node \<noteq> aws_node"
  by (simp_all add: azure_node_def gcp_node_def aws_node_def)

lemma peers_send_trail:
  assumes "wired dp" "standard_nodes s" "\<not> starts_with (dp_registry_url dp) (rq_url rq)"
  shows "node_trail aws_node (pe_registry (snd (peers_send dp rq s))) = node_trail aws_node (pe_registry s) \<and>
     standard_nodes (snd (peers_send dp rq s))"
proof -
  have a: "node_trail aws_node (pe_registry (snd (anomaly_request_served dp req s))) = node_trail aws_node (pe_registry s) \<and>
      standard_nodes (snd (anomaly_request_served dp req s))" for req
    using assms(2) others.serve_anomaly_frame [OF others_framed [OF not_aws(1) wired_appenders(1) [OF assms(1)]],
        where s = "(pe_anomaly s, pe_store s, \<lparr>w_net = pe_registry s, w_trace = []\<rparr>)"]
      anomaly_node_kept [where s = "(pe_anomaly s, pe_store s, \<lparr>w_net = pe_registry s, w_trace = []\<rparr>)"]
    by (simp add: standard_nodes_def anomaly_request_served_def split_beta)
  have k: "node_trail aws_node (pe_registry (snd (risk_request_served dp req s))) = node_trail aws_node (pe_registry s) \<and>
      standard_nodes (snd (risk_request_served dp req s))" for req
    using assms(2) others.serve_risk_frame [OF others_framed [OF not_aws(2) wired_appenders(2) [OF assms(1)]],
        where s = "(pe_risk s, \<lparr>w_net = pe_registry s, w_trace = []\<rparr>)"]
      risk_node_kept [where s = "(pe_risk s, \<lparr>w_net = pe_registry s, w_trace = []\<rparr>)"]
    by (simp add: standard_nodes_def risk_request_served_def split_beta)
  have h: "fst (snd (net_send (registry_host dp) rq n)) = fst n" for n :: "'b registry_net"
    using assms(3) by (cases n) (simp add: registry_host_def registry_network_def registry_send_other)
  show ?thesis
    using a k h assms(2)
    by (auto simp: peers_send_def Let_def node_trail_def entries_of_def standard_nodes_def split_beta split: option.splits)
qed

lemma attempts_trail:
  assumes "wired dp" "standard_nodes s" "\<not> starts_with (dp_registry_url dp) (rq_url rq)"
  shows "node_trail aws_node (pe_registry (state_after (peers_net dp) rq k s)) = node_trail aws_node (pe_registry s) \<and>
     standard_nodes (state_after (peers_net dp) rq k s)"
  using assms(2)
proof (induction k arbitrary: s)
  case (Suc k)
  let ?s = "snd (net_send (peers_net dp) rq s)"
  have "node_trail aws_node (pe_registry ?s) = node_trail aws_node (pe_registry s) \<and> standard_nodes ?s"
    using peers_send_trail [OF assms(1) Suc.prems assms(3)] Suc.prems by (simp add: peers_net_def httpx_net_def)
  then show ?case using Suc.IH [of ?s] by simp
qed simp

text \<open>
  What a delivery to a peer comes to in a state of the network: nothing once one of the three attempts is
  answered well, otherwise the error of the last one; and the block that stands for it.
\<close>

definition delivery_error :: "'n network \<Rightarrow> http_request \<Rightarrow> 'n \<Rightarrow> py_exc option" where
  "delivery_error net rq s =
     (if isl (attempt_value net rq 0 s) \<and> isl (attempt_value net rq 1 s) \<and> isl (attempt_value net rq 2 s)
      then Some (projl (attempt_value net rq 2 s)) else None)"

definition delivery_entry :: "market_event \<Rightarrow> string \<Rightarrow> string \<Rightarrow> peer_registration \<Rightarrow> py_exc option \<Rightarrow> log_entry" where
  "delivery_entry event p et peer exc =
     (case exc of
        None \<Rightarrow> (et, aws_node, hash_json (JObj (event_context event @ [(''target_node'', JStr (pr_node_id peer))])))
      | Some e \<Rightarrow> (''routing_failed'', aws_node,
          hash_json (JObj (failure_context (event_context event) peer (pr_base_url peer @ p) et 3 (Some e)))))"

lemma failure_payload_finite:
  "json_finite (JObj (failure_context (event_context event) peer url et 3 exc))"
  by (simp add: failure_context_def event_context_def dict_set_def)

lemma router_block:
  assumes "wired dp" "ledger_request_ok r" "lr_actor_node r = aws_node" "json_finite (JObj (lr_payload r))" "standard_nodes (w_net w)"
  shows "node_trail aws_node (pe_registry (w_net (snd (append_ledger (peers_net dp) (aws_runtime (dp_ingestion dp)) r w)))) =
       node_trail aws_node (pe_registry (w_net w)) @ [request_entry r] \<and>
     standard_nodes (w_net (snd (append_ledger (peers_net dp) (aws_runtime (dp_ingestion dp)) r w)))"
  using assms(3-5) peers_take_block [OF assms(1) _ _ assms(2), of "aws_runtime (dp_ingestion dp)" w] wired_appenders(3) [OF assms(1)]
  by (simp add: node_trail_def told_entry_def request_entry_def standard_nodes_def del: json_finite.simps)

lemma delivery_trail:
  fixes dp :: "('s, 'm) deployment" and w :: "('s, 'm) peers world"
  defines "rt \<equiv> aws_runtime (dp_ingestion dp)" and "net \<equiv> peers_net dp"
  assumes "wired dp" "standard_nodes (w_net w)" "\<not> starts_with (dp_registry_url dp) (pr_base_url peer @ p)"
  shows "\<exists>body w1. route_with_retries net rt peer p payload et (event_context event)
       default_route_retries default_route_backoff w =
         (Inr (body, delivery_error net (route_request peer p payload) (w_net w)), w1) \<and>
     standard_nodes (w_net w1) \<and>
     node_trail aws_node (pe_registry (w_net w1)) = node_trail aws_node (pe_registry (w_net w)) @
       (case delivery_error net (route_request peer p payload) (w_net w) of None \<Rightarrow> []
        | Some e \<Rightarrow> [delivery_entry event p et peer (Some e)])"
proof -
  let ?rq = "route_request peer p payload"
  let ?failed = "\<lambda>i. isl (attempt_value net ?rq i (w_net w))"
  have quiet: "node_trail aws_node (pe_registry (state_after net ?rq k (w_net w))) = node_trail aws_node (pe_registry (w_net w)) \<and>
      standard_nodes (state_after net ?rq k (w_net w))" for k
    unfolding net_def by (rule attempts_trail [OF assms(3,4)]) (simp add: assms(5) route_request_def)
  have ok: ?thesis if k: "k < 3" "\<not> ?failed k" "\<forall>i < k. ?failed i" for k
  proof -
    obtain body where "attempt_value net ?rq k (w_net w) = Inr body"
      using k(2) by (cases "attempt_value net ?rq k (w_net w)") simp_all
    moreover have "delivery_error net ?rq (w_net w) = None"
      using k by (auto simp: delivery_error_def numeral_3_eq_3 numeral_2_eq_2 less_Suc_eq)
    ultimately show ?thesis
      using k quiet [of "Suc k"] route_delivers_eq [OF default_backoff_fine, of k net peer p payload w body rt et "event_context event"]
      by (auto simp: default_route_retries_def isl_def simp del: state_after.simps)
  qed
  show ?thesis
  proof (cases "?failed 0 \<and> ?failed 1 \<and> ?failed 2")
    case False
    then consider "\<not> ?failed 0" | "?failed 0" "\<not> ?failed 1" | "?failed 0" "?failed 1" "\<not> ?failed 2" by blast
    then show ?thesis
      by cases (rule ok [of 0], simp, simp, simp, rule ok [of 1], simp, simp, simp,
        rule ok [of 2], simp, simp, simp add: less_2_cases_iff)
  next
    case True
    then have "\<forall>i < nat 3. \<exists>e. attempt_value net ?rq i (w_net w) = Inl e"
      by (auto simp: isl_def numeral_3_eq_3 less_Suc_eq numeral_2_eq_2)
    moreover have "str_between 3 128 (rt_node_id rt)" by (simp add: rt_def aws_runtime_def)
    ultimately obtain e where e: "attempt_value net ?rq 2 (w_net w) = Inl e"
      "route_with_retries net rt peer p payload et (event_context event) default_route_retries default_route_backoff w =
        (Inr (JNull, Some e), snd (append_ledger net rt (failure_request rt peer p et (event_context event) 3 e)
          \<lparr>w_net = state_after net ?rq 3 (w_net w), w_trace = w_trace w @ attempts_effects ?rq default_route_backoff 1 3\<rparr>))"
      using route_failure_audited_eq [OF default_backoff_fine, of rt net peer p payload w et "event_context event"]
      by (auto simp: default_route_retries_def)
    let ?r = "failure_request rt peer p et (event_context event) 3 e"
    have r: "ledger_request_ok ?r" "lr_actor_node ?r = aws_node" "json_finite (JObj (lr_payload ?r))"
      using failure_payload_finite by (simp_all add: failure_request_def ledger_request_ok_def rt_def aws_runtime_def del: json_finite.simps)
    have "delivery_error net ?rq (w_net w) = Some e" using True e(1) by (simp add: delivery_error_def)
    moreover have "request_entry ?r = delivery_entry event p et peer (Some e)"
      by (simp add: request_entry_def failure_request_def delivery_entry_def rt_def aws_runtime_def)
    ultimately show ?thesis
      using e(2) quiet [of 3] router_block [OF assms(3) r, of "\<lparr>w_net = state_after net ?rq 3 (w_net w),
          w_trace = w_trace w @ attempts_effects ?rq default_route_backoff 1 3\<rparr>"]
      by (auto simp: rt_def net_def simp del: state_after.simps)
  qed
qed

lemma one_delivery:
  fixes dp :: "('s, 'm) deployment" and payload :: "json option"
  defines "rt \<equiv> aws_runtime (dp_ingestion dp)" and "net \<equiv> peers_net dp"
  assumes "wired dp" "standard_nodes (w_net w)" "str_between 3 128 et" "\<not> starts_with (dp_registry_url dp) (pr_base_url peer @ p)"
  defines "e \<equiv> delivery_error net (route_request peer p payload) (w_net w)"
  shows "\<exists>w'. route_to_peers net rt event p payload et [peer] f w = (Inr (f + (if e = None then 0 else 1)), w') \<and>
     standard_nodes (w_net w') \<and>
     node_trail aws_node (pe_registry (w_net w')) = node_trail aws_node (pe_registry (w_net w)) @ [delivery_entry event p et peer e]"
proof -
  obtain body w1 where d: "route_with_retries net rt peer p payload et (event_context event)
       default_route_retries default_route_backoff w = (Inr (body, e), w1)" "standard_nodes (w_net w1)"
     "node_trail aws_node (pe_registry (w_net w1)) = node_trail aws_node (pe_registry (w_net w)) @
       (case e of None \<Rightarrow> [] | Some x \<Rightarrow> [delivery_entry event p et peer (Some x)])"
    using delivery_trail [OF assms(3,4,6), of payload et event] unfolding e_def net_def rt_def by auto
  show ?thesis
  proof (cases e)
    case None
    let ?r = "\<lparr>lr_event_type = et, lr_actor_node = aws_node,
      lr_payload = event_context event @ [(''target_node'', JStr (pr_node_id peer))]\<rparr>"
    have r: "ledger_request_ok ?r" "lr_actor_node ?r = aws_node" "json_finite (JObj (lr_payload ?r))"
      using assms(5) by (simp_all add: ledger_request_ok_def event_context_def)
    show ?thesis
      using d None assms(5) router_block [OF assms(3) r d(2)]
      by (auto simp: bindS_def mk_request_ok delivery_entry_def request_entry_def rt_def net_def)
  next
    case (Some x)
    then show ?thesis using d by (auto simp: bindS_def)
  qed
qed

lemma route_to_peers_append:
  "route_to_peers net rt event p payload et (xs @ ys) f w =
     bindS (route_to_peers net rt event p payload et xs f w) (route_to_peers net rt event p payload et ys)"
proof (induction xs arbitrary: f w)
  case (Cons peer xs)
  then show ?case by (auto simp: bindS_def split: prod.splits sum.splits option.splits)
qed (simp add: bindS_def)

text \<open>
  C15. The audit trail of routing: ingestion hands an event to a list of peers, whatever these and the
  peers behind them do with it and record of their own. The blocks of ingestion grow by exactly one for
  each peer, in order: the block of the delivery when one of the three attempts, made in the state the
  earlier deliveries have left, was answered well, and otherwise \<open>routing_failed\<close> with the error of the
  last attempt; the result counts the latter.
\<close>

theorem routing_audit_trail:
  fixes dp :: "('s, 'm) deployment" and w :: "('s, 'm) peers world" and event :: market_event and payload :: "json option" and f :: int
  assumes "wired dp" "an_node_id (pe_anomaly (w_net w)) = azure_node" "rk_node_id (pe_risk (w_net w)) = gcp_node"
    and "str_between 3 128 et" "\<forall>peer \<in> set peers. \<not> starts_with (dp_registry_url dp) (pr_base_url peer @ p)"
  defines "routed \<equiv> \<lambda>ps. route_to_peers (peers_net dp) (aws_runtime (dp_ingestion dp)) event p payload et ps f w"
  defines "error \<equiv> \<lambda>i. delivery_error (peers_net dp) (route_request (peers ! i) p payload) (w_net (snd (routed (take i peers))))"
  shows "fst (routed peers) = Inr (f + int (length (filter (\<lambda>i. error i \<noteq> None) [0..<length peers]))) \<and>
     node_trail aws_node (pe_registry (w_net (snd (routed peers)))) =
       node_trail aws_node (pe_registry (w_net w)) @
         map (\<lambda>i. delivery_entry event p et (peers ! i) (error i)) [0..<length peers]"
proof -
  have "fst (routed (take n peers)) = Inr (f + int (length (filter (\<lambda>i. error i \<noteq> None) [0..<n]))) \<and>
     standard_nodes (w_net (snd (routed (take n peers)))) \<and>
     node_trail aws_node (pe_registry (w_net (snd (routed (take n peers))))) =
       node_trail aws_node (pe_registry (w_net w)) @ map (\<lambda>i. delivery_entry event p et (peers ! i) (error i)) [0..<n]"
    if "n \<le> length peers" for n
    using that
  proof (induction n)
    case 0
    then show ?case using assms(2,3) by (simp add: routed_def standard_nodes_def)
  next
    case (Suc n)
    let ?f = "f + int (length (filter (\<lambda>i. error i \<noteq> None) [0..<n]))"
    obtain w1 where w1: "routed (take n peers) = (Inr ?f, w1)" using Suc by (cases "routed (take n peers)") auto
    have "peers ! n \<in> set peers" using Suc.prems by simp
    then have "\<not> starts_with (dp_registry_url dp) (pr_base_url (peers ! n) @ p)" using assms(5) by blast
    then obtain w2 where w2: "route_to_peers (peers_net dp) (aws_runtime (dp_ingestion dp)) event p payload et [peers ! n] ?f w1 =
        (Inr (?f + (if error n = None then 0 else 1)), w2)" "standard_nodes (w_net w2)"
      "node_trail aws_node (pe_registry (w_net w2)) =
        node_trail aws_node (pe_registry (w_net w1)) @ [delivery_entry event p et (peers ! n) (error n)]"
      using one_delivery [OF assms(1) _ assms(4), of w1 "peers ! n" p event payload ?f] Suc w1 by (auto simp: error_def)
    have "routed (take (Suc n) peers) = (Inr (?f + (if error n = None then 0 else 1)), w2)"
      using w1 w2(1) Suc.prems
      by (simp add: routed_def take_Suc_conv_app_nth route_to_peers_append bindS_def del: route_to_peers.simps)
    then show ?case using w1 w2(2,3) Suc by simp
  qed
  from this [of "length peers"] show ?thesis by simp
qed

text \<open>A peer that has gone: nothing answers at its address.\<close>

lemma gone_attempt:
  "attempt_value (peers_net audit_deployment) (route_request demo_peer ''/risk/events'' None) k s = Inl (HttpxError ''unknown host'')"
proof -
  let ?rq = "route_request demo_peer ''/risk/events'' None"
  have "fst (net_send (peers_net audit_deployment) ?rq n) = NoReply ''unknown host''" for n
    by (cases n) (simp add: peers_net_def httpx_net_def encodable_def route_request_def peers_send_def Let_def audit_deployment_def
        demo_deployment_def host_at_def demo_peer_def starts_with_def registry_host_def registry_network_def registry_send_def
        split_beta)
  then show ?thesis by (simp add: attempt_value_def response_value_def)
qed

theorem routing_audit_trail_witness:
  "fst (route_to_peers (peers_net audit_deployment) (aws_runtime (dp_ingestion audit_deployment)) demo_event ''/risk/events''
      None ''event_routed_to_risk'' [demo_peer, demo_peer] 0 \<lparr>w_net = sk_peers audit_stack, w_trace = []\<rparr>) = Inr 2"
proof -
  have "delivery_error (peers_net audit_deployment) (route_request demo_peer ''/risk/events'' None) s = Some (HttpxError ''unknown host'')" for s
    by (simp add: delivery_error_def gone_attempt)
  then show ?thesis
    using routing_audit_trail [OF audit_deployment_ok(1), of "\<lparr>w_net = sk_peers audit_stack, w_trace = []\<rparr>"
        "''event_routed_to_risk''" "[demo_peer, demo_peer]" "''/risk/events''" demo_event None 0]
    by (simp add: audit_stack_def demo_peers_def azure_node_def gcp_node_def after_loss_def one_asset_def audit_deployment_def
        demo_deployment_def demo_peer_def starts_with_def upt_rec)
qed

end
