(* ===== verification/EdgePipeline.thy ===== *)
theory EdgePipeline
  imports SimulatorSpec ServicesSpec JsonGrammar
begin

text \<open>
  From the sensors to the ledger: the simulator publishes (\<open>simulator/mqtt_publisher\<close>), the payloads
  travel as text (\<open>iot/mqtt_client.py\<close>), the bridge forwards them (\<open>iot/bridge.py\<close>) to the deployed
  system of \<open>Services\<close>. The broker between is code outside this repository: what it delivers is a
  list of arrivals.
\<close>

section \<open>Payloads as text\<close>

text \<open>\<open>json.dumps(payload)\<close>: a comma and a blank, a colon and a blank.\<close>

fun plain_dumps :: "json \<Rightarrow> string" where
  "plain_dumps (JList js) = CHR ''['' # join '', '' (map plain_dumps js) @ '']''"
| "plain_dumps (JObj d) = CHR 123 # join '', '' (map (\<lambda>(k, j). json_string k @ '': '' @ plain_dumps j) d) @ [CHR 125]"
| "plain_dumps j = stable_json_dumps j"

lemma blank_space [simp]: "blank '' ''"
  by (simp add: blank_def json_space_def)

lemma plain_text: "json_ok j \<Longrightarrow> json_text j (plain_dumps j)"
proof (induction j)
  case (JList js)
  show ?case
  proof (cases "js = []")
    case True
    then show ?thesis using nil_text [OF blank_Nil] by simp
  next
    case False
    have "items_text (map id js) (join ('','' @ '' '') (map plain_dumps js) @ [])"
      using JList by (intro items_join [OF False]) (auto simp: list_all_iff)
    from list_text [OF this blank_Nil] show ?thesis by simp
  qed
next
  case (JObj d)
  show ?case
  proof (cases "d = []")
    case True
    then show ?thesis using empty_text [OF blank_Nil] by simp
  next
    case False
    have ok: "json_text (id j) (plain_dumps j)" if "(k, j) \<in> set d" for k j
      using JObj that by (force simp: json_ok_object)
    from members_join [of d id plain_dumps, OF False ok blank_space blank_space blank_Nil]
    have "members_text d (join '', '' (map (\<lambda>(k, j). json_string k @ '': '' @ plain_dumps j) d))"
      by (simp add: split_def)
    from object_text [OF this _ blank_Nil] JObj(2) show ?thesis by (simp add: json_ok_object)
  qed
qed (auto intro: text_intros bool_text [of True, simplified] bool_text [of False, simplified])

definition decode_payload :: "string \<Rightarrow> mqtt_payload" where
  "decode_payload body = (case json_loads body of Inr j \<Rightarrow> Payload j | Inl e \<Rightarrow> Undecodable e)"

lemma decode_sent: "json_ok j \<Longrightarrow> decode_payload (plain_dumps j) = Payload j"
  using text_loads [OF plain_text, of j "[]" "[]"] by (simp add: decode_payload_def)

lemma message_json_ok: "is_double (sm_price m) \<Longrightarrow> is_double (sm_volume m) \<Longrightarrow> json_ok (dump_message m)"
  by (simp add: dump_message_def json_ok_object)

lemma tick_decoded: "tick_ok m \<Longrightarrow> decode_payload (plain_dumps (dump_message m)) = Payload (dump_message m)"
  by (simp add: decode_sent message_json_ok tick_ok_def)

section \<open>Deliveries\<close>

text \<open>The arrivals of a list of publications: topic and text of each, at any instants.\<close>

definition arrives :: "string \<times> json \<Rightarrow> arrival \<Rightarrow> bool" where
  "arrives p a \<longleftrightarrow> fst a = fst p \<and> arrival_payload a = decode_payload (plain_dumps (snd p))"

definition deliveries :: "(string \<times> json) list \<Rightarrow> arrival list \<Rightarrow> bool" where
  "deliveries ps xs \<longleftrightarrow> list_all2 arrives ps xs"

section \<open>The bridge in front of the system\<close>

context network_frame
begin

lemma status_frame: "R (w_net w) (w_net (snd (send_status net rq w)))"
  using R_send [of "w_net w" rq] by (simp add: send_status_def split_beta)

lemma handler_frame: "R (w_net w) (w_net (snd (snd (handle_message px net now topic j (br, w)))))"
  using status_frame by (simp add: handle_message_cases R_refl split: option.splits)

lemma arrival_frame:
  "R (w_net w) (w_net (snd (snd (snd (on_message (handle_message px net now) topic p (sb, br, w))))))"
proof (cases p)
  case (Payload j)
  show ?thesis using handler_frame [of w px now topic j br]
    by (auto simp: on_message_def Let_def Payload split: prod.splits sum.splits)
qed (simp add: on_message_def Let_def R_refl)

lemma bridge_frame: "R (w_net w) (w_net (snd (snd (bridge_run px net xs (sb, br, w)))))"
proof (induction xs arbitrary: sb br w)
  case Nil
  show ?case by (simp add: R_refl)
next
  case (Cons a xs)
  obtain topic p now where a: "a = (topic, p, now)" by (cases a)
  obtain sb1 br1 w1 where s: "snd (on_message (handle_message px net now) topic p (sb, br, w)) = (sb1, br1, w1)"
    by (metis prod_cases3)
  have "R (w_net w) (w_net w1)" using arrival_frame [of w px now topic p sb br] by (simp add: s)
  then show ?case using R_trans Cons.IH [of w1 sb1 br1] by (simp add: a s)
qed

end

lemma ingest_stores:
  "in_raw_messages (fst (snd (ingest_message appender route uuid now m (st, w)))) = in_raw_messages st @ [m]"
  by (auto simp: ingest_message_def normalize_eq Let_def split: sum.splits prod.splits)

definition ingested :: "('s, 'm) stack \<Rightarrow> sensor_message list" where
  "ingested s = in_raw_messages (sk_ingestion s)"

lemma message_ingested:
  assumes "message_ok m"
  shows "ingested (snd (stack_send dp \<lparr>rq_method = ''POST'', rq_url = ss_base_url (dp_ingestion dp) @ ''/ingestion/messages'',
     rq_body = Some (dump_message m)\<rparr> s)) = ingested s @ [m]"
  using assms
  by (simp add: stack_send_def Let_def ingestion_route_def request_body_def ingestion_request_served_def split_beta
      ingest_endpoint_def validate_dump_message ingest_stores ingested_def)

text \<open>
  What a delivery of valid messages does, in whatever order and however often each arrives. The ones
  with an infinity or a NaN the bridge's client refuses to send.
\<close>

definition sendable :: "sensor_message \<Rightarrow> bool" where
  "sendable m \<longleftrightarrow> is_finite (sm_price m) \<and> is_finite (sm_volume m)"

lemma forward_encodable [simp]: "encodable (forward_request br m) = sendable m"
  by (simp add: encodable_def forward_request_def dump_message_def sendable_def)

lemma deliveries_ingested:
  assumes "deliveries (map publication ms) xs" "\<forall>m \<in> set ms. tick_ok m"
    and "br_ingestion_url br = ss_base_url (dp_ingestion dp)"
    and "bridge_run px (stack_net dp) xs (sb, br, w) = (sb', br', w')"
  shows "ingested (w_net w') = ingested (w_net w) @ filter sendable ms \<and>
     br_forwarded br' + br_forward_failures br' = br_forwarded br + br_forward_failures br + int (length ms) \<and>
     br_forwarded br' \<le> br_forwarded br + int (length (filter sendable ms)) \<and>
     br_validation_failures br' = br_validation_failures br \<and> sb_errors sb' = sb_errors sb \<and>
     sb_handled sb' = sb_handled sb + int (length ms)"
  using assms
proof (induction ms arbitrary: xs sb br w)
  case Nil
  then show ?case by (simp add: deliveries_def)
next
  case (Cons m ms)
  from Cons.prems(1) obtain a rest where xs: "xs = a # rest" "arrives (publication m) a" "deliveries (map publication ms) rest"
    by (auto simp: deliveries_def list_all2_Cons1)
  obtain topic p now where a: "a = (topic, p, now)" by (cases a)
  have tick: "tick_ok m" "message_ok m" using Cons.prems(2) by (simp_all add: tick_ok_def)
  have p: "p = Payload (dump_message m)"
    using xs(2) tick_decoded [OF tick(1)] by (simp add: a arrives_def arrival_payload_def publication_def)
  obtain ok w1 where sent: "send_status (stack_net dp) (forward_request br m) w = (ok, w1)" by fastforce
  have 1: "ingested (w_net w1) = ingested (w_net w) @ filter sendable [m]" and refused: "\<not> sendable m \<Longrightarrow> \<not> ok"
  proof -
    have n: "w_net w1 = snd (net_send (stack_net dp) (forward_request br m) (w_net w))"
      using sent by (auto simp: send_status_def split: prod.splits)
    have "ingested (snd (stack_send dp (forward_request br m) (w_net w))) = ingested (w_net w) @ [m]"
      using message_ingested [OF tick(2), of dp "w_net w"] Cons.prems(3) by (simp add: forward_request_def)
    then show "ingested (w_net w1) = ingested (w_net w) @ filter sendable [m]"
      by (cases "sendable m") (simp_all add: n stack_net_def httpx_send httpx_refuses)
    show "\<not> ok" if "\<not> sendable m"
      using sent that by (simp add: send_status_def stack_net_def httpx_refuses reply_ok_def)
  qed
  define br1 where "br1 = (if ok then br\<lparr>br_forwarded := br_forwarded br + 1\<rparr>
    else br\<lparr>br_forward_failures := br_forward_failures br + 1\<rparr>)"
  have step: "snd (on_message (handle_message px (stack_net dp) now) topic p (sb, br, w)) =
      (sb\<lparr>sb_received := sb_received sb + 1, sb_handled := sb_handled sb + 1\<rparr>, br1, w1)"
    using tick(2) by (simp add: p on_message_def Let_def handle_message_cases validate_dump_message sent br1_def)
  have "br_ingestion_url br1 = ss_base_url (dp_ingestion dp)" using Cons.prems(3) by (simp add: br1_def)
  moreover have "br_forwarded br1 + br_forward_failures br1 = br_forwarded br + br_forward_failures br + 1"
    "br_forwarded br1 \<le> br_forwarded br + int (length (filter sendable [m]))"
    "br_validation_failures br1 = br_validation_failures br" using refused by (simp_all add: br1_def)
  ultimately show ?case
    using Cons.IH [OF xs(3) _ _ Cons.prems(4) [unfolded xs(1) a bridge_run.simps step]] Cons.prems(2) 1
    by (auto split: if_splits)
qed

lemma bridge_keeps_ledger:
  assumes "registry_reachable px dir (app_store (stack_app (w_net w)))"
    and "bridge_run px' (stack_net dp) xs (sb, br, w) = (sb', br', w')"
  shows "vr_valid (verify_ledger (app_store (stack_app (w_net w')))) \<and>
    (\<exists>bs. rg_ledger (app_store (stack_app (w_net w'))) = rg_ledger (app_store (stack_app (w_net w))) @ bs)"
proof -
  have "stack_moves (w_net w) (w_net w')" using stack_side.bridge_frame [of w px' dp xs sb br] assms(2) by simp
  then have "registry_op\<^sup>*\<^sup>* (app_store (stack_app (w_net w))) (app_store (stack_app (w_net w')))"
    by (simp add: stack_moves_def peers_move_def store_moves_def stack_app_def)
  then show ?thesis using ops_grow reachable_valid [OF ops_reachable [OF _ assms(1)]] by blast
qed

text \<open>
  C24. Every tick of a simulator run arrives: if the client sends what it is given and the broker
  delivers it, once and in order, then ingestion stores, after what it had, exactly the ticks the
  simulator draws from its state, cycle after cycle, with every field as it was drawn, whatever the
  other services do with them. The bridge counts each as forwarded or failed, none as invalid or
  undecodable, and the ledger has kept its blocks and verifies. Ticks with an infinite price or
  volume end at the bridge: its client refuses to send them, so they are not counted as forwarded.
\<close>

theorem simulated_ticks_reach_ingestion:
  fixes sp :: "('g, 'c) sim_publisher" and rng :: "'g rng" and clk :: "int \<Rightarrow> nat \<Rightarrow> int"
    and cycles :: int and ac :: "int option" and a :: string
  assumes "reliable ops" "logs ops sent" "sent (sp_client sp) = []"
    and "simulator_ok (sp_simulator sp)" "is_finite interval" "0 \<le> cycles"
    and "run_publisher rng ops clk cycles interval ac a sp = (r, sp')"
    and "deliveries (sent (sp_client sp')) xs"
    and "br_ingestion_url br = ss_base_url (dp_ingestion dp)"
    and "registry_reachable px dir (app_store (stack_app (w_net w)))"
    and "bridge_run px' (stack_net dp) xs (sb, br, w) = (sb', br', w')"
  defines "ticks \<equiv> drawn rng clk ac a (nat cycles) 0 (sp_simulator sp)"
  shows "r = Inr (sp_published sp + int (length ticks)) \<and>
     map sm_symbol ticks = concat (replicate (nat cycles) (sensors sp)) \<and>
     ingested (w_net w') = ingested (w_net w) @ filter sendable ticks \<and>
     br_forwarded br' + br_forward_failures br' = br_forwarded br + br_forward_failures br + int (length ticks) \<and>
     br_forwarded br' \<le> br_forwarded br + int (length (filter sendable ticks)) \<and>
     br_validation_failures br' = br_validation_failures br \<and> sb_errors sb' = sb_errors sb \<and>
     vr_valid (verify_ledger (app_store (stack_app (w_net w')))) \<and>
     (\<exists>bs. rg_ledger (app_store (stack_app (w_net w'))) = rg_ledger (app_store (stack_app (w_net w))) @ bs)"
proof -
  have run: "r = Inr (sp_published sp + cycles * int (length (sensors sp)))"
      "cycles_of (nat cycles) (sensors sp) ticks" "gave sent ticks sp sp'"
    using run_publisher_reliable [OF assms(1,4-6), of rng clk ac a sent] assms(2,7) by (auto simp: ticks_def)
  have "int (length ticks) = cycles * int (length (sensors sp))" using cycles_length [OF run(2)] assms(6) by simp
  moreover have "deliveries (map publication ticks) xs" using run(3) assms(3,8) by (simp add: gave_def)
  moreover have "\<forall>m \<in> set ticks. tick_ok m" "map sm_symbol ticks = concat (replicate (nat cycles) (sensors sp))"
    using run(2) by (simp_all add: cycles_of_def)
  ultimately show ?thesis
    using deliveries_ingested [OF _ _ assms(9,11)] bridge_keeps_ledger [OF assms(10,11)] run(1) by simp
qed

text \<open>A broker that hands everything on.\<close>

definition hand_on :: "(string \<times> json) list \<Rightarrow> arrival list" where
  "hand_on = map (\<lambda>(t, j). (t, decode_payload (plain_dumps j), 0))"

definition edge_bridge :: bridge where
  "edge_bridge = \<lparr>br_ingestion_url = ''http://a:1'', br_forwarded = 0, br_forward_failures = 0, br_validation_failures = 0\<rparr>"

definition edge_subscriber :: subscriber where
  "edge_subscriber = \<lparr>sb_config = demo_config, sb_topics = [default_topic], sb_received = 0, sb_handled = 0, sb_errors = 0\<rparr>"

definition one_cycle :: "(unit, (string \<times> json) list) sim_publisher" where
  "one_cycle = snd (run_publisher nan_rng log_client (\<lambda>_ _. 0) 1 (Fin 1) None ''BTCUSD''
     (new_sim_publisher log_client demo_config (new_simulator ()) ''quantian-sim''))"

lemma nan_moved: "moved nan_rng False sim se = se\<lparr>se_price := lowest_price, se_volume := Fin 1\<rparr>"
proof -
  have "fadd x NaN = NaN" "fmul x NaN = NaN" for x by (cases x; simp)+
  then have "shifted lowest x NaN = round_nd 6 lowest" for lowest x
    by (simp add: shifted_def pymax_def)
  then show ?thesis
    by (simp add: moved_def shifts_def uniform_def nan_rng_def round_lowest_price round_one \<open>\<And>x. fadd x NaN = NaN\<close> \<open>\<And>x. fmul x NaN = NaN\<close>
        del: round_nd.simps)
qed

lemma nan_tick: "sendable (tick now k (se\<lparr>se_price := lowest_price, se_volume := Fin 1\<rparr>))"
  by (simp add: sendable_def tick_def fl_hundredth is_finite_def)

lemma nan_cycle:
  "map sm_symbol (filter sendable (drawn nan_rng (\<lambda>_ _. 0) None ''BTCUSD'' 1 0 (new_simulator ()))) =
     [''BTCUSD'', ''ETHUSD'', ''AAPL'', ''MSFT'']"
  by (simp add: generate_cycle_def Let_def dict_keys_def new_simulator_def next_message_eq nan_moved bindS_def dict_set_def nan_tick)
    (simp add: tick_def)

theorem simulated_ticks_reach_ingestion_witness:
  "map sm_symbol (ingested (w_net (snd (snd (bridge_run strict_pydantic (stack_net demo_deployment)
     (hand_on (sp_client one_cycle)) (edge_subscriber, edge_bridge, \<lparr>w_net = demo_stack, w_trace = []\<rparr>)))))) =
   [''BTCUSD'', ''ETHUSD'', ''AAPL'', ''MSFT'']"
proof -
  let ?sp = "new_sim_publisher log_client demo_config (new_simulator ()) ''quantian-sim''"
  let ?w = "\<lparr>w_net = demo_stack, w_trace = []\<rparr>"
  have sp: "id (sp_client ?sp) = []" "sp_simulator ?sp = new_simulator ()"
    by (simp_all add: new_sim_publisher_def new_publisher_def secured_def demo_config_def log_client_def)
  have ok: "simulator_ok (sp_simulator ?sp)" unfolding sp by (rule new_simulator_ok)
  obtain r where run: "run_publisher nan_rng log_client (\<lambda>_ _. 0) 1 (Fin 1) None ''BTCUSD'' ?sp = (r, one_cycle)"
    unfolding one_cycle_def by (metis prod.collapse)
  have handed: "deliveries (id (sp_client one_cycle)) (hand_on (sp_client one_cycle))"
    by (auto simp: deliveries_def hand_on_def list.rel_map arrives_def arrival_payload_def intro!: list.rel_refl)
  have url: "br_ingestion_url edge_bridge = ss_base_url (dp_ingestion demo_deployment)" by (simp add: edge_bridge_def)
  have reach: "registry_reachable strict_pydantic None (app_store (stack_app (w_net ?w)))"
    by (simp add: stack_app_def demo_stack_def demo_peers_def demo_app_def)
  obtain sb' br' w' where bridge: "bridge_run strict_pydantic (stack_net demo_deployment) (hand_on (sp_client one_cycle))
      (edge_subscriber, edge_bridge, ?w) = (sb', br', w')" by (metis prod_cases3)
  have "is_finite (Fin 1)" "(0::int) \<le> 1" by (simp_all add: is_finite_def)
  from simulated_ticks_reach_ingestion [OF log_client_works sp(1) ok this run handed url reach bridge]
  have "ingested (w_net w') = ingested (w_net ?w) @ filter sendable (drawn nan_rng (\<lambda>_ _. 0) None ''BTCUSD'' 1 0 (new_simulator ()))"
    by (simp add: sp)
  moreover have "ingested (w_net ?w) = []" by (simp add: ingested_def demo_stack_def)
  ultimately have "map sm_symbol (ingested (w_net w')) = [''BTCUSD'', ''ETHUSD'', ''AAPL'', ''MSFT'']"
    using nan_cycle by (simp only: append_Nil)
  then show ?thesis by (simp add: bridge)
qed

end
