(* ===== verification/CommandLine.thy ===== *)
theory CommandLine
  imports Simulator LocalStack FloatText
begin

text \<open>
  The command lines: what \<open>argparse\<close> makes of the arguments of \<open>simulator/mqtt_publisher/cli.py\<close>,
  \<open>scripts/publish_simulation.py\<close> and \<open>scripts/run_local_stack.py\<close>, parsers of long options only, and the
  \<open>main\<close> of the first two. A wrong command line and \<open>--help\<close> end the process, here \<open>None\<close>; the
  argument \<open>--\<close> is outside the model.
\<close>

section \<open>Options\<close>

datatype option_kind = SwitchOption | IntOption | FloatOption | TextOption

datatype option_value = Switched | IntValue int | FloatValue pyfloat | TextValue string

type_synonym option_table = "(string \<times> option_kind) list"
type_synonym namespace = "(string, option_value) dict"

definition option_names :: "option_table \<Rightarrow> string list" where
  "option_names tab = ''--help'' # map fst tab"

fun convert_option :: "option_kind \<Rightarrow> string \<Rightarrow> option_value option" where
  "convert_option IntOption s = map_option IntValue (parse_int s)"
| "convert_option FloatOption s = map_option FloatValue (parse_float s)"
| "convert_option TextOption s = Some (TextValue s)"
| "convert_option SwitchOption s = None"

text \<open>\<open>_negative_number_matcher\<close>: a minus and digits, with a point and digits after it perhaps.\<close>

definition negative_number :: "string \<Rightarrow> bool" where
  "negative_number s = (case s of [] \<Rightarrow> False
     | c # t \<Rightarrow> c = CHR ''-'' \<and>
         (case span is_digit t of (ip, r) \<Rightarrow>
            (case r of [] \<Rightarrow> ip \<noteq> []
             | d # fp \<Rightarrow> d = CHR ''.'' \<and> fp \<noteq> [] \<and> list_all is_digit fp)))"

text \<open>\<open>arg_string.split("=", 1)\<close>.\<close>

definition split_equals :: "string \<Rightarrow> string \<times> string option" where
  "split_equals s = (case span (\<lambda>c. c \<noteq> CHR ''='') s of (name, r) \<Rightarrow>
     (name, case r of [] \<Rightarrow> None | _ # v \<Rightarrow> Some v))"

text \<open>
  \<open>_parse_optional\<close>: an argument is a value, a known option with what follows its equals sign, or
  neither. An option may be shortened to a prefix no other option has.
\<close>

datatype argument = ValueArgument | OptionArgument string "string option" | WrongArgument

definition classify :: "option_table \<Rightarrow> string \<Rightarrow> argument" where
  "classify tab s =
     (if \<not> starts_with ''-'' s then ValueArgument
      else if s \<in> set (option_names tab) then OptionArgument s None
      else if s = ''-'' then ValueArgument
      else case split_equals s of (name, v) \<Rightarrow>
        if v \<noteq> None \<and> name \<in> set (option_names tab) then OptionArgument name v
        else case (if starts_with ''--'' s then filter (starts_with name) (option_names tab) else []) of
            [full] \<Rightarrow> OptionArgument full v
          | _ # _ # _ \<Rightarrow> WrongArgument
          | [] \<Rightarrow> if starts_with ''-h'' s then WrongArgument
                 else if negative_number s \<or> CHR '' '' \<in> set s then ValueArgument else WrongArgument)"

fun parse_args :: "option_table \<Rightarrow> string list \<Rightarrow> namespace \<Rightarrow> namespace option" where
  "parse_args tab [] ns = Some ns"
| "parse_args tab (s # rest) ns =
     (case classify tab s of
        OptionArgument name explicit \<Rightarrow>
          (case map_of tab name of
             None \<Rightarrow> None
           | Some SwitchOption \<Rightarrow> if explicit = None then parse_args tab rest (dict_set name Switched ns) else None
           | Some kind \<Rightarrow>
               (case explicit of
                  Some v \<Rightarrow> (case convert_option kind v of None \<Rightarrow> None
                      | Some x \<Rightarrow> parse_args tab rest (dict_set name x ns))
                | None \<Rightarrow>
                    (case rest of
                       [] \<Rightarrow> None
                     | v # rest' \<Rightarrow>
                         if classify tab v \<noteq> ValueArgument then None
                         else case convert_option kind v of None \<Rightarrow> None
                           | Some x \<Rightarrow> parse_args tab rest' (dict_set name x ns))))
      | _ \<Rightarrow> None)"

text \<open>Reading the namespace; the default applies when the option was not given.\<close>

definition switched :: "namespace \<Rightarrow> string \<Rightarrow> bool" where
  "switched ns name = (map_of ns name = Some Switched)"

definition int_option :: "namespace \<Rightarrow> string \<Rightarrow> int \<Rightarrow> int" where
  "int_option ns name dflt = (case map_of ns name of Some (IntValue i) \<Rightarrow> i | _ \<Rightarrow> dflt)"

definition float_option :: "namespace \<Rightarrow> string \<Rightarrow> pyfloat \<Rightarrow> pyfloat" where
  "float_option ns name dflt = (case map_of ns name of Some (FloatValue x) \<Rightarrow> x | _ \<Rightarrow> dflt)"

definition text_option :: "namespace \<Rightarrow> string \<Rightarrow> string \<Rightarrow> string" where
  "text_option ns name dflt = (case map_of ns name of Some (TextValue t) \<Rightarrow> t | _ \<Rightarrow> dflt)"

section \<open>The parsers\<close>

definition simulator_options :: option_table where
  "simulator_options = [(''--cycles'', IntOption), (''--delay'', FloatOption), (''--anomaly-symbol'', TextOption),
     (''--seed'', IntOption), (''--mqtt'', SwitchOption), (''--broker-url'', TextOption)]"

text \<open>\<open>cli.py\<close>: \<open>seeded\<close> is \<open>random.Random\<close>; the result is what the mode chosen gives.\<close>

datatype 'g simulator_outcome = OverMqtt "json result" | OverStdout "('g stdout_state, unit) outcome"

definition simulator_main ::
    "(string \<Rightarrow> bool) \<Rightarrow> 'g rng \<Rightarrow> (int \<Rightarrow> 'g) \<Rightarrow> 'c mqtt_client \<Rightarrow> (int \<Rightarrow> nat \<Rightarrow> int) \<Rightarrow> string list \<Rightarrow>
       'g simulator_outcome option" where
  "simulator_main address_ok rng seeded ops clk argv =
     map_option (\<lambda>ns.
       let cycles = int_option ns ''--cycles'' 3; interval = float_option ns ''--delay'' (Fin 0);
           anomaly_symbol = text_option ns ''--anomaly-symbol'' ''BTCUSD''; seed = seeded (int_option ns ''--seed'' 42) in
       if switched ns ''--mqtt''
       then OverMqtt (run_mqtt address_ok rng ops clk cycles interval anomaly_symbol
              (text_option ns ''--broker-url'' ''mqtt://localhost:1883'') seed)
       else OverStdout (run_stdout rng clk cycles interval anomaly_symbol seed))
     (parse_args simulator_options argv [])"

definition publish_options :: option_table where
  "publish_options = [(''--ingestion-url'', TextOption), (''--cycles'', IntOption), (''--interval'', FloatOption),
     (''--anomaly-cycle'', IntOption), (''--anomaly-symbol'', TextOption), (''--seed'', IntOption)]"

definition publish_main ::
    "'g rng \<Rightarrow> (int \<Rightarrow> 'g) \<Rightarrow> 'n network \<Rightarrow> (int \<Rightarrow> nat \<Rightarrow> int) \<Rightarrow> string list \<Rightarrow> 'n world \<Rightarrow>
       ('n world, json) outcome option" where
  "publish_main rng seeded net clk argv w =
     map_option (\<lambda>ns. publish_simulation rng net clk (text_option ns ''--ingestion-url'' ''http://127.0.0.1:8001'')
         (int_option ns ''--cycles'' 12) (float_option ns ''--interval'' (Fin 1)) (int_option ns ''--anomaly-cycle'' 6)
         (text_option ns ''--anomaly-symbol'' ''BTCUSD'') (seeded (int_option ns ''--seed'' 42)) w)
     (parse_args publish_options argv [])"

definition stack_options :: option_table where
  "stack_options = [(''--with-dashboard'', SwitchOption), (''--autoplay'', SwitchOption), (''--cycles'', IntOption),
     (''--interval'', FloatOption), (''--reset-state'', SwitchOption), (''--with-iot-bridge'', SwitchOption),
     (''--mqtt-broker-url'', TextOption)]"

definition parse_stack_args :: "env \<Rightarrow> string list \<Rightarrow> stack_args option" where
  "parse_stack_args e argv =
     map_option (\<lambda>ns. \<lparr>sa_with_dashboard = switched ns ''--with-dashboard'', sa_autoplay = switched ns ''--autoplay'',
         sa_cycles = int_option ns ''--cycles'' 12, sa_interval = float_option ns ''--interval'' (Fin 1),
         sa_reset_state = switched ns ''--reset-state'', sa_with_iot_bridge = switched ns ''--with-iot-bridge'',
         sa_mqtt_broker_url = text_option ns ''--mqtt-broker-url'' (getenv e ''MQTT_BROKER_URL'' ''mqtt://localhost:1883'')\<rparr>)
     (parse_args stack_options argv [])"

section \<open>Reading back what was written\<close>

lemma digits_us_digits: "list_all is_digit s \<Longrightarrow> s \<noteq> [] \<Longrightarrow> digits_us s = Some s"
proof (induction s)
  case (Cons c s)
  show ?case
  proof (cases s)
    case Nil
    then show ?thesis using Cons.prems by simp
  next
    case (Cons d t)
    have "digits_us (d # t) = Some (d # t)" using Cons.IH Cons.prems Cons by simp
    moreover have "is_digit c" "is_digit d" using Cons.prems Cons by simp_all
    moreover have "d \<noteq> CHR ''_''" using calculation(3) by (auto simp: is_digit_def)
    ultimately show ?thesis using Cons by simp
  qed
qed simp

lemma show_nat_all [simp]: "list_all is_digit (show_nat n)"
  using show_nat_digits by (simp add: list_all_iff)

lemma show_nat_ends: "is_digit (hd (show_nat n))" "is_digit (last (show_nat n))"
  using show_nat_digits [of n] show_nat_ne [of n] by simp_all

lemma parse_show_int: "parse_int (show_int i) = Some i"
proof -
  have "strip (show_int i) = show_int i"
  proof (intro strip_none ballI)
    fix c assume "c \<in> set (show_int i)"
    then have "is_digit c \<or> c = CHR ''-''" by (rule show_int_chars)
    then show "\<not> is_space c" by (auto simp: is_digit_def is_space_def)
  qed
  moreover have "parse_sign (show_nat k) = (False, show_nat k)" for k
    using show_nat_ends(1) [of k] by (cases "show_nat k") (auto simp: parse_sign_def is_digit_def)
  ultimately show ?thesis
    by (cases "i < 0") (simp_all add: parse_int_def show_int_def parse_sign_def digits_us_digits)
qed

definition long_names :: "option_table \<Rightarrow> bool" where
  "long_names tab \<longleftrightarrow> list_all (\<lambda>n. starts_with ''--'' n) (map fst tab)"

lemma long_names_tables [simp]: "long_names simulator_options" "long_names publish_options" "long_names stack_options"
  by (simp_all add: long_names_def simulator_options_def publish_options_def stack_options_def starts_with_def)

lemma classify_name: "starts_with ''-'' name \<Longrightarrow> name \<in> fst ` set tab \<Longrightarrow> classify tab name = OptionArgument name None"
  by (simp add: classify_def option_names_def)

lemma classify_plain: "\<not> starts_with ''-'' s \<Longrightarrow> classify tab s = ValueArgument"
  by (simp add: classify_def)

lemma classify_int:
  assumes "long_names tab"
  shows "classify tab (show_int i) = ValueArgument"
proof (cases "i < 0")
  case False
  have "\<not> starts_with ''-'' (show_nat k)" for k
    using show_nat_ends(1) [of k] by (cases "show_nat k") (auto simp: starts_with_def is_digit_def)
  then show ?thesis using False by (simp add: classify_plain show_int_def)
next
  case True
  let ?t = "show_nat (nat (- i))"
  have s: "show_int i = CHR ''-'' # ?t" using True by (simp add: show_int_def)
  obtain d t where t: "?t = d # t" "is_digit d" using show_nat_ends(1) [of "nat (- i)"] show_nat_ne by (cases ?t) auto
  have d: "d \<noteq> CHR ''-''" "d \<noteq> CHR ''h''" using t(2) by (auto simp: is_digit_def)
  have "show_int i \<notin> set (option_names tab)"
    using assms d by (fastforce simp: s t option_names_def long_names_def starts_with_def list_all_iff)
  moreover have "\<forall>c \<in> set (show_int i). c \<noteq> CHR ''=''"
    using show_nat_digits [of "nat (- i)"] by (auto simp: s is_digit_def)
  then have "span (\<lambda>c. c \<noteq> CHR ''='') (show_int i) = (show_int i, [])"
    by (simp add: span_def takeWhile_eq_all_conv dropWhile_eq_Nil_conv)
  then have "split_equals (show_int i) = (show_int i, None)" by (simp add: split_equals_def)
  moreover have "span is_digit ?t = (?t, [])"
    using show_nat_digits [of "nat (- i)"] by (simp add: span_def)
  then have "negative_number (show_int i)" by (simp add: s negative_number_def)
  ultimately show ?thesis using d by (simp add: classify_def s t starts_with_def)
qed

lemma repr_float_plain:
  assumes "is_double x" "\<not> flt x (Fin 0)"
  shows "\<not> starts_with ''-'' (repr_float x)"
proof (cases x)
  case (Fin r)
  have r: "0 \<le> r" using assms(2) by (simp add: Fin)
  have "is_digit (hd (repr_float (Fin r)))"
  proof (cases "r = 0")
    case False
    then obtain ip fd ex where t: "repr_pos r = decimal_text ip fd ex" "good_decimal ip fd ex"
      using repr_pos_decimal [of r] r assms(1) by (auto simp: Fin is_double_def)
    then have "is_digit (hd (repr_pos r))" by (cases ip) (auto simp: decimal_text_def good_decimal_def all_digits_def)
    then show ?thesis using False r by simp
  qed (simp add: is_digit_def)
  then show ?thesis unfolding Fin by (cases "repr_float (Fin r)") (auto simp: starts_with_def is_digit_def)
qed (use assms in \<open>simp_all add: starts_with_def\<close>)


text \<open>One option and its value at the front of the arguments.\<close>

lemma parse_valued:
  assumes "starts_with ''-'' name" "map_of tab name = Some kind" "kind \<noteq> SwitchOption"
    and "classify tab v = ValueArgument" "convert_option kind v = Some x"
  shows "parse_args tab (name # v # rest) ns = parse_args tab rest (dict_set name x ns)"
proof -
  have "classify tab name = OptionArgument name None"
    using assms(1,2) by (intro classify_name) (auto dest: map_of_SomeD intro: rev_image_eqI)
  then show ?thesis using assms by (cases kind) (auto split: option.splits)
qed

lemma parse_switch:
  assumes "starts_with ''-'' name" "map_of tab name = Some SwitchOption"
  shows "parse_args tab (name # rest) ns = parse_args tab rest (dict_set name Switched ns)"
proof -
  have "classify tab name = OptionArgument name None"
    using assms by (intro classify_name) (auto dest: map_of_SomeD intro: rev_image_eqI)
  then show ?thesis using assms by simp
qed

lemma parse_int_option:
  assumes "long_names tab" "starts_with ''-'' name" "map_of tab name = Some IntOption"
  shows "parse_args tab (name # show_int i # rest) ns = parse_args tab rest (dict_set name (IntValue i) ns)"
  by (rule parse_valued [OF assms(2,3)]) (simp_all add: classify_int [OF assms(1)] parse_show_int)

lemma parse_float_option:
  assumes "is_double x" "\<not> flt x (Fin 0)" "starts_with ''-'' name" "map_of tab name = Some FloatOption"
  shows "parse_args tab (name # repr_float x # rest) ns = parse_args tab rest (dict_set name (FloatValue x) ns)"
  by (rule parse_valued [OF assms(3,4)])
    (simp_all add: classify_plain [OF repr_float_plain [OF assms(1,2)]] float_repr_roundtrip [OF assms(1)] del: repr_float.simps)

lemma parse_text_option:
  assumes "\<not> starts_with ''-'' t" "starts_with ''-'' name" "map_of tab name = Some TextOption"
  shows "parse_args tab (name # t # rest) ns = parse_args tab rest (dict_set name (TextValue t) ns)"
  by (rule parse_valued [OF assms(2,3)]) (simp_all add: classify_plain [OF assms(1)])

lemma starts_with_minus: "starts_with ''-'' (CHR ''-'' # s)"
  by (simp add: starts_with_def)

lemma port_digits: "digit_char 0 = CHR ''0''" "digit_char (Suc 0) = CHR ''1''" "digit_char 8 = CHR ''8''"
  by code_simp+

lemma stack_table:
  "map_of stack_options ''--autoplay'' = Some SwitchOption" "map_of stack_options ''--cycles'' = Some IntOption"
  "map_of stack_options ''--interval'' = Some FloatOption"
  by (simp_all add: stack_options_def)

lemma publish_table:
  "map_of publish_options ''--cycles'' = Some IntOption" "map_of publish_options ''--interval'' = Some FloatOption"
  "map_of publish_options ''--ingestion-url'' = Some TextOption"
  by (simp_all add: publish_options_def)

lemma autoplay_args:
  assumes "is_double x" "\<not> flt x (Fin 0)"
  shows "parse_args stack_options [''--autoplay'', ''--cycles'', show_int c, ''--interval'', repr_float x] [] =
    Some [(''--autoplay'', Switched), (''--cycles'', IntValue c), (''--interval'', FloatValue x)]"
  unfolding parse_switch [OF starts_with_minus stack_table(1)]
    parse_int_option [OF long_names_tables(3) starts_with_minus stack_table(2)]
    parse_float_option [OF assms starts_with_minus stack_table(3)]
  by (simp add: dict_set_def)

lemma publish_args:
  assumes "is_double x" "\<not> flt x (Fin 0)" "\<not> starts_with ''-'' url"
  shows "parse_args publish_options [''--cycles'', show_int c, ''--interval'', repr_float x, ''--ingestion-url'', url] [] =
    Some [(''--cycles'', IntValue c), (''--interval'', FloatValue x), (''--ingestion-url'', TextValue url)]"
  unfolding parse_int_option [OF long_names_tables(2) starts_with_minus publish_table(1)]
    parse_float_option [OF assms(1,2) starts_with_minus publish_table(2)]
    parse_text_option [OF assms(3) starts_with_minus publish_table(3)]
  by (simp add: dict_set_def)

text \<open>
  C34. A stack started with \<open>--autoplay --cycles c --interval x\<close> has the publisher do just that: the
  arguments it was given are read as those numbers, and the command it launches is read as a
  simulation of \<open>c\<close> cycles at that interval against its own ingestion service, the interval to the
  last bit. A negative interval is left out: its text may be taken for an option.
\<close>

theorem autoplay_publishes_as_asked:
  assumes "is_double x" "\<not> flt x (Fin 0)"
  shows "\<exists>args. parse_stack_args e [''--autoplay'', ''--cycles'', show_int c, ''--interval'', repr_float x] = Some args \<and>
     args = (default_stack_args e)\<lparr>sa_autoplay := True, sa_cycles := c, sa_interval := x\<rparr> \<and>
     publish_main rng seeded net clk (drop 2 (autoplay_command home args)) w =
       Some (publish_simulation rng net clk ''http://127.0.0.1:8001'' c x 6 ''BTCUSD'' (seeded 42) w)"
proof -
  let ?args = "(default_stack_args e)\<lparr>sa_autoplay := True, sa_cycles := c, sa_interval := x\<rparr>"
  have url: "local_url 8001 = ''http://127.0.0.1:8001''" 
    by (simp add: local_url_def show_nat.simps port_digits)
  have "parse_stack_args e [''--autoplay'', ''--cycles'', show_int c, ''--interval'', repr_float x] = Some ?args"
    unfolding parse_stack_args_def autoplay_args [OF assms]
    by (simp add: switched_def int_option_def float_option_def text_option_def default_stack_args_def)
  moreover have "drop 2 (autoplay_command home ?args) =
      [''--cycles'', show_int c, ''--interval'', repr_float x, ''--ingestion-url'', ''http://127.0.0.1:8001'']"
    unfolding autoplay_command_def url by (simp del: repr_float.simps)
  then have "publish_main rng seeded net clk (drop 2 (autoplay_command home ?args)) w =
       Some (publish_simulation rng net clk ''http://127.0.0.1:8001'' c x 6 ''BTCUSD'' (seeded 42) w)"
    unfolding publish_main_def
    by (simp add: publish_args [OF assms] starts_with_def int_option_def float_option_def text_option_def
        del: repr_float.simps parse_args.simps)
  ultimately show ?thesis by blast
qed

theorem autoplay_publishes_as_asked_witness:
  "\<forall>rng seeded net clk home w. \<exists>args.
     parse_stack_args Map.empty [''--autoplay'', ''--cycles'', show_int 3, ''--interval'', repr_float (Fin 1)] = Some args \<and>
     sa_cycles args = 3 \<and> sa_mqtt_broker_url args = ''mqtt://localhost:1883'' \<and>
     publish_main rng seeded net clk (drop 2 (autoplay_command home args)) w =
       Some (publish_simulation rng net clk ''http://127.0.0.1:8001'' 3 (Fin 1) 6 ''BTCUSD'' (seeded 42) w)"
proof (intro allI)
  fix rng :: "'g rng" and seeded :: "int \<Rightarrow> 'g" and net :: "'n network" and clk home and w :: "'n world"
  have "is_double (Fin 1)" "\<not> flt (Fin 1) (Fin 0)" by simp_all
  from autoplay_publishes_as_asked [OF this, where e = Map.empty and c = 3 and rng = rng and seeded = seeded and net = net
      and clk = clk and home = home and w = w]
  show "\<exists>args. parse_stack_args Map.empty [''--autoplay'', ''--cycles'', show_int 3, ''--interval'', repr_float (Fin 1)] = Some args \<and>
     sa_cycles args = 3 \<and> sa_mqtt_broker_url args = ''mqtt://localhost:1883'' \<and>
     publish_main rng seeded net clk (drop 2 (autoplay_command home args)) w =
       Some (publish_simulation rng net clk ''http://127.0.0.1:8001'' 3 (Fin 1) 6 ''BTCUSD'' (seeded 42) w)"
    by (auto simp: default_stack_args_def getenv_def simp del: repr_float.simps)
qed

end
