(* ===== verification/Spec2Isabelle.thy ===== *)
theory Spec2Isabelle
  imports RegistrySpec RegistryApiSpec RuntimeSpec IngestionSpec AnomalySpec RiskSpec MqttSpec SimulatorSpec CloudRollout
    ServicesSpec LocalFlowSpec LocalStackSpec DashboardTabs ServiceSmokeSpec RegistryDisk
    RegistryRef AuditTrail EdgePipeline CommandLine
begin

text \<open>
  QuantIAN: a registry with a hash-chained ledger, three cloud peers (ingestion, anomaly
  detection, risk), an MQTT edge layer, a market simulator and the script that deploys
  them. This library models the Python code and states what makes it correct. Paths are
  relative to \<open>src/\<close>.

  \<^bold>\<open>The parts and how they interact.\<close>
  Every peer registers with the registry, sends heartbeats and appends what it does to the
  ledger, all through \<open>shared/runtime\<close>. The simulator publishes sensor messages over MQTT; the
  bridge forwards them to ingestion; ingestion normalizes a message into a market event and
  routes it to the peers that declare a capability for it, the anomaly peer and the risk peer;
  these raise alerts and compute risk snapshots. The registry keeps the peers and the ledger
  in two JSON files and verifies the ledger periodically.

  \<^bold>\<open>Language and library.\<close>
  \<^item> \<open>QPrelude\<close>: exceptions as values (\<open>py_exc + 'a\<close>), sequencing of steps that may raise
    (\<open>bindR\<close>, \<open>bindS\<close>), dictionaries in insertion order (\<open>dict_set\<close>, \<open>dict_of\<close>), slices, bounded
    deques. The locale \<open>keyed_store\<close> is the contract of a dictionary.
  \<^item> \<open>PyFloat\<close>, \<open>FloatEval\<close>: binary64 with round-to-nearest-even, infinities and NaN; \<open>min\<close>, \<open>max\<close>,
    \<open>round\<close>, \<open>statistics.mean\<close> and \<open>pstdev\<close>. The locale \<open>rounding\<close> is what the components use of it.
    \<open>float_eval\<close> collects the rules that evaluate a rounding in a witness.
  \<^item> \<open>PyText\<close>, \<open>PyTime\<close>: numerals, string methods, formatting, calendar dates, and ISO timestamps
    as the C code of CPython 3.11 and 3.12 reads them, week dates and fractions after a comma too.
  \<^item> \<open>PyJson\<close>, \<open>JsonCode\<close>, \<open>JsonParse\<close>, \<open>FloatText\<close>, \<open>JsonGrammar\<close>, \<open>JsonRound\<close>: JSON values,
    \<open>stable_json_dumps\<close>, SHA-256 on 32-bit words, \<open>hash_json\<close> (\<open>shared/utils/hashing.py\<close>),
    \<open>make_prefixed_id\<close> (\<open>shared/utils/ids.py\<close>); the canonical text determines the document; seventeen
    digits determine a float; \<open>json_text\<close> is the grammar of the texts of a document, and the decoder
    reads each of them as that document.

  \<^bold>\<open>Components\<close>, each with a theory of definitions and one of what holds of them.
  \<^item> \<open>Schemas\<close>: \<open>shared/schemas/models.py\<close>, a record, \<open>dump_*\<close> and \<open>validate_*\<close> per model.
  \<^item> \<open>Storage\<close>: \<open>shared/config/settings.py\<close> and \<open>shared/storage\<close>. A save to a file is a list of
    file operations, so that a crash is a prefix of it. \<open>json_state_store\<close> is the contract of a store.
    \<open>StateText\<close> has the same files as texts, written character by character.
  \<^item> \<open>Registry\<close>, \<open>HashChain\<close>, \<open>RegistryProps\<close>, \<open>RegistryStatus\<close>, \<open>RegistrySpec\<close>:
    \<open>registry_service/store.py\<close>. The record \<open>registry\<close> is \<open>RegistryStore\<close>, one definition per method;
    \<open>registry_step\<close> is a relation of the operations, a restart and a crash inside a save. Its
    invariant is proved by rule induction; \<open>hash_chain\<close> gives tamper evidence. \<open>RegistryDisk\<close> runs the
    store on a disk of texts, where a crash may fall between two characters.
  \<^item> \<open>RegistryApi\<close>, \<open>AuditLog\<close>, \<open>RegistryApiSpec\<close>: \<open>registry_service/main.py\<close>; \<open>serve\<close> is validation
    and dispatch, \<open>success_status\<close> the status of an answer. The store refines a map of peers and an
    \<open>audit_log\<close>; \<open>RegistryRef\<close> compares its answers to a sequence of requests, the reads included,
    with those of the reference machine \<open>rf_step\<close>.
  \<^item> \<open>Runtime\<close>, \<open>RuntimeSpec\<close>: \<open>shared/runtime/service_runtime.py\<close> over any network, and over a
    network in which one address is the registry of this library.
  \<^item> \<open>Ingestion\<close>, \<open>IngestionSpec\<close>: \<open>aws_ingestion\<close>. \<open>quiet_appender\<close> is the contract of the ledger
    callback, provided by the runtime.
  \<^item> \<open>Anomaly\<close>, \<open>AnomalySpec\<close>: \<open>azure_anomaly\<close>; \<open>durable_store\<close> is what a restart relies on.
  \<^item> \<open>Risk\<close>, \<open>RiskSpec\<close>: \<open>gcp_risk\<close>.
  \<^item> \<open>BrokerUrl\<close>, \<open>Mqtt\<close>, \<open>MqttSpec\<close>: \<open>iot\<close>, with the part of \<open>urllib.parse\<close> it uses.
  \<^item> \<open>Simulator\<close>, \<open>SimulatorSpec\<close>: \<open>simulator/mqtt_publisher\<close>, \<open>scripts/publish_simulation.py\<close>.
  \<^item> \<open>Cloud\<close>, \<open>CloudParts\<close>, \<open>CloudProvision\<close>, \<open>CloudDeploy\<close>, \<open>CloudSpec\<close>, \<open>CloudDeploySpec\<close>,
    \<open>CloudRollout\<close>: \<open>scripts/cloud_deploy.py\<close>, its functions in the order of the file, as steps on
    a record of manifests, source trees, a clock and the command line tools.

  \<^item> \<open>Services\<close>, \<open>NetFrame\<close>, \<open>ServicesSpec\<close>: the module level and the routes of the three peers, and
    the composed system: a network in which the registry and the peers answer at their addresses.
    \<open>network_frame\<close> says that a relation every request keeps is kept by every program that only sends
    requests; its instances follow the registry through any of them. \<open>httpx_net\<close> is the client: a body
    with an infinity or NaN is refused before it is sent. \<open>ledger_frame\<close> is the same for a service
    that touches the world through the blocks under its own name.
  \<^item> \<open>AuditTrail\<close>: what the composed system records. The locale \<open>recording\<close> is the contract of an
    appender that leaves its block; with it everything a service keeps is followed to its block, and
    the blocks of ingestion through the deliveries of an event.
  \<^item> \<open>EdgePipeline\<close>: the simulator, the texts on the wire (\<open>iot/mqtt_client.py\<close>), the bridge and the
    composed system in a row; what the broker delivers is a list of arrivals.
  \<^item> \<open>LocalFlow\<close>, \<open>LocalFlowSpec\<close>: \<open>scripts/local_flow_demo.py\<close>, the services in one process around one
    store. \<open>DiscoveryFlow\<close>, \<open>DiscoveryFlowSpec\<close>: \<open>scripts/discovery_flow_demo.py\<close>, the services behind
    their endpoints, with discovery and routing done by the script. \<open>ServiceSmoke\<close>,
    \<open>ServiceSmokeSpec\<close>: \<open>scripts/service_smoke_test.py\<close>, every service driven once.
  \<^item> \<open>LocalStack\<close>, \<open>LocalStackSpec\<close>: \<open>scripts/run_local_stack.py\<close>, the services as child processes of a
    script that waits, idles and cleans up; Ctrl-C is a result of the calls that block.
  \<^item> \<open>CommandLine\<close>: the argument parsers of \<open>simulator/mqtt_publisher/cli.py\<close>,
    \<open>scripts/publish_simulation.py\<close> and \<open>scripts/run_local_stack.py\<close>, with what \<open>argparse\<close> does with
    options, shortened names and values; the argument \<open>--\<close> is outside the model.
  \<^item> \<open>Dashboard\<close>, \<open>DashboardSpec\<close>, \<open>DashboardTabs\<close>: \<open>dashboard/app.py\<close>, a run of the page as steps on
    the requests sent, the elements shown and the session; a session is an inductive relation over runs.

  \<^bold>\<open>What the lemmas show.\<close>
  The ledger: append-only, always verified, tampering found or a SHA-256 collision shown, first
  fault named, files that load after a crash anywhere. Statuses: exact thresholds in
  microseconds, and the timestamp that makes the reads raise. The store answers any sequence of
  requests like its reference machine. The runtime: number of attempts and
  delays, the audit block of a failed delivery, registering again. Ingestion: comparison with the
  latest message of the symbol, one counter per outcome, one block per routed peer, whatever these
  peers do. Anomaly: scores
  in the unit interval, monotone in the deviation, alerts exactly from the threshold, bounded
  history, and the sample that poisons a symbol. Risk: the order statistic behind value at risk,
  the range of the drawdown for returns not below -1, the outcomes of a computation and all that
  each changes. The edge: addresses read back, every
  arrival accounted for; the simulator publishes the ticks it draws and disconnects, and with a broker
  that delivers, ingestion stores these ticks as they were drawn, to the last bit. Deployment: the exact
  build context, waits that end, what a deployed service is configured with, generated names. The
  composed system: no request to any service, whatever it sets off, harms the ledger or the files of
  the registry, and every alert, review, snapshot and event kept has its block; an event is
  stored once per delivery attempt; both demos keep exact books, and the smoke test passes. The local stack starts in order and
  leaves no process behind; the publisher it launches reads back the numbers the stack was given. The dashboard: a view only reads, a session sends only what its buttons
  stand for, the ledger tab is a summary of the ledger, and an answer it does not catch, to whichever of its GET
  requests, ends its run there.

  \<^bold>\<open>Bounds and fuel.\<close>
  The JSON decoder takes fuel, twice the length of the text and two more, which \<open>text_read\<close>
  shows to be enough for every text of the grammar. Waiting loops recurse on the time left to
  their deadline, so they are total. Code points are below 256 and instants lie in the years 1 to
  9999; the deployment's clock is after 1970, and the readings of its waits stay in those years.

  \<^bold>\<open>Parameters.\<close>
  pydantic's conversions between types, the HTTP network, the paho client, scikit-learn's isolation
  forest, the Azure blob SDK, the random generator, the random part of ids, the clock and the
  command line tools are arguments of the definitions, never fixed by them.

  \<^bold>\<open>Not modelled.\<close>
  \<open>web_dashboard\<close> is TypeScript, and draws what the services return. Of \<open>dashboard/app.py\<close> the layout
  and what Streamlit itself raises are left out. \<open>dist\<close> holds copies of the services made by the
  packaging commands. \<open>tests\<close> exercises the services. \<open>infra\<close> is shell
  and container configuration. What is printed or logged, the threads of one process beyond the atomic
  steps its locks make, and an interrupt between two statements that do not block are left out, as is the limit of 4300 digits
  that \<open>int\<close> puts on the text of a number.
\<close>

end
